(* ===== verification/Prelude.thy ===== *)
theory Prelude
  imports Main "HOL-Library.Word"
begin

text \<open>
  Shared vocabulary of the development: the names of the machine types, the fact
  collections the component theories fill, and generic lemmas on lists, options and
  modular indices that several components use.
\<close>

unbundle bit_operations_syntax

type_synonym u8 = "8 word"
type_synonym u16 = "16 word"
type_synonym u32 = "32 word"
type_synonym u64 = "64 word"

text \<open>
  \<open>guard_defs\<close>: unfolding rules of fallible steps.  \<open>option_inv\<close>: inversion rules for
  computations that return \<open>Some\<close>.  \<open>xor_linear\<close>: the push-through rules of the maps that
  are linear over GF(2).
\<close>

named_theorems guard_defs
named_theorems option_inv
named_theorems xor_linear

subsection \<open>Fallible steps\<close>

text \<open>
  An \<open>assert\<close> of the source: the computation goes on only when the condition holds.
\<close>

definition assert_that :: "bool \<Rightarrow> 'a option \<Rightarrow> 'a option" where
  "assert_that c r = (if c then r else None)"

lemma assert_that_Some [option_inv]:
  "assert_that c r = Some x \<longleftrightarrow> c \<and> r = Some x"
  by (simp add: assert_that_def)

lemma assert_that_simps [simp]:
  "assert_that True r = r" "assert_that False r = None"
  by (simp_all add: assert_that_def)

lemma case_option_Some [option_inv]:
  "(case m of None \<Rightarrow> None | Some x \<Rightarrow> f x) = Some y \<longleftrightarrow> (\<exists>x. m = Some x \<and> f x = Some y)"
  by (cases m) auto

lemma bind_Some_iff [option_inv]:
  "Option.bind m f = Some y \<longleftrightarrow> (\<exists>x. m = Some x \<and> f x = Some y)"
  by (cases m) auto

subsection \<open>Modular indices\<close>

lemma mod_add_less_split:
  assumes "a < n" "b \<le> n"
  shows "(a + b) mod n = (if a + b < n then a + b else a + b - (n::nat))"
  using assms by (auto simp: mod_if)

lemma mod_pred:
  assumes "a < n"
  shows "(a + n - 1) mod n = (if a = 0 then n - 1 else a - (1::nat))"
  using assms by (auto simp: mod_if)

lemma mod_add_inj:
  assumes "i < n" "j < n" "(a + i) mod n = (a + j) mod (n::nat)"
  shows "i = j"
proof (rule ccontr)
  assume "i \<noteq> j"
  then consider "i < j" | "j < i" by linarith
  then have "n dvd (if i < j then j - i else i - j)"
    by cases (use assms(3) mod_eq_dvd_iff_nat[of "a + i" "a + j" n]
        mod_eq_dvd_iff_nat[of "a + j" "a + i" n] in auto)
  with assms \<open>i \<noteq> j\<close> show False by (auto dest: dvd_imp_le split: if_splits)
qed

subsection \<open>Lists\<close>

lemma distinct_snoc [simp]: "distinct (xs @ [x]) \<longleftrightarrow> distinct xs \<and> x \<notin> set xs"
  by auto

lemma set_take_Suc:
  assumes "n < length xs"
  shows "set (take (Suc n) xs) = insert (xs ! n) (set (take n xs))"
  using assms by (simp add: take_Suc_conv_app_nth)

lemma filter_conj_eq: "filter P (filter Q xs) = filter (\<lambda>x. P x \<and> Q x) xs"
  by (induction xs) auto

lemma remove1_eq_filter: "distinct xs \<Longrightarrow> remove1 x xs = filter (\<lambda>y. y \<noteq> x) xs"
  by (induction xs) (auto intro: filter_True[symmetric])

definition head_of :: "'a list \<Rightarrow> 'a option" where
  "head_of xs = (case xs of [] \<Rightarrow> None | x # _ \<Rightarrow> Some x)"

lemma head_of_simps [simp]: "head_of [] = None" "head_of (x # xs) = Some x"
  by (simp_all add: head_of_def)

lemma head_of_append: "head_of (xs @ ys) = (if xs = [] then head_of ys else head_of xs)"
  by (cases xs) auto

lemma head_of_None [simp]: "head_of xs = None \<longleftrightarrow> xs = []"
  by (cases xs) auto

lemma head_of_Some_in: "head_of xs = Some x \<Longrightarrow> x \<in> set xs"
  by (cases xs) auto

lemma head_of_nth: "xs \<noteq> [] \<Longrightarrow> head_of xs = Some (xs ! 0)"
  by (cases xs) auto

subsection \<open>Cursor loops\<close>

text \<open>
  The loop \<open>for (p = first; p != nullptr;) { ... p = next; }\<close>: the body returns the next
  cursor and the new state, or fails.  Nothing bounds the loop but its own termination.
\<close>

partial_function (option) walk ::
  "('a \<Rightarrow> 's \<Rightarrow> ('a option \<times> 's) option) \<Rightarrow> 'a option \<Rightarrow> 's \<Rightarrow> 's option" where
  "walk body p st =
     (case p of
        None \<Rightarrow> Some st
      | Some x \<Rightarrow> (case body x st of
          None \<Rightarrow> None
        | Some r \<Rightarrow> walk body (fst r) (snd r)))"

lemma walk_None [simp]: "walk body None st = Some st"
  by (simp add: walk.simps)

lemma walk_Some:
  "walk body (Some x) st = (case body x st of None \<Rightarrow> None | Some r \<Rightarrow> walk body (fst r) (snd r))"
  by (simp add: walk.simps)

text \<open>
  Total correctness of a cursor loop: \<open>I xs st\<close> says that \<open>xs\<close> is still to be visited;
  every step keeps it and makes the measure smaller.
\<close>

lemma walk_total:
  fixes m :: "'a list \<Rightarrow> 's \<Rightarrow> nat"
  assumes "I xs st"
    and "\<And>x xs st. I (x # xs) st \<Longrightarrow> \<exists>xs' st'. body x st = Some (head_of xs', st')
      \<and> I xs' st' \<and> m xs' st' < m (x # xs) st"
  shows "\<exists>st'. walk body (head_of xs) st = Some st' \<and> I [] st'"
  using assms(1)
proof (induction "m xs st" arbitrary: xs st rule: less_induct)
  case less
  show ?case
  proof (cases xs)
    case Nil
    then show ?thesis using less.prems by simp
  next
    case (Cons x rest)
    with assms(2) less.prems obtain xs' st' where
      "body x st = Some (head_of xs', st')" "I xs' st'" "m xs' st' < m xs st" by blast
    with less.hyps show ?thesis using Cons by (simp add: walk_Some)
  qed
qed

text \<open>A loop whose body always moves to the next element of a fixed list is a fold.\<close>

fun fold_option :: "('a \<Rightarrow> 's \<Rightarrow> 's option) \<Rightarrow> 'a list \<Rightarrow> 's \<Rightarrow> 's option" where
  "fold_option f [] st = Some st"
| "fold_option f (x # xs) st = (case f x st of None \<Rightarrow> None | Some st' \<Rightarrow> fold_option f xs st')"

lemma fold_option_append:
  "fold_option f (xs @ ys) st = Option.bind (fold_option f xs st) (fold_option f ys)"
  by (induction xs arbitrary: st) (auto split: option.splits)

lemma fold_option_total:
  assumes "I st" "\<And>x st. x \<in> set xs \<Longrightarrow> I st \<Longrightarrow> \<exists>st'. f x st = Some st' \<and> I st'"
  shows "\<exists>st'. fold_option f xs st = Some st' \<and> I st'"
  using assms
proof (induction xs arbitrary: st)
  case (Cons x xs)
  then obtain st' where "f x st = Some st'" "I st'" by (meson list.set_intros(1))
  with Cons show ?case by simp
qed simp

end
