(* ===== verification/Collections.thy ===== *)
theory Collections
  imports Prelude
begin

text \<open>
  The fixed-size containers of \<open>engine/collection/core\<close>: the circular queue, the object
  pool with its free-index stack, and the message queue.  \<open>size_t\<close> indices are natural
  numbers (every container is far smaller than the address space); a template parameter
  \<open>N\<close> or \<open>MaxSize\<close> is the length of the array in the state.
\<close>

subsection \<open>FixedCircularQueue\<close>

text \<open>
  \<open>m_data\<close> is the backing array, of length \<open>MaxSize\<close>.  An \<open>assert\<close> of the source that
  fails is the result \<open>None\<close>.
\<close>

record 'a fixed_circular_queue =
  m_data :: "'a list"
  m_front :: nat
  m_back :: nat
  m_size :: nat

definition queue_at :: "'a fixed_circular_queue \<Rightarrow> nat \<Rightarrow> 'a option" where
  "queue_at q idx = assert_that (m_size q \<noteq> 0)
     (Some (m_data q ! ((idx + m_front q) mod length (m_data q))))"

definition queue_set_at ::
  "'a fixed_circular_queue \<Rightarrow> nat \<Rightarrow> 'a \<Rightarrow> 'a fixed_circular_queue option" where
  "queue_set_at q idx v = assert_that (m_size q \<noteq> 0)
     (Some (q\<lparr>m_data := (m_data q)[(idx + m_front q) mod length (m_data q) := v]\<rparr>))"

definition queue_empty :: "'a fixed_circular_queue \<Rightarrow> bool" where
  "queue_empty q \<longleftrightarrow> m_size q = 0"

definition queue_full :: "'a fixed_circular_queue \<Rightarrow> bool" where
  "queue_full q \<longleftrightarrow> m_size q \<ge> length (m_data q)"

definition queue_clear :: "'a fixed_circular_queue \<Rightarrow> 'a fixed_circular_queue" where
  "queue_clear q = q\<lparr>m_front := 0, m_back := 0, m_size := 0\<rparr>"

definition placementResize ::
  "'a fixed_circular_queue \<Rightarrow> nat \<Rightarrow> 'a fixed_circular_queue option" where
  "placementResize q n = assert_that (n \<le> length (m_data q))
     (Some (q\<lparr>m_front := 0, m_back := n, m_size := n\<rparr>))"

text \<open>
  Writing at \<open>m_back\<close> outside the array is undefined; only \<open>placementResize\<close> to the full
  capacity leaves \<open>m_back\<close> there.
\<close>

definition pushTail :: "'a fixed_circular_queue \<Rightarrow> 'a \<Rightarrow> 'a fixed_circular_queue option" where
  "pushTail q v = assert_that (\<not> queue_full q \<and> m_back q < length (m_data q))
     (Some (q\<lparr>m_data := (m_data q)[m_back q := v],
              m_back := (m_back q + 1) mod length (m_data q),
              m_size := m_size q + 1\<rparr>))"

definition pushHead :: "'a fixed_circular_queue \<Rightarrow> 'a \<Rightarrow> 'a fixed_circular_queue option" where
  "pushHead q v = assert_that (\<not> queue_full q)
     (let f = (m_front q + length (m_data q) - 1) mod length (m_data q)
      in Some (q\<lparr>m_data := (m_data q)[f := v], m_front := f, m_size := m_size q + 1\<rparr>))"

definition popTail :: "'a fixed_circular_queue \<Rightarrow> ('a \<times> 'a fixed_circular_queue) option" where
  "popTail q = assert_that (\<not> queue_empty q)
     (let b = (m_back q + length (m_data q) - 1) mod length (m_data q)
      in Some (m_data q ! b, q\<lparr>m_back := b, m_size := m_size q - 1\<rparr>))"

definition popHead :: "'a fixed_circular_queue \<Rightarrow> ('a \<times> 'a fixed_circular_queue) option" where
  "popHead q = assert_that (\<not> queue_empty q)
     (Some (m_data q ! m_front q,
            q\<lparr>m_front := (m_front q + 1) mod length (m_data q), m_size := m_size q - 1\<rparr>))"

definition queue_tail :: "'a fixed_circular_queue \<Rightarrow> 'a option" where
  "queue_tail q = assert_that (\<not> queue_empty q)
     (Some (m_data q ! ((m_back q + length (m_data q) - 1) mod length (m_data q))))"

definition queue_head :: "'a fixed_circular_queue \<Rightarrow> 'a option" where
  "queue_head q = assert_that (\<not> queue_empty q) (Some (m_data q ! m_front q))"

text \<open>The abstract content, oldest (head) element first, and the representation invariant.\<close>

definition queue_list :: "'a fixed_circular_queue \<Rightarrow> 'a list" where
  "queue_list q = map (\<lambda>i. m_data q ! ((m_front q + i) mod length (m_data q))) [0..<m_size q]"

definition queue_inv :: "'a fixed_circular_queue \<Rightarrow> bool" where
  "queue_inv q \<longleftrightarrow> m_front q < length (m_data q) \<and> m_size q \<le> length (m_data q)
     \<and> m_back q = (m_front q + m_size q) mod length (m_data q)"

lemmas queue_defs [guard_defs] = queue_at_def queue_set_at_def queue_empty_def queue_full_def
  queue_clear_def placementResize_def pushTail_def pushHead_def popTail_def popHead_def
  queue_tail_def queue_head_def


lemma length_queue_list [simp]: "length (queue_list q) = m_size q"
  by (simp add: queue_list_def)

lemma queue_list_nth:
  "i < m_size q \<Longrightarrow> queue_list q ! i = m_data q ! ((m_front q + i) mod length (m_data q))"
  by (simp add: queue_list_def)

lemma queue_inv_nonempty_data: "queue_inv q \<Longrightarrow> m_data q \<noteq> []"
  by (auto simp: queue_inv_def)

lemma queue_list_Nil_iff: "queue_list q = [] \<longleftrightarrow> m_size q = 0"
  using length_queue_list[of q] by (metis length_0_conv)

text \<open>A slot outside the occupied window never shows in the content.\<close>

lemma queue_slot_free:
  assumes "queue_inv q" "m_size q < length (m_data q)" "i < m_size q"
  shows "(m_front q + i) mod length (m_data q) \<noteq> m_back q"
  using assms mod_add_inj[of i "length (m_data q)" "m_size q" "m_front q"]
  by (auto simp: queue_inv_def)

lemma pushTail_correct:
  assumes "queue_inv q" "m_size q < length (m_data q)"
  shows "\<exists>q'. pushTail q v = Some q' \<and> queue_inv q' \<and> queue_list q' = queue_list q @ [v]
           \<and> length (m_data q') = length (m_data q)"
proof -
  let ?N = "length (m_data q)"
  have bk: "m_back q < ?N" using assms by (simp add: queue_inv_def queue_inv_nonempty_data)
  have eq: "m_back q = (m_front q + m_size q) mod ?N" using assms by (simp add: queue_inv_def)
  have "map (\<lambda>i. (m_data q)[m_back q := v] ! ((m_front q + i) mod ?N)) [0..<m_size q]
      = map (\<lambda>i. m_data q ! ((m_front q + i) mod ?N)) [0..<m_size q]"
    using queue_slot_free[OF assms, THEN not_sym] by auto
  moreover have "(m_data q)[m_back q := v] ! ((m_front q + m_size q) mod ?N) = v"
    using bk eq by simp
  moreover have "Suc (m_back q) mod ?N = Suc (m_front q + m_size q) mod ?N"
    using eq by (simp add: mod_Suc_eq)
  ultimately show ?thesis using assms bk
    by (auto simp: pushTail_def queue_full_def queue_list_def queue_inv_def)
qed

lemma popHead_correct:
  assumes "queue_inv q" "queue_list q = x # xs"
  shows "\<exists>q'. popHead q = Some (x, q') \<and> queue_inv q' \<and> queue_list q' = xs
           \<and> length (m_data q') = length (m_data q)"
proof -
  let ?N = "length (m_data q)"
  have sz: "m_size q = Suc (length xs)" using assms(2) by (metis length_Cons length_queue_list)
  have x: "x = m_data q ! m_front q"
    using assms queue_list_nth[of 0 q] sz by (simp add: queue_inv_def)
  have "xs ! i = m_data q ! ((Suc (m_front q) mod ?N + i) mod ?N)" if "i < length xs" for i
    using that assms(2) queue_list_nth[of "Suc i" q] sz by (simp add: mod_simps)
  then have "map (\<lambda>i. m_data q ! ((Suc (m_front q) mod ?N + i) mod ?N)) [0..<length xs] = xs"
    by (intro nth_equalityI) auto
  moreover have "Suc (m_front q) mod ?N < ?N"
    using assms by (simp add: queue_inv_nonempty_data)
  ultimately show ?thesis using assms sz x
    by (auto simp: popHead_def queue_empty_def queue_list_def queue_inv_def mod_simps)
qed

lemma pushHead_correct:
  assumes "queue_inv q" "m_size q < length (m_data q)"
  shows "\<exists>q'. pushHead q v = Some q' \<and> queue_inv q' \<and> queue_list q' = v # queue_list q
           \<and> length (m_data q') = length (m_data q)"
proof -
  let ?N = "length (m_data q)"
  define f where "f = (m_front q + ?N - 1) mod ?N"
  have N: "0 < ?N" using assms by (simp add: queue_inv_nonempty_data)
  have front: "m_front q < ?N" using assms by (simp add: queue_inv_def)
  have f: "(f + Suc i) mod ?N = (m_front q + i) mod ?N" for i
  proof -
    have "(f + Suc i) mod ?N = (m_front q + ?N - 1 + Suc i) mod ?N" unfolding f_def by (rule mod_add_left_eq)
    also have "m_front q + ?N - 1 + Suc i = m_front q + i + ?N" using N by simp
    finally show ?thesis by simp
  qed
  have flt: "f < ?N" using N by (simp add: f_def)
  have ne: "(m_front q + i) mod ?N \<noteq> f" if "i < m_size q" for i
    using mod_add_inj[of "Suc i" ?N 0 f] mod_add_inj[of "Suc i" ?N f 0] f[of i] that assms(2) N flt by auto
  have "map (\<lambda>i. (m_data q)[f := v] ! ((f + i) mod ?N)) [0..<Suc (m_size q)]
      = v # map (\<lambda>i. m_data q ! ((m_front q + i) mod ?N)) [0..<m_size q]"
    unfolding upt_conv_Cons[OF zero_less_Suc] map_Suc_upt[symmetric]
    using flt ne[THEN not_sym] f by auto
  moreover have "pushHead q v
      = Some (q\<lparr>m_data := (m_data q)[f := v], m_front := f, m_size := m_size q + 1\<rparr>)"
    using assms by (simp add: pushHead_def queue_full_def f_def Let_def)
  ultimately show ?thesis using assms flt f[of "m_size q"]
    by (auto simp: queue_list_def queue_inv_def)
qed

lemma popTail_correct:
  assumes "queue_inv q" "queue_list q = xs @ [x]"
  shows "\<exists>q'. popTail q = Some (x, q') \<and> queue_inv q' \<and> queue_list q' = xs
           \<and> length (m_data q') = length (m_data q)"
proof -
  let ?N = "length (m_data q)"
  have sz: "m_size q = Suc (length xs)"
    using assms(2) by (metis length_append_singleton length_queue_list)
  have N: "0 < ?N" using assms by (simp add: queue_inv_nonempty_data)
  have b: "(m_back q + ?N - 1) mod ?N = (m_front q + length xs) mod ?N"
  proof -
    have "(m_back q + ?N - 1) mod ?N = ((m_front q + m_size q) mod ?N + (?N - 1)) mod ?N"
      using assms N by (simp add: queue_inv_def)
    also have "\<dots> = (m_front q + m_size q + (?N - 1)) mod ?N" by (simp add: mod_simps)
    also have "m_front q + m_size q + (?N - 1) = m_front q + length xs + ?N"
      using sz N by simp
    finally show ?thesis by simp
  qed
  have x: "x = m_data q ! ((m_front q + length xs) mod ?N)"
    using assms(2) queue_list_nth[of "length xs" q] sz by simp
  have "xs ! i = m_data q ! ((m_front q + i) mod ?N)" if "i < length xs" for i
    using that assms(2) queue_list_nth[of i q] sz by (simp add: nth_append)
  then have "map (\<lambda>i. m_data q ! ((m_front q + i) mod ?N)) [0..<length xs] = xs"
    by (intro nth_equalityI) auto
  with assms sz x b show ?thesis
    by (auto simp: popTail_def queue_empty_def queue_list_def queue_inv_def Let_def)
qed

lemma queue_at_correct:
  assumes "queue_inv q" "i < m_size q"
  shows "queue_at q i = Some (queue_list q ! i)"
  using assms by (simp add: queue_at_def queue_list_nth add.commute)

lemma queue_head_correct:
  assumes "queue_inv q" "m_size q \<noteq> 0"
  shows "queue_head q = Some (hd (queue_list q))"
  using assms by (simp add: queue_head_def queue_empty_def queue_list_nth hd_conv_nth
      queue_list_Nil_iff queue_inv_def)

lemma queue_clear_correct:
  assumes "m_data q \<noteq> []"
  shows "queue_inv (queue_clear q)" "queue_list (queue_clear q) = []"
  using assms by (auto simp: queue_clear_def queue_inv_def queue_list_def)

lemma queue_set_at_correct:
  assumes "queue_inv q" "i < m_size q"
  shows "\<exists>q'. queue_set_at q i v = Some q' \<and> queue_inv q' \<and> queue_list q' = (queue_list q)[i := v]"
proof -
  let ?N = "length (m_data q)"
  have "(m_front q + j) mod ?N \<noteq> (m_front q + i) mod ?N" if "j < m_size q" "j \<noteq> i" for j
    using that assms mod_add_inj[of j ?N i "m_front q"] by (auto simp: queue_inv_def)
  then have ne: "(m_front q + j) mod ?N = (m_front q + i) mod ?N \<longleftrightarrow> j = i" if "j < m_size q" for j
    using that by auto
  have "(m_front q + i) mod ?N < ?N"
    using assms by (simp add: queue_inv_nonempty_data)
  then have "queue_list (q\<lparr>m_data := (m_data q)[(m_front q + i) mod ?N := v]\<rparr>)
      = (queue_list q)[i := v]"
    by (intro nth_equalityI) (simp_all add: queue_list_nth nth_list_update ne assms eq_commute[of "(m_front q + i) mod ?N"])
  with assms show ?thesis
    by (auto simp: queue_set_at_def queue_inv_def add.commute)
qed

lemma placementResize_correct:
  assumes "n < length (m_data q)"
  shows "\<exists>q'. placementResize q n = Some q' \<and> queue_inv q' \<and> queue_list q' = take n (m_data q)"
  using assms
  by (auto simp: placementResize_def queue_inv_def queue_list_def intro!: nth_equalityI)

lemma placementResize_full:
  assumes "m_data q \<noteq> []"
  shows "\<exists>q1 q2. placementResize q (length (m_data q)) = Some q1 \<and> queue_list q1 = m_data q
    \<and> popHead q1 = Some (hd (m_data q), q2) \<and> \<not> queue_full q2 \<and> pushTail q2 v = None"
proof -
  let ?q1 = "q\<lparr>m_front := 0, m_back := length (m_data q), m_size := length (m_data q)\<rparr>"
  let ?q2 = "?q1\<lparr>m_front := 1 mod length (m_data q), m_size := length (m_data q) - 1\<rparr>"
  have "placementResize q (length (m_data q)) = Some ?q1" by (simp add: placementResize_def)
  moreover have "queue_list ?q1 = m_data q"
    by (rule nth_equalityI) (simp_all add: queue_list_def)
  moreover have "popHead ?q1 = Some (hd (m_data q), ?q2)"
    using assms by (simp add: popHead_def queue_empty_def hd_conv_nth)
  moreover have "length (m_data q) - 1 < length (m_data q)"
    using assms by (metis diff_less length_greater_0_conv zero_less_one)
  then have "\<not> queue_full ?q2" by (simp add: queue_full_def not_le)
  moreover have "pushTail ?q2 v = None" by (simp add: pushTail_def assert_that_def)
  ultimately show ?thesis by blast
qed

lemma queue_inv_bounded: "queue_inv q \<Longrightarrow> m_size q \<le> length (m_data q)"
  by (simp add: queue_inv_def)

text \<open>
  The contract of a bounded double-ended queue: what a client such as the bent laser's
  node list relies on.
\<close>

locale bounded_deque =
  fixes inv :: "'q \<Rightarrow> bool" and content :: "'q \<Rightarrow> 'a list" and capacity :: "'q \<Rightarrow> nat"
    and push_tail :: "'q \<Rightarrow> 'a \<Rightarrow> 'q option" and push_head :: "'q \<Rightarrow> 'a \<Rightarrow> 'q option"
    and pop_tail :: "'q \<Rightarrow> ('a \<times> 'q) option" and pop_head :: "'q \<Rightarrow> ('a \<times> 'q) option"
  assumes bounded: "inv q \<Longrightarrow> length (content q) \<le> capacity q"
    and push_tail: "inv q \<Longrightarrow> length (content q) < capacity q \<Longrightarrow> \<exists>q'. push_tail q v = Some q'
          \<and> inv q' \<and> content q' = content q @ [v] \<and> capacity q' = capacity q"
    and push_head: "inv q \<Longrightarrow> length (content q) < capacity q \<Longrightarrow> \<exists>q'. push_head q v = Some q'
          \<and> inv q' \<and> content q' = v # content q \<and> capacity q' = capacity q"
    and pop_tail: "inv q \<Longrightarrow> content q = xs @ [x] \<Longrightarrow> \<exists>q'. pop_tail q = Some (x, q')
          \<and> inv q' \<and> content q' = xs \<and> capacity q' = capacity q"
    and pop_head: "inv q \<Longrightarrow> content q = x # xs \<Longrightarrow> \<exists>q'. pop_head q = Some (x, q')
          \<and> inv q' \<and> content q' = xs \<and> capacity q' = capacity q"
begin

lemma push_tail_pop_tail:
  assumes "inv q" "length (content q) < capacity q"
  shows "\<exists>q1 q2. push_tail q v = Some q1 \<and> pop_tail q1 = Some (v, q2)
           \<and> inv q2 \<and> content q2 = content q \<and> capacity q2 = capacity q"
  using push_tail[OF assms, of v] pop_tail by metis

lemma push_head_pop_head:
  assumes "inv q" "length (content q) < capacity q"
  shows "\<exists>q1 q2. push_head q v = Some q1 \<and> pop_head q1 = Some (v, q2)
           \<and> inv q2 \<and> content q2 = content q \<and> capacity q2 = capacity q"
  using push_head[OF assms, of v] pop_head by metis

end

text \<open>Runs of pushes and pops, over any queue operations.\<close>

fun push_all :: "('q \<Rightarrow> 'a \<Rightarrow> 'q option) \<Rightarrow> 'q \<Rightarrow> 'a list \<Rightarrow> 'q option" where
  "push_all push q [] = Some q"
| "push_all push q (x # xs) = (case push q x of None \<Rightarrow> None | Some q' \<Rightarrow> push_all push q' xs)"

fun pop_many :: "('q \<Rightarrow> ('a \<times> 'q) option) \<Rightarrow> nat \<Rightarrow> 'q \<Rightarrow> ('a list \<times> 'q) option" where
  "pop_many pop 0 q = Some ([], q)"
| "pop_many pop (Suc n) q = (case pop q of None \<Rightarrow> None
     | Some (x, q') \<Rightarrow> (case pop_many pop n q' of None \<Rightarrow> None
         | Some (xs, q'') \<Rightarrow> Some (x # xs, q'')))"

context bounded_deque
begin

lemma push_all_tail:
  assumes "inv q" "length (content q) + length xs \<le> capacity q"
  shows "\<exists>q'. push_all push_tail q xs = Some q' \<and> inv q' \<and> content q' = content q @ xs
           \<and> capacity q' = capacity q"
  using assms
proof (induction xs arbitrary: q)
  case Nil
  then show ?case by simp
next
  case (Cons x xs)
  then obtain q1 where q1: "push_tail q x = Some q1" "inv q1" "content q1 = content q @ [x]"
      "capacity q1 = capacity q"
    using push_tail[of q x] by auto
  with Cons.IH[of q1] Cons.prems show ?case by auto
qed

lemma pop_many_head:
  assumes "inv q" "content q = xs @ ys"
  shows "\<exists>q'. pop_many pop_head (length xs) q = Some (xs, q') \<and> inv q' \<and> content q' = ys
           \<and> capacity q' = capacity q"
  using assms
proof (induction xs arbitrary: q)
  case Nil
  then show ?case by simp
next
  case (Cons x xs)
  then obtain q1 where "pop_head q = Some (x, q1)" "inv q1" "content q1 = xs @ ys"
      "capacity q1 = capacity q"
    using pop_head[of q x "xs @ ys"] by auto
  with Cons.IH[of q1] show ?case by auto
qed

lemma fifo:
  assumes "inv q" "content q = []" "length xs \<le> capacity q"
  shows "\<exists>q1 q2. push_all push_tail q xs = Some q1 \<and> pop_many pop_head (length xs) q1 = Some (xs, q2)
           \<and> inv q2 \<and> content q2 = []"
  using push_all_tail[of q xs] pop_many_head[of _ xs "[]"] assms by fastforce

end

interpretation fcq: bounded_deque queue_inv queue_list "\<lambda>q. length (m_data q)"
    pushTail pushHead popTail popHead
  by unfold_locales
    (simp_all add: queue_inv_bounded pushTail_correct pushHead_correct popTail_correct popHead_correct)

text \<open>
  A full queue rejects a push, an empty one a pop: the assertions of the source.
\<close>

lemma pushTail_full: "m_size q = length (m_data q) \<Longrightarrow> pushTail q v = None"
  by (simp add: pushTail_def queue_full_def)

lemma popHead_empty: "m_size q = 0 \<Longrightarrow> popHead q = None"
  by (simp add: popHead_def queue_empty_def)

subsection \<open>FixedObjectPool\<close>

text \<open>
  The pool of \<open>N\<close> slots: a stack of free indices and a flag per slot.  The slots
  themselves (\<open>m_data\<close>) belong to the client.  \<open>size_t(-1)\<close> marks a popped stack cell.
\<close>

definition npos :: nat where
  "npos = 2 ^ 64 - 1"

record object_pool =
  m_free_count :: nat
  m_free_indices :: "nat list"
  m_used :: "bool list"

definition pool_alloc :: "object_pool \<Rightarrow> nat option \<times> object_pool" where
  "pool_alloc p =
     (if m_free_count p > 0 then
        (let c = m_free_count p - 1; i = m_free_indices p ! c
         in (Some i, p\<lparr>m_free_count := c, m_used := (m_used p)[i := True],
                        m_free_indices := (m_free_indices p)[c := npos]\<rparr>))
      else (None, p))"

definition pool_free :: "object_pool \<Rightarrow> nat \<Rightarrow> object_pool" where
  "pool_free p i =
     (if i < length (m_used p) \<and> m_used p ! i then
        p\<lparr>m_used := (m_used p)[i := False],
          m_free_indices := (m_free_indices p)[m_free_count p := i],
          m_free_count := m_free_count p + 1\<rparr>
      else p)"

text \<open>\<open>object\<close>: the slot's address (its index) when the slot is in use, else \<open>nullptr\<close>.\<close>

definition pool_object :: "object_pool \<Rightarrow> nat \<Rightarrow> nat option" where
  "pool_object p i = (if i < length (m_used p) \<and> m_used p ! i then Some i else None)"

definition pool_size :: "object_pool \<Rightarrow> nat" where
  "pool_size p = length (m_used p) - m_free_count p"

text \<open>\<open>clear\<close>, and the constructor, which calls it, for a pool of \<open>N\<close> slots.\<close>

definition pool_clear :: "object_pool \<Rightarrow> object_pool" where
  "pool_clear p = (let N = length (m_used p)
     in \<lparr>m_free_count = N, m_free_indices = map (\<lambda>idx. N - 1 - idx) [0..<N],
         m_used = replicate N False\<rparr>)"

definition pool_new :: "nat \<Rightarrow> object_pool" where
  "pool_new N = pool_clear \<lparr>m_free_count = 0, m_free_indices = replicate N 0,
     m_used = replicate N False\<rparr>"

definition pool_live :: "object_pool \<Rightarrow> nat set" where
  "pool_live p = {i. i < length (m_used p) \<and> m_used p ! i}"

definition object_pool_inv :: "object_pool \<Rightarrow> bool" where
  "object_pool_inv p \<longleftrightarrow> length (m_free_indices p) = length (m_used p)
     \<and> m_free_count p \<le> length (m_used p)
     \<and> distinct (take (m_free_count p) (m_free_indices p))
     \<and> set (take (m_free_count p) (m_free_indices p)) = {i. i < length (m_used p) \<and> \<not> m_used p ! i}"

lemma pool_live_bounded: "pool_live p \<subseteq> {..<length (m_used p)}"
  by (auto simp: pool_live_def)

lemma pool_free_card:
  assumes "object_pool_inv p"
  shows "m_free_count p = card {i. i < length (m_used p) \<and> \<not> m_used p ! i}"
proof -
  have "card (set (take (m_free_count p) (m_free_indices p)))
      = length (take (m_free_count p) (m_free_indices p))"
    using assms distinct_card unfolding object_pool_inv_def by blast
  with assms show ?thesis by (simp add: object_pool_inv_def)
qed

lemma pool_size_live:
  assumes "object_pool_inv p"
  shows "pool_size p = card (pool_live p)"
proof -
  let ?N = "length (m_used p)"
  have "{..<?N} = pool_live p \<union> {i. i < ?N \<and> \<not> m_used p ! i}" by (auto simp: pool_live_def)
  then have "card {..<?N} = card (pool_live p) + card {i. i < ?N \<and> \<not> m_used p ! i}"
    by (simp only:) (rule card_Un_disjoint, auto simp: pool_live_def)
  with assms show ?thesis by (simp add: pool_size_def pool_free_card)
qed

lemma object_pool_invI:
  assumes "length (m_free_indices p) = length (m_used p)" "m_free_count p \<le> length (m_used p)"
    "distinct (take (m_free_count p) (m_free_indices p))"
    "\<And>j. j \<in> set (take (m_free_count p) (m_free_indices p)) \<longleftrightarrow> j < length (m_used p) \<and> \<not> m_used p ! j"
  shows "object_pool_inv p"
  using assms by (auto simp: object_pool_inv_def)

lemma pool_clear_inv: "object_pool_inv (pool_clear p)"
proof -
  let ?N = "length (m_used p)"
  have "map (\<lambda>i. ?N - 1 - i) [0..<?N] = rev [0..<?N]"
    by (intro nth_equalityI) (auto simp: rev_nth)
  then show ?thesis by (intro object_pool_invI) (auto simp: pool_clear_def Let_def)
qed

lemma pool_clear_live: "pool_live (pool_clear p) = {}"
  by (simp add: pool_clear_def pool_live_def Let_def)


lemma pool_new_inv: "object_pool_inv (pool_new N)" and pool_new_live: "pool_live (pool_new N) = {}"
  and pool_new_capacity: "length (m_used (pool_new N)) = N"
  unfolding pool_new_def by (simp_all only: pool_clear_inv pool_clear_live)
    (simp add: pool_clear_def Let_def)

lemma pool_alloc_full:
  assumes "object_pool_inv p" "card (pool_live p) = length (m_used p)"
  shows "pool_alloc p = (None, p)"
proof -
  have "m_free_count p \<le> length (m_used p)" using assms(1) by (simp add: object_pool_inv_def)
  then have "m_free_count p = 0"
    using assms(2) pool_size_live[OF assms(1)] unfolding pool_size_def by linarith
  then show ?thesis by (simp add: pool_alloc_def)
qed

lemma pool_alloc_room:
  assumes inv: "object_pool_inv p" and room: "card (pool_live p) < length (m_used p)"
  shows "\<exists>i p'. pool_alloc p = (Some i, p') \<and> object_pool_inv p' \<and> i < length (m_used p)
           \<and> i \<notin> pool_live p \<and> pool_live p' = insert i (pool_live p)
           \<and> length (m_used p') = length (m_used p)"
proof -
  let ?F = "m_free_indices p" and ?U = "m_used p"
  have pos: "0 < m_free_count p"
    using assms pool_size_live[OF inv] by (auto simp: pool_size_def object_pool_inv_def)
  then obtain c where c: "m_free_count p = Suc c" by (cases "m_free_count p") auto
  have cl: "c < length ?F" using inv c by (simp add: object_pool_inv_def)
  define i where "i = ?F ! c"
  have tk: "take (Suc c) ?F = take c ?F @ [i]" using cl by (simp add: i_def take_Suc_conv_app_nth)
  have free: "set (take (Suc c) ?F) = {j. j < length ?U \<and> \<not> ?U ! j}" and d: "distinct (take (Suc c) ?F)"
    using inv c by (simp_all add: object_pool_inv_def)
  have i: "i < length ?U" "\<not> ?U ! i" using free tk by auto
  have rest: "set (take c ?F) = {j. j < length ?U \<and> \<not> ?U ! j} - {i}"
    using free d unfolding tk by auto
  have lens: "length ?F = length ?U" "c \<le> length ?U" using inv c by (simp_all add: object_pool_inv_def)
  let ?p' = "p\<lparr>m_free_count := c, m_used := ?U[i := True], m_free_indices := ?F[c := npos]\<rparr>"
  have "pool_alloc p = (Some i, ?p')"
    using c by (simp add: pool_alloc_def i_def Let_def)
  moreover have "object_pool_inv (?p')"
  proof (rule object_pool_invI)
    fix j
    have "j \<in> set (take c ?F) \<longleftrightarrow> j < length ?U \<and> \<not> ?U ! j \<and> j \<noteq> i" using rest by blast
    then show "j \<in> set (take (m_free_count ?p') (m_free_indices ?p'))
        \<longleftrightarrow> j < length (m_used ?p') \<and> \<not> m_used ?p' ! j"
      by (cases "j = i") (use i in auto)
  qed (use d tk lens in simp_all)
  moreover have "pool_live (?p') = insert i (pool_live p)"
    using i by (auto simp: pool_live_def nth_list_update)
  ultimately show ?thesis using i by (auto simp: pool_live_def)
qed

lemma pool_free_dead: "i \<notin> pool_live p \<Longrightarrow> pool_free p i = p"
  by (auto simp: pool_free_def pool_live_def)

lemma pool_free_live:
  assumes inv: "object_pool_inv p" and live: "i \<in> pool_live p"
  shows "object_pool_inv (pool_free p i)" "pool_live (pool_free p i) = pool_live p - {i}"
    "length (m_used (pool_free p i)) = length (m_used p)"
proof -
  let ?F = "m_free_indices p" and ?U = "m_used p" and ?n = "m_free_count p"
  have i: "i < length ?U" "?U ! i" using live by (auto simp: pool_live_def)
  have eq: "pool_free p i = p\<lparr>m_used := ?U[i := False], m_free_indices := ?F[?n := i],
      m_free_count := ?n + 1\<rparr>"
    using i by (simp add: pool_free_def)
  have "card (pool_live p) \<noteq> 0"
    using live finite_subset[OF pool_live_bounded] by auto
  then have n: "?n < length ?F"
    using inv pool_size_live[OF inv] by (auto simp: pool_size_def object_pool_inv_def)
  have tk: "take (Suc ?n) (?F[?n := i]) = take ?n ?F @ [i]"
    using n by (simp add: take_Suc_conv_app_nth)
  have "i \<notin> set (take ?n ?F)" using inv i by (simp add: object_pool_inv_def)
  moreover have "set (take ?n ?F) = {j. j < length ?U \<and> \<not> ?U ! j}" "distinct (take ?n ?F)"
    "length ?F = length ?U"
    using inv by (simp_all add: object_pool_inv_def)
  ultimately show "object_pool_inv (pool_free p i)" unfolding eq
    by (intro object_pool_invI) (use n i in \<open>auto simp: tk nth_list_update\<close>)
  show "pool_live (pool_free p i) = pool_live p - {i}"
    using i by (auto simp: eq pool_live_def nth_list_update split: if_splits)
  show "length (m_used (pool_free p i)) = length (m_used p)" by (simp add: eq)
qed

lemma pool_object_live: "pool_object p i = (if i \<in> pool_live p then Some i else None)"
  by (auto simp: pool_object_def pool_live_def)

text \<open>
  The contract of a slot allocator, as the game object pool relies on it.
\<close>

locale slot_allocator =
  fixes inv :: "'p \<Rightarrow> bool" and live :: "'p \<Rightarrow> nat set" and capacity :: "'p \<Rightarrow> nat"
    and alloc :: "'p \<Rightarrow> nat option \<times> 'p" and release :: "'p \<Rightarrow> nat \<Rightarrow> 'p"
  assumes live_bound: "inv p \<Longrightarrow> live p \<subseteq> {..<capacity p}"
    and alloc_full: "inv p \<Longrightarrow> card (live p) = capacity p \<Longrightarrow> alloc p = (None, p)"
    and alloc_room: "inv p \<Longrightarrow> card (live p) < capacity p \<Longrightarrow> \<exists>i p'. alloc p = (Some i, p')
          \<and> inv p' \<and> i < capacity p \<and> i \<notin> live p \<and> live p' = insert i (live p)
          \<and> capacity p' = capacity p"
    and release_inv: "inv p \<Longrightarrow> i \<in> live p \<Longrightarrow> inv (release p i)"
    and release_live: "inv p \<Longrightarrow> i \<in> live p \<Longrightarrow> live (release p i) = live p - {i}"
    and release_capacity: "inv p \<Longrightarrow> i \<in> live p \<Longrightarrow> capacity (release p i) = capacity p"
begin

lemma finite_live: "inv p \<Longrightarrow> finite (live p)"
  using live_bound finite_subset by blast

lemma card_live_le: "inv p \<Longrightarrow> card (live p) \<le> capacity p"
  using live_bound[of p] card_mono[of "{..<capacity p}" "live p"] by simp

lemma alloc_SomeD:
  assumes "inv p" "alloc p = (Some i, p')"
  shows "inv p'" "i < capacity p" "i \<notin> live p" "live p' = insert i (live p)"
    "capacity p' = capacity p"
proof -
  have "card (live p) < capacity p"
    using assms alloc_full[of p] card_live_le[of p] by (cases "card (live p) = capacity p") auto
  with assms alloc_room[of p]
  show "inv p'" "i < capacity p" "i \<notin> live p" "live p' = insert i (live p)"
    "capacity p' = capacity p" by auto
qed

lemma alloc_NoneD:
  assumes "inv p" "alloc p = (None, p')"
  shows "p' = p" "card (live p) = capacity p"
proof -
  have "\<not> card (live p) < capacity p" using assms alloc_room[of p] by auto
  with card_live_le[OF assms(1)] show full: "card (live p) = capacity p" by simp
  from alloc_full[OF assms(1) full] assms show "p' = p" by simp
qed

lemma alloc_fails_iff: "inv p \<Longrightarrow> fst (alloc p) = None \<longleftrightarrow> live p = {..<capacity p}"
proof
  assume p: "inv p" and "fst (alloc p) = None"
  then have "card (live p) = card {..<capacity p}" using alloc_NoneD[OF p, of "snd (alloc p)"]
    by (simp add: prod_eq_iff)
  with live_bound[OF p] show "live p = {..<capacity p}" by (simp add: card_subset_eq)
next
  assume "inv p" "live p = {..<capacity p}"
  then show "fst (alloc p) = None" using alloc_full[of p] by simp
qed

lemma release_alloc_restores:
  assumes "inv p" "alloc p = (Some i, p')"
  shows "inv (release p' i)" "live (release p' i) = live p"
  using alloc_SomeD[OF assms] release_inv[of p' i] release_live[of p' i] by auto

end

interpretation slots: slot_allocator object_pool_inv pool_live "\<lambda>p. length (m_used p)"
    pool_alloc pool_free
  by unfold_locales
    (simp_all add: pool_live_bounded pool_alloc_full pool_alloc_room pool_free_live)

text \<open>The free list is a stack: the slot freed last is handed out next.\<close>

lemma pool_alloc_after_free:
  assumes "object_pool_inv p" "i \<in> pool_live p"
  shows "fst (pool_alloc (pool_free p i)) = Some i"
proof -
  have "card (pool_live p) \<noteq> 0" using assms slots.finite_live[of p] by auto
  then have "m_free_count p < length (m_free_indices p)"
    using assms pool_size_live[of p] by (auto simp: pool_size_def object_pool_inv_def)
  with assms show ?thesis
    by (simp add: pool_alloc_def pool_free_def pool_live_def Let_def)
qed

end
