(* ===== verification/ObjectList.thy ===== *)
theory ObjectList
  imports Prelude
begin

text \<open>
  The intrusive doubly linked list of game objects, \<open>GameObjectLinkedList\<close> of
  \<open>LuaSTG/LuaSTG/GameObject/GameObjectPool.h\<close>.  A \<open>GameObject*\<close> is the object's slot
  number, \<open>nullptr\<close> is \<open>None\<close>.  The template's field accessor picks one pair of link
  fields; the record \<open>links\<close> is that pair, as two functions of the object.
\<close>

subsection \<open>Links, lists and their operations\<close>

record links =
  link_previous :: "nat \<Rightarrow> nat option"
  link_next :: "nat \<Rightarrow> nat option"

record object_list =
  m_first :: "nat option"
  m_last :: "nat option"

text \<open>
  A failed \<open>assert\<close> and a read through a null pointer are the result \<open>None\<close>.
\<close>

definition setPrevious :: "links \<Rightarrow> nat \<Rightarrow> nat option \<Rightarrow> links" where
  "setPrevious L x v = L\<lparr>link_previous := (link_previous L)(x := v)\<rparr>"

definition setNext :: "links \<Rightarrow> nat \<Rightarrow> nat option \<Rightarrow> links" where
  "setNext L x v = L\<lparr>link_next := (link_next L)(x := v)\<rparr>"

definition list_empty :: "object_list \<Rightarrow> bool" where
  "list_empty l \<longleftrightarrow> m_first l = None \<and> m_last l = None"

definition list_add :: "links \<Rightarrow> object_list \<Rightarrow> nat \<Rightarrow> (links \<times> object_list) option" where
  "list_add L l x =
     (if list_empty l then
        Some (setNext (setPrevious L x None) x None, l\<lparr>m_first := Some x, m_last := Some x\<rparr>)
      else (case m_last l of
        None \<Rightarrow> None
      | Some tl_obj \<Rightarrow>
          Some (setPrevious (setNext L tl_obj (Some x)) x (Some tl_obj), l\<lparr>m_last := Some x\<rparr>)))"

definition unlink :: "links \<Rightarrow> nat \<Rightarrow> links" where
  "unlink L x =
     (let previous = link_previous L x; nxt = link_next L x;
          L1 = (case previous of None \<Rightarrow> L | Some p \<Rightarrow> setNext L p nxt);
          L2 = (case nxt of None \<Rightarrow> L1 | Some n \<Rightarrow> setPrevious L1 n previous)
      in setNext (setPrevious L2 x None) x None)"

definition list_remove ::
  "links \<Rightarrow> object_list \<Rightarrow> nat \<Rightarrow> (nat option \<times> links \<times> object_list) option" where
  "list_remove L l x = assert_that (\<not> list_empty l)
     (if m_first l = Some x \<and> m_last l = Some x then
        assert_that (link_previous L x = None \<and> link_next L x = None)
          (Some (None, L, l\<lparr>m_first := None, m_last := None\<rparr>))
      else
        (let previous = link_previous L x; nxt = link_next L x
         in Some (nxt, unlink L x,
              l\<lparr>m_first := (if m_first l = Some x then nxt else m_first l),
                m_last := (if m_last l = Some x then previous else m_last l)\<rparr>)))"

text \<open>
  \<open>clear\<close> walks the list and nulls the links of every object.  It leaves \<open>m_first\<close> and
  \<open>m_last\<close> as they are.  The walk is a loop with no bound of its own, hence \<open>option\<close>.
\<close>

partial_function (option) clear_loop :: "links \<Rightarrow> nat option \<Rightarrow> links option" where
  "clear_loop L object =
     (case object of
        None \<Rightarrow> Some L
      | Some current \<Rightarrow>
          clear_loop (setNext (setPrevious L current None) current None) (link_next L current))"

definition list_clear :: "links \<Rightarrow> object_list \<Rightarrow> (links \<times> object_list) option" where
  "list_clear L l = map_option (\<lambda>L'. (L', l)) (clear_loop L (m_first l))"

subsection \<open>The list an intrusive list represents\<close>

fun path :: "(nat \<Rightarrow> nat option) \<Rightarrow> nat list \<Rightarrow> nat option \<Rightarrow> bool" where
  "path f [] e \<longleftrightarrow> True"
| "path f [x] e \<longleftrightarrow> f x = e"
| "path f (x # y # ys) e \<longleftrightarrow> f x = Some y \<and> path f (y # ys) e"

lemma path_Cons: "path f (x # xs) e \<longleftrightarrow> f x = (if xs = [] then e else head_of xs) \<and> path f xs e"
  by (cases xs) auto

lemma path_append:
  "path f (xs @ ys) e \<longleftrightarrow> path f xs (if ys = [] then e else head_of ys) \<and> path f ys e"
  by (induction xs) (auto simp: path_Cons head_of_append)

lemma path_Cons_None: "path f (x # xs) None \<longleftrightarrow> f x = head_of xs \<and> path f xs None"
  by (simp add: path_Cons)

lemma path_append_None: "path f (xs @ ys) None \<longleftrightarrow> path f xs (head_of ys) \<and> path f ys None"
  by (cases ys) (simp_all add: path_append)

lemma path_upd [simp]: "x \<notin> set xs \<Longrightarrow> path (f(x := v)) xs e = path f xs e"
  by (induction xs) (auto simp: path_Cons)

lemma path_cong: "(\<And>x. x \<in> set xs \<Longrightarrow> f x = g x) \<Longrightarrow> path f xs e = path g xs e"
  by (induction xs) (auto simp: path_Cons)

lemma path_nth:
  "path f xs e \<Longrightarrow> i < length xs \<Longrightarrow>
    f (xs ! i) = (if Suc i < length xs then Some (xs ! Suc i) else e)"
  by (induction xs arbitrary: i)
    (auto simp: path_Cons nth_Cons hd_conv_nth head_of_def split: nat.splits list.splits)

definition represents :: "links \<Rightarrow> object_list \<Rightarrow> nat list \<Rightarrow> bool" where
  "represents L l xs \<longleftrightarrow> distinct xs \<and> path (link_next L) xs None
     \<and> path (link_previous L) (rev xs) None
     \<and> m_first l = head_of xs \<and> m_last l = head_of (rev xs)"

definition agree_off :: "nat set \<Rightarrow> links \<Rightarrow> links \<Rightarrow> bool" where
  "agree_off A L L' \<longleftrightarrow> (\<forall>y. y \<notin> A \<longrightarrow>
     link_previous L' y = link_previous L y \<and> link_next L' y = link_next L y)"

definition unlinked :: "links \<Rightarrow> nat \<Rightarrow> bool" where
  "unlinked L x \<longleftrightarrow> link_previous L x = None \<and> link_next L x = None"

lemma represents_frame:
  assumes "represents L l ys" "agree_off A L L'" "set ys \<inter> A = {}"
  shows "represents L' l ys"
proof -
  have "path (link_next L') ys None = path (link_next L) ys None"
    "path (link_previous L') (rev ys) None = path (link_previous L) (rev ys) None"
    using assms(2,3) by (auto simp: agree_off_def intro!: path_cong)
  with assms(1) show ?thesis by (simp add: represents_def)
qed

lemma represents_distinct: "represents L l xs \<Longrightarrow> distinct xs"
  by (simp add: represents_def)

lemma unlinked_frame: "unlinked L x \<Longrightarrow> agree_off A L L' \<Longrightarrow> x \<notin> A \<Longrightarrow> unlinked L' x"
  by (simp add: unlinked_def agree_off_def)

lemma represents_empty: "represents L l [] \<longleftrightarrow> list_empty l"
  by (auto simp: represents_def list_empty_def)

lemma represents_list_empty: "represents L l xs \<Longrightarrow> list_empty l \<longleftrightarrow> xs = []"
  by (auto simp: represents_def list_empty_def)

lemma represents_first: "represents L l xs \<Longrightarrow> m_first l = head_of xs"
  by (simp add: represents_def)

lemma represents_next:
  "represents L l (as @ x # bs) \<Longrightarrow> link_next L x = head_of bs"
  by (auto simp: represents_def path_append path_Cons split: if_splits)

lemma path_determines_list:
  "path f xs None \<Longrightarrow> path f ys None \<Longrightarrow> head_of xs = head_of ys \<Longrightarrow> xs = ys"
proof (induction xs arbitrary: ys)
  case Nil
  then show ?case by (cases ys) auto
next
  case (Cons x xs)
  then obtain ys' where "ys = x # ys'" by (cases ys) auto
  with Cons show ?case by (auto simp: path_Cons_None)
qed

lemma represents_unique: "represents L l xs \<Longrightarrow> represents L l ys \<Longrightarrow> xs = ys"
  using path_determines_list by (auto simp: represents_def)

lemma list_add_correct:
  assumes rep: "represents L l xs" and x: "x \<notin> set xs" and nxt: "link_next L x = None"
  shows "\<exists>L' l'. list_add L l x = Some (L', l') \<and> represents L' l' (xs @ [x])
           \<and> agree_off (insert x (set xs)) L L'"
proof (cases xs rule: rev_cases)
  case Nil
  with rep have "list_empty l" by (simp add: represents_empty)
  then show ?thesis using Nil
    by (simp add: list_add_def represents_def setNext_def setPrevious_def agree_off_def)
next
  case (snoc ys z)
  with rep have "\<not> list_empty l" "m_last l = Some z" "m_first l = head_of (ys @ [z])"
    "distinct (ys @ [z])" "path (link_next L) (ys @ [z]) None"
    "path (link_previous L) (z # rev ys) None"
    by (simp_all add: represents_list_empty[OF rep]) (auto simp: represents_def)
  then show ?thesis using x nxt snoc
    by (auto simp: list_add_def represents_def setNext_def setPrevious_def agree_off_def
        path_append path_Cons head_of_append)
qed

lemma unlink_outside:
  assumes "represents L l (as @ x # bs)"
  shows "agree_off (set (as @ x # bs)) L (unlink L x)"
proof -
  have "link_previous L x = head_of (rev as)" "link_next L x = head_of bs"
    using assms by (auto simp: represents_def path_append path_Cons split: if_splits)
  then show ?thesis
    by (auto simp: unlink_def Let_def agree_off_def setNext_def setPrevious_def split: option.splits
        dest: head_of_Some_in)
qed

lemma list_remove_correct:
  assumes rep: "represents L l (as @ x # bs)"
  shows "\<exists>L' l'. list_remove L l x = Some (head_of bs, L', l') \<and> represents L' l' (as @ bs)
           \<and> agree_off (set (as @ x # bs)) L L' \<and> unlinked L' x"
proof -
  have nx: "link_next L x = head_of bs" and pv: "link_previous L x = head_of (rev as)"
    using rep by (auto simp: represents_def path_append path_Cons split: if_splits)
  have ne: "\<not> list_empty l" using rep by (simp add: represents_list_empty)
  show ?thesis
  proof (cases "as = [] \<and> bs = []")
    case True
    then have "m_first l = Some x" "m_last l = Some x" using rep by (simp_all add: represents_def)
    then show ?thesis using True ne nx pv
      by (simp add: list_remove_def represents_def agree_off_def unlinked_def)
  next
    case False
    have fl: "m_first l = head_of (as @ x # bs)" "m_last l = head_of (rev bs @ x # rev as)"
      using rep by (auto simp: represents_def)
    have d: "distinct (as @ x # bs)" using rep by (simp add: represents_def)
    have "\<not> (m_first l = Some x \<and> m_last l = Some x)"
      using False fl d by (cases as; cases bs rule: rev_cases) auto
    then have eq: "list_remove L l x = Some (head_of bs, unlink L x,
        l\<lparr>m_first := (if m_first l = Some x then head_of bs else m_first l),
          m_last := (if m_last l = Some x then head_of (rev as) else m_last l)\<rparr>)"
      using ne nx pv by (simp only: list_remove_def Let_def assert_that_simps if_False simp_thms)
    have "represents (unlink L x)
        (l\<lparr>m_first := (if m_first l = Some x then head_of bs else m_first l),
          m_last := (if m_last l = Some x then head_of (rev as) else m_last l)\<rparr>) (as @ bs)"
      using rep d fl
      by (cases as rule: rev_cases; cases bs)
        (auto simp: represents_def unlink_def Let_def setNext_def setPrevious_def nx pv
          path_append path_Cons head_of_append dest: head_of_Some_in)
    moreover have "unlinked (unlink L x) x"
      by (simp add: unlink_def Let_def unlinked_def setNext_def setPrevious_def)
    ultimately show ?thesis using eq unlink_outside[OF rep] by blast
  qed
qed

subsection \<open>Clearing\<close>

lemma clear_loop_path:
  "path (link_next L) xs None \<Longrightarrow> distinct xs \<Longrightarrow>
    \<exists>L'. clear_loop L (head_of xs) = Some L' \<and> agree_off (set xs) L L' \<and> (\<forall>x\<in>set xs. unlinked L' x)"
proof (induction xs arbitrary: L)
  case Nil
  then show ?case by (subst clear_loop.simps) (simp add: agree_off_def)
next
  case (Cons x xs)
  let ?L = "setNext (setPrevious L x None) x None"
  have "path (link_next ?L) xs None" "distinct xs" "link_next L x = head_of xs"
    using Cons.prems by (auto simp: path_Cons_None setNext_def setPrevious_def)
  with Cons.IH[of ?L] obtain L' where L': "clear_loop ?L (head_of xs) = Some L'"
    "agree_off (set xs) ?L L'" "\<forall>x\<in>set xs. unlinked L' x" by blast
  have "clear_loop L (head_of (x # xs)) = Some L'"
    using L'(1) \<open>link_next L x = head_of xs\<close> by (subst clear_loop.simps) simp
  moreover have "agree_off (set (x # xs)) L L'" "\<forall>x\<in>set (x # xs). unlinked L' x"
    using L'(2,3) Cons.prems
    by (auto simp: agree_off_def unlinked_def setNext_def setPrevious_def)
  ultimately show ?case by blast
qed

text \<open>
  \<open>clear\<close> detaches every object but keeps the end pointers: a list that was not empty
  still claims its objects afterwards.
\<close>

lemma list_clear_correct:
  assumes "represents L l xs"
  shows "\<exists>L'. list_clear L l = Some (L', l) \<and> agree_off (set xs) L L' \<and> (\<forall>x\<in>set xs. unlinked L' x)"
  using assms clear_loop_path[of L xs] by (auto simp: represents_def list_clear_def)

lemma list_clear_empty: "represents L l [] \<Longrightarrow> list_clear L l = Some (L, l)"
  by (simp add: represents_empty list_empty_def list_clear_def clear_loop.simps)

subsection \<open>The contract of a list of objects\<close>

text \<open>
  What the object pool uses of its lists, for any representation: adding at the end,
  removing anywhere, and the frame that lets several lists share one set of links.
\<close>

locale object_chain =
  fixes rep :: "'l \<Rightarrow> 'h \<Rightarrow> nat list \<Rightarrow> bool" and detached :: "'l \<Rightarrow> nat \<Rightarrow> bool"
    and frame :: "nat set \<Rightarrow> 'l \<Rightarrow> 'l \<Rightarrow> bool"
    and add :: "'l \<Rightarrow> 'h \<Rightarrow> nat \<Rightarrow> ('l \<times> 'h) option"
    and remove :: "'l \<Rightarrow> 'h \<Rightarrow> nat \<Rightarrow> (nat option \<times> 'l \<times> 'h) option"
  assumes add: "rep L l xs \<Longrightarrow> x \<notin> set xs \<Longrightarrow> detached L x \<Longrightarrow>
      \<exists>L' l'. add L l x = Some (L', l') \<and> rep L' l' (xs @ [x]) \<and> frame (insert x (set xs)) L L'"
    and remove: "rep L l (as @ x # bs) \<Longrightarrow> \<exists>L' l'. remove L l x = Some (head_of bs, L', l')
      \<and> rep L' l' (as @ bs) \<and> frame (set (as @ x # bs)) L L' \<and> detached L' x"
    and rep_distinct: "rep L l xs \<Longrightarrow> distinct xs"
    and frame_rep: "rep L l ys \<Longrightarrow> frame A L L' \<Longrightarrow> set ys \<inter> A = {} \<Longrightarrow> rep L' l ys"
    and frame_detached: "detached L x \<Longrightarrow> frame A L L' \<Longrightarrow> x \<notin> A \<Longrightarrow> detached L' x"
begin

lemma remove_member:
  assumes "rep L l xs" "x \<in> set xs"
  shows "\<exists>as bs L' l'. xs = as @ x # bs \<and> remove L l x = Some (head_of bs, L', l')
    \<and> rep L' l' (remove1 x xs) \<and> remove1 x xs = as @ bs \<and> frame (set xs) L L' \<and> detached L' x"
proof -
  obtain as bs where xs: "xs = as @ x # bs" using assms(2) by (auto simp: in_set_conv_decomp)
  moreover have "x \<notin> set as" using rep_distinct[OF assms(1)] xs by auto
  ultimately have r1: "remove1 x xs = as @ bs" by (simp add: remove1_append)
  obtain L' l' where "remove L l x = Some (head_of bs, L', l')" "rep L' l' (as @ bs)"
    "frame (set (as @ x # bs)) L L'" "detached L' x"
    using remove[of L l as x bs] assms(1) xs by blast
  with xs r1 show ?thesis by metis
qed

text \<open>Removing an object and adding it again moves it to the end.\<close>

lemma move_to_end:
  assumes "rep L l xs" "x \<in> set xs"
  shows "\<exists>n L1 l1 L2 l2. remove L l x = Some (n, L1, l1) \<and> add L1 l1 x = Some (L2, l2)
    \<and> rep L2 l2 (remove1 x xs @ [x]) \<and> frame (set xs) L L1 \<and> frame (set xs) L1 L2"
proof -
  obtain as bs L1 l1 where r: "xs = as @ x # bs" "remove L l x = Some (head_of bs, L1, l1)"
    "rep L1 l1 (remove1 x xs)" "remove1 x xs = as @ bs" "frame (set xs) L L1" "detached L1 x"
    using remove_member[OF assms] by blast
  have "x \<notin> set (remove1 x xs)" using rep_distinct[OF assms(1)] by simp
  from add[OF r(3) this r(6)] obtain L2 l2 where "add L1 l1 x = Some (L2, l2)"
    "rep L2 l2 (remove1 x xs @ [x])" "frame (insert x (set (remove1 x xs))) L1 L2" by blast
  moreover have "insert x (set (remove1 x xs)) = set xs" using r by auto
  ultimately show ?thesis using r(2,5) by metis
qed

text \<open>Moving an object from one list to the end of another, disjoint one.\<close>

lemma transfer:
  assumes xs: "rep L l xs" "x \<in> set xs" and ys: "rep L k ys" and dis: "set xs \<inter> set ys = {}"
  shows "\<exists>n L1 l1 L2 k2. remove L l x = Some (n, L1, l1) \<and> add L1 k x = Some (L2, k2)
    \<and> rep L2 l1 (remove1 x xs) \<and> rep L2 k2 (ys @ [x])
    \<and> frame (set xs) L L1 \<and> frame (insert x (set ys)) L1 L2"
proof -
  obtain as bs L1 l1 where r: "remove L l x = Some (head_of bs, L1, l1)"
    "rep L1 l1 (remove1 x xs)" "frame (set xs) L L1" "detached L1 x"
    using remove_member[OF xs] by metis
  have "rep L1 k ys" using frame_rep[OF ys r(3)] dis by auto
  moreover have "x \<notin> set ys" using dis xs(2) by auto
  ultimately obtain L2 k2 where a: "add L1 k x = Some (L2, k2)" "rep L2 k2 (ys @ [x])"
    "frame (insert x (set ys)) L1 L2" using add r(4) by blast
  have "set (remove1 x xs) \<inter> insert x (set ys) = {}"
    using rep_distinct[OF xs(1)] dis by auto
  with frame_rep[OF r(2) a(3)] r a show ?thesis by metis
qed

end

interpretation chain: object_chain represents unlinked agree_off list_add list_remove
proof
  show "represents L l xs \<Longrightarrow> x \<notin> set xs \<Longrightarrow> unlinked L x \<Longrightarrow>
      \<exists>L' l'. list_add L l x = Some (L', l') \<and> represents L' l' (xs @ [x])
        \<and> agree_off (insert x (set xs)) L L'" for L l xs x
    by (rule list_add_correct) (auto simp: unlinked_def)
qed (rule list_remove_correct represents_distinct represents_frame unlinked_frame; assumption)+

end
