(* ===== verification/CollectionsCorrect.thy ===== *)
theory CollectionsCorrect
  imports Collections ObjectList
begin

text \<open>
  The properties of the containers: the ring buffer, the slot pool and the intrusive list.
\<close>

subsection \<open>Ring buffer\<close>

text \<open>
  The ring buffer is a queue: pushing any sequence at the tail of an empty buffer and
  popping as many at the head returns the sequence in order, wrap-around included, as long
  as the sequence fits.
\<close>

theorem ring_buffer_fifo:
  assumes "queue_inv q" "queue_list q = []" "length xs \<le> length (m_data q)"
  shows "\<exists>q1 q2. push_all pushTail q xs = Some q1 \<and> pop_many popHead (length xs) q1 = Some (xs, q2)
    \<and> queue_inv q2 \<and> queue_list q2 = []"
  using fcq.fifo[OF assms(1,2)] assms(3) by auto

definition demo_queue :: "nat fixed_circular_queue" where
  "demo_queue = \<lparr>m_data = [0, 0, 0], m_front = 2, m_back = 2, m_size = 0\<rparr>"

lemma demo_queue_facts:
  "queue_inv demo_queue" "queue_list demo_queue = []" "m_data demo_queue = [0, 0, 0]"
  "m_size demo_queue = 0"
  by (simp_all add: demo_queue_def queue_inv_def queue_list_def)

theorem ring_buffer_fifo_witness:
  "\<exists>q1 q2. push_all pushTail demo_queue [4, 5, 6] = Some q1 \<and> pop_many popHead 3 q1 = Some ([4, 5, 6], q2)"
proof -
  have l: "length [4 :: nat, 5, 6] = 3" "length (m_data demo_queue) = 3"
    by (simp_all add: demo_queue_facts)
  show ?thesis
    using ring_buffer_fifo[OF demo_queue_facts(1,2), of "[4, 5, 6]", unfolded l] by blast
qed

text \<open>
  C10.  The two ends are independent: each push and pop at either end is the list operation
  at that end, and the indexed access and assignment are those of the list.
\<close>

theorem ring_buffer_refines_list:
  assumes "queue_inv q"
  shows "(m_size q < length (m_data q) \<longrightarrow> (\<exists>q'. pushTail q v = Some q' \<and> queue_inv q' \<and> queue_list q' = queue_list q @ [v]))
    \<and> (m_size q < length (m_data q) \<longrightarrow> (\<exists>q'. pushHead q v = Some q' \<and> queue_inv q' \<and> queue_list q' = v # queue_list q))
    \<and> (\<forall>x xs. queue_list q = x # xs \<longrightarrow> (\<exists>q'. popHead q = Some (x, q') \<and> queue_inv q' \<and> queue_list q' = xs))
    \<and> (\<forall>x xs. queue_list q = xs @ [x] \<longrightarrow> (\<exists>q'. popTail q = Some (x, q') \<and> queue_inv q' \<and> queue_list q' = xs))
    \<and> (\<forall>i < m_size q. queue_at q i = Some (queue_list q ! i)
        \<and> (\<exists>q'. queue_set_at q i v = Some q' \<and> queue_inv q' \<and> queue_list q' = (queue_list q)[i := v]))"
proof (intro conjI)
  show "m_size q < length (m_data q) \<longrightarrow> (\<exists>q'. pushTail q v = Some q' \<and> queue_inv q' \<and> queue_list q' = queue_list q @ [v])"
    using fcq.push_tail[OF assms] by auto
  show "m_size q < length (m_data q) \<longrightarrow> (\<exists>q'. pushHead q v = Some q' \<and> queue_inv q' \<and> queue_list q' = v # queue_list q)"
    using fcq.push_head[OF assms] by auto
  show "\<forall>x xs. queue_list q = x # xs \<longrightarrow> (\<exists>q'. popHead q = Some (x, q') \<and> queue_inv q' \<and> queue_list q' = xs)"
    using fcq.pop_head[OF assms] by auto
  show "\<forall>x xs. queue_list q = xs @ [x] \<longrightarrow> (\<exists>q'. popTail q = Some (x, q') \<and> queue_inv q' \<and> queue_list q' = xs)"
    using fcq.pop_tail[OF assms] by auto
  show "\<forall>i < m_size q. queue_at q i = Some (queue_list q ! i)
        \<and> (\<exists>q'. queue_set_at q i v = Some q' \<and> queue_inv q' \<and> queue_list q' = (queue_list q)[i := v])"
    using queue_at_correct[OF assms] queue_set_at_correct[OF assms] by auto
qed

theorem ring_buffer_refines_list_witness:
  "\<exists>q'. pushHead demo_queue 9 = Some q' \<and> queue_list q' = [9]"
  using ring_buffer_refines_list[OF demo_queue_facts(1), of 9] by (auto simp: demo_queue_facts)

text \<open>
  \<open>placementResize\<close> below the capacity makes the first cells the content.  At the full
  capacity it leaves \<open>m_back\<close> one past the array: after one \<open>popHead\<close> the buffer is not full
  and the next \<open>pushTail\<close> writes outside the array.  The bent laser's
  \<open>UpdateAllNodeByList\<close> accepts that size.
\<close>

theorem placement_resize_full:
  assumes "m_data q \<noteq> []"
  shows "(\<forall>n < length (m_data q). \<exists>q'. placementResize q n = Some q' \<and> queue_inv q'
        \<and> queue_list q' = take n (m_data q))
    \<and> (\<exists>q1 q2. placementResize q (length (m_data q)) = Some q1 \<and> queue_list q1 = m_data q
        \<and> popHead q1 = Some (hd (m_data q), q2) \<and> \<not> queue_full q2 \<and> pushTail q2 v = None)"
  using placementResize_correct[of _ q] placementResize_full[OF assms, of v] by blast

theorem placement_resize_full_witness:
  "\<exists>q1 q2. placementResize demo_queue 3 = Some q1 \<and> popHead q1 = Some (0, q2)
    \<and> \<not> queue_full q2 \<and> pushTail q2 7 = None"
proof -
  have "length (m_data demo_queue) = 3" "hd (m_data demo_queue) = 0" "m_data demo_queue \<noteq> []"
    by (simp_all add: demo_queue_facts)
  then show ?thesis using placement_resize_full[of demo_queue 7] by metis
qed

subsection \<open>Slot pool\<close>

text \<open>
  The slot pool hands out a free slot as long as there is one, never one in use, and
  fails only when all are in use; freeing puts the slot back on top, freeing a slot that is
  not in use changes nothing, and the size is the number of slots in use.
\<close>

theorem slot_pool_correct:
  assumes "object_pool_inv p"
  shows "(case pool_alloc p of
        (None, p') \<Rightarrow> p' = p \<and> pool_live p = {..<length (m_used p)}
      | (Some i, p') \<Rightarrow> object_pool_inv p' \<and> i < length (m_used p) \<and> i \<notin> pool_live p
          \<and> pool_live p' = insert i (pool_live p) \<and> pool_size p' = pool_size p + 1)
    \<and> (\<forall>i. object_pool_inv (pool_free p i) \<and> pool_live (pool_free p i) = pool_live p - {i}
          \<and> (i \<in> pool_live p \<longrightarrow> fst (pool_alloc (pool_free p i)) = Some i)
          \<and> (i \<notin> pool_live p \<longrightarrow> pool_free p i = p))"
proof (intro conjI allI)
  fix i
  show "object_pool_inv (pool_free p i)" "pool_live (pool_free p i) = pool_live p - {i}"
    "i \<notin> pool_live p \<longrightarrow> pool_free p i = p"
    using assms pool_free_live[OF assms] pool_free_dead[of i p] by (cases "i \<in> pool_live p"; auto)+
  show "i \<in> pool_live p \<longrightarrow> fst (pool_alloc (pool_free p i)) = Some i"
    using pool_alloc_after_free[OF assms] by blast
next
  show "case pool_alloc p of (None, p') \<Rightarrow> p' = p \<and> pool_live p = {..<length (m_used p)}
      | (Some i, p') \<Rightarrow> object_pool_inv p' \<and> i < length (m_used p) \<and> i \<notin> pool_live p
          \<and> pool_live p' = insert i (pool_live p) \<and> pool_size p' = pool_size p + 1"
  proof (cases "pool_alloc p")
    case (Pair r p')
    show ?thesis
    proof (cases r)
      case None
      then show ?thesis using Pair slots.alloc_NoneD[OF assms] slots.alloc_fails_iff[OF assms] by auto
    next
      case (Some i)
      note d = slots.alloc_SomeD[OF assms Pair[unfolded Some]]
      have "pool_size p' = pool_size p + 1"
        using pool_size_live[OF assms] pool_size_live[OF d(1)] d slots.finite_live[OF assms] by simp
      then show ?thesis using Pair Some d by simp
    qed
  qed
qed

theorem slot_pool_correct_witness:
  "fst (pool_alloc (pool_free (pool_new 3) 7)) = fst (pool_alloc (pool_new 3))"
  using slot_pool_correct[OF pool_new_inv[of 3]] pool_new_live[of 3] by auto

subsection \<open>Intrusive list\<close>

text \<open>
  The intrusive list refines a list of distinct objects: \<open>add\<close> appends a detached
  object, \<open>remove\<close> deletes one wherever it is, returns its successor and detaches it, and
  neither touches the links of objects outside the list.
\<close>

theorem intrusive_list_refines:
  assumes "represents L l xs"
  shows "(x \<notin> set xs \<and> unlinked L x \<longrightarrow> (\<exists>L' l'. list_add L l x = Some (L', l')
        \<and> represents L' l' (xs @ [x]) \<and> agree_off (insert x (set xs)) L L'))
    \<and> (x \<in> set xs \<longrightarrow> (\<exists>as bs L' l'. xs = as @ x # bs \<and> list_remove L l x = Some (head_of bs, L', l')
        \<and> represents L' l' (remove1 x xs) \<and> agree_off (set xs) L L' \<and> unlinked L' x))"
  using chain.add[OF assms, of x] chain.remove_member[OF assms, of x] by blast

theorem intrusive_list_refines_witness:
  "\<exists>L' l'. list_add \<lparr>link_previous = (\<lambda>_. None), link_next = (\<lambda>_. None)\<rparr> \<lparr>m_first = None, m_last = None\<rparr> 5
      = Some (L', l') \<and> represents L' l' [5]"
  using intrusive_list_refines[of "\<lparr>link_previous = (\<lambda>_. None), link_next = (\<lambda>_. None)\<rparr>"
      "\<lparr>m_first = None, m_last = None\<rparr>" "[]" 5]
  by (auto simp: represents_empty list_empty_def unlinked_def)

text \<open>
  \<open>clear\<close> terminates and detaches every object, but leaves the list's end pointers: a list
  that was not empty is not empty afterwards, and adding an object to it chains the object
  behind the detached last one.
\<close>

theorem intrusive_list_clear_stale:
  assumes "represents L l (xs @ [z])" "x \<notin> set (xs @ [z])"
  shows "\<exists>L'. list_clear L l = Some (L', l) \<and> (\<forall>y\<in>set (xs @ [z]). unlinked L' y) \<and> \<not> list_empty l
    \<and> list_add L' l x = Some (setPrevious (setNext L' z (Some x)) x (Some z), l\<lparr>m_last := Some x\<rparr>)"
proof -
  obtain L' where c: "list_clear L l = Some (L', l)" "\<forall>y\<in>set (xs @ [z]). unlinked L' y"
    using list_clear_correct[OF assms(1)] by blast
  have e: "\<not> list_empty l" "m_last l = Some z"
    using assms(1) represents_list_empty[OF assms(1)] by (auto simp: represents_def)
  then have "list_add L' l x = Some (setPrevious (setNext L' z (Some x)) x (Some z), l\<lparr>m_last := Some x\<rparr>)"
    by (simp add: list_add_def)
  with c e show ?thesis by blast
qed

theorem intrusive_list_clear_stale_witness:
  "\<exists>L'. list_clear \<lparr>link_previous = (\<lambda>_. None), link_next = (\<lambda>_. None)\<rparr> \<lparr>m_first = Some 5, m_last = Some 5\<rparr>
      = Some (L', \<lparr>m_first = Some 5, m_last = Some 5\<rparr>)"
  using intrusive_list_clear_stale[of "\<lparr>link_previous = (\<lambda>_. None), link_next = (\<lambda>_. None)\<rparr>"
      "\<lparr>m_first = Some 5, m_last = Some 5\<rparr>" "[]" 5 6]
  by (auto simp: represents_def)

end
