(* ===== verification/Float64.thy ===== *)
theory Float64
  imports Prelude
begin

text \<open>
  C++ \<open>double\<close> values as IEEE-754 binary64 bit patterns.  Comparison, negation, absolute
  value, \<open>std::clamp\<close> and \<open>std::max\<close> are exact.  Rounding arithmetic and the functions of
  \<open>cmath\<close> belong to the hardware and the C library: they are the fields of a
  \<open>float_ops\<close> record that the definitions take as an argument.
\<close>

type_synonym double = "64 word"

definition is_nan :: "double \<Rightarrow> bool" where
  "is_nan x \<longleftrightarrow> take_bit 63 x > 0x7FF0000000000000"

text \<open>The order of the non-NaN values: sign and magnitude; both zeros are 0.\<close>

definition double_key :: "double \<Rightarrow> int" where
  "double_key x = (if bit x 63 then - uint (take_bit 63 x) else uint (take_bit 63 x))"

definition double_lt :: "double \<Rightarrow> double \<Rightarrow> bool" where
  "double_lt x y \<longleftrightarrow> \<not> is_nan x \<and> \<not> is_nan y \<and> double_key x < double_key y"

definition double_le :: "double \<Rightarrow> double \<Rightarrow> bool" where
  "double_le x y \<longleftrightarrow> \<not> is_nan x \<and> \<not> is_nan y \<and> double_key x \<le> double_key y"

definition double_eq :: "double \<Rightarrow> double \<Rightarrow> bool" where
  "double_eq x y \<longleftrightarrow> \<not> is_nan x \<and> \<not> is_nan y \<and> double_key x = double_key y"

definition double_neg :: "double \<Rightarrow> double" where
  "double_neg x = x XOR 0x8000000000000000"

definition double_abs :: "double \<Rightarrow> double" where
  "double_abs x = take_bit 63 x"

text \<open>\<open>std::clamp(v, lo, hi)\<close> for an ordered range.\<close>

definition double_clamp :: "double \<Rightarrow> double \<Rightarrow> double \<Rightarrow> double" where
  "double_clamp v lo hi = (if double_lt v lo then lo else if double_lt hi v then hi else v)"

definition DBL_MAX :: double where "DBL_MAX = 0x7FEFFFFFFFFFFFFF"
definition DBL_MIN :: double where "DBL_MIN = 0x0010000000000000"
definition DBL_MAX_half :: double where "DBL_MAX_half = 0x7FDFFFFFFFFFFFFF"
definition double_one :: double where "double_one = 0x3FF0000000000000"
definition double_100 :: double where "double_100 = 0x4059000000000000"

record float_ops =
  fadd :: "double \<Rightarrow> double \<Rightarrow> double"
  fsub :: "double \<Rightarrow> double \<Rightarrow> double"
  fmul :: "double \<Rightarrow> double \<Rightarrow> double"
  fdiv :: "double \<Rightarrow> double \<Rightarrow> double"
  fsqrt :: "double \<Rightarrow> double"
  fhypot :: "double \<Rightarrow> double \<Rightarrow> double"
  fatan2 :: "double \<Rightarrow> double \<Rightarrow> double"
  fcos :: "double \<Rightarrow> double"
  fsin :: "double \<Rightarrow> double"
  to_float :: "double \<Rightarrow> u32"
  fmul32 :: "u32 \<Rightarrow> u32 \<Rightarrow> u32"

lemmas double_defs = double_lt_def double_le_def double_eq_def

lemma double_lt_irrefl [simp]: "\<not> double_lt x x"
  by (simp add: double_lt_def)

lemma double_lt_trans: "double_lt x y \<Longrightarrow> double_lt y z \<Longrightarrow> double_lt x z"
  by (auto simp: double_lt_def)

lemma double_lt_not_sym: "double_lt x y \<Longrightarrow> \<not> double_lt y x"
  by (auto simp: double_lt_def)

lemma double_trichotomy:
  "\<not> is_nan x \<Longrightarrow> \<not> is_nan y \<Longrightarrow> double_lt x y \<or> double_eq x y \<or> double_lt y x"
  by (auto simp: double_defs)

lemma double_eq_refl_iff: "double_eq x x \<longleftrightarrow> \<not> is_nan x"
  by (simp add: double_eq_def)

lemma double_key_neg: "double_key (double_neg x) = - double_key x"
proof -
  have "take_bit 63 (double_neg x) = take_bit 63 x"
    unfolding double_neg_def by (rule bit_word_eqI) (auto simp: bit_simps)
  moreover have "bit (double_neg x) 63 \<longleftrightarrow> \<not> bit x 63"
    by (simp add: double_neg_def bit_simps)
  ultimately show ?thesis by (simp add: double_key_def)
qed

lemma is_nan_neg [simp]: "is_nan (double_neg x) \<longleftrightarrow> is_nan x"
proof -
  have "take_bit 63 (double_neg x) = take_bit 63 x"
    unfolding double_neg_def by (rule bit_word_eqI) (auto simp: bit_simps)
  then show ?thesis by (simp add: is_nan_def)
qed

lemma double_zero [simp]: "\<not> is_nan 0" "double_key 0 = 0"
  by (simp_all add: is_nan_def double_key_def)

text \<open>A clamped number that is not NaN lies in the range.\<close>

lemma double_clamp_range:
  assumes "\<not> is_nan v" "double_le lo hi"
  shows "double_le lo (double_clamp v lo hi) \<and> double_le (double_clamp v lo hi) hi"
  using assms by (auto simp: double_clamp_def double_defs)

lemma double_clamp_nan: "is_nan v \<Longrightarrow> double_clamp v lo hi = v"
  by (simp add: double_clamp_def double_lt_def)

end
