(* ===== verification/GameObject.thy ===== *)
theory GameObject
  imports Float64
begin

text \<open>
  One game object: \<open>GameObject.hpp\<close>, \<open>GameObject.cpp\<close> and
  \<open>GameObjectIntersectDetect.cpp\<close> of \<open>LuaSTG/LuaSTG/GameObject\<close>, in the configuration of
  \<open>Custom/Config.h\<close> (speed limits and scaled colliders on, worlds and per-object pause
  off).  The link fields of the object are in \<open>ObjectList\<close>.  Calls into the renderer, the
  particle system and the reference counts are returned as lists of commands, in order.
\<close>

subsection \<open>Data\<close>

datatype GameObjectStatus = Free | Active | Dead | Killed

record GameObjectFeatures =
  is_class :: bool
  is_render_class :: bool
  has_callback_create :: bool
  has_callback_destroy :: bool
  has_callback_update :: bool
  has_callback_render :: bool
  has_callback_trigger :: bool
  has_callback_legacy_kill :: bool

definition features_reset :: GameObjectFeatures where
  "features_reset = \<lparr>is_class = False, is_render_class = False, has_callback_create = False,
     has_callback_destroy = False, has_callback_update = False, has_callback_render = False,
     has_callback_trigger = False, has_callback_legacy_kill = False\<rparr>"

datatype ResourceType = Texture | Sprite | Animation | Music | SoundEffect | Particle
  | SpriteFont | TrueTypeFont | FX | Model

text \<open>A resource object is its type and an identity.\<close>

datatype resource_ref = ResourceRef (res_type: ResourceType) (res_id: nat)

text \<open>
  The field \<open>callbacks\<close> is a pointer that is either null, one callback object stored in
  place, or an allocated array of \<open>callbacks_capacity\<close> cells (\<open>None\<close>: null or not written).
\<close>

datatype callbacks_ptr = CbNull | CbDirect nat | CbArray "nat option list"

record game_object =
  callbacks :: callbacks_ptr
  callbacks_count :: nat
  callbacks_capacity :: nat
  obj_id :: nat
  unique_id :: u64
  last_x :: double
  last_y :: double
  pos_x :: double
  pos_y :: double
  dx :: double
  dy :: double
  vx :: double
  vy :: double
  ax :: double
  ay :: double
  max_vx :: double
  max_vy :: double
  max_v :: double
  ag :: double
  group :: u64
  half_a :: double
  half_b :: double
  col_r :: double
  layer :: double
  hscale :: double
  vscale :: double
  rot :: double
  omega :: double
  ani_timer :: u64
  res :: "resource_ref option"
  ps :: "nat option"
  timer :: u64
  vertex_color :: u32
  blend_mode :: u8
  features :: GameObjectFeatures
  status :: GameObjectStatus
  bound :: bool
  colli :: bool
  rect :: bool
  hide :: bool
  navi :: bool
  ignore_super_pause :: bool
  last_xy_touched :: bool

subsection \<open>Callback lists\<close>

definition isDirectCallbacks :: "game_object \<Rightarrow> bool" where
  "isDirectCallbacks self \<longleftrightarrow> callbacks_count self = 1 \<and> callbacks_capacity self = 0"

definition setDirectCallbacks :: "game_object \<Rightarrow> nat \<Rightarrow> game_object" where
  "setDirectCallbacks self c =
     self\<lparr>callbacks := CbDirect c, callbacks_count := 1, callbacks_capacity := 0\<rparr>"

definition clearCallbacks :: "game_object \<Rightarrow> game_object" where
  "clearCallbacks self =
     self\<lparr>callbacks := CbNull, callbacks_count := 0, callbacks_capacity := 0\<rparr>"

text \<open>
  The first \<open>callbacks_count\<close> cells of the array.  Reading the pointer as an array when it
  is not one, or beyond the array, is undefined behaviour: \<open>None\<close>.
\<close>

definition callback_cells :: "game_object \<Rightarrow> nat option list option" where
  "callback_cells self =
     (if callbacks_count self = 0 then Some []
      else case callbacks self of
        CbArray cells \<Rightarrow> if callbacks_count self \<le> length cells
          then Some (take (callbacks_count self) cells) else None
      | _ \<Rightarrow> None)"

definition direct_callback :: "game_object \<Rightarrow> nat option" where
  "direct_callback self = (case callbacks self of CbDirect c \<Rightarrow> Some c | _ \<Rightarrow> None)"

definition containsCallbacks :: "game_object \<Rightarrow> nat \<Rightarrow> bool option" where
  "containsCallbacks self c =
     (if isDirectCallbacks self then Some (direct_callback self = Some c)
      else map_option (\<lambda>cells. Some c \<in> set cells) (callback_cells self))"

text \<open>The write \<open>callbacks[callbacks_count] = c; callbacks_count++\<close> at the end of \<open>addCallbacks\<close>.\<close>

definition append_callback :: "game_object \<Rightarrow> nat \<Rightarrow> game_object option" where
  "append_callback self c =
     (case callbacks self of
        CbArray cells \<Rightarrow> if callbacks_count self < length cells
          then Some (self\<lparr>callbacks := CbArray (cells[callbacks_count self := Some c]),
                          callbacks_count := callbacks_count self + 1\<rparr>)
          else None
      | _ \<Rightarrow> None)"

text \<open>
  \<open>addCallbacks\<close>.  The branch that doubles the array carries \<open>assert(false)\<close> as a debugging
  aid; the code after it, which release builds run, is what is modelled.
\<close>

definition addCallbacks :: "game_object \<Rightarrow> nat \<Rightarrow> game_object option" where
  "addCallbacks self c =
     (if callbacks_count self = 0 then Some (setDirectCallbacks self c)
      else case containsCallbacks self c of
        None \<Rightarrow> None
      | Some True \<Rightarrow> Some self
      | Some False \<Rightarrow>
          (let self1 =
             (if isDirectCallbacks self then
                self\<lparr>callbacks_count := 2, callbacks_capacity := 2,
                     callbacks := CbArray [direct_callback self, Some c]\<rparr>
              else if callbacks_count self = callbacks_capacity self then
                (case callbacks self of
                   CbArray cells \<Rightarrow> self\<lparr>callbacks_capacity := callbacks_capacity self * 2,
                     callbacks := CbArray (take (callbacks_count self) cells
                       @ replicate (callbacks_count self) None)\<rparr>
                 | _ \<Rightarrow> self)
              else self)
           in append_callback self1 c))"

text \<open>\<open>std::ranges::remove\<close> followed by filling the tail with null.\<close>

definition remove_cells :: "nat \<Rightarrow> nat option list \<Rightarrow> nat option list" where
  "remove_cells c cells =
     (let kept = filter (\<lambda>x. x \<noteq> Some c) cells
      in kept @ replicate (length cells - length kept) None)"

definition removeCallbacks :: "game_object \<Rightarrow> nat \<Rightarrow> game_object option" where
  "removeCallbacks self c =
     (if callbacks_count self = 0 then Some self
      else
        let self1 = (if isDirectCallbacks self \<and> direct_callback self = Some c
                     then clearCallbacks self else self)
        in case callback_cells self1 of
             None \<Rightarrow> None
           | Some cells \<Rightarrow>
               if callbacks_count self1 = 1 \<and> cells ! 0 = Some c then
                 Some (self1\<lparr>callbacks := (case callbacks self1 of
                           CbArray all_cells \<Rightarrow> CbArray (all_cells[0 := None]) | p \<Rightarrow> p),
                         callbacks_count := 0\<rparr>)
               else
                 Some (self1\<lparr>callbacks := (case callbacks self1 of
                           CbArray all_cells \<Rightarrow> CbArray (remove_cells c cells
                             @ drop (callbacks_count self1) all_cells) | p \<Rightarrow> p),
                         callbacks_count := length (filter (\<lambda>x. x \<noteq> Some c) cells)\<rparr>))"

definition removeAllCallbacks :: "game_object \<Rightarrow> game_object" where
  "removeAllCallbacks self = clearCallbacks self"

text \<open>
  \<open>FOR_EACH_CALLBACKS\<close>: the callback objects a dispatch calls, in order; a null cell is a
  call through a null pointer.
\<close>

definition dispatch_targets :: "game_object \<Rightarrow> nat list option" where
  "dispatch_targets self =
     (if isDirectCallbacks self then map_option (\<lambda>c. [c]) (direct_callback self)
      else case callback_cells self of
        None \<Rightarrow> None
      | Some cells \<Rightarrow> if None \<in> set cells then None else Some (map the cells))"

lemmas callback_defs = isDirectCallbacks_def setDirectCallbacks_def clearCallbacks_def
  callback_cells_def direct_callback_def containsCallbacks_def append_callback_def
  addCallbacks_def removeCallbacks_def removeAllCallbacks_def dispatch_targets_def

subsection \<open>Reset\<close>

definition game_object_Reset :: "game_object \<Rightarrow> game_object" where
  "game_object_Reset self =
     self\<lparr>status := Free, obj_id := 0xffff, unique_id := 0, features := features_reset,
       pos_x := 0, pos_y := 0, last_x := 0, last_y := 0, dx := 0, dy := 0, rot := 0, omega := 0,
       vx := 0, vy := 0, ax := 0, ay := 0, layer := 0, hscale := double_one, vscale := double_one,
       max_v := DBL_MAX_half, max_vx := DBL_MAX, max_vy := DBL_MAX, ag := 0,
       colli := True, bound := True, hide := False, navi := False,
       group := 0, timer := 0, ani_timer := 0, res := None, ps := None,
       ignore_super_pause := False, last_xy_touched := False,
       rect := False, half_a := 0, half_b := 0, col_r := 0,
       blend_mode := 1, vertex_color := 0xFFFFFFFF\<rparr>"

text \<open>A slot of the zero-initialised storage \<open>m_data[N]{}\<close> of the pool.\<close>

definition game_object_zero :: game_object where
  "game_object_zero = \<lparr>callbacks = CbNull, callbacks_count = 0, callbacks_capacity = 0,
     obj_id = 0, unique_id = 0, last_x = 0, last_y = 0, pos_x = 0, pos_y = 0, dx = 0, dy = 0,
     vx = 0, vy = 0, ax = 0, ay = 0, max_vx = 0, max_vy = 0, max_v = 0, ag = 0, group = 0,
     half_a = 0, half_b = 0, col_r = 0, layer = 0, hscale = 0, vscale = 0, rot = 0, omega = 0,
     ani_timer = 0, res = None, ps = None, timer = 0, vertex_color = 0, blend_mode = 0,
     features = features_reset, status = Free, bound = False, colli = False, rect = False,
     hide = False, navi = False, ignore_super_pause = False, last_xy_touched = False\<rparr>"

subsection \<open>Resources\<close>

datatype resource_cmd =
    CmdDestroyInstance nat nat
  | CmdRelease resource_ref
  | CmdRetain resource_ref

definition ReleaseResource :: "game_object \<Rightarrow> (game_object \<times> resource_cmd list) option" where
  "ReleaseResource self =
     (case res self of
        None \<Rightarrow> Some (self, [])
      | Some r \<Rightarrow>
          if res_type r = Particle then
            (case ps self of
               None \<Rightarrow> None
             | Some p \<Rightarrow> Some (self\<lparr>ps := None, res := None\<rparr>,
                               [CmdDestroyInstance (res_id r) p, CmdRelease r]))
          else Some (self\<lparr>res := None\<rparr>, [CmdRelease r]))"

definition DirtReset :: "game_object \<Rightarrow> (game_object \<times> resource_cmd list) option" where
  "DirtReset self =
     (let o1 = self\<lparr>status := Active,
       pos_x := 0, pos_y := 0, last_x := 0, last_y := 0, dx := 0, dy := 0, rot := 0, omega := 0,
       vx := 0, vy := 0, ax := 0, ay := 0, layer := 0, hscale := double_one, vscale := double_one,
       max_v := DBL_MAX_half, max_vx := DBL_MAX, max_vy := DBL_MAX, ag := 0,
       colli := True, bound := True, hide := False, navi := False,
       group := 0, timer := 0, ani_timer := 0\<rparr>
      in case ReleaseResource o1 of
           None \<Rightarrow> None
         | Some (o2, cmds) \<Rightarrow>
             Some (o2\<lparr>ignore_super_pause := False, last_xy_touched := False,
                rect := False, half_a := 0, half_b := 0, col_r := 0,
                blend_mode := 1, vertex_color := 0xFFFFFFFF\<rparr>, cmds))"

definition UpdateCollisionCircleRadius :: "float_ops \<Rightarrow> game_object \<Rightarrow> game_object" where
  "UpdateCollisionCircleRadius F self =
     (if rect self then self\<lparr>col_r := fhypot F (half_a self) (half_b self)\<rparr>
      else if \<not> double_eq (half_a self) (half_b self) then
        self\<lparr>col_r := (if double_lt (half_b self) (half_a self) then half_a self else half_b self)\<rparr>
      else self\<lparr>col_r := half_a self\<rparr>)"

text \<open>
  What a resource lookup finds, as \<open>ChangeResource\<close> uses it.  \<open>scale\<close> is
  \<open>GetGlobalImageScaleFactor\<close>; \<open>create_instance\<close> is the particle pool allocation.
\<close>

record found_resource =
  found_id :: nat
  found_half_x :: double
  found_half_y :: double
  found_rect :: bool

record resource_finder =
  find_sprite :: "string \<Rightarrow> found_resource option"
  find_animation :: "string \<Rightarrow> found_resource option"
  find_particle :: "string \<Rightarrow> found_resource option"
  create_instance :: "nat \<Rightarrow> nat option"
  image_scale :: double

definition attach_resource ::
  "float_ops \<Rightarrow> double \<Rightarrow> ResourceType \<Rightarrow> found_resource \<Rightarrow> game_object \<Rightarrow> game_object" where
  "attach_resource F scale t f self =
     UpdateCollisionCircleRadius F
       (self\<lparr>res := Some (ResourceRef t (found_id f)),
          half_a := fmul F (found_half_x f) scale, half_b := fmul F (found_half_y f) scale,
          rect := found_rect f\<rparr>)"

datatype particle_cmd =
    PsSetActive nat bool
  | PsSetCenter nat double double
  | PsSetRotation nat double
  | PsUpdate nat

definition ChangeResource :: "float_ops \<Rightarrow> resource_finder \<Rightarrow> string \<Rightarrow> game_object
    \<Rightarrow> bool \<times> game_object \<times> resource_cmd list \<times> particle_cmd list" where
  "ChangeResource F R name self =
     (case find_sprite R name of
        Some f \<Rightarrow> (True, attach_resource F (image_scale R) Sprite f self,
                   [CmdRetain (ResourceRef Sprite (found_id f))], [])
      | None \<Rightarrow> (case find_animation R name of
          Some f \<Rightarrow> (True, attach_resource F (image_scale R) Animation f self,
                     [CmdRetain (ResourceRef Animation (found_id f))], [])
        | None \<Rightarrow> (case find_particle R name of
            Some f \<Rightarrow> (case create_instance R (found_id f) of
                None \<Rightarrow> (False, self\<lparr>res := None\<rparr>, [], [])
              | Some p \<Rightarrow> (True, attach_resource F (image_scale R) Particle f (self\<lparr>ps := Some p\<rparr>),
                           [CmdRetain (ResourceRef Particle (found_id f))],
                           [PsSetActive p False, PsSetCenter p (pos_x self) (pos_y self),
                            PsSetRotation p (rot self), PsSetActive p True]))
          | None \<Rightarrow> (False, self, [], []))))"


subsection \<open>Motion\<close>

definition set_motion_limit :: "float_ops \<Rightarrow> game_object \<Rightarrow> game_object" where
  "set_motion_limit F self =
     (if double_le (max_v self) DBL_MIN then self\<lparr>vx := 0, vy := 0\<rparr>
      else
        let speed = fsqrt F (fadd F (fmul F (vx self) (vx self)) (fmul F (vy self) (vy self)))
        in if double_lt (max_v self) speed \<and> double_lt DBL_MIN speed then
             (let scale = fdiv F (max_v self) speed
              in self\<lparr>vx := fmul F scale (vx self), vy := fmul F scale (vy self)\<rparr>)
           else self)"

text \<open>The velocity and position part that \<open>Update\<close> and \<open>UpdateV2\<close> share.\<close>

definition update_motion :: "float_ops \<Rightarrow> game_object \<Rightarrow> game_object" where
  "update_motion F self =
     (let s1 = self\<lparr>vx := fadd F (vx self) (ax self), vy := fadd F (vy self) (ay self)\<rparr>;
          s2 = s1\<lparr>vy := fsub F (vy s1) (ag s1)\<rparr>;
          s3 = set_motion_limit F s2;
          s4 = s3\<lparr>vx := double_clamp (vx s3) (double_neg (max_vx s3)) (max_vx s3)\<rparr>;
          s5 = s4\<lparr>vy := double_clamp (vy s4) (double_neg (max_vy s4)) (max_vy s4)\<rparr>;
          s6 = s5\<lparr>pos_x := fadd F (pos_x s5) (vx s5), pos_y := fadd F (pos_y s5) (vy s5)\<rparr>
      in s6\<lparr>rot := fadd F (rot s6) (omega s6)\<rparr>)"

text \<open>
  The particle part: an object with a particle resource and a null particle pool
  dereferences null.  \<open>actived\<close> is the answer of \<open>IsActived\<close>.
\<close>

definition update_particles ::
  "(nat \<Rightarrow> bool) \<Rightarrow> game_object \<Rightarrow> particle_cmd list option" where
  "update_particles actived self =
     (case res self of
        None \<Rightarrow> Some []
      | Some r \<Rightarrow>
          if res_type r \<noteq> Particle then Some []
          else (case ps self of
            None \<Rightarrow> None
          | Some p \<Rightarrow> Some (PsSetRotation p (rot self)
              # (if actived p then
                   [PsSetActive p False, PsSetCenter p (pos_x self) (pos_y self), PsSetActive p True]
                 else [PsSetCenter p (pos_x self) (pos_y self)])
              @ [PsUpdate p])))"

definition game_object_Update ::
  "float_ops \<Rightarrow> (nat \<Rightarrow> bool) \<Rightarrow> game_object \<Rightarrow> (game_object \<times> particle_cmd list) option" where
  "game_object_Update F actived self =
     (let self1 = update_motion F self
      in map_option (\<lambda>cmds. (self1, cmds)) (update_particles actived self1))"

definition moved :: "double \<Rightarrow> double \<Rightarrow> bool" where
  "moved ddx ddy \<longleftrightarrow> double_lt DBL_MIN (double_abs ddx) \<or> double_lt DBL_MIN (double_abs ddy)"

definition game_object_UpdateV2 ::
  "float_ops \<Rightarrow> (nat \<Rightarrow> bool) \<Rightarrow> game_object \<Rightarrow> (game_object \<times> particle_cmd list) option" where
  "game_object_UpdateV2 F actived self =
     (let self1 = update_motion F self;
          ddx = fsub F (pos_x self1) (last_x self1);
          ddy = fsub F (pos_y self1) (last_y self1);
          self2 = (if navi self1 \<and> last_xy_touched self1 \<and> moved ddx ddy
                   then self1\<lparr>rot := fatan2 F ddy ddx\<rparr> else self1)
      in map_option (\<lambda>cmds. (self2, cmds)) (update_particles actived self2))"

definition record_last :: "float_ops \<Rightarrow> game_object \<Rightarrow> game_object" where
  "record_last F self =
     (let self1 = (if last_xy_touched self
                   then self\<lparr>dx := fsub F (pos_x self) (last_x self),
                             dy := fsub F (pos_y self) (last_y self)\<rparr>
                   else self\<lparr>dx := 0, dy := 0\<rparr>)
      in self1\<lparr>last_x := pos_x self1, last_y := pos_y self1, last_xy_touched := True\<rparr>)"

definition game_object_UpdateLast :: "float_ops \<Rightarrow> game_object \<Rightarrow> game_object" where
  "game_object_UpdateLast F self =
     (let self1 = record_last F self
      in if navi self1 \<and> moved (dx self1) (dy self1)
         then self1\<lparr>rot := fatan2 F (dy self1) (dx self1)\<rparr> else self1)"

definition game_object_UpdateTimer :: "game_object \<Rightarrow> game_object" where
  "game_object_UpdateTimer self = self\<lparr>timer := timer self + 1, ani_timer := ani_timer self + 1\<rparr>"

definition game_object_UpdateLastV2 :: "float_ops \<Rightarrow> game_object \<Rightarrow> game_object" where
  "game_object_UpdateLastV2 F self =
     (let self1 = record_last F self
      in self1\<lparr>timer := timer self1 + 1, ani_timer := ani_timer self1 + 1\<rparr>)"

subsection \<open>Speed accessors\<close>

definition calculateSpeed :: "float_ops \<Rightarrow> game_object \<Rightarrow> double" where
  "calculateSpeed F self = fhypot F (vx self) (vy self)"

definition calculateSpeedDirection :: "float_ops \<Rightarrow> game_object \<Rightarrow> double" where
  "calculateSpeedDirection F self =
     (if double_lt DBL_MIN (double_abs (vx self)) \<and> double_lt DBL_MIN (double_abs (vy self))
      then fatan2 F (vy self) (vx self) else rot self)"

definition setSpeed :: "float_ops \<Rightarrow> double \<Rightarrow> game_object \<Rightarrow> game_object" where
  "setSpeed F speed self =
     (let current = calculateSpeed F self
      in if double_lt DBL_MIN current then
           (let a3 = fdiv F speed current
            in self\<lparr>vx := fmul F (vx self) a3, vy := fmul F (vy self) a3\<rparr>)
         else self\<lparr>vx := fmul F (fcos F (rot self)) speed, vy := fmul F (fsin F (rot self)) speed\<rparr>)"

definition setSpeedDirection :: "float_ops \<Rightarrow> double \<Rightarrow> game_object \<Rightarrow> game_object" where
  "setSpeedDirection F direction self =
     (let speed = calculateSpeed F self
      in if double_lt DBL_MIN speed then
           self\<lparr>vx := fmul F speed (fcos F direction), vy := fmul F speed (fsin F direction)\<rparr>
         else self\<lparr>rot := direction\<rparr>)"

subsection \<open>Rendering\<close>

text \<open>
  The renderer calls of \<open>Render\<close>.  \<open>styled\<close> is the blend mode and colour of a render
  class; scales are multiplied in single precision.
\<close>

datatype draw_cmd =
    DrawSprite nat u32 u32 u32 u32 u32 "(u8 \<times> u32) option"
  | DrawAnimation nat u32 u32 u32 u32 u32 u32 "(u8 \<times> u32) option"
  | PoolSetBlendMode nat u8
  | PoolSetVertexColor nat u32
  | DrawParticles nat u32 u32

definition game_object_Render ::
  "float_ops \<Rightarrow> u32 \<Rightarrow> game_object \<Rightarrow> draw_cmd list" where
  "game_object_Render F gscale self =
     (case res self of
        None \<Rightarrow> []
      | Some r \<Rightarrow>
          let f = to_float F;
              hs = fmul32 F (f (hscale self)) gscale;
              vs = fmul32 F (f (vscale self)) gscale;
              styled = (if is_render_class (features self)
                        then Some (blend_mode self, vertex_color self) else None)
          in case res_type r of
               Sprite \<Rightarrow> [DrawSprite (res_id r) (f (pos_x self)) (f (pos_y self)) (f (rot self)) hs vs styled]
             | Animation \<Rightarrow> [DrawAnimation (res_id r) (ucast (ani_timer self))
                 (f (pos_x self)) (f (pos_y self)) (f (rot self)) hs vs styled]
             | Particle \<Rightarrow> (case ps self of
                 None \<Rightarrow> []
               | Some p \<Rightarrow> (case styled of None \<Rightarrow> []
                   | Some (blend, color) \<Rightarrow> [PoolSetBlendMode p blend, PoolSetVertexColor p color])
                   @ [DrawParticles p hs vs])
             | _ \<Rightarrow> [])"

datatype render_state_cmd =
    SetSpriteState nat u8 u32
  | SetAnimationState nat u8 u32
  | SetParticleState nat u8 u32

definition setResourceRenderState :: "u8 \<Rightarrow> u32 \<Rightarrow> game_object \<Rightarrow> render_state_cmd list" where
  "setResourceRenderState blend color self =
     (case res self of
        None \<Rightarrow> []
      | Some r \<Rightarrow>
          if res_type r = Sprite then [SetSpriteState (res_id r) blend color]
          else if res_type r = Animation then [SetAnimationState (res_id r) blend color]
          else [])"

definition hasParticlePool :: "game_object \<Rightarrow> bool" where
  "hasParticlePool self \<longleftrightarrow>
     (case res self of None \<Rightarrow> False | Some r \<Rightarrow> res_type r = Particle \<and> ps self \<noteq> None)"

definition setParticleRenderState ::
  "u8 \<Rightarrow> u32 \<Rightarrow> game_object \<Rightarrow> render_state_cmd list option" where
  "setParticleRenderState blend color self =
     (case res self of
        None \<Rightarrow> Some []
      | Some r \<Rightarrow>
          if res_type r \<noteq> Particle then Some []
          else map_option (\<lambda>p. [SetParticleState p blend color]) (ps self))"

text \<open>\<open>stopParticle\<close> and \<open>startParticle\<close>.\<close>

definition setParticleActive :: "bool \<Rightarrow> game_object \<Rightarrow> particle_cmd list" where
  "setParticleActive active self =
     (if \<not> hasParticlePool self then [] else [PsSetActive (the (ps self)) active])"

text \<open>\<open>getParticleCount\<close>, \<open>getParticleEmission\<close>: a query of the pool, 0 without one.\<close>

definition getParticleValue :: "(nat \<Rightarrow> 'n :: zero) \<Rightarrow> game_object \<Rightarrow> 'n" where
  "getParticleValue query self = (if \<not> hasParticlePool self then 0 else query (the (ps self)))"

subsection \<open>Geometry\<close>

definition isInRect ::
  "double \<Rightarrow> double \<Rightarrow> double \<Rightarrow> double \<Rightarrow> game_object \<Rightarrow> bool" where
  "isInRect l r bb t self \<longleftrightarrow> double_le l (pos_x self) \<and> double_le (pos_x self) r
     \<and> double_le bb (pos_y self) \<and> double_le (pos_y self) t"

datatype ColliderType = Circle | OBB | Ellipse

record collider =
  center_x :: u32
  center_y :: u32
  extent_a :: u32
  extent_b :: u32
  rotation :: u32
  collider_type :: ColliderType

definition getColliderType :: "game_object \<Rightarrow> ColliderType" where
  "getColliderType p =
     (if rect p then OBB else if double_eq (half_a p) (half_b p) then Circle else Ellipse)"

definition isAxisAlignedBoundingBoxNotIntersect :: "float_ops \<Rightarrow> game_object \<Rightarrow> game_object \<Rightarrow> bool" where
  "isAxisAlignedBoundingBoxNotIntersect F p1 p2 \<longleftrightarrow>
     double_lt (fadd F (pos_x p1) (col_r p1)) (fsub F (pos_x p2) (col_r p2))
   \<or> double_lt (fadd F (pos_x p2) (col_r p2)) (fsub F (pos_x p1) (col_r p1))
   \<or> double_lt (fadd F (pos_y p1) (col_r p1)) (fsub F (pos_y p2) (col_r p2))
   \<or> double_lt (fadd F (pos_y p2) (col_r p2)) (fsub F (pos_y p1) (col_r p1))"

definition circle_collider :: "float_ops \<Rightarrow> game_object \<Rightarrow> collider" where
  "circle_collider F p = \<lparr>center_x = to_float F (pos_x p), center_y = to_float F (pos_y p),
     extent_a = to_float F (col_r p), extent_b = to_float F (col_r p),
     rotation = to_float F (rot p), collider_type = Circle\<rparr>"

definition exact_collider :: "float_ops \<Rightarrow> game_object \<Rightarrow> collider" where
  "exact_collider F p = \<lparr>center_x = to_float F (pos_x p), center_y = to_float F (pos_y p),
     extent_a = to_float F (half_a p), extent_b = to_float F (half_b p),
     rotation = to_float F (rot p), collider_type = getColliderType p\<rparr>"

text \<open>\<open>check\<close> is \<open>xmath::collision::check\<close>.\<close>

definition isIntersect ::
  "float_ops \<Rightarrow> (collider \<Rightarrow> collider \<Rightarrow> bool) \<Rightarrow> game_object \<Rightarrow> game_object \<Rightarrow> bool" where
  "isIntersect F check p1 p2 =
     (if \<not> colli p1 \<or> \<not> colli p2 then False
      else if isAxisAlignedBoundingBoxNotIntersect F p1 p2 then False
      else if \<not> check (circle_collider F p1) (circle_collider F p2) then False
      else check (exact_collider F p1) (exact_collider F p2))"

subsection \<open>Facts about callback lists\<close>

text \<open>
  \<open>callbacks_rep self cs\<close>: the field triple represents the list \<open>cs\<close> of registered
  callback objects.
\<close>

definition callbacks_rep :: "game_object \<Rightarrow> nat list \<Rightarrow> bool" where
  "callbacks_rep self cs \<longleftrightarrow> distinct cs \<and> callbacks_count self = length cs \<and>
     (cs = [] \<or>
      (\<exists>c. cs = [c] \<and> callbacks self = CbDirect c \<and> callbacks_capacity self = 0) \<or>
      (\<exists>cells. callbacks self = CbArray cells \<and> callbacks_capacity self = length cells
         \<and> length cs \<le> length cells \<and> take (length cs) cells = map Some cs))"

lemma callbacks_rep_cases [consumes 1, case_names empty direct array]:
  assumes "callbacks_rep self cs"
  obtains "cs = []" "callbacks_count self = 0"
  | c where "cs = [c]" "callbacks self = CbDirect c" "callbacks_capacity self = 0"
      "callbacks_count self = 1"
  | cells where "cs \<noteq> []" "callbacks self = CbArray cells" "callbacks_capacity self = length cells"
      "callbacks_count self = length cs" "length cs \<le> length cells"
      "take (length cs) cells = map Some cs"
  using assms unfolding callbacks_rep_def by auto

lemma callbacks_rep_clear [simp]: "callbacks_rep (clearCallbacks self) []"
  by (simp add: callbacks_rep_def clearCallbacks_def)

lemma callbacks_rep_setDirect [simp]: "callbacks_rep (setDirectCallbacks self c) [c]"
  by (simp add: callbacks_rep_def setDirectCallbacks_def)

lemma array_not_direct:
  assumes "cs \<noteq> []" "callbacks_capacity self = length cells" "length cs \<le> length cells"
  shows "\<not> isDirectCallbacks self"
  using assms by (auto simp: isDirectCallbacks_def)

lemma containsCallbacks_rep:
  assumes "callbacks_rep self cs"
  shows "containsCallbacks self c = Some (c \<in> set cs)"
  using assms
proof (cases rule: callbacks_rep_cases)
  case (array cells)
  then show ?thesis using array_not_direct[of cs self cells]
    by (auto simp: containsCallbacks_def callback_cells_def)
qed (auto simp: callback_defs)

lemma dispatch_targets_rep:
  assumes "callbacks_rep self cs"
  shows "dispatch_targets self = Some cs"
  using assms
proof (cases rule: callbacks_rep_cases)
  case (array cells)
  then show ?thesis using array_not_direct[of cs self cells]
    by (auto simp: dispatch_targets_def callback_cells_def comp_def)
qed (auto simp: callback_defs)

lemma addCallbacks_first:
  "callbacks_rep self [] \<Longrightarrow> \<exists>s'. addCallbacks self c = Some s' \<and> callbacks_rep s' [c]"
  by (simp add: addCallbacks_def callbacks_rep_def setDirectCallbacks_def)

lemma addCallbacks_present:
  assumes "callbacks_rep self cs" "c \<in> set cs"
  shows "addCallbacks self c = Some self"
  using assms containsCallbacks_rep[OF assms(1), of c]
  by (auto simp: addCallbacks_def callbacks_rep_def)

lemma append_callback_rep:
  assumes "callbacks self = CbArray cells" "callbacks_count self = length cs"
    "callbacks_capacity self = length cells" "length cs < length cells"
    "take (length cs) cells = map Some cs" "distinct cs" "c \<notin> set cs"
  shows "\<exists>s'. append_callback self c = Some s' \<and> callbacks_rep s' (cs @ [c])"
proof -
  have "take (Suc (length cs)) (cells[length cs := Some c]) = map Some cs @ [Some c]"
    using assms(4,5) by (simp add: take_Suc_conv_app_nth)
  with assms show ?thesis by (auto simp: append_callback_def callbacks_rep_def)
qed

lemma addCallbacks_array:
  assumes rep: "callbacks_rep self cs" and c: "c \<notin> set cs" and ne: "cs \<noteq> []"
    and nd: "\<not> isDirectCallbacks self"
  shows "\<exists>s'. addCallbacks self c = Some s' \<and> callbacks_rep s' (cs @ [c])"
  using rep
proof (cases rule: callbacks_rep_cases)
  case (direct d)
  with nd show ?thesis by (simp add: isDirectCallbacks_def)
next
  case (array cells)
  let ?grown = "self\<lparr>callbacks_capacity := callbacks_capacity self * 2,
    callbacks := CbArray (take (callbacks_count self) cells @ replicate (callbacks_count self) None)\<rparr>"
  have d: "distinct cs" using rep by (simp add: callbacks_rep_def)
  have "addCallbacks self c = append_callback (if length cs = length cells then ?grown else self) c"
    using array nd c containsCallbacks_rep[OF rep, of c] by (simp add: addCallbacks_def)
  moreover have "\<exists>s'. append_callback (if length cs = length cells then ?grown else self) c = Some s'
      \<and> callbacks_rep s' (cs @ [c])"
  proof (cases "length cs = length cells")
    case True
    have "\<exists>s'. append_callback ?grown c = Some s' \<and> callbacks_rep s' (cs @ [c])"
      by (rule append_callback_rep[where cells = "map Some cs @ replicate (length cs) None"])
        (use array d c ne True in simp_all)
    with True show ?thesis by simp
  next
    case False
    then show ?thesis using array d c append_callback_rep[of self cells cs c] by simp
  qed
  ultimately show ?thesis by simp
qed (use ne in simp)

text \<open>
  The step from one callback to two: the array is allocated with two cells, both are
  written, and then cell 2 is written as well.
\<close>

lemma addCallbacks_direct:
  assumes "callbacks_rep self cs" "isDirectCallbacks self" "c \<notin> set cs"
  shows "addCallbacks self c = None"
  using assms(1)
proof (cases rule: callbacks_rep_cases)
  case (direct d)
  then show ?thesis using assms(2,3) containsCallbacks_rep[OF assms(1), of c]
    by (simp add: addCallbacks_def append_callback_def)
next
  case (array cells)
  with assms(2) array_not_direct[of cs self cells] show ?thesis by simp
qed (use assms(2) in \<open>simp add: isDirectCallbacks_def\<close>)

lemma removeCallbacks_direct:
  assumes "callbacks_rep self [d]" "isDirectCallbacks self"
  shows "removeCallbacks self c = (if c = d then Some (clearCallbacks self) else None)"
  using assms(1)
proof (cases rule: callbacks_rep_cases)
  case (direct e)
  then show ?thesis using assms(2)
    by (simp add: removeCallbacks_def direct_callback_def callback_cells_def clearCallbacks_def)
next
  case (array cells)
  with assms(2) array_not_direct[of "[d]" self cells] show ?thesis by simp
qed simp

lemma filter_map_Some: "filter (\<lambda>x. x \<noteq> Some c) (map Some cs) = map Some (filter (\<lambda>y. y \<noteq> c) cs)"
  by (induction cs) auto

lemma removeCallbacks_array:
  assumes rep: "callbacks_rep self cs" and nd: "\<not> isDirectCallbacks self"
  shows "\<exists>s'. removeCallbacks self c = Some s' \<and> callbacks_rep s' (remove1 c cs)"
  using rep
proof (cases rule: callbacks_rep_cases)
  case empty
  then show ?thesis using rep by (simp add: removeCallbacks_def)
next
  case (direct d)
  with nd show ?thesis by (simp add: isDirectCallbacks_def)
next
  case (array cells)
  have d: "distinct cs" using rep by (simp add: callbacks_rep_def)
  then have r1: "remove1 c cs = filter (\<lambda>y. y \<noteq> c) cs" by (rule remove1_eq_filter)
  have cc: "callback_cells self = Some (map Some cs)" using array by (simp add: callback_cells_def)
  show ?thesis
  proof (cases "cs = [c]")
    case True
    then show ?thesis using array nd cc by (simp add: removeCallbacks_def callbacks_rep_def)
  next
    case False
    then have "\<not> (callbacks_count self = 1 \<and> map Some cs ! 0 = Some c)"
      using array(1,4) False by (cases cs) auto
    then have "removeCallbacks self c = Some (self\<lparr>callbacks := CbArray (remove_cells c (map Some cs)
        @ drop (length cs) cells), callbacks_count := length (filter (\<lambda>y. y \<noteq> c) cs)\<rparr>)"
      using array(2-4) array(1) nd cc
      by (simp only: removeCallbacks_def Let_def option.case callbacks_ptr.case simp_thms if_False
        if_True filter_map_Some length_map length_0_conv)
    then show ?thesis using array r1 d length_filter_le[of "\<lambda>y. y \<noteq> c" cs]
      by (auto simp: callbacks_rep_def remove_cells_def Let_def filter_map_Some simp del: length_filter_le)
  qed
qed

lemma removeAllCallbacks_rep: "callbacks_rep (removeAllCallbacks self) []"
  by (simp add: removeAllCallbacks_def)

subsection \<open>Facts about resources\<close>

lemma ReleaseResource_clears:
  assumes "ReleaseResource self = Some (s', cmds)"
  shows "res s' = None \<and> cmds = (case res self of None \<Rightarrow> [] | Some r \<Rightarrow>
    (if res_type r = Particle then [CmdDestroyInstance (res_id r) (the (ps self))] else [])
      @ [CmdRelease r])"
  using assms by (auto simp: ReleaseResource_def split: option.splits if_splits)

lemma ReleaseResource_frame:
  assumes "ReleaseResource self = Some (s', cmds)"
  shows "obj_id s' = obj_id self" "unique_id s' = unique_id self" "layer s' = layer self"
    "group s' = group self" "status s' = status self" "callbacks s' = callbacks self"
    "callbacks_count s' = callbacks_count self" "callbacks_capacity s' = callbacks_capacity self"
  using assms by (auto simp: ReleaseResource_def split: option.splits if_splits)

text \<open>A particle resource comes with a particle pool.\<close>

definition resource_inv :: "game_object \<Rightarrow> bool" where
  "resource_inv self \<longleftrightarrow> (\<forall>r. res self = Some r \<and> res_type r = Particle \<longrightarrow> ps self \<noteq> None)"

lemma ReleaseResource_total: "resource_inv self \<Longrightarrow> \<exists>s' cmds. ReleaseResource self = Some (s', cmds)"
  by (auto simp: ReleaseResource_def resource_inv_def split: option.splits)

lemma resource_inv_None [simp]: "res self = None \<Longrightarrow> resource_inv self"
  by (simp add: resource_inv_def)

lemma UpdateCollisionCircleRadius_keeps [simp]:
  "res (UpdateCollisionCircleRadius F self) = res self"
  "ps (UpdateCollisionCircleRadius F self) = ps self"
  by (simp_all add: UpdateCollisionCircleRadius_def)

lemma ChangeResource_inv:
  assumes "res self = None" "ChangeResource F R name self = (ok, s', cmds, pcmds)"
  shows "resource_inv s' \<and> (ok \<longleftrightarrow> res s' \<noteq> None)
    \<and> cmds = (case res s' of None \<Rightarrow> [] | Some r \<Rightarrow> [CmdRetain r])"
  using assms
  by (auto simp: ChangeResource_def attach_resource_def resource_inv_def split: option.splits)

lemma update_particles_total: "resource_inv self \<Longrightarrow> \<exists>cmds. update_particles actived self = Some cmds"
  by (auto simp: update_particles_def resource_inv_def split: option.splits)

subsection \<open>Facts about motion\<close>

lemma update_motion_keeps [simp]:
  "res (update_motion F self) = res self" "ps (update_motion F self) = ps self"
  "status (update_motion F self) = status self" "obj_id (update_motion F self) = obj_id self"
  "unique_id (update_motion F self) = unique_id self" "layer (update_motion F self) = layer self"
  "group (update_motion F self) = group self" "last_x (update_motion F self) = last_x self"
  "last_y (update_motion F self) = last_y self" "features (update_motion F self) = features self"
  "max_vx (update_motion F self) = max_vx self" "max_vy (update_motion F self) = max_vy self"
  "navi (update_motion F self) = navi self"
  "last_xy_touched (update_motion F self) = last_xy_touched self"
  by (simp_all add: update_motion_def set_motion_limit_def Let_def)

lemma update_motion_clamped:
  "\<exists>wx wy. vx (update_motion F self) = double_clamp wx (double_neg (max_vx self)) (max_vx self)
    \<and> vy (update_motion F self) = double_clamp wy (double_neg (max_vy self)) (max_vy self)"
  by (simp add: update_motion_def set_motion_limit_def Let_def) blast

lemma clamp_result_range:
  assumes "\<not> is_nan (double_clamp w (double_neg m) m)" "double_le 0 m"
  shows "double_le (double_neg m) (double_clamp w (double_neg m) m)
    \<and> double_le (double_clamp w (double_neg m) m) m"
proof -
  have "double_le (double_neg m) m" using assms(2) by (simp add: double_le_def double_key_neg)
  moreover have "\<not> is_nan w" using assms(1) double_clamp_nan by fastforce
  ultimately show ?thesis by (rule double_clamp_range[rotated])
qed

lemma update_motion_position:
  "pos_x (update_motion F self) = fadd F (pos_x self) (vx (update_motion F self))"
  "pos_y (update_motion F self) = fadd F (pos_y self) (vy (update_motion F self))"
  by (simp_all add: update_motion_def set_motion_limit_def Let_def)

lemma record_last_keeps [simp]:
  "res (record_last F self) = res self" "ps (record_last F self) = ps self"
  "status (record_last F self) = status self" "obj_id (record_last F self) = obj_id self"
  "unique_id (record_last F self) = unique_id self" "layer (record_last F self) = layer self"
  "group (record_last F self) = group self" "pos_x (record_last F self) = pos_x self"
  "pos_y (record_last F self) = pos_y self" "last_x (record_last F self) = pos_x self"
  "last_y (record_last F self) = pos_y self" "last_xy_touched (record_last F self)"
  by (simp_all add: record_last_def Let_def)

lemma record_last_delta:
  "dx (record_last F self) = (if last_xy_touched self then fsub F (pos_x self) (last_x self) else 0)"
  "dy (record_last F self) = (if last_xy_touched self then fsub F (pos_y self) (last_y self) else 0)"
  by (simp_all add: record_last_def Let_def)

subsection \<open>Facts about intersection\<close>

lemma AABB_sym: "isAxisAlignedBoundingBoxNotIntersect F p q = isAxisAlignedBoundingBoxNotIntersect F q p"
  by (auto simp: isAxisAlignedBoundingBoxNotIntersect_def)

lemma isIntersect_sym:
  assumes "\<And>a b. check a b = check b a"
  shows "isIntersect F check p q = isIntersect F check q p"
  unfolding isIntersect_def AABB_sym[of F p q] using assms by (auto simp: assms)

end
