(* ===== verification/RenderOrder.thy ===== *)
theory RenderOrder
  imports GameObject
begin

text \<open>
  The render list of \<open>GameObjectPool.h\<close>: \<open>std::set<GameObject*, GameObjectLayerComparer>\<close>.
  A \<open>std::set\<close> is the sequence of its elements in iteration order.  The model of insertion
  and erasure is that of a strict weak order, which the comparer is when no layer is NaN.
\<close>

subsection \<open>The comparer\<close>

definition GameObjectLayerComparer :: "game_object \<Rightarrow> game_object \<Rightarrow> bool" where
  "GameObjectLayerComparer left right =
     (if \<not> double_eq (layer left) (layer right) then double_lt (layer left) (layer right)
      else unique_id left < unique_id right)"

subsection \<open>Ordered sets of objects\<close>

text \<open>
  \<open>insert\<close> keeps an element that is already there in the sense of the order; \<open>erase\<close> by
  key removes what is equivalent to the key.
\<close>

fun set_insert :: "(nat \<Rightarrow> nat \<Rightarrow> bool) \<Rightarrow> nat \<Rightarrow> nat list \<Rightarrow> nat list" where
  "set_insert lt x [] = [x]"
| "set_insert lt x (y # ys) =
     (if lt y x then y # set_insert lt x ys else if lt x y then x # y # ys else y # ys)"

definition set_erase :: "(nat \<Rightarrow> nat \<Rightarrow> bool) \<Rightarrow> nat \<Rightarrow> nat list \<Rightarrow> nat list" where
  "set_erase lt x xs = filter (\<lambda>y. lt x y \<or> lt y x) xs"

definition layer_lt :: "(nat \<Rightarrow> game_object) \<Rightarrow> nat \<Rightarrow> nat \<Rightarrow> bool" where
  "layer_lt objs x y \<longleftrightarrow> GameObjectLayerComparer (objs x) (objs y)"

text \<open>
  The contract of a comparer: a strict order that separates objects with different keys.
\<close>

locale object_order =
  fixes cmp :: "'o \<Rightarrow> 'o \<Rightarrow> bool" and valid :: "'o \<Rightarrow> bool" and key :: "'o \<Rightarrow> 'k"
  assumes cmp_irrefl: "\<not> cmp a a"
    and cmp_trans: "cmp a b \<Longrightarrow> cmp b c \<Longrightarrow> cmp a c"
    and cmp_total: "valid a \<Longrightarrow> valid b \<Longrightarrow> key a \<noteq> key b \<Longrightarrow> cmp a b \<or> cmp b a"
begin

lemma cmp_asym: "cmp a b \<Longrightarrow> \<not> cmp b a"
  using cmp_irrefl cmp_trans by blast

lemma insert_set:
  assumes "valid (f x)" "\<forall>y\<in>set ys. valid (f y) \<and> key (f y) \<noteq> key (f x)"
  shows "set (set_insert (\<lambda>a b. cmp (f a) (f b)) x ys) = insert x (set ys)"
  using assms(2)
proof (induction ys)
  case (Cons y ys)
  then show ?case using assms(1) cmp_total[of "f x" "f y"] by auto
qed simp

lemma insert_sorted:
  assumes "valid (f x)" "\<forall>y\<in>set ys. valid (f y) \<and> key (f y) \<noteq> key (f x)"
    "sorted_wrt (\<lambda>a b. cmp (f a) (f b)) ys"
  shows "sorted_wrt (\<lambda>a b. cmp (f a) (f b)) (set_insert (\<lambda>a b. cmp (f a) (f b)) x ys)"
  using assms(2,3)
proof (induction ys)
  case (Cons y ys)
  have "set (set_insert (\<lambda>a b. cmp (f a) (f b)) x ys) = insert x (set ys)"
    using Cons.prems(1) assms(1) by (intro insert_set) auto
  with Cons assms(1) show ?case using cmp_total[of "f x" "f y"] by (auto dest: cmp_trans)
qed simp

lemma erase_member:
  assumes "sorted_wrt (\<lambda>a b. cmp (f a) (f b)) ys" "x \<in> set ys"
  shows "set_erase (\<lambda>a b. cmp (f a) (f b)) x ys = remove1 x ys"
proof -
  from assms(2) obtain as bs where ys: "ys = as @ x # bs" by (meson split_list)
  have "\<forall>y\<in>set as. cmp (f y) (f x)" "\<forall>y\<in>set bs. cmp (f x) (f y)"
    using assms(1) ys by (auto simp: sorted_wrt_append)
  moreover from this have "x \<notin> set as" using cmp_irrefl by auto
  ultimately show ?thesis
    using ys cmp_irrefl by (auto simp: set_erase_def remove1_append intro!: filter_True)
qed

lemma sorted_distinct: "sorted_wrt (\<lambda>a b. cmp (f a) (f b)) ys \<Longrightarrow> distinct ys"
  by (induction ys) (use cmp_irrefl in auto)

lemma sorted_remove1:
  "sorted_wrt (\<lambda>a b. cmp (f a) (f b)) ys \<Longrightarrow> sorted_wrt (\<lambda>a b. cmp (f a) (f b)) (remove1 x ys)"
  by (induction ys) (auto dest: notin_set_remove1[rotated] simp: notin_set_remove1)

text \<open>Taking an object out, changing its key and putting it back keeps the set sorted.\<close>

lemma rekey:
  assumes "sorted_wrt (\<lambda>a b. cmp (f a) (f b)) ys" "x \<in> set ys"
    and "\<forall>y\<in>set ys. y \<noteq> x \<longrightarrow> g y = f y"
    and "valid (g x)" "\<forall>y\<in>set ys. y \<noteq> x \<longrightarrow> valid (g y) \<and> key (g y) \<noteq> key (g x)"
  shows "sorted_wrt (\<lambda>a b. cmp (g a) (g b)) (set_insert (\<lambda>a b. cmp (g a) (g b)) x
      (set_erase (\<lambda>a b. cmp (f a) (f b)) x ys))
    \<and> set (set_insert (\<lambda>a b. cmp (g a) (g b)) x (set_erase (\<lambda>a b. cmp (f a) (f b)) x ys)) = set ys"
proof -
  have d: "distinct ys" by (rule sorted_distinct[OF assms(1)])
  let ?r = "remove1 x ys"
  have set_r: "set ?r = set ys - {x}" using d by simp
  have "sorted_wrt (\<lambda>a b. cmp (f a) (f b)) ?r" by (rule sorted_remove1[OF assms(1)])
  then have s: "sorted_wrt (\<lambda>a b. cmp (g a) (g b)) ?r"
    by (rule sorted_wrt_mono_rel[rotated]) (use set_r assms(3) in auto)
  have fresh: "\<forall>y\<in>set ?r. valid (g y) \<and> key (g y) \<noteq> key (g x)" using set_r assms(5) by auto
  show ?thesis
    unfolding erase_member[OF assms(1,2)]
    using insert_sorted[OF assms(4) fresh s] insert_set[OF assms(4) fresh] set_r assms(2) by auto
qed

end

lemma GameObjectLayerComparer_cases:
  "GameObjectLayerComparer a b \<longleftrightarrow>
     double_lt (layer a) (layer b) \<or> double_eq (layer a) (layer b) \<and> unique_id a < unique_id b"
  by (auto simp: GameObjectLayerComparer_def double_defs)

interpretation layers: object_order GameObjectLayerComparer "\<lambda>g. \<not> is_nan (layer g)" unique_id
proof
  show "\<not> GameObjectLayerComparer a a" for a
    by (simp add: GameObjectLayerComparer_def)
  show "GameObjectLayerComparer a b \<Longrightarrow> GameObjectLayerComparer b c \<Longrightarrow> GameObjectLayerComparer a c"
    for a b c
    by (auto simp: GameObjectLayerComparer_cases double_defs)
  show "\<not> is_nan (layer a) \<Longrightarrow> \<not> is_nan (layer b) \<Longrightarrow> unique_id a \<noteq> unique_id b \<Longrightarrow>
      GameObjectLayerComparer a b \<or> GameObjectLayerComparer b a" for a b
    by (auto simp: GameObjectLayerComparer_cases double_defs)
qed

text \<open>
  An object whose layer is NaN is equivalent to every object: it cannot enter a set that
  is not empty.
\<close>

lemma nan_layer_not_inserted:
  assumes "is_nan (layer (objs x))" "ys \<noteq> []"
  shows "set_insert (layer_lt objs) x ys = ys"
  using assms by (cases ys) (auto simp: layer_lt_def GameObjectLayerComparer_def double_defs)

end
