(* ===== verification/GameObjectPool.thy ===== *)
theory GameObjectPool
  imports Collections ObjectList RenderOrder
begin

text \<open>
  The object manager: \<open>GameObjectPool\<close> of \<open>LuaSTG/LuaSTG/GameObject/GameObjectPool.h\<close> and
  \<open>.cpp\<close>.  The pool owns the slots, threads two intrusive lists through them (updates,
  and one list per collision group) and keeps the objects ordered for rendering.  Scripts
  run inside its loops and call back into it.  This theory holds the state and the
  operations; their correctness is in \<open>PoolInvariant\<close> and the theories after it.
\<close>

subsection \<open>State\<close>

record frame_statistics =
  object_alloc :: u64
  object_free :: u64
  object_alive :: u64
  object_colli_check :: u64
  object_colli_callback :: u64

definition statistics_zero :: frame_statistics where
  "statistics_zero = \<lparr>object_alloc = 0, object_free = 0, object_alive = 0,
     object_colli_check = 0, object_colli_callback = 0\<rparr>"

text \<open>
  \<open>objects\<close> is the storage of \<open>m_ObjectPool\<close>; the four link fields of the objects are
  \<open>update_links\<close> and \<open>detect_links\<close>.  \<open>external\<close> is everything the engine calls out to
  (script state, renderer, resources).
\<close>

record 'u game_pool =
  m_ObjectPool :: object_pool
  objects :: "nat \<Rightarrow> game_object"
  update_links :: links
  detect_links :: links
  m_iUid :: u64
  m_update_list :: object_list
  m_render_list :: "nat list"
  m_detect_lists :: "object_list list"
  m_callbacks :: "nat list"
  m_LockObjectA :: "nat option"
  m_LockObjectB :: "nat option"
  m_BoundLeft :: double
  m_BoundRight :: double
  m_BoundTop :: double
  m_BoundBottom :: double
  m_is_rendering :: bool
  m_is_detecting_intersect :: bool
  m_statistics :: "frame_statistics list"
  m_statistics_index :: nat
  m_superpause :: "64 word"
  m_nextsuperpause :: "64 word"
  external :: 'u

definition LOBJPOOL_SIZE :: nat where "LOBJPOOL_SIZE = 32768"
definition LOBJPOOL_GROUPN :: nat where "LOBJPOOL_GROUPN = 16"
definition max_unique_id :: u64 where "max_unique_id = 0xffffffffffff"

datatype batch_event = BatchDestroy | BatchUpdate | BatchRender | BatchOutOfWorldBoundCheck
  | BatchIntersectDetect

text \<open>
  What the manager calls.  The object callbacks are scripts: they get the whole state.  The
  manager callbacks (their one implementation, in \<open>LuaBinding/modern/GameObject.cpp\<close>,
  keeps the script's object table) see the object and the external state.  The first
  argument of each is the callback object.
\<close>

record 'u environment =
  float :: float_ops
  collide :: "collider \<Rightarrow> collider \<Rightarrow> bool"
  gscale :: u32
  particle_actived :: "'u \<Rightarrow> nat \<Rightarrow> bool"
  run_particles :: "particle_cmd list \<Rightarrow> 'u \<Rightarrow> 'u"
  run_resources :: "resource_cmd list \<Rightarrow> 'u \<Rightarrow> 'u"
  run_draws :: "draw_cmd list \<Rightarrow> 'u \<Rightarrow> 'u"
  onCreate :: "nat \<Rightarrow> nat \<Rightarrow> game_object \<Rightarrow> 'u \<Rightarrow> 'u option"
  onDestroy :: "nat \<Rightarrow> nat \<Rightarrow> game_object \<Rightarrow> 'u \<Rightarrow> 'u option"
  onBeforeBatch :: "batch_event \<Rightarrow> nat \<Rightarrow> 'u \<Rightarrow> 'u option"
  onAfterBatch :: "batch_event \<Rightarrow> nat \<Rightarrow> 'u \<Rightarrow> 'u option"
  onQueueToDestroy :: "string \<Rightarrow> nat \<Rightarrow> nat \<Rightarrow> 'u game_pool \<Rightarrow> 'u game_pool option"
  onUpdate :: "nat \<Rightarrow> nat \<Rightarrow> 'u game_pool \<Rightarrow> 'u game_pool option"
  onRender :: "nat \<Rightarrow> nat \<Rightarrow> 'u game_pool \<Rightarrow> 'u game_pool option"
  onTrigger :: "nat \<Rightarrow> nat \<Rightarrow> nat \<Rightarrow> 'u game_pool \<Rightarrow> 'u game_pool option"

definition set_object :: "nat \<Rightarrow> game_object \<Rightarrow> 'u game_pool \<Rightarrow> 'u game_pool" where
  "set_object x g st = st\<lparr>objects := (objects st)(x := g)\<rparr>"

definition mod_statistics ::
  "(frame_statistics \<Rightarrow> frame_statistics) \<Rightarrow> 'u game_pool \<Rightarrow> 'u game_pool" where
  "mod_statistics f st = st\<lparr>m_statistics :=
     (m_statistics st)[m_statistics_index st := f (m_statistics st ! m_statistics_index st)]\<rparr>"

subsection \<open>Manager callbacks\<close>

definition manager_addCallbacks :: "nat \<Rightarrow> 'u game_pool \<Rightarrow> 'u game_pool" where
  "manager_addCallbacks c st =
     (if c \<in> set (m_callbacks st) then st else st\<lparr>m_callbacks := m_callbacks st @ [c]\<rparr>)"

definition manager_removeCallbacks :: "nat \<Rightarrow> 'u game_pool \<Rightarrow> 'u game_pool" where
  "manager_removeCallbacks c st = st\<lparr>m_callbacks := filter (\<lambda>d. d \<noteq> c) (m_callbacks st)\<rparr>"

definition dispatch_manager ::
  "(nat \<Rightarrow> 'u \<Rightarrow> 'u option) \<Rightarrow> 'u game_pool \<Rightarrow> 'u game_pool option" where
  "dispatch_manager f st =
     map_option (\<lambda>u. st\<lparr>external := u\<rparr>) (fold_option f (m_callbacks st) (external st))"

definition dispatchOnCreate :: "'u environment \<Rightarrow> nat \<Rightarrow> 'u game_pool \<Rightarrow> 'u game_pool option" where
  "dispatchOnCreate E x st = dispatch_manager (\<lambda>c. onCreate E c x (objects st x)) st"

definition dispatchOnDestroy :: "'u environment \<Rightarrow> nat \<Rightarrow> 'u game_pool \<Rightarrow> 'u game_pool option" where
  "dispatchOnDestroy E x st = dispatch_manager (\<lambda>c. onDestroy E c x (objects st x)) st"

definition dispatchOnBeforeBatch ::
  "'u environment \<Rightarrow> batch_event \<Rightarrow> 'u game_pool \<Rightarrow> 'u game_pool option" where
  "dispatchOnBeforeBatch E b st = dispatch_manager (onBeforeBatch E b) st"

definition dispatchOnAfterBatch ::
  "'u environment \<Rightarrow> batch_event \<Rightarrow> 'u game_pool \<Rightarrow> 'u game_pool option" where
  "dispatchOnAfterBatch E b st = dispatch_manager (onAfterBatch E b) st"

subsection \<open>Object callbacks\<close>

text \<open>
  \<open>FOR_EACH_CALLBACKS\<close> against the live state: the array and its count are read again on
  every turn.
\<close>

definition callback_at :: "game_object \<Rightarrow> nat \<Rightarrow> nat option" where
  "callback_at g i = (case callbacks g of
     CbArray cells \<Rightarrow> if i < length cells then cells ! i else None | _ \<Rightarrow> None)"

definition dispatch_object ::
  "(nat \<Rightarrow> 'u game_pool \<Rightarrow> 'u game_pool option) \<Rightarrow> nat \<Rightarrow> 'u game_pool \<Rightarrow> 'u game_pool option" where
  "dispatch_object call x st =
     (if isDirectCallbacks (objects st x) then
        (case direct_callback (objects st x) of None \<Rightarrow> None | Some c \<Rightarrow> call c st)
      else walk (\<lambda>i s. case callback_at (objects s x) i of
                   None \<Rightarrow> None
                 | Some c \<Rightarrow> map_option (\<lambda>s'.
                     (if Suc i < callbacks_count (objects s' x) then Some (Suc i) else None, s')) (call c s))
             (if 0 < callbacks_count (objects st x) then Some 0 else None) st)"

definition dispatchOnQueueToDestroy ::
  "'u environment \<Rightarrow> string \<Rightarrow> nat \<Rightarrow> 'u game_pool \<Rightarrow> 'u game_pool option" where
  "dispatchOnQueueToDestroy E reason x = dispatch_object (\<lambda>c. onQueueToDestroy E reason c x) x"

definition dispatchOnUpdate :: "'u environment \<Rightarrow> nat \<Rightarrow> 'u game_pool \<Rightarrow> 'u game_pool option" where
  "dispatchOnUpdate E x = dispatch_object (\<lambda>c. onUpdate E c x) x"

definition dispatchOnRender :: "'u environment \<Rightarrow> nat \<Rightarrow> 'u game_pool \<Rightarrow> 'u game_pool option" where
  "dispatchOnRender E x = dispatch_object (\<lambda>c. onRender E c x) x"

definition dispatchOnTrigger ::
  "'u environment \<Rightarrow> nat \<Rightarrow> nat \<Rightarrow> 'u game_pool \<Rightarrow> 'u game_pool option" where
  "dispatchOnTrigger E x y = dispatch_object (\<lambda>c. onTrigger E c x y) x"

subsection \<open>The three lists\<close>

definition update_list_add :: "nat \<Rightarrow> 'u game_pool \<Rightarrow> 'u game_pool option" where
  "update_list_add x st =
     map_option (\<lambda>(L, l). st\<lparr>update_links := L, m_update_list := l\<rparr>)
       (list_add (update_links st) (m_update_list st) x)"

definition update_list_remove :: "nat \<Rightarrow> 'u game_pool \<Rightarrow> (nat option \<times> 'u game_pool) option" where
  "update_list_remove x st =
     map_option (\<lambda>(n, L, l). (n, st\<lparr>update_links := L, m_update_list := l\<rparr>))
       (list_remove (update_links st) (m_update_list st) x)"

text \<open>\<open>m_detect_lists[object->group]\<close>: an index outside the array is undefined.\<close>

definition detect_list_add :: "nat \<Rightarrow> 'u game_pool \<Rightarrow> 'u game_pool option" where
  "detect_list_add x st =
     (let g = unat (group (objects st x))
      in if g < length (m_detect_lists st) then
           map_option (\<lambda>(L, l). st\<lparr>detect_links := L, m_detect_lists := (m_detect_lists st)[g := l]\<rparr>)
             (list_add (detect_links st) (m_detect_lists st ! g) x)
         else None)"

definition detect_list_remove :: "nat \<Rightarrow> 'u game_pool \<Rightarrow> 'u game_pool option" where
  "detect_list_remove x st =
     (let g = unat (group (objects st x))
      in if g < length (m_detect_lists st) then
           map_option (\<lambda>(n, L, l). st\<lparr>detect_links := L, m_detect_lists := (m_detect_lists st)[g := l]\<rparr>)
             (list_remove (detect_links st) (m_detect_lists st ! g) x)
         else None)"

definition render_list_insert :: "nat \<Rightarrow> 'u game_pool \<Rightarrow> 'u game_pool" where
  "render_list_insert x st =
     st\<lparr>m_render_list := set_insert (layer_lt (objects st)) x (m_render_list st)\<rparr>"

definition render_list_erase :: "nat \<Rightarrow> 'u game_pool \<Rightarrow> 'u game_pool" where
  "render_list_erase x st =
     st\<lparr>m_render_list := set_erase (layer_lt (objects st)) x (m_render_list st)\<rparr>"

subsection \<open>Allocation and release\<close>

text \<open>
  The fields that \<open>Reset\<close> and the caller give a new object; \<open>id\<close> has 16 bits and
  \<open>unique_id\<close> 48.
\<close>

definition reset_slot :: "nat \<Rightarrow> 'u game_pool \<Rightarrow> 'u game_pool" where
  "reset_slot i st =
     st\<lparr>objects := (objects st)(i := (game_object_Reset (objects st i))
          \<lparr>status := Active, obj_id := i mod 65536, unique_id := m_iUid st mod max_unique_id\<rparr>),
        update_links := setNext (setPrevious (update_links st) i None) i None,
        detect_links := setNext (setPrevious (detect_links st) i None) i None,
        m_iUid := m_iUid st + 1\<rparr>"

definition allocateWithCallbacks ::
  "'u environment \<Rightarrow> nat option \<Rightarrow> 'u game_pool \<Rightarrow> (nat option \<times> 'u game_pool) option" where
  "allocateWithCallbacks E cb st =
     (case pool_alloc (m_ObjectPool st) of
        (None, _) \<Rightarrow> Some (None, st)
      | (Some i, P) \<Rightarrow>
          Option.bind (update_list_add i (reset_slot i (st\<lparr>m_ObjectPool := P\<rparr>))) (\<lambda>st1.
          Option.bind (detect_list_add i (render_list_insert i st1)) (\<lambda>st2.
          let st3 = mod_statistics (\<lambda>d. d\<lparr>object_alloc := object_alloc d + 1\<rparr>) st2
          in Option.bind (case cb of None \<Rightarrow> Some st3
                | Some c \<Rightarrow> map_option (\<lambda>g. set_object i g st3) (addCallbacks (objects st3 i) c)) (\<lambda>st4.
          map_option (\<lambda>st5. (Some i, st5)) (dispatchOnCreate E i st4)))))"

definition release_object_resource ::
  "'u environment \<Rightarrow> nat \<Rightarrow> 'u game_pool \<Rightarrow> 'u game_pool option" where
  "release_object_resource E x st =
     map_option (\<lambda>(g, cmds). (set_object x g st)\<lparr>external := run_resources E cmds (external st)\<rparr>)
       (ReleaseResource (objects st x))"

definition freeWithCallbacks ::
  "'u environment \<Rightarrow> nat \<Rightarrow> 'u game_pool \<Rightarrow> (nat option \<times> 'u game_pool) option" where
  "freeWithCallbacks E x st =
     Option.bind (dispatchOnDestroy E x st) (\<lambda>st1.
     Option.bind (release_object_resource E x (set_object x (removeAllCallbacks (objects st1 x)) st1)) (\<lambda>st2.
     let st3 = mod_statistics (\<lambda>d. d\<lparr>object_free := object_free d + 1\<rparr>) st2
     in Option.bind (update_list_remove x st3) (\<lambda>(nxt, st4).
     Option.bind (detect_list_remove x (render_list_erase x st4)) (\<lambda>st5.
     let st6 = set_object x ((objects st5 x)\<lparr>status := Free\<rparr>) st5
     in Some (nxt, st6\<lparr>m_ObjectPool := pool_free (m_ObjectPool st6) (obj_id (objects st6 x))\<rparr>)))))"

definition queueToFree :: "nat \<Rightarrow> bool \<Rightarrow> 'u game_pool \<Rightarrow> bool \<times> 'u game_pool" where
  "queueToFree x legacy_kill_mode st =
     (let g = objects st x
      in if status g \<noteq> Active then (False, st)
         else
           (\<not> legacy_kill_mode \<and> has_callback_destroy (features g)
              \<or> legacy_kill_mode \<and> has_callback_legacy_kill (features g),
            set_object x (g\<lparr>status := (if legacy_kill_mode then Killed else Dead)\<rparr>) st))"

subsection \<open>Changing an object's place\<close>

definition isLockedByDetectIntersection :: "nat \<Rightarrow> 'u game_pool \<Rightarrow> bool" where
  "isLockedByDetectIntersection x st \<longleftrightarrow> m_LockObjectA st = Some x \<or> m_LockObjectB st = Some x"

text \<open>The new group goes through \<open>int32_t\<close>, as the source writes it.\<close>

definition pool_setGroup :: "nat \<Rightarrow> u64 \<Rightarrow> 'u game_pool \<Rightarrow> 'u game_pool option" where
  "pool_setGroup x g st = assert_that (\<not> isLockedByDetectIntersection x st)
     (Option.bind (detect_list_remove x st) (\<lambda>st1.
        detect_list_add x
          (set_object x ((objects st1 x)\<lparr>group := scast (ucast g :: 32 word)\<rparr>) st1)))"

definition pool_setLayer :: "nat \<Rightarrow> double \<Rightarrow> 'u game_pool \<Rightarrow> 'u game_pool option" where
  "pool_setLayer x new_layer st = assert_that (\<not> m_is_rendering st)
     (let st1 = render_list_erase x st;
          st2 = set_object x ((objects st1 x)\<lparr>layer := new_layer\<rparr>) st1
      in Some (render_list_insert x st2))"

definition DirtResetObject :: "nat \<Rightarrow> 'u game_pool \<Rightarrow> 'u game_pool option" where
  "DirtResetObject x st =
     Option.bind (update_list_remove x st) (\<lambda>(nxt, st1).
     let st2 = render_list_erase x st1
     in assert_that (\<not> isLockedByDetectIntersection x st2)
       (Option.bind (detect_list_remove x st2) (\<lambda>st3.
        let st4 = (set_object x ((objects st3 x)\<lparr>unique_id := m_iUid st3 mod max_unique_id\<rparr>) st3)
                    \<lparr>m_iUid := m_iUid st3 + 1\<rparr>
        in Option.bind (update_list_add x st4) (\<lambda>st5.
           detect_list_add x (render_list_insert x st5)))))"

subsection \<open>Frames\<close>

definition UpdateSuperPause :: "'u game_pool \<Rightarrow> 64 word \<times> 'u game_pool" where
  "UpdateSuperPause st =
     (let st1 = st\<lparr>m_superpause := m_nextsuperpause st\<rparr>;
          st2 = (if 0 <s m_nextsuperpause st1
                 then st1\<lparr>m_nextsuperpause := m_nextsuperpause st1 - 1\<rparr> else st1)
      in (m_superpause st2, st2))"

text \<open>\<open>super_pause_time > 0 && !p->ignore_super_pause\<close>\<close>

definition paused :: "64 word \<Rightarrow> game_object \<Rightarrow> bool" where
  "paused super_pause_time g \<longleftrightarrow> 0 <s super_pause_time \<and> \<not> ignore_super_pause g"

definition update_next :: "'u game_pool \<Rightarrow> nat \<Rightarrow> nat option" where
  "update_next st x = link_next (update_links st) x"

definition apply_update ::
  "'u environment \<Rightarrow> (float_ops \<Rightarrow> (nat \<Rightarrow> bool) \<Rightarrow> game_object \<Rightarrow> (game_object \<times> particle_cmd list) option)
    \<Rightarrow> nat \<Rightarrow> 'u game_pool \<Rightarrow> 'u game_pool option" where
  "apply_update E upd x st =
     map_option (\<lambda>(g, cmds). (set_object x g st)\<lparr>external := run_particles E cmds (external st)\<rparr>)
       (upd (float E) (particle_actived E (external st)) (objects st x))"

text \<open>\<open>for (p = first; p != nullptr; p = p->update_list_next)\<close>\<close>

definition for_each_object ::
  "(nat \<Rightarrow> 'u game_pool \<Rightarrow> 'u game_pool option) \<Rightarrow> 'u game_pool \<Rightarrow> 'u game_pool option" where
  "for_each_object body st =
     walk (\<lambda>x s. map_option (\<lambda>s'. (update_next s' x, s')) (body x s)) (m_first (m_update_list st)) st"

definition call_update :: "'u environment \<Rightarrow> nat \<Rightarrow> 'u game_pool \<Rightarrow> 'u game_pool option" where
  "call_update E x st =
     (if has_callback_update (features (objects st x)) then dispatchOnUpdate E x st else Some st)"

definition updateMovementsLegacy :: "'u environment \<Rightarrow> 'u game_pool \<Rightarrow> 'u game_pool option" where
  "updateMovementsLegacy E st0 =
     Option.bind (dispatchOnBeforeBatch E BatchUpdate st0) (\<lambda>st1.
     let (super_pause_time, st2) = UpdateSuperPause st1
     in Option.bind (for_each_object (\<lambda>x st.
          if paused super_pause_time (objects st x) then Some st
          else Option.bind (call_update E x st) (apply_update E game_object_Update x)) st2)
        (dispatchOnAfterBatch E BatchUpdate))"

definition updateMovements :: "'u environment \<Rightarrow> 'u game_pool \<Rightarrow> 'u game_pool option" where
  "updateMovements E st0 =
     Option.bind (dispatchOnBeforeBatch E BatchUpdate st0) (\<lambda>st1.
     let super_pause_time = m_superpause st1
     in Option.bind (for_each_object (\<lambda>x st.
          if paused super_pause_time (objects st x) then Some st else call_update E x st) st1) (\<lambda>st2.
     Option.bind (dispatchOnAfterBatch E BatchUpdate st2)
       (for_each_object (\<lambda>x st.
          if paused super_pause_time (objects st x) then Some st
          else apply_update E game_object_UpdateV2 x st))))"

definition UpdateXY :: "'u environment \<Rightarrow> 'u game_pool \<Rightarrow> 'u game_pool option" where
  "UpdateXY E st0 =
     for_each_object (\<lambda>x st.
       if paused (m_superpause st0) (objects st x) then Some st
       else Some (set_object x (game_object_UpdateLast (float E) (objects st x)) st)) st0"

text \<open>The loop of \<open>updateNextLegacy\<close> and \<open>updateNext\<close>: release or age every object.\<close>

definition next_frame_body ::
  "'u environment \<Rightarrow> 64 word \<Rightarrow> (game_object \<Rightarrow> game_object) \<Rightarrow> nat \<Rightarrow> 'u game_pool
    \<Rightarrow> (nat option \<times> 'u game_pool) option" where
  "next_frame_body E super_pause_time age x st =
     (if paused super_pause_time (objects st x) then Some (update_next st x, st)
      else if status (objects st x) \<noteq> Active then freeWithCallbacks E x st
      else (let st1 = set_object x (age (objects st x)) st in Some (update_next st1 x, st1)))"

definition updateNextLegacy :: "'u environment \<Rightarrow> 'u game_pool \<Rightarrow> 'u game_pool option" where
  "updateNextLegacy E st0 =
     Option.bind (dispatchOnBeforeBatch E BatchDestroy st0) (\<lambda>st1.
     Option.bind (walk (next_frame_body E (m_superpause st1) game_object_UpdateTimer)
         (m_first (m_update_list st1)) st1)
       (dispatchOnAfterBatch E BatchDestroy))"

definition updateNext :: "'u environment \<Rightarrow> 'u game_pool \<Rightarrow> 'u game_pool option" where
  "updateNext E st0 =
     Option.bind (dispatchOnBeforeBatch E BatchDestroy st0) (\<lambda>st1.
     let (super_pause_time, st2) = UpdateSuperPause st1
     in Option.bind (walk (next_frame_body E super_pause_time (game_object_UpdateLastV2 (float E)))
           (m_first (m_update_list st2)) st2)
         (dispatchOnAfterBatch E BatchDestroy))"

subsection \<open>Rendering\<close>

definition render_body :: "'u environment \<Rightarrow> nat \<Rightarrow> 'u game_pool \<Rightarrow> 'u game_pool option" where
  "render_body E x st =
     (if hide (objects st x) then Some st
      else if has_callback_render (features (objects st x)) then dispatchOnRender E x st
      else Some (st\<lparr>external :=
        run_draws E (game_object_Render (float E) (gscale E) (objects st x)) (external st)\<rparr>))"

text \<open>
  The range loop over the set: the iterator of the current object moves to its successor in
  the set as it is then.  An iterator whose object has left the set is invalid.
\<close>

definition render_next :: "'u game_pool \<Rightarrow> nat \<Rightarrow> nat option" where
  "render_next st x = head_of (tl (dropWhile (\<lambda>y. y \<noteq> x) (m_render_list st)))"

definition render_step ::
  "'u environment \<Rightarrow> nat \<Rightarrow> 'u game_pool \<Rightarrow> (nat option \<times> 'u game_pool) option" where
  "render_step E x st =
     Option.bind (render_body E x st) (\<lambda>st1.
       assert_that (x \<in> set (m_render_list st1)) (Some (render_next st1 x, st1)))"

definition pool_render :: "'u environment \<Rightarrow> 'u game_pool \<Rightarrow> 'u game_pool option" where
  "pool_render E st0 =
     Option.bind (dispatchOnBeforeBatch E BatchRender (st0\<lparr>m_is_rendering := True\<rparr>)) (\<lambda>st1.
     Option.bind (walk (render_step E) (head_of (m_render_list st1)) st1) (\<lambda>st2.
     map_option (\<lambda>st3. st3\<lparr>m_is_rendering := False\<rparr>) (dispatchOnAfterBatch E BatchRender st2)))"

subsection \<open>The world's border\<close>

definition SetBound :: "double \<Rightarrow> double \<Rightarrow> double \<Rightarrow> double \<Rightarrow> 'u game_pool \<Rightarrow> 'u game_pool option" where
  "SetBound l r b t st = assert_that (double_le l r \<and> double_le b t)
     (Some (st\<lparr>m_BoundLeft := l, m_BoundRight := r, m_BoundTop := t, m_BoundBottom := b\<rparr>))"

definition isPointInBound :: "double \<Rightarrow> double \<Rightarrow> 'u game_pool \<Rightarrow> bool" where
  "isPointInBound x y st \<longleftrightarrow> double_le (m_BoundLeft st) x \<and> double_le x (m_BoundRight st)
     \<and> double_le (m_BoundBottom st) y \<and> double_le y (m_BoundTop st)"

definition ObjectBoundCheck :: "'u game_pool \<Rightarrow> game_object \<Rightarrow> bool" where
  "ObjectBoundCheck st g =
     (if \<not> bound g then True
      else isInRect (m_BoundLeft st) (m_BoundRight st) (m_BoundBottom st) (m_BoundTop st) g)"

definition reason_out_of_world_bound :: string where
  "reason_out_of_world_bound = ''luastg:leave_world_border''"

definition bound_body_legacy :: "'u environment \<Rightarrow> nat \<Rightarrow> 'u game_pool \<Rightarrow> 'u game_pool option" where
  "bound_body_legacy E x st =
     (if ObjectBoundCheck st (objects st x) then Some st
      else (let st1 = set_object x ((objects st x)\<lparr>status := Dead\<rparr>) st
            in if has_callback_destroy (features (objects st1 x))
               then dispatchOnQueueToDestroy E reason_out_of_world_bound x st1 else Some st1))"

definition detectOutOfWorldBoundLegacy :: "'u environment \<Rightarrow> 'u game_pool \<Rightarrow> 'u game_pool option" where
  "detectOutOfWorldBoundLegacy E st0 =
     Option.bind (dispatchOnBeforeBatch E BatchOutOfWorldBoundCheck st0) (\<lambda>st1.
     Option.bind (for_each_object (bound_body_legacy E) st1)
       (dispatchOnAfterBatch E BatchOutOfWorldBoundCheck))"

text \<open>
  The batch version first marks and collects, then calls.  The loop's state is the pool
  and the cache of (unique id, object).
\<close>

definition bound_body ::
  "nat \<Rightarrow> (u64 \<times> nat) list \<times> 'u game_pool \<Rightarrow> (nat option \<times> (u64 \<times> nat) list \<times> 'u game_pool) option" where
  "bound_body x cs =
     (let (cache, st) = cs
      in if ObjectBoundCheck st (objects st x) then Some (update_next st x, cache, st)
         else (let st1 = set_object x ((objects st x)\<lparr>status := Dead\<rparr>) st
               in Some (update_next st1 x,
                    (if has_callback_destroy (features (objects st1 x))
                     then cache @ [(unique_id (objects st1 x), x)] else cache), st1)))"

definition bound_call ::
  "'u environment \<Rightarrow> u64 \<times> nat \<Rightarrow> 'u game_pool \<Rightarrow> 'u game_pool option" where
  "bound_call E r st =
     (let (uid, x) = r
      in assert_that (unique_id (objects st x) = uid)
           (dispatchOnQueueToDestroy E reason_out_of_world_bound x st))"

definition detectOutOfWorldBound :: "'u environment \<Rightarrow> 'u game_pool \<Rightarrow> 'u game_pool option" where
  "detectOutOfWorldBound E st0 =
     Option.bind (dispatchOnBeforeBatch E BatchOutOfWorldBoundCheck st0) (\<lambda>st1.
     Option.bind (walk bound_body (m_first (m_update_list st1)) ([], st1)) (\<lambda>(cache, st2).
     Option.bind (fold_option (bound_call E) cache st2)
       (dispatchOnAfterBatch E BatchOutOfWorldBoundCheck)))"

subsection \<open>Intersection\<close>

definition detect_next :: "'u game_pool \<Rightarrow> nat \<Rightarrow> nat option" where
  "detect_next st x = link_next (detect_links st) x"

definition detect_first :: "nat \<Rightarrow> 'u game_pool \<Rightarrow> nat option option" where
  "detect_first g st =
     (if g < length (m_detect_lists st) then Some (m_first (m_detect_lists st ! g)) else None)"

definition count_check :: "'u game_pool \<Rightarrow> 'u game_pool" where
  "count_check = mod_statistics (\<lambda>d. d\<lparr>object_colli_check := object_colli_check d + 1\<rparr>)"

definition count_callback :: "'u game_pool \<Rightarrow> 'u game_pool" where
  "count_callback = mod_statistics (\<lambda>d. d\<lparr>object_colli_callback := object_colli_callback d + 1\<rparr>)"

text \<open>Locking the pair, calling \<open>onTrigger\<close> and unlocking.\<close>

definition locked_trigger ::
  "'u environment \<Rightarrow> nat \<Rightarrow> nat \<Rightarrow> 'u game_pool \<Rightarrow> 'u game_pool option" where
  "locked_trigger E a b st =
     map_option (\<lambda>s. s\<lparr>m_LockObjectA := None, m_LockObjectB := None\<rparr>)
       (dispatchOnTrigger E a b (st\<lparr>m_LockObjectA := Some a, m_LockObjectB := Some b\<rparr>))"

definition legacy_pair ::
  "'u environment \<Rightarrow> nat \<Rightarrow> nat \<Rightarrow> 'u game_pool \<Rightarrow> (nat option \<times> 'u game_pool) option" where
  "legacy_pair E a b st =
     (let nxt = detect_next st b
      in if \<not> has_callback_trigger (features (objects st a)) then Some (nxt, st)
         else
           (let st1 = count_check st
            in if \<not> isIntersect (float E) (collide E) (objects st1 a) (objects st1 b)
               then Some (nxt, st1)
               else map_option (\<lambda>s. (nxt, s)) (locked_trigger E a b (count_callback st1))))"

definition legacy_row ::
  "'u environment \<Rightarrow> nat \<Rightarrow> nat \<Rightarrow> 'u game_pool \<Rightarrow> (nat option \<times> 'u game_pool) option" where
  "legacy_row E g2 a st =
     (let nxt = detect_next st a
      in Option.bind (detect_first g2 st) (\<lambda>p.
           map_option (\<lambda>s. (nxt, s)) (walk (legacy_pair E a) p st)))"

definition detectIntersectionLegacy ::
  "'u environment \<Rightarrow> nat \<Rightarrow> nat \<Rightarrow> 'u game_pool \<Rightarrow> 'u game_pool option" where
  "detectIntersectionLegacy E g1 g2 st0 =
     Option.bind (dispatchOnBeforeBatch E BatchIntersectDetect
         (st0\<lparr>m_is_detecting_intersect := True\<rparr>)) (\<lambda>st1.
     Option.bind (detect_first g1 st1) (\<lambda>p.
     Option.bind (walk (legacy_row E g2) p st1) (\<lambda>st2.
     map_option (\<lambda>s. s\<lparr>m_is_detecting_intersect := False\<rparr>)
       (dispatchOnAfterBatch E BatchIntersectDetect st2))))"

record intersection =
  uid1 :: u64
  uid2 :: u64
  object1 :: nat
  object2 :: nat

type_synonym 'u detecting = "intersection list \<times> 'u game_pool"

definition batch_pair ::
  "'u environment \<Rightarrow> nat \<Rightarrow> nat \<Rightarrow> 'u detecting \<Rightarrow> (nat option \<times> 'u detecting) option" where
  "batch_pair E a b cs =
     (let (cache, st) = cs
      in if \<not> has_callback_trigger (features (objects st a)) then Some (detect_next st b, cache, st)
         else
           (let st1 = count_check st
            in if \<not> isIntersect (float E) (collide E) (objects st1 a) (objects st1 b)
               then Some (detect_next st1 b, cache, st1)
               else Some (detect_next st1 b,
                 cache @ [\<lparr>uid1 = unique_id (objects st1 a), uid2 = unique_id (objects st1 b),
                           object1 = a, object2 = b\<rparr>], st1)))"

definition batch_row ::
  "'u environment \<Rightarrow> nat \<Rightarrow> nat \<Rightarrow> 'u detecting \<Rightarrow> (nat option \<times> 'u detecting) option" where
  "batch_row E g2 a cs =
     Option.bind (detect_first g2 (snd cs)) (\<lambda>p.
       map_option (\<lambda>cs'. (detect_next (snd cs') a, cs')) (walk (batch_pair E a) p cs))"

definition batch_groups ::
  "'u environment \<Rightarrow> nat \<times> nat \<Rightarrow> 'u detecting \<Rightarrow> 'u detecting option" where
  "batch_groups E gg cs =
     Option.bind (detect_first (fst gg) (snd cs)) (\<lambda>p. walk (batch_row E (snd gg)) p cs)"

definition batch_call :: "'u environment \<Rightarrow> intersection \<Rightarrow> 'u game_pool \<Rightarrow> 'u game_pool option" where
  "batch_call E r st =
     assert_that (unique_id (objects st (object1 r)) = uid1 r \<and> unique_id (objects st (object2 r)) = uid2 r)
       (locked_trigger E (object1 r) (object2 r) (count_callback st))"

definition detectIntersection ::
  "'u environment \<Rightarrow> (nat \<times> nat) list \<Rightarrow> 'u game_pool \<Rightarrow> 'u game_pool option" where
  "detectIntersection E group_pairs st0 =
     Option.bind (dispatchOnBeforeBatch E BatchIntersectDetect
         (st0\<lparr>m_is_detecting_intersect := True\<rparr>)) (\<lambda>st1.
     Option.bind (fold_option (batch_groups E) group_pairs ([], st1)) (\<lambda>(cache, st2).
     Option.bind (fold_option (batch_call E) cache st2) (\<lambda>st3.
     map_option (\<lambda>s. s\<lparr>m_is_detecting_intersect := False\<rparr>)
       (dispatchOnAfterBatch E BatchIntersectDetect st3))))"

subsection \<open>Statistics, queries and reset\<close>

definition DebugNextFrame :: "'u game_pool \<Rightarrow> 'u game_pool" where
  "DebugNextFrame st =
     (let st1 = st\<lparr>m_statistics_index := (m_statistics_index st + 1) mod length (m_statistics st)\<rparr>
      in mod_statistics (\<lambda>d. statistics_zero\<lparr>object_alive := of_nat (pool_size (m_ObjectPool st1))\<rparr>) st1)"

definition DebugGetFrameStatistics :: "'u game_pool \<Rightarrow> frame_statistics" where
  "DebugGetFrameStatistics st =
     (let n = length (m_statistics st) in m_statistics st ! ((m_statistics_index st + n - 1) mod n))"

definition GetObjectCount :: "'u game_pool \<Rightarrow> nat" where
  "GetObjectCount st = pool_size (m_ObjectPool st)"

definition getUpdateListFirst :: "'u game_pool \<Rightarrow> nat option" where
  "getUpdateListFirst st = m_first (m_update_list st)"

definition getUpdateListNext :: "nat \<Rightarrow> 'u game_pool \<Rightarrow> nat option" where
  "getUpdateListNext i st =
     (case pool_object (m_ObjectPool st) i of None \<Rightarrow> None | Some x \<Rightarrow> update_next st x)"

definition getDetectListNext :: "nat \<Rightarrow> nat \<Rightarrow> 'u game_pool \<Rightarrow> nat option" where
  "getDetectListNext g i st =
     (case pool_object (m_ObjectPool st) i of
        None \<Rightarrow> None
      | Some x \<Rightarrow> if unat (group (objects st x)) \<noteq> g then None else detect_next st x)"

definition clear_detect_list :: "nat \<Rightarrow> 'u game_pool \<Rightarrow> 'u game_pool option" where
  "clear_detect_list g st =
     map_option (\<lambda>(L, l). st\<lparr>detect_links := L, m_detect_lists := (m_detect_lists st)[g := l]\<rparr>)
       (list_clear (detect_links st) (m_detect_lists st ! g))"

definition resetGameObjectLists :: "'u game_pool \<Rightarrow> 'u game_pool option" where
  "resetGameObjectLists st =
     Option.bind (list_clear (update_links st) (m_update_list st)) (\<lambda>(L, l).
       fold_option clear_detect_list [0..<length (m_detect_lists st)]
         (st\<lparr>update_links := L, m_update_list := l, m_render_list := []\<rparr>))"

definition ResetPool :: "'u environment \<Rightarrow> 'u game_pool \<Rightarrow> 'u game_pool option" where
  "ResetPool E st0 =
     Option.bind (dispatchOnBeforeBatch E BatchDestroy st0) (\<lambda>st1.
     Option.bind (walk (freeWithCallbacks E) (m_first (m_update_list st1)) st1) (\<lambda>st2.
     Option.bind (dispatchOnAfterBatch E BatchDestroy st2) (\<lambda>st3.
     map_option (\<lambda>st4. st4\<lparr>m_ObjectPool := pool_clear (m_ObjectPool st4), m_LockObjectA := None,
         m_LockObjectB := None, m_superpause := 0, m_nextsuperpause := 0\<rparr>)
       (resetGameObjectLists st3))))"

text \<open>The constructor, for a pool of \<open>n\<close> slots.\<close>

definition empty_links :: links where
  "empty_links = \<lparr>link_previous = (\<lambda>_. None), link_next = (\<lambda>_. None)\<rparr>"

definition empty_object_list :: object_list where
  "empty_object_list = \<lparr>m_first = None, m_last = None\<rparr>"

definition game_pool_new :: "nat \<Rightarrow> 'u \<Rightarrow> 'u game_pool" where
  "game_pool_new n u =
     \<lparr>m_ObjectPool = pool_new n, objects = (\<lambda>_. game_object_zero), update_links = empty_links,
      detect_links = empty_links, m_iUid = 0, m_update_list = empty_object_list,
      m_render_list = [], m_detect_lists = replicate LOBJPOOL_GROUPN empty_object_list,
      m_callbacks = [], m_LockObjectA = None, m_LockObjectB = None,
      m_BoundLeft = double_neg double_100, m_BoundRight = double_100,
      m_BoundTop = double_100, m_BoundBottom = double_neg double_100,
      m_is_rendering = False, m_is_detecting_intersect = False,
      m_statistics = replicate 2 statistics_zero, m_statistics_index = 0,
      m_superpause = 0, m_nextsuperpause = 0, external = u\<rparr>"

end
