(* ===== verification/PoolInvariant.thy ===== *)
theory PoolInvariant
  imports GameObjectPool
begin

text \<open>
  The invariant of the object manager and the operations that keep it: the update list,
  the sixteen collision lists, the render order and the slot allocator describe one and
  the same set of objects.  The invariant is split by component, so that each step of an
  operation touches one part of it.
\<close>

subsection \<open>The parts of the invariant\<close>

definition object_ok :: "nat \<Rightarrow> game_object \<Rightarrow> bool" where
  "object_ok i g \<longleftrightarrow> obj_id g = i \<and> status g \<noteq> Free \<and> resource_inv g \<and> (\<exists>cs. callbacks_rep g cs)"

definition detect_ok ::
  "links \<Rightarrow> object_list list \<Rightarrow> (nat \<Rightarrow> game_object) \<Rightarrow> nat set \<Rightarrow> (nat \<Rightarrow> nat list) \<Rightarrow> bool" where
  "detect_ok L dls objs S gs \<longleftrightarrow> length dls = LOBJPOOL_GROUPN
     \<and> (\<forall>g<LOBJPOOL_GROUPN. represents L (dls ! g) (gs g)
          \<and> set (gs g) = {i \<in> S. unat (group (objs i)) = g})
     \<and> (\<forall>i\<in>S. unat (group (objs i)) < LOBJPOOL_GROUPN)"

definition render_ok :: "nat list \<Rightarrow> (nat \<Rightarrow> game_object) \<Rightarrow> nat set \<Rightarrow> bool" where
  "render_ok rl objs S \<longleftrightarrow> sorted_wrt (layer_lt objs) rl \<and> set rl = S
     \<and> inj_on (\<lambda>i. unique_id (objs i)) S \<and> (\<forall>i\<in>S. \<not> is_nan (layer (objs i)))"

definition slots_ok :: "object_pool \<Rightarrow> (nat \<Rightarrow> game_object) \<Rightarrow> nat set \<Rightarrow> bool" where
  "slots_ok P objs S \<longleftrightarrow> object_pool_inv P \<and> length (m_used P) \<le> 65536 \<and> pool_live P = S
     \<and> (\<forall>i\<in>S. object_ok i (objs i)) \<and> (\<forall>i. i \<notin> S \<longrightarrow> callbacks_count (objs i) = 0)"

text \<open>
  \<open>pool_rep st us gs\<close>: the pool holds the objects \<open>us\<close> in update order, and \<open>gs g\<close> are
  those of group \<open>g\<close> in detection order.
\<close>

definition pool_rep :: "'u game_pool \<Rightarrow> nat list \<Rightarrow> (nat \<Rightarrow> nat list) \<Rightarrow> bool" where
  "pool_rep st us gs \<longleftrightarrow> slots_ok (m_ObjectPool st) (objects st) (set us)
     \<and> represents (update_links st) (m_update_list st) us
     \<and> detect_ok (detect_links st) (m_detect_lists st) (objects st) (set us) gs
     \<and> render_ok (m_render_list st) (objects st) (set us)
     \<and> (\<forall>i\<in>set us. unique_id (objects st i) < m_iUid st)
     \<and> length (m_statistics st) = 2 \<and> m_statistics_index st < 2"

definition pool_inv :: "'u game_pool \<Rightarrow> bool" where
  "pool_inv st \<longleftrightarrow> (\<exists>us gs. pool_rep st us gs)"

definition pool_capacity :: "'u game_pool \<Rightarrow> nat" where
  "pool_capacity st = length (m_used (m_ObjectPool st))"

text \<open>What no operation on single objects touches.\<close>

definition pool_context where
  "pool_context st = (pool_capacity st, m_callbacks st, m_LockObjectA st, m_LockObjectB st,
     (m_BoundLeft st, m_BoundRight st, m_BoundTop st, m_BoundBottom st), m_is_rendering st,
     m_is_detecting_intersect st, m_superpause st, m_nextsuperpause st, m_statistics_index st)"

lemmas pool_context_defs = pool_context_def pool_capacity_def

lemma pool_rep_distinct: "pool_rep st us gs \<Longrightarrow> distinct us"
  by (auto simp: pool_rep_def dest: represents_distinct)

lemma pool_rep_live: "pool_rep st us gs \<Longrightarrow> pool_live (m_ObjectPool st) = set us"
  by (simp add: pool_rep_def slots_ok_def)

lemma pool_rep_bounded:
  assumes "pool_rep st us gs"
  shows "set us \<subseteq> {..<pool_capacity st}" and "length us \<le> pool_capacity st"
proof -
  show "set us \<subseteq> {..<pool_capacity st}"
    using assms pool_live_bounded[of "m_ObjectPool st"]
    by (simp add: pool_rep_live pool_capacity_def)
  then have "card (set us) \<le> pool_capacity st"
    using card_mono[of "{..<pool_capacity st}" "set us"] by simp
  then show "length us \<le> pool_capacity st"
    using pool_rep_distinct[OF assms] by (simp add: distinct_card)
qed

lemma pool_rep_object: "pool_rep st us gs \<Longrightarrow> x \<in> set us \<Longrightarrow> object_ok x (objects st x)"
  by (simp add: pool_rep_def slots_ok_def)

lemma pool_rep_first: "pool_rep st us gs \<Longrightarrow> m_first (m_update_list st) = head_of us"
  by (simp add: pool_rep_def represents_def)

lemma pool_rep_next: "pool_rep st (as @ x # bs) gs \<Longrightarrow> update_next st x = head_of bs"
  unfolding pool_rep_def update_next_def using represents_next by blast

lemma pool_rep_group:
  assumes "pool_rep st us gs" "x \<in> set us"
  shows "unat (group (objects st x)) < LOBJPOOL_GROUPN"
    and "x \<in> set (gs (unat (group (objects st x))))"
  using assms by (auto simp: pool_rep_def detect_ok_def)

subsection \<open>Detection lists\<close>

lemma detect_ok_cong:
  assumes "detect_ok L dls objs S gs" "\<And>i. i \<in> S \<Longrightarrow> group (objs' i) = group (objs i)"
  shows "detect_ok L dls objs' S gs"
  using assms by (auto simp: detect_ok_def)

lemma detect_ok_add:
  assumes ok: "detect_ok L dls objs S gs" and x: "x \<notin> S" "unlinked L x"
    and g: "unat (group (objs x)) = g" "g < LOBJPOOL_GROUPN"
  shows "\<exists>L' l'. list_add L (dls ! g) x = Some (L', l')
    \<and> detect_ok L' (dls[g := l']) objs (insert x S) (gs(g := gs g @ [x]))"
proof -
  have rep: "represents L (dls ! g) (gs g)" and sg: "set (gs g) = {i \<in> S. unat (group (objs i)) = g}"
    using ok g by (auto simp: detect_ok_def)
  then have "x \<notin> set (gs g)" using x by auto
  from chain.add[OF rep this x(2)] obtain L' l' where add: "list_add L (dls ! g) x = Some (L', l')"
    "represents L' l' (gs g @ [x])" "agree_off (insert x (set (gs g))) L L'" by blast
  have "represents L' (dls ! h) (gs h)" if "h < LOBJPOOL_GROUPN" "h \<noteq> g" for h
  proof (rule chain.frame_rep[OF _ add(3)])
    show "represents L (dls ! h) (gs h)" using ok that by (simp add: detect_ok_def)
    have "set (gs h) = {i \<in> S. unat (group (objs i)) = h}" using ok that by (simp add: detect_ok_def)
    then show "set (gs h) \<inter> insert x (set (gs g)) = {}" using sg x that by auto
  qed
  then have "detect_ok L' (dls[g := l']) objs (insert x S) (gs(g := gs g @ [x]))"
    using ok add(2) g sg by (auto simp: detect_ok_def nth_list_update)
  with add show ?thesis by blast
qed

lemma detect_ok_remove:
  assumes ok: "detect_ok L dls objs S gs" and x: "x \<in> S" and g: "unat (group (objs x)) = g"
  shows "\<exists>n L' l'. list_remove L (dls ! g) x = Some (n, L', l')
    \<and> detect_ok L' (dls[g := l']) objs (S - {x}) (gs(g := remove1 x (gs g))) \<and> unlinked L' x"
proof -
  have gb: "g < LOBJPOOL_GROUPN" using ok x g by (auto simp: detect_ok_def)
  have rep: "represents L (dls ! g) (gs g)" and sg: "set (gs g) = {i \<in> S. unat (group (objs i)) = g}"
    using ok gb by (auto simp: detect_ok_def)
  then have "x \<in> set (gs g)" using x g by auto
  from chain.remove_member[OF rep this] obtain n L' l' where
    rm: "list_remove L (dls ! g) x = Some (n, L', l')" "represents L' l' (remove1 x (gs g))"
    "agree_off (set (gs g)) L L'" "unlinked L' x" by blast
  have "represents L' (dls ! h) (gs h)" if "h < LOBJPOOL_GROUPN" "h \<noteq> g" for h
  proof (rule chain.frame_rep[OF _ rm(3)])
    show "represents L (dls ! h) (gs h)" using ok that by (simp add: detect_ok_def)
    have "set (gs h) = {i \<in> S. unat (group (objs i)) = h}" using ok that by (simp add: detect_ok_def)
    then show "set (gs h) \<inter> set (gs g) = {}" using sg that by auto
  qed
  then have "detect_ok L' (dls[g := l']) objs (S - {x}) (gs(g := remove1 x (gs g)))"
    using ok rm(2) gb g sg represents_distinct[OF rep] by (auto simp: detect_ok_def nth_list_update)
  with rm show ?thesis by blast
qed

subsection \<open>Render order\<close>

lemma layer_lt_eta: "layer_lt objs = (\<lambda>a b. GameObjectLayerComparer (objs a) (objs b))"
  by (intro ext) (simp add: layer_lt_def)

lemma render_ok_cong:
  assumes "render_ok rl objs S"
    and "\<And>i. i \<in> S \<Longrightarrow> layer (objs' i) = layer (objs i) \<and> unique_id (objs' i) = unique_id (objs i)"
  shows "render_ok rl objs' S"
proof -
  have "sorted_wrt (layer_lt objs') rl"
    using assms by (auto simp: render_ok_def layer_lt_def GameObjectLayerComparer_def
        intro!: sorted_wrt_mono_rel[of rl "layer_lt objs" "layer_lt objs'"])
  moreover have "inj_on (\<lambda>i. unique_id (objs' i)) S"
    using assms by (auto simp: render_ok_def inj_on_def)
  ultimately show ?thesis using assms by (auto simp: render_ok_def)
qed

lemma render_ok_insert:
  assumes "render_ok rl objs S" "x \<notin> S" "\<not> is_nan (layer (objs x))"
    "unique_id (objs x) \<notin> (\<lambda>i. unique_id (objs i)) ` S"
  shows "render_ok (set_insert (layer_lt objs) x rl) objs (insert x S)"
proof -
  have fresh: "\<forall>y\<in>set rl. \<not> is_nan (layer (objs y)) \<and> unique_id (objs y) \<noteq> unique_id (objs x)"
    using assms by (auto simp: render_ok_def image_iff)
  show ?thesis
    using assms layers.insert_sorted[of objs x rl] layers.insert_set[of objs x rl] fresh
    by (auto simp: render_ok_def layer_lt_eta inj_on_insert)
qed

lemma render_ok_erase:
  assumes "render_ok rl objs S" "x \<in> S"
  shows "render_ok (set_erase (layer_lt objs) x rl) objs (S - {x})"
    and "set_erase (layer_lt objs) x rl = remove1 x rl"
proof -
  have s: "sorted_wrt (\<lambda>a b. GameObjectLayerComparer (objs a) (objs b)) rl"
    using assms by (simp add: render_ok_def layer_lt_eta)
  moreover have "x \<in> set rl" using assms by (simp add: render_ok_def)
  ultimately show e: "set_erase (layer_lt objs) x rl = remove1 x rl"
    unfolding layer_lt_eta by (rule layers.erase_member)
  show "render_ok (set_erase (layer_lt objs) x rl) objs (S - {x})"
    unfolding e using assms layers.sorted_remove1[OF s, of x] layers.sorted_distinct[OF s]
    by (auto simp: render_ok_def layer_lt_eta inj_on_diff)
qed

subsection \<open>Slots\<close>

lemma slots_ok_update:
  assumes "slots_ok P objs S" "x \<in> S" "object_ok x g"
  shows "slots_ok P (objs(x := g)) S"
  using assms by (auto simp: slots_ok_def)

lemma slots_ok_alloc:
  assumes "slots_ok P objs S" "pool_alloc P = (Some i, P')"
  shows "i \<notin> S" "i < length (m_used P)" "length (m_used P') = length (m_used P)"
    and "object_ok i g \<Longrightarrow> slots_ok P' (objs(i := g)) (insert i S)"
proof -
  have inv: "object_pool_inv P" using assms by (simp add: slots_ok_def)
  note a = slots.alloc_SomeD[OF inv assms(2)]
  have live: "pool_live P = S" using assms by (simp add: slots_ok_def)
  show "i \<notin> S" "i < length (m_used P)" "length (m_used P') = length (m_used P)"
    using a live by auto
  show "slots_ok P' (objs(i := g)) (insert i S)" if "object_ok i g"
    using assms a live that by (auto simp: slots_ok_def)
qed

lemma slots_ok_free:
  assumes "slots_ok P objs S" "x \<in> S" "callbacks_count g = 0"
  shows "slots_ok (pool_free P x) (objs(x := g)) (S - {x})"
    and "length (m_used (pool_free P x)) = length (m_used P)"
proof -
  have inv: "object_pool_inv P" and live: "pool_live P = S" using assms by (simp_all add: slots_ok_def)
  have "x \<in> pool_live P" using live assms by simp
  note f = pool_free_live[OF inv this]
  show "length (m_used (pool_free P x)) = length (m_used P)" using f by simp
  show "slots_ok (pool_free P x) (objs(x := g)) (S - {x})"
    using f live assms by (auto simp: slots_ok_def)
qed

end
