(* ===== verification/PoolOperations.thy ===== *)
theory PoolOperations
  imports PoolInvariant
begin

text \<open>
  Every operation on single objects keeps the pool's invariant, and what it does to the
  update order, the groups and the objects.
\<close>

subsection \<open>Steps outside the invariant\<close>

lemma pool_rep_unaffected [simp]:
  "pool_rep (st\<lparr>external := u\<rparr>) us gs = pool_rep st us gs"
  "pool_rep (st\<lparr>m_LockObjectA := a\<rparr>) us gs = pool_rep st us gs"
  "pool_rep (st\<lparr>m_LockObjectB := a\<rparr>) us gs = pool_rep st us gs"
  "pool_rep (st\<lparr>m_is_rendering := b\<rparr>) us gs = pool_rep st us gs"
  "pool_rep (st\<lparr>m_is_detecting_intersect := b\<rparr>) us gs = pool_rep st us gs"
  "pool_rep (st\<lparr>m_superpause := w\<rparr>) us gs = pool_rep st us gs"
  "pool_rep (st\<lparr>m_nextsuperpause := w\<rparr>) us gs = pool_rep st us gs"
  "pool_rep (st\<lparr>m_callbacks := cs\<rparr>) us gs = pool_rep st us gs"
  by (simp_all add: pool_rep_def)

lemma mod_statistics_simps [simp]:
  "m_ObjectPool (mod_statistics f st) = m_ObjectPool st" "objects (mod_statistics f st) = objects st"
  "update_links (mod_statistics f st) = update_links st"
  "detect_links (mod_statistics f st) = detect_links st" "m_iUid (mod_statistics f st) = m_iUid st"
  "m_update_list (mod_statistics f st) = m_update_list st"
  "m_render_list (mod_statistics f st) = m_render_list st"
  "m_detect_lists (mod_statistics f st) = m_detect_lists st"
  "external (mod_statistics f st) = external st" "m_callbacks (mod_statistics f st) = m_callbacks st"
  "length (m_statistics (mod_statistics f st)) = length (m_statistics st)"
  "m_statistics_index (mod_statistics f st) = m_statistics_index st"
  "m_LockObjectA (mod_statistics f st) = m_LockObjectA st"
  "m_LockObjectB (mod_statistics f st) = m_LockObjectB st"
  by (simp_all add: mod_statistics_def)

lemma mod_statistics_rep [simp]: "pool_rep (mod_statistics f st) us gs = pool_rep st us gs"
  by (simp add: pool_rep_def)

lemma mod_statistics_context [simp]: "pool_context (mod_statistics f st) = pool_context st"
  by (simp add: pool_context_defs mod_statistics_def)

lemma set_object_simps [simp]:
  "m_ObjectPool (set_object x g st) = m_ObjectPool st"
  "objects (set_object x g st) = (objects st)(x := g)"
  "update_links (set_object x g st) = update_links st"
  "detect_links (set_object x g st) = detect_links st" "m_iUid (set_object x g st) = m_iUid st"
  "m_update_list (set_object x g st) = m_update_list st"
  "m_render_list (set_object x g st) = m_render_list st"
  "m_detect_lists (set_object x g st) = m_detect_lists st"
  "external (set_object x g st) = external st" "m_callbacks (set_object x g st) = m_callbacks st"
  "m_statistics (set_object x g st) = m_statistics st"
  "m_statistics_index (set_object x g st) = m_statistics_index st"
  "m_LockObjectA (set_object x g st) = m_LockObjectA st"
  "m_LockObjectB (set_object x g st) = m_LockObjectB st"
  "m_is_rendering (set_object x g st) = m_is_rendering st"
  by (simp_all add: set_object_def)

lemma set_object_context [simp]: "pool_context (set_object x g st) = pool_context st"
  by (simp add: pool_context_defs set_object_def)

lemma external_context [simp]: "pool_context (st\<lparr>external := u\<rparr>) = pool_context st"
  by (simp add: pool_context_defs)

lemma pool_context_lists [simp]:
  "pool_context (st\<lparr>update_links := a\<rparr>) = pool_context st"
  "pool_context (st\<lparr>m_update_list := b\<rparr>) = pool_context st"
  "pool_context (st\<lparr>detect_links := c\<rparr>) = pool_context st"
  "pool_context (st\<lparr>m_detect_lists := d\<rparr>) = pool_context st"
  "pool_context (st\<lparr>m_render_list := e\<rparr>) = pool_context st"
  "pool_context (st\<lparr>m_iUid := w\<rparr>) = pool_context st"
  "pool_context (render_list_insert x st) = pool_context st"
  "pool_context (render_list_erase x st) = pool_context st"
  by (simp_all add: pool_context_defs render_list_insert_def render_list_erase_def)

lemma update_next_simps [simp]:
  "update_next (set_object x g st) y = update_next st y"
  "update_next (st\<lparr>external := u\<rparr>) y = update_next st y"
  by (simp_all add: update_next_def)

text \<open>An update of one object that keeps its identity, group and layer.\<close>

definition same_place :: "game_object \<Rightarrow> game_object \<Rightarrow> bool" where
  "same_place g g' \<longleftrightarrow> group g' = group g \<and> layer g' = layer g \<and> unique_id g' = unique_id g"

lemma pool_rep_set_object:
  assumes rep: "pool_rep st us gs" and x: "x \<in> set us" and ok: "object_ok x g"
    and same: "same_place (objects st x) g"
  shows "pool_rep (set_object x g st) us gs"
  using rep slots_ok_update[OF _ x ok, of "m_ObjectPool st" "objects st"] same
    detect_ok_cong[of "detect_links st" "m_detect_lists st" "objects st" "set us" gs "(objects st)(x := g)"]
    render_ok_cong[of "m_render_list st" "objects st" "set us" "(objects st)(x := g)"]
  by (auto simp: pool_rep_def same_place_def)

lemma object_ok_fields [simp]:
  "object_ok i (g\<lparr>group := a\<rparr>) = object_ok i g" "object_ok i (g\<lparr>layer := b\<rparr>) = object_ok i g"
  "object_ok i (g\<lparr>unique_id := w\<rparr>) = object_ok i g"
  "object_ok i g \<Longrightarrow> object_ok i (g\<lparr>status := s\<rparr>) = (s \<noteq> Free)"
  by (auto simp: object_ok_def resource_inv_def callbacks_rep_def)

subsection \<open>Manager callbacks\<close>

text \<open>The manager callbacks return.\<close>

definition manager_total :: "'u environment \<Rightarrow> bool" where
  "manager_total E \<longleftrightarrow> (\<forall>c x g u. onCreate E c x g u \<noteq> None) \<and> (\<forall>c x g u. onDestroy E c x g u \<noteq> None)
     \<and> (\<forall>b c u. onBeforeBatch E b c u \<noteq> None) \<and> (\<forall>b c u. onAfterBatch E b c u \<noteq> None)"

lemma dispatch_manager_total:
  assumes "\<forall>c u. f c u \<noteq> None"
  shows "\<exists>u. dispatch_manager f st = Some (st\<lparr>external := u\<rparr>)"
proof -
  have "\<exists>u'. fold_option f cs u = Some u' \<and> True" for cs u
    by (rule fold_option_total) (use assms in auto)
  then obtain u' where "fold_option f (m_callbacks st) (external st) = Some u'" by blast
  then show ?thesis by (auto simp: dispatch_manager_def)
qed

lemma dispatch_managers:
  assumes "manager_total E"
  shows "\<exists>u. dispatchOnCreate E x st = Some (st\<lparr>external := u\<rparr>)"
    and "\<exists>u. dispatchOnDestroy E x st = Some (st\<lparr>external := u\<rparr>)"
    and "\<exists>u. dispatchOnBeforeBatch E b st = Some (st\<lparr>external := u\<rparr>)"
    and "\<exists>u. dispatchOnAfterBatch E b st = Some (st\<lparr>external := u\<rparr>)"
  using assms
  by (auto simp: manager_total_def dispatchOnCreate_def dispatchOnDestroy_def
      dispatchOnBeforeBatch_def dispatchOnAfterBatch_def intro!: dispatch_manager_total)

subsection \<open>Allocation\<close>

definition new_object :: "nat \<Rightarrow> u64 \<Rightarrow> nat option \<Rightarrow> game_object \<Rightarrow> game_object" where
  "new_object i uid cb old =
     (let g = (game_object_Reset old)\<lparr>status := Active, obj_id := i, unique_id := uid\<rparr>
      in case cb of None \<Rightarrow> g | Some c \<Rightarrow> setDirectCallbacks g c)"

lemma Reset_simps [simp]:
  "group (game_object_Reset g) = 0" "layer (game_object_Reset g) = 0"
  "res (game_object_Reset g) = None" "callbacks (game_object_Reset g) = callbacks g"
  "callbacks_count (game_object_Reset g) = callbacks_count g"
  "callbacks_capacity (game_object_Reset g) = callbacks_capacity g"
  by (simp_all add: game_object_Reset_def)

lemma callbacks_rep_none: "callbacks_count g = 0 \<Longrightarrow> callbacks_rep g []"
  by (simp add: callbacks_rep_def)

lemma new_object_ok:
  assumes "callbacks_count old = 0"
  shows "object_ok i (new_object i uid cb old)"
  using assms
proof (cases cb)
  case None
  have "callbacks_rep (new_object i uid cb old) []"
    using assms None by (simp add: callbacks_rep_def new_object_def)
  then show ?thesis using None by (auto simp: object_ok_def new_object_def)
next
  case (Some c)
  have "callbacks_rep (new_object i uid cb old) [c]"
    using Some by (simp add: new_object_def)
  then show ?thesis using Some
    by (auto simp: object_ok_def new_object_def setDirectCallbacks_def)
qed

lemma new_object_simps [simp]:
  "group (new_object i uid cb old) = 0" "layer (new_object i uid cb old) = 0"
  "unique_id (new_object i uid cb old) = uid" "obj_id (new_object i uid cb old) = i"
  "status (new_object i uid cb old) = Active" "res (new_object i uid cb old) = None"
  by (simp_all add: new_object_def Let_def setDirectCallbacks_def split: option.splits)

lemma allocate_full:
  assumes "pool_rep st us gs" "length us = pool_capacity st"
  shows "allocateWithCallbacks E cb st = Some (None, st)"
proof -
  have "card (pool_live (m_ObjectPool st)) = pool_capacity st"
    using assms pool_rep_live[OF assms(1)] pool_rep_distinct[OF assms(1)] by (simp add: distinct_card)
  then have "pool_alloc (m_ObjectPool st) = (None, m_ObjectPool st)"
    using assms by (intro slots.alloc_full) (auto simp: pool_rep_def slots_ok_def pool_capacity_def)
  then show ?thesis by (simp add: allocateWithCallbacks_def)
qed

lemma uid_fresh:
  assumes "pool_rep st us gs" "m_iUid st < max_unique_id"
  shows "m_iUid st mod max_unique_id = m_iUid st"
    and "m_iUid st \<notin> (\<lambda>i. unique_id (objects st i)) ` set us"
    and "i \<in> set us \<Longrightarrow> unique_id (objects st i) < m_iUid st + 1"
    and "m_iUid st < m_iUid st + 1"
proof -
  show "m_iUid st mod max_unique_id = m_iUid st"
    using assms(2) by (simp add: word_arith_nat_defs(7) word_less_nat_alt)
  show "m_iUid st \<notin> (\<lambda>i. unique_id (objects st i)) ` set us"
    using assms(1) by (auto simp: pool_rep_def)
  show l: "m_iUid st < m_iUid st + 1"
    using assms(2) by (simp add: word_less_nat_alt max_unique_id_def unat_word_ariths)
  show "unique_id (objects st i) < m_iUid st + 1" if "i \<in> set us"
    using assms(1) that l by (auto simp: pool_rep_def)
qed

lemma detect_ok_frame:
  assumes "detect_ok L dls objs S gs" "agree_off A L L'" "S \<inter> A = {}"
  shows "detect_ok L' dls objs S gs"
proof -
  have "represents L' (dls ! g) (gs g)" if "g < LOBJPOOL_GROUPN" for g
  proof (rule represents_frame[OF _ assms(2)])
    show "represents L (dls ! g) (gs g)" using assms(1) that by (simp add: detect_ok_def)
    have "set (gs g) \<subseteq> S" using assms(1) that by (auto simp: detect_ok_def)
    with assms(3) show "set (gs g) \<inter> A = {}" by blast
  qed
  with assms(1) show ?thesis by (simp add: detect_ok_def)
qed

text \<open>The pool after its slot \<open>i\<close> has been given out, before the callbacks run.\<close>

lemma reset_slot_rep:
  assumes rep: "pool_rep st us gs" and uid: "m_iUid st < max_unique_id"
    and a: "pool_alloc (m_ObjectPool st) = (Some i, P)"
  shows "\<exists>st1 st2. update_list_add i (reset_slot i (st\<lparr>m_ObjectPool := P\<rparr>)) = Some st1
    \<and> detect_list_add i (render_list_insert i st1) = Some st2
    \<and> pool_rep st2 (us @ [i]) (gs(0 := gs 0 @ [i]))
    \<and> objects st2 = (objects st)(i := new_object i (m_iUid st) None (objects st i))
    \<and> m_iUid st2 = m_iUid st + 1 \<and> pool_context st2 = pool_context st
    \<and> i \<notin> set us \<and> i < pool_capacity st \<and> external st2 = external st
    \<and> m_statistics st2 = m_statistics st \<and> callbacks_count (objects st2 i) = 0
    \<and> m_ObjectPool st2 = P"
proof -
  let ?g = "new_object i (m_iUid st) None (objects st i)"
  let ?objs = "(objects st)(i := ?g)"
  let ?st0 = "reset_slot i (st\<lparr>m_ObjectPool := P\<rparr>)"
  have slots: "slots_ok (m_ObjectPool st) (objects st) (set us)"
    and ul: "represents (update_links st) (m_update_list st) us"
    and dl: "detect_ok (detect_links st) (m_detect_lists st) (objects st) (set us) gs"
    and rl: "render_ok (m_render_list st) (objects st) (set us)"
    using rep by (simp_all add: pool_rep_def)
  note al = slots_ok_alloc[OF slots a]
  note fresh = uid_fresh[OF rep uid]
  have "callbacks_count (objects st i) = 0" using slots al(1) by (simp add: slots_ok_def)
  note sl = al(4)[OF new_object_ok[OF this, of _ "m_iUid st" None]]
  have i64: "i mod 65536 = i" using al(2) slots by (simp add: slots_ok_def)
  have objs0: "objects ?st0 = ?objs"
    using i64 fresh(1) by (simp add: reset_slot_def new_object_def)
  have ul0: "represents (update_links ?st0) (m_update_list ?st0) us"
  proof -
    have "represents (update_links ?st0) (m_update_list st) us"
      by (rule represents_frame[OF ul, where A = "{i}"])
        (use al(1) in \<open>auto simp: reset_slot_def agree_off_def setNext_def setPrevious_def\<close>)
    then show ?thesis by (simp add: reset_slot_def)
  qed
  have un0: "unlinked (update_links ?st0) i"
    by (simp add: reset_slot_def unlinked_def setNext_def setPrevious_def)
  from chain.add[OF ul0 al(1) un0] obtain L l where
    ua: "list_add (update_links ?st0) (m_update_list ?st0) i = Some (L, l)" "represents L l (us @ [i])"
    by blast
  let ?st1 = "?st0\<lparr>update_links := L, m_update_list := l\<rparr>"
  have st1: "update_list_add i ?st0 = Some ?st1" using ua by (simp add: update_list_add_def)
  have dl0: "detect_ok (detect_links ?st0) (m_detect_lists st) ?objs (set us) gs"
  proof -
    have "detect_ok (detect_links ?st0) (m_detect_lists st) (objects st) (set us) gs"
      by (rule detect_ok_frame[OF dl, where A = "{i}"])
        (use al(1) in \<open>auto simp: reset_slot_def agree_off_def setNext_def setPrevious_def\<close>)
    then show ?thesis by (rule detect_ok_cong) (use al(1) in auto)
  qed
  have un1: "unlinked (detect_links ?st0) i"
    by (simp add: reset_slot_def unlinked_def setNext_def setPrevious_def)
  have "unat (group (?objs i)) = 0" "(0::nat) < LOBJPOOL_GROUPN" by (simp_all add: LOBJPOOL_GROUPN_def)
  from detect_ok_add[where g = 0, OF dl0 al(1) un1 this] obtain D d where
    da: "list_add (detect_links ?st0) (m_detect_lists st ! 0) i = Some (D, d)"
    "detect_ok D ((m_detect_lists st)[0 := d]) ?objs (insert i (set us)) (gs(0 := gs 0 @ [i]))" by blast
  have rl0: "render_ok (m_render_list st) ?objs (set us)"
    by (rule render_ok_cong[OF rl]) (use al(1) in auto)
  have rl1: "render_ok (set_insert (layer_lt ?objs) i (m_render_list st)) ?objs (insert i (set us))"
  proof (rule render_ok_insert[OF rl0 al(1)])
    have "(\<lambda>x. unique_id (?objs x)) ` set us = (\<lambda>x. unique_id (objects st x)) ` set us"
      using al(1) by (auto intro!: image_cong)
    then show "unique_id (?objs i) \<notin> (\<lambda>x. unique_id (?objs x)) ` set us" using fresh(2) by simp
  qed simp
  have base: "m_detect_lists ?st0 = m_detect_lists st" "m_render_list ?st0 = m_render_list st"
    "m_ObjectPool ?st0 = P" "m_iUid ?st0 = m_iUid st + 1" "m_statistics ?st0 = m_statistics st"
    "m_statistics_index ?st0 = m_statistics_index st" "external ?st0 = external st"
    "pool_context ?st0 = pool_context st"
    using al(3) by (simp_all add: reset_slot_def pool_context_defs)
  define st2 where "st2 = (render_list_insert i ?st1)
    \<lparr>detect_links := D, m_detect_lists := (m_detect_lists st)[0 := d]\<rparr>"
  have "0 < length (m_detect_lists st)" using dl by (simp add: detect_ok_def LOBJPOOL_GROUPN_def)
  then have st2: "detect_list_add i (render_list_insert i ?st1) = Some st2"
    using da base objs0 by (simp add: detect_list_add_def render_list_insert_def st2_def)
  have "pool_rep st2 (us @ [i]) (gs(0 := gs 0 @ [i]))"
    using sl ua(2) da(2) rl1 base objs0 rep fresh(3,4)
    by (simp add: pool_rep_def st2_def render_list_insert_def)
  moreover have "objects st2 = ?objs" "m_iUid st2 = m_iUid st + 1" "external st2 = external st"
    "m_statistics st2 = m_statistics st" "m_ObjectPool st2 = P"
    using objs0 base by (simp_all add: st2_def render_list_insert_def)
  moreover have "pool_context st2 = pool_context st"
    using base by (simp add: st2_def render_list_insert_def pool_context_defs)
  moreover have "callbacks_count ?g = 0" using \<open>callbacks_count (objects st i) = 0\<close>
    by (simp add: new_object_def)
  ultimately show ?thesis using st1 st2 al by (auto simp: pool_capacity_def)
qed

lemma pool_has_room:
  assumes "pool_rep st us gs" "length us < pool_capacity st"
  shows "\<exists>i P. pool_alloc (m_ObjectPool st) = (Some i, P)"
  using assms slots.alloc_room[of "m_ObjectPool st"] pool_rep_distinct[OF assms(1)]
  by (auto simp: pool_rep_def slots_ok_def pool_capacity_def distinct_card)

lemma allocate_room:
  assumes rep: "pool_rep st us gs" and room: "length us < pool_capacity st"
    and uid: "m_iUid st < max_unique_id" and E: "manager_total E"
  shows "\<exists>i st'. allocateWithCallbacks E cb st = Some (Some i, st') \<and> i \<notin> set us \<and> i < pool_capacity st
    \<and> pool_rep st' (us @ [i]) (gs(0 := gs 0 @ [i])) \<and> pool_context st' = pool_context st
    \<and> objects st' = (objects st)(i := new_object i (m_iUid st) cb (objects st i))
    \<and> m_iUid st' = m_iUid st + 1 \<and> pool_alloc (m_ObjectPool st) = (Some i, m_ObjectPool st')
    \<and> m_callbacks st' = m_callbacks st"
proof -
  obtain i P where a: "pool_alloc (m_ObjectPool st) = (Some i, P)"
    using pool_has_room[OF rep room] by blast
  from reset_slot_rep[OF rep uid a] obtain st1 st2 where
    s: "update_list_add i (reset_slot i (st\<lparr>m_ObjectPool := P\<rparr>)) = Some st1"
    "detect_list_add i (render_list_insert i st1) = Some st2"
    "pool_rep st2 (us @ [i]) (gs(0 := gs 0 @ [i]))"
    "objects st2 = (objects st)(i := new_object i (m_iUid st) None (objects st i))"
    "m_iUid st2 = m_iUid st + 1" "pool_context st2 = pool_context st"
    "i \<notin> set us" "i < pool_capacity st" "callbacks_count (objects st2 i) = 0"
    "m_ObjectPool st2 = P" by blast
  define st3 where "st3 = mod_statistics (\<lambda>d. d\<lparr>object_alloc := object_alloc d + 1\<rparr>) st2"
  define st4 where "st4 = (case cb of None \<Rightarrow> st3
    | Some c \<Rightarrow> set_object i (setDirectCallbacks (objects st3 i) c) st3)"
  have st4: "(case cb of None \<Rightarrow> Some st3
      | Some c \<Rightarrow> map_option (\<lambda>g. set_object i g st3) (addCallbacks (objects st3 i) c)) = Some st4"
    using s(9) by (auto simp: st4_def st3_def addCallbacks_def split: option.splits)
  have rep4: "pool_rep st4 (us @ [i]) (gs(0 := gs 0 @ [i]))"
  proof (cases cb)
    case None
    then show ?thesis using s(3) by (simp add: st4_def st3_def)
  next
    case (Some c)
    have "callbacks_rep (setDirectCallbacks (objects st3 i) c) [c]" by simp
    then have "object_ok i (setDirectCallbacks (objects st3 i) c)"
      using pool_rep_object[OF s(3), of i]
      by (auto simp: object_ok_def setDirectCallbacks_def st3_def resource_inv_def)
    then show ?thesis using Some s(3)
      by (auto simp: st4_def st3_def same_place_def setDirectCallbacks_def intro!: pool_rep_set_object)
  qed
  have objs4: "objects st4 = (objects st)(i := new_object i (m_iUid st) cb (objects st i))"
    using s(4) by (auto simp: st4_def st3_def new_object_def Let_def split: option.splits)
  have c4: "pool_context st4 = pool_context st" "m_iUid st4 = m_iUid st + 1" "m_ObjectPool st4 = P"
    using s(5,6,10) by (simp_all add: st4_def st3_def split: option.splits)
  then have "m_callbacks st4 = m_callbacks st" by (simp add: pool_context_def)
  obtain u where "dispatchOnCreate E i st4 = Some (st4\<lparr>external := u\<rparr>)"
    using dispatch_managers(1)[OF E] by blast
  then have "allocateWithCallbacks E cb st = Some (Some i, st4\<lparr>external := u\<rparr>)"
    using a s(1,2) st4 by (simp add: allocateWithCallbacks_def st3_def[symmetric])
  with s rep4 objs4 c4 a \<open>m_callbacks st4 = m_callbacks st\<close>
  show ?thesis by (intro exI[of _ i] exI[of _ "st4\<lparr>external := u\<rparr>"]) simp
qed

subsection \<open>Release\<close>

lemma detect_list_remove_ok:
  assumes dl: "detect_ok (detect_links st) (m_detect_lists st) (objects st) S gs" and x: "x \<in> S"
    and g: "g = unat (group (objects st x))"
  shows "\<exists>st'. detect_list_remove x st = Some st'
    \<and> detect_ok (detect_links st') (m_detect_lists st') (objects st) (S - {x}) (gs(g := remove1 x (gs g)))
    \<and> unlinked (detect_links st') x
    \<and> st' = st\<lparr>detect_links := detect_links st', m_detect_lists := m_detect_lists st'\<rparr>"
proof -
  have "g < length (m_detect_lists st)" using dl x g by (simp add: detect_ok_def)
  with detect_ok_remove[OF dl x g[symmetric]] g show ?thesis
    by (auto simp: detect_list_remove_def Let_def)
qed

lemma detect_list_add_ok:
  assumes dl: "detect_ok (detect_links st) (m_detect_lists st) (objects st) S gs" and x: "x \<notin> S"
    and un: "unlinked (detect_links st) x"
    and g: "g = unat (group (objects st x))" "g < LOBJPOOL_GROUPN"
  shows "\<exists>st'. detect_list_add x st = Some st'
    \<and> detect_ok (detect_links st') (m_detect_lists st') (objects st) (insert x S) (gs(g := gs g @ [x]))
    \<and> st' = st\<lparr>detect_links := detect_links st', m_detect_lists := m_detect_lists st'\<rparr>"
proof -
  have "g < length (m_detect_lists st)" using dl g by (simp add: detect_ok_def)
  with detect_ok_add[OF dl x un g(1)[symmetric] g(2)] g(1) show ?thesis
    by (auto simp: detect_list_add_def Let_def)
qed

lemma update_list_remove_ok:
  assumes "represents (update_links st) (m_update_list st) (as @ x # bs)"
  shows "\<exists>st'. update_list_remove x st = Some (head_of bs, st')
    \<and> represents (update_links st') (m_update_list st') (as @ bs) \<and> unlinked (update_links st') x
    \<and> st' = st\<lparr>update_links := update_links st', m_update_list := m_update_list st'\<rparr>"
  using chain.remove[OF assms] by (auto simp: update_list_remove_def)

lemma update_list_add_ok:
  assumes "represents (update_links st) (m_update_list st) us" "x \<notin> set us"
    "unlinked (update_links st) x"
  shows "\<exists>st'. update_list_add x st = Some st'
    \<and> represents (update_links st') (m_update_list st') (us @ [x])
    \<and> st' = st\<lparr>update_links := update_links st', m_update_list := m_update_list st'\<rparr>"
  using chain.add[OF assms] by (auto simp: update_list_add_def)

text \<open>Taking an object out of the three lists.\<close>

lemma unlist_object:
  assumes rep: "pool_rep st (as @ x # bs) gs" and g: "g = unat (group (objects st x))"
  shows "\<exists>st1 st2. update_list_remove x st = Some (head_of bs, st1)
    \<and> detect_list_remove x (render_list_erase x st1) = Some st2
    \<and> represents (update_links st2) (m_update_list st2) (as @ bs) \<and> unlinked (update_links st2) x
    \<and> detect_ok (detect_links st2) (m_detect_lists st2) (objects st) (set (as @ bs))
        (gs(g := remove1 x (gs g))) \<and> unlinked (detect_links st2) x
    \<and> render_ok (m_render_list st2) (objects st) (set (as @ bs))
    \<and> m_render_list st2 = remove1 x (m_render_list st)
    \<and> st2 = st\<lparr>update_links := update_links st2, m_update_list := m_update_list st2,
        detect_links := detect_links st2, m_detect_lists := m_detect_lists st2,
        m_render_list := m_render_list st2\<rparr>"
proof -
  let ?S = "set (as @ x # bs)"
  have ul: "represents (update_links st) (m_update_list st) (as @ x # bs)"
    and dl: "detect_ok (detect_links st) (m_detect_lists st) (objects st) ?S gs"
    and rl: "render_ok (m_render_list st) (objects st) ?S"
    using rep by (simp_all add: pool_rep_def)
  have S: "?S - {x} = set (as @ bs)" using pool_rep_distinct[OF rep] by auto
  obtain st1 where st1: "update_list_remove x st = Some (head_of bs, st1)"
    "represents (update_links st1) (m_update_list st1) (as @ bs)" "unlinked (update_links st1) x"
    "st1 = st\<lparr>update_links := update_links st1, m_update_list := m_update_list st1\<rparr>"
    using update_list_remove_ok[OF ul] by blast
  let ?st1 = "render_list_erase x st1"
  have f1: "objects st1 = objects st" "detect_links st1 = detect_links st"
    "m_detect_lists st1 = m_detect_lists st" "m_render_list st1 = m_render_list st"
    by (subst st1(4); simp)+
  have f2: "objects ?st1 = objects st" "detect_links ?st1 = detect_links st"
    "m_detect_lists ?st1 = m_detect_lists st" "update_links ?st1 = update_links st1"
    "m_update_list ?st1 = m_update_list st1"
    "m_render_list ?st1 = set_erase (layer_lt (objects st)) x (m_render_list st)"
    using f1 by (simp_all add: render_list_erase_def)
  have "x \<in> ?S" by simp
  note er = render_ok_erase[OF rl this]
  have dl1: "detect_ok (detect_links ?st1) (m_detect_lists ?st1) (objects ?st1) ?S gs"
    using dl f2 by simp
  have "g = unat (group (objects ?st1 x))" using g f2 by simp
  from detect_list_remove_ok[OF dl1 \<open>x \<in> ?S\<close> this] obtain st2 where
    st2: "detect_list_remove x ?st1 = Some st2"
    "detect_ok (detect_links st2) (m_detect_lists st2) (objects ?st1) (?S - {x}) (gs(g := remove1 x (gs g)))"
    "unlinked (detect_links st2) x"
    "st2 = ?st1\<lparr>detect_links := detect_links st2, m_detect_lists := m_detect_lists st2\<rparr>" by blast
  have f3: "update_links st2 = update_links st1" "m_update_list st2 = m_update_list st1"
    "m_render_list st2 = set_erase (layer_lt (objects st)) x (m_render_list st)"
    by (subst st2(4); simp add: f2)+
  have "st2 = st\<lparr>update_links := update_links st2, m_update_list := m_update_list st2,
        detect_links := detect_links st2, m_detect_lists := m_detect_lists st2,
        m_render_list := m_render_list st2\<rparr>"
    by (subst (1) st2(4), subst (1) render_list_erase_def, subst (1) st1(4))
      (simp add: f1 f3)
  then show ?thesis
    using st1(1-3) st2(1-3) f2 f3 er S by metis
qed

lemma removeAll_count [simp]: "callbacks_count (removeAllCallbacks g) = 0"
  by (simp add: removeAllCallbacks_def clearCallbacks_def)

lemma removeAll_simps [simp]:
  "obj_id (removeAllCallbacks g) = obj_id g" "group (removeAllCallbacks g) = group g"
  "layer (removeAllCallbacks g) = layer g" "unique_id (removeAllCallbacks g) = unique_id g"
  "status (removeAllCallbacks g) = status g" "res (removeAllCallbacks g) = res g"
  "ps (removeAllCallbacks g) = ps g" "resource_inv (removeAllCallbacks g) = resource_inv g"
  by (simp_all add: removeAllCallbacks_def clearCallbacks_def resource_inv_def)

lemma free_rep:
  assumes rep: "pool_rep st (as @ x # bs) gs" and E: "manager_total E"
    and g: "g = unat (group (objects st x))"
  shows "\<exists>st'. freeWithCallbacks E x st = Some (head_of bs, st')
    \<and> pool_rep st' (as @ bs) (gs(g := remove1 x (gs g))) \<and> pool_context st' = pool_context st
    \<and> m_iUid st' = m_iUid st \<and> (\<forall>y. y \<noteq> x \<longrightarrow> objects st' y = objects st y)
    \<and> status (objects st' x) = Free \<and> res (objects st' x) = None
    \<and> m_render_list st' = remove1 x (m_render_list st)"
proof -
  obtain u where d: "dispatchOnDestroy E x st = Some (st\<lparr>external := u\<rparr>)"
    using dispatch_managers(2)[OF E] by blast
  let ?g1 = "removeAllCallbacks (objects st x)"
  have ok: "object_ok x (objects st x)" using pool_rep_object[OF rep] by simp
  then have "resource_inv ?g1" by (simp add: object_ok_def)
  then obtain g2 cmds where rr: "ReleaseResource ?g1 = Some (g2, cmds)"
    using ReleaseResource_total by blast
  note g2 = ReleaseResource_frame[OF rr] and g2' = ReleaseResource_clears[OF rr]
  define st2 where "st2 = (set_object x g2 (st\<lparr>external := u\<rparr>))\<lparr>external := run_resources E cmds u\<rparr>"
  have r: "release_object_resource E x (set_object x ?g1 (st\<lparr>external := u\<rparr>)) = Some st2"
    using rr by (simp add: release_object_resource_def st2_def set_object_def)
  define st3 where "st3 = mod_statistics (\<lambda>d. d\<lparr>object_free := object_free d + 1\<rparr>) st2"
  have "callbacks_rep g2 []" using g2 by (simp add: callbacks_rep_def)
  then have "object_ok x g2"
    using ok g2 g2' by (auto simp: object_ok_def)
  then have rep3: "pool_rep st3 (as @ x # bs) gs"
    using rep g2 by (auto simp: st3_def st2_def same_place_def intro!: pool_rep_set_object)
  have objs3: "objects st3 = (objects st)(x := g2)" by (simp add: st3_def st2_def)
  then have g3: "g = unat (group (objects st3 x))" using g g2 by simp
  from unlist_object[OF rep3 g3] obtain st4 st5 where
    st4: "update_list_remove x st3 = Some (head_of bs, st4)"
    and st5: "detect_list_remove x (render_list_erase x st4) = Some st5"
    "represents (update_links st5) (m_update_list st5) (as @ bs)"
    "detect_ok (detect_links st5) (m_detect_lists st5) (objects st3) (set (as @ bs)) (gs(g := remove1 x (gs g)))"
    "render_ok (m_render_list st5) (objects st3) (set (as @ bs))"
    "m_render_list st5 = remove1 x (m_render_list st3)"
    and st5eq: "st5 = st3\<lparr>update_links := update_links st5, m_update_list := m_update_list st5,
        detect_links := detect_links st5, m_detect_lists := m_detect_lists st5,
        m_render_list := m_render_list st5\<rparr>" by blast
  have f5: "objects st5 = objects st3" "m_ObjectPool st5 = m_ObjectPool st3" "m_iUid st5 = m_iUid st3"
    "m_statistics st5 = m_statistics st3" "m_statistics_index st5 = m_statistics_index st3"
    "pool_context st5 = pool_context st3"
    by (subst st5eq; simp add: pool_context_defs)+
  let ?g6 = "g2\<lparr>status := Free\<rparr>"
  define st6 where "st6 = (set_object x ?g6 st5)\<lparr>m_ObjectPool := pool_free (m_ObjectPool st5) x\<rparr>"
  have idx: "obj_id g2 = x" using g2 ok by (simp add: object_ok_def)
  have x: "x \<notin> set (as @ bs)" using pool_rep_distinct[OF rep] by auto
  then have S: "set (as @ x # bs) - {x} = set (as @ bs)" by auto
  have sl3: "slots_ok (m_ObjectPool st3) (objects st3) (set (as @ x # bs))"
    using rep3 by (simp add: pool_rep_def)
  have c6: "callbacks_count ?g6 = 0" using g2 by simp
  have xin: "x \<in> set (as @ x # bs)" by simp
  have sl: "slots_ok (pool_free (m_ObjectPool st3) x) ((objects st3)(x := ?g6)) (set (as @ bs))"
    using slots_ok_free(1)[OF sl3 xin c6] unfolding S .
  have len: "length (m_used (pool_free (m_ObjectPool st3) x)) = length (m_used (m_ObjectPool st3))"
    using slots_ok_free(2)[OF sl3 xin c6] .
  have dl6: "detect_ok (detect_links st5) (m_detect_lists st5) ((objects st3)(x := ?g6))
      (set (as @ bs)) (gs(g := remove1 x (gs g)))"
    by (rule detect_ok_cong[OF st5(3)]) (use x in auto)
  have rl6: "render_ok (m_render_list st5) ((objects st3)(x := ?g6)) (set (as @ bs))"
    by (rule render_ok_cong[OF st5(4)]) (use x in auto)
  have "\<forall>i\<in>set (as @ bs). unique_id (((objects st3)(x := ?g6)) i) < m_iUid st3"
    using rep3 x by (auto simp: pool_rep_def)
  then have "pool_rep st6 (as @ bs) (gs(g := remove1 x (gs g)))"
    using sl st5(2) dl6 rl6 f5 rep3 by (simp add: pool_rep_def st6_def)
  moreover have "freeWithCallbacks E x st = Some (head_of bs, st6)"
    using d r st4 st5(1) f5 objs3 idx
    by (simp add: freeWithCallbacks_def st3_def[symmetric] st6_def Let_def)
  moreover have "pool_context st6 = pool_context st"
    using f5(6) len f5(2) by (simp add: st6_def st3_def st2_def pool_context_defs set_object_def mod_statistics_def)
  moreover have "m_iUid st6 = m_iUid st" using f5 by (simp add: st6_def st3_def st2_def)
  moreover have "\<forall>y. y \<noteq> x \<longrightarrow> objects st6 y = objects st y" "objects st6 x = ?g6"
    using f5 objs3 by (simp_all add: st6_def)
  moreover have "m_render_list st6 = remove1 x (m_render_list st)"
    using st5(5) by (simp add: st6_def st3_def st2_def)
  ultimately show ?thesis using g2' by (intro exI[of _ st6]) simp
qed

text \<open>The slot that has just been released is on top of the free list.\<close>

lemma freeWithCallbacks_pool:
  assumes "freeWithCallbacks E x st = Some (n, st')"
  shows "m_ObjectPool st' = pool_free (m_ObjectPool st) (obj_id (objects st x))"
  using assms
  by (auto simp: freeWithCallbacks_def dispatchOnDestroy_def dispatch_manager_def Let_def
      release_object_resource_def update_list_remove_def detect_list_remove_def render_list_erase_def
      bind_Some_iff set_object_def mod_statistics_def ReleaseResource_frame split: if_splits)

lemma free_slot_next:
  assumes rep: "pool_rep st (as @ x # bs) gs" and E: "manager_total E"
  shows "\<exists>st' gs'. freeWithCallbacks E x st = Some (head_of bs, st') \<and> pool_rep st' (as @ bs) gs'
    \<and> pool_context st' = pool_context st \<and> m_iUid st' = m_iUid st
    \<and> fst (pool_alloc (m_ObjectPool st')) = Some x"
proof -
  from free_rep[OF rep E refl] obtain st' gs' where f: "freeWithCallbacks E x st = Some (head_of bs, st')"
    "pool_rep st' (as @ bs) gs'" "pool_context st' = pool_context st" "m_iUid st' = m_iUid st" by blast
  have "obj_id (objects st x) = x" using pool_rep_object[OF rep, of x] by (simp add: object_ok_def)
  with freeWithCallbacks_pool[OF f(1)] have "m_ObjectPool st' = pool_free (m_ObjectPool st) x" by metis
  moreover have "object_pool_inv (m_ObjectPool st)" "x \<in> pool_live (m_ObjectPool st)"
    using rep by (auto simp: pool_rep_def slots_ok_def)
  ultimately have "fst (pool_alloc (m_ObjectPool st')) = Some x" using pool_alloc_after_free by simp
  with f show ?thesis by blast
qed

subsection \<open>Changing an object's place\<close>

lemma queueToFree_rep:
  assumes "pool_rep st us gs" "x \<in> set us"
  shows "pool_rep (snd (queueToFree x kill st)) us gs"
    and "pool_context (snd (queueToFree x kill st)) = pool_context st"
  using assms pool_rep_object[OF assms]
  by (auto simp: queueToFree_def Let_def same_place_def intro!: pool_rep_set_object)

lemma group_conversion:
  assumes "unat (n :: u64) < LOBJPOOL_GROUPN"
  shows "scast (ucast n :: 32 word) = n"
proof -
  have n: "uint n < 16"
    using assms unfolding LOBJPOOL_GROUPN_def uint_nat by linarith
  have u: "uint (ucast n :: 32 word) = uint n"
  proof -
    have "uint (ucast n :: 32 word) = take_bit LENGTH(32) (uint n)" by (rule unsigned_ucast_eq)
    also have "\<dots> = uint n" by (rule take_bit_int_eq_self) (use n in simp_all)
    finally show ?thesis .
  qed
  have "sint (ucast n :: 32 word) = signed_take_bit 31 (uint (ucast n :: 32 word))"
    by (simp add: sint_uint)
  also have "\<dots> = uint n"
    unfolding u
    by (rule signed_take_bit_int_eq_self) (rule order.trans[OF _ uint_ge_0], simp, use n in simp)
  finally show ?thesis by (metis word_of_int_uint scast_eq)
qed

lemma setGroup_rep:
  assumes rep: "pool_rep st us gs" and x: "x \<in> set us" and n: "unat n < LOBJPOOL_GROUPN"
    and free: "\<not> isLockedByDetectIntersection x st" and g: "g = unat (group (objects st x))"
  shows "\<exists>st'. pool_setGroup x n st = Some st'
    \<and> pool_rep st' us ((gs(g := remove1 x (gs g)))(unat n := (gs(g := remove1 x (gs g))) (unat n) @ [x]))
    \<and> objects st' = (objects st)(x := (objects st x)\<lparr>group := n\<rparr>)
    \<and> pool_context st' = pool_context st \<and> m_iUid st' = m_iUid st"
proof -
  let ?gs1 = "gs(g := remove1 x (gs g))" and ?h = "(objects st x)\<lparr>group := n\<rparr>"
  have dl: "detect_ok (detect_links st) (m_detect_lists st) (objects st) (set us) gs"
    using rep by (simp add: pool_rep_def)
  from detect_list_remove_ok[OF dl x g] obtain st1 where st1: "detect_list_remove x st = Some st1"
    "detect_ok (detect_links st1) (m_detect_lists st1) (objects st) (set us - {x}) ?gs1"
    "unlinked (detect_links st1) x"
    "st1 = st\<lparr>detect_links := detect_links st1, m_detect_lists := m_detect_lists st1\<rparr>" by blast
  have o1: "objects st1 = objects st" by (subst st1(4)) simp
  let ?st2 = "set_object x ?h st1"
  have dl2: "detect_ok (detect_links ?st2) (m_detect_lists ?st2) (objects ?st2) (set us - {x}) ?gs1"
    using detect_ok_cong[OF st1(2), of "objects ?st2"] o1 by simp
  from detect_list_add_ok[OF dl2, of x "unat n"] st1(3) n o1 obtain st3 where
    st3: "detect_list_add x ?st2 = Some st3"
    "detect_ok (detect_links st3) (m_detect_lists st3) (objects ?st2) (insert x (set us - {x}))
       (?gs1(unat n := ?gs1 (unat n) @ [x]))"
    "st3 = ?st2\<lparr>detect_links := detect_links st3, m_detect_lists := m_detect_lists st3\<rparr>" by auto
  have f: "objects st3 = (objects st)(x := ?h)" "m_ObjectPool st3 = m_ObjectPool st"
    "update_links st3 = update_links st" "m_update_list st3 = m_update_list st"
    "m_render_list st3 = m_render_list st" "m_iUid st3 = m_iUid st" "m_statistics st3 = m_statistics st"
    "m_statistics_index st3 = m_statistics_index st" "pool_context st3 = pool_context st"
  proof -
    obtain L1 d1 where e1: "st1 = st\<lparr>detect_links := L1, m_detect_lists := d1\<rparr>"
      using st1(4) by blast
    obtain L3 d3 where e3: "st3 = ?st2\<lparr>detect_links := L3, m_detect_lists := d3\<rparr>"
      using st3(3) by blast
    show "objects st3 = (objects st)(x := ?h)" "m_ObjectPool st3 = m_ObjectPool st"
      "update_links st3 = update_links st" "m_update_list st3 = m_update_list st"
      "m_render_list st3 = m_render_list st" "m_iUid st3 = m_iUid st" "m_statistics st3 = m_statistics st"
      "m_statistics_index st3 = m_statistics_index st" "pool_context st3 = pool_context st"
      by (simp_all add: e3 e1)
  qed
  have ok: "object_ok x ?h"
    using pool_rep_object[OF rep x] by simp
  have sl: "slots_ok (m_ObjectPool st) ((objects st)(x := ?h)) (set us)"
    using slots_ok_update[OF _ x ok] rep by (simp add: pool_rep_def)
  have rl: "render_ok (m_render_list st) ((objects st)(x := ?h)) (set us)"
    using render_ok_cong[of "m_render_list st" "objects st" "set us" "(objects st)(x := ?h)"] rep
    by (simp add: pool_rep_def)
  have "insert x (set us - {x}) = set us" using x by auto
  then have "pool_rep st3 us (?gs1(unat n := ?gs1 (unat n) @ [x]))"
    using st3(2) f sl rl rep o1 by (auto simp: pool_rep_def)
  moreover have "pool_setGroup x n st = Some st3"
    using st1(1) st3(1) o1 free group_conversion[OF n] by (simp add: pool_setGroup_def)
  ultimately show ?thesis using f by blast
qed

lemma setLayer_rep:
  assumes rep: "pool_rep st us gs" and x: "x \<in> set us" and l: "\<not> is_nan l"
    and free: "\<not> m_is_rendering st"
  shows "\<exists>st'. pool_setLayer x l st = Some st' \<and> pool_rep st' us gs
    \<and> objects st' = (objects st)(x := (objects st x)\<lparr>layer := l\<rparr>)
    \<and> pool_context st' = pool_context st \<and> m_iUid st' = m_iUid st"
proof -
  let ?h = "(objects st x)\<lparr>layer := l\<rparr>"
  let ?objs = "(objects st)(x := ?h)"
  let ?rl = "set_insert (layer_lt ?objs) x (set_erase (layer_lt (objects st)) x (m_render_list st))"
  have rl: "render_ok (m_render_list st) (objects st) (set us)" using rep by (simp add: pool_rep_def)
  have e: "render_ok (set_erase (layer_lt (objects st)) x (m_render_list st)) ?objs (set us - {x})"
    by (rule render_ok_cong[OF render_ok_erase(1)[OF rl x]]) auto
  have fr: "unique_id (?objs x) \<notin> (\<lambda>i. unique_id (?objs i)) ` (set us - {x})"
    using rl x by (auto simp: render_ok_def inj_on_def)
  have "render_ok ?rl ?objs (insert x (set us - {x}))"
    by (rule render_ok_insert[OF e _ _ fr]) (use l in simp_all)
  moreover have "insert x (set us - {x}) = set us" using x by auto
  ultimately have rl': "render_ok ?rl ?objs (set us)" by simp
  have ok: "object_ok x ?h"
    using pool_rep_object[OF rep x] by simp
  have sl: "slots_ok (m_ObjectPool st) ?objs (set us)"
    using slots_ok_update[OF _ x ok] rep by (simp add: pool_rep_def)
  have dl: "detect_ok (detect_links st) (m_detect_lists st) ?objs (set us) gs"
    using detect_ok_cong[of "detect_links st" "m_detect_lists st" "objects st" "set us" gs ?objs] rep
    by (simp add: pool_rep_def)
  define st' where "st' = st\<lparr>objects := ?objs, m_render_list := ?rl\<rparr>"
  have "pool_setLayer x l st = Some st'"
    using free by (simp add: pool_setLayer_def st'_def render_list_erase_def render_list_insert_def
        set_object_def)
  moreover have "pool_rep st' us gs" using sl dl rl' rep by (auto simp: pool_rep_def st'_def)
  ultimately show ?thesis by (simp add: st'_def pool_context_defs)
qed

lemma DirtReset_rep:
  assumes rep: "pool_rep st (as @ x # bs) gs" and uid: "m_iUid st < max_unique_id"
    and free: "\<not> isLockedByDetectIntersection x st" and g: "g = unat (group (objects st x))"
  shows "\<exists>st'. DirtResetObject x st = Some st'
    \<and> pool_rep st' (as @ bs @ [x]) (gs(g := remove1 x (gs g) @ [x]))
    \<and> objects st' = (objects st)(x := (objects st x)\<lparr>unique_id := m_iUid st\<rparr>)
    \<and> pool_context st' = pool_context st \<and> m_iUid st' = m_iUid st + 1"
proof -
  let ?h = "(objects st x)\<lparr>unique_id := m_iUid st\<rparr>"
  let ?objs = "(objects st)(x := ?h)" and ?gs1 = "gs(g := remove1 x (gs g))"
  note fresh = uid_fresh[OF rep uid]
  from unlist_object[OF rep g] obtain st1 st2 where
    st1: "update_list_remove x st = Some (head_of bs, st1)"
    and st2: "detect_list_remove x (render_list_erase x st1) = Some st2"
    and ul: "represents (update_links st2) (m_update_list st2) (as @ bs)"
    and un: "unlinked (update_links st2) x" "unlinked (detect_links st2) x"
    and dl: "detect_ok (detect_links st2) (m_detect_lists st2) (objects st) (set (as @ bs)) ?gs1"
    and rl: "render_ok (m_render_list st2) (objects st) (set (as @ bs))"
    and eq2: "st2 = st\<lparr>update_links := update_links st2, m_update_list := m_update_list st2,
        detect_links := detect_links st2, m_detect_lists := m_detect_lists st2,
        m_render_list := m_render_list st2\<rparr>" by blast
  have x: "x \<notin> set (as @ bs)" using pool_rep_distinct[OF rep] by auto
  define st3 where "st3 = (set_object x ?h st2)\<lparr>m_iUid := m_iUid st + 1\<rparr>"
  have f2: "objects st2 = objects st" "m_iUid st2 = m_iUid st"
    by (subst eq2; simp)+
  have ul3: "represents (update_links st3) (m_update_list st3) (as @ bs)"
    and un3: "unlinked (update_links st3) x" using ul un by (simp_all add: st3_def)
  from update_list_add_ok[OF ul3 x un3] obtain st4 where st4: "update_list_add x st3 = Some st4"
    "represents (update_links st4) (m_update_list st4) ((as @ bs) @ [x])"
    "st4 = st3\<lparr>update_links := update_links st4, m_update_list := m_update_list st4\<rparr>" by blast
  let ?st4 = "render_list_insert x st4"
  obtain a4 b4 where e4: "st4 = st3\<lparr>update_links := a4, m_update_list := b4\<rparr>"
    using st4(3) by blast
  have f4: "objects st4 = ?objs" "detect_links st4 = detect_links st2"
    "m_detect_lists st4 = m_detect_lists st2" "m_render_list st4 = m_render_list st2"
    by (simp_all add: e4 st3_def f2)
  have dl4: "detect_ok (detect_links ?st4) (m_detect_lists ?st4) (objects ?st4) (set (as @ bs)) ?gs1"
    using detect_ok_cong[OF dl, of ?objs] x f4 by (simp add: render_list_insert_def)
  have gb: "g < LOBJPOOL_GROUPN" using pool_rep_group(1)[OF rep, of x] g by simp
  from detect_list_add_ok[OF dl4 x, of g] un(2) f4 g gb obtain st5 where
    st5: "detect_list_add x ?st4 = Some st5"
    "detect_ok (detect_links st5) (m_detect_lists st5) ?objs (insert x (set (as @ bs)))
       (?gs1(g := ?gs1 g @ [x]))"
    "st5 = ?st4\<lparr>detect_links := detect_links st5, m_detect_lists := m_detect_lists st5\<rparr>"
    by (auto simp: render_list_insert_def)
  have f5: "objects st5 = ?objs" "m_ObjectPool st5 = m_ObjectPool st"
    "update_links st5 = update_links st4" "m_update_list st5 = m_update_list st4"
    "m_render_list st5 = set_insert (layer_lt ?objs) x (m_render_list st2)" "m_iUid st5 = m_iUid st + 1"
    "m_statistics st5 = m_statistics st" "m_statistics_index st5 = m_statistics_index st"
    "pool_context st5 = pool_context st"
  proof -
    obtain a b c d e where e2: "st2 = st\<lparr>update_links := a, m_update_list := b, detect_links := c,
        m_detect_lists := d, m_render_list := e\<rparr>" using eq2 by blast
    obtain a5 b5 where e5: "st5 = ?st4\<lparr>detect_links := a5, m_detect_lists := b5\<rparr>"
      using st5(3) by blast
    show "objects st5 = ?objs" "m_ObjectPool st5 = m_ObjectPool st"
      "update_links st5 = update_links st4" "m_update_list st5 = m_update_list st4"
      "m_iUid st5 = m_iUid st + 1"
      "m_render_list st5 = set_insert (layer_lt ?objs) x (m_render_list st2)"
      "m_statistics st5 = m_statistics st" "m_statistics_index st5 = m_statistics_index st"
      "pool_context st5 = pool_context st"
      using f4 by (simp_all add: e5 e4 st3_def e2 render_list_insert_def)
  qed
  have rl4: "render_ok (m_render_list st2) ?objs (set (as @ bs))"
    by (rule render_ok_cong[OF rl]) (use x in auto)
  have "(\<lambda>i. unique_id (?objs i)) ` set (as @ bs) = (\<lambda>i. unique_id (objects st i)) ` set (as @ bs)"
    using x by (intro image_cong) auto
  then have fr: "unique_id (?objs x) \<notin> (\<lambda>i. unique_id (?objs i)) ` set (as @ bs)"
    using fresh(2) by auto
  have "\<not> is_nan (layer (?objs x))" using rep by (simp add: pool_rep_def render_ok_def)
  from render_ok_insert[OF rl4 x this fr]
  have rl5: "render_ok (set_insert (layer_lt ?objs) x (m_render_list st2)) ?objs (insert x (set (as @ bs)))" .
  have ok: "object_ok x ?h"
    using pool_rep_object[OF rep, of x] by simp
  have S: "set (as @ x # bs) = set (as @ bs @ [x])" "insert x (set (as @ bs)) = set (as @ bs @ [x])" by auto
  have sl: "slots_ok (m_ObjectPool st) ?objs (set (as @ bs @ [x]))"
    using slots_ok_update[OF _ _ ok, of "m_ObjectPool st" "objects st" "set (as @ x # bs)"] rep S
    by (simp add: pool_rep_def)
  have gs: "?gs1(g := ?gs1 g @ [x]) = gs(g := remove1 x (gs g) @ [x])" by simp
  have "\<forall>i\<in>set (as @ bs @ [x]). unique_id (?objs i) < m_iUid st + 1"
    using fresh(3,4) by auto
  then have "pool_rep st5 (as @ bs @ [x]) (gs(g := remove1 x (gs g) @ [x]))"
    using sl st4(2) st5(2) rl5 rep f5 gs S(2) by (simp add: pool_rep_def)
  moreover have "DirtResetObject x st = Some st5"
  proof -
    have "\<not> isLockedByDetectIntersection x (render_list_erase x st1)"
    proof -
      have "\<exists>L l. st1 = st\<lparr>update_links := L, m_update_list := l\<rparr>"
        using st1 by (auto simp: update_list_remove_def)
      with free show ?thesis by (auto simp: isLockedByDetectIntersection_def render_list_erase_def)
    qed
    then show ?thesis using st1 st2 st4(1) st5(1) f2 fresh(1)
      by (simp add: DirtResetObject_def st3_def[symmetric])
  qed
  ultimately show ?thesis using f5 by blast
qed

end
