(* ===== verification/PoolFrames.thy ===== *)
theory PoolFrames
  imports PoolOperations
begin

text \<open>
  The manager's loops: a frame's updates, the release of finished objects, the border and
  intersection checks, rendering and reset.  Scripts run inside the loops; what a script
  may do is a contract on the callbacks.
\<close>

subsection \<open>What a script may do\<close>

text \<open>
  \<open>extends st us st' us'\<close>: from a pool holding \<open>us\<close>, the script may have created objects (they
  are at the end of the update order, and each took at most one unique id), and may have
  changed groups, layers and all data of the objects, but released none, kept their callbacks
  and unique ids, and did not set the border or the super pause.

  The contract is asked only in pools where the unique ids do not run out while the free slots
  are filled (\<open>uid_room\<close>), so that a script that creates objects fulfils it: this is
  \<open>allocate_extends\<close>.
\<close>

definition uid_room :: "'u game_pool \<Rightarrow> nat list \<Rightarrow> bool" where
  "uid_room st us \<longleftrightarrow> unat (m_iUid st) + (pool_capacity st - length us) < unat max_unique_id"

definition extends :: "'u game_pool \<Rightarrow> nat list \<Rightarrow> 'u game_pool \<Rightarrow> nat list \<Rightarrow> bool" where
  "extends st us st' us' \<longleftrightarrow> (\<exists>gs'. pool_rep st' us' gs') \<and> (\<exists>new. us' = us @ new)
     \<and> pool_context st' = pool_context st
     \<and> unat (m_iUid st') + length us \<le> unat (m_iUid st) + length us'
     \<and> (\<forall>y\<in>set us. callbacks (objects st' y) = callbacks (objects st y)
          \<and> callbacks_count (objects st' y) = callbacks_count (objects st y)
          \<and> callbacks_capacity (objects st' y) = callbacks_capacity (objects st y)
          \<and> unique_id (objects st' y) = unique_id (objects st y))"

definition call_ok :: "(nat \<Rightarrow> 'u game_pool \<Rightarrow> 'u game_pool option) \<Rightarrow> nat \<Rightarrow> bool" where
  "call_ok call x \<longleftrightarrow> (\<forall>c st us gs. pool_rep st us gs \<and> uid_room st us \<and> x \<in> set us \<longrightarrow>
     (\<exists>st' us'. call c st = Some st' \<and> extends st us st' us'))"

lemma extends_refl: "pool_rep st us gs \<Longrightarrow> extends st us st us"
  by (auto simp: extends_def)

lemma extends_trans:
  assumes "extends st us st' us'" "extends st' us' st'' us''"
  shows "extends st us st'' us''"
proof -
  obtain new new' where new: "us' = us @ new" "us'' = us' @ new'"
    using assms by (auto simp: extends_def)
  then have "us'' = us @ (new @ new')" and sub: "set us \<subseteq> set us'" by auto
  moreover have "unat (m_iUid st'') + length us \<le> unat (m_iUid st) + length us''"
    using assms by (auto simp: extends_def)
  ultimately show ?thesis using assms sub unfolding extends_def by (metis subsetD)
qed

lemma extends_rep: "extends st us st' us' \<Longrightarrow> \<exists>gs'. pool_rep st' us' gs'"
  by (simp add: extends_def)

lemma extends_subset: "extends st us st' us' \<Longrightarrow> set us \<subseteq> set us'"
  by (auto simp: extends_def)

lemma extends_room:
  assumes "extends st us st' us'" "uid_room st us"
  shows "uid_room st' us'"
proof -
  obtain gs' where "pool_rep st' us' gs'" using extends_rep[OF assms(1)] by blast
  then have "length us' \<le> pool_capacity st'" by (rule pool_rep_bounded(2))
  moreover have "length us \<le> length us'" "pool_capacity st' = pool_capacity st"
    "unat (m_iUid st') + length us \<le> unat (m_iUid st) + length us'"
    using assms(1) by (auto simp: extends_def pool_context_def)
  ultimately show ?thesis using assms(2) by (simp add: uid_room_def)
qed

lemma uid_room_simps [simp]:
  "uid_room (st\<lparr>external := u\<rparr>) us = uid_room st us"
  "uid_room (st\<lparr>m_is_detecting_intersect := d\<rparr>) us = uid_room st us"
  "uid_room (st\<lparr>m_LockObjectA := a\<rparr>) us = uid_room st us"
  "uid_room (st\<lparr>m_LockObjectB := b\<rparr>) us = uid_room st us"
  "uid_room (st\<lparr>objects := objs\<rparr>) us = uid_room st us"
  "uid_room (st\<lparr>m_statistics := sl\<rparr>) us = uid_room st us"
  by (simp_all add: uid_room_def pool_capacity_def)

lemma extends_object:
  assumes "pool_rep st us gs" "x \<in> set us" "object_ok x g" "same_place (objects st x) g"
    "callbacks g = callbacks (objects st x)" "callbacks_count g = callbacks_count (objects st x)"
    "callbacks_capacity g = callbacks_capacity (objects st x)"
  shows "extends st us (set_object x g st) us"
  using pool_rep_set_object[OF assms(1-4)] assms(4-7)
  by (auto simp: extends_def same_place_def)

lemma extends_external: "pool_rep st us gs \<Longrightarrow> extends st us (st\<lparr>external := u\<rparr>) us"
  by (auto simp: extends_def)

subsection \<open>Dispatch\<close>

lemma callback_at_rep:
  assumes "callbacks_rep g cs" "\<not> isDirectCallbacks g" "i < length cs"
  shows "callback_at g i = Some (cs ! i)"
  using assms(1)
proof (cases rule: callbacks_rep_cases)
  case (array cells)
  then have "cells ! i = Some (cs ! i)" using assms(3) by (metis nth_take nth_map)
  then show ?thesis using array assms(3) by (simp add: callback_at_def)
qed (use assms in \<open>auto simp: isDirectCallbacks_def\<close>)

lemma head_of_upt: "head_of [i..<n] = (if i < n then Some i else None)"
  by (simp add: upt_rec)

text \<open>
  Dispatching calls the registered callbacks, each once and in order, when the calls keep an
  invariant that fixes the callback array.
\<close>

lemma dispatch_object_inv:
  assumes start: "I st" and step: "\<And>c s. I s \<Longrightarrow> \<exists>s'. call c s = Some s' \<and> I s'"
    and fixed: "\<And>s. I s \<Longrightarrow> callbacks (objects s x) = callbacks (objects st x)
      \<and> callbacks_count (objects s x) = callbacks_count (objects st x)
      \<and> callbacks_capacity (objects s x) = callbacks_capacity (objects st x)"
    and cs: "callbacks_rep (objects st x) cs"
  shows "\<exists>st'. dispatch_object call x st = Some st' \<and> fold_option call cs st = Some st' \<and> I st'"
proof (cases "isDirectCallbacks (objects st x)")
  case True
  with cs obtain c where c: "direct_callback (objects st x) = Some c" "cs = [c]"
    by (cases rule: callbacks_rep_cases) (auto simp: isDirectCallbacks_def direct_callback_def)
  then have "dispatch_object call x st = call c st" using True by (simp add: dispatch_object_def)
  moreover have "fold_option call cs st = call c st" using c(2) by (simp split: option.split)
  ultimately show ?thesis using step[OF start] by metis
next
  case False
  let ?body = "\<lambda>i s. case callback_at (objects s x) i of None \<Rightarrow> None
    | Some c \<Rightarrow> map_option (\<lambda>s'. (if Suc i < callbacks_count (objects s' x) then Some (Suc i) else None, s'))
        (call c s)"
  let ?n = "length cs"
  let ?I = "\<lambda>is s. (\<exists>i\<le>?n. is = [i..<?n] \<and> fold_option call cs st = fold_option call (drop i cs) s) \<and> I s"
  have n: "callbacks_count (objects st x) = ?n" using cs by (simp add: callbacks_rep_def)
  have "\<exists>st'. walk ?body (head_of [0..<?n]) st = Some st' \<and> ?I [] st'"
  proof (rule walk_total[where I = ?I and m = "\<lambda>is s. length is"])
    show "?I [0..<?n] st" using start by auto
  next
    fix i is' s
    assume "?I (i # is') s"
    then obtain j where j: "i # is' = [j..<?n]" and f: "fold_option call cs st = fold_option call (drop j cs) s"
      and inv: "I s" by blast
    have i: "i = j" "i < ?n" "is' = [Suc i..<?n]"
      using j by (auto simp: upt_eq_Cons_conv dest!: sym[of "i # is'"])
    have same: "callbacks_rep (objects s x) cs" "\<not> isDirectCallbacks (objects s x)"
      using fixed[OF inv] cs False by (auto simp: callbacks_rep_def isDirectCallbacks_def)
    obtain s' where s': "call (cs ! i) s = Some s'" "I s'" using step[OF inv] by blast
    have "callbacks_count (objects s' x) = ?n" using fixed[OF s'(2)] n by simp
    then have b: "?body i s = Some (head_of is', s')"
      using callback_at_rep[OF same i(2)] s'(1) i(3) by (simp add: head_of_upt)
    have "drop j cs = cs ! i # drop (Suc i) cs" using i by (simp add: Cons_nth_drop_Suc)
    then have "fold_option call cs st = fold_option call (drop (Suc i) cs) s'" using f s'(1) by simp
    then have "?I is' s'" using i(2,3) s'(2) by (intro conjI exI[of _ "Suc i"]) auto
    with b show "\<exists>xs' st'. ?body i s = Some (head_of xs', st') \<and> ?I xs' st' \<and> length xs' < length (i # is')"
      by (intro exI[of _ is'] exI[of _ s']) simp
  qed
  with n obtain st' where "dispatch_object call x st = Some st'" "?I [] st'"
    using False by (auto simp: dispatch_object_def head_of_upt)
  moreover have "drop i cs = []" if "[] = [i..<?n]" for i
    using arg_cong[OF that, of length] by simp
  ultimately show ?thesis by (metis fold_option.simps(1))
qed

lemma dispatch_object_fold:
  assumes call: "call_ok call x" and rep: "pool_rep st us gs" and room: "uid_room st us"
    and x: "x \<in> set us" and cs: "callbacks_rep (objects st x) cs"
  shows "\<exists>st' us'. dispatch_object call x st = Some st' \<and> fold_option call cs st = Some st'
    \<and> extends st us st' us'"
proof -
  have "\<exists>st'. dispatch_object call x st = Some st' \<and> fold_option call cs st = Some st'
      \<and> (\<exists>us'. extends st us st' us')"
  proof (rule dispatch_object_inv[OF _ _ _ cs])
    fix c s
    assume "\<exists>us'. extends st us s us'"
    then obtain us' gs' where ex: "extends st us s us'" and r: "pool_rep s us' gs'"
      using extends_rep by blast
    have "x \<in> set us'" using extends_subset[OF ex] x by blast
    then obtain s' us'' where "call c s = Some s'" "extends s us' s' us''"
      using call r extends_room[OF ex room] unfolding call_ok_def by metis
    then show "\<exists>s'. call c s = Some s' \<and> (\<exists>us'. extends st us s' us')"
      using extends_trans[OF ex] by blast
  qed (use extends_refl[OF rep] x in \<open>auto simp: extends_def\<close>)
  then show ?thesis by blast
qed

lemma dispatch_object_ok:
  assumes "call_ok call x" "pool_rep st us gs" "uid_room st us" "x \<in> set us"
  shows "\<exists>st' us'. dispatch_object call x st = Some st' \<and> extends st us st' us'"
proof -
  obtain cs where "callbacks_rep (objects st x) cs"
    using pool_rep_object[OF assms(2,4)] by (auto simp: object_ok_def)
  from dispatch_object_fold[OF assms this] show ?thesis by blast
qed

lemma extends_callbacks:
  assumes "extends st us s us'" "x \<in> set us"
  shows "callbacks_rep (objects s x) cs = callbacks_rep (objects st x) cs"
  using assms by (auto simp: extends_def callbacks_rep_def isDirectCallbacks_def)

lemma extends_uid: "extends st us s us' \<Longrightarrow> x \<in> set us \<Longrightarrow> unique_id (objects s x) = unique_id (objects st x)"
  by (auto simp: extends_def)

text \<open>
  Two loops over the same work, of which the second is described without the code's: they
  agree when every turn does.
\<close>

lemma fold_option_agree:
  assumes "I st"
    and "\<And>r s. r \<in> set xs \<Longrightarrow> I s \<Longrightarrow> \<exists>s'. f r s = Some s' \<and> g (h r) s = Some s' \<and> I s'"
  shows "\<exists>st'. fold_option f xs st = Some st' \<and> fold_option g (map h xs) st = Some st' \<and> I st'"
  using assms
proof (induction xs arbitrary: st)
  case (Cons x xs)
  from Cons.prems(2)[of x st] Cons.prems(1) obtain s' where
    "f x st = Some s'" "g (h x) st = Some s'" "I s'" by auto
  moreover from Cons.IH[OF this(3)] Cons.prems(2) obtain s'' where
    "fold_option f xs s' = Some s''" "fold_option g (map h xs) s' = Some s''" "I s''" by auto
  ultimately show ?case by simp
qed simp

text \<open>Allocating is something a script may do.\<close>

lemma allocate_extends:
  assumes M: "manager_total E" and rep: "pool_rep st us gs" and room: "uid_room st us"
  shows "\<exists>r st' us'. allocateWithCallbacks E cb st = Some (r, st') \<and> extends st us st' us'"
proof (cases "length us = pool_capacity st")
  case True
  then show ?thesis using allocate_full[OF rep] extends_refl[OF rep] by blast
next
  case False
  then have "length us < pool_capacity st" using pool_rep_bounded(2)[OF rep] by simp
  moreover have lt: "m_iUid st < max_unique_id" using room by (simp add: uid_room_def word_less_nat_alt)
  ultimately obtain i st' where a: "allocateWithCallbacks E cb st = Some (Some i, st')" "i \<notin> set us"
    "pool_rep st' (us @ [i]) (gs(0 := gs 0 @ [i]))" "pool_context st' = pool_context st"
    "objects st' = (objects st)(i := new_object i (m_iUid st) cb (objects st i))"
    "m_iUid st' = m_iUid st + 1" using allocate_room[OF rep _ _ M, of cb] by blast
  have "unat (m_iUid st + 1) \<le> unat (m_iUid st) + 1" by (simp add: unat_word_ariths del: unat_plus_simple)
  then have "extends st us st' (us @ [i])" using a by (auto simp: extends_def)
  with a(1) show ?thesis by blast
qed

subsection \<open>Loops over the update list\<close>

text \<open>
  A loop over all objects ends when every turn does no more than a script may: new objects
  are visited too, but the pool's capacity bounds them.  Every object that is in the pool
  afterwards has been visited exactly once, in the order of the list.  \<open>turn\<close> describes a
  turn; the loop's body need agree with it only where the body runs.
\<close>

definition visit_agrees :: "(nat \<Rightarrow> 'u game_pool \<Rightarrow> 'u game_pool option)
    \<Rightarrow> (nat \<Rightarrow> 'u game_pool \<Rightarrow> 'u game_pool option) \<Rightarrow> bool" where
  "visit_agrees body turn \<longleftrightarrow> (\<forall>x st us gs. pool_rep st us gs \<and> uid_room st us \<and> x \<in> set us \<longrightarrow>
     (\<exists>st' us'. body x st = Some st' \<and> turn x st = Some st' \<and> extends st us st' us'))"

definition visit_ok :: "(nat \<Rightarrow> 'u game_pool \<Rightarrow> 'u game_pool option) \<Rightarrow> bool" where
  "visit_ok body \<longleftrightarrow> (\<forall>x st us gs. pool_rep st us gs \<and> uid_room st us \<and> x \<in> set us \<longrightarrow>
     (\<exists>st' us'. body x st = Some st' \<and> extends st us st' us'))"

lemma extends_capacity: "extends st us st' us' \<Longrightarrow> pool_capacity st' = pool_capacity st"
  by (simp add: extends_def pool_context_def)

lemma for_each_object_turns:
  fixes body :: "nat \<Rightarrow> 'u game_pool \<Rightarrow> 'u game_pool option"
  assumes body: "visit_agrees body turn" and rep: "pool_rep st us gs" and room: "uid_room st us"
  shows "\<exists>st' us'. for_each_object body st = Some st' \<and> fold_option turn us' st = Some st'
    \<and> extends st us st' us'"
proof -
  let ?step = "\<lambda>x s. map_option (\<lambda>s'. (update_next s' x, s')) (body x s)"
  let ?I = "\<lambda>rest s. \<exists>seen. extends st us s (seen @ rest) \<and> fold_option turn seen st = Some s"
  have "\<exists>st'. walk ?step (head_of us) st = Some st' \<and> ?I [] st'"
  proof (rule walk_total[where I = ?I and m = "\<lambda>rest s. pool_capacity s - (card (pool_live (m_ObjectPool s)) - length rest)"])
    show "?I us st" using extends_refl[OF rep] by (intro exI[of _ "[]"]) simp
  next
    fix x rest s
    assume "?I (x # rest) s"
    then obtain seen where ex: "extends st us s (seen @ x # rest)" and f: "fold_option turn seen st = Some s"
      by blast
    then obtain gs' where rep': "pool_rep s (seen @ x # rest) gs'" using extends_rep by blast
    moreover have "x \<in> set (seen @ x # rest)" by simp
    ultimately obtain s' us' where s': "body x s = Some s'" "extends s (seen @ x # rest) s' us'"
      and t: "turn x s = Some s'"
      using body extends_room[OF ex room] unfolding visit_agrees_def by metis
    then obtain new where us': "us' = (seen @ [x]) @ (rest @ new)" by (auto simp: extends_def)
    obtain gs'' where rep'': "pool_rep s' (seen @ x # (rest @ new)) gs''"
      using extends_rep[OF s'(2)] us' by auto
    have "update_next s' x = head_of (rest @ new)" by (rule pool_rep_next[OF rep''])
    moreover have "?I (rest @ new) s'"
      using extends_trans[OF ex s'(2)] us' f t
      by (intro exI[of _ "seen @ [x]"]) (simp add: fold_option_append)
    moreover have "pool_capacity s' - (card (pool_live (m_ObjectPool s')) - length (rest @ new))
        < pool_capacity s - (card (pool_live (m_ObjectPool s)) - length (x # rest))"
    proof -
      have "card (pool_live (m_ObjectPool s)) = length (seen @ x # rest)"
        using pool_rep_live[OF rep'] pool_rep_distinct[OF rep'] by (metis distinct_card)
      moreover have "card (pool_live (m_ObjectPool s')) = length (seen @ x # (rest @ new))"
        using pool_rep_live[OF rep''] pool_rep_distinct[OF rep''] by (metis distinct_card)
      moreover have "length (seen @ x # (rest @ new)) \<le> pool_capacity s'"
        by (rule pool_rep_bounded(2)[OF rep''])
      moreover have "pool_capacity s' = pool_capacity s" by (rule extends_capacity[OF s'(2)])
      ultimately show ?thesis by simp
    qed
    ultimately show "\<exists>xs' st'. ?step x s = Some (head_of xs', st') \<and> ?I xs' st'
        \<and> pool_capacity st' - (card (pool_live (m_ObjectPool st')) - length xs')
          < pool_capacity s - (card (pool_live (m_ObjectPool s)) - length (x # rest))"
      using s'(1) by (intro exI[of _ "rest @ new"] exI[of _ s']) simp
  qed
  then show ?thesis using pool_rep_first[OF rep] by (auto simp: for_each_object_def)
qed

lemma for_each_object_total:
  assumes "visit_ok body" "pool_rep st us gs" "uid_room st us"
  shows "\<exists>st' us'. for_each_object body st = Some st' \<and> extends st us st' us'"
proof -
  have "visit_agrees body body" using assms(1) by (simp add: visit_ok_def visit_agrees_def)
  from for_each_object_turns[OF this assms(2,3)] show ?thesis by blast
qed

text \<open>
  A loop whose body changes the visited object by \<open>f\<close> and otherwise only the external
  state: afterwards every object has been changed once.
\<close>

lemma for_each_object_map:
  fixes body :: "nat \<Rightarrow> 'u game_pool \<Rightarrow> 'u game_pool option"
  assumes rep: "pool_rep st us gs"
    and body: "\<forall>x s gs. pool_rep s us gs \<and> x \<in> set us \<and> objects s x = objects st x \<longrightarrow>
      (\<exists>u. body x s = Some ((set_object x (f (objects s x)) s)\<lparr>external := u\<rparr>))"
    and ok: "\<forall>x g. object_ok x g \<longrightarrow> object_ok x (f g) \<and> same_place g (f g)"
  shows "\<exists>st'. for_each_object body st = Some st' \<and> pool_rep st' us gs
    \<and> objects st' = (\<lambda>i. if i \<in> set us then f (objects st i) else objects st i)
    \<and> pool_context st' = pool_context st \<and> m_iUid st' = m_iUid st"
proof -
  let ?step = "\<lambda>x s. map_option (\<lambda>s'. (update_next s' x, s')) (body x s)"
  let ?I = "\<lambda>rest (s :: 'u game_pool). \<exists>seen. us = seen @ rest \<and> pool_rep s us gs
    \<and> objects s = (\<lambda>i. if i \<in> set seen then f (objects st i) else objects st i)
    \<and> pool_context s = pool_context st \<and> m_iUid s = m_iUid st"
  have "\<exists>st'. walk ?step (head_of us) st = Some st' \<and> ?I [] st'"
  proof (rule walk_total[where I = ?I and m = "\<lambda>rest s. length rest"])
    show "?I us st" using rep by simp
  next
    fix x rest s
    assume "?I (x # rest) s"
    then obtain seen where us: "us = seen @ x # rest" and s: "pool_rep s us gs"
      "objects s = (\<lambda>i. if i \<in> set seen then f (objects st i) else objects st i)"
      "pool_context s = pool_context st" "m_iUid s = m_iUid st" by blast
    have x: "x \<in> set us" "x \<notin> set seen" using us pool_rep_distinct[OF rep] by auto
    obtain u where b: "body x s = Some ((set_object x (f (objects s x)) s)\<lparr>external := u\<rparr>)"
    proof -
      have "objects s x = objects st x" using s(2) x(2) by simp
      with body s(1) x(1) that show ?thesis by blast
    qed
    let ?s = "(set_object x (f (objects s x)) s)\<lparr>external := u\<rparr>"
    have rep': "pool_rep ?s us gs"
      using pool_rep_set_object[OF s(1) x(1)] ok pool_rep_object[OF s(1) x(1)] by simp
    then have "update_next ?s x = head_of rest" using us pool_rep_next by blast
    moreover have "?I rest ?s"
      using us s rep' x by (intro exI[of _ "seen @ [x]"]) (auto simp: fun_eq_iff)
    ultimately show "\<exists>xs' st'. ?step x s = Some (head_of xs', st') \<and> ?I xs' st'
        \<and> length xs' < length (x # rest)"
      using b by (intro exI[of _ rest] exI[of _ ?s]) simp
  qed
  then show ?thesis using pool_rep_first[OF rep] by (auto simp: for_each_object_def)
qed

end
