(* ===== verification/PoolLoops.thy ===== *)
theory PoolLoops
  imports PoolFrames
begin

text \<open>
  The frame functions of the manager: movement, release of finished objects, reset, the
  border and intersection checks and rendering, on top of the loop rules of \<open>PoolFrames\<close>.
\<close>

subsection \<open>Updates that keep an object's place\<close>

definition keeps :: "game_object \<Rightarrow> game_object \<Rightarrow> bool" where
  "keeps g g' \<longleftrightarrow> same_place g g' \<and> callbacks g' = callbacks g
     \<and> callbacks_count g' = callbacks_count g \<and> callbacks_capacity g' = callbacks_capacity g
     \<and> obj_id g' = obj_id g \<and> status g' = status g \<and> res g' = res g \<and> ps g' = ps g"

lemma keeps_ok: "object_ok x g \<Longrightarrow> keeps g g' \<Longrightarrow> object_ok x g'"
  by (auto simp: keeps_def object_ok_def resource_inv_def callbacks_rep_def)

lemma keeps_place: "keeps g g' \<Longrightarrow> same_place g g'"
  by (simp add: keeps_def)

lemma update_motion_kept: "keeps g (update_motion F g)"
  by (simp add: keeps_def same_place_def) (simp add: update_motion_def set_motion_limit_def Let_def)

lemma rot_kept: "keeps g h \<Longrightarrow> keeps g (h\<lparr>rot := r\<rparr>)"
  by (simp add: keeps_def same_place_def)

lemma record_last_kept: "keeps g (record_last F g)"
  by (simp add: keeps_def same_place_def) (simp add: record_last_def Let_def)

lemma timers_kept: "keeps g h \<Longrightarrow> keeps g (h\<lparr>timer := t, ani_timer := a\<rparr>)"
  by (simp add: keeps_def same_place_def)

lemma keeps_refl: "keeps g g"
  by (simp add: keeps_def same_place_def)

definition motion_v2 :: "float_ops \<Rightarrow> game_object \<Rightarrow> game_object" where
  "motion_v2 F self =
     (let self1 = update_motion F self;
          ddx = fsub F (pos_x self1) (last_x self1);
          ddy = fsub F (pos_y self1) (last_y self1)
      in if navi self1 \<and> last_xy_touched self1 \<and> moved ddx ddy
         then self1\<lparr>rot := fatan2 F ddy ddx\<rparr> else self1)"

lemma motion_v2_kept: "keeps g (motion_v2 F g)"
  by (simp add: motion_v2_def Let_def update_motion_kept rot_kept)

lemma UpdateV2_eq:
  "game_object_UpdateV2 F act g = map_option (\<lambda>cmds. (motion_v2 F g, cmds)) (update_particles act (motion_v2 F g))"
  by (simp add: game_object_UpdateV2_def motion_v2_def Let_def)

lemma aged_kept:
  "keeps g (game_object_UpdateTimer g)" "keeps g (game_object_UpdateLastV2 F g)"
  "keeps g (game_object_UpdateLast F g)"
  by (simp_all add: game_object_UpdateTimer_def game_object_UpdateLastV2_def
      game_object_UpdateLast_def Let_def timers_kept keeps_refl record_last_kept rot_kept)

text \<open>The two movement updates, as changes of the pool.\<close>

lemma apply_update_motion:
  assumes "pool_rep st us gs" "x \<in> set us"
  shows "\<exists>u. apply_update E game_object_Update x st
      = Some ((set_object x (update_motion (float E) (objects st x)) st)\<lparr>external := u\<rparr>)"
    and "\<exists>u. apply_update E game_object_UpdateV2 x st
      = Some ((set_object x (motion_v2 (float E) (objects st x)) st)\<lparr>external := u\<rparr>)"
proof -
  have ok: "object_ok x (objects st x)" by (rule pool_rep_object[OF assms])
  have "resource_inv (update_motion (float E) (objects st x))"
    "resource_inv (motion_v2 (float E) (objects st x))"
    using keeps_ok[OF ok update_motion_kept] keeps_ok[OF ok motion_v2_kept]
    by (simp_all add: object_ok_def)
  then obtain a b where
    "update_particles (particle_actived E (external st)) (update_motion (float E) (objects st x)) = Some a"
    "update_particles (particle_actived E (external st)) (motion_v2 (float E) (objects st x)) = Some b"
    using update_particles_total by blast
  then show "\<exists>u. apply_update E game_object_Update x st
      = Some ((set_object x (update_motion (float E) (objects st x)) st)\<lparr>external := u\<rparr>)"
    "\<exists>u. apply_update E game_object_UpdateV2 x st
      = Some ((set_object x (motion_v2 (float E) (objects st x)) st)\<lparr>external := u\<rparr>)"
    by (auto simp: apply_update_def game_object_Update_def UpdateV2_eq Let_def)
qed

lemma extends_then_external: "extends st us st' us' \<Longrightarrow> extends st us (st'\<lparr>external := u\<rparr>) us'"
  by (auto simp: extends_def)

lemma extends_keeps:
  assumes "pool_rep st us gs" "x \<in> set us" "keeps (objects st x) g"
  shows "extends st us ((set_object x g st)\<lparr>external := u\<rparr>) us"
proof -
  have "extends st us (set_object x g st) us"
    using assms keeps_ok[OF pool_rep_object[OF assms(1,2)] assms(3)]
    by (intro extends_object) (auto simp: keeps_def)
  then show ?thesis by (rule extends_then_external)
qed

lemma UpdateSuperPause_simps:
  assumes "UpdateSuperPause st = (t, st')"
  shows "pool_rep st' us gs = pool_rep st us gs" "objects st' = objects st" "t = m_nextsuperpause st"
    "m_superpause st' = m_nextsuperpause st" "m_update_list st' = m_update_list st"
    "m_nextsuperpause st' = (if 0 <s m_nextsuperpause st then m_nextsuperpause st - 1 else m_nextsuperpause st)"
    "pool_capacity st' = pool_capacity st" "m_iUid st' = m_iUid st" "uid_room st' us = uid_room st us"
  using assms by (auto simp: UpdateSuperPause_def Let_def pool_capacity_def uid_room_def split: if_splits)

subsection \<open>Batches\<close>

text \<open>The manager callbacks around a batch, as what they do to the external state.\<close>

lemma before_batch:
  assumes "manager_total E"
  shows "\<exists>u. fold_option (onBeforeBatch E b) (m_callbacks st) (external st) = Some u
    \<and> dispatchOnBeforeBatch E b st = Some (st\<lparr>external := u\<rparr>)"
  using dispatch_managers(3)[OF assms, of b st]
  by (auto simp: dispatchOnBeforeBatch_def dispatch_manager_def)

lemma after_batch:
  assumes "manager_total E" "m_callbacks st = cs"
  shows "\<exists>u. fold_option (onAfterBatch E b) cs (external st) = Some u
    \<and> dispatchOnAfterBatch E b st = Some (st\<lparr>external := u\<rparr>)"
  using dispatch_managers(4)[OF assms(1), of b st] assms(2)
  by (auto simp: dispatchOnAfterBatch_def dispatch_manager_def)

subsection \<open>Movement with scripts\<close>

definition update_scripts_ok :: "'u environment \<Rightarrow> bool" where
  "update_scripts_ok E \<longleftrightarrow> manager_total E \<and> (\<forall>x. call_ok (\<lambda>c. onUpdate E c x) x)"

lemma call_update_visit:
  assumes "update_scripts_ok E" "pool_rep st us gs" "uid_room st us" "x \<in> set us"
  shows "\<exists>st' us'. call_update E x st = Some st' \<and> extends st us st' us'"
proof (cases "has_callback_update (features (objects st x))")
  case True
  then show ?thesis
    using dispatch_object_ok[of "\<lambda>c. onUpdate E c x" x st us gs] assms
    by (simp add: call_update_def dispatchOnUpdate_def update_scripts_ok_def)
next
  case False
  then show ?thesis using extends_refl[OF assms(2)] by (auto simp: call_update_def)
qed

text \<open>
  One object's turn of a frame, without the dispatch loop: unless the super pause holds it, the
  callbacks registered at that moment are called in order, then the object moves.
\<close>

definition frame_turn :: "'u environment \<Rightarrow> 64 word \<Rightarrow> nat \<Rightarrow> 'u game_pool \<Rightarrow> 'u game_pool option" where
  "frame_turn E t x st =
     (if 0 <s t \<and> \<not> ignore_super_pause (objects st x) then Some st
      else Option.bind
        (if has_callback_update (features (objects st x)) then
           Option.bind (dispatch_targets (objects st x)) (\<lambda>cs. fold_option (\<lambda>c. onUpdate E c x) cs st)
         else Some st)
        (apply_update E game_object_Update x))"

lemma call_update_targets:
  assumes "update_scripts_ok E" "pool_rep st us gs" "uid_room st us" "x \<in> set us"
  shows "call_update E x st = (if has_callback_update (features (objects st x)) then
      Option.bind (dispatch_targets (objects st x)) (\<lambda>cs. fold_option (\<lambda>c. onUpdate E c x) cs st)
    else Some st)"
proof -
  obtain cs where cs: "callbacks_rep (objects st x) cs"
    using pool_rep_object[OF assms(2,4)] by (auto simp: object_ok_def)
  have "call_ok (\<lambda>c. onUpdate E c x) x" using assms(1) by (simp add: update_scripts_ok_def)
  from dispatch_object_fold[OF this assms(2-4) cs] show ?thesis
    by (auto simp: call_update_def dispatchOnUpdate_def dispatch_targets_rep[OF cs])
qed

lemma legacy_visit:
  fixes E :: "'u environment"
  assumes "update_scripts_ok E"
  shows "visit_agrees (\<lambda>x st. if paused t (objects st x) then Some st
          else Option.bind (call_update E x st) (apply_update E game_object_Update x)) (frame_turn E t)"
  unfolding visit_agrees_def
proof (intro allI impI)
  fix x us gs and st :: "'u game_pool"
  assume a: "pool_rep st us gs \<and> uid_room st us \<and> x \<in> set us"
  obtain st1 us1 where c: "call_update E x st = Some st1" "extends st us st1 us1"
    using call_update_visit[OF assms] a by blast
  then obtain gs1 where r1: "pool_rep st1 us1 gs1" using extends_rep by blast
  have x1: "x \<in> set us1" using c(2) a by (auto simp: extends_def)
  obtain u where "apply_update E game_object_Update x st1
      = Some ((set_object x (update_motion (float E) (objects st1 x)) st1)\<lparr>external := u\<rparr>)"
    using apply_update_motion(1)[OF r1 x1] by blast
  moreover have "extends st us ((set_object x (update_motion (float E) (objects st1 x)) st1)\<lparr>external := u\<rparr>) us1"
    by (rule extends_trans[OF c(2) extends_keeps[OF r1 x1 update_motion_kept]])
  ultimately have "\<exists>st' us'. (if paused t (objects st x) then Some st
      else Option.bind (call_update E x st) (apply_update E game_object_Update x)) = Some st'
      \<and> extends st us st' us'"
    using c(1) extends_refl[of st us gs] a by auto
  moreover have "(if paused t (objects st x) then Some st
      else Option.bind (call_update E x st) (apply_update E game_object_Update x)) = frame_turn E t x st"
    using call_update_targets[OF assms, of st us gs x] a by (simp add: frame_turn_def paused_def)
  ultimately show "\<exists>st' us'. (if paused t (objects st x) then Some st
      else Option.bind (call_update E x st) (apply_update E game_object_Update x)) = Some st'
      \<and> frame_turn E t x st = Some st' \<and> extends st us st' us'" by metis
qed

lemma callback_visit:
  assumes "update_scripts_ok E"
  shows "visit_ok (\<lambda>x st. if paused t (objects st x) then Some st else call_update E x st)"
  unfolding visit_ok_def using call_update_visit[OF assms] extends_refl by metis

lemma motion_visit:
  fixes E :: "'u environment"
  shows "visit_ok (\<lambda>x st. if paused t (objects st x) then Some st
     else apply_update E game_object_UpdateV2 x st)"
  unfolding visit_ok_def
proof (intro allI impI)
  fix x us gs and st :: "'u game_pool"
  assume a: "pool_rep st us gs \<and> uid_room st us \<and> x \<in> set us"
  then obtain u where "apply_update E game_object_UpdateV2 x st
      = Some ((set_object x (motion_v2 (float E) (objects st x)) st)\<lparr>external := u\<rparr>)"
    using apply_update_motion(2) by blast
  with a extends_keeps[of st us gs x, OF _ _ motion_v2_kept] extends_refl[of st us gs]
  show "\<exists>st' us'. (if paused t (objects st x) then Some st
      else apply_update E game_object_UpdateV2 x st) = Some st' \<and> extends st us st' us'" by auto
qed

lemma updateMovementsLegacy_turns:
  assumes E: "update_scripts_ok E" and rep: "pool_rep st us gs" and room: "uid_room st us"
  shows "\<exists>u st2 st3 new v. fold_option (onBeforeBatch E BatchUpdate) (m_callbacks st) (external st) = Some u
    \<and> st2 = st\<lparr>external := u, m_superpause := m_nextsuperpause st,
        m_nextsuperpause := (if 0 <s m_nextsuperpause st then m_nextsuperpause st - 1 else m_nextsuperpause st)\<rparr>
    \<and> fold_option (frame_turn E (m_nextsuperpause st)) (us @ new) st2 = Some st3
    \<and> extends st2 us st3 (us @ new)
    \<and> fold_option (onAfterBatch E BatchUpdate) (m_callbacks st) (external st3) = Some v
    \<and> updateMovementsLegacy E st = Some (st3\<lparr>external := v\<rparr>)"
proof -
  have M: "manager_total E" using E by (simp add: update_scripts_ok_def)
  note batch = dispatchOnBeforeBatch_def dispatchOnAfterBatch_def dispatch_manager_def
  obtain u where b: "dispatchOnBeforeBatch E BatchUpdate st = Some (st\<lparr>external := u\<rparr>)"
    and u: "fold_option (onBeforeBatch E BatchUpdate) (m_callbacks st) (external st) = Some u"
    using before_batch[OF M] by blast
  define st2 where "st2 = st\<lparr>external := u, m_superpause := m_nextsuperpause st,
        m_nextsuperpause := (if 0 <s m_nextsuperpause st then m_nextsuperpause st - 1 else m_nextsuperpause st)\<rparr>"
  have p: "UpdateSuperPause (st\<lparr>external := u\<rparr>) = (m_nextsuperpause st, st2)"
    by (simp add: UpdateSuperPause_def st2_def Let_def)
  have "pool_rep st2 us gs" "uid_room st2 us" using rep room by (simp_all add: st2_def uid_room_def pool_capacity_def)
  from for_each_object_turns[OF legacy_visit[OF E] this] obtain st3 us' where
    l: "for_each_object (\<lambda>x st'. if paused (m_nextsuperpause st) (objects st' x) then Some st'
          else Option.bind (call_update E x st') (apply_update E game_object_Update x)) st2 = Some st3"
    "fold_option (frame_turn E (m_nextsuperpause st)) us' st2 = Some st3"
    "extends st2 us st3 us'" by blast
  obtain new where new: "us' = us @ new" using l(3) by (auto simp: extends_def)
  have "m_callbacks st3 = m_callbacks st" using l(3) by (simp add: extends_def pool_context_def st2_def)
  from after_batch[OF M this] obtain v where
    v: "fold_option (onAfterBatch E BatchUpdate) (m_callbacks st) (external st3) = Some v"
    and a: "dispatchOnAfterBatch E BatchUpdate st3 = Some (st3\<lparr>external := v\<rparr>)" by blast
  have "updateMovementsLegacy E st = Some (st3\<lparr>external := v\<rparr>)"
    using b p l(1) a by (simp add: updateMovementsLegacy_def)
  then show ?thesis using u l(2,3) new v st2_def
    by - (rule exI[of _ u], rule exI[of _ st2], rule exI[of _ st3], rule exI[of _ new], rule exI[of _ v], simp)
qed

lemma updateMovements_total:
  assumes E: "update_scripts_ok E" and rep: "pool_rep st us gs" and room: "uid_room st us"
  shows "\<exists>st' us'. updateMovements E st = Some st' \<and> extends st us st' us'"
proof -
  have M: "manager_total E" using E by (simp add: update_scripts_ok_def)
  obtain u where b: "dispatchOnBeforeBatch E BatchUpdate st = Some (st\<lparr>external := u\<rparr>)"
    using dispatch_managers(3)[OF M] by blast
  let ?t = "m_superpause st"
  have "pool_rep (st\<lparr>external := u\<rparr>) us gs" "uid_room (st\<lparr>external := u\<rparr>) us" using rep room by simp_all
  from for_each_object_total[OF callback_visit[OF E] this] obtain st2 us2 where
    l: "for_each_object (\<lambda>x st. if paused ?t (objects st x) then Some st else call_update E x st)
          (st\<lparr>external := u\<rparr>) = Some st2" "extends (st\<lparr>external := u\<rparr>) us st2 us2" by blast
  obtain v where a: "dispatchOnAfterBatch E BatchUpdate st2 = Some (st2\<lparr>external := v\<rparr>)"
    using dispatch_managers(4)[OF M] by blast
  obtain gs2 where r2: "pool_rep (st2\<lparr>external := v\<rparr>) us2 gs2" using extends_rep[OF l(2)] by auto
  moreover have "uid_room (st2\<lparr>external := v\<rparr>) us2" using extends_room[OF l(2)] room by simp
  ultimately obtain st3 us3 where
    m: "for_each_object (\<lambda>x st. if paused ?t (objects st x) then Some st
          else apply_update E game_object_UpdateV2 x st) (st2\<lparr>external := v\<rparr>) = Some st3"
    "extends (st2\<lparr>external := v\<rparr>) us2 st3 us3" using for_each_object_total[OF motion_visit] by blast
  have "updateMovements E st = Some st3"
    using b l(1) a m(1) by (simp add: updateMovements_def)
  moreover have "extends st us st2 us2"
    by (rule extends_trans[OF extends_external[OF rep] l(2)])
  then have "extends st us (st2\<lparr>external := v\<rparr>) us2"
    by (rule extends_then_external)
  ultimately show ?thesis using extends_trans[OF _ m(2)] by blast
qed

subsection \<open>Movement without scripts\<close>

text \<open>With no update callbacks, a frame moves every object that is not paused, once.\<close>

definition unless_paused :: "64 word \<Rightarrow> (game_object \<Rightarrow> game_object) \<Rightarrow> game_object \<Rightarrow> game_object" where
  "unless_paused t f g = (if paused t g then g else f g)"

lemma unless_paused_ok:
  assumes "\<And>g. keeps g (f g)"
  shows "\<forall>x g. object_ok x g \<longrightarrow> object_ok x (unless_paused t f g) \<and> same_place g (unless_paused t f g)"
  using keeps_ok[OF _ assms] keeps_place[OF assms] keeps_place[OF keeps_refl]
  by (auto simp: unless_paused_def)

lemma external_self: "\<exists>u. Some s = Some (s\<lparr>external := u\<rparr>)"
  by (rule exI[of _ "external s"]) simp

lemma unless_paused_step:
  assumes "\<exists>u. body = Some ((set_object x (f (objects st x)) st)\<lparr>external := u\<rparr>)"
  shows "\<exists>u. (if paused t (objects st x) then Some st else body)
    = Some ((set_object x (unless_paused t f (objects st x)) st)\<lparr>external := u\<rparr>)"
  using assms by (auto simp: unless_paused_def set_object_def intro!: exI[of _ "external st"])

lemma updateMovementsLegacy_moves:
  fixes E :: "'u environment"
  assumes M: "manager_total E" and rep: "pool_rep st us gs"
    and quiet: "\<forall>x\<in>set us. \<not> has_callback_update (features (objects st x))"
  shows "\<exists>st'. updateMovementsLegacy E st = Some st' \<and> pool_rep st' us gs
    \<and> objects st' = (\<lambda>i. if i \<in> set us
        then unless_paused (m_nextsuperpause st) (update_motion (float E)) (objects st i) else objects st i)"
proof -
  obtain u where b: "dispatchOnBeforeBatch E BatchUpdate st = Some (st\<lparr>external := u\<rparr>)"
    using dispatch_managers(3)[OF M] by blast
  obtain t st2 where p: "UpdateSuperPause (st\<lparr>external := u\<rparr>) = (t, st2)" by fastforce
  note ps = UpdateSuperPause_simps[OF p]
  let ?body = "\<lambda>x s. if paused t (objects s x) then Some s
          else Option.bind (call_update E x s) (apply_update E game_object_Update x)"
  have r2: "pool_rep st2 us gs" using rep ps(1) by simp
  have body: "\<forall>x s gs'. pool_rep s us gs' \<and> x \<in> set us \<and> objects s x = objects st2 x \<longrightarrow>
    (\<exists>u. ?body x s = Some ((set_object x (unless_paused t (update_motion (float E)) (objects s x)) s)
      \<lparr>external := u\<rparr>))"
  proof (intro allI impI unless_paused_step)
    fix x and s :: "'u game_pool" and gs' :: "nat \<Rightarrow> nat list"
    assume a: "pool_rep s us gs' \<and> x \<in> set us \<and> objects s x = objects st2 x"
    then have s: "pool_rep s us gs'" "x \<in> set us" "objects s x = objects st2 x" by auto
    have "call_update E x s = Some s" using s ps(2) quiet by (simp add: call_update_def)
    then show "\<exists>u. Option.bind (call_update E x s) (apply_update E game_object_Update x)
        = Some ((set_object x (update_motion (float E) (objects s x)) s)\<lparr>external := u\<rparr>)"
      using apply_update_motion(1)[OF s(1,2)] by simp
  qed
  from for_each_object_map[OF r2 body unless_paused_ok[OF update_motion_kept]] obtain st3 where
    l: "for_each_object ?body st2 = Some st3" "pool_rep st3 us gs"
    "objects st3 = (\<lambda>i. if i \<in> set us
        then unless_paused t (update_motion (float E)) (objects st2 i) else objects st2 i)" by blast
  obtain v where a: "dispatchOnAfterBatch E BatchUpdate st3 = Some (st3\<lparr>external := v\<rparr>)"
    using dispatch_managers(4)[OF M] by blast
  have "updateMovementsLegacy E st = Some (st3\<lparr>external := v\<rparr>)"
    using b p l(1) a by (simp add: updateMovementsLegacy_def)
  then show ?thesis using l(2,3) ps(2,3) by (simp add: fun_eq_iff)
qed

lemma UpdateXY_records:
  assumes rep: "pool_rep st us gs"
  shows "\<exists>st'. UpdateXY E st = Some st' \<and> pool_rep st' us gs
    \<and> objects st' = (\<lambda>i. if i \<in> set us
        then unless_paused (m_superpause st) (game_object_UpdateLast (float E)) (objects st i)
        else objects st i)"
proof -
  have body: "\<forall>x s gs'. pool_rep s us gs' \<and> x \<in> set us \<and> objects s x = objects st x \<longrightarrow>
    (\<exists>u. (if paused (m_superpause st) (objects s x) then Some s
      else Some (set_object x (game_object_UpdateLast (float E) (objects s x)) s))
    = Some ((set_object x (unless_paused (m_superpause st) (game_object_UpdateLast (float E)) (objects s x)) s)
        \<lparr>external := u\<rparr>))"
    by (intro allI impI unless_paused_step external_self)
  from for_each_object_map[OF rep body unless_paused_ok[OF aged_kept(3)]]
  show ?thesis by (auto simp: UpdateXY_def)
qed

subsection \<open>Releasing finished objects\<close>

definition survives :: "64 word \<Rightarrow> game_object \<Rightarrow> bool" where
  "survives t g \<longleftrightarrow> paused t g \<or> status g = Active"

lemma next_frame_loop:
  fixes E :: "'u environment" and st :: "'u game_pool"
  assumes M: "manager_total E" and rep: "pool_rep st us gs" and age: "\<And>g. keeps g (age g)"
  shows "\<exists>st' gs'. walk (next_frame_body E t age) (head_of us) st = Some st'
    \<and> pool_rep st' (filter (\<lambda>i. survives t (objects st i)) us) gs'
    \<and> (\<forall>i\<in>set us. if survives t (objects st i) then objects st' i = unless_paused t age (objects st i)
         else status (objects st' i) = Free)
    \<and> pool_context st' = pool_context st \<and> m_iUid st' = m_iUid st"
proof -
  let ?S = "\<lambda>i. survives t (objects st i)"
  let ?after = "\<lambda>(s :: 'u game_pool) i. if ?S i then objects s i = unless_paused t age (objects st i)
         else status (objects s i) = Free"
  let ?I = "\<lambda>rest (s :: 'u game_pool). \<exists>seen gs. us = seen @ rest
    \<and> pool_rep s (filter ?S seen @ rest) gs \<and> (\<forall>i\<in>set rest. objects s i = objects st i)
    \<and> (\<forall>i\<in>set seen. ?after s i)
    \<and> pool_context s = pool_context st \<and> m_iUid s = m_iUid st"
  have "\<exists>st'. walk (next_frame_body E t age) (head_of us) st = Some st' \<and> ?I [] st'"
  proof (rule walk_total[where I = ?I and m = "\<lambda>rest s. length rest"])
    show "?I us st" using rep by (intro exI[of _ "[]"] exI[of _ gs]) simp
  next
    fix x rest and s :: "'u game_pool"
    assume "?I (x # rest) s"
    then obtain seen gs1 where us: "us = seen @ x # rest"
      and r: "pool_rep s (filter ?S seen @ x # rest) gs1"
      and o: "\<forall>i\<in>set (x # rest). objects s i = objects st i" and sn: "\<forall>i\<in>set seen. ?after s i"
      and c: "pool_context s = pool_context st" "m_iUid s = m_iUid st" by blast
    have d: "x \<notin> set seen" "x \<notin> set rest" "set seen \<inter> set rest = {}"
      using us pool_rep_distinct[OF rep] by auto
    have ox: "objects s x = objects st x" using o by simp
    consider (paused) "paused t (objects st x)"
      | (gone) "\<not> paused t (objects st x)" "status (objects st x) \<noteq> Active"
      | (stay) "\<not> paused t (objects st x)" "status (objects st x) = Active" by blast
    then show "\<exists>xs' st'. next_frame_body E t age x s = Some (head_of xs', st') \<and> ?I xs' st'
        \<and> length xs' < length (x # rest)"
    proof cases
      case paused
      have "next_frame_body E t age x s = Some (head_of rest, s)"
        using paused ox pool_rep_next[OF r] by (simp add: next_frame_body_def)
      moreover have "?I rest s"
        using us r o sn c paused by (intro exI[of _ "seen @ [x]"] exI[of _ gs1])
          (simp add: survives_def unless_paused_def)
      ultimately show ?thesis by (intro exI[of _ rest] exI[of _ s]) simp
    next
      case gone
      from free_rep[OF r M refl] obtain s' where s': "freeWithCallbacks E x s = Some (head_of rest, s')"
        "pool_rep s' (filter ?S seen @ rest)
           (gs1(unat (group (objects s x)) := remove1 x (gs1 (unat (group (objects s x))))))"
        "pool_context s' = pool_context s" "m_iUid s' = m_iUid s"
        "\<forall>y. y \<noteq> x \<longrightarrow> objects s' y = objects s y" "status (objects s' x) = Free" by blast
      have "next_frame_body E t age x s = Some (head_of rest, s')"
        using gone ox s'(1) by (simp add: next_frame_body_def)
      moreover have "\<forall>i\<in>set seen. ?after s' i" using sn s'(5) d by metis
      moreover have "\<forall>i\<in>set rest. objects s' i = objects st i" using o s'(5) d by auto
      ultimately show ?thesis
        using us s' c gone by (intro exI[of _ rest] exI[of _ s'] conjI exI[of _ "seen @ [x]"] exI)
          (auto simp: survives_def)
    next
      case stay
      let ?s = "set_object x (age (objects s x)) s"
      have xin: "x \<in> set (filter ?S seen @ x # rest)" by simp
      have r': "pool_rep ?s (filter ?S seen @ x # rest) gs1"
        using pool_rep_set_object[OF r xin keeps_ok[OF pool_rep_object[OF r xin] age] keeps_place[OF age]] .
      then have "next_frame_body E t age x s = Some (head_of rest, ?s)"
        using stay ox pool_rep_next[OF r'] by (simp add: next_frame_body_def Let_def)
      moreover have "?I rest ?s"
        using us r' o sn c stay d ox by (intro exI[of _ "seen @ [x]"] exI[of _ gs1])
          (auto simp: survives_def unless_paused_def)
      ultimately show ?thesis by (intro exI[of _ rest] exI[of _ ?s]) simp
    qed
  qed
  then show ?thesis by auto
qed

end
