(* ===== verification/PoolPhases.thy ===== *)
theory PoolPhases
  imports PoolLoops
begin

text \<open>
  The remaining phases of a frame: releasing finished objects, resetting the pool, the
  border check, the intersection check and rendering.
\<close>

subsection \<open>Next frame\<close>

lemma updateNext_correct:
  assumes M: "manager_total E" and rep: "pool_rep st us gs"
  shows "\<exists>st' gs'. updateNext E st = Some st'
    \<and> pool_rep st' (filter (\<lambda>i. survives (m_nextsuperpause st) (objects st i)) us) gs'
    \<and> (\<forall>i\<in>set us. if survives (m_nextsuperpause st) (objects st i)
         then objects st' i = unless_paused (m_nextsuperpause st) (game_object_UpdateLastV2 (float E)) (objects st i)
         else status (objects st' i) = Free)
    \<and> pool_capacity st' = pool_capacity st"
proof -
  obtain u where b: "dispatchOnBeforeBatch E BatchDestroy st = Some (st\<lparr>external := u\<rparr>)"
    using dispatch_managers(3)[OF M] by blast
  obtain t st2 where p: "UpdateSuperPause (st\<lparr>external := u\<rparr>) = (t, st2)" by fastforce
  note ps = UpdateSuperPause_simps[OF p]
  have "pool_rep st2 us gs" using rep ps(1) by simp
  from next_frame_loop[OF M this aged_kept(2)[of _ "float E"], of t] obtain st3 gs3 where
    l: "walk (next_frame_body E t (game_object_UpdateLastV2 (float E))) (head_of us) st2 = Some st3"
    "pool_rep st3 (filter (\<lambda>i. survives t (objects st2 i)) us) gs3"
    "\<forall>i\<in>set us. if survives t (objects st2 i)
       then objects st3 i = unless_paused t (game_object_UpdateLastV2 (float E)) (objects st2 i)
       else status (objects st3 i) = Free" "pool_context st3 = pool_context st2" by blast
  obtain v where a: "dispatchOnAfterBatch E BatchDestroy st3 = Some (st3\<lparr>external := v\<rparr>)"
    using dispatch_managers(4)[OF M] by blast
  have "m_first (m_update_list st2) = head_of us" using \<open>pool_rep st2 us gs\<close> by (rule pool_rep_first)
  then have "updateNext E st = Some (st3\<lparr>external := v\<rparr>)"
    using b p l(1) a by (simp add: updateNext_def)
  moreover have "t = m_nextsuperpause st" "objects st2 = objects st" using ps by simp_all
  moreover have "pool_capacity st3 = pool_capacity st" using l(4) ps by (simp add: pool_context_def pool_capacity_def)
  ultimately show ?thesis using l(2,3) by (intro exI[of _ "st3\<lparr>external := v\<rparr>"] exI[of _ gs3])
      (simp add: pool_capacity_def)
qed

lemma updateNextLegacy_correct:
  assumes M: "manager_total E" and rep: "pool_rep st us gs"
  shows "\<exists>st' gs'. updateNextLegacy E st = Some st'
    \<and> pool_rep st' (filter (\<lambda>i. survives (m_superpause st) (objects st i)) us) gs'
    \<and> (\<forall>i\<in>set us. if survives (m_superpause st) (objects st i)
         then objects st' i = unless_paused (m_superpause st) game_object_UpdateTimer (objects st i)
         else status (objects st' i) = Free)
    \<and> pool_context st' = pool_context st"
proof -
  obtain u where b: "dispatchOnBeforeBatch E BatchDestroy st = Some (st\<lparr>external := u\<rparr>)"
    using dispatch_managers(3)[OF M] by blast
  let ?t = "m_superpause st" and ?st = "st\<lparr>external := u\<rparr>"
  have r: "pool_rep ?st us gs" using rep by simp
  from next_frame_loop[OF M r aged_kept(1), of ?t] obtain st3 gs3 where
    l: "walk (next_frame_body E ?t game_object_UpdateTimer) (head_of us) ?st = Some st3"
    "pool_rep st3 (filter (\<lambda>i. survives ?t (objects ?st i)) us) gs3"
    "\<forall>i\<in>set us. if survives ?t (objects ?st i)
       then objects st3 i = unless_paused ?t game_object_UpdateTimer (objects ?st i)
       else status (objects st3 i) = Free" "pool_context st3 = pool_context ?st" by blast
  obtain v where a: "dispatchOnAfterBatch E BatchDestroy st3 = Some (st3\<lparr>external := v\<rparr>)"
    using dispatch_managers(4)[OF M] by blast
  have "updateNextLegacy E st = Some (st3\<lparr>external := v\<rparr>)"
    using b l(1) a pool_rep_first[OF rep] by (simp add: updateNextLegacy_def)
  then show ?thesis using l(2-4) by (intro exI[of _ "st3\<lparr>external := v\<rparr>"] exI[of _ gs3]) simp
qed

subsection \<open>Reset\<close>

lemma free_all_loop:
  fixes st :: "'u game_pool"
  assumes M: "manager_total E" and rep: "pool_rep st us gs"
  shows "\<exists>st' gs'. walk (freeWithCallbacks E) (head_of us) st = Some st' \<and> pool_rep st' [] gs'
    \<and> pool_context st' = pool_context st \<and> m_iUid st' = m_iUid st
    \<and> (\<forall>i\<in>set us. status (objects st' i) = Free)"
proof -
  let ?I = "\<lambda>rest (s :: 'u game_pool). \<exists>seen gs. us = seen @ rest \<and> pool_rep s rest gs
    \<and> pool_context s = pool_context st \<and> m_iUid s = m_iUid st \<and> (\<forall>i\<in>set seen. status (objects s i) = Free)"
  have "\<exists>st'. walk (freeWithCallbacks E) (head_of us) st = Some st' \<and> ?I [] st'"
  proof (rule walk_total[where I = ?I and m = "\<lambda>rest s. length rest"])
    show "?I us st" using rep by (intro exI[of _ "[]"] exI[of _ gs]) simp
  next
    fix x rest and s :: "'u game_pool"
    assume "?I (x # rest) s"
    then obtain seen gs1 where us: "us = seen @ x # rest" and r: "pool_rep s ([] @ x # rest) gs1"
      and c: "pool_context s = pool_context st" "m_iUid s = m_iUid st"
      and f: "\<forall>i\<in>set seen. status (objects s i) = Free" by auto
    from free_rep[OF r M refl] obtain s' gs2 where s': "freeWithCallbacks E x s = Some (head_of rest, s')"
      "pool_rep s' rest gs2" "pool_context s' = pool_context s" "m_iUid s' = m_iUid s"
      "\<forall>y. y \<noteq> x \<longrightarrow> objects s' y = objects s y" "status (objects s' x) = Free" by auto
    have "\<forall>i\<in>set (seen @ [x]). status (objects s' i) = Free" using f s'(5,6) by (metis Un_iff empty_iff empty_set set_ConsD set_append)
    then have "?I rest s'" using us s' c by (intro exI[of _ "seen @ [x]"] exI[of _ gs2]) simp
    with s'(1) show "\<exists>xs' st'. freeWithCallbacks E x s = Some (head_of xs', st') \<and> ?I xs' st'
        \<and> length xs' < length (x # rest)" by (intro exI[of _ rest] exI[of _ s']) simp
  qed
  then show ?thesis by auto
qed

lemma reset_lists_empty:
  assumes rep: "pool_rep st [] gs"
  shows "resetGameObjectLists st = Some (st\<lparr>m_render_list := []\<rparr>)"
proof -
  have "represents (update_links st) (m_update_list st) []" using rep by (simp add: pool_rep_def)
  then have u: "list_clear (update_links st) (m_update_list st) = Some (update_links st, m_update_list st)"
    by (rule list_clear_empty)
  let ?st = "st\<lparr>m_render_list := []\<rparr>"
  have "fold_option clear_detect_list is ?st = Some ?st" if "set is \<subseteq> {..<LOBJPOOL_GROUPN}" for "is"
    using that
  proof (induction "is")
    case (Cons g "is")
    then have "represents (detect_links st) (m_detect_lists st ! g) (gs g)" "gs g = []"
      using rep by (auto simp: pool_rep_def detect_ok_def)
    then have "list_clear (detect_links st) (m_detect_lists st ! g) = Some (detect_links st, m_detect_lists st ! g)"
      by (simp add: list_clear_empty)
    then have "clear_detect_list g ?st = Some ?st" by (simp add: clear_detect_list_def)
    with Cons show ?case by simp
  qed simp
  moreover have "length (m_detect_lists st) = LOBJPOOL_GROUPN" using rep by (simp add: pool_rep_def detect_ok_def)
  moreover have "set [0..<LOBJPOOL_GROUPN] \<subseteq> {..<LOBJPOOL_GROUPN}" by auto
  ultimately show ?thesis using u by (simp only: resetGameObjectLists_def) simp
qed

lemma ResetPool_correct:
  assumes M: "manager_total E" and rep: "pool_rep st us gs"
  shows "\<exists>st' gs'. ResetPool E st = Some st' \<and> pool_rep st' [] gs'
    \<and> pool_capacity st' = pool_capacity st \<and> m_superpause st' = 0 \<and> m_nextsuperpause st' = 0
    \<and> m_LockObjectA st' = None \<and> m_LockObjectB st' = None
    \<and> m_ObjectPool st' = pool_clear (m_ObjectPool st') \<and> (\<forall>i\<in>set us. status (objects st' i) = Free)"
proof -
  obtain u where b: "dispatchOnBeforeBatch E BatchDestroy st = Some (st\<lparr>external := u\<rparr>)"
    using dispatch_managers(3)[OF M] by blast
  have "pool_rep (st\<lparr>external := u\<rparr>) us gs" using rep by simp
  from free_all_loop[OF M this] obtain st2 gs2 where
    l: "walk (freeWithCallbacks E) (head_of us) (st\<lparr>external := u\<rparr>) = Some st2" "pool_rep st2 [] gs2"
    "pool_context st2 = pool_context st" "\<forall>i\<in>set us. status (objects st2 i) = Free" by auto
  obtain v where a: "dispatchOnAfterBatch E BatchDestroy st2 = Some (st2\<lparr>external := v\<rparr>)"
    using dispatch_managers(4)[OF M] by blast
  let ?st3 = "st2\<lparr>external := v\<rparr>"
  have r3: "pool_rep ?st3 [] gs2" using l(2) by simp
  define st4 where "st4 = ?st3\<lparr>m_render_list := [], m_ObjectPool := pool_clear (m_ObjectPool st2),
    m_LockObjectA := None, m_LockObjectB := None, m_superpause := 0, m_nextsuperpause := 0\<rparr>"
  have "ResetPool E st = Some st4"
    using b l(1) a reset_lists_empty[OF r3] pool_rep_first[OF rep] by (simp add: ResetPool_def st4_def)
  moreover have "length (m_used (pool_clear (m_ObjectPool st2))) = length (m_used (m_ObjectPool st2))"
    by (simp add: pool_clear_def Let_def)
  then have "pool_rep st4 [] gs2"
    using r3 pool_clear_inv[of "m_ObjectPool st2"] pool_clear_live[of "m_ObjectPool st2"]
    by (simp add: pool_rep_def st4_def slots_ok_def render_ok_def)
  moreover have "pool_clear (pool_clear P) = pool_clear P" for P by (simp add: pool_clear_def Let_def)
  ultimately show ?thesis
    using l(3,4) by (intro exI[of _ st4] exI[of _ gs2])
      (simp add: st4_def pool_context_def pool_capacity_def pool_clear_def Let_def)
qed

subsection \<open>The border\<close>

definition dead_if_outside :: "'u game_pool \<Rightarrow> game_object \<Rightarrow> game_object" where
  "dead_if_outside st g = (if ObjectBoundCheck st g then g else g\<lparr>status := Dead\<rparr>)"

lemma ObjectBoundCheck_context:
  "pool_context s = pool_context st \<Longrightarrow> ObjectBoundCheck s g = ObjectBoundCheck st g"
  by (simp add: ObjectBoundCheck_def pool_context_def)

lemma dead_ok: "object_ok x g \<Longrightarrow> object_ok x (g\<lparr>status := Dead\<rparr>)"
  by simp

definition outside_calls :: "'u game_pool \<Rightarrow> nat list \<Rightarrow> (u64 \<times> nat) list" where
  "outside_calls st us = map (\<lambda>x. (unique_id (objects st x), x))
     (filter (\<lambda>x. \<not> ObjectBoundCheck st (objects st x) \<and> has_callback_destroy (features (objects st x))) us)"

lemma outside_calls_append: "outside_calls st (xs @ ys) = outside_calls st xs @ outside_calls st ys"
  by (simp add: outside_calls_def)

text \<open>The pool after the marking loop: only the statuses have changed.\<close>

definition marked_pool :: "nat list \<Rightarrow> 'u game_pool \<Rightarrow> 'u game_pool" where
  "marked_pool us st =
     st\<lparr>objects := (\<lambda>i. if i \<in> set us then dead_if_outside st (objects st i) else objects st i)\<rparr>"

lemma bound_loop:
  fixes st :: "'u game_pool"
  assumes rep: "pool_rep st us gs"
  shows "walk bound_body (head_of us) ([], st) = Some (outside_calls st us, marked_pool us st)
    \<and> pool_rep (marked_pool us st) us gs"
proof -
  let ?M = "\<lambda>seen. st\<lparr>objects := (\<lambda>i. if i \<in> set seen then dead_if_outside st (objects st i) else objects st i)\<rparr>"
  let ?I = "\<lambda>rest (c, s :: 'u game_pool). \<exists>seen. us = seen @ rest \<and> pool_rep s us gs
    \<and> c = outside_calls st seen \<and> s = ?M seen"
  have "\<exists>cs. walk bound_body (head_of us) ([], st) = Some cs \<and> ?I [] cs"
  proof (rule walk_total[where I = ?I and m = "\<lambda>rest s. length rest"])
    show "?I us ([], st)" using rep by (simp add: outside_calls_def)
  next
    fix x rest and cs :: "(u64 \<times> nat) list \<times> 'u game_pool"
    assume I: "?I (x # rest) cs"
    then obtain seen where us: "us = seen @ x # rest" and r: "pool_rep (?M seen) us gs"
      and cs: "cs = (outside_calls st seen, ?M seen)" by (cases cs) auto
    have x: "x \<in> set us" "x \<notin> set seen" using us pool_rep_distinct[OF rep] by auto
    let ?s = "?M (seen @ [x])"
    have s: "?s = (if ObjectBoundCheck st (objects st x) then ?M seen
        else set_object x ((objects (?M seen) x)\<lparr>status := Dead\<rparr>) (?M seen))"
      using x by (auto simp: set_object_def dead_if_outside_def fun_eq_iff)
    have "object_ok x (objects st x)" by (rule pool_rep_object[OF rep x(1)])
    then have r': "pool_rep ?s us gs"
      unfolding s using r pool_rep_set_object[OF r x(1) dead_ok[OF pool_rep_object[OF r x(1)]]]
      by (simp add: same_place_def)
    then have nx: "update_next ?s x = head_of rest" using us pool_rep_next by blast
    have check: "ObjectBoundCheck (?M seen) (objects (?M seen) x) = ObjectBoundCheck st (objects st x)"
      "objects (?M seen) x = objects st x" using x by (simp_all add: ObjectBoundCheck_def)
    have "bound_body x cs = Some (head_of rest, outside_calls st (seen @ [x]), ?s)"
    proof (cases "ObjectBoundCheck st (objects st x)")
      case True
      with s have "?s = ?M seen" by simp
      with nx True check show ?thesis
        by (simp add: bound_body_def cs outside_calls_append outside_calls_def)
    next
      case False
      with s have e: "?s = set_object x ((objects (?M seen) x)\<lparr>status := Dead\<rparr>) (?M seen)" by simp
      show ?thesis
        using nx False check unfolding bound_body_def cs prod.case Let_def e
        by (simp add: outside_calls_append outside_calls_def)
    qed
    moreover have "?I rest (outside_calls st (seen @ [x]), ?s)" using us r' by (intro case_prodI exI[of _ "seen @ [x]"]) simp
    ultimately show "\<exists>xs' cs'. bound_body x cs = Some (head_of xs', cs') \<and> ?I xs' cs'
        \<and> length xs' < length (x # rest)" by (intro exI[of _ rest]) fastforce
  qed
  then show ?thesis by (auto simp: marked_pool_def)
qed

definition destroy_scripts_ok :: "'u environment \<Rightarrow> bool" where
  "destroy_scripts_ok E \<longleftrightarrow> manager_total E \<and> (\<forall>x reason. call_ok (\<lambda>c. onQueueToDestroy E reason c x) x)"

lemma bound_calls:
  fixes E :: "'u environment" and st :: "'u game_pool"
  assumes E: "destroy_scripts_ok E" and rep: "pool_rep st us gs" and room: "uid_room st us"
    and cache: "\<forall>(uid, x)\<in>set cache. x \<in> set us \<and> unique_id (objects st x) = uid"
    and cbs: "\<forall>x\<in>set us. callbacks_rep (objects st x) (cs x)"
  shows "\<exists>st'. fold_option (bound_call E) cache st = Some st'
    \<and> fold_option (\<lambda>x. fold_option (\<lambda>c. onQueueToDestroy E reason_out_of_world_bound c x) (cs x))
        (map snd cache) st = Some st' \<and> (\<exists>us'. extends st us st' us')"
proof (rule fold_option_agree)
  fix r and s :: "'u game_pool"
  assume r: "r \<in> set cache" and "\<exists>us'. extends st us s us'"
  then obtain us1 gs1 where ex: "extends st us s us1" and r1: "pool_rep s us1 gs1"
    using extends_rep by blast
  obtain uid x where rx: "r = (uid, x)" by fastforce
  with r cache have x: "x \<in> set us" "unique_id (objects st x) = uid" by auto
  have x1: "x \<in> set us1" "unique_id (objects s x) = uid" "callbacks_rep (objects s x) (cs x)"
    using extends_subset[OF ex] extends_uid[OF ex] extends_callbacks[OF ex] x cbs by auto
  from dispatch_object_fold[OF _ r1 extends_room[OF ex room] x1(1,3)] E obtain s' us2 where
    "dispatchOnQueueToDestroy E reason_out_of_world_bound x s = Some s'"
    "fold_option (\<lambda>c. onQueueToDestroy E reason_out_of_world_bound c x) (cs x) s = Some s'"
    "extends s us1 s' us2"
    unfolding destroy_scripts_ok_def dispatchOnQueueToDestroy_def by blast
  then show "\<exists>s'. bound_call E r s = Some s'
      \<and> fold_option (\<lambda>c. onQueueToDestroy E reason_out_of_world_bound c (snd r)) (cs (snd r)) s = Some s'
      \<and> (\<exists>us'. extends st us s' us')"
    using rx x1(2) extends_trans[OF ex] by (auto simp: bound_call_def)
qed (use extends_refl[OF rep] in blast)

lemma detectOutOfWorldBound_exact:
  assumes E: "destroy_scripts_ok E" and rep: "pool_rep st us gs" and room: "uid_room st us"
    and cbs: "\<forall>x\<in>set us. callbacks_rep (objects st x) (cs x)"
  shows "\<exists>u m s3 us' v. fold_option (onBeforeBatch E BatchOutOfWorldBoundCheck) (m_callbacks st) (external st) = Some u
    \<and> m = marked_pool us (st\<lparr>external := u\<rparr>)
    \<and> fold_option (\<lambda>x. fold_option (\<lambda>c. onQueueToDestroy E reason_out_of_world_bound c x) (cs x))
        (filter (\<lambda>x. \<not> ObjectBoundCheck st (objects st x) \<and> has_callback_destroy (features (objects st x))) us) m
      = Some s3
    \<and> extends m us s3 us'
    \<and> fold_option (onAfterBatch E BatchOutOfWorldBoundCheck) (m_callbacks st) (external s3) = Some v
    \<and> detectOutOfWorldBound E st = Some (s3\<lparr>external := v\<rparr>)"
proof -
  have M: "manager_total E" using E by (simp add: destroy_scripts_ok_def)
  obtain u where u: "fold_option (onBeforeBatch E BatchOutOfWorldBoundCheck) (m_callbacks st) (external st) = Some u"
    and b: "dispatchOnBeforeBatch E BatchOutOfWorldBoundCheck st = Some (st\<lparr>external := u\<rparr>)"
    using before_batch[OF M] by blast
  let ?st = "st\<lparr>external := u\<rparr>"
  have r1: "pool_rep ?st us gs" using rep by simp
  note l = bound_loop[OF r1]
  let ?m = "marked_pool us ?st"
  have room2: "uid_room ?m us" using room by (simp add: marked_pool_def)
  have fields: "unique_id (objects ?m x) = unique_id (objects st x)"
    "callbacks_rep (objects ?m x) c = callbacks_rep (objects st x) c" for x c
    by (auto simp: marked_pool_def dead_if_outside_def callbacks_rep_def isDirectCallbacks_def)
  have "\<forall>(uid, x)\<in>set (outside_calls ?st us). x \<in> set us \<and> unique_id (objects ?m x) = uid"
    using fields by (auto simp: outside_calls_def)
  from bound_calls[OF E conjunct2[OF l] room2 this, of cs] cbs fields(2) obtain s3 us3 where
    c: "fold_option (bound_call E) (outside_calls ?st us) ?m = Some s3"
    "fold_option (\<lambda>x. fold_option (\<lambda>c. onQueueToDestroy E reason_out_of_world_bound c x) (cs x))
        (map snd (outside_calls ?st us)) ?m = Some s3" "extends ?m us s3 us3" by blast
  have cb: "m_callbacks s3 = m_callbacks st"
    using c(3) by (simp add: extends_def pool_context_def marked_pool_def)
  obtain v where v: "fold_option (onAfterBatch E BatchOutOfWorldBoundCheck) (m_callbacks st) (external s3) = Some v"
    and a: "dispatchOnAfterBatch E BatchOutOfWorldBoundCheck s3 = Some (s3\<lparr>external := v\<rparr>)"
    using after_batch[OF M cb] by blast
  have "map snd (outside_calls ?st us)
      = filter (\<lambda>x. \<not> ObjectBoundCheck st (objects st x) \<and> has_callback_destroy (features (objects st x))) us"
    by (simp add: outside_calls_def comp_def ObjectBoundCheck_def)
  moreover have "detectOutOfWorldBound E st = Some (s3\<lparr>external := v\<rparr>)"
    using b conjunct1[OF l] c(1) a pool_rep_first[OF rep] by (simp add: detectOutOfWorldBound_def)
  ultimately show ?thesis using u c v
    by - (rule exI[of _ u], rule exI[of _ ?m], rule exI[of _ s3], rule exI[of _ us3], rule exI[of _ v], simp)
qed

subsection \<open>Intersection\<close>

text \<open>The pairs a batch detection finds, in the order it finds them.\<close>

definition hit :: "(nat \<Rightarrow> game_object) \<Rightarrow> nat \<Rightarrow> nat \<Rightarrow> intersection" where
  "hit objs a b = \<lparr>uid1 = unique_id (objs a), uid2 = unique_id (objs b), object1 = a, object2 = b\<rparr>"

definition row_hits :: "'u environment \<Rightarrow> (nat \<Rightarrow> game_object) \<Rightarrow> nat list \<Rightarrow> nat \<Rightarrow> intersection list" where
  "row_hits E objs bs a = (if has_callback_trigger (features (objs a))
     then map (hit objs a) (filter (\<lambda>b. isIntersect (float E) (collide E) (objs a) (objs b)) bs) else [])"

definition group_hits ::
  "'u environment \<Rightarrow> (nat \<Rightarrow> game_object) \<Rightarrow> nat list \<Rightarrow> nat list \<Rightarrow> intersection list" where
  "group_hits E objs as bs = concat (map (row_hits E objs bs) as)"

text \<open>Detection changes nothing but the statistics: \<open>n\<close> checks are counted.\<close>

definition counted :: "nat \<Rightarrow> 'u game_pool \<Rightarrow> 'u game_pool" where
  "counted n st = mod_statistics (\<lambda>d. d\<lparr>object_colli_check := object_colli_check d + of_nat n\<rparr>) st"

lemma counted_0 [simp]: "counted 0 st = st"
  by (simp add: counted_def mod_statistics_def)

lemma counted_add [simp]: "counted n (counted m st) = counted (m + n) st"
  by (cases "m_statistics_index st < length (m_statistics st)")
    (simp_all add: counted_def mod_statistics_def add.assoc list_update_beyond not_less)

lemma count_check_counted: "count_check st = counted 1 st"
  by (simp add: count_check_def counted_def)

lemma counted_same [simp]:
  shows "objects (counted n st) = objects st" "detect_links (counted n st) = detect_links st"
    "m_detect_lists (counted n st) = m_detect_lists st" "detect_next (counted n st) = detect_next st"
    "detect_first g (counted n st) = detect_first g st" "pool_context (counted n st) = pool_context st"
    "pool_rep (counted n st) us gs = pool_rep st us gs" "uid_room (counted n st) us = uid_room st us"
    "external (counted n st) = external st"
  by (auto simp: counted_def mod_statistics_def detect_next_def detect_first_def pool_context_defs
      pool_rep_def uid_room_def fun_eq_iff)

definition row_checks :: "(nat \<Rightarrow> game_object) \<Rightarrow> nat list \<Rightarrow> nat \<Rightarrow> nat" where
  "row_checks objs bs a = (if has_callback_trigger (features (objs a)) then length bs else 0)"

lemma batch_pair_loop:
  assumes "path (link_next (detect_links st)) bs None"
  shows "walk (batch_pair E a) (head_of bs) (cache, st)
    = Some (cache @ row_hits E (objects st) bs a, counted (row_checks (objects st) bs a) st)"
  using assms
proof (induction bs arbitrary: cache st)
  case Nil
  then show ?case by (auto simp: row_hits_def row_checks_def)
next
  case (Cons b bs)
  define n where "n = (if has_callback_trigger (features (objects st a)) then 1 else 0 :: nat)"
  have nx: "detect_next st b = head_of bs" and p: "path (link_next (detect_links (counted n st))) bs None"
    using Cons.prems by (simp_all add: path_Cons_None detect_next_def)
  have step: "batch_pair E a b (cache, st) = Some (head_of bs, cache @ row_hits E (objects st) [b] a, counted n st)"
    using nx by (simp add: batch_pair_def row_hits_def hit_def n_def Let_def count_check_counted)
  have "row_hits E (objects st) [b] a @ row_hits E (objects st) bs a = row_hits E (objects st) (b # bs) a"
    "n + row_checks (objects st) bs a = row_checks (objects st) (b # bs) a"
    by (simp_all add: row_hits_def row_checks_def n_def)
  then show ?case using step Cons.IH[OF p, of "cache @ row_hits E (objects st) [b] a"]
    by (simp add: walk_Some)
qed

definition group_checks :: "(nat \<Rightarrow> game_object) \<Rightarrow> nat list \<Rightarrow> nat list \<Rightarrow> nat" where
  "group_checks objs as bs = sum_list (map (row_checks objs bs) as)"

lemma batch_row_loop:
  assumes "path (link_next (detect_links st)) as None" "path (link_next (detect_links st)) bs None"
    "detect_first g2 st = Some (head_of bs)"
  shows "walk (batch_row E g2) (head_of as) (cache, st)
      = Some (cache @ group_hits E (objects st) as bs, counted (group_checks (objects st) as bs) st)"
  using assms
proof (induction as arbitrary: cache st)
  case Nil
  then show ?case by (auto simp: group_hits_def group_checks_def)
next
  case (Cons a as)
  let ?st = "counted (row_checks (objects st) bs a) st"
  have nx: "detect_next st a = head_of as" using Cons.prems(1) by (simp add: path_Cons_None detect_next_def)
  have step: "batch_row E g2 a (cache, st) = Some (head_of as, cache @ row_hits E (objects st) bs a, ?st)"
    using batch_pair_loop[OF Cons.prems(2), of E a cache] nx Cons.prems(3) by (simp add: batch_row_def)
  have "path (link_next (detect_links ?st)) as None" "path (link_next (detect_links ?st)) bs None"
    "detect_first g2 ?st = Some (head_of bs)"
    using Cons.prems by (simp_all add: path_Cons_None)
  from Cons.IH[OF this, of "cache @ row_hits E (objects st) bs a"] step
  show ?case by (simp add: walk_Some group_hits_def group_checks_def)
qed

lemma detect_first_rep:
  assumes "pool_rep st us gs" "g < LOBJPOOL_GROUPN"
  shows "detect_first g st = Some (head_of (gs g))" "path (link_next (detect_links st)) (gs g) None"
  using assms by (auto simp: pool_rep_def detect_ok_def detect_first_def represents_def)

lemma batch_groups_loop:
  assumes "pool_rep st us gs" "\<forall>(g1, g2)\<in>set pairs. g1 < LOBJPOOL_GROUPN \<and> g2 < LOBJPOOL_GROUPN"
  shows "fold_option (batch_groups E) pairs (cache, st)
      = Some (cache @ concat (map (\<lambda>(g1, g2). group_hits E (objects st) (gs g1) (gs g2)) pairs),
          counted (sum_list (map (\<lambda>(g1, g2). group_checks (objects st) (gs g1) (gs g2)) pairs)) st)"
  using assms
proof (induction pairs arbitrary: cache st)
  case (Cons gg pairs)
  obtain g1 g2 where gg: "gg = (g1, g2)" by fastforce
  with Cons.prems have g: "g1 < LOBJPOOL_GROUPN" "g2 < LOBJPOOL_GROUPN" by auto
  note f1 = detect_first_rep[OF Cons.prems(1) g(1)] and f2 = detect_first_rep[OF Cons.prems(1) g(2)]
  have "batch_groups E gg (cache, st) = Some (cache @ group_hits E (objects st) (gs g1) (gs g2),
      counted (group_checks (objects st) (gs g1) (gs g2)) st)"
    using batch_row_loop[OF f1(2) f2(2) f2(1), of E cache] f1(1) gg by (simp add: batch_groups_def)
  moreover have "pool_rep (counted (group_checks (objects st) (gs g1) (gs g2)) st) us gs"
    using Cons.prems(1) by simp
  moreover have "\<forall>(g1, g2)\<in>set pairs. g1 < LOBJPOOL_GROUPN \<and> g2 < LOBJPOOL_GROUPN"
    using Cons.prems(2) by simp
  ultimately show ?case using gg by (simp add: Cons.IH)
qed simp

definition trigger_scripts_ok :: "'u environment \<Rightarrow> bool" where
  "trigger_scripts_ok E \<longleftrightarrow> manager_total E \<and> (\<forall>x y. call_ok (\<lambda>c. onTrigger E c x y) x)"

text \<open>
  What a triggered pair does, without the dispatch loop: the callback is counted, both objects
  are locked, the first object's callbacks are called one after the other with the pair, and
  the objects are unlocked.
\<close>

definition trigger_pair ::
  "'u environment \<Rightarrow> (nat \<Rightarrow> nat list) \<Rightarrow> nat \<times> nat \<Rightarrow> 'u game_pool \<Rightarrow> 'u game_pool option" where
  "trigger_pair E cs ab st =
     (case ab of (a, b) \<Rightarrow>
        map_option (\<lambda>s. s\<lparr>m_LockObjectA := None, m_LockObjectB := None\<rparr>)
          (fold_option (\<lambda>c. onTrigger E c a b) (cs a)
             ((mod_statistics (\<lambda>d. d\<lparr>object_colli_callback := object_colli_callback d + 1\<rparr>) st)
                \<lparr>m_LockObjectA := Some a, m_LockObjectB := Some b\<rparr>)))"

lemma count_callback_same:
  "pool_rep (count_callback st) us gs = pool_rep st us gs" "uid_room (count_callback st) us = uid_room st us"
  "objects (count_callback st) = objects st" "m_iUid (count_callback st) = m_iUid st"
  "pool_context (count_callback st) = pool_context st"
  by (auto simp: count_callback_def mod_statistics_def pool_rep_def uid_room_def pool_context_defs)

lemma locked_trigger_fold:
  assumes E: "trigger_scripts_ok E" and rep: "pool_rep st us gs" and room: "uid_room st us"
    and x: "a \<in> set us" and cs: "callbacks_rep (objects st a) (cs a)"
    and free: "m_LockObjectA st = None" "m_LockObjectB st = None"
  shows "\<exists>st' us'. locked_trigger E a b (count_callback st) = Some st'
    \<and> trigger_pair E cs (a, b) st = Some st' \<and> extends st us st' us'"
proof -
  let ?st = "(count_callback st)\<lparr>m_LockObjectA := Some a, m_LockObjectB := Some b\<rparr>"
  have r: "pool_rep ?st us gs" "uid_room ?st us" "callbacks_rep (objects ?st a) (cs a)"
    using rep room cs by (simp_all add: count_callback_same)
  from dispatch_object_fold[OF _ r(1,2) x r(3)] E obtain s us' where
    s: "dispatchOnTrigger E a b ?st = Some s" "fold_option (\<lambda>c. onTrigger E c a b) (cs a) ?st = Some s"
    "extends ?st us s us'"
    unfolding trigger_scripts_ok_def dispatchOnTrigger_def by blast
  have "pool_context (count_callback st) = pool_context st" by (rule count_callback_same)
  then have "extends st us (s\<lparr>m_LockObjectA := None, m_LockObjectB := None\<rparr>) us'"
    using s(3) free by (auto simp: extends_def pool_context_defs count_callback_same)
  with s(1,2) show ?thesis by (auto simp: locked_trigger_def trigger_pair_def count_callback_def)
qed

lemma batch_calls:
  fixes E :: "'u environment" and st :: "'u game_pool"
  assumes E: "trigger_scripts_ok E" and rep: "pool_rep st us gs" and room: "uid_room st us"
    and cache: "\<forall>r\<in>set cache. object1 r \<in> set us \<and> object2 r \<in> set us
      \<and> unique_id (objects st (object1 r)) = uid1 r \<and> unique_id (objects st (object2 r)) = uid2 r"
    and cbs: "\<forall>x\<in>set us. callbacks_rep (objects st x) (cs x)"
    and free: "m_LockObjectA st = None" "m_LockObjectB st = None"
  shows "\<exists>st'. fold_option (batch_call E) cache st = Some st'
    \<and> fold_option (trigger_pair E cs) (map (\<lambda>r. (object1 r, object2 r)) cache) st = Some st'
    \<and> (\<exists>us'. extends st us st' us')"
proof (rule fold_option_agree)
  fix r and s :: "'u game_pool"
  assume r: "r \<in> set cache" and "\<exists>us'. extends st us s us'"
  then obtain us1 gs1 where ex: "extends st us s us1" and r1: "pool_rep s us1 gs1"
    using extends_rep by blast
  have x: "object1 r \<in> set us" "object2 r \<in> set us"
    "unique_id (objects st (object1 r)) = uid1 r" "unique_id (objects st (object2 r)) = uid2 r"
    using cache r by auto
  have x1: "object1 r \<in> set us1" "unique_id (objects s (object1 r)) = uid1 r"
    "unique_id (objects s (object2 r)) = uid2 r" "callbacks_rep (objects s (object1 r)) (cs (object1 r))"
    using extends_subset[OF ex] extends_uid[OF ex] extends_callbacks[OF ex] x cbs by auto
  have "m_LockObjectA s = None" "m_LockObjectB s = None"
    using ex free by (auto simp: extends_def pool_context_def)
  from locked_trigger_fold[where b = "object2 r" and cs = cs, OF E r1 extends_room[OF ex room] x1(1,4) this]
  obtain s' us2 where
    "locked_trigger E (object1 r) (object2 r) (count_callback s) = Some s'"
    "trigger_pair E cs (object1 r, object2 r) s = Some s'" "extends s us1 s' us2" by blast
  then show "\<exists>s'. batch_call E r s = Some s' \<and> trigger_pair E cs (object1 r, object2 r) s = Some s'
      \<and> (\<exists>us'. extends st us s' us')"
    using x1(2,3) extends_trans[OF ex] by (auto simp: batch_call_def)
qed (use extends_refl[OF rep] in blast)

lemma group_hits_member:
  assumes "r \<in> set (group_hits E objs as bs)"
  shows "object1 r \<in> set as" "object2 r \<in> set bs" "uid1 r = unique_id (objs (object1 r))"
    "uid2 r = unique_id (objs (object2 r))"
    "isIntersect (float E) (collide E) (objs (object1 r)) (objs (object2 r))"
  using assms by (auto simp: group_hits_def row_hits_def hit_def split: if_splits)

definition pair_hits :: "'u environment \<Rightarrow> (nat \<Rightarrow> game_object) \<Rightarrow> (nat \<Rightarrow> nat list) \<Rightarrow> (nat \<times> nat) list
    \<Rightarrow> intersection list" where
  "pair_hits E objs gs pairs = concat (map (\<lambda>(g1, g2). group_hits E objs (gs g1) (gs g2)) pairs)"

definition pair_checks :: "(nat \<Rightarrow> game_object) \<Rightarrow> (nat \<Rightarrow> nat list) \<Rightarrow> (nat \<times> nat) list \<Rightarrow> nat" where
  "pair_checks objs gs pairs = sum_list (map (\<lambda>(g1, g2). group_checks objs (gs g1) (gs g2)) pairs)"

lemma detectIntersection_exact:
  fixes st :: "'u game_pool"
  assumes E: "trigger_scripts_ok E" and rep: "pool_rep st us gs" and room: "uid_room st us"
    and pairs: "\<forall>(g1, g2)\<in>set pairs. g1 < LOBJPOOL_GROUPN \<and> g2 < LOBJPOOL_GROUPN"
    and cbs: "\<forall>x\<in>set us. callbacks_rep (objects st x) (cs x)"
    and free: "m_LockObjectA st = None" "m_LockObjectB st = None"
  shows "\<exists>u s2 s3 us' v.
      fold_option (onBeforeBatch E BatchIntersectDetect) (m_callbacks st) (external st) = Some u
    \<and> s2 = counted (pair_checks (objects st) gs pairs) (st\<lparr>m_is_detecting_intersect := True, external := u\<rparr>)
    \<and> fold_option (trigger_pair E cs)
        (map (\<lambda>r. (object1 r, object2 r)) (pair_hits E (objects st) gs pairs)) s2 = Some s3
    \<and> extends s2 us s3 us'
    \<and> fold_option (onAfterBatch E BatchIntersectDetect) (m_callbacks st) (external s3) = Some v
    \<and> detectIntersection E pairs st = Some (s3\<lparr>m_is_detecting_intersect := False, external := v\<rparr>)"
proof -
  have M: "manager_total E" using E by (simp add: trigger_scripts_ok_def)
  let ?st0 = "st\<lparr>m_is_detecting_intersect := True\<rparr>"
  obtain u where u: "fold_option (onBeforeBatch E BatchIntersectDetect) (m_callbacks st) (external st) = Some u"
    and b: "dispatchOnBeforeBatch E BatchIntersectDetect ?st0 = Some (?st0\<lparr>external := u\<rparr>)"
    using before_batch[OF M, of BatchIntersectDetect ?st0] by auto
  let ?st = "?st0\<lparr>external := u\<rparr>" and ?hits = "pair_hits E (objects st) gs pairs"
  let ?s2 = "counted (pair_checks (objects st) gs pairs) ?st"
  have r1: "pool_rep ?st us gs" using rep by simp
  have g: "fold_option (batch_groups E) pairs ([], ?st) = Some (?hits, ?s2)"
    using batch_groups_loop[OF r1 pairs, of E "[]"] by (simp add: pair_hits_def pair_checks_def)
  have r2: "pool_rep ?s2 us gs" "uid_room ?s2 us" "\<forall>x\<in>set us. callbacks_rep (objects ?s2 x) (cs x)"
    using rep room cbs by simp_all
  have mem: "set (gs g) \<subseteq> set us" if "g < LOBJPOOL_GROUPN" for g
    using rep that by (auto simp: pool_rep_def detect_ok_def)
  have h: "\<forall>r\<in>set ?hits. object1 r \<in> set us \<and> object2 r \<in> set us
      \<and> unique_id (objects ?s2 (object1 r)) = uid1 r \<and> unique_id (objects ?s2 (object2 r)) = uid2 r"
  proof
    fix r assume "r \<in> set ?hits"
    then obtain g1 g2 where "(g1, g2) \<in> set pairs" "r \<in> set (group_hits E (objects st) (gs g1) (gs g2))"
      by (auto simp: pair_hits_def)
    then show "object1 r \<in> set us \<and> object2 r \<in> set us
      \<and> unique_id (objects ?s2 (object1 r)) = uid1 r \<and> unique_id (objects ?s2 (object2 r)) = uid2 r"
      using group_hits_member[of r E "objects st" "gs g1" "gs g2"] mem pairs by auto
  qed
  have l2: "m_LockObjectA ?s2 = None" "m_LockObjectB ?s2 = None" "m_callbacks ?s2 = m_callbacks st"
    using free by (simp_all add: counted_def mod_statistics_def)
  from batch_calls[OF E r2(1,2) h r2(3) l2(1,2)] obtain s3 us3 where
    c: "fold_option (batch_call E) ?hits ?s2 = Some s3"
    "fold_option (trigger_pair E cs) (map (\<lambda>r. (object1 r, object2 r)) ?hits) ?s2 = Some s3"
    "extends ?s2 us s3 us3" by blast
  have cb: "m_callbacks s3 = m_callbacks st" using c(3) l2(3) by (simp add: extends_def pool_context_def)
  obtain v where v: "fold_option (onAfterBatch E BatchIntersectDetect) (m_callbacks st) (external s3) = Some v"
    and a: "dispatchOnAfterBatch E BatchIntersectDetect s3 = Some (s3\<lparr>external := v\<rparr>)"
    using after_batch[OF M cb] by blast
  have "detectIntersection E pairs st = Some (s3\<lparr>m_is_detecting_intersect := False, external := v\<rparr>)"
    using b g c(1) a by (simp add: detectIntersection_def)
  then show ?thesis using u c v
    by - (rule exI[of _ u], rule exI[of _ ?s2], rule exI[of _ s3], rule exI[of _ us3], rule exI[of _ v], simp)
qed

subsection \<open>Rendering\<close>

text \<open>
  A render script may change the data of objects, but creates none and leaves the order in
  which they are drawn.
\<close>

definition render_keeps :: "'u game_pool \<Rightarrow> nat list \<Rightarrow> 'u game_pool \<Rightarrow> bool" where
  "render_keeps st us st' \<longleftrightarrow> extends st us st' us \<and> m_render_list st' = m_render_list st"

definition render_scripts_ok :: "'u environment \<Rightarrow> bool" where
  "render_scripts_ok E \<longleftrightarrow> manager_total E \<and> (\<forall>c x st us gs. pool_rep st us gs \<and> x \<in> set us \<longrightarrow>
     (\<exists>st'. onRender E c x st = Some st' \<and> render_keeps st us st'))"

lemma render_keeps_trans: "render_keeps st us s \<Longrightarrow> render_keeps s us s' \<Longrightarrow> render_keeps st us s'"
  using extends_trans by (auto simp: render_keeps_def)

text \<open>Drawing one object, without the dispatch loop.\<close>

definition draw_visible :: "'u environment \<Rightarrow> (nat \<Rightarrow> nat list) \<Rightarrow> nat \<Rightarrow> 'u game_pool \<Rightarrow> 'u game_pool option" where
  "draw_visible E cs x st =
     (if hide (objects st x) then Some st
      else if has_callback_render (features (objects st x)) then fold_option (\<lambda>c. onRender E c x) (cs x) st
      else Some (st\<lparr>external :=
        run_draws E (game_object_Render (float E) (gscale E) (objects st x)) (external st)\<rparr>))"

lemma render_body_fold:
  assumes E: "render_scripts_ok E" and rep: "pool_rep st us gs" and x: "x \<in> set us"
    and cs: "callbacks_rep (objects st x) (cs x)"
  shows "\<exists>st'. render_body E x st = Some st' \<and> draw_visible E cs x st = Some st' \<and> render_keeps st us st'"
proof -
  have "\<exists>st'. dispatch_object (\<lambda>c. onRender E c x) x st = Some st'
      \<and> fold_option (\<lambda>c. onRender E c x) (cs x) st = Some st' \<and> render_keeps st us st'"
  proof (rule dispatch_object_inv[OF _ _ _ cs])
    show "render_keeps st us st" using extends_refl[OF rep] by (simp add: render_keeps_def)
  next
    fix c s
    assume k: "render_keeps st us s"
    then obtain gs' where "pool_rep s us gs'" using extends_rep[of st us s us] by (auto simp: render_keeps_def)
    with E x obtain s' where "onRender E c x s = Some s'" "render_keeps s us s'"
      unfolding render_scripts_ok_def by blast
    with k show "\<exists>s'. onRender E c x s = Some s' \<and> render_keeps st us s'"
      using render_keeps_trans by blast
  qed (use x in \<open>auto simp: render_keeps_def extends_def\<close>)
  moreover have "render_keeps st us st" "render_keeps st us (st\<lparr>external := u\<rparr>)" for u
    using extends_refl[OF rep] extends_external[OF rep] by (simp_all add: render_keeps_def)
  ultimately show ?thesis by (auto simp: render_body_def draw_visible_def dispatchOnRender_def)
qed

lemma render_loop:
  assumes E: "render_scripts_ok E" and "pool_rep st us gs" "m_render_list st = seen @ rest"
    "distinct (seen @ rest)" "set rest \<subseteq> set us" "\<forall>x\<in>set us. callbacks_rep (objects st x) (cs x)"
  shows "\<exists>st'. walk (render_step E) (head_of rest) st = Some st'
    \<and> fold_option (draw_visible E cs) rest st = Some st' \<and> render_keeps st us st'"
  using assms(2-)
proof (induction rest arbitrary: seen st gs)
  case Nil
  then show ?case using extends_refl by (auto simp: render_keeps_def)
next
  case (Cons x rest)
  have x: "x \<in> set us" "x \<notin> set seen" using Cons.prems(3,4) by auto
  from render_body_fold[OF E Cons.prems(1) x(1), of cs] Cons.prems(5) x(1) obtain s where
    b: "render_body E x st = Some s" "draw_visible E cs x st = Some s" and k: "render_keeps st us s" by blast
  have rl: "m_render_list s = seen @ x # rest" using k Cons.prems(2) by (simp add: render_keeps_def)
  have "dropWhile (\<lambda>y. y \<noteq> x) (seen @ x # rest) = x # rest" using x(2) by (induction seen) auto
  then have "render_step E x st = Some (head_of rest, s)"
    using b(1) rl by (simp add: render_step_def render_next_def)
  moreover obtain gs' where "pool_rep s us gs'" using k extends_rep[of st us s us] by (auto simp: render_keeps_def)
  moreover have "\<forall>x\<in>set us. callbacks_rep (objects s x) (cs x)"
    using k Cons.prems(5) extends_callbacks by (fastforce simp: render_keeps_def)
  ultimately show ?case
    using Cons.IH[of s gs' "seen @ [x]"] rl Cons.prems(3,4) b(2) render_keeps_trans[OF k]
    by (fastforce simp: walk_Some)
qed

lemma pool_render_exact:
  assumes E: "render_scripts_ok E" and rep: "pool_rep st us gs"
    and cbs: "\<forall>x\<in>set us. callbacks_rep (objects st x) (cs x)"
  shows "\<exists>u s1 v. fold_option (onBeforeBatch E BatchRender) (m_callbacks st) (external st) = Some u
    \<and> fold_option (draw_visible E cs) (m_render_list st) (st\<lparr>m_is_rendering := True, external := u\<rparr>) = Some s1
    \<and> extends (st\<lparr>m_is_rendering := True, external := u\<rparr>) us s1 us
    \<and> fold_option (onAfterBatch E BatchRender) (m_callbacks st) (external s1) = Some v
    \<and> pool_render E st = Some (s1\<lparr>m_is_rendering := False, external := v\<rparr>)"
proof -
  have M: "manager_total E" using E by (simp add: render_scripts_ok_def)
  have ro: "render_ok (m_render_list st) (objects st) (set us)" using rep by (simp add: pool_rep_def)
  then have d: "distinct (m_render_list st)"
    using layers.sorted_distinct[of "objects st"] by (simp add: render_ok_def layer_lt_eta)
  let ?st0 = "st\<lparr>m_is_rendering := True\<rparr>"
  obtain u where u: "fold_option (onBeforeBatch E BatchRender) (m_callbacks st) (external st) = Some u"
    and b: "dispatchOnBeforeBatch E BatchRender ?st0 = Some (?st0\<lparr>external := u\<rparr>)"
    using before_batch[OF M, of BatchRender ?st0] by auto
  let ?st = "?st0\<lparr>external := u\<rparr>"
  have "pool_rep ?st us gs" using rep by simp
  from render_loop[OF E this, of "[]" "m_render_list st" cs] d ro cbs obtain s1 where
    l: "walk (render_step E) (head_of (m_render_list st)) ?st = Some s1"
    "fold_option (draw_visible E cs) (m_render_list st) ?st = Some s1" "render_keeps ?st us s1"
    by (auto simp: render_ok_def)
  have cb: "m_callbacks s1 = m_callbacks st"
    using l(3) by (simp add: render_keeps_def extends_def pool_context_def)
  obtain v where v: "fold_option (onAfterBatch E BatchRender) (m_callbacks st) (external s1) = Some v"
    and a: "dispatchOnAfterBatch E BatchRender s1 = Some (s1\<lparr>external := v\<rparr>)"
    using after_batch[OF M cb] by blast
  have "pool_render E st = Some (s1\<lparr>m_is_rendering := False, external := v\<rparr>)"
    using b l(1) a by (simp add: pool_render_def)
  then show ?thesis using u l(2,3) v
    by - (rule exI[of _ u], rule exI[of _ s1], rule exI[of _ v], simp add: render_keeps_def)
qed

end
