(* ===== verification/PoolCorrect.thy ===== *)
theory PoolCorrect
  imports PoolPhases
begin

text \<open>
  The properties of the object manager, each with an application to a small pool: three
  slots, two objects, one registered script callback, scripts that create objects.
\<close>

subsection \<open>A small pool\<close>

lemma game_pool_new_rep:
  assumes "n \<le> 65536"
  shows "pool_rep (game_pool_new n u) [] (\<lambda>_. [])"
proof -
  have "length (m_used (pool_new n)) = n" by (simp add: pool_new_def pool_clear_def Let_def)
  then show ?thesis using assms pool_new_inv[of n] pool_new_live[of n]
    by (simp add: pool_rep_def game_pool_new_def slots_ok_def detect_ok_def render_ok_def
        represents_empty list_empty_def empty_object_list_def game_object_zero_def)
qed

definition demo_float :: float_ops where
  "demo_float = \<lparr>fadd = (\<lambda>a b. a + b), fsub = (\<lambda>a b. a - b), fmul = (\<lambda>a b. b), fdiv = (\<lambda>a b. a),
     fsqrt = (\<lambda>a. a), fhypot = (\<lambda>a b. a), fatan2 = (\<lambda>a b. a), fcos = (\<lambda>a. a), fsin = (\<lambda>a. a),
     to_float = ucast, fmul32 = (\<lambda>a b. a)\<rparr>"

text \<open>
  Its scripts create objects: an update creates one with the same callback and kills its own,
  the border and trigger callbacks create a plain one and count, a render callback counts.
\<close>

definition demo_base :: "nat environment" where
  "demo_base = \<lparr>float = demo_float, collide = (\<lambda>a b. True), gscale = 0,
     particle_actived = (\<lambda>u p. False), run_particles = (\<lambda>c u. u), run_resources = (\<lambda>c u. u),
     run_draws = (\<lambda>c u. u + length c), onCreate = (\<lambda>c x g u. Some u), onDestroy = (\<lambda>c x g u. Some (u + 1)),
     onBeforeBatch = (\<lambda>b c u. Some u), onAfterBatch = (\<lambda>b c u. Some u),
     onQueueToDestroy = (\<lambda>r c x st. Some st), onUpdate = (\<lambda>c x st. Some st),
     onRender = (\<lambda>c x st. Some (st\<lparr>external := external st + 10\<rparr>)),
     onTrigger = (\<lambda>c x y st. Some st)\<rparr>"

definition demo_spawn :: "nat option \<Rightarrow> (nat game_pool \<Rightarrow> nat game_pool) \<Rightarrow> nat game_pool \<Rightarrow> nat game_pool option" where
  "demo_spawn cb f st = map_option (\<lambda>r. f (snd r)) (allocateWithCallbacks demo_base cb st)"

definition demo_count :: "nat game_pool \<Rightarrow> nat game_pool" where
  "demo_count st = st\<lparr>external := external st + 1\<rparr>"

definition demo_env :: "nat environment" where
  "demo_env = demo_base
     \<lparr>onQueueToDestroy := (\<lambda>r c x. demo_spawn None demo_count),
      onUpdate := (\<lambda>c x. demo_spawn (Some c) (\<lambda>st. snd (queueToFree x False st))),
      onTrigger := (\<lambda>c x y. demo_spawn None demo_count)\<rparr>"

lemma demo_manager: "manager_total demo_env" "manager_total demo_base"
  by (simp_all add: manager_total_def demo_env_def demo_base_def)

text \<open>These scripts fulfil the contracts although they create objects.\<close>

lemma demo_spawn_ok:
  assumes f: "\<And>st us gs. pool_rep st us gs \<Longrightarrow> x \<in> set us \<Longrightarrow> extends st us (f st) us"
  shows "call_ok (\<lambda>c. demo_spawn (cb c) f) x"
  unfolding call_ok_def
proof (intro allI impI)
  fix c us gs and st :: "nat game_pool"
  assume True: "pool_rep st us gs \<and> uid_room st us \<and> x \<in> set us"
  then obtain r st1 us1 where a: "allocateWithCallbacks demo_base (cb c) st = Some (r, st1)" "extends st us st1 us1"
    using allocate_extends[OF demo_manager(2), of st us gs "cb c"] by blast
  obtain gs1 where "pool_rep st1 us1 gs1" using extends_rep[OF a(2)] by blast
  then have "extends st1 us1 (f st1) us1" using f extends_subset[OF a(2)] True by blast
  then show "\<exists>st' us'. demo_spawn (cb c) f st = Some st' \<and> extends st us st' us'"
    using a(1) extends_trans[OF a(2)] by (auto simp: demo_spawn_def)
qed

lemma demo_scripts:
  "update_scripts_ok demo_env" "destroy_scripts_ok demo_env" "trigger_scripts_ok demo_env"
  "render_scripts_ok demo_env"
proof -
  have q: "extends st us (snd (queueToFree x False st)) us" if "pool_rep st us gs" "x \<in> set us"
    for st :: "nat game_pool" and us gs x
    using queueToFree_rep[OF that, of False] by (auto simp: extends_def queueToFree_def Let_def)
  have count: "extends st us (demo_count st) us" if "pool_rep st us gs" for st :: "nat game_pool" and us gs
    using extends_external[OF that] by (simp add: demo_count_def)
  have eqs: "onQueueToDestroy demo_env r c x = demo_spawn None demo_count"
    "onTrigger demo_env c x y = demo_spawn None demo_count"
    "onUpdate demo_env c x = demo_spawn (Some c) (\<lambda>st. snd (queueToFree x False st))"
    "onRender demo_env c x st = Some (st\<lparr>external := external st + 10\<rparr>)" for r c x y st
    by (simp_all add: demo_env_def demo_base_def)
  have "call_ok (\<lambda>c. onUpdate demo_env c x) x" for x
    unfolding eqs by (rule demo_spawn_ok[OF q])
  then show "update_scripts_ok demo_env" using demo_manager by (simp add: update_scripts_ok_def)
  have "call_ok (\<lambda>c. demo_spawn None demo_count) x" for x
    by (rule demo_spawn_ok[OF count])
  then show "destroy_scripts_ok demo_env" "trigger_scripts_ok demo_env"
    using demo_manager by (simp_all add: destroy_scripts_ok_def trigger_scripts_ok_def eqs)
  show "render_scripts_ok demo_env"
    using demo_manager extends_external
    by (auto simp: render_scripts_ok_def eqs render_keeps_def)
qed

definition demo_empty :: "nat game_pool" where
  "demo_empty = game_pool_new 3 0"

definition demo_one :: "nat game_pool" where
  "demo_one = snd (the (allocateWithCallbacks demo_env (Some 7) demo_empty))"

definition demo_pool :: "nat game_pool" where
  "demo_pool = snd (the (allocateWithCallbacks demo_env None demo_one))"

lemma demo_empty_rep: "pool_rep demo_empty [] (\<lambda>_. [])" "pool_capacity demo_empty = 3"
  "m_iUid demo_empty = 0" "m_callbacks demo_empty = []"
  using game_pool_new_rep[of 3 0]
  by (simp_all add: demo_empty_def game_pool_new_def pool_capacity_def pool_new_def pool_clear_def Let_def)

lemma demo_slots:
  "fst (pool_alloc (pool_new 3)) = Some 0"
  "fst (pool_alloc (snd (pool_alloc (pool_new 3)))) = Some 1"
  by (simp_all add: pool_alloc_def pool_new_def pool_clear_def Let_def upt_rec numeral_3_eq_3)

lemma demo_one_facts:
  "allocateWithCallbacks demo_env (Some 7) demo_empty = Some (Some 0, demo_one)"
  "pool_rep demo_one [0] ((\<lambda>_. [])(0 := [0]))" "pool_context demo_one = pool_context demo_empty"
  "objects demo_one = (objects demo_empty)(0 := new_object 0 0 (Some 7) game_object_zero)"
  "m_iUid demo_one = 1" "m_ObjectPool demo_one = snd (pool_alloc (pool_new 3))" "m_callbacks demo_one = []"
proof -
  have a: "pool_alloc (m_ObjectPool demo_empty) = (Some 0, snd (pool_alloc (pool_new 3)))"
    using demo_slots(1) by (simp add: demo_empty_def game_pool_new_def prod_eq_iff)
  from allocate_room[OF demo_empty_rep(1) _ _ demo_manager(1), of "Some 7"] demo_empty_rep
  obtain i st where s: "allocateWithCallbacks demo_env (Some 7) demo_empty = Some (Some i, st)"
    "pool_rep st [i] ((\<lambda>_. [])(0 := [i]))" "pool_context st = pool_context demo_empty"
    "objects st = (objects demo_empty)(i := new_object i 0 (Some 7) (objects demo_empty i))"
    "m_iUid st = 1" "pool_alloc (m_ObjectPool demo_empty) = (Some i, m_ObjectPool st)" "m_callbacks st = []"
    by (auto simp: max_unique_id_def)
  then have "i = 0" "demo_one = st" "m_ObjectPool st = snd (pool_alloc (pool_new 3))"
    using a by (simp_all add: demo_one_def)
  then show
    "allocateWithCallbacks demo_env (Some 7) demo_empty = Some (Some 0, demo_one)"
    "pool_rep demo_one [0] ((\<lambda>_. [])(0 := [0]))" "pool_context demo_one = pool_context demo_empty"
    "objects demo_one = (objects demo_empty)(0 := new_object 0 0 (Some 7) game_object_zero)"
    "m_iUid demo_one = 1" "m_ObjectPool demo_one = snd (pool_alloc (pool_new 3))" "m_callbacks demo_one = []"
    using s by (simp_all add: demo_empty_def game_pool_new_def)
qed

definition demo_groups :: "nat \<Rightarrow> nat list" where
  "demo_groups = (\<lambda>_. [])(0 := [0, 1])"

lemma demo_pool_facts:
  "pool_rep demo_pool [0, 1] demo_groups" "pool_context demo_pool = pool_context demo_empty"
  "objects demo_pool = (objects demo_empty)(0 := new_object 0 0 (Some 7) game_object_zero,
     1 := new_object 1 1 None game_object_zero)"
  "m_iUid demo_pool = 2" "m_callbacks demo_pool = []"
proof -
  have a: "pool_alloc (m_ObjectPool demo_one) = (Some 1, snd (pool_alloc (snd (pool_alloc (pool_new 3)))))"
    unfolding demo_one_facts(6) using demo_slots(2) by (simp add: prod_eq_iff)
  have "pool_capacity demo_one = 3" using demo_one_facts(3) demo_empty_rep(2) by (simp add: pool_context_def)
  with allocate_room[OF demo_one_facts(2) _ _ demo_manager(1), of None] demo_one_facts(5,7)
  obtain i st where s: "allocateWithCallbacks demo_env None demo_one = Some (Some i, st)"
    "pool_rep st [0, i] ((\<lambda>_. [])(0 := [0, i]))" "pool_context st = pool_context demo_one"
    "objects st = (objects demo_one)(i := new_object i 1 None (objects demo_one i))"
    "m_iUid st = 2" "pool_alloc (m_ObjectPool demo_one) = (Some i, m_ObjectPool st)" "m_callbacks st = []"
    by (auto simp: max_unique_id_def)
  then have "i = 1" "demo_pool = st" using a by (simp_all add: demo_pool_def)
  then show "pool_rep demo_pool [0, 1] demo_groups" "pool_context demo_pool = pool_context demo_empty"
    "objects demo_pool = (objects demo_empty)(0 := new_object 0 0 (Some 7) game_object_zero,
      1 := new_object 1 1 None game_object_zero)"
    "m_iUid demo_pool = 2" "m_callbacks demo_pool = []"
    using s demo_one_facts(3,4) by (simp_all add: demo_groups_def demo_empty_def game_pool_new_def)
qed

text \<open>
  The same pool with the first object's class callbacks set and the object moved to \<open>(p, p)\<close>.
\<close>

definition demo_features :: GameObjectFeatures where
  "demo_features = features_reset\<lparr>is_class := True, has_callback_destroy := True,
     has_callback_update := True, has_callback_render := True, has_callback_trigger := True\<rparr>"

definition demo_acting :: "double \<Rightarrow> nat game_pool" where
  "demo_acting p = set_object 0
     ((objects demo_pool 0)\<lparr>features := demo_features, pos_x := p, pos_y := p\<rparr>) demo_pool"

definition demo_callbacks :: "nat \<Rightarrow> nat list" where
  "demo_callbacks = (\<lambda>_. [])(0 := [7])"

lemma demo_acting_facts:
  "pool_rep (demo_acting p) [0, 1] demo_groups" "uid_room (demo_acting p) [0, 1]"
  "pool_context (demo_acting p) = pool_context demo_empty"
  "\<forall>x\<in>set [0, 1]. callbacks_rep (objects (demo_acting p) x) (demo_callbacks x)"
  "objects (demo_acting p) = (objects demo_empty)
     (0 := (new_object 0 0 (Some 7) game_object_zero)\<lparr>features := demo_features, pos_x := p, pos_y := p\<rparr>,
      1 := new_object 1 1 None game_object_zero)"
proof -
  have o: "objects demo_pool 0 = new_object 0 0 (Some 7) game_object_zero"
    "objects demo_pool 1 = new_object 1 1 None game_object_zero" using demo_pool_facts(3) by simp_all
  have ok: "object_ok 0 (objects demo_pool 0)" using pool_rep_object[OF demo_pool_facts(1)] by simp
  show r: "pool_rep (demo_acting p) [0, 1] demo_groups"
    unfolding demo_acting_def using ok
    by (intro pool_rep_set_object[OF demo_pool_facts(1)])
      (auto simp: same_place_def object_ok_def resource_inv_def callbacks_rep_def isDirectCallbacks_def)
  show c: "pool_context (demo_acting p) = pool_context demo_empty"
    using demo_pool_facts(2) by (simp add: demo_acting_def set_object_def pool_context_defs)
  show "uid_room (demo_acting p) [0, 1]"
    using c demo_empty_rep(2) demo_pool_facts(4)
    by (simp add: uid_room_def pool_context_def max_unique_id_def demo_acting_def set_object_def)
  show "\<forall>x\<in>set [0, 1]. callbacks_rep (objects (demo_acting p) x) (demo_callbacks x)"
    by (simp add: demo_acting_def o[unfolded One_nat_def] demo_callbacks_def new_object_def game_object_Reset_def
        setDirectCallbacks_def callbacks_rep_def game_object_zero_def Let_def)
  show "objects (demo_acting p) = (objects demo_empty)
     (0 := (new_object 0 0 (Some 7) game_object_zero)\<lparr>features := demo_features, pos_x := p, pos_y := p\<rparr>,
      1 := new_object 1 1 None game_object_zero)"
    by (simp add: demo_acting_def demo_pool_facts(3) fun_eq_iff)
qed

subsection \<open>Allocation and release\<close>

text \<open>
  C1.  \<open>allocateWithCallbacks\<close>: when every slot is in use it returns null and changes
  nothing; otherwise it returns a slot that was free, holding a reset, active object with a
  fresh unique id and the given callback, appended to the update list and to collision
  group 0, and the pool's lists, render order and slot flags stay consistent.
\<close>

theorem pool_allocate_correct:
  assumes "pool_rep st us gs" "m_iUid st < max_unique_id" "manager_total E"
  shows "if length us = pool_capacity st then allocateWithCallbacks E cb st = Some (None, st)
    else \<exists>i st'. allocateWithCallbacks E cb st = Some (Some i, st') \<and> i \<notin> set us
      \<and> i < pool_capacity st \<and> pool_rep st' (us @ [i]) (gs(0 := gs 0 @ [i]))
      \<and> objects st' = (objects st)(i := new_object i (m_iUid st) cb (objects st i))
      \<and> m_iUid st' = m_iUid st + 1"
proof (cases "length us = pool_capacity st")
  case True
  then show ?thesis using allocate_full[OF assms(1)] by simp
next
  case False
  then have "length us < pool_capacity st" using pool_rep_bounded(2)[OF assms(1)] by simp
  from allocate_room[OF assms(1) this assms(2,3), of cb] False show ?thesis by auto
qed

theorem pool_allocate_correct_witness:
  "\<exists>i st'. allocateWithCallbacks demo_env (Some 5) demo_pool = Some (Some i, st') \<and> i \<notin> {0, 1}
    \<and> pool_rep st' [0, 1, i] (demo_groups(0 := [0, 1, i]))"
  using pool_allocate_correct[OF demo_pool_facts(1) _ demo_manager(1), of "Some 5"] demo_pool_facts(2,4)
    demo_empty_rep(2)
  by (auto simp: max_unique_id_def pool_context_def demo_groups_def)

text \<open>
  C2.  \<open>freeWithCallbacks\<close> takes the object out of the update list, its collision group,
  the render order and the slots, marks it free, drops its resource, leaves every other
  object alone and returns the object that followed it in the update list.
\<close>

theorem pool_free_correct:
  assumes "pool_rep st (as @ x # bs) gs" "manager_total E"
  shows "\<exists>st' gs'. freeWithCallbacks E x st = Some (head_of bs, st') \<and> pool_rep st' (as @ bs) gs'
    \<and> m_render_list st' = remove1 x (m_render_list st) \<and> status (objects st' x) = Free
    \<and> res (objects st' x) = None \<and> (\<forall>y. y \<noteq> x \<longrightarrow> objects st' y = objects st y)"
  using free_rep[OF assms refl] by blast

theorem pool_free_correct_witness:
  "\<exists>st' gs'. freeWithCallbacks demo_env 0 demo_pool = Some (Some 1, st') \<and> pool_rep st' [1] gs'"
  using pool_free_correct[of demo_pool "[]" 0 "[1]" demo_groups demo_env] demo_pool_facts(1) demo_manager
  by auto

text \<open>
  A slot that \<open>freeWithCallbacks\<close> gave back is the next one allocated, and the new
  object does not inherit the unique id of the old one: a stale (slot, unique id) pair no
  longer matches.
\<close>

theorem pool_reuse_slot:
  assumes "pool_rep st (as @ x # bs) gs" "manager_total E" "m_iUid st < max_unique_id"
  shows "\<exists>st1 st2. freeWithCallbacks E x st = Some (head_of bs, st1)
    \<and> allocateWithCallbacks E cb st1 = Some (Some x, st2)
    \<and> unique_id (objects st2 x) \<noteq> unique_id (objects st x)"
proof -
  from free_slot_next[OF assms(1,2)] obtain st1 gs1 where f: "freeWithCallbacks E x st = Some (head_of bs, st1)"
    "pool_rep st1 (as @ bs) gs1" "pool_context st1 = pool_context st" "m_iUid st1 = m_iUid st"
    "fst (pool_alloc (m_ObjectPool st1)) = Some x" by blast
  have "length (as @ bs) < pool_capacity st1"
    using pool_rep_bounded(2)[OF assms(1)] f(3) by (simp add: pool_context_def)
  from allocate_room[OF f(2) this _ assms(2), of cb] assms(3) f(4) obtain i st2 where
    a: "allocateWithCallbacks E cb st1 = Some (Some i, st2)"
    "objects st2 = (objects st1)(i := new_object i (m_iUid st1) cb (objects st1 i))"
    "pool_alloc (m_ObjectPool st1) = (Some i, m_ObjectPool st2)" by auto
  have "i = x" using a(3) f(5) by simp
  moreover have "unique_id (objects st x) < m_iUid st" using assms(1) by (simp add: pool_rep_def)
  ultimately show ?thesis using a(1,2) f(1,4) by auto
qed

theorem pool_reuse_slot_witness:
  "\<exists>st1 st2. freeWithCallbacks demo_env 0 demo_pool = Some (Some 1, st1)
    \<and> allocateWithCallbacks demo_env None st1 = Some (Some 0, st2)
    \<and> unique_id (objects st2 0) \<noteq> unique_id (objects demo_pool 0)"
  using pool_reuse_slot[of demo_pool "[]" 0 "[1]" demo_groups demo_env None] demo_pool_facts(1,4)
    demo_manager by (auto simp: max_unique_id_def)

text \<open>
  \<open>queueToFree\<close> only marks: it keeps every list, a second call on the same object
  reports no callback and changes nothing, and the first call reports exactly whether the
  class has the matching callback (\<open>del\<close>, or \<open>kill\<close> in legacy kill mode).
\<close>

theorem pool_queueToFree_once:
  assumes "pool_rep st us gs" "x \<in> set us" "status (objects st x) = Active"
  shows "pool_rep (snd (queueToFree x kill st)) us gs
    \<and> status (objects (snd (queueToFree x kill st)) x) = (if kill then Killed else Dead)
    \<and> fst (queueToFree x kill st) = (if kill then has_callback_legacy_kill (features (objects st x))
        else has_callback_destroy (features (objects st x)))
    \<and> queueToFree x kill' (snd (queueToFree x kill st)) = (False, snd (queueToFree x kill st))"
  using queueToFree_rep(1)[OF assms(1,2)] assms(3) by (auto simp: queueToFree_def Let_def)

theorem pool_queueToFree_once_witness:
  "queueToFree 0 True (snd (queueToFree 0 False demo_pool)) = (False, snd (queueToFree 0 False demo_pool))"
  using pool_queueToFree_once[OF demo_pool_facts(1), of 0 False True] demo_pool_facts(3) by simp

subsection \<open>Moving objects\<close>

text \<open>
  \<open>setGroup\<close> on an object that is not locked by a running detection moves it to the end
  of the new group's list and keeps the pool consistent; the update order does not change.
\<close>

theorem pool_setGroup_correct:
  assumes "pool_rep st us gs" "x \<in> set us" "unat n < LOBJPOOL_GROUPN"
    "\<not> isLockedByDetectIntersection x st" "g = unat (group (objects st x))" "g \<noteq> unat n"
  shows "\<exists>st'. pool_setGroup x n st = Some st' \<and> group (objects st' x) = n
    \<and> pool_rep st' us (gs(g := remove1 x (gs g), unat n := gs (unat n) @ [x]))"
  using setGroup_rep[OF assms(1-5)] assms(6) by auto

theorem pool_setGroup_correct_witness:
  "\<exists>st'. pool_setGroup 0 3 demo_pool = Some st' \<and> pool_rep st' [0, 1] (demo_groups(0 := [1], 3 := [0]))"
  using pool_setGroup_correct[OF demo_pool_facts(1), of 0 3 0] demo_pool_facts(2,3)
  by (auto simp: LOBJPOOL_GROUPN_def isLockedByDetectIntersection_def pool_context_def demo_empty_def
      game_pool_new_def demo_groups_def)

text \<open>
  C9.  \<open>setLayer\<close> with a number, outside rendering, re-sorts the object and keeps the render
  order complete and strictly sorted by (layer, unique id).
\<close>

theorem pool_setLayer_correct:
  assumes "pool_rep st us gs" "x \<in> set us" "\<not> is_nan l" "\<not> m_is_rendering st"
  shows "\<exists>st'. pool_setLayer x l st = Some st' \<and> pool_rep st' us gs \<and> layer (objects st' x) = l
    \<and> set (m_render_list st') = set us \<and> sorted_wrt (layer_lt (objects st')) (m_render_list st')"
proof -
  from setLayer_rep[OF assms] obtain st' where "pool_setLayer x l st = Some st'" "pool_rep st' us gs"
    "objects st' = (objects st)(x := (objects st x)\<lparr>layer := l\<rparr>)" by blast
  then show ?thesis by (auto simp: pool_rep_def render_ok_def)
qed

theorem pool_setLayer_correct_witness:
  "\<exists>st'. pool_setLayer 0 double_100 demo_pool = Some st' \<and> layer (objects st' 0) = double_100
    \<and> set (m_render_list st') = {0, 1}"
  using pool_setLayer_correct[OF demo_pool_facts(1), of 0 double_100] demo_pool_facts(2)
  by (auto simp: double_100_def is_nan_def pool_context_def demo_empty_def game_pool_new_def)

text \<open>
  \<open>setLayer\<close> with a NaN drops the object from rendering whenever another object is in
  the pool: the render order and the update list disagree afterwards.
\<close>

theorem pool_setLayer_nan:
  assumes "pool_rep st us gs" "x \<in> set us" "us \<noteq> [x]" "is_nan l" "\<not> m_is_rendering st"
  shows "\<exists>st'. pool_setLayer x l st = Some st' \<and> x \<notin> set (m_render_list st')
    \<and> (\<forall>vs gs. \<not> pool_rep st' vs gs)"
proof -
  have ro: "render_ok (m_render_list st) (objects st) (set us)" using assms(1) by (simp add: pool_rep_def)
  let ?objs = "(objects st)(x := (objects st x)\<lparr>layer := l\<rparr>)"
  let ?rl = "set_erase (layer_lt (objects st)) x (m_render_list st)"
  have er: "?rl = remove1 x (m_render_list st)" "render_ok ?rl (objects st) (set us - {x})"
    using render_ok_erase[OF ro assms(2)] by simp_all
  have "set us - {x} \<noteq> {}"
    using assms(2,3) pool_rep_distinct[OF assms(1)] by (cases us; cases "tl us") auto
  then have "?rl \<noteq> []" using er(2) by (auto simp: render_ok_def)
  then have "set_insert (layer_lt ?objs) x ?rl = ?rl"
    using assms(4) by (intro nan_layer_not_inserted) simp
  then have "pool_setLayer x l st = Some (st\<lparr>objects := ?objs, m_render_list := ?rl\<rparr>)"
    using assms(5) by (simp add: pool_setLayer_def render_list_erase_def render_list_insert_def set_object_def)
  moreover have "x \<notin> set ?rl" using er(2) by (simp add: render_ok_def)
  moreover have "\<not> pool_rep (st\<lparr>objects := ?objs, m_render_list := ?rl\<rparr>) vs gs'" for vs gs'
  proof
    assume r: "pool_rep (st\<lparr>objects := ?objs, m_render_list := ?rl\<rparr>) vs gs'"
    then have "pool_live (m_ObjectPool st) = set vs" "set ?rl = set vs"
      using pool_rep_live by (fastforce, simp add: pool_rep_def render_ok_def)
    with pool_rep_live[OF assms(1)] assms(2) \<open>x \<notin> set ?rl\<close> show False by auto
  qed
  ultimately show ?thesis by auto
qed

theorem pool_setLayer_nan_witness:
  "\<exists>st'. pool_setLayer 0 0x7FF8000000000000 demo_pool = Some st' \<and> 0 \<notin> set (m_render_list st')"
  using pool_setLayer_nan[OF demo_pool_facts(1), of 0 "0x7FF8000000000000"] demo_pool_facts(2)
  by (auto simp: is_nan_def pool_context_def demo_empty_def game_pool_new_def)

text \<open>
  \<open>DirtResetObject\<close> gives the object the next unique id and moves it to the end of the
  update list and of its own group; a loop over the update list that is at this object
  therefore ends with it.
\<close>

theorem pool_dirt_reset_correct:
  assumes "pool_rep st (as @ x # bs) gs" "m_iUid st < max_unique_id"
    "\<not> isLockedByDetectIntersection x st"
  shows "\<exists>st' gs'. DirtResetObject x st = Some st' \<and> pool_rep st' (as @ bs @ [x]) gs'
    \<and> unique_id (objects st' x) = m_iUid st \<and> update_next st' x = None"
proof -
  from DirtReset_rep[OF assms refl] obtain st' gs' where s: "DirtResetObject x st = Some st'"
    "pool_rep st' (as @ bs @ [x]) gs'" "objects st' = (objects st)(x := (objects st x)\<lparr>unique_id := m_iUid st\<rparr>)"
    by blast
  from s(2) have "update_next st' x = None"
    using pool_rep_next[of st' "as @ bs" x "[]"] by simp
  with s show ?thesis by auto
qed

theorem pool_dirt_reset_correct_witness:
  "\<exists>st' gs'. DirtResetObject 0 demo_pool = Some st' \<and> pool_rep st' [1, 0] gs'
    \<and> unique_id (objects st' 0) = 2 \<and> update_next st' 0 = None"
  using pool_dirt_reset_correct[of demo_pool "[]" 0 "[1]" demo_groups] demo_pool_facts
  by (auto simp: max_unique_id_def isLockedByDetectIntersection_def pool_context_def demo_empty_def
      game_pool_new_def)

end
