(* ===== verification/FrameCorrect.thy ===== *)
theory FrameCorrect
  imports PoolCorrect
begin

text \<open>
  The properties of the frame functions of the object manager and of single objects.
\<close>

subsection \<open>Frames\<close>




text \<open>
  Without update callbacks \<open>updateMovementsLegacy\<close> moves every object exactly once,
  skips the paused ones when the super pause is running, and touches nothing else.
\<close>

theorem frame_update_moves:
  assumes "manager_total E" "pool_rep st us gs"
    "\<forall>x\<in>set us. \<not> has_callback_update (features (objects st x))"
  shows "\<exists>st'. updateMovementsLegacy E st = Some st' \<and> pool_rep st' us gs
    \<and> (\<forall>i. objects st' i = (if i \<in> set us \<and> (\<not> 0 <s m_nextsuperpause st \<or> ignore_super_pause (objects st i))
         then update_motion (float E) (objects st i) else objects st i))"
  using updateMovementsLegacy_moves[OF assms] by (auto simp: unless_paused_def paused_def)

lemma demo_env_float [simp]: "float demo_env = demo_float" "collide demo_env = (\<lambda>a b. True)"
  by (simp_all add: demo_env_def demo_base_def)

lemma demo_features [simp]: "features (new_object i w cb g) = features_reset"
  by (simp add: new_object_def game_object_Reset_def setDirectCallbacks_def Let_def split: option.splits)

lemma demo_objects [simp]:
  "objects demo_pool 0 = new_object 0 0 (Some 7) game_object_zero"
  "objects demo_pool (Suc 0) = new_object 1 1 None game_object_zero"
  using demo_pool_facts(3) by simp_all

theorem frame_update_moves_witness:
  "\<exists>st'. updateMovementsLegacy demo_env demo_pool = Some st' \<and> pool_rep st' [0, 1] demo_groups
    \<and> objects st' 0 = update_motion demo_float (objects demo_pool 0)"
proof -
  have "m_nextsuperpause demo_pool = 0"
    using demo_pool_facts(2) by (simp add: pool_context_def demo_empty_def game_pool_new_def)
  then show ?thesis
    using frame_update_moves[OF demo_manager(1) demo_pool_facts(1)]
    by (auto simp: features_reset_def)
qed

text \<open>
  C3.  \<open>updateNext\<close> releases exactly the objects that are neither active nor paused, keeps
  the order of the others, and ages each survivor that is not paused once.
\<close>

theorem frame_next_correct:
  assumes "manager_total E" "pool_rep st us gs"
  shows "\<exists>st' gs'. updateNext E st = Some st'
    \<and> pool_rep st' (filter (\<lambda>i. survives (m_nextsuperpause st) (objects st i)) us) gs'
    \<and> (\<forall>i\<in>set us. if survives (m_nextsuperpause st) (objects st i)
         then objects st' i = unless_paused (m_nextsuperpause st) (game_object_UpdateLastV2 (float E)) (objects st i)
         else status (objects st' i) = Free)"
  using updateNext_correct[OF assms] by blast

definition demo_killed :: "nat game_pool" where
  "demo_killed = snd (queueToFree 0 False demo_pool)"

lemma demo_killed_facts:
  "pool_rep demo_killed [0, 1] demo_groups" "status (objects demo_killed 0) = Dead"
  "objects demo_killed 1 = new_object 1 1 None game_object_zero"
  "m_nextsuperpause demo_killed = 0" "m_superpause demo_killed = 0"
proof -
  show "pool_rep demo_killed [0, 1] demo_groups"
    using queueToFree_rep(1)[OF demo_pool_facts(1), of 0 False] by (simp add: demo_killed_def)
  have "pool_context demo_killed = pool_context demo_empty"
    using queueToFree_rep(2)[OF demo_pool_facts(1), of 0 False] demo_pool_facts(2)
    by (simp add: demo_killed_def)
  then show "m_nextsuperpause demo_killed = 0" "m_superpause demo_killed = 0"
    by (simp_all add: pool_context_def demo_empty_def game_pool_new_def)
  show "status (objects demo_killed 0) = Dead" "objects demo_killed 1 = new_object 1 1 None game_object_zero"
    by (simp_all add: demo_killed_def queueToFree_def Let_def)
qed

theorem frame_next_correct_witness:
  "\<exists>st' gs'. updateNext demo_env demo_killed = Some st' \<and> pool_rep st' [1] gs'
    \<and> status (objects st' 0) = Free"
  using frame_next_correct[OF demo_manager(1) demo_killed_facts(1)] demo_killed_facts
  by (auto simp: survives_def paused_def)

text \<open>
  \<open>ResetPool\<close> terminates, releases every object and leaves an empty, consistent pool of
  the same size with the free list in linear order, no locks and no super pause.
\<close>

theorem pool_reset_correct:
  assumes "manager_total E" "pool_rep st us gs"
  shows "\<exists>st' gs'. ResetPool E st = Some st' \<and> pool_rep st' [] gs' \<and> GetObjectCount st' = 0
    \<and> pool_capacity st' = pool_capacity st \<and> m_ObjectPool st' = pool_clear (m_ObjectPool st')
    \<and> m_superpause st' = 0 \<and> m_nextsuperpause st' = 0 \<and> m_LockObjectA st' = None \<and> m_LockObjectB st' = None"
proof -
  from ResetPool_correct[OF assms] obtain st' gs' where r: "ResetPool E st = Some st'"
    "pool_rep st' [] gs'" "pool_capacity st' = pool_capacity st" "m_superpause st' = 0"
    "m_nextsuperpause st' = 0" "m_LockObjectA st' = None" "m_LockObjectB st' = None"
    "m_ObjectPool st' = pool_clear (m_ObjectPool st')" by blast
  have "GetObjectCount st' = 0"
    using pool_size_live[of "m_ObjectPool st'"] r(2) by (simp add: GetObjectCount_def pool_rep_def slots_ok_def)
  with r show ?thesis by blast
qed

theorem pool_reset_correct_witness:
  "\<exists>st' gs'. ResetPool demo_env demo_pool = Some st' \<and> pool_rep st' [] gs' \<and> GetObjectCount st' = 0"
  using pool_reset_correct[OF demo_manager(1) demo_pool_facts(1)] by blast




lemma demo_acting_objects [simp]:
  "objects (demo_acting p) 0 = (new_object 0 0 (Some 7) game_object_zero)
     \<lparr>features := demo_features, pos_x := p, pos_y := p\<rparr>"
  "objects (demo_acting p) (Suc 0) = new_object 1 1 None game_object_zero"
  by (simp_all add: demo_acting_facts(5))

lemma new_object_fields [simp]:
  "bound (new_object i w cb g) = True" "colli (new_object i w cb g) = True"
  "pos_x (new_object i w cb g) = 0" "pos_y (new_object i w cb g) = 0" "hide (new_object i w cb g) = False"
  by (simp_all add: new_object_def game_object_Reset_def setDirectCallbacks_def Let_def split: option.splits)





text \<open>
  C7.  \<open>render\<close> draws every visible object exactly once, in increasing layer and, for equal layers,
  increasing unique id: it calls the render callbacks of those whose class has them, one after
  the other, and draws the others' resources.  The managers' batch callbacks run before and after.
  The contract: render scripts change objects' data, but create and release none, register no
  callback and leave the order in which objects are drawn.
\<close>

theorem render_in_layer_order:
  assumes "render_scripts_ok E" "pool_rep st us gs"
    "\<forall>x\<in>set us. callbacks_rep (objects st x) (cs x)"
  shows "\<exists>u s1 v. fold_option (onBeforeBatch E BatchRender) (m_callbacks st) (external st) = Some u
    \<and> fold_option (draw_visible E cs) (m_render_list st) (st\<lparr>m_is_rendering := True, external := u\<rparr>) = Some s1
    \<and> fold_option (onAfterBatch E BatchRender) (m_callbacks st) (external s1) = Some v
    \<and> pool_render E st = Some (s1\<lparr>m_is_rendering := False, external := v\<rparr>)
    \<and> set (m_render_list st) = set us \<and> distinct (m_render_list st)
    \<and> (\<forall>i j. i < j \<longrightarrow> j < length (m_render_list st) \<longrightarrow>
        (let a = objects st (m_render_list st ! i); b = objects st (m_render_list st ! j)
         in double_lt (layer a) (layer b) \<or> double_eq (layer a) (layer b) \<and> unique_id a < unique_id b))"
proof -
  have ro: "render_ok (m_render_list st) (objects st) (set us)" using assms(2) by (simp add: pool_rep_def)
  then have s: "sorted_wrt (layer_lt (objects st)) (m_render_list st)" by (simp add: render_ok_def)
  have "distinct (m_render_list st)"
    using layers.sorted_distinct[of "objects st"] s by (simp add: layer_lt_eta)
  moreover have "set (m_render_list st) = set us" using ro by (simp add: render_ok_def)
  moreover have "\<forall>i j. i < j \<longrightarrow> j < length (m_render_list st) \<longrightarrow>
        (let a = objects st (m_render_list st ! i); b = objects st (m_render_list st ! j)
         in double_lt (layer a) (layer b) \<or> double_eq (layer a) (layer b) \<and> unique_id a < unique_id b)"
    using sorted_wrt_nth_less[OF s] by (simp add: layer_lt_def GameObjectLayerComparer_cases Let_def)
  ultimately show ?thesis using pool_render_exact[OF assms] by blast
qed

theorem render_in_layer_order_witness:
  "\<exists>s1 v. fold_option (draw_visible demo_env demo_callbacks) (m_render_list (demo_acting 0))
      ((demo_acting 0)\<lparr>m_is_rendering := True\<rparr>) = Some s1
    \<and> pool_render demo_env (demo_acting 0) = Some (s1\<lparr>m_is_rendering := False, external := v\<rparr>)
    \<and> set (m_render_list (demo_acting 0)) = {0, 1}"
proof -
  have "m_callbacks (demo_acting 0) = []"
    using demo_acting_facts(3)[of 0] demo_empty_rep(4) by (simp add: pool_context_def)
  moreover from render_in_layer_order[OF demo_scripts(4) demo_acting_facts(1,4)] obtain u s1 v where
    "fold_option (onBeforeBatch demo_env BatchRender) (m_callbacks (demo_acting 0)) (external (demo_acting 0)) = Some u"
    and t: "fold_option (draw_visible demo_env demo_callbacks) (m_render_list (demo_acting 0))
      ((demo_acting 0)\<lparr>m_is_rendering := True, external := u\<rparr>) = Some s1"
    "pool_render demo_env (demo_acting 0) = Some (s1\<lparr>m_is_rendering := False, external := v\<rparr>)"
    "set (m_render_list (demo_acting 0)) = set [0, 1]" by blast
  ultimately have "u = external (demo_acting 0)" by simp
  then have "(demo_acting 0)\<lparr>m_is_rendering := True, external := u\<rparr> = (demo_acting 0)\<lparr>m_is_rendering := True\<rparr>"
    by simp
  with t show ?thesis by auto
qed

subsection \<open>Single objects\<close>

text \<open>
  After \<open>Update\<close> the velocity is within the object's limits: both components are in
  \<open>[-max, max]\<close> unless they are NaN, and the position has moved by exactly that velocity.
\<close>

theorem motion_limited:
  assumes "double_le 0 (max_vx g)" "double_le 0 (max_vy g)" "g' = update_motion F g"
  shows "(is_nan (vx g') \<or> double_le (double_neg (max_vx g)) (vx g') \<and> double_le (vx g') (max_vx g))
    \<and> (is_nan (vy g') \<or> double_le (double_neg (max_vy g)) (vy g') \<and> double_le (vy g') (max_vy g))
    \<and> pos_x g' = fadd F (pos_x g) (vx g') \<and> pos_y g' = fadd F (pos_y g) (vy g')"
proof -
  obtain wx wy where "vx g' = double_clamp wx (double_neg (max_vx g)) (max_vx g)"
    "vy g' = double_clamp wy (double_neg (max_vy g)) (max_vy g)"
    using update_motion_clamped[of F g] assms(3) by blast
  then show ?thesis
    using clamp_result_range[OF _ assms(1)] clamp_result_range[OF _ assms(2)] update_motion_position[of F g]
      assms(3) by metis
qed

lemma new_object_limits [simp]:
  "max_vx (new_object i w cb g) = DBL_MAX" "max_vy (new_object i w cb g) = DBL_MAX"
  by (simp_all add: new_object_def game_object_Reset_def setDirectCallbacks_def Let_def split: option.splits)

lemma DBL_MAX_nonneg: "double_le 0 DBL_MAX"
  by (simp add: DBL_MAX_def double_le_def is_nan_def double_key_def)

theorem motion_limited_witness:
  "is_nan (vx (update_motion demo_float (new_object 0 0 None game_object_zero)))
    \<or> double_le (vx (update_motion demo_float (new_object 0 0 None game_object_zero))) DBL_MAX"
  using motion_limited[of "new_object 0 0 None game_object_zero" _ demo_float] DBL_MAX_nonneg
  by (simp only: new_object_limits) blast

text \<open>
  The callback list of an object behaves as a set in insertion order once it is an
  array: adding a new callback appends it and adding a registered one changes nothing,
  removal deletes it, and dispatch calls the registered callbacks in order.
\<close>

theorem callbacks_list_correct:
  assumes "callbacks_rep g cs" "cs \<noteq> []" "\<not> isDirectCallbacks g"
  shows "(\<exists>g'. addCallbacks g c = Some g' \<and> callbacks_rep g' (if c \<in> set cs then cs else cs @ [c]))
    \<and> (\<exists>g'. removeCallbacks g c = Some g' \<and> callbacks_rep g' (remove1 c cs))
    \<and> containsCallbacks g c = Some (c \<in> set cs) \<and> dispatch_targets g = Some cs"
  using addCallbacks_present[OF assms(1), of c] addCallbacks_array[OF assms(1) _ assms(2,3), of c]
    removeCallbacks_array[OF assms(1,3), of c] containsCallbacks_rep[OF assms(1), of c]
    dispatch_targets_rep[OF assms(1)] assms(1)
  by (cases "c \<in> set cs") auto

theorem callbacks_list_correct_witness:
  "\<exists>g'. addCallbacks (game_object_zero\<lparr>callbacks := CbArray [Some 4, Some 6], callbacks_count := 2,
      callbacks_capacity := 2\<rparr>) 9 = Some g' \<and> callbacks_rep g' [4, 6, 9]"
  using callbacks_list_correct[of "game_object_zero\<lparr>callbacks := CbArray [Some 4, Some 6],
      callbacks_count := 2, callbacks_capacity := 2\<rparr>" "[4, 6]" 9]
  by (auto simp: callbacks_rep_def isDirectCallbacks_def)

text \<open>
  Registering a second callback on an object with one writes outside the array of two
  cells that it allocates; removing a callback that is not the registered one from such an
  object reads the callback object as an array.  Both are undefined behaviour.
\<close>

theorem callbacks_second_undefined:
  assumes "callbacks_rep g [d]" "isDirectCallbacks g" "c \<noteq> d"
  shows "addCallbacks g c = None \<and> removeCallbacks g c = None"
  using addCallbacks_direct[OF assms(1,2), of c] removeCallbacks_direct[OF assms(1,2), of c] assms(3) by simp

theorem callbacks_second_undefined_witness:
  "addCallbacks (setDirectCallbacks game_object_zero 4) 9 = None"
  using callbacks_second_undefined[of "setDirectCallbacks game_object_zero 4" 4 9]
  by (simp add: isDirectCallbacks_def setDirectCallbacks_def callbacks_rep_def)

end
