(* ===== verification/RandomWords.thy ===== *)
theory RandomWords
  imports Prelude
begin

text \<open>
  Word-level building blocks of the generators of \<open>Utility/xorshift.hpp\<close>: the rotation, the
  xor-shift, the splitmix64 seeder, the scan of a jump table, and the contract
  (\<open>xor_engine\<close>) under which jumping is a polynomial in the step.
\<close>

subsection \<open>Rotations and shifts\<close>

definition rotl :: "'a::len word \<Rightarrow> nat \<Rightarrow> 'a word" where
  "rotl x k = push_bit k x OR drop_bit (LENGTH('a) - k) x"

lemma bit_rotl:
  assumes "0 < k" "k < LENGTH('a)" "n < LENGTH('a)"
  shows "bit (rotl (x :: 'a::len word) k) n = bit x (if n < k then n + LENGTH('a) - k else n - k)"
  using assms by (auto simp: rotl_def bit_or_iff bit_push_bit_iff bit_drop_bit_eq
      add.commute dest: bit_imp_le_length)

lemma push_bit_xor [xor_linear]:
  "push_bit k (x XOR y) = push_bit k x XOR push_bit k (y :: 'a::len word)"
  by (rule bit_word_eqI) (auto simp: bit_xor_iff bit_push_bit_iff)

lemma drop_bit_xor [xor_linear]:
  "drop_bit k (x XOR y) = drop_bit k x XOR drop_bit k (y :: 'a::len word)"
  by (rule bit_word_eqI) (auto simp: bit_xor_iff bit_drop_bit_eq)

lemma rotl_xor [xor_linear]:
  assumes "0 < k" "k < LENGTH('a)"
  shows "rotl (x XOR y) k = rotl x k XOR rotl (y :: 'a::len word) k"
  using assms by (intro bit_word_eqI) (auto simp: bit_rotl bit_xor_iff)

lemma rotl_inj:
  assumes "0 < k" "k < LENGTH('a)" "rotl x k = rotl (y :: 'a::len word) k"
  shows "x = y"
proof (rule bit_word_eqI)
  fix n assume n: "n < LENGTH('a)"
  define m where "m = (if n + k < LENGTH('a) then n + k else n + k - LENGTH('a))"
  have m: "m < LENGTH('a)" "(if m < k then m + LENGTH('a) - k else m - k) = n"
    using n assms(1,2) by (auto simp: m_def split: if_splits)
  have "bit (rotl x k) m = bit (rotl y k) m" by (simp add: assms(3))
  then show "bit x n = bit y n" by (simp only: bit_rotl[OF assms(1,2) m(1)] m(2))
qed

lemma rotl_eq_iff [simp]:
  assumes "0 < k" "k < LENGTH('a)"
  shows "rotl x k = rotl (y :: 'a::len word) k \<longleftrightarrow> x = y"
  using rotl_inj[OF assms] by blast

lemma xor_drop_bit_inj:
  assumes "0 < k" "x XOR drop_bit k x = y XOR drop_bit k (y :: 'a::len word)"
  shows "x = y"
proof (rule bit_word_eqI)
  fix n assume "n < LENGTH('a)"
  then show "bit x n = bit y n"
  proof (induction "LENGTH('a) - n" arbitrary: n rule: less_induct)
    case less
    have "bit (x XOR drop_bit k x) n = bit (y XOR drop_bit k y) n" using assms(2) by simp
    then have "(bit x n \<noteq> bit x (k + n)) = (bit y n \<noteq> bit y (k + n))"
      by (simp add: bit_xor_iff bit_drop_bit_eq)
    moreover have "bit x (k + n) = bit y (k + n)"
    proof (cases "k + n < LENGTH('a)")
      case True
      then show ?thesis using less(1)[of "k + n"] assms(1) by simp
    next
      case False
      then show ?thesis by (auto dest: bit_imp_le_length)
    qed
    ultimately show ?case by blast
  qed
qed

lemma xor_push_bit_inj:
  assumes "0 < k" "x XOR push_bit k x = y XOR push_bit k (y :: 'a::len word)"
  shows "x = y"
proof (rule bit_word_eqI)
  fix n assume "n < LENGTH('a)"
  then show "bit x n = bit y n"
  proof (induction n rule: less_induct)
    case (less n)
    have "bit (x XOR push_bit k x) n = bit (y XOR push_bit k y) n" using assms(2) by simp
    then have "(bit x n \<noteq> (k \<le> n \<and> bit x (n - k))) = (bit y n \<noteq> (k \<le> n \<and> bit y (n - k)))"
      using less(2) by (simp add: bit_xor_iff bit_push_bit_iff)
    then show ?case using less(1)[of "n - k"] less(2) assms(1) by (cases "k \<le> n") auto
  qed
qed

lemma xor_same_eq: "x XOR z = y XOR (z :: 'a::len word) \<longleftrightarrow> x = y"
  by (auto dest: arg_cong[where f = "\<lambda>w. w XOR z"] simp: xor.assoc)

lemma xor_same_eq': "z XOR x = z XOR (y :: 'a::len word) \<longleftrightarrow> x = y"
  by (simp add: xor.commute[of z] xor_same_eq)

lemma mult_odd_inj:
  assumes "x * c = y * (c :: 'a::len word)" "c * d = 1"
  shows "x = y"
proof -
  have "x * c * d = y * c * d" using assms(1) by simp
  then show ?thesis using assms(2) by (simp add: mult.assoc)
qed

subsection \<open>splitmix64\<close>

text \<open>The finaliser of \<open>splitmix64::next\<close>: what it returns for the value of \<open>x\<close> it started from.\<close>

definition splitmix64_mix :: "u64 \<Rightarrow> u64" where
  "splitmix64_mix z0 = (let
     z = (z0 XOR drop_bit 30 z0) * 0xbf58476d1ce4e5b9;
     z = (z XOR drop_bit 27 z) * 0x94d049bb133111eb
   in z XOR drop_bit 31 z)"

definition splitmix64_next :: "u64 \<Rightarrow> u64 \<times> u64" where
  "splitmix64_next x = (let z = x; x = x + 0x9e3779b97f4a7c15 in (splitmix64_mix z, x))"

text \<open>\<open>seed\<close> of every family draws the state words one after the other from a fresh splitmix64.\<close>

fun splitmix64_draws :: "nat \<Rightarrow> u64 \<Rightarrow> u64 list" where
  "splitmix64_draws 0 x = []"
| "splitmix64_draws (Suc n) x = (let (r, x') = splitmix64_next x in r # splitmix64_draws n x')"

lemma length_splitmix64_draws [simp]: "length (splitmix64_draws n x) = n"
  by (induction n arbitrary: x) (simp_all add: splitmix64_next_def)

lemma splitmix64_mix_inj: "splitmix64_mix x = splitmix64_mix y \<Longrightarrow> x = y"
proof -
  have i1: "(0xbf58476d1ce4e5b9 :: u64) * 0x96de1b173f119089 = 1"
    and i2: "(0x94d049bb133111eb :: u64) * 0x319642b2d24d8ec3 = 1" by simp_all
  show "splitmix64_mix x = splitmix64_mix y \<Longrightarrow> x = y"
    unfolding splitmix64_mix_def Let_def
    by (drule xor_drop_bit_inj[rotated], simp, drule mult_odd_inj[OF _ i2],
        drule xor_drop_bit_inj[rotated], simp, drule mult_odd_inj[OF _ i1],
        drule xor_drop_bit_inj[rotated], simp, simp)
qed

lemma splitmix64_mix_zero [simp]: "splitmix64_mix 0 = 0"
  by (simp add: splitmix64_mix_def)

lemma splitmix64_mix_eq_0: "splitmix64_mix x = 0 \<longleftrightarrow> x = 0"
  using splitmix64_mix_inj[of x 0] by auto

lemma splitmix64_two_draws:
  "\<not> (fst (splitmix64_next x) = 0 \<and> fst (splitmix64_next (snd (splitmix64_next x))) = 0)"
  by (auto simp: splitmix64_next_def Let_def splitmix64_mix_eq_0)

lemma splitmix64_draws_nonzero:
  assumes "2 \<le> n"
  shows "splitmix64_draws n x \<noteq> replicate n 0"
proof -
  obtain m where m: "n = Suc (Suc m)" using assms by (cases n; cases "n - 1") auto
  show ?thesis
    using splitmix64_two_draws[of x] by (auto simp: m split: prod.splits)
qed

end
