(* ===== verification/XorEngine.thy ===== *)
theory XorEngine
  imports RandomWords
begin

text \<open>
  The jump functions of \<open>Utility/xorshift.hpp\<close> and the contract they rely on.  A jump runs
  over the bits of a table, accumulating the states at the set bits, while the generator
  steps once per bit.  A \<open>xor_engine\<close> is a step that is linear and injective on its states:
  there the jump is a polynomial in the step.
\<close>

subsection \<open>The scan of a jump table\<close>

text \<open>\<open>JUMP_TABLE[i] & UINT64_C(1) << b\<close> for every word \<open>i\<close> and bit \<open>b\<close>, in loop order.\<close>

definition table_bits :: "'a::len word list \<Rightarrow> bool list" where
  "table_bits T = concat (map (\<lambda>w. map (\<lambda>b. w AND push_bit b 1 \<noteq> 0) [0..<LENGTH('a)]) T)"

text \<open>The two nested loops: accumulate if the bit is set, then \<open>next()\<close>.\<close>

fun jump_scan :: "('s \<Rightarrow> 's \<Rightarrow> 's) \<Rightarrow> ('s \<Rightarrow> 's) \<Rightarrow> bool list \<Rightarrow> 's \<Rightarrow> 's \<Rightarrow> 's" where
  "jump_scan add step [] acc s = acc"
| "jump_scan add step (b # bs) acc s
    = jump_scan add step bs (if b then add acc s else acc) (step s)"

text \<open>What a jump means: the sum of the states \<open>step^k s\<close> over the set bits \<open>k\<close>.\<close>

fun poly_in :: "('s \<Rightarrow> 's \<Rightarrow> 's) \<Rightarrow> 's \<Rightarrow> ('s \<Rightarrow> 's) \<Rightarrow> bool list \<Rightarrow> 's \<Rightarrow> 's" where
  "poly_in add zero step [] s = zero"
| "poly_in add zero step (b # bs) s
    = add (if b then s else zero) (poly_in add zero step bs (step s))"

lemma length_table_bits: "length (table_bits (T :: 'a::len word list)) = length T * LENGTH('a)"
  by (induction T) (simp_all add: table_bits_def)

subsection \<open>Linear injective steps\<close>

locale xor_engine =
  fixes ok :: "'s \<Rightarrow> bool"
    and step :: "'s \<Rightarrow> 's"
    and add :: "'s \<Rightarrow> 's \<Rightarrow> 's"
    and zero :: 's
  assumes ok_zero: "ok zero"
    and ok_add: "ok a \<Longrightarrow> ok b \<Longrightarrow> ok (add a b)"
    and ok_step: "ok a \<Longrightarrow> ok (step a)"
    and add_assoc: "ok a \<Longrightarrow> ok b \<Longrightarrow> ok c \<Longrightarrow> add (add a b) c = add a (add b c)"
    and add_commute: "ok a \<Longrightarrow> ok b \<Longrightarrow> add a b = add b a"
    and add_zero: "ok a \<Longrightarrow> add zero a = a"
    and add_self: "ok a \<Longrightarrow> add a a = zero"
    and step_add: "ok a \<Longrightarrow> ok b \<Longrightarrow> step (add a b) = add (step a) (step b)"
    and step_inj: "ok a \<Longrightarrow> ok b \<Longrightarrow> step a = step b \<Longrightarrow> a = b"
begin

lemma step_zero: "step zero = zero"
  using step_add[OF ok_zero ok_zero] add_self ok_zero ok_step by simp

lemma add_zero_right: "ok a \<Longrightarrow> add a zero = a"
  using add_commute[of a zero] add_zero ok_zero by simp

lemma add_swap: "ok a \<Longrightarrow> ok b \<Longrightarrow> ok c \<Longrightarrow> ok d \<Longrightarrow>
    add (add a b) (add c d) = add (add a c) (add b d)"
  by (metis add_assoc add_commute ok_add)

lemma step_nonzero: "ok s \<Longrightarrow> s \<noteq> zero \<Longrightarrow> step s \<noteq> zero"
  using step_inj[of s zero] step_zero ok_zero by auto

lemma ok_steps: "ok s \<Longrightarrow> ok ((step ^^ k) s)"
  by (induction k) (simp_all add: ok_step)

lemma steps_nonzero: "ok s \<Longrightarrow> s \<noteq> zero \<Longrightarrow> (step ^^ k) s \<noteq> zero"
  by (induction k) (simp_all add: step_nonzero ok_steps)

lemma steps_zero: "(step ^^ k) zero = zero"
  by (induction k) (simp_all add: step_zero)

lemma ok_poly [simp]: "ok s \<Longrightarrow> ok (poly_in add zero step bs s)"
  by (induction bs arbitrary: s) (simp_all add: ok_zero ok_add ok_step)

lemma ok_scan: "ok acc \<Longrightarrow> ok s \<Longrightarrow> ok (jump_scan add step bs acc s)"
  by (induction bs arbitrary: acc s) (simp_all add: ok_add ok_step)

lemma scan_poly:
  "ok acc \<Longrightarrow> ok s \<Longrightarrow> jump_scan add step bs acc s = add acc (poly_in add zero step bs s)"
  by (induction bs arbitrary: acc s)
    (simp_all add: add_zero_right add_zero ok_zero ok_add ok_step add_assoc)

lemma jump_poly: "ok s \<Longrightarrow> jump_scan add step bs zero s = poly_in add zero step bs s"
  by (simp add: scan_poly ok_zero add_zero)

lemma poly_step: "ok s \<Longrightarrow> poly_in add zero step bs (step s) = step (poly_in add zero step bs s)"
  by (induction bs arbitrary: s) (simp_all add: step_zero step_add ok_zero ok_step)

lemma poly_add: "ok a \<Longrightarrow> ok b \<Longrightarrow> poly_in add zero step bs (add a b)
    = add (poly_in add zero step bs a) (poly_in add zero step bs b)"
proof (induction bs arbitrary: a b)
  case Nil
  then show ?case by (simp add: add_zero ok_zero)
next
  case (Cons c bs)
  then show ?case
    by (simp add: step_add ok_step ok_zero ok_add add_zero
        add_swap[of a b "poly_in add zero step bs (step a)" "poly_in add zero step bs (step b)"])
qed

lemma poly_zero: "poly_in add zero step bs zero = zero"
  by (induction bs) (simp_all add: step_zero add_zero ok_zero)

lemma poly_commute: "ok s \<Longrightarrow> poly_in add zero step ps (poly_in add zero step qs s)
    = poly_in add zero step qs (poly_in add zero step ps s)"
proof (induction ps arbitrary: s)
  case Nil
  then show ?case by (simp add: poly_zero)
next
  case (Cons c ps)
  have "poly_in add zero step (c # ps) (poly_in add zero step qs s)
      = add (if c then poly_in add zero step qs s else zero)
          (poly_in add zero step qs (poly_in add zero step ps (step s)))"
    using Cons by (simp add: poly_step[symmetric] ok_step)
  also have "\<dots> = poly_in add zero step qs (poly_in add zero step (c # ps) s)"
    using Cons.prems by (simp add: poly_add ok_step ok_zero poly_zero)
  finally show ?case .
qed

lemma jump_commutes_step:
  "ok s \<Longrightarrow> jump_scan add step bs zero (step s) = step (jump_scan add step bs zero s)"
  by (simp add: jump_poly ok_step poly_step)

lemma jump_commutes_steps:
  "ok s \<Longrightarrow> jump_scan add step bs zero ((step ^^ k) s) = (step ^^ k) (jump_scan add step bs zero s)"
  by (induction k) (simp_all add: jump_commutes_step ok_steps)

lemma jump_linear:
  "ok a \<Longrightarrow> ok b \<Longrightarrow> jump_scan add step bs zero (add a b)
    = add (jump_scan add step bs zero a) (jump_scan add step bs zero b)"
  by (simp add: jump_poly ok_add poly_add)

lemma jumps_commute:
  "ok s \<Longrightarrow> jump_scan add step ps zero (jump_scan add step qs zero s)
    = jump_scan add step qs zero (jump_scan add step ps zero s)"
  by (simp add: jump_poly poly_commute)

lemma poly_sum:
  "ok s \<Longrightarrow> poly_in add zero step bs s
    = foldr add (map (\<lambda>k. (step ^^ k) s) (filter (nth bs) [0..<length bs])) zero"
proof (induction bs arbitrary: s)
  case Nil
  then show ?case by simp
next
  case (Cons b bs)
  have sh: "filter (nth (b # bs)) [0..<length (b # bs)]
      = (if b then [0] else []) @ map Suc (filter (nth bs) [0..<length bs])"
    by (simp add: upt_conv_Cons map_Suc_upt[symmetric] filter_map comp_def del: upt_Suc map_Suc_upt)
  have sw: "(\<lambda>k. (step ^^ k) (step s)) = (\<lambda>k. (step ^^ k) s) \<circ> Suc"
    by (simp add: fun_eq_iff funpow_swap1)
  have st: "poly_in add zero step bs (step s)
      = foldr add (map (\<lambda>k. (step ^^ k) s) (map Suc (filter (nth bs) [0..<length bs]))) zero"
    using Cons.IH[of "step s"] Cons.prems by (simp only: sw ok_step map_map)
  have okp: "ok (poly_in add zero step bs (step s))" using Cons.prems by (simp add: ok_step)
  then show ?case
    unfolding sh by (cases b) (simp_all add: st[unfolded map_map, symmetric] add_zero del: upt_Suc)
qed

lemma jump_sum:
  "ok s \<Longrightarrow> jump_scan add step bs zero s
    = foldr add (map (\<lambda>k. (step ^^ k) s) (filter (nth bs) [0..<length bs])) zero"
  by (simp add: jump_poly poly_sum)

end

end
