(* ===== verification/TextStream.thy ===== *)
theory TextStream
  imports Prelude
begin

text \<open>
  The part of the C++ streams the generators use to save and restore their state: printing
  of unsigned decimals, and formatted extraction from a string stream, with its fail bit.
  An extraction never throws here (the exception mask of the streams is empty): after a
  failure the stream stays failed and later extractions leave their target alone.
\<close>

subsection \<open>Printing\<close>

definition digit_char :: "nat \<Rightarrow> char" where
  "digit_char d = char_of (48 + d)"

fun show_nat :: "nat \<Rightarrow> string" where
  "show_nat n = (if n < 10 then [digit_char n] else show_nat (n div 10) @ [digit_char (n mod 10)])"

declare show_nat.simps [simp del]

definition show_word :: "'a::len word \<Rightarrow> string" where
  "show_word w = show_nat (unat w)"

subsection \<open>Extraction\<close>

definition is_digit :: "char \<Rightarrow> bool" where
  "is_digit c \<longleftrightarrow> 48 \<le> (of_char c :: nat) \<and> (of_char c :: nat) \<le> 57"

definition is_space :: "char \<Rightarrow> bool" where
  "is_space c \<longleftrightarrow> (of_char c :: nat) \<in> {9, 10, 11, 12, 13, 32}"

definition digits_value :: "string \<Rightarrow> nat" where
  "digits_value cs = foldl (\<lambda>n c. 10 * n + (of_char c - 48)) 0 cs"

record istream =
  chars :: string
  good :: bool

text \<open>
  \<open>operator>>\<close> for an unsigned type whose largest value is \<open>limit\<close>.  The sentry skips white
  space and fails at the end of the text or on a failed stream: then nothing is written.
  Otherwise an optional sign and the digits are consumed; no digit writes 0 and fails, an
  overflow writes the limit and fails, a minus sign negates modulo the type's size.
\<close>

definition extract_unsigned :: "nat \<Rightarrow> istream \<Rightarrow> nat option \<times> istream" where
  "extract_unsigned limit st = (let cs = dropWhile is_space (chars st) in
     if \<not> good st \<or> cs = [] then (None, \<lparr>chars = cs, good = False\<rparr>)
     else let
       neg = (hd cs = CHR ''-'');
       body = (if hd cs = CHR ''-'' \<or> hd cs = CHR ''+'' then tl cs else cs);
       ds = takeWhile is_digit body;
       rest = dropWhile is_digit body;
       n = digits_value ds
     in if ds = [] then (Some 0, \<lparr>chars = rest, good = False\<rparr>)
        else if limit < n then (Some limit, \<lparr>chars = rest, good = False\<rparr>)
        else (Some (if neg \<and> n \<noteq> 0 then limit + 1 - n else n), \<lparr>chars = rest, good = True\<rparr>))"

text \<open>A chain \<open>ss >> v[0] >> v[1] >> \<dots>\<close> into variables that start at 0.\<close>

fun extract_words :: "nat \<Rightarrow> istream \<Rightarrow> 'a::len word list \<times> istream" where
  "extract_words 0 st = ([], st)"
| "extract_words (Suc k) st = (let
     (v, st1) = extract_unsigned (2 ^ LENGTH('a) - 1) st;
     (vs, st2) = extract_words k st1
   in ((case v of None \<Rightarrow> 0 | Some n \<Rightarrow> of_nat n) # vs, st2))"

text \<open>The dashes of the saved text are turned into blanks before it is read.\<close>

definition dash_to_space :: "string \<Rightarrow> string" where
  "dash_to_space cs = map (\<lambda>c. if c = CHR ''-'' then CHR '' '' else c) cs"

definition starts_with :: "string \<Rightarrow> string \<Rightarrow> bool" where
  "starts_with data prefix \<longleftrightarrow> take (length prefix) data = prefix"

text \<open>\<open>std::string::substr\<close> throws when the position is beyond the end.\<close>

definition substr_from :: "string \<Rightarrow> nat \<Rightarrow> string option" where
  "substr_from s pos = (if length s < pos then None else Some (drop pos s))"

subsection \<open>Facts\<close>

lemma length_extract_words [simp]: "length (fst (extract_words k st)) = k"
  by (induction k arbitrary: st) (simp_all add: Let_def split: prod.splits, metis fst_conv)

lemma of_char_digit_char: "d < 10 \<Longrightarrow> of_char (digit_char d) = 48 + d"
  by (simp add: digit_char_def)

lemma is_digit_digit_char [simp]: "d < 10 \<Longrightarrow> is_digit (digit_char d)"
  by (simp add: is_digit_def of_char_digit_char)

lemma show_nat_digits: "c \<in> set (show_nat n) \<Longrightarrow> is_digit c"
  by (induction n rule: show_nat.induct) (subst (asm) (2) show_nat.simps, auto split: if_splits)

lemma show_nat_nonempty [simp]: "show_nat n \<noteq> []"
  by (subst show_nat.simps) simp

lemma digits_value_show_nat [simp]: "digits_value (show_nat n) = n"
proof (induction n rule: show_nat.induct)
  case (1 n)
  show ?case
  proof (cases "n < 10")
    case True
    then show ?thesis by (subst show_nat.simps) (simp add: digits_value_def of_char_digit_char)
  next
    case False
    then show ?thesis
      using 1 by (subst show_nat.simps) (simp add: digits_value_def of_char_digit_char)
  qed
qed

lemma is_digit_not_space: "is_digit c \<Longrightarrow> \<not> is_space c"
  by (auto simp: is_digit_def is_space_def)

lemma is_digit_not_dash [simp]: "\<not> is_digit CHR ''-''" "\<not> is_digit CHR ''+''" "\<not> is_digit CHR '' ''"
  by (simp_all add: is_digit_def)

lemma is_space_blank [simp]: "is_space CHR '' ''"
  by (simp add: is_space_def)

lemma dash_to_space_append [simp]: "dash_to_space (xs @ ys) = dash_to_space xs @ dash_to_space ys"
  by (simp add: dash_to_space_def)

lemma dash_to_space_digits [simp]: "dash_to_space (show_nat n) = show_nat n"
proof -
  have "CHR ''-'' \<notin> set (show_nat n)" using show_nat_digits is_digit_not_dash(1) by blast
  then show ?thesis by (auto simp: dash_to_space_def intro!: map_idI)
qed

text \<open>A printed number is read back, white space before it and any non-digit after it.\<close>

lemma extract_show_nat:
  assumes "n \<le> limit" "\<forall>c \<in> set ws. is_space c" "rest = [] \<or> \<not> is_digit (hd rest)"
  shows "extract_unsigned limit \<lparr>chars = ws @ show_nat n @ rest, good = True\<rparr>
    = (Some n, \<lparr>chars = rest, good = True\<rparr>)"
proof -
  have d: "\<forall>c \<in> set (show_nat n). is_digit c" using show_nat_digits by blast
  obtain x xs where x: "show_nat n = x # xs" by (cases "show_nat n") auto
  then have xd: "is_digit x" using d by auto
  then have xn: "\<not> is_space x" "x \<noteq> CHR ''-''" "x \<noteq> CHR ''+''"
    by (auto dest: is_digit_not_space)
  have dw: "dropWhile is_space (ws @ show_nat n @ rest) = show_nat n @ rest"
    using assms(2) xn(1) by (simp add: x dropWhile_append)
  have tk: "takeWhile is_digit (show_nat n @ rest) = show_nat n"
    "dropWhile is_digit (show_nat n @ rest) = rest"
    using d assms(3) by (cases rest; simp add: takeWhile_append dropWhile_append)+
  have hd: "hd (show_nat n @ rest) = x" by (simp add: x)
  show ?thesis
    using assms(1) xn by (simp add: extract_unsigned_def Let_def dw tk hd)
qed

text \<open>Saved words: each after a dash.\<close>

definition dashed :: "'a::len word list \<Rightarrow> string" where
  "dashed ws = concat (map (\<lambda>w. CHR ''-'' # show_word w) ws)"

lemma dashed_simps [simp]:
  "dashed [] = []" "dashed (w # ws) = CHR ''-'' # show_word w @ dashed ws"
  by (simp_all add: dashed_def)

lemma dash_to_space_simps [simp]:
  "dash_to_space [] = []"
  "dash_to_space (c # cs) = (if c = CHR ''-'' then CHR '' '' else c) # dash_to_space cs"
  by (simp_all add: dash_to_space_def)

lemma hd_dashed:
  "dash_to_space (dashed ws @ CHR ''-'' # rest) = [] \<or>
   \<not> is_digit (hd (dash_to_space (dashed ws @ CHR ''-'' # rest)))"
  "dash_to_space (dashed ws) = [] \<or> \<not> is_digit (hd (dash_to_space (dashed ws)))"
  by (cases ws; simp)+

lemma unat_le_limit: "unat (w :: 'a::len word) \<le> 2 ^ LENGTH('a) - 1"
  by (metis Suc_pred' less_Suc_eq_le unsigned_less zero_less_numeral zero_less_power)

lemma extract_dashed:
  assumes "rest = [] \<or> hd rest = CHR ''-''"
  shows "extract_words (length ws) \<lparr>chars = dash_to_space (dashed (ws :: 'a::len word list) @ rest), good = True\<rparr>
    = (ws, \<lparr>chars = dash_to_space rest, good = True\<rparr>)"
proof (induction ws)
  case Nil
  then show ?case by simp
next
  case (Cons w ws)
  have nd: "dash_to_space (dashed ws @ rest) = [] \<or> \<not> is_digit (hd (dash_to_space (dashed ws @ rest)))"
    using assms by (cases ws; cases rest) auto
  have "extract_unsigned (2 ^ LENGTH('a) - 1)
      \<lparr>chars = '' '' @ show_nat (unat w) @ dash_to_space (dashed ws @ rest), good = True\<rparr>
    = (Some (unat w), \<lparr>chars = dash_to_space (dashed ws @ rest), good = True\<rparr>)"
    by (rule extract_show_nat[OF unat_le_limit _ nd]) simp
  then show ?case using Cons.IH by (simp add: show_word_def)
qed

text \<open>The same without the first dash, which \<open>substr\<close> cuts off.\<close>

lemma extract_after_first_dash:
  assumes "rest = [] \<or> hd rest = CHR ''-''"
  shows "extract_words (Suc (length ws))
      \<lparr>chars = dash_to_space (show_word w @ dashed (ws :: 'a::len word list) @ rest), good = True\<rparr>
    = (w # ws, \<lparr>chars = dash_to_space rest, good = True\<rparr>)"
proof -
  have nd: "dash_to_space (dashed ws @ rest) = [] \<or> \<not> is_digit (hd (dash_to_space (dashed ws @ rest)))"
    using assms by (cases ws; cases rest) auto
  have "extract_unsigned (2 ^ LENGTH('a) - 1)
      \<lparr>chars = [] @ show_nat (unat w) @ dash_to_space (dashed ws @ rest), good = True\<rparr>
    = (Some (unat w), \<lparr>chars = dash_to_space (dashed ws @ rest), good = True\<rparr>)"
    by (rule extract_show_nat[OF unat_le_limit _ nd]) simp
  then show ?thesis using extract_dashed[OF assms, of ws] by (simp add: show_word_def)
qed

end
