(* ===== verification/Xorshift.thy ===== *)
theory Xorshift
  imports XorEngine TextStream
begin

text \<open>
  The generators of \<open>Utility/xorshift.hpp\<close> with a fixed layout: xoshiro128, xoroshiro128,
  xoshiro256 and xoshiro512.  The state arrays \<open>s[n]\<close> are the constructors \<open>X2\<close>, \<open>X4\<close>, \<open>X8\<close>; each
  \<open>next\<close> is the sequence of assignments of its class.  A family's virtual call \<open>next()\<close> is the
  dispatch on the class, \<open>scrambler\<close>: the classes with suffix p, pp and ss.
\<close>

datatype scrambler = P | PP | SS

datatype 'w x2 = X2 'w 'w
datatype 'w x4 = X4 'w 'w 'w 'w
datatype 'w x8 = X8 'w 'w 'w 'w 'w 'w 'w 'w

fun xor2 :: "'a::len word x2 \<Rightarrow> 'a word x2 \<Rightarrow> 'a word x2" where
  "xor2 (X2 a0 a1) (X2 b0 b1) = X2 (a0 XOR b0) (a1 XOR b1)"

fun xor4 :: "'a::len word x4 \<Rightarrow> 'a word x4 \<Rightarrow> 'a word x4" where
  "xor4 (X4 a0 a1 a2 a3) (X4 b0 b1 b2 b3) = X4 (a0 XOR b0) (a1 XOR b1) (a2 XOR b2) (a3 XOR b3)"

fun xor8 :: "'a::len word x8 \<Rightarrow> 'a word x8 \<Rightarrow> 'a word x8" where
  "xor8 (X8 a0 a1 a2 a3 a4 a5 a6 a7) (X8 b0 b1 b2 b3 b4 b5 b6 b7)
    = X8 (a0 XOR b0) (a1 XOR b1) (a2 XOR b2) (a3 XOR b3)
         (a4 XOR b4) (a5 XOR b5) (a6 XOR b6) (a7 XOR b7)"

text \<open>\<open>bounded_rand\<close>: draws are repeated until one is not below the threshold.\<close>

definition bounded_threshold :: "'a::len word itself \<Rightarrow> u64 \<Rightarrow> u64" where
  "bounded_threshold _ upper_bound = (ucast (- 1 - 0 :: 'a word) + 1 - upper_bound) mod upper_bound"

partial_function (option) bounded_loop ::
  "('s \<Rightarrow> 'a::len word \<times> 's) \<Rightarrow> u64 \<Rightarrow> u64 \<Rightarrow> 's \<Rightarrow> (u64 \<times> 's) option" where
  "bounded_loop next threshold upper_bound s = (let (x, s') = next s; r = ucast (x - 0) in
     if threshold \<le> r then Some (r mod upper_bound, s')
     else bounded_loop next threshold upper_bound s')"

definition bounded_rand ::
  "('s \<Rightarrow> 'a::len word \<times> 's) \<Rightarrow> u64 \<Rightarrow> 's \<Rightarrow> (u64 \<times> 's) option" where
  "bounded_rand next upper_bound s = assert_that (upper_bound \<noteq> 0)
     (bounded_loop next (bounded_threshold TYPE('a word) upper_bound) upper_bound s)"

text \<open>Reading a saved state: not accepted, an exception of \<open>substr\<close>, or the words read.\<close>

datatype 'a read_result = Rejected | Thrown | Read 'a

definition read_words :: "nat \<Rightarrow> string \<Rightarrow> string \<Rightarrow> 'a::len word list read_result" where
  "read_words k name data = (if \<not> starts_with data name then Rejected
     else case substr_from data (length name + 1) of
       None \<Rightarrow> Thrown
     | Some tail \<Rightarrow> Read (fst (extract_words k \<lparr>chars = dash_to_space tail, good = True\<rparr>)))"

definition splitmix64_serialize :: "u64 \<Rightarrow> string" where
  "splitmix64_serialize x = ''splitmix64'' @ dashed [x]"

definition splitmix64_deserialize :: "string \<Rightarrow> u64 \<Rightarrow> (bool \<times> u64) option" where
  "splitmix64_deserialize data x = (case read_words 1 ''splitmix64'' data of
     Rejected \<Rightarrow> Some (False, x) | Thrown \<Rightarrow> None | Read ws \<Rightarrow> Some (True, ws ! 0))"

subsection \<open>xoshiro128\<close>

fun xoshiro128p_next :: "u32 x4 \<Rightarrow> u32 \<times> u32 x4" where
  "xoshiro128p_next (X4 s0 s1 s2 s3) = (let
     result = s0 + s3;
     t = push_bit 9 s1;
     s2 = s2 XOR s0;
     s3 = s3 XOR s1;
     s1 = s1 XOR s2;
     s0 = s0 XOR s3;
     s2 = s2 XOR t;
     s3 = rotl s3 11
   in (result, X4 s0 s1 s2 s3))"

fun xoshiro128pp_next :: "u32 x4 \<Rightarrow> u32 \<times> u32 x4" where
  "xoshiro128pp_next (X4 s0 s1 s2 s3) = (let
     result = rotl (s0 + s3) 7 + s0;
     t = push_bit 9 s1;
     s2 = s2 XOR s0;
     s3 = s3 XOR s1;
     s1 = s1 XOR s2;
     s0 = s0 XOR s3;
     s2 = s2 XOR t;
     s3 = rotl s3 11
   in (result, X4 s0 s1 s2 s3))"

fun xoshiro128ss_next :: "u32 x4 \<Rightarrow> u32 \<times> u32 x4" where
  "xoshiro128ss_next (X4 s0 s1 s2 s3) = (let
     result = rotl (s1 * 5) 7 * 9;
     t = push_bit 9 s1;
     s2 = s2 XOR s0;
     s3 = s3 XOR s1;
     s1 = s1 XOR s2;
     s0 = s0 XOR s3;
     s2 = s2 XOR t;
     s3 = rotl s3 11
   in (result, X4 s0 s1 s2 s3))"

fun xoshiro128_next :: "scrambler \<Rightarrow> u32 x4 \<Rightarrow> u32 \<times> u32 x4" where
  "xoshiro128_next P = xoshiro128p_next"
| "xoshiro128_next PP = xoshiro128pp_next"
| "xoshiro128_next SS = xoshiro128ss_next"

fun xoshiro128_name :: "scrambler \<Rightarrow> string" where
  "xoshiro128_name P = ''xoshiro128p''"
| "xoshiro128_name PP = ''xoshiro128pp''"
| "xoshiro128_name SS = ''xoshiro128ss''"

definition xoshiro128_seed :: "u64 \<Rightarrow> u32 x4" where
  "xoshiro128_seed seedv = (let ws = map ucast (splitmix64_draws 4 seedv) in
     X4 (ws ! 0) (ws ! 1) (ws ! 2) (ws ! 3))"

definition xoshiro128_jump_by_table :: "scrambler \<Rightarrow> u32 list \<Rightarrow> u32 x4 \<Rightarrow> u32 x4" where
  "xoshiro128_jump_by_table v T s
    = jump_scan xor4 (\<lambda>s. snd (xoshiro128_next v s)) (table_bits T) (X4 0 0 0 0) s"

definition xoshiro128_JUMP :: "u32 list" where
  "xoshiro128_JUMP = [0x8764000b, 0xf542d2d3, 0x6fa035c3, 0x77f2db5b]"

definition xoshiro128_LONG_JUMP :: "u32 list" where
  "xoshiro128_LONG_JUMP = [0xb523952e, 0x0b6f099f, 0xccf5a0ef, 0x1c580662]"

definition xoshiro128_jump :: "scrambler \<Rightarrow> u32 x4 \<Rightarrow> u32 x4" where
  "xoshiro128_jump v s = xoshiro128_jump_by_table v xoshiro128_JUMP s"

definition xoshiro128_long_jump :: "scrambler \<Rightarrow> u32 x4 \<Rightarrow> u32 x4" where
  "xoshiro128_long_jump v s = xoshiro128_jump_by_table v xoshiro128_LONG_JUMP s"

fun xoshiro128_serialize :: "scrambler \<Rightarrow> u32 x4 \<Rightarrow> string" where
  "xoshiro128_serialize v (X4 s0 s1 s2 s3) = xoshiro128_name v @ dashed [s0, s1, s2, s3]"

definition xoshiro128_deserialize ::
  "scrambler \<Rightarrow> string \<Rightarrow> u32 x4 \<Rightarrow> (bool \<times> u32 x4) option" where
  "xoshiro128_deserialize v data s = (case read_words 4 (xoshiro128_name v) data of
     Rejected \<Rightarrow> Some (False, s) | Thrown \<Rightarrow> None
   | Read ws \<Rightarrow> Some (True, X4 (ws ! 0) (ws ! 1) (ws ! 2) (ws ! 3)))"

subsection \<open>xoroshiro128\<close>

fun xoroshiro128p_next :: "u64 x2 \<Rightarrow> u64 \<times> u64 x2" where
  "xoroshiro128p_next (X2 s0 s1) = (let
     result = s0 + s1;
     s1 = s1 XOR s0
   in (result, X2 (rotl s0 24 XOR s1 XOR push_bit 16 s1) (rotl s1 37)))"

fun xoroshiro128pp_next :: "u64 x2 \<Rightarrow> u64 \<times> u64 x2" where
  "xoroshiro128pp_next (X2 s0 s1) = (let
     result = rotl (s0 + s1) 17 + s0;
     s1 = s1 XOR s0
   in (result, X2 (rotl s0 49 XOR s1 XOR push_bit 21 s1) (rotl s1 28)))"

fun xoroshiro128ss_next :: "u64 x2 \<Rightarrow> u64 \<times> u64 x2" where
  "xoroshiro128ss_next (X2 s0 s1) = (let
     result = rotl (s0 * 5) 7 * 9;
     s1 = s1 XOR s0
   in (result, X2 (rotl s0 24 XOR s1 XOR push_bit 16 s1) (rotl s1 37)))"

fun xoroshiro128_next :: "scrambler \<Rightarrow> u64 x2 \<Rightarrow> u64 \<times> u64 x2" where
  "xoroshiro128_next P = xoroshiro128p_next"
| "xoroshiro128_next PP = xoroshiro128pp_next"
| "xoroshiro128_next SS = xoroshiro128ss_next"

fun xoroshiro128_name :: "scrambler \<Rightarrow> string" where
  "xoroshiro128_name P = ''xoroshiro128p''"
| "xoroshiro128_name PP = ''xoroshiro128pp''"
| "xoroshiro128_name SS = ''xoroshiro128ss''"

definition xoroshiro128_seed :: "u64 \<Rightarrow> u64 x2" where
  "xoroshiro128_seed seedv = (let ws = map id (splitmix64_draws 2 seedv) in
     X2 (ws ! 0) (ws ! 1))"

definition xoroshiro128_jump_by_table :: "scrambler \<Rightarrow> u64 list \<Rightarrow> u64 x2 \<Rightarrow> u64 x2" where
  "xoroshiro128_jump_by_table v T s
    = jump_scan xor2 (\<lambda>s. snd (xoroshiro128_next v s)) (table_bits T) (X2 0 0) s"

definition xoroshiro128p_JUMP :: "u64 list" where
  "xoroshiro128p_JUMP = [0xdf900294d8f554a5, 0x170865df4b3201fc]"

definition xoroshiro128p_LONG_JUMP :: "u64 list" where
  "xoroshiro128p_LONG_JUMP = [0xd2a98b26625eee7b, 0xdddf9b1090aa7ac1]"

definition xoroshiro128pp_JUMP :: "u64 list" where
  "xoroshiro128pp_JUMP = [0x2bd7a6a6e99c2ddc, 0x0992ccaf6a6fca05]"

definition xoroshiro128pp_LONG_JUMP :: "u64 list" where
  "xoroshiro128pp_LONG_JUMP = [0x360fd5f2cf8d5d99, 0x9c6e6877736c46e3]"

definition xoroshiro128ss_JUMP :: "u64 list" where
  "xoroshiro128ss_JUMP = [0xdf900294d8f554a5, 0x170865df4b3201fc]"

definition xoroshiro128ss_LONG_JUMP :: "u64 list" where
  "xoroshiro128ss_LONG_JUMP = [0xd2a98b26625eee7b, 0xdddf9b1090aa7ac1]"

fun xoroshiro128_JUMP :: "scrambler \<Rightarrow> u64 list" where
  "xoroshiro128_JUMP P = xoroshiro128p_JUMP"
| "xoroshiro128_JUMP PP = xoroshiro128pp_JUMP"
| "xoroshiro128_JUMP SS = xoroshiro128ss_JUMP"

fun xoroshiro128_LONG_JUMP :: "scrambler \<Rightarrow> u64 list" where
  "xoroshiro128_LONG_JUMP P = xoroshiro128p_LONG_JUMP"
| "xoroshiro128_LONG_JUMP PP = xoroshiro128pp_LONG_JUMP"
| "xoroshiro128_LONG_JUMP SS = xoroshiro128ss_LONG_JUMP"

definition xoroshiro128_jump :: "scrambler \<Rightarrow> u64 x2 \<Rightarrow> u64 x2" where
  "xoroshiro128_jump v s = xoroshiro128_jump_by_table v (xoroshiro128_JUMP v) s"

definition xoroshiro128_long_jump :: "scrambler \<Rightarrow> u64 x2 \<Rightarrow> u64 x2" where
  "xoroshiro128_long_jump v s = xoroshiro128_jump_by_table v (xoroshiro128_LONG_JUMP v) s"

fun xoroshiro128_serialize :: "scrambler \<Rightarrow> u64 x2 \<Rightarrow> string" where
  "xoroshiro128_serialize v (X2 s0 s1) = xoroshiro128_name v @ dashed [s0, s1]"

definition xoroshiro128_deserialize ::
  "scrambler \<Rightarrow> string \<Rightarrow> u64 x2 \<Rightarrow> (bool \<times> u64 x2) option" where
  "xoroshiro128_deserialize v data s = (case read_words 2 (xoroshiro128_name v) data of
     Rejected \<Rightarrow> Some (False, s) | Thrown \<Rightarrow> None
   | Read ws \<Rightarrow> Some (True, X2 (ws ! 0) (ws ! 1)))"

subsection \<open>xoshiro256\<close>

fun xoshiro256p_next :: "u64 x4 \<Rightarrow> u64 \<times> u64 x4" where
  "xoshiro256p_next (X4 s0 s1 s2 s3) = (let
     result = s0 + s3;
     t = push_bit 17 s1;
     s2 = s2 XOR s0;
     s3 = s3 XOR s1;
     s1 = s1 XOR s2;
     s0 = s0 XOR s3;
     s2 = s2 XOR t;
     s3 = rotl s3 45
   in (result, X4 s0 s1 s2 s3))"

fun xoshiro256pp_next :: "u64 x4 \<Rightarrow> u64 \<times> u64 x4" where
  "xoshiro256pp_next (X4 s0 s1 s2 s3) = (let
     result = rotl (s0 + s3) 23 + s0;
     t = push_bit 17 s1;
     s2 = s2 XOR s0;
     s3 = s3 XOR s1;
     s1 = s1 XOR s2;
     s0 = s0 XOR s3;
     s2 = s2 XOR t;
     s3 = rotl s3 45
   in (result, X4 s0 s1 s2 s3))"

fun xoshiro256ss_next :: "u64 x4 \<Rightarrow> u64 \<times> u64 x4" where
  "xoshiro256ss_next (X4 s0 s1 s2 s3) = (let
     result = rotl (s1 * 5) 7 * 9;
     t = push_bit 17 s1;
     s2 = s2 XOR s0;
     s3 = s3 XOR s1;
     s1 = s1 XOR s2;
     s0 = s0 XOR s3;
     s2 = s2 XOR t;
     s3 = rotl s3 45
   in (result, X4 s0 s1 s2 s3))"

fun xoshiro256_next :: "scrambler \<Rightarrow> u64 x4 \<Rightarrow> u64 \<times> u64 x4" where
  "xoshiro256_next P = xoshiro256p_next"
| "xoshiro256_next PP = xoshiro256pp_next"
| "xoshiro256_next SS = xoshiro256ss_next"

fun xoshiro256_name :: "scrambler \<Rightarrow> string" where
  "xoshiro256_name P = ''xoshiro256p''"
| "xoshiro256_name PP = ''xoshiro256pp''"
| "xoshiro256_name SS = ''xoshiro256ss''"

definition xoshiro256_seed :: "u64 \<Rightarrow> u64 x4" where
  "xoshiro256_seed seedv = (let ws = map id (splitmix64_draws 4 seedv) in
     X4 (ws ! 0) (ws ! 1) (ws ! 2) (ws ! 3))"

definition xoshiro256_jump_by_table :: "scrambler \<Rightarrow> u64 list \<Rightarrow> u64 x4 \<Rightarrow> u64 x4" where
  "xoshiro256_jump_by_table v T s
    = jump_scan xor4 (\<lambda>s. snd (xoshiro256_next v s)) (table_bits T) (X4 0 0 0 0) s"

definition xoshiro256_JUMP :: "u64 list" where
  "xoshiro256_JUMP = [0x180ec6d33cfd0aba, 0xd5a61266f0c9392c, 0xa9582618e03fc9aa,
     0x39abdc4529b1661c]"

definition xoshiro256_LONG_JUMP :: "u64 list" where
  "xoshiro256_LONG_JUMP = [0x76e15d3efefdcbbf, 0xc5004e441c522fb3, 0x77710069854ee241,
     0x39109bb02acbe635]"

definition xoshiro256_jump :: "scrambler \<Rightarrow> u64 x4 \<Rightarrow> u64 x4" where
  "xoshiro256_jump v s = xoshiro256_jump_by_table v xoshiro256_JUMP s"

definition xoshiro256_long_jump :: "scrambler \<Rightarrow> u64 x4 \<Rightarrow> u64 x4" where
  "xoshiro256_long_jump v s = xoshiro256_jump_by_table v xoshiro256_LONG_JUMP s"

fun xoshiro256_serialize :: "scrambler \<Rightarrow> u64 x4 \<Rightarrow> string" where
  "xoshiro256_serialize v (X4 s0 s1 s2 s3) = xoshiro256_name v @ dashed [s0, s1, s2, s3]"

definition xoshiro256_deserialize ::
  "scrambler \<Rightarrow> string \<Rightarrow> u64 x4 \<Rightarrow> (bool \<times> u64 x4) option" where
  "xoshiro256_deserialize v data s = (case read_words 4 (xoshiro256_name v) data of
     Rejected \<Rightarrow> Some (False, s) | Thrown \<Rightarrow> None
   | Read ws \<Rightarrow> Some (True, X4 (ws ! 0) (ws ! 1) (ws ! 2) (ws ! 3)))"

subsection \<open>xoshiro512\<close>

fun xoshiro512p_next :: "u64 x8 \<Rightarrow> u64 \<times> u64 x8" where
  "xoshiro512p_next (X8 s0 s1 s2 s3 s4 s5 s6 s7) = (let
     result = s0 + s2;
     t = push_bit 11 s1;
     s2 = s2 XOR s0;
     s5 = s5 XOR s1;
     s1 = s1 XOR s2;
     s7 = s7 XOR s3;
     s3 = s3 XOR s4;
     s4 = s4 XOR s5;
     s0 = s0 XOR s6;
     s6 = s6 XOR s7;
     s6 = s6 XOR t;
     s7 = rotl s7 21
   in (result, X8 s0 s1 s2 s3 s4 s5 s6 s7))"

fun xoshiro512pp_next :: "u64 x8 \<Rightarrow> u64 \<times> u64 x8" where
  "xoshiro512pp_next (X8 s0 s1 s2 s3 s4 s5 s6 s7) = (let
     result = rotl (s0 + s2) 17 + s2;
     t = push_bit 11 s1;
     s2 = s2 XOR s0;
     s5 = s5 XOR s1;
     s1 = s1 XOR s2;
     s7 = s7 XOR s3;
     s3 = s3 XOR s4;
     s4 = s4 XOR s5;
     s0 = s0 XOR s6;
     s6 = s6 XOR s7;
     s6 = s6 XOR t;
     s7 = rotl s7 21
   in (result, X8 s0 s1 s2 s3 s4 s5 s6 s7))"

fun xoshiro512ss_next :: "u64 x8 \<Rightarrow> u64 \<times> u64 x8" where
  "xoshiro512ss_next (X8 s0 s1 s2 s3 s4 s5 s6 s7) = (let
     result = rotl (s1 * 5) 7 * 9;
     t = push_bit 11 s1;
     s2 = s2 XOR s0;
     s5 = s5 XOR s1;
     s1 = s1 XOR s2;
     s7 = s7 XOR s3;
     s3 = s3 XOR s4;
     s4 = s4 XOR s5;
     s0 = s0 XOR s6;
     s6 = s6 XOR s7;
     s6 = s6 XOR t;
     s7 = rotl s7 21
   in (result, X8 s0 s1 s2 s3 s4 s5 s6 s7))"

fun xoshiro512_next :: "scrambler \<Rightarrow> u64 x8 \<Rightarrow> u64 \<times> u64 x8" where
  "xoshiro512_next P = xoshiro512p_next"
| "xoshiro512_next PP = xoshiro512pp_next"
| "xoshiro512_next SS = xoshiro512ss_next"

fun xoshiro512_name :: "scrambler \<Rightarrow> string" where
  "xoshiro512_name P = ''xoshiro512p''"
| "xoshiro512_name PP = ''xoshiro512pp''"
| "xoshiro512_name SS = ''xoshiro512ss''"

definition xoshiro512_seed :: "u64 \<Rightarrow> u64 x8" where
  "xoshiro512_seed seedv = (let ws = map id (splitmix64_draws 8 seedv) in
     X8 (ws ! 0) (ws ! 1) (ws ! 2) (ws ! 3) (ws ! 4) (ws ! 5) (ws ! 6) (ws ! 7))"

definition xoshiro512_jump_by_table :: "scrambler \<Rightarrow> u64 list \<Rightarrow> u64 x8 \<Rightarrow> u64 x8" where
  "xoshiro512_jump_by_table v T s
    = jump_scan xor8 (\<lambda>s. snd (xoshiro512_next v s)) (table_bits T) (X8 0 0 0 0 0 0 0 0) s"

definition xoshiro512_JUMP :: "u64 list" where
  "xoshiro512_JUMP = [0x33ed89b6e7a353f9, 0x760083d7955323be, 0x2837f2fbb5f22fae,
     0x4b8c5674d309511c, 0xb11ac47a7ba28c25, 0xf1be7667092bcc1c, 0x53851efdb6df0aaf,
     0x1ebbc8b23eaf25db]"

definition xoshiro512_LONG_JUMP :: "u64 list" where
  "xoshiro512_LONG_JUMP = [0x11467fef8f921d28, 0xa2a819f2e79c8ea8, 0xa8299fc284b3959a,
     0xb4d347340ca63ee1, 0x1cb0940bedbff6ce, 0xd956c5c4fa1f8e17, 0x915e38fd4eda93bc,
     0x5b3ccdfa5d7daca5]"

definition xoshiro512_jump :: "scrambler \<Rightarrow> u64 x8 \<Rightarrow> u64 x8" where
  "xoshiro512_jump v s = xoshiro512_jump_by_table v xoshiro512_JUMP s"

definition xoshiro512_long_jump :: "scrambler \<Rightarrow> u64 x8 \<Rightarrow> u64 x8" where
  "xoshiro512_long_jump v s = xoshiro512_jump_by_table v xoshiro512_LONG_JUMP s"

fun xoshiro512_serialize :: "scrambler \<Rightarrow> u64 x8 \<Rightarrow> string" where
  "xoshiro512_serialize v (X8 s0 s1 s2 s3 s4 s5 s6 s7) = xoshiro512_name v @ dashed [s0, s1, s2, s3, s4, s5, s6, s7]"

definition xoshiro512_deserialize ::
  "scrambler \<Rightarrow> string \<Rightarrow> u64 x8 \<Rightarrow> (bool \<times> u64 x8) option" where
  "xoshiro512_deserialize v data s = (case read_words 8 (xoshiro512_name v) data of
     Rejected \<Rightarrow> Some (False, s) | Thrown \<Rightarrow> None
   | Read ws \<Rightarrow> Some (True, X8 (ws ! 0) (ws ! 1) (ws ! 2) (ws ! 3) (ws ! 4) (ws ! 5) (ws ! 6) (ws ! 7)))"

end
