(* ===== verification/XorshiftLaws.thy ===== *)
theory XorshiftLaws
  imports Xorshift
begin

text \<open>
  Every family of \<open>Xorshift\<close> is a \<open>xor_engine\<close>, whichever class is stepped; how \<open>bounded_rand\<close>
  draws; what reading a saved state returns.
\<close>

subsection \<open>The xor groups\<close>

lemma xor2_laws:
  "xor2 (xor2 a b) c = xor2 a (xor2 b c)" "xor2 a b = xor2 b a"
  "xor2 (X2 0 0) a = a" "xor2 a a = X2 0 0"
  by (cases a; cases b; cases c; simp add: ac_simps)+

lemma xor4_laws:
  "xor4 (xor4 a b) c = xor4 a (xor4 b c)" "xor4 a b = xor4 b a"
  "xor4 (X4 0 0 0 0) a = a" "xor4 a a = X4 0 0 0 0"
  by (cases a; cases b; cases c; simp add: ac_simps)+

lemma xor8_laws:
  "xor8 (xor8 a b) c = xor8 a (xor8 b c)" "xor8 a b = xor8 b a"
  "xor8 (X8 0 0 0 0 0 0 0 0) a = a" "xor8 a a = X8 0 0 0 0 0 0 0 0"
  by (cases a; cases b; cases c; simp add: ac_simps)+

subsection \<open>The steps do not depend on the scrambler\<close>

lemma xoshiro128_step:
  "snd (xoshiro128_next v (X4 s0 s1 s2 s3)) =
    X4 (s0 XOR s3 XOR s1) (s1 XOR s2 XOR s0) (s2 XOR s0 XOR push_bit 9 s1) (rotl (s3 XOR s1) 11)"
  by (cases v) (simp_all add: Let_def ac_simps)

lemma xoshiro256_step:
  "snd (xoshiro256_next v (X4 s0 s1 s2 s3)) =
    X4 (s0 XOR s3 XOR s1) (s1 XOR s2 XOR s0) (s2 XOR s0 XOR push_bit 17 s1) (rotl (s3 XOR s1) 45)"
  by (cases v) (simp_all add: Let_def ac_simps)

lemma xoshiro512_step:
  "snd (xoshiro512_next v (X8 s0 s1 s2 s3 s4 s5 s6 s7)) =
    X8 (s0 XOR s6) (s1 XOR (s2 XOR s0)) (s2 XOR s0) (s3 XOR s4) (s4 XOR (s5 XOR s1)) (s5 XOR s1)
       (s6 XOR (s7 XOR s3) XOR push_bit 11 s1) (rotl (s7 XOR s3) 21)"
  by (cases v) (simp_all add: Let_def ac_simps)

definition xoroshiro_abc :: "scrambler \<Rightarrow> nat \<times> nat \<times> nat" where
  "xoroshiro_abc v = (if v = PP then (49, 21, 28) else (24, 16, 37))"

lemma xoroshiro128_step:
  "snd (xoroshiro128_next v (X2 s0 s1)) = (case xoroshiro_abc v of (a, b, c) \<Rightarrow>
    X2 (rotl s0 a XOR (s1 XOR s0) XOR push_bit b (s1 XOR s0)) (rotl (s1 XOR s0) c))"
  by (cases v) (simp_all add: xoroshiro_abc_def Let_def)

lemma xoroshiro_abc_bounds:
  "xoroshiro_abc v = (a, b, c) \<Longrightarrow> 0 < a \<and> a < 64 \<and> 0 < b \<and> 0 < c \<and> c < 64"
  by (auto simp: xoroshiro_abc_def split: if_splits)

subsection \<open>Injectivity and linearity\<close>

lemma xoshiro_core_inj:
  fixes s0 :: "'a::len word"
  assumes k: "0 < k" and r: "0 < r" "r < LENGTH('a)"
    and e: "X4 (s0 XOR s3 XOR s1) (s1 XOR s2 XOR s0) (s2 XOR s0 XOR push_bit k s1) (rotl (s3 XOR s1) r)
      = X4 (t0 XOR t3 XOR t1) (t1 XOR t2 XOR t0) (t2 XOR t0 XOR push_bit k t1) (rotl (t3 XOR t1) r)"
  shows "X4 s0 s1 s2 s3 = X4 t0 t1 t2 t3"
proof -
  have d: "s3 XOR s1 = t3 XOR t1" using rotl_inj[OF r] e by blast
  have s0: "s0 = t0" using e d by (simp add: xor.assoc xor_same_eq)
  have m: "s1 XOR s2 = t1 XOR t2" using e s0 by (simp add: xor.assoc[symmetric] xor_same_eq)
  have n: "s2 XOR push_bit k s1 = t2 XOR push_bit k t1"
    using e s0 by (simp add: xor.commute[of s2] xor.commute[of t2] xor.assoc xor_same_eq')
  have sh: "x XOR push_bit k x = (x XOR y) XOR (y XOR push_bit k x)" for x y :: "'a word"
    by (metis xor.assoc xor_self_eq xor.right_neutral)
  have "s1 XOR push_bit k s1 = t1 XOR push_bit k t1"
    using sh[of s1 s2] sh[of t1 t2] m n by simp
  then have s1: "s1 = t1" by (rule xor_push_bit_inj[OF k])
  then show ?thesis using s0 m d by (simp add: xor_same_eq xor_same_eq')
qed

interpretation x128: xor_engine "\<lambda>_. True" "\<lambda>s. snd (xoshiro128_next v s)" xor4 "X4 0 0 0 0" for v
proof unfold_locales
  show "snd (xoshiro128_next v (xor4 a b)) = xor4 (snd (xoshiro128_next v a)) (snd (xoshiro128_next v b))" for a b
    by (cases a; cases b) (simp add: xoshiro128_step xor_linear ac_simps)
  show "snd (xoshiro128_next v a) = snd (xoshiro128_next v b) \<Longrightarrow> a = b" for a b
    by (cases a; cases b; simp only: xoshiro128_step; erule xoshiro_core_inj[rotated 3]; simp)
qed (rule TrueI | rule xor4_laws)+

interpretation x256: xor_engine "\<lambda>_. True" "\<lambda>s. snd (xoshiro256_next v s)" xor4 "X4 0 0 0 0" for v
proof unfold_locales
  show "snd (xoshiro256_next v (xor4 a b)) = xor4 (snd (xoshiro256_next v a)) (snd (xoshiro256_next v b))" for a b
    by (cases a; cases b) (simp add: xoshiro256_step xor_linear ac_simps)
  show "snd (xoshiro256_next v a) = snd (xoshiro256_next v b) \<Longrightarrow> a = b" for a b
    by (cases a; cases b; simp only: xoshiro256_step; erule xoshiro_core_inj[rotated 3]; simp)
qed (rule TrueI | rule xor4_laws)+

lemma xoshiro512_inj:
  "snd (xoshiro512_next v (X8 s0 s1 s2 s3 s4 s5 s6 s7)) = snd (xoshiro512_next v (X8 t0 t1 t2 t3 t4 t5 t6 t7))
   \<Longrightarrow> X8 s0 s1 s2 s3 s4 s5 s6 s7 = X8 t0 t1 t2 t3 t4 t5 t6 t7"
proof -
  assume "snd (xoshiro512_next v (X8 s0 s1 s2 s3 s4 s5 s6 s7))
    = snd (xoshiro512_next v (X8 t0 t1 t2 t3 t4 t5 t6 t7))"
  then have e: "s0 XOR s6 = t0 XOR t6" "s1 XOR (s2 XOR s0) = t1 XOR (t2 XOR t0)"
    "s2 XOR s0 = t2 XOR t0" "s3 XOR s4 = t3 XOR t4" "s4 XOR (s5 XOR s1) = t4 XOR (t5 XOR t1)"
    "s5 XOR s1 = t5 XOR t1"
    "s6 XOR (s7 XOR s3) XOR push_bit 11 s1 = t6 XOR (t7 XOR t3) XOR push_bit 11 t1"
    "rotl (s7 XOR s3) 21 = rotl (t7 XOR t3) 21"
    unfolding xoshiro512_step x8.inject by blast+
  have s1: "s1 = t1" using e(2) unfolding e(3) by (simp add: xor_same_eq)
  have s4: "s4 = t4" using e(5) unfolding e(6) by (simp add: xor_same_eq)
  have s5: "s5 = t5" using e(6) by (simp add: s1 xor_same_eq)
  have s3: "s3 = t3" using e(4) by (simp add: s4 xor_same_eq)
  have m: "s7 XOR s3 = t7 XOR t3" using e(8) by simp
  then have s7: "s7 = t7" by (simp add: s3 xor_same_eq)
  have s6: "s6 = t6" using e(7) unfolding m s1 by (simp add: xor.assoc xor_same_eq)
  have s0: "s0 = t0" using e(1) by (simp add: s6 xor_same_eq)
  have s2: "s2 = t2" using e(3) by (simp add: s0 xor_same_eq)
  show ?thesis by (simp add: s0 s1 s2 s3 s4 s5 s6 s7)
qed

interpretation x512: xor_engine "\<lambda>_. True" "\<lambda>s. snd (xoshiro512_next v s)" xor8 "X8 0 0 0 0 0 0 0 0" for v
proof unfold_locales
  show "snd (xoshiro512_next v (xor8 a b)) = xor8 (snd (xoshiro512_next v a)) (snd (xoshiro512_next v b))" for a b
    by (cases a; cases b) (simp add: xoshiro512_step xor_linear ac_simps)
  show "snd (xoshiro512_next v a) = snd (xoshiro512_next v b) \<Longrightarrow> a = b" for a b
    by (cases a; cases b; hypsubst; rule xoshiro512_inj)
qed (rule TrueI | rule xor8_laws)+

lemma xoroshiro_core_inj:
  fixes s0 :: "'a::len word"
  assumes a: "0 < a" "a < LENGTH('a)" and c: "0 < c" "c < LENGTH('a)"
    and e: "X2 (rotl s0 a XOR (s1 XOR s0) XOR push_bit b (s1 XOR s0)) (rotl (s1 XOR s0) c)
      = X2 (rotl t0 a XOR (t1 XOR t0) XOR push_bit b (t1 XOR t0)) (rotl (t1 XOR t0) c)"
  shows "X2 s0 s1 = X2 t0 t1"
proof -
  have d: "s1 XOR s0 = t1 XOR t0" using rotl_inj[OF c] e by blast
  have "rotl s0 a = rotl t0 a" using e by (simp add: d xor.assoc xor_same_eq)
  then have "s0 = t0" by (rule rotl_inj[OF a])
  then show ?thesis using d by (simp add: xor_same_eq)
qed

interpretation xo128: xor_engine "\<lambda>_. True" "\<lambda>s. snd (xoroshiro128_next v s)" xor2 "X2 0 0" for v
proof unfold_locales
  obtain p q r where abc: "xoroshiro_abc v = (p, q, r)" by (cases "xoroshiro_abc v")
  note bd = xoroshiro_abc_bounds[OF abc]
  show "snd (xoroshiro128_next v (xor2 a b)) = xor2 (snd (xoroshiro128_next v a)) (snd (xoroshiro128_next v b))" for a b
  proof (cases a; cases b)
    fix a0 a1 b0 b1 assume "a = X2 a0 a1" "b = X2 b0 b1"
    then show ?thesis
      by (simp add: xoroshiro128_step abc xor_linear bd) (simp add: ac_simps)
  qed
  show "snd (xoroshiro128_next v a) = snd (xoroshiro128_next v b) \<Longrightarrow> a = b" for a b
    by (cases a; cases b; simp only: xoroshiro128_step abc prod.case;
        erule xoroshiro_core_inj[rotated 4]; simp add: bd)
qed (rule TrueI | rule xor2_laws)+

subsection \<open>Saved states\<close>

lemma starts_with_append [simp]: "starts_with (name @ xs) name"
  by (simp add: starts_with_def)

lemma read_words_saved:
  "read_words (Suc (length ws)) name (name @ dashed (w # ws :: 'a::len word list)) = Read (w # ws)"
  using extract_after_first_dash[of "[]" ws w] by (simp add: read_words_def substr_from_def)

lemma extract_words_failed:
  "\<not> good st \<Longrightarrow> fst (extract_words k st) = replicate k (0 :: 'a::len word)"
proof (induction k arbitrary: st)
  case (Suc k)
  then obtain st' where st': "extract_unsigned (2 ^ LENGTH('a) - 1) st = (None, st')" "\<not> good st'"
    by (simp add: extract_unsigned_def Let_def)
  then show ?case using Suc.IH[of st'] by (simp add: case_prod_beta)
qed simp

text \<open>Text that does not begin with a number leaves every word at 0: the streams do not throw.\<close>

lemma read_words_no_number:
  assumes "c \<noteq> CHR ''-''" "\<not> is_space c" "\<not> is_digit c" "c \<noteq> CHR ''+''"
  shows "read_words k name (name @ CHR ''-'' # c # cs) = Read (replicate k (0 :: 'a::len word))"
proof (cases k)
  case 0
  then show ?thesis by (simp add: read_words_def substr_from_def)
next
  case (Suc k')
  let ?st = "\<lparr>chars = c # dash_to_space cs, good = False\<rparr>"
  have "extract_unsigned (2 ^ LENGTH('a) - 1) \<lparr>chars = c # dash_to_space cs, good = True\<rparr> = (Some 0, ?st)"
    using assms by (simp add: extract_unsigned_def Let_def)
  moreover have "fst (extract_words k' ?st) = replicate k' (0 :: 'a word)"
    by (rule extract_words_failed) simp
  ultimately show ?thesis
    using assms(1) by (simp add: read_words_def substr_from_def Suc case_prod_beta)
qed

lemma read_words_name_only: "read_words k name name = Thrown"
  by (simp add: read_words_def starts_with_def substr_from_def)

text \<open>A class accepts the text saved by a class whose name extends its own by one letter.\<close>

lemma read_words_longer_name:
  "read_words (length ws) name (name @ c # dashed (ws :: 'a::len word list)) = Read ws"
  using extract_dashed[of "[]" ws] by (simp add: read_words_def substr_from_def)

subsection \<open>Seeds\<close>

lemma xoshiro256_seed_nonzero: "xoshiro256_seed x \<noteq> X4 0 0 0 0"
  using splitmix64_draws_nonzero[of 4 x]
  by (auto simp: xoshiro256_seed_def Let_def eval_nat_numeral case_prod_beta)

lemma xoroshiro128_seed_nonzero: "xoroshiro128_seed x \<noteq> X2 0 0"
  using splitmix64_draws_nonzero[of 2 x]
  by (auto simp: xoroshiro128_seed_def Let_def eval_nat_numeral case_prod_beta)

lemma xoshiro512_seed_nonzero: "xoshiro512_seed x \<noteq> X8 0 0 0 0 0 0 0 0"
  using splitmix64_draws_nonzero[of 8 x]
  by (auto simp: xoshiro512_seed_def Let_def eval_nat_numeral case_prod_beta)

end
