(* ===== verification/Xoroshiro1024.thy ===== *)
theory Xoroshiro1024
  imports XorshiftLaws
begin

text \<open>
  The xoroshiro1024 family of \<open>Utility/xorshift.hpp\<close>: sixteen words in a ring and the C index
  \<open>p\<close> of the oldest.  An index outside the array, which only a restored state can hold, is
  \<open>None\<close>.  The \<open>window\<close> of a state is the ring read from \<open>p\<close>; there the step is a shift, and
  the shift is a \<open>xor_engine\<close>.
\<close>

record xo1024 =
  ring :: "u64 list"
  pos :: int

subsection \<open>Steps\<close>

definition xoroshiro1024s_next :: "xo1024 \<Rightarrow> (u64 \<times> xo1024) option" where
  "xoroshiro1024s_next st = (let q = pos st; p = (q + 1) AND 15 in
     assert_that (0 \<le> q \<and> q < 16) (let
       s0 = ring st ! nat p;
       s15 = ring st ! nat q;
       result = s0 * 0x9e3779b97f4a7c13;
       s15 = s15 XOR s0;
       s = (ring st)[nat q := rotl s0 25 XOR s15 XOR push_bit 27 s15];
       s = s[nat p := rotl s15 36]
     in Some (result, \<lparr>ring = s, pos = p\<rparr>)))"

definition xoroshiro1024pp_next :: "xo1024 \<Rightarrow> (u64 \<times> xo1024) option" where
  "xoroshiro1024pp_next st = (let q = pos st; p = (q + 1) AND 15 in
     assert_that (0 \<le> q \<and> q < 16) (let
       s0 = ring st ! nat p;
       s15 = ring st ! nat q;
       result = rotl (s0 + s15) 23 + s15;
       s15 = s15 XOR s0;
       s = (ring st)[nat q := rotl s0 25 XOR s15 XOR push_bit 27 s15];
       s = s[nat p := rotl s15 36]
     in Some (result, \<lparr>ring = s, pos = p\<rparr>)))"

definition xoroshiro1024ss_next :: "xo1024 \<Rightarrow> (u64 \<times> xo1024) option" where
  "xoroshiro1024ss_next st = (let q = pos st; p = (q + 1) AND 15 in
     assert_that (0 \<le> q \<and> q < 16) (let
       s0 = ring st ! nat p;
       s15 = ring st ! nat q;
       result = rotl (s0 * 5) 7 * 9;
       s15 = s15 XOR s0;
       s = (ring st)[nat q := rotl s0 25 XOR s15 XOR push_bit 27 s15];
       s = s[nat p := rotl s15 36]
     in Some (result, \<lparr>ring = s, pos = p\<rparr>)))"

text \<open>The classes of this family are s, pp and ss; \<open>P\<close> stands for s.\<close>

fun xoroshiro1024_next :: "scrambler \<Rightarrow> xo1024 \<Rightarrow> (u64 \<times> xo1024) option" where
  "xoroshiro1024_next P = xoroshiro1024s_next"
| "xoroshiro1024_next PP = xoroshiro1024pp_next"
| "xoroshiro1024_next SS = xoroshiro1024ss_next"

fun xoroshiro1024_name :: "scrambler \<Rightarrow> string" where
  "xoroshiro1024_name P = ''xoroshiro1024s''"
| "xoroshiro1024_name PP = ''xoroshiro1024pp''"
| "xoroshiro1024_name SS = ''xoroshiro1024ss''"

definition xoroshiro1024_seed :: "u64 \<Rightarrow> xo1024" where
  "xoroshiro1024_seed seedv = \<lparr>ring = splitmix64_draws 16 seedv, pos = 0\<rparr>"

subsection \<open>Jumps\<close>

definition ring_at :: "xo1024 \<Rightarrow> nat \<Rightarrow> u64" where
  "ring_at st j = ring st ! nat ((int j + pos st) AND 15)"

fun scan1024 :: "scrambler \<Rightarrow> bool list \<Rightarrow> u64 list \<Rightarrow> xo1024 \<Rightarrow> (u64 list \<times> xo1024) option" where
  "scan1024 v [] t st = Some (t, st)"
| "scan1024 v (b # bs) t st = (let
     t = (if b then map (\<lambda>j. t ! j XOR ring_at st j) [0..<16] else t)
   in case xoroshiro1024_next v st of None \<Rightarrow> None | Some (_, st') \<Rightarrow> scan1024 v bs t st')"

definition write_back :: "u64 list \<Rightarrow> xo1024 \<Rightarrow> xo1024" where
  "write_back t st = st\<lparr>ring := foldl (\<lambda>s i. s[nat ((int i + pos st) AND 15) := t ! i]) (ring st) [0..<16]\<rparr>"

definition xoroshiro1024_jump_by_table :: "scrambler \<Rightarrow> u64 list \<Rightarrow> xo1024 \<Rightarrow> xo1024 option" where
  "xoroshiro1024_jump_by_table v T st =
    (case scan1024 v (table_bits T) (replicate 16 0) st of None \<Rightarrow> None
     | Some (t, st') \<Rightarrow> Some (write_back t st'))"

definition xoroshiro1024_JUMP :: "u64 list" where
  "xoroshiro1024_JUMP =
    [0x931197d8e3177f17, 0xb59422e0b9138c5f, 0xf06a6afb49d668bb, 0xacb8a6412c8a1401,
     0x12304ec85f0b3468, 0xb7dfe7079209891e, 0x405b7eec77d9eb14, 0x34ead68280c44e4a,
     0xe0e4ba3e0ac9e366, 0x8f46eda8348905b7, 0x328bf4dbad90d6ff, 0xc8fd6fb31c9effc3,
     0xe899d452d4b67652, 0x45f387286ade3205, 0x03864f454a8920bd, 0xa68fa28725b1b384]"

definition xoroshiro1024_LONG_JUMP :: "u64 list" where
  "xoroshiro1024_LONG_JUMP =
    [0x7374156360bbf00f, 0x4630c2efa3b3c1f6, 0x6654183a892786b1, 0x94f7bfcbfb0f1661,
     0x27d8243d3d13eb2d, 0x9701730f3dfb300f, 0x2f293baae6f604ad, 0xa661831cb60cd8b6,
     0x68280c77d9fe008c, 0x50554160f5ba9459, 0x2fc20b17ec7b2a9a, 0x49189bbdc8ec9f8f,
     0x92a65bca41852cc1, 0xf46820dd0509c12a, 0x52b00c35fbf92185, 0x1e5b3b7f589e03c1]"

definition xoroshiro1024_jump :: "scrambler \<Rightarrow> xo1024 \<Rightarrow> xo1024 option" where
  "xoroshiro1024_jump v st = xoroshiro1024_jump_by_table v xoroshiro1024_JUMP st"

definition xoroshiro1024_long_jump :: "scrambler \<Rightarrow> xo1024 \<Rightarrow> xo1024 option" where
  "xoroshiro1024_long_jump v st = xoroshiro1024_jump_by_table v xoroshiro1024_LONG_JUMP st"

subsection \<open>Saved states\<close>

definition show_int :: "int \<Rightarrow> string" where
  "show_int i = (if i < 0 then CHR ''-'' # show_nat (nat (- i)) else show_nat (nat i))"

text \<open>
  \<open>ss >> v_p\<close> for an \<open>int\<close>: an overflow stores the nearest bound and fails.
\<close>

definition extract_int :: "istream \<Rightarrow> int option \<times> istream" where
  "extract_int st = (let cs = dropWhile is_space (chars st) in
     if \<not> good st \<or> cs = [] then (None, \<lparr>chars = cs, good = False\<rparr>)
     else let
       neg = (hd cs = CHR ''-'');
       body = (if hd cs = CHR ''-'' \<or> hd cs = CHR ''+'' then tl cs else cs);
       ds = takeWhile is_digit body;
       rest = dropWhile is_digit body;
       n = (if neg then - int (digits_value ds) else int (digits_value ds))
     in if ds = [] then (Some 0, \<lparr>chars = rest, good = False\<rparr>)
        else if n < - (2 ^ 31) then (Some (- (2 ^ 31)), \<lparr>chars = rest, good = False\<rparr>)
        else if 2 ^ 31 - 1 < n then (Some (2 ^ 31 - 1), \<lparr>chars = rest, good = False\<rparr>)
        else (Some n, \<lparr>chars = rest, good = True\<rparr>))"

definition xoroshiro1024_serialize :: "scrambler \<Rightarrow> xo1024 \<Rightarrow> string" where
  "xoroshiro1024_serialize v st = xoroshiro1024_name v @ ''-'' @ show_int (pos st) @ dashed (ring st)"

definition xoroshiro1024_deserialize ::
  "scrambler \<Rightarrow> string \<Rightarrow> xo1024 \<Rightarrow> (bool \<times> xo1024) option" where
  "xoroshiro1024_deserialize v data st =
    (if \<not> starts_with data (xoroshiro1024_name v) then Some (False, st)
     else case substr_from data (length (xoroshiro1024_name v) + 1) of
       None \<Rightarrow> None
     | Some tail \<Rightarrow> let
         (v_p, ss) = extract_int \<lparr>chars = dash_to_space tail, good = True\<rparr>;
         v_s = fst (extract_words 16 ss)
       in Some (True, \<lparr>ring = v_s, pos = (case v_p of None \<Rightarrow> 0 | Some p \<Rightarrow> p)\<rparr>))"

subsection \<open>The window\<close>

definition ring_ok :: "xo1024 \<Rightarrow> bool" where
  "ring_ok st \<longleftrightarrow> length (ring st) = 16 \<and> 0 \<le> pos st \<and> pos st < 16"

definition window :: "xo1024 \<Rightarrow> u64 list" where
  "window st = map (ring_at st) [0..<16]"

definition window_step :: "u64 list \<Rightarrow> u64 list" where
  "window_step w = (let s15 = w ! 0; s0 = w ! 1; x = s15 XOR s0 in
     rotl x 36 # drop 2 w @ [rotl s0 25 XOR x XOR push_bit 27 x])"

fun window_output :: "scrambler \<Rightarrow> u64 list \<Rightarrow> u64" where
  "window_output P w = w ! 1 * 0x9e3779b97f4a7c13"
| "window_output PP w = rotl (w ! 1 + w ! 0) 23 + w ! 0"
| "window_output SS w = rotl (w ! 1 * 5) 7 * 9"

lemma and_15: "i AND 15 = i mod (16 :: int)"
  using take_bit_eq_mask[of 4 i] by (simp add: mask_eq_exp_minus_1 take_bit_eq_mod)

lemma length_window [simp]: "length (window st) = 16"
  by (simp add: window_def)

lemma window_nth: "j < 16 \<Longrightarrow> window st ! j = ring_at st j"
  by (simp add: window_def)

lemma ring_at_mod: "ring_ok st \<Longrightarrow> ring_at st j = ring st ! ((j + nat (pos st)) mod 16)"
  by (simp add: ring_at_def ring_ok_def and_15 nat_mod_distrib nat_add_distrib)

lemma next_window:
  assumes "ring_ok st"
  shows "\<exists>st'. xoroshiro1024_next v st = Some (window_output v (window st), st') \<and> ring_ok st'
    \<and> window st' = window_step (window st) \<and> pos st' = (pos st + 1) mod 16"
proof -
  define q where "q = nat (pos st)"
  define p where "p = (q + 1) mod 16"
  have q: "q < 16" "pos st = int q" and len: "length (ring st) = 16"
    using assms by (auto simp: ring_ok_def q_def)
  have p: "p < 16" "p \<noteq> q" using q(1) by (auto simp: p_def mod_if split: if_splits)
  have ip: "(int q + 1) mod 16 = int p" by (simp add: p_def zmod_int ac_simps)
  have w0: "window st ! 0 = ring st ! q" and w1: "window st ! 1 = ring st ! p"
    using q assms by (simp_all add: window_nth ring_at_mod p_def)
  define x where "x = ring st ! q XOR ring st ! p"
  define st' where "st' = \<lparr>ring = (ring st)[q := rotl (ring st ! p) 25 XOR x XOR push_bit 27 x, p := rotl x 36],
    pos = int p\<rparr>"
  have ok: "ring_ok st'" using p(1) len by (simp add: ring_ok_def st'_def)
  have nx: "xoroshiro1024_next v st = Some (window_output v (window st), st')"
    using q(1) by (cases v) (simp_all add: xoroshiro1024s_next_def xoroshiro1024pp_next_def
        xoroshiro1024ss_next_def Let_def q(2) and_15 ip w0 w1[simplified] st'_def x_def)
  have "window st' = window_step (window st)"
  proof (rule nth_equalityI)
    show "length (window st') = length (window_step (window st))"
      by (simp add: window_step_def Let_def)
    fix j assume "j < length (window st')"
    then have j: "j < 16" by simp
    have l: "window st' ! j = ring st' ! ((j + p) mod 16)"
      using j ok by (simp add: window_nth ring_at_mod) (simp add: st'_def)
    consider "j = 0" | "0 < j" "j < 15" | "j = 15" using j by linarith
    then show "window st' ! j = window_step (window st) ! j"
    proof cases
      case 1
      then show ?thesis using l p(1) len
        by (simp add: st'_def window_step_def Let_def x_def w0 w1[simplified])
    next
      case 2
      have ne: "(j + p) mod 16 \<noteq> p" "(j + p) mod 16 \<noteq> q"
        using 2 q(1) by (auto simp: p_def mod_if split: if_splits)
      have "(j + p) mod 16 = (j + 1 + q) mod 16" by (simp add: p_def mod_simps ac_simps)
      then have "window st' ! j = window st ! (j + 1)"
        using l ne 2 assms q by (simp add: st'_def window_nth ring_at_mod)
      moreover have "window_step (window st) ! j = window st ! (j + 1)"
        using 2 by (cases j) (simp_all add: window_step_def Let_def nth_append)
      ultimately show ?thesis by simp
    next
      case 3
      have "(15 + p) mod 16 = q" using q(1) by (auto simp: p_def mod_if)
      then show ?thesis using l 3 p(2) q(1) len
        by (simp add: st'_def window_step_def Let_def nth_append x_def w0 w1[simplified])
    qed
  qed
  then show ?thesis using nx ok ip q(2) by (intro exI[of _ st']) (simp add: st'_def)
qed

subsection \<open>The window as an engine\<close>

definition xor16 :: "u64 list \<Rightarrow> u64 list \<Rightarrow> u64 list" where
  "xor16 a b = map (\<lambda>j. a ! j XOR b ! j) [0..<16]"

lemma length_xor16 [simp]: "length (xor16 a b) = 16"
  by (simp add: xor16_def)

lemma xor16_nth: "j < 16 \<Longrightarrow> xor16 a b ! j = a ! j XOR b ! j"
  by (simp add: xor16_def)

lemma length_window_step [simp]: "length w = 16 \<Longrightarrow> length (window_step w) = 16"
  by (simp add: window_step_def Let_def)

lemma window_step_nth:
  assumes "length w = 16" "j < 16"
  shows "window_step w ! j = (if j = 0 then rotl (w ! 0 XOR w ! 1) 36
    else if j = 15 then rotl (w ! 1) 25 XOR (w ! 0 XOR w ! 1) XOR push_bit 27 (w ! 0 XOR w ! 1)
    else w ! Suc j)"
  using assms by (cases j) (auto simp: window_step_def Let_def nth_append)

lemma window_step_inj:
  assumes len: "length a = 16" "length b = 16" and e: "window_step a = window_step b"
  shows "a = b"
proof (rule nth_equalityI)
  have n: "window_step a ! j = window_step b ! j" for j using e by simp
  have x: "a ! 0 XOR a ! 1 = b ! 0 XOR b ! 1"
    using n[of 0] by (simp add: window_step_nth len)
  have "rotl (a ! 1) 25 = rotl (b ! 1) 25"
    using n[of 15] by (simp add: window_step_nth len x[simplified] xor.assoc xor_same_eq)
  then have a1: "a ! 1 = b ! 1" by (rule rotl_inj[rotated 2]) simp_all
  then have a0: "a ! 0 = b ! 0" using x by (simp add: xor_same_eq)
  fix j assume "j < length a"
  then have j: "j < 16" using len by simp
  show "a ! j = b ! j"
  proof (cases "j < 2")
    case True
    then show ?thesis using a0 a1 by (auto simp: less_2_cases_iff)
  next
    case False
    then obtain k where "j = Suc k" "k \<noteq> 0" by (cases j) auto
    then show ?thesis using n[of k] j by (simp add: window_step_nth len)
  qed
qed (simp add: len)

interpretation x1024: xor_engine "\<lambda>w. length w = 16" window_step xor16 "replicate 16 0"
proof unfold_locales
  show "window_step (xor16 a b) = xor16 (window_step a) (window_step b)"
    if "length a = 16" "length b = 16" for a b
    by (rule nth_equalityI) (use that in \<open>auto simp: window_step_nth xor16_nth xor_linear ac_simps\<close>)
  show "window_step a = window_step b \<Longrightarrow> a = b" if "length a = 16" "length b = 16" for a b
    by (rule window_step_inj[OF that])
qed (auto intro!: nth_equalityI simp: xor16_nth ac_simps)

subsection \<open>Jumps on the window\<close>

lemma scan1024_window:
  "ring_ok st \<Longrightarrow> length t = 16 \<Longrightarrow> \<exists>t' st'. scan1024 v bs t st = Some (t', st') \<and> ring_ok st'
    \<and> pos st' = (pos st + int (length bs)) mod 16 \<and> length t' = 16
    \<and> t' = jump_scan xor16 window_step bs t (window st)"
proof (induction bs arbitrary: t st)
  case Nil
  then show ?case by (simp add: ring_ok_def)
next
  case (Cons b bs)
  obtain st1 where st1: "xoroshiro1024_next v st = Some (window_output v (window st), st1)" "ring_ok st1"
    "window st1 = window_step (window st)" "pos st1 = (pos st + 1) mod 16"
    using next_window[OF Cons.prems(1)] by blast
  define t1 where "t1 = (if b then map (\<lambda>j. t ! j XOR ring_at st j) [0..<16] else t)"
  have t1: "t1 = (if b then xor16 t (window st) else t)" "length t1 = 16"
    using Cons.prems(2) by (simp_all add: t1_def xor16_def window_nth)
  obtain t' st' where r: "scan1024 v bs t1 st1 = Some (t', st')" "ring_ok st'"
    "pos st' = (pos st1 + int (length bs)) mod 16" "length t' = 16"
    "t' = jump_scan xor16 window_step bs t1 (window st1)"
    using Cons.IH[OF st1(2) t1(2)] by blast
  have "scan1024 v (b # bs) t st = Some (t', st')"
    by (simp add: Let_def st1(1) r(1) flip: t1_def)
  moreover have "t' = jump_scan xor16 window_step (b # bs) t (window st)"
    by (simp add: r(5) st1(3) t1(1))
  moreover have "pos st' = (pos st + int (length (b # bs))) mod 16"
    by (simp add: r(3) st1(4) mod_simps ac_simps)
  ultimately show ?case using r(2,4) by blast
qed

lemma write_back_nth:
  assumes "length s = 16" "p < 16" "n \<le> 16" "k < 16"
  shows "length (foldl (\<lambda>s i. s[(i + p) mod 16 := t ! i]) s [0..<n]) = 16
    \<and> foldl (\<lambda>s i. s[(i + p) mod 16 := t ! i]) s [0..<n] ! ((k + p) mod 16)
      = (if k < n then t ! k else s ! ((k + p) mod 16))"
  using assms(3)
proof (induction n)
  case 0
  then show ?case using assms(1) by simp
next
  case (Suc n)
  have "(n + p) mod 16 = (k + p) mod 16 \<longleftrightarrow> n = k"
    using mod_add_inj[of n 16 k p] Suc.prems assms(4) by (auto simp: ac_simps)
  then show ?case using Suc by (auto simp: nth_list_update)
qed

lemma window_write_back:
  assumes "ring_ok st" "length t = 16"
  shows "ring_ok (write_back t st)" "window (write_back t st) = t" "pos (write_back t st) = pos st"
proof -
  define p where "p = nat (pos st)"
  have p: "p < 16" "pos st = int p" "length (ring st) = 16"
    using assms(1) by (auto simp: ring_ok_def p_def)
  have ix: "nat ((int i + pos st) AND 15) = (i + p) mod 16" for i
    by (simp add: p(2) and_15 nat_mod_distrib nat_add_distrib)
  have rg: "ring (write_back t st) = foldl (\<lambda>s i. s[(i + p) mod 16 := t ! i]) (ring st) [0..<16]"
    by (simp add: write_back_def ix)
  show pos: "pos (write_back t st) = pos st" by (simp add: write_back_def)
  show ok: "ring_ok (write_back t st)"
    using write_back_nth[OF p(3,1), of 16 0 t] p by (simp add: ring_ok_def pos rg)
  show "window (write_back t st) = t"
  proof (rule nth_equalityI)
    fix j assume "j < length (window (write_back t st))"
    then have j: "j < 16" by simp
    show "window (write_back t st) ! j = t ! j"
      using write_back_nth[OF p(3,1), of 16 j t] j
      by (simp add: window_nth ring_at_mod[OF ok] pos p_def[symmetric] rg del: upt_rec_numeral)
  qed (simp add: assms(2))
qed

lemma jump1024_window:
  assumes "ring_ok st" "length T = 16"
  shows "\<exists>st'. xoroshiro1024_jump_by_table v T st = Some st' \<and> ring_ok st' \<and> pos st' = pos st
    \<and> window st' = jump_scan xor16 window_step (table_bits T) (replicate 16 0) (window st)"
proof -
  obtain t st1 where r: "scan1024 v (table_bits T) (replicate 16 0) st = Some (t, st1)" "ring_ok st1"
    "pos st1 = (pos st + int (length (table_bits T))) mod 16" "length t = 16"
    "t = jump_scan xor16 window_step (table_bits T) (replicate 16 0) (window st)"
    using scan1024_window[OF assms(1), of "replicate 16 0" v "table_bits T"] by auto
  have "pos st1 = pos st"
    using r(3) assms by (simp add: length_table_bits ring_ok_def) presburger
  then show ?thesis
    using r window_write_back[OF r(2,4)]
    by (intro exI[of _ "write_back t st1"]) (simp add: xoroshiro1024_jump_by_table_def)
qed

subsection \<open>Seeds and saved states\<close>

lemma seed1024: "ring_ok (xoroshiro1024_seed x)" "ring (xoroshiro1024_seed x) \<noteq> replicate 16 0"
  using splitmix64_draws_nonzero[of 16 x] by (simp_all add: ring_ok_def xoroshiro1024_seed_def)

lemma extract_int_show_nat:
  assumes "n \<le> 2 ^ 31 - 1" "rest = [] \<or> \<not> is_digit (hd rest)"
  shows "extract_int \<lparr>chars = show_nat n @ rest, good = True\<rparr>
    = (Some (int n), \<lparr>chars = rest, good = True\<rparr>)"
proof -
  obtain d ds where x: "show_nat n = d # ds" by (cases "show_nat n") auto
  have dg: "\<forall>c \<in> set (show_nat n). is_digit c" using show_nat_digits by blast
  then have d: "\<not> is_space d" "d \<noteq> CHR ''-''" "d \<noteq> CHR ''+''"
    using x by (auto dest: is_digit_not_space)
  have tk: "takeWhile is_digit (show_nat n @ rest) = show_nat n"
    "dropWhile is_digit (show_nat n @ rest) = rest"
    using dg assms(2) by (cases rest; simp add: takeWhile_append dropWhile_append)+
  have "dropWhile is_space (show_nat n @ rest) = show_nat n @ rest" using d(1) by (simp add: x)
  moreover have "hd (show_nat n @ rest) = d" by (simp add: x)
  ultimately show ?thesis
    using assms(1) d by (simp add: extract_int_def Let_def tk)
qed

lemma saved1024:
  assumes "ring_ok st"
  shows "xoroshiro1024_deserialize v (xoroshiro1024_serialize v st) st0 = Some (True, st)"
proof -
  have p: "0 \<le> pos st" "nat (pos st) \<le> 2 ^ 31 - 1" and len: "length (ring st) = 16"
    using assms by (auto simp: ring_ok_def)
  have nd: "dash_to_space (dashed (ring st)) = [] \<or> \<not> is_digit (hd (dash_to_space (dashed (ring st))))"
    by (rule hd_dashed(2))
  have i: "extract_int \<lparr>chars = show_nat (nat (pos st)) @ dash_to_space (dashed (ring st)), good = True\<rparr>
      = (Some (pos st), \<lparr>chars = dash_to_space (dashed (ring st)), good = True\<rparr>)"
    using extract_int_show_nat[OF p(2) nd] p(1) by simp
  have w: "extract_words 16 \<lparr>chars = dash_to_space (dashed (ring st)), good = True\<rparr>
      = (ring st, \<lparr>chars = [], good = True\<rparr>)"
    using extract_dashed[of "[]" "ring st"] by (simp add: len)
  show ?thesis
    using p(1) by (simp add: xoroshiro1024_deserialize_def xoroshiro1024_serialize_def substr_from_def
        show_int_def i w)
qed

end
