(* ===== verification/BoundedRand.thy ===== *)
theory BoundedRand
  imports Xorshift
begin

text \<open>
  \<open>bounded_rand\<close>: which draw it returns, when it returns, and that accepting the draws from the
  threshold on leaves every remainder equally often.
\<close>

subsection \<open>The loop\<close>

abbreviation run_state :: "('s \<Rightarrow> 'w \<times> 's) \<Rightarrow> 's \<Rightarrow> nat \<Rightarrow> 's" where
  "run_state nxt s k \<equiv> ((\<lambda>s. snd (nxt s)) ^^ k) s"

abbreviation draw :: "('s \<Rightarrow> 'w \<times> 's) \<Rightarrow> 's \<Rightarrow> nat \<Rightarrow> 'w" where
  "draw nxt s k \<equiv> fst (nxt (run_state nxt s k))"

lemma run_state_shift:
  "run_state nxt (snd (nxt s)) k = snd (nxt (run_state nxt s k))"
  by (induction k) simp_all

definition accepted_at :: "('s \<Rightarrow> 'a::len word \<times> 's) \<Rightarrow> u64 \<Rightarrow> 's \<Rightarrow> nat \<Rightarrow> bool" where
  "accepted_at nxt t s k \<longleftrightarrow> t \<le> ucast (draw nxt s k) \<and> (\<forall>j<k. \<not> t \<le> ucast (draw nxt s j))"

lemma accepted_at_0: "accepted_at nxt t s 0 \<longleftrightarrow> t \<le> ucast (fst (nxt s))"
  by (simp add: accepted_at_def)

lemma accepted_at_Suc:
  "accepted_at nxt t s (Suc k) \<longleftrightarrow> \<not> t \<le> ucast (fst (nxt s)) \<and> accepted_at nxt t (snd (nxt s)) k"
  by (auto simp: accepted_at_def run_state_shift less_Suc_eq_0_disj)

lemma bounded_loop_accepts:
  "accepted_at nxt t s k \<Longrightarrow>
    bounded_loop nxt t ub s = Some (ucast (draw nxt s k) mod ub, run_state nxt s (Suc k))"
proof (induction k arbitrary: s)
  case 0
  then show ?case
    by (subst bounded_loop.simps) (simp add: accepted_at_0 Let_def case_prod_beta)
next
  case (Suc k)
  then have r: "\<not> t \<le> ucast (fst (nxt s))" "accepted_at nxt t (snd (nxt s)) k"
    by (simp_all add: accepted_at_Suc)
  have "bounded_loop nxt t ub s = bounded_loop nxt t ub (snd (nxt s))"
    using r(1) by (subst bounded_loop.simps) (simp add: Let_def case_prod_beta)
  then show ?case using Suc.IH[OF r(2)] by (simp add: run_state_shift)
qed

lemma bounded_loop_Some:
  assumes "bounded_loop nxt t ub s = Some rs"
  shows "\<exists>k. accepted_at nxt t s k \<and> rs = (ucast (draw nxt s k) mod ub, run_state nxt s (Suc k))"
proof (rule bounded_loop.raw_induct[OF _ assms, where P = "\<lambda>nxt t ub s rs.
    \<exists>k. accepted_at nxt t s k \<and> rs = (ucast (draw nxt s k) mod ub, run_state nxt s (Suc k))"])
  fix loop nxt t ub s rs
  assume IH: "\<And>nxt t ub s rs. loop nxt t ub s = Some rs \<Longrightarrow>
      \<exists>k. accepted_at nxt t s k \<and> rs = (ucast (draw nxt s k) mod ub, run_state nxt s (Suc k))"
    and step: "(let (x, s') = nxt s; r = ucast (x - 0)
      in if t \<le> r then Some (r mod ub, s') else loop nxt t ub s') = Some rs"
  show "\<exists>k. accepted_at nxt t s k \<and> rs = (ucast (draw nxt s k) mod ub, run_state nxt s (Suc k))"
  proof (cases "t \<le> ucast (fst (nxt s))")
    case True
    then have "rs = (ucast (fst (nxt s)) mod ub, snd (nxt s))"
      using step by (simp add: Let_def case_prod_beta)
    then show ?thesis using True by (intro exI[of _ 0]) (simp add: accepted_at_0)
  next
    case False
    then have "loop nxt t ub (snd (nxt s)) = Some rs"
      using step by (simp add: Let_def case_prod_beta)
    then obtain k where "accepted_at nxt t (snd (nxt s)) k"
      "rs = (ucast (draw nxt (snd (nxt s)) k) mod ub, run_state nxt (snd (nxt s)) (Suc k))"
      using IH by blast
    then show ?thesis using False
      by (intro exI[of _ "Suc k"]) (simp add: accepted_at_Suc run_state_shift)
  qed
qed

lemma bounded_loop_terminates:
  assumes "t \<le> ucast (draw nxt s k)"
  shows "\<exists>k' \<le> k. accepted_at nxt t s k'"
  using assms
proof (induction k rule: less_induct)
  case (less k)
  show ?case
  proof (cases "\<exists>j<k. t \<le> ucast (draw nxt s j)")
    case True
    then obtain j where "j < k" "t \<le> ucast (draw nxt s j)" by blast
    then show ?thesis using less(1)[of j] by (meson le_trans less_imp_le)
  next
    case False
    then show ?thesis using less(2) by (auto simp: accepted_at_def)
  qed
qed

subsection \<open>The threshold\<close>

lemma bounded_threshold_value:
  assumes "LENGTH('a::len) \<le> 64" "ub \<noteq> 0" "unat ub \<le> 2 ^ LENGTH('a)"
  shows "unat (bounded_threshold TYPE('a word) ub) = 2 ^ LENGTH('a) mod unat ub"
proof -
  have ub: "0 < unat ub" using assms(2) by (simp add: unat_gt_0)
  have le: "(2::nat) ^ LENGTH('a) \<le> 2 ^ 64" by (rule power_increasing) (use assms(1) in auto)
  have m1: "(ucast (- 1 :: 'a word) :: u64) = of_nat (2 ^ LENGTH('a) - 1)"
    by (rule word_unat_eq_iff[THEN iffD2])
      (use le in \<open>simp add: unsigned_ucast_eq unsigned_minus_1_eq_mask mask_eq_exp_minus_1 take_bit_nat_def unat_of_nat\<close>)
  have "(ucast (- 1 :: 'a word) :: u64) + 1 = of_nat (2 ^ LENGTH('a))"
    unfolding m1 by (simp add: of_nat_diff)
  moreover have "(of_nat (2 ^ LENGTH('a)) :: u64) - ub = of_nat (2 ^ LENGTH('a) - unat ub)"
    using assms(3) by (simp add: of_nat_diff)
  moreover have "unat (of_nat (2 ^ LENGTH('a) - unat ub) :: u64) = 2 ^ LENGTH('a) - unat ub"
    using le ub by (simp add: unat_of_nat)
  ultimately have "unat (bounded_threshold TYPE('a word) ub) = (2 ^ LENGTH('a) - unat ub) mod unat ub"
    by (simp add: bounded_threshold_def unat_mod)
  also have "\<dots> = 2 ^ LENGTH('a) mod unat ub"
    using assms(3) by (simp add: le_mod_geq)
  finally show ?thesis .
qed

text \<open>A run of \<open>q * m\<close> consecutive numbers holds every remainder modulo \<open>m\<close> exactly \<open>q\<close> times.\<close>

lemma remainders_in_run:
  assumes "v < (m::nat)"
  shows "card {r. t \<le> r \<and> r < t + q * m \<and> r mod m = v} = q"
proof (induction q)
  case 0
  have "{r. t \<le> r \<and> r < t \<and> r mod m = v} = {}" by auto
  then show ?case by simp
next
  case (Suc q)
  let ?A = "{r. t \<le> r \<and> r < t + q * m \<and> r mod m = v}"
  define b where "b = t + q * m"
  define x where "x = (if b mod m \<le> v then b + (v - b mod m) else b + (m + v - b mod m))"
  have bm: "b mod m < m" using assms by simp
  have xb: "b \<le> x" "x < b + m" using assms bm by (auto simp: x_def)
  have xm: "x mod m = v"
  proof -
    have "x mod m = (b mod m + (x - b)) mod m" using xb(1) by (metis mod_add_left_eq le_add_diff_inverse)
    also have "\<dots> = v"
    proof (cases "b mod m \<le> v")
      case True
      then show ?thesis using assms by (simp add: x_def)
    next
      case False
      then have "b mod m + (x - b) = m + v" using bm by (simp add: x_def)
      then show ?thesis using assms by simp
    qed
    finally show ?thesis .
  qed
  have uniq: "r = x" if "b \<le> r" "r < b + m" "r mod m = v" for r
  proof -
    have "r - b = x - b"
      by (rule mod_add_inj[of _ m _ b]) (use that xb xm in auto)
    then show ?thesis using that(1) xb(1) by simp
  qed
  have e: "t + Suc q * m = b + m" and tb: "t \<le> b" and A: "?A = {r. t \<le> r \<and> r < b \<and> r mod m = v}"
    by (simp_all add: b_def)
  have "{r. t \<le> r \<and> r < t + Suc q * m \<and> r mod m = v} = insert x ?A"
  proof (rule set_eqI)
    fix r
    show "r \<in> {r. t \<le> r \<and> r < t + Suc q * m \<and> r mod m = v} \<longleftrightarrow> r \<in> insert x ?A"
      unfolding e A using uniq[of r] xb xm tb by (cases "r < b") force+
  qed
  moreover have "x \<notin> ?A" using xb by (auto simp: b_def)
  moreover have "finite ?A" by (rule finite_subset[of _ "{..<t + q * m}"]) auto
  ultimately show ?case using Suc by simp
qed

lemma accepted_draws_uniform:
  assumes "LENGTH('a::len) \<le> 64" "ub \<noteq> 0" "unat ub \<le> 2 ^ LENGTH('a)" "v < unat ub"
  shows "card {x :: 'a word. unat (bounded_threshold TYPE('a word) ub) \<le> unat x \<and> unat x mod unat ub = v}
    = 2 ^ LENGTH('a) div unat ub"
proof -
  let ?t = "2 ^ LENGTH('a) mod unat ub" and ?q = "2 ^ LENGTH('a) div unat ub"
  let ?R = "{r. ?t \<le> r \<and> r < ?t + ?q * unat ub \<and> r mod unat ub = v}"
  let ?X = "{x :: 'a word. ?t \<le> unat x \<and> unat x mod unat ub = v}"
  have n: "?t + ?q * unat ub = 2 ^ LENGTH('a)" by simp
  have "unat ` ?X = ?R"
  proof (intro equalityI subsetI)
    fix r assume "r \<in> ?R"
    then have r: "r < 2 ^ LENGTH('a)" "?t \<le> r" "r mod unat ub = v" unfolding n by auto
    then have "unat (of_nat r :: 'a word) = r" by (simp add: unat_of_nat)
    then show "r \<in> unat ` ?X" using r by (intro image_eqI[of _ _ "of_nat r"]) auto
  next
    fix r assume "r \<in> unat ` ?X"
    then show "r \<in> ?R" unfolding n by (auto simp: unsigned_less)
  qed
  moreover have inj: "inj_on unat ?X" by (rule inj_onI) (simp only: word_unat_eq_iff)
  ultimately have "card ?X = card ?R" using card_image[OF inj] by simp
  also have "card ?R = ?q" by (rule remainders_in_run[OF assms(4)])
  finally show ?thesis by (simp add: bounded_threshold_value[OF assms(1-3)])
qed

lemma bounded_rand_result:
  fixes nxt :: "'s \<Rightarrow> 'a::len word \<times> 's"
  assumes "bounded_rand nxt ub s = Some (r, s')"
  shows "r < ub"
proof -
  have "ub \<noteq> 0" using assms by (auto simp: bounded_rand_def option_inv)
  moreover obtain w where "r = w mod ub"
    using assms bounded_loop_Some[of nxt _ ub s "(r, s')"] unfolding bounded_rand_def option_inv by blast
  ultimately show ?thesis by (simp add: word_mod_less_divisor word_gt_0)
qed

lemma bounded_rand_Some_iff:
  fixes nxt :: "'s \<Rightarrow> 'a::len word \<times> 's"
  assumes "ub \<noteq> 0"
  shows "bounded_rand nxt ub s = Some (r, s') \<longleftrightarrow>
    (\<exists>k. accepted_at nxt (bounded_threshold TYPE('a word) ub) s k
      \<and> r = ucast (draw nxt s k) mod ub \<and> s' = run_state nxt s (Suc k))"
  (is "?L \<longleftrightarrow> (\<exists>k. ?A k)")
proof
  have b: "bounded_rand nxt ub s = bounded_loop nxt (bounded_threshold TYPE('a word) ub) ub s"
    using assms by (simp add: bounded_rand_def)
  show "?L \<Longrightarrow> \<exists>k. ?A k" unfolding b by (drule bounded_loop_Some) blast
  assume "\<exists>k. ?A k"
  then obtain k where a: "accepted_at nxt (bounded_threshold TYPE('a word) ub) s k"
    and r: "r = ucast (draw nxt s k) mod ub" "s' = run_state nxt s (Suc k)" by blast
  show ?L unfolding b r by (rule bounded_loop_accepts[where nxt = nxt and s = s, OF a])
qed

lemma bounded_rand_returns_iff:
  fixes nxt :: "'s \<Rightarrow> 'a::len word \<times> 's"
  assumes "ub \<noteq> 0"
  shows "(\<exists>rs. bounded_rand nxt ub s = Some rs) \<longleftrightarrow>
    (\<exists>k. bounded_threshold TYPE('a word) ub \<le> ucast (draw nxt s k))" (is "?L \<longleftrightarrow> ?R")
proof
  assume ?L
  then obtain r s' where "bounded_rand nxt ub s = Some (r, s')" by force
  then show ?R unfolding bounded_rand_Some_iff[OF assms] accepted_at_def by blast
next
  assume ?R
  then obtain k where k: "bounded_threshold TYPE('a word) ub \<le> ucast (draw nxt s k)" by blast
  obtain k' where "accepted_at nxt (bounded_threshold TYPE('a word) ub) s k'"
    using bounded_loop_terminates[where nxt = nxt and s = s, OF k] by blast
  from bounded_loop_accepts[where nxt = nxt and s = s, OF this] show ?L using assms unfolding bounded_rand_def by auto
qed

end
