(* ===== verification/RandomCorrect.thy ===== *)
theory RandomCorrect
  imports Xoroshiro1024 BoundedRand
begin

text \<open>
  The properties of the random generators.
\<close>

subsection \<open>Jumps\<close>

text \<open>
  A jump of the four fixed-layout families is the xor of the states the generator passes
  through at the set bits of the jump table: for each family, whatever class it is called on,
  the jumped state is the sum over the set bits \<open>k\<close> of the state after \<open>k\<close> calls of \<open>next\<close>.
\<close>

theorem jump_is_sum_of_states:
  "xoshiro128_jump v s4 = foldr xor4 (map (run_state (xoshiro128_next v) s4)
      (filter (nth (table_bits xoshiro128_JUMP)) [0..<128])) (X4 0 0 0 0)
   \<and> xoshiro256_jump v t4 = foldr xor4 (map (run_state (xoshiro256_next v) t4)
      (filter (nth (table_bits xoshiro256_JUMP)) [0..<256])) (X4 0 0 0 0)
   \<and> xoroshiro128_jump v s2 = foldr xor2 (map (run_state (xoroshiro128_next v) s2)
      (filter (nth (table_bits (xoroshiro128_JUMP v))) [0..<128])) (X2 0 0)
   \<and> xoshiro512_jump v s8 = foldr xor8 (map (run_state (xoshiro512_next v) s8)
      (filter (nth (table_bits xoshiro512_JUMP)) [0..<512])) (X8 0 0 0 0 0 0 0 0)"
proof -
  have l: "length (table_bits xoshiro128_JUMP) = 128" "length (table_bits xoshiro256_JUMP) = 256"
    "length (table_bits (xoroshiro128_JUMP v)) = 128" "length (table_bits xoshiro512_JUMP) = 512"
    by (simp_all add: length_table_bits xoshiro128_JUMP_def xoshiro256_JUMP_def xoshiro512_JUMP_def)
      (cases v; simp add: xoroshiro128p_JUMP_def xoroshiro128pp_JUMP_def xoroshiro128ss_JUMP_def)
  show ?thesis
    unfolding xoshiro128_jump_def xoshiro128_jump_by_table_def xoshiro256_jump_def
      xoshiro256_jump_by_table_def xoroshiro128_jump_def xoroshiro128_jump_by_table_def
      xoshiro512_jump_def xoshiro512_jump_by_table_def
      x128.jump_sum[OF TrueI] x256.jump_sum[OF TrueI] xo128.jump_sum[OF TrueI]
      x512.jump_sum[OF TrueI] l
    by blast
qed

text \<open>
  Streams split by jumps stay in step: jumping commutes with any number of calls of
  \<open>next\<close>, and \<open>jump\<close> and \<open>long_jump\<close> commute with each other, in each family.
\<close>

theorem jumps_commute_with_steps:
  "xoshiro128_jump v (run_state (xoshiro128_next v) s4 k) = run_state (xoshiro128_next v) (xoshiro128_jump v s4) k
   \<and> xoshiro128_jump v (xoshiro128_long_jump v s4) = xoshiro128_long_jump v (xoshiro128_jump v s4)
   \<and> xoshiro256_jump v (run_state (xoshiro256_next v) t4 k) = run_state (xoshiro256_next v) (xoshiro256_jump v t4) k
   \<and> xoshiro256_jump v (xoshiro256_long_jump v t4) = xoshiro256_long_jump v (xoshiro256_jump v t4)
   \<and> xoroshiro128_jump v (run_state (xoroshiro128_next v) s2 k) = run_state (xoroshiro128_next v) (xoroshiro128_jump v s2) k
   \<and> xoroshiro128_jump v (xoroshiro128_long_jump v s2) = xoroshiro128_long_jump v (xoroshiro128_jump v s2)
   \<and> xoshiro512_jump v (run_state (xoshiro512_next v) s8 k) = run_state (xoshiro512_next v) (xoshiro512_jump v s8) k
   \<and> xoshiro512_jump v (xoshiro512_long_jump v s8) = xoshiro512_long_jump v (xoshiro512_jump v s8)"
  unfolding xoshiro128_jump_def xoshiro128_long_jump_def xoshiro128_jump_by_table_def
    xoshiro256_jump_def xoshiro256_long_jump_def xoshiro256_jump_by_table_def
    xoroshiro128_jump_def xoroshiro128_long_jump_def xoroshiro128_jump_by_table_def
    xoshiro512_jump_def xoshiro512_long_jump_def xoshiro512_jump_by_table_def
  by (intro conjI x128.jump_commutes_steps x128.jumps_commute x256.jump_commutes_steps
      x256.jumps_commute xo128.jump_commutes_steps xo128.jumps_commute x512.jump_commutes_steps
      x512.jumps_commute TrueI)

text \<open>
  C12.  The ring index of xoroshiro1024 is an implementation detail: on every state whose index
  is in range, \<open>next\<close> returns a function of the ring read from the index and shifts that window
  by one, and a jump leaves the index where it was and turns the window into the polynomial of
  the table in the shift.
\<close>

theorem xoroshiro1024_refines_window:
  assumes "ring_ok st"
  shows "(\<exists>st'. xoroshiro1024_next v st = Some (window_output v (window st), st') \<and> ring_ok st'
      \<and> window st' = window_step (window st))
    \<and> (\<exists>st'. xoroshiro1024_jump v st = Some st' \<and> ring_ok st' \<and> pos st' = pos st
      \<and> window st' = foldr xor16 (map (\<lambda>k. (window_step ^^ k) (window st))
          (filter (nth (table_bits xoroshiro1024_JUMP)) [0..<1024])) (replicate 16 0))"
proof
  show "\<exists>st'. xoroshiro1024_next v st = Some (window_output v (window st), st') \<and> ring_ok st'
      \<and> window st' = window_step (window st)"
    using next_window[OF assms] by blast
  have T: "length xoroshiro1024_JUMP = 16" by (simp add: xoroshiro1024_JUMP_def)
  then have l: "length (table_bits xoroshiro1024_JUMP) = 1024" by (simp add: length_table_bits)
  have "length (window st) = 16" by simp
  note js = x1024.jump_sum[OF this, of "table_bits xoroshiro1024_JUMP", unfolded l]
  show "\<exists>st'. xoroshiro1024_jump v st = Some st' \<and> ring_ok st' \<and> pos st' = pos st
      \<and> window st' = foldr xor16 (map (\<lambda>k. (window_step ^^ k) (window st))
          (filter (nth (table_bits xoroshiro1024_JUMP)) [0..<1024])) (replicate 16 0)"
    using jump1024_window[OF assms T, of v] unfolding xoroshiro1024_jump_def js .
qed

theorem xoroshiro1024_refines_window_witness:
  "ring_ok (xoroshiro1024_seed 7) \<and>
   (\<exists>st'. xoroshiro1024_next PP (xoroshiro1024_seed 7)
      = Some (window_output PP (window (xoroshiro1024_seed 7)), st') \<and> ring_ok st')"
  using xoroshiro1024_refines_window[OF seed1024(1), of PP 7] seed1024(1) by blast

subsection \<open>Seeds\<close>

text \<open>
  The families on 64-bit words never reach the all-zero state, their only fixed point: no
  seed produces it, and no number of calls of \<open>next\<close> leads there.
\<close>

theorem seeds_never_all_zero:
  "run_state (xoroshiro128_next v) (xoroshiro128_seed x) k \<noteq> X2 0 0
   \<and> run_state (xoshiro256_next v) (xoshiro256_seed x) k \<noteq> X4 0 0 0 0
   \<and> run_state (xoshiro512_next v) (xoshiro512_seed x) k \<noteq> X8 0 0 0 0 0 0 0 0
   \<and> ring (xoroshiro1024_seed x) \<noteq> replicate 16 0"
  by (intro conjI xo128.steps_nonzero x256.steps_nonzero x512.steps_nonzero TrueI
      xoroshiro128_seed_nonzero xoshiro256_seed_nonzero xoshiro512_seed_nonzero seed1024(2))

subsection \<open>Bounded draws\<close>

text \<open>
  C13.  \<open>bounded_rand\<close> returns the remainder of the first draw that is not below its threshold,
  in the state after that draw; it returns exactly when there is such a draw, the result is
  below the bound, and the accepted draws are unbiased: of the values a 32- or 64-bit generator
  can draw, each remainder is left by the same number of accepted ones.
\<close>

theorem bounded_rand_correct:
  fixes nxt :: "'s \<Rightarrow> 'a::len word \<times> 's"
  assumes "LENGTH('a) \<le> 64" "ub \<noteq> 0" "unat ub \<le> 2 ^ LENGTH('a)"
  defines "t \<equiv> bounded_threshold TYPE('a word) ub"
  shows "(bounded_rand nxt ub s = Some (r, s') \<longleftrightarrow>
      (\<exists>k. accepted_at nxt t s k \<and> r = ucast (draw nxt s k) mod ub \<and> s' = run_state nxt s (Suc k)))
    \<and> ((\<exists>rs. bounded_rand nxt ub s = Some rs) \<longleftrightarrow> (\<exists>k. t \<le> ucast (draw nxt s k)))
    \<and> (bounded_rand nxt ub s = Some (r, s') \<longrightarrow> r < ub)
    \<and> (\<forall>v < unat ub. card {x :: 'a word. unat t \<le> unat x \<and> unat x mod unat ub = v}
      = 2 ^ LENGTH('a) div unat ub)"
  unfolding t_def
  by (intro conjI allI impI bounded_rand_Some_iff[OF assms(2)] bounded_rand_returns_iff[OF assms(2)])
    (fact bounded_rand_result, rule accepted_draws_uniform[OF assms(1-3)])

text \<open>
  Six sides of a die from 32-bit draws of a counter: the threshold is 4, so the first four draws
  are dropped and the fifth is the first accepted one.
\<close>

theorem bounded_rand_correct_witness:
  "bounded_rand (\<lambda>s::u32. (s, s + 1)) 6 0 = Some (4, 5)"
proof -
  have w: "LENGTH(32) \<le> 64" "(6::u64) \<noteq> 0" "unat (6::u64) \<le> 2 ^ LENGTH(32)" by simp_all
  have "unat (bounded_threshold TYPE(u32) 6) = unat (4 :: u64)"
    by (subst bounded_threshold_value[OF w]) simp
  then have t: "bounded_threshold TYPE(u32) 6 = 4" by (simp only: word_unat_eq_iff)
  have run: "run_state (\<lambda>s::u32. (s, s + 1)) 0 k = of_nat k" for k
    by (induction k) simp_all
  have "accepted_at (\<lambda>s::u32. (s, s + 1)) 4 0 4"
    unfolding accepted_at_def run
  proof (intro conjI allI impI)
    show "\<not> (4::u64) \<le> ucast (fst (of_nat j :: u32, of_nat j + 1 :: u32))" if j: "j < 4" for j
    proof -
      consider "j = 0" | "j = 1" | "j = 2" | "j = 3" using j by linarith
      then show ?thesis by cases (simp_all add: word_le_nat_alt)
    qed
  qed simp
  moreover have "(4::u64) = ucast (draw (\<lambda>s::u32. (s, s + 1)) 0 4) mod 6"
    "(5::u32) = run_state (\<lambda>s::u32. (s, s + 1)) 0 (Suc 4)"
    unfolding run by simp_all
  ultimately show ?thesis
    using bounded_rand_correct[OF w, of "\<lambda>s::u32. (s, s + 1)" 0 4 5, unfolded t, THEN conjunct1]
    by blast
qed

subsection \<open>Saving and restoring\<close>

text \<open>
  A saved generator is restored exactly, whatever state the reader was in: for every
  family and class, deserialize accepts what serialize wrote and yields the state it came from
  (for xoroshiro1024, whose index must be in range).
\<close>

theorem saved_state_restored:
  assumes "ring_ok st"
  shows "splitmix64_deserialize (splitmix64_serialize x) x0 = Some (True, x)
    \<and> xoshiro128_deserialize v (xoshiro128_serialize v s4) s40 = Some (True, s4)
    \<and> xoroshiro128_deserialize v (xoroshiro128_serialize v s2) s20 = Some (True, s2)
    \<and> xoshiro256_deserialize v (xoshiro256_serialize v t4) t40 = Some (True, t4)
    \<and> xoshiro512_deserialize v (xoshiro512_serialize v s8) s80 = Some (True, s8)
    \<and> xoroshiro1024_deserialize v (xoroshiro1024_serialize v st) st0 = Some (True, st)"
proof (intro conjI)
  show "splitmix64_deserialize (splitmix64_serialize x) x0 = Some (True, x)"
    using read_words_saved[of "[]" "''splitmix64''" x]
    by (simp add: splitmix64_deserialize_def splitmix64_serialize_def)
  show "xoshiro128_deserialize v (xoshiro128_serialize v s4) s40 = Some (True, s4)"
  proof (cases s4)
    case (X4 a b c d)
    then show ?thesis using read_words_saved[of "[b, c, d]" "xoshiro128_name v" a]
      by (simp add: xoshiro128_deserialize_def eval_nat_numeral)
  qed
  show "xoroshiro128_deserialize v (xoroshiro128_serialize v s2) s20 = Some (True, s2)"
  proof (cases s2)
    case (X2 a b)
    then show ?thesis using read_words_saved[of "[b]" "xoroshiro128_name v" a]
      by (simp add: xoroshiro128_deserialize_def eval_nat_numeral)
  qed
  show "xoshiro256_deserialize v (xoshiro256_serialize v t4) t40 = Some (True, t4)"
  proof (cases t4)
    case (X4 a b c d)
    then show ?thesis using read_words_saved[of "[b, c, d]" "xoshiro256_name v" a]
      by (simp add: xoshiro256_deserialize_def eval_nat_numeral)
  qed
  show "xoshiro512_deserialize v (xoshiro512_serialize v s8) s80 = Some (True, s8)"
  proof (cases s8)
    case (X8 a b c d e f g h)
    then show ?thesis using read_words_saved[of "[b, c, d, e, f, g, h]" "xoshiro512_name v" a]
      by (simp add: xoshiro512_deserialize_def eval_nat_numeral)
  qed
  show "xoroshiro1024_deserialize v (xoroshiro1024_serialize v st) st0 = Some (True, st)"
    by (rule saved1024[OF assms])
qed

theorem saved_state_restored_witness:
  "xoroshiro1024_deserialize SS (xoroshiro1024_serialize SS (xoroshiro1024_seed 3)) (xoroshiro1024_seed 0)
    = Some (True, xoroshiro1024_seed 3)"
  using saved_state_restored[OF seed1024(1), of 3 0 SS] by blast

text \<open>
  Malformed text is accepted: a saved state whose first field is no number is read as the
  all-zero state, reported as a success, and the generator returns only zeros from then on
  (here for xoshiro256 with the p scrambler).  The bare class name is worse: it throws out of
  \<open>deserialize\<close>.
\<close>

theorem malformed_state_accepted:
  assumes "c \<noteq> CHR ''-''" "\<not> is_space c" "\<not> is_digit c" "c \<noteq> CHR ''+''"
  shows "xoshiro256_deserialize P (''xoshiro256p-'' @ c # cs) s0 = Some (True, X4 0 0 0 0)
    \<and> draw (xoshiro256_next P) (X4 0 0 0 0) k = 0
    \<and> xoshiro256_deserialize P ''xoshiro256p'' s0 = None"
proof (intro conjI)
  show "xoshiro256_deserialize P (''xoshiro256p-'' @ c # cs) s0 = Some (True, X4 0 0 0 0)"
    using read_words_no_number[OF assms, of 4 "''xoshiro256p''" cs, where 'a = 64]
    by (simp add: xoshiro256_deserialize_def)
  show "draw (xoshiro256_next P) (X4 0 0 0 0) k = 0"
    using x256.steps_zero[where v = P and k = k] by simp
  show "xoshiro256_deserialize P ''xoshiro256p'' s0 = None"
    by (simp add: xoshiro256_deserialize_def read_words_name_only)
qed

theorem malformed_state_accepted_witness:
  "xoshiro256_deserialize P ''xoshiro256p-garbage'' (X4 1 2 3 4) = Some (True, X4 0 0 0 0)"
  using malformed_state_accepted[of "CHR ''g''" "''arbage''" "X4 1 2 3 4" 0]
  by (simp add: is_space_def is_digit_def)

end
