(* ===== verification/AsyncLoader.thy ===== *)
theory AsyncLoader
  imports Prelude
begin

text \<open>
  The asynchronous resource loader (\<open>GameResource/AsyncResourceLoader.cpp\<close>): its jobs, what the
  worker thread does with one, what the main thread does with a finished one, and the two
  threads as step functions over the shared state.  Every method of a job takes the job's
  mutex, so it is one step; between two of them the other thread may run.
\<close>

subsection \<open>Jobs\<close>

datatype job_state = Queued | Running | Ready | Done | Failed | Cancelled

datatype job_kind = FileRead | Resource

datatype request_type = ReqTexture | ReqVideo | ReqSprite | ReqAnimation | ReqParticle | ReqSound
  | ReqMusic | ReqSpriteFont | ReqTrueTypeFont | ReqFX | ReqModel

type_synonym bytes = string

text \<open>\<open>core::Graphics::TrueTypeFontInfo\<close>.\<close>

record font_info =
  source :: bytes
  font_face :: u32
  pixel_size :: "u32 \<times> u32"
  is_force_to_file :: bool
  is_buffer :: bool

text \<open>
  \<open>AsyncResourceRequest\<close>.  Floating-point members are only handed on: their bits.  Textures and
  sprites are references.
\<close>

record request =
  req_type :: request_type
  pool_id :: u64
  pool_generation :: u64
  req_name :: string
  path :: string
  texture_path :: string
  fonts :: "font_info list"
  font_sources :: "string list"
  texture :: "nat option"
  sprite :: "nat option"
  sprites :: "nat option list"
  rect_xywh :: "u64 list"
  ab :: "u64 \<times> u64"
  loop_range :: "u64 \<times> u64"
  font_size :: "u32 \<times> u32"
  columns :: int
  rows :: int
  interval :: int
  mipmap :: bool
  loop :: bool
  rect :: bool
  once_decode :: bool
  has_texture_path :: bool
  has_particle_info :: bool
  animation_uses_sprite_list :: bool
  req_particle_info :: bytes

record job =
  m_kind :: job_kind
  m_state :: job_state
  m_cancel_requested :: bool
  m_error :: string
  m_file_path :: string
  m_request :: request
  m_debug_files :: "string list"
  job_data :: "bytes option"
  m_texture_data :: "bytes option"
  m_audio_decoder :: "bytes option"
  m_particle_info :: bytes
  m_font_data :: "bytes option list"

fun isTerminal :: "job_state \<Rightarrow> bool" where
  "isTerminal Done = True"
| "isTerminal Failed = True"
| "isTerminal Cancelled = True"
| "isTerminal _ = False"

definition isFinished :: "job \<Rightarrow> bool" where
  "isFinished job = isTerminal (m_state job)"

definition job_cancel :: "job \<Rightarrow> bool \<times> job" where
  "job_cancel job = (if isTerminal (m_state job) then (False, job)
     else let job = job\<lparr>m_cancel_requested := True\<rparr> in
       (True, if m_state job = Queued \<or> m_state job = Ready then job\<lparr>m_state := Cancelled\<rparr> else job))"

definition isCancelled :: "job \<Rightarrow> bool" where
  "isCancelled job \<longleftrightarrow> m_cancel_requested job \<or> m_state job = Cancelled"

definition setState :: "job_state \<Rightarrow> job \<Rightarrow> job" where
  "setState state job = (if m_cancel_requested job \<and> \<not> isTerminal state
     then job\<lparr>m_state := Cancelled\<rparr> else job\<lparr>m_state := state\<rparr>)"

definition job_fail :: "string \<Rightarrow> job \<Rightarrow> job" where
  "job_fail message job = (if m_cancel_requested job then job\<lparr>m_state := Cancelled\<rparr>
     else job\<lparr>m_error := message, m_state := Failed\<rparr>)"

definition job_finish :: "job \<Rightarrow> job" where
  "job_finish job = job\<lparr>m_state := (if m_cancel_requested job then Cancelled else Done)\<rparr>"

definition setSecondaryDebugFile :: "string \<Rightarrow> job \<Rightarrow> job" where
  "setSecondaryDebugFile p job = job\<lparr>m_debug_files :=
     (if length (m_debug_files job) < 2 then m_debug_files job @ [p] else (m_debug_files job)[1 := p])\<rparr>"

text \<open>\<open>AsyncResourceJob(AsyncResourceRequest)\<close>: the files listed for debugging, by type.\<close>

definition add_file :: "string \<Rightarrow> string list" where
  "add_file p = (if p = [] then [] else [p])"

fun font_files :: "font_info list \<Rightarrow> string list \<Rightarrow> string list" where
  "font_files (f # fs) (s # ss) = (if is_buffer f then [] else add_file s) @ font_files fs ss"
| "font_files _ _ = []"

definition debug_files :: "request \<Rightarrow> string list" where
  "debug_files r = (case req_type r of
     ReqTexture \<Rightarrow> add_file (path r)
   | ReqVideo \<Rightarrow> add_file (path r)
   | ReqSound \<Rightarrow> add_file (path r)
   | ReqMusic \<Rightarrow> add_file (path r)
   | ReqFX \<Rightarrow> add_file (path r)
   | ReqModel \<Rightarrow> add_file (path r)
   | ReqParticle \<Rightarrow> (if has_particle_info r then [] else add_file (path r))
   | ReqSpriteFont \<Rightarrow> add_file (path r) @ (if has_texture_path r then add_file (texture_path r) else [])
   | ReqTrueTypeFont \<Rightarrow> (if fonts r = [] then add_file (path r) else font_files (fonts r) (font_sources r))
   | ReqSprite \<Rightarrow> [] | ReqAnimation \<Rightarrow> [])"

definition empty_request :: request where
  "empty_request = \<lparr>req_type = ReqTexture, pool_id = 0, pool_generation = 0, req_name = [], path = [],
     texture_path = [], fonts = [], font_sources = [], texture = None, sprite = None, sprites = [],
     rect_xywh = [0, 0, 0, 0], ab = (0, 0), loop_range = (0, 0), font_size = (0, 0), columns = 0,
     rows = 0, interval = 0, mipmap = True, loop = False, rect = False, once_decode = False,
     has_texture_path = False, has_particle_info = False, animation_uses_sprite_list = False,
     req_particle_info = []\<rparr>"

definition resource_job :: "request \<Rightarrow> job" where
  "resource_job r = \<lparr>m_kind = Resource, m_state = Queued, m_cancel_requested = False, m_error = [],
     m_file_path = [], m_request = r, m_debug_files = debug_files r, job_data = None,
     m_texture_data = None, m_audio_decoder = None, m_particle_info = [], m_font_data = []\<rparr>"

definition file_job :: "string \<Rightarrow> job" where
  "file_job p = (resource_job empty_request)\<lparr>m_kind := FileRead, m_file_path := p, m_debug_files := [p]\<rparr>"

subsection \<open>The work of the worker\<close>

text \<open>
  What the loader uses of the rest of the program: the file system, the path of a file next to
  another (\<open>std::filesystem\<close> with the UTF-8 conversions), the decoders, the size of
  \<open>hgeParticleSystemInfo\<close>.
\<close>

record work_env =
  readFile :: "string \<Rightarrow> bytes option"
  sibling_path :: "string \<Rightarrow> string \<Rightarrow> string"
  decode_audio :: "bytes option \<Rightarrow> bytes option"
  decode_video :: "bytes option \<Rightarrow> bytes option"
  particle_info_size :: nat

text \<open>The texture named by the first \<open>Bitmap=\<close> line of a font file.\<close>

definition strip_cr :: "string \<Rightarrow> string" where
  "strip_cr line = (if line \<noteq> [] \<and> last line = CHR 0x0D then butlast line else line)"

function readHgeFontTexturePath :: "string \<Rightarrow> string option" where
  "readHgeFontTexturePath view = (if view = [] then None else let
     line = strip_cr (takeWhile (\<lambda>c. c \<noteq> CHR 0x0A) view);
     rest = dropWhile (\<lambda>c. c \<noteq> CHR 0x0A) view
   in if take 7 line = ''Bitmap='' then (if drop 7 line = [] then None else Some (drop 7 line))
      else if rest = [] then None
      else readHgeFontTexturePath (tl rest))"
  by pat_completeness auto
termination
proof (relation "measure length", simp)
  fix view :: string and line rest
  assume r: "rest = dropWhile (\<lambda>c. c \<noteq> CHR 0x0A) view" "rest \<noteq> []"
  have "length rest \<le> length view" unfolding r(1) by (rule length_dropWhile_le)
  then show "(tl rest, view) \<in> measure length" using r(2) by (cases rest) simp_all
qed

declare readHgeFontTexturePath.simps [simp del]

text \<open>The resolved path is written even when the read fails.\<close>

definition readRelatedFile ::
  "work_env \<Rightarrow> string \<Rightarrow> string \<Rightarrow> string \<Rightarrow> (string + bytes) \<times> string" where
  "readRelatedFile E base_path file_path resolved0 =
    (if file_path = [] then (Inl ''invalid file path'', resolved0)
     else case readFile E file_path of
       Some d \<Rightarrow> (Inr d, file_path)
     | None \<Rightarrow> let resolved = sibling_path E base_path file_path in
         (case readFile E resolved of
            Some d \<Rightarrow> (Inr d, resolved)
          | None \<Rightarrow> (Inl ''failed to read related file'', resolved)))"

text \<open>
  The unlocked part of \<open>process\<close>: how it ends, and the members it has written by then.
\<close>

datatype work_end = WorkFinished | WorkFailed string | WorkReady

definition read_main :: "work_env \<Rightarrow> job \<Rightarrow> (job \<Rightarrow> work_end \<times> job) \<Rightarrow> work_end \<times> job" where
  "read_main E job k = (case readFile E (path (m_request job)) of
     None \<Rightarrow> (WorkFailed ''failed to read file'', job\<lparr>job_data := None\<rparr>)
   | Some d \<Rightarrow> k (job\<lparr>job_data := Some d\<rparr>))"

definition work_audio :: "work_env \<Rightarrow> job \<Rightarrow> work_end \<times> job" where
  "work_audio E job = read_main E job (\<lambda>job. case decode_audio E (job_data job) of
     None \<Rightarrow> (WorkFailed ''failed to decode audio'', job)
   | Some d \<Rightarrow> (WorkReady, job\<lparr>m_audio_decoder := Some d\<rparr>))"

definition work_particle :: "work_env \<Rightarrow> job \<Rightarrow> work_end \<times> job" where
  "work_particle E job = (if has_particle_info (m_request job) then (WorkReady, job)
     else read_main E job (\<lambda>job.
       if length (the (job_data job)) \<noteq> particle_info_size E
       then (WorkFailed ''invalid particle file'', job)
       else (WorkReady, job\<lparr>m_particle_info := the (job_data job)\<rparr>)))"

definition read_font_texture :: "work_env \<Rightarrow> string \<Rightarrow> job \<Rightarrow> work_end \<times> job" where
  "read_font_texture E p job = (let
     (res, resolved) = readRelatedFile E (path (m_request job)) p (texture_path (m_request job));
     job = job\<lparr>m_request := (m_request job)\<lparr>texture_path := resolved\<rparr>\<rparr>
   in case res of
        Inl e \<Rightarrow> (WorkFailed e, job)
      | Inr d \<Rightarrow> (WorkReady, setSecondaryDebugFile resolved (job\<lparr>m_texture_data := Some d\<rparr>)))"

definition work_sprite_font :: "work_env \<Rightarrow> job \<Rightarrow> work_end \<times> job" where
  "work_sprite_font E job = read_main E job (\<lambda>job.
     if has_texture_path (m_request job)
     then read_font_texture E (texture_path (m_request job)) job
     else case readHgeFontTexturePath (the (job_data job)) of
       None \<Rightarrow> (WorkFailed ''invalid font file'', job)
     | Some p \<Rightarrow> read_font_texture E p job)"

text \<open>The loop over the fonts: \<open>i\<close> counts up, buffers and fonts without a source are skipped.\<close>

fun read_fonts :: "work_env \<Rightarrow> font_info list \<Rightarrow> nat \<Rightarrow> job \<Rightarrow> work_end \<times> job" where
  "read_fonts E [] i job = (WorkReady, job)"
| "read_fonts E (f # fs) i job = (let sources = font_sources (m_request job) in
     if is_buffer f \<or> length sources \<le> i then read_fonts E fs (Suc i) job
     else case readFile E (sources ! i) of
       None \<Rightarrow> (WorkFailed ''failed to read font file'', job)
     | Some d \<Rightarrow> read_fonts E fs (Suc i) (job\<lparr>m_font_data := (m_font_data job)[i := Some d]\<rparr>))"

definition work_true_type :: "work_env \<Rightarrow> job \<Rightarrow> work_end \<times> job" where
  "work_true_type E job = (if fonts (m_request job) = []
     then read_main E job (Pair WorkReady)
     else read_fonts E (fonts (m_request job)) 0
       (job\<lparr>m_font_data := replicate (length (fonts (m_request job))) None\<rparr>))"

definition work_resource :: "work_env \<Rightarrow> job \<Rightarrow> work_end \<times> job" where
  "work_resource E job = (case req_type (m_request job) of
     ReqTexture \<Rightarrow> read_main E job (Pair WorkReady)
   | ReqVideo \<Rightarrow> read_main E job (Pair WorkReady)
   | ReqFX \<Rightarrow> read_main E job (Pair WorkReady)
   | ReqModel \<Rightarrow> read_main E job (Pair WorkReady)
   | ReqSound \<Rightarrow> work_audio E job
   | ReqMusic \<Rightarrow> work_audio E job
   | ReqParticle \<Rightarrow> work_particle E job
   | ReqSpriteFont \<Rightarrow> work_sprite_font E job
   | ReqTrueTypeFont \<Rightarrow> work_true_type E job
   | ReqSprite \<Rightarrow> (WorkReady, job)
   | ReqAnimation \<Rightarrow> (WorkReady, job))"

definition work :: "work_env \<Rightarrow> job \<Rightarrow> work_end \<times> job" where
  "work E job = (if m_kind job = FileRead
     then (case readFile E (m_file_path job) of
         None \<Rightarrow> (WorkFailed ''failed to read file'', job\<lparr>job_data := None\<rparr>)
       | Some d \<Rightarrow> (WorkFinished, job\<lparr>job_data := Some d\<rparr>))
     else work_resource E job)"

subsection \<open>Loading a finished job into its pool\<close>

text \<open>The call of \<open>ResourcePool\<close> a job ends with.\<close>

datatype load_command =
    LoadTexture string "bytes option" string bool
  | LoadVideo string bytes bool
  | CreateSprite string "nat option" "u64 list" "u64 \<times> u64" bool
  | CreateAnimationSprites string "nat option list" int "u64 \<times> u64" bool
  | CreateAnimation string "nat option" "u64 list" int int int "u64 \<times> u64" bool
  | LoadParticle string bytes "nat option" "u64 \<times> u64" bool
  | LoadSoundEffect string "bytes option" string
  | LoadMusic string "bytes option" string "u64 \<times> u64" bool
  | LoadSpriteFontTexture string "bytes option" string string "bytes option" bool
  | LoadSpriteFont string "bytes option" string "bytes option" string bool
  | LoadTTFFontData string bytes "u32 \<times> u32"
  | LoadTTFFontFile string string "u32 \<times> u32"
  | LoadTrueTypeFont string "font_info list"
  | LoadFXFromSource string bytes string
  | LoadModel string string

text \<open>The resource manager: its pools, their generations, and the loads.\<close>

record 'm manager_env =
  has_pool :: "'m \<Rightarrow> u64 \<Rightarrow> bool"
  generation_of :: "'m \<Rightarrow> u64 \<Rightarrow> u64"
  run_load :: "u64 \<Rightarrow> load_command \<Rightarrow> 'm \<Rightarrow> bool \<times> 'm"

fun bind_fonts :: "font_info list \<Rightarrow> nat \<Rightarrow> bytes option list \<Rightarrow> string list \<Rightarrow> font_info list" where
  "bind_fonts [] i datas sources = []"
| "bind_fonts (f # fs) i datas sources =
    (if i < length datas \<and> datas ! i \<noteq> None
     then f\<lparr>source := the (datas ! i), is_buffer := True, is_force_to_file := False\<rparr>
     else if i < length sources then f\<lparr>source := sources ! i\<rparr>
     else f) # bind_fonts fs (Suc i) datas sources"

text \<open>
  The command of a job and the error reported when it fails.  \<open>None\<close> is a null data pointer that
  the shader branch dereferences; a video that cannot be decoded has no command.
\<close>

definition command_of :: "work_env \<Rightarrow> job \<Rightarrow> (string + load_command \<times> string) option" where
  "command_of E job = (let r = m_request job; n = req_name r in case req_type r of
     ReqTexture \<Rightarrow> Some (Inr (LoadTexture n (job_data job) (path r) (mipmap r), ''failed to load texture''))
   | ReqVideo \<Rightarrow> (case decode_video E (job_data job) of
        None \<Rightarrow> Some (Inl ''failed to decode video'')
      | Some d \<Rightarrow> Some (Inr (LoadVideo n d (loop r), ''failed to load video'')))
   | ReqSprite \<Rightarrow> Some (Inr (CreateSprite n (texture r) (rect_xywh r) (ab r) (rect r),
        ''failed to create sprite''))
   | ReqAnimation \<Rightarrow> Some (Inr (if animation_uses_sprite_list r
        then CreateAnimationSprites n (sprites r) (interval r) (ab r) (rect r)
        else CreateAnimation n (texture r) (rect_xywh r) (columns r) (rows r) (interval r) (ab r) (rect r),
        ''failed to create animation''))
   | ReqParticle \<Rightarrow> Some (Inr (LoadParticle n
        (if has_particle_info r then req_particle_info r else m_particle_info job) (sprite r) (ab r) (rect r),
        ''failed to load particle''))
   | ReqSound \<Rightarrow> Some (Inr (LoadSoundEffect n (m_audio_decoder job) (path r), ''failed to load sound''))
   | ReqMusic \<Rightarrow> Some (Inr (LoadMusic n (m_audio_decoder job) (path r) (loop_range r) (once_decode r),
        ''failed to load music''))
   | ReqSpriteFont \<Rightarrow> Some (Inr (if has_texture_path r
        then LoadSpriteFontTexture n (job_data job) (path r) (texture_path r) (m_texture_data job) (mipmap r)
        else LoadSpriteFont n (job_data job) (path r) (m_texture_data job) (texture_path r) (mipmap r),
        ''failed to load font''))
   | ReqTrueTypeFont \<Rightarrow> Some (Inr (if fonts r = []
        then (case job_data job of
            Some d \<Rightarrow> (LoadTTFFontData n d (font_size r), ''failed to load TTF font'')
          | None \<Rightarrow> (LoadTTFFontFile n (path r) (font_size r), ''failed to load TTF font''))
        else (LoadTrueTypeFont n (bind_fonts (fonts r) 0 (m_font_data job) (font_sources r)),
            ''failed to load TrueType font'')))
   | ReqFX \<Rightarrow> (case job_data job of None \<Rightarrow> None
      | Some d \<Rightarrow> Some (Inr (LoadFXFromSource n d (path r), ''failed to load shader'')))
   | ReqModel \<Rightarrow> Some (Inr (LoadModel n (path r), ''failed to load model'')))"

text \<open>\<open>finalize\<close>: true when the resource is loaded; every false return has failed the job.\<close>

definition finalize :: "work_env \<Rightarrow> 'm manager_env \<Rightarrow> 'm \<Rightarrow> job \<Rightarrow> (bool \<times> job \<times> 'm) option" where
  "finalize E M mgr job = (let r = m_request job in
     if \<not> has_pool M mgr (pool_id r)
     then Some (False, job_fail ''can't load resource at this time'' job, mgr)
     else if generation_of M mgr (pool_id r) \<noteq> pool_generation r
     then Some (False, job_fail ''resource pool was cleared'' job, mgr)
     else case command_of E job of
       None \<Rightarrow> None
     | Some (Inl e) \<Rightarrow> Some (False, job_fail e job, mgr)
     | Some (Inr (c, e)) \<Rightarrow> (case run_load M (pool_id r) c mgr of
         (True, mgr') \<Rightarrow> Some (True, job, mgr')
       | (False, mgr') \<Rightarrow> Some (False, job_fail e job, mgr')))"

subsection \<open>The loader\<close>

text \<open>
  A job is named by its number in the order of creation.  The place of the worker is a point of
  \<open>workerMain\<close> between two locked calls; the place of the main thread a point of \<open>update\<close> or \<open>stop\<close>.
  \<open>handles\<close> are the jobs some script still refers to.
\<close>

datatype worker_place =
    WWait                 \<comment> \<open>waiting for a job\<close>
  | WPopped nat           \<comment> \<open>took a job off the queue\<close>
  | WDropped nat          \<comment> \<open>it was cancelled\<close>
  | WProcess nat          \<comment> \<open>entering \<open>process\<close>\<close>
  | WStarted nat          \<comment> \<open>set to running\<close>
  | WAborted nat          \<comment> \<open>found cancelled inside \<open>process\<close>\<close>
  | WWork nat             \<comment> \<open>about to read files\<close>
  | WFailing nat string   \<comment> \<open>about to call \<open>fail\<close>\<close>
  | WFinishing nat        \<comment> \<open>about to call \<open>finish\<close>\<close>
  | WRead nat             \<comment> \<open>everything read\<close>
  | WSetReady nat         \<comment> \<open>about to set ready\<close>
  | WProcessed nat        \<comment> \<open>returned from \<open>process\<close>\<close>
  | WQueueReady nat       \<comment> \<open>about to queue it for the main thread\<close>
  | WExit

datatype main_place =
    MIdle
  | MUpdate nat nat       \<comment> \<open>count and \<open>max_count\<close>, before taking a ready job\<close>
  | MTaken nat nat nat    \<comment> \<open>took a ready job\<close>
  | MChecked nat nat nat  \<comment> \<open>it was not finished\<close>
  | MDropping nat nat nat \<comment> \<open>it was cancelled\<close>
  | MFinalize nat nat nat \<comment> \<open>about to load it\<close>
  | MLoaded nat nat nat   \<comment> \<open>about to call \<open>finish\<close>\<close>
  | MSweep                \<comment> \<open>about to drop finished jobs\<close>
  | MStopping             \<comment> \<open>\<open>stop\<close>: everything cancelled, exit flag not yet set\<close>
  | MJoining              \<comment> \<open>\<open>stop\<close>: waiting for the worker\<close>

record debug_info =
  info_kind :: job_kind
  info_state :: job_state
  info_type :: request_type
  info_pool :: u64
  info_name :: string
  info_files :: "string list"
  info_error :: string

definition getDebugInfo :: "job \<Rightarrow> debug_info" where
  "getDebugInfo job = \<lparr>info_kind = m_kind job, info_state = m_state job,
     info_type = req_type (m_request job), info_pool = pool_id (m_request job),
     info_name = req_name (m_request job), info_files = m_debug_files job, info_error = m_error job\<rparr>"

record 'm loader =
  job_of :: "nat \<Rightarrow> job"
  created :: nat
  m_queue :: "nat list"
  m_ready :: "nat list"
  m_jobs :: "nat list"
  m_history :: "debug_info list"
  m_exit :: bool
  handles :: "nat list"
  worker :: worker_place
  main :: main_place
  manager :: 'm

definition update_job :: "nat \<Rightarrow> (job \<Rightarrow> job) \<Rightarrow> 'm loader \<Rightarrow> 'm loader" where
  "update_job j f s = s\<lparr>job_of := (job_of s)(j := f (job_of s j))\<rparr>"

definition addHistory :: "debug_info \<Rightarrow> debug_info list \<Rightarrow> debug_info list" where
  "addHistory info hist = (if length hist = 128 then tl hist else hist) @ [info]"

definition getDebugSnapshot :: "'m loader \<Rightarrow> debug_info list" where
  "getDebugSnapshot s = map (\<lambda>j. getDebugInfo (job_of s j)) (m_jobs s) @ rev (m_history s)"

end
