(* ===== verification/ResourcePool.thy ===== *)
theory ResourcePool
  imports AsyncLoader
begin

text \<open>
  Resource pools (\<open>GameResource/ResourcePool.cpp\<close>): ten dictionaries of named resources, the
  operations that look up, list and remove, and every load and create function.  The devices
  behind a load (graphics, audio, fonts, shaders, models) are the parameter \<open>backend\<close>: a call
  returns an object or fails.
\<close>

subsection \<open>Dictionaries\<close>

text \<open>
  \<open>std::unordered_map\<close>: the entries in iteration order, one per name.  \<open>emplace\<close> does nothing
  when the name is taken.
\<close>

type_synonym 'a dictionary = "(string \<times> 'a) list"

definition dict_emplace :: "string \<Rightarrow> 'a \<Rightarrow> 'a dictionary \<Rightarrow> 'a dictionary" where
  "dict_emplace k v d = (if map_of d k = None then d @ [(k, v)] else d)"

definition dict_erase :: "string \<Rightarrow> 'a dictionary \<Rightarrow> 'a dictionary" where
  "dict_erase k d = filter (\<lambda>e. fst e \<noteq> k) d"

datatype resource_type = TTexture | TSprite | TAnimation | TMusic | TSoundEffect | TParticle
  | TSpriteFont | TTrueTypeFont | TFX | TModel

type_synonym handle = nat

record resource =
  res_name :: string
  res_object :: handle
  res_video :: bool

record resource_pool =
  p_id :: u64
  p_name :: string
  p_generation :: u64
  m_TexturePool :: "resource dictionary"
  m_SpritePool :: "resource dictionary"
  m_AnimationPool :: "resource dictionary"
  m_MusicPool :: "resource dictionary"
  m_SoundSpritePool :: "resource dictionary"
  m_ParticlePool :: "resource dictionary"
  m_SpriteFontPool :: "resource dictionary"
  m_TTFFontPool :: "resource dictionary"
  m_FXPool :: "resource dictionary"
  m_ModelPool :: "resource dictionary"

definition new_pool :: "u64 \<Rightarrow> string \<Rightarrow> resource_pool" where
  "new_pool i n = \<lparr>p_id = i, p_name = n, p_generation = 0, m_TexturePool = [], m_SpritePool = [],
     m_AnimationPool = [], m_MusicPool = [], m_SoundSpritePool = [], m_ParticlePool = [],
     m_SpriteFontPool = [], m_TTFFontPool = [], m_FXPool = [], m_ModelPool = []\<rparr>"

text \<open>The dictionary a type names: the branches of the switches.\<close>

fun dict_of :: "resource_type \<Rightarrow> resource_pool \<Rightarrow> resource dictionary" where
  "dict_of TTexture p = m_TexturePool p"
| "dict_of TSprite p = m_SpritePool p"
| "dict_of TAnimation p = m_AnimationPool p"
| "dict_of TMusic p = m_MusicPool p"
| "dict_of TSoundEffect p = m_SoundSpritePool p"
| "dict_of TParticle p = m_ParticlePool p"
| "dict_of TSpriteFont p = m_SpriteFontPool p"
| "dict_of TTrueTypeFont p = m_TTFFontPool p"
| "dict_of TFX p = m_FXPool p"
| "dict_of TModel p = m_ModelPool p"

fun set_dict :: "resource_type \<Rightarrow> (resource dictionary \<Rightarrow> resource dictionary) \<Rightarrow> resource_pool \<Rightarrow> resource_pool" where
  "set_dict TTexture f p = p\<lparr>m_TexturePool := f (m_TexturePool p)\<rparr>"
| "set_dict TSprite f p = p\<lparr>m_SpritePool := f (m_SpritePool p)\<rparr>"
| "set_dict TAnimation f p = p\<lparr>m_AnimationPool := f (m_AnimationPool p)\<rparr>"
| "set_dict TMusic f p = p\<lparr>m_MusicPool := f (m_MusicPool p)\<rparr>"
| "set_dict TSoundEffect f p = p\<lparr>m_SoundSpritePool := f (m_SoundSpritePool p)\<rparr>"
| "set_dict TParticle f p = p\<lparr>m_ParticlePool := f (m_ParticlePool p)\<rparr>"
| "set_dict TSpriteFont f p = p\<lparr>m_SpriteFontPool := f (m_SpriteFontPool p)\<rparr>"
| "set_dict TTrueTypeFont f p = p\<lparr>m_TTFFontPool := f (m_TTFFontPool p)\<rparr>"
| "set_dict TFX f p = p\<lparr>m_FXPool := f (m_FXPool p)\<rparr>"
| "set_dict TModel f p = p\<lparr>m_ModelPool := f (m_ModelPool p)\<rparr>"

subsection \<open>Management\<close>

text \<open>\<open>Clear\<close> without the cancellation of the pool's jobs, which the manager adds.\<close>

definition pool_clear :: "resource_pool \<Rightarrow> resource_pool" where
  "pool_clear p = p\<lparr>p_generation := p_generation p + 1, m_TexturePool := [], m_SpritePool := [],
     m_AnimationPool := [], m_MusicPool := [], m_SoundSpritePool := [], m_ParticlePool := [],
     m_SpriteFontPool := [], m_TTFFontPool := [], m_FXPool := [], m_ModelPool := []\<rparr>"

definition removeResource :: "string \<Rightarrow> resource dictionary \<Rightarrow> resource dictionary" where
  "removeResource name d = (if map_of d name = None then d else dict_erase name d)"

definition RemoveResource :: "resource_type \<Rightarrow> string \<Rightarrow> resource_pool \<Rightarrow> resource_pool" where
  "RemoveResource t name p = set_dict t (removeResource name) p"

definition CheckResourceExists :: "resource_type \<Rightarrow> string \<Rightarrow> resource_pool \<Rightarrow> bool" where
  "CheckResourceExists t name p \<longleftrightarrow> map_of (dict_of t p) name \<noteq> None"

definition listResourceName :: "resource dictionary \<Rightarrow> string list" where
  "listResourceName d = map (\<lambda>e. res_name (snd e)) d"

definition ExportResourceList :: "resource_type \<Rightarrow> resource_pool \<Rightarrow> string list" where
  "ExportResourceList t p = listResourceName (dict_of t p)"

definition findResource :: "resource dictionary \<Rightarrow> string \<Rightarrow> resource option" where
  "findResource d name = map_of d name"

definition GetResource :: "resource_type \<Rightarrow> string \<Rightarrow> resource_pool \<Rightarrow> resource option" where
  "GetResource t name p = findResource (dict_of t p) name"

definition GetVideo :: "string \<Rightarrow> resource_pool \<Rightarrow> resource option" where
  "GetVideo name p = (case GetResource TTexture name p of None \<Rightarrow> None
     | Some r \<Rightarrow> if res_video r then Some r else None)"

subsection \<open>The devices\<close>

datatype backend_call =
    TextureFromFile string bool
  | TextureFromData "bytes option" bool
  | BlankTexture u32 u32
  | TextureResource string handle
  | VideoFileResource string string bool
  | VideoResource string bytes bool
  | RenderTargetResource string bool
  | SizedRenderTargetResource string int int bool
  | SpriteOfTexture handle
  | SpriteResource string handle "u64 list" "u64 \<times> u64" bool
  | AnimationResource string handle "u64 list" int int int "u64 \<times> u64" bool
  | AnimationSpritesResource string "handle option list" int "u64 \<times> u64" bool
  | AudioDecoderFromFile string
  | StreamPlayer handle
  | MusicPlayer handle
  | SoundPlayer handle
  | MusicResource string handle handle "u64 \<times> u64"
  | SoundResource string handle
  | CloneSprite handle
  | ParticleResource string bytes handle "u64 \<times> u64" bool
  | HgeFontResource string string bool
  | HgeFontDataResource string string "bytes option" "bytes option" string bool
  | FancyFontResource string string string bool
  | FancyFontDataResource string string "bytes option" string "bytes option" bool
  | GlyphManager "font_info list"
  | FontResource string handle
  | ShaderFileResource string string
  | ShaderResource string bytes
  | ModelResource string string

text \<open>
  \<open>decoder_handle\<close> is the decoder object that was made of some data; \<open>sample_of\<close> is \<open>(uint32_t)(t * sample rate)\<close> of a decoder, \<open>full_length\<close> its frames over its
  sample rate, \<open>has_shader\<close> whether a shader resource holds a compiled shader.
\<close>

record backend =
  perform :: "backend_call \<Rightarrow> handle option"
  decoder_handle :: "bytes \<Rightarrow> handle"
  sample_of :: "handle \<Rightarrow> u64 \<Rightarrow> u32"
  full_length :: "handle \<Rightarrow> u64"
  has_shader :: "handle \<Rightarrow> bool"
  read_file :: "string \<Rightarrow> bytes option"
  particle_size :: nat

type_synonym load_result = "bool \<times> resource_pool"

text \<open>The end of every load: the resource object is created and entered under its name.\<close>

definition enter :: "backend \<Rightarrow> resource_type \<Rightarrow> string \<Rightarrow> bool \<Rightarrow> backend_call \<Rightarrow> resource_pool \<Rightarrow> load_result" where
  "enter B t name video call p = (case perform B call of
     None \<Rightarrow> (False, p)
   | Some h \<Rightarrow> (True, set_dict t (dict_emplace name \<lparr>res_name = name, res_object = h, res_video = video\<rparr>) p))"

definition with_object :: "backend \<Rightarrow> backend_call \<Rightarrow> resource_pool \<Rightarrow> (handle \<Rightarrow> load_result) \<Rightarrow> load_result" where
  "with_object B call p k = (case perform B call of None \<Rightarrow> (False, p) | Some h \<Rightarrow> k h)"

subsection \<open>Textures\<close>

definition LoadTextureFile :: "backend \<Rightarrow> string \<Rightarrow> string \<Rightarrow> bool \<Rightarrow> resource_pool \<Rightarrow> load_result" where
  "LoadTextureFile B name fpath mipmaps p = (if map_of (m_TexturePool p) name \<noteq> None then (False, p)
     else with_object B (TextureFromFile fpath mipmaps) p (\<lambda>t.
       enter B TTexture name False (TextureResource name t) p))"

definition LoadTextureData :: "backend \<Rightarrow> string \<Rightarrow> bytes option \<Rightarrow> bool \<Rightarrow> resource_pool \<Rightarrow> load_result" where
  "LoadTextureData B name data mipmaps p = (if map_of (m_TexturePool p) name \<noteq> None then (False, p)
     else with_object B (TextureFromData data mipmaps) p (\<lambda>t.
       enter B TTexture name False (TextureResource name t) p))"

definition LoadVideoFile :: "backend \<Rightarrow> string \<Rightarrow> string \<Rightarrow> bool \<Rightarrow> resource_pool \<Rightarrow> load_result" where
  "LoadVideoFile B name fpath looping p = (if map_of (m_TexturePool p) name \<noteq> None then (False, p)
     else enter B TTexture name True (VideoFileResource name fpath looping) p)"

definition LoadVideoDecoder :: "backend \<Rightarrow> string \<Rightarrow> bytes \<Rightarrow> bool \<Rightarrow> resource_pool \<Rightarrow> load_result" where
  "LoadVideoDecoder B name decoder looping p = (if map_of (m_TexturePool p) name \<noteq> None then (False, p)
     else enter B TTexture name True (VideoResource name decoder looping) p)"

definition CreateTexture :: "backend \<Rightarrow> string \<Rightarrow> int \<Rightarrow> int \<Rightarrow> resource_pool \<Rightarrow> load_result" where
  "CreateTexture B name width height p = (if map_of (m_TexturePool p) name \<noteq> None then (False, p)
     else with_object B (BlankTexture (of_int width) (of_int height)) p (\<lambda>t.
       enter B TTexture name False (TextureResource name t) p))"

definition CreateRenderTarget :: "backend \<Rightarrow> string \<Rightarrow> int \<Rightarrow> int \<Rightarrow> bool \<Rightarrow> resource_pool \<Rightarrow> load_result" where
  "CreateRenderTarget B name width height depth p = (if map_of (m_TexturePool p) name \<noteq> None then (False, p)
     else if width \<le> 0 \<or> height \<le> 0
     then enter B TTexture name False (RenderTargetResource name depth) p
     else enter B TTexture name False (SizedRenderTargetResource name width height depth) p)"

subsection \<open>Sprites and animations\<close>

definition CreateSpriteRes :: "backend \<Rightarrow> string \<Rightarrow> handle option \<Rightarrow> u64 list \<Rightarrow> u64 \<times> u64 \<Rightarrow> bool
    \<Rightarrow> resource_pool \<Rightarrow> load_result" where
  "CreateSpriteRes B name tex xywh anchors rct p = (if map_of (m_SpritePool p) name \<noteq> None then (False, p)
     else case tex of None \<Rightarrow> (False, p)
       | Some t \<Rightarrow> with_object B (SpriteOfTexture t) p (\<lambda>s.
           enter B TSprite name False (SpriteResource name s xywh anchors rct) p))"

definition CreateAnimationRes :: "backend \<Rightarrow> string \<Rightarrow> handle option \<Rightarrow> u64 list \<Rightarrow> int \<Rightarrow> int \<Rightarrow> int
    \<Rightarrow> u64 \<times> u64 \<Rightarrow> bool \<Rightarrow> resource_pool \<Rightarrow> load_result" where
  "CreateAnimationRes B name tex xywh n m intv anchors rct p =
    (if map_of (m_AnimationPool p) name \<noteq> None then (False, p)
     else case tex of None \<Rightarrow> (False, p)
       | Some t \<Rightarrow> enter B TAnimation name False (AnimationResource name t xywh n m intv anchors rct) p)"

definition CreateAnimationList :: "backend \<Rightarrow> string \<Rightarrow> handle option list \<Rightarrow> int \<Rightarrow> u64 \<times> u64 \<Rightarrow> bool
    \<Rightarrow> resource_pool \<Rightarrow> load_result" where
  "CreateAnimationList B name sprite_list intv anchors rct p =
    (if map_of (m_AnimationPool p) name \<noteq> None then (False, p)
     else enter B TAnimation name False (AnimationSpritesResource name sprite_list intv anchors rct) p)"

subsection \<open>Music and sounds\<close>

text \<open>
  The loop range: an empty range at 0 stands for the whole music; otherwise the end must come
  after the start, in samples.
\<close>

definition music_range :: "backend \<Rightarrow> handle \<Rightarrow> u64 \<times> u64 \<Rightarrow> (u64 \<times> u64) option" where
  "music_range B dec span = (let (start, end) = span;
     end = (if sample_of B dec start = 0 \<and> sample_of B dec start = sample_of B dec end
            then full_length B dec else end)
   in if sample_of B dec end \<le> sample_of B dec start then None else Some (start, end))"

definition music_with :: "backend \<Rightarrow> string \<Rightarrow> handle \<Rightarrow> u64 \<times> u64 \<Rightarrow> bool \<Rightarrow> resource_pool \<Rightarrow> load_result" where
  "music_with B name dec span once p = (case music_range B dec span of
     None \<Rightarrow> (False, p)
   | Some r \<Rightarrow> with_object B (if once then MusicPlayer dec else StreamPlayer dec) p (\<lambda>pl.
       enter B TMusic name False (MusicResource name dec pl r) p))"

text \<open>Here a name that is taken is a success.\<close>

definition LoadMusicFile :: "backend \<Rightarrow> string \<Rightarrow> string \<Rightarrow> u64 \<times> u64 \<Rightarrow> bool \<Rightarrow> resource_pool \<Rightarrow> load_result" where
  "LoadMusicFile B name fpath span once p = (if map_of (m_MusicPool p) name \<noteq> None then (True, p)
     else with_object B (AudioDecoderFromFile fpath) p (\<lambda>dec. music_with B name dec span once p))"

definition LoadMusicDecoder :: "backend \<Rightarrow> string \<Rightarrow> bytes option \<Rightarrow> u64 \<times> u64 \<Rightarrow> bool
    \<Rightarrow> resource_pool \<Rightarrow> load_result" where
  "LoadMusicDecoder B name decoder span once p = (if map_of (m_MusicPool p) name \<noteq> None then (False, p)
     else case decoder of None \<Rightarrow> (False, p)
       | Some d \<Rightarrow> music_with B name (decoder_handle B d) span once p)"

definition LoadSoundEffectFile :: "backend \<Rightarrow> string \<Rightarrow> string \<Rightarrow> resource_pool \<Rightarrow> load_result" where
  "LoadSoundEffectFile B name fpath p = (if map_of (m_SoundSpritePool p) name \<noteq> None then (False, p)
     else with_object B (AudioDecoderFromFile fpath) p (\<lambda>dec. with_object B (SoundPlayer dec) p (\<lambda>pl.
       enter B TSoundEffect name False (SoundResource name pl) p)))"

definition LoadSoundEffectDecoder :: "backend \<Rightarrow> string \<Rightarrow> bytes option \<Rightarrow> resource_pool \<Rightarrow> load_result" where
  "LoadSoundEffectDecoder B name decoder p = (if map_of (m_SoundSpritePool p) name \<noteq> None then (False, p)
     else case decoder of None \<Rightarrow> (False, p)
       | Some d \<Rightarrow> with_object B (SoundPlayer (decoder_handle B d)) p (\<lambda>pl.
           enter B TSoundEffect name False (SoundResource name pl) p))"

subsection \<open>Particles\<close>

definition LoadParticleInfo :: "backend \<Rightarrow> string \<Rightarrow> bytes \<Rightarrow> handle option \<Rightarrow> u64 \<times> u64 \<Rightarrow> bool
    \<Rightarrow> resource_pool \<Rightarrow> load_result" where
  "LoadParticleInfo B name info spr anchors rct p = (if map_of (m_ParticlePool p) name \<noteq> None then (False, p)
     else case spr of None \<Rightarrow> (False, p)
       | Some s \<Rightarrow> with_object B (CloneSprite s) p (\<lambda>c.
           enter B TParticle name False (ParticleResource name info c anchors rct) p))"

definition LoadParticleFile :: "backend \<Rightarrow> string \<Rightarrow> string \<Rightarrow> handle option \<Rightarrow> u64 \<times> u64 \<Rightarrow> bool
    \<Rightarrow> resource_pool \<Rightarrow> load_result" where
  "LoadParticleFile B name fpath spr anchors rct p = (case read_file B fpath of
     None \<Rightarrow> (False, p)
   | Some d \<Rightarrow> if length d \<noteq> particle_size B then (False, p)
       else LoadParticleInfo B name d spr anchors rct p)"

subsection \<open>Fonts\<close>

definition LoadHgeFontFile :: "backend \<Rightarrow> string \<Rightarrow> string \<Rightarrow> bool \<Rightarrow> resource_pool \<Rightarrow> load_result" where
  "LoadHgeFontFile B name fpath mipmaps p = (if map_of (m_SpriteFontPool p) name \<noteq> None then (False, p)
     else enter B TSpriteFont name False (HgeFontResource name fpath mipmaps) p)"

definition LoadHgeFontData :: "backend \<Rightarrow> string \<Rightarrow> bytes option \<Rightarrow> string \<Rightarrow> bytes option \<Rightarrow> string
    \<Rightarrow> bool \<Rightarrow> resource_pool \<Rightarrow> load_result" where
  "LoadHgeFontData B name font fpath tex tex_path mipmaps p =
    (if map_of (m_SpriteFontPool p) name \<noteq> None then (False, p)
     else enter B TSpriteFont name False (HgeFontDataResource name fpath font tex tex_path mipmaps) p)"

definition LoadFancyFontFile :: "backend \<Rightarrow> string \<Rightarrow> string \<Rightarrow> string \<Rightarrow> bool \<Rightarrow> resource_pool \<Rightarrow> load_result" where
  "LoadFancyFontFile B name fpath tex_path mipmaps p = (if map_of (m_SpriteFontPool p) name \<noteq> None then (False, p)
     else enter B TSpriteFont name False (FancyFontResource name fpath tex_path mipmaps) p)"

definition LoadFancyFontData :: "backend \<Rightarrow> string \<Rightarrow> bytes option \<Rightarrow> string \<Rightarrow> string \<Rightarrow> bytes option
    \<Rightarrow> bool \<Rightarrow> resource_pool \<Rightarrow> load_result" where
  "LoadFancyFontData B name font fpath tex_path tex mipmaps p =
    (if map_of (m_SpriteFontPool p) name \<noteq> None then (False, p)
     else enter B TSpriteFont name False (FancyFontDataResource name fpath font tex_path tex mipmaps) p)"

definition LoadTTFFontPath :: "backend \<Rightarrow> string \<Rightarrow> string \<Rightarrow> u32 \<times> u32 \<Rightarrow> resource_pool \<Rightarrow> load_result" where
  "LoadTTFFontPath B name fpath wh p = (if map_of (m_TTFFontPool p) name \<noteq> None then (False, p)
     else with_object B (GlyphManager [\<lparr>source = fpath, font_face = 0, pixel_size = wh,
         is_force_to_file = False, is_buffer = False\<rparr>]) p
       (\<lambda>g. enter B TTrueTypeFont name False (FontResource name g) p))"

definition LoadTTFFontBytes :: "backend \<Rightarrow> string \<Rightarrow> bytes option \<Rightarrow> u32 \<times> u32 \<Rightarrow> resource_pool \<Rightarrow> load_result" where
  "LoadTTFFontBytes B name data wh p = (if map_of (m_TTFFontPool p) name \<noteq> None then (False, p)
     else case data of None \<Rightarrow> (False, p)
       | Some d \<Rightarrow> with_object B (GlyphManager [\<lparr>source = d, font_face = 0, pixel_size = wh,
           is_force_to_file = False, is_buffer = True\<rparr>]) p
           (\<lambda>g. enter B TTrueTypeFont name False (FontResource name g) p))"

definition LoadTrueTypeFonts :: "backend \<Rightarrow> string \<Rightarrow> font_info list \<Rightarrow> resource_pool \<Rightarrow> load_result" where
  "LoadTrueTypeFonts B name fs p = (if map_of (m_TTFFontPool p) name \<noteq> None then (False, p)
     else with_object B (GlyphManager fs) p
       (\<lambda>g. enter B TTrueTypeFont name False (FontResource name g) p))"

subsection \<open>Shaders and models\<close>

definition enter_shader :: "backend \<Rightarrow> string \<Rightarrow> backend_call \<Rightarrow> resource_pool \<Rightarrow> load_result" where
  "enter_shader B name call p = (case perform B call of
     None \<Rightarrow> (False, p)
   | Some h \<Rightarrow> if \<not> has_shader B h then (False, p)
       else (True, set_dict TFX (dict_emplace name \<lparr>res_name = name, res_object = h, res_video = False\<rparr>) p))"

definition LoadFX :: "backend \<Rightarrow> string \<Rightarrow> string \<Rightarrow> resource_pool \<Rightarrow> load_result" where
  "LoadFX B name fpath p = (if map_of (m_FXPool p) name \<noteq> None then (False, p)
     else enter_shader B name (ShaderFileResource name fpath) p)"

definition LoadFXSource :: "backend \<Rightarrow> string \<Rightarrow> bytes \<Rightarrow> resource_pool \<Rightarrow> load_result" where
  "LoadFXSource B name src p = (if map_of (m_FXPool p) name \<noteq> None then (False, p)
     else enter_shader B name (ShaderResource name src) p)"

definition LoadModelFile :: "backend \<Rightarrow> string \<Rightarrow> string \<Rightarrow> resource_pool \<Rightarrow> load_result" where
  "LoadModelFile B name fpath p = (if map_of (m_ModelPool p) name \<noteq> None then (False, p)
     else enter B TModel name False (ModelResource name fpath) p)"

end
