(* ===== verification/PoolLoading.thy ===== *)
theory PoolLoading
  imports ResourcePool
begin

text \<open>
  The contract of the load functions of a resource pool, \<open>pool_loading\<close>: a load that fails, or
  that finds its name taken, leaves the pool as it was; one that succeeds adds one entry under
  its name to one dictionary.  Every load function of \<open>ResourcePool\<close> is an interpretation.
\<close>

subsection \<open>Dictionaries\<close>

definition dict_ok :: "resource dictionary \<Rightarrow> bool" where
  "dict_ok d \<longleftrightarrow> distinct (map fst d) \<and> (\<forall>e \<in> set d. res_name (snd e) = fst e)"

definition pool_ok :: "resource_pool \<Rightarrow> bool" where
  "pool_ok p \<longleftrightarrow> (\<forall>t. dict_ok (dict_of t p))"

lemma map_of_emplace:
  "map_of (dict_emplace k v d) = (if map_of d k = None then (map_of d)(k \<mapsto> v) else map_of d)"
  by (auto simp: dict_emplace_def map_add_def fun_eq_iff split: option.splits)

lemma map_of_erase: "map_of (dict_erase k d) = (map_of d)(k := None)"
  unfolding dict_erase_def by (induction d) (auto simp: fun_eq_iff)

lemma dict_ok_emplace: "dict_ok d \<Longrightarrow> res_name r = n \<Longrightarrow> dict_ok (dict_emplace n r d)"
  by (auto simp: dict_ok_def dict_emplace_def map_of_eq_None_iff)

lemma dict_ok_erase: "dict_ok d \<Longrightarrow> dict_ok (dict_erase n d)"
  by (auto simp: dict_ok_def dict_erase_def distinct_map_filter)

lemma dict_of_set_dict [simp]:
  "dict_of t' (set_dict t f p) = (if t' = t then f (dict_of t p) else dict_of t' p)"
  by (cases t; cases t') simp_all

lemma set_dict_fields [simp]:
  "p_id (set_dict t f p) = p_id p" "p_name (set_dict t f p) = p_name p"
  "p_generation (set_dict t f p) = p_generation p"
  by (cases t; simp)+

lemma dict_of_clear [simp]: "dict_of t (pool_clear p) = []"
  by (cases t) (simp_all add: pool_clear_def)

lemma dict_of_new [simp]: "dict_of t (new_pool i n) = []"
  by (cases t) (simp_all add: new_pool_def)

subsection \<open>The contract\<close>

definition adds_entry :: "resource_type \<Rightarrow> string \<Rightarrow> resource_pool \<Rightarrow> resource_pool \<Rightarrow> bool" where
  "adds_entry t n p p' \<longleftrightarrow> map_of (dict_of t p) n = None
     \<and> (\<exists>r. res_name r = n \<and> p' = set_dict t (dict_emplace n r) p)"

locale pool_loading =
  fixes t :: resource_type
    and load :: "string \<Rightarrow> resource_pool \<Rightarrow> load_result"
  assumes taken: "map_of (dict_of t p) n \<noteq> None \<Longrightarrow> snd (load n p) = p"
    and failed: "\<not> fst (load n p) \<Longrightarrow> snd (load n p) = p"
    and loaded: "fst (load n p) \<Longrightarrow> map_of (dict_of t p) n = None \<Longrightarrow> adds_entry t n p (snd (load n p))"
begin

lemma same_or_adds: "snd (load n p) = p \<or> adds_entry t n p (snd (load n p))"
  using taken failed loaded by blast

lemma identity_kept:
  "p_id (snd (load n p)) = p_id p" "p_name (snd (load n p)) = p_name p"
  "p_generation (snd (load n p)) = p_generation p"
  using same_or_adds[of n p] by (auto simp: adds_entry_def)

lemma resources_kept:
  assumes "GetResource t' k p = Some r"
  shows "GetResource t' k (snd (load n p)) = Some r"
  using same_or_adds[of n p] assms
  by (auto simp: adds_entry_def GetResource_def findResource_def map_of_emplace)

lemma others_untouched:
  assumes "t' \<noteq> t \<or> k \<noteq> n"
  shows "GetResource t' k (snd (load n p)) = GetResource t' k p"
  using same_or_adds[of n p] assms
  by (auto simp: adds_entry_def GetResource_def findResource_def map_of_emplace)

lemma found_after_load:
  assumes "fst (load n p)"
  shows "CheckResourceExists t n (snd (load n p))"
proof (cases "map_of (dict_of t p) n")
  case None
  then show ?thesis
    using loaded[OF assms] by (auto simp: adds_entry_def CheckResourceExists_def map_of_emplace)
next
  case (Some r)
  then show ?thesis using taken[of p n] by (simp add: CheckResourceExists_def)
qed

lemma pool_ok_kept:
  assumes "pool_ok p"
  shows "pool_ok (snd (load n p))"
  using same_or_adds[of n p] assms by (auto simp: adds_entry_def pool_ok_def dict_ok_emplace)

end

subsection \<open>The load functions\<close>

lemma enter_result:
  "enter B t n v call p = (False, p) \<or>
   (\<exists>r. res_name r = n \<and> enter B t n v call p = (True, set_dict t (dict_emplace n r) p))"
proof (cases "perform B call")
  case (Some h)
  then show ?thesis
    by (intro disjI2 exI[of _ "\<lparr>res_name = n, res_object = h, res_video = v\<rparr>"]) (simp add: enter_def)
qed (simp add: enter_def)

definition load_shape :: "resource_type \<Rightarrow> string \<Rightarrow> resource_pool \<Rightarrow> load_result \<Rightarrow> bool" where
  "load_shape t n p res \<longleftrightarrow> res = (False, p) \<or>
     (\<exists>r. res_name r = n \<and> res = (True, set_dict t (dict_emplace n r) p))"

named_theorems shapes

lemma shape_failed [shapes]: "load_shape t n p (False, p)"
  by (simp add: load_shape_def)

lemma shape_enter [shapes]: "load_shape t n p (enter B t n v call p)"
  using enter_result unfolding load_shape_def .

lemma shape_with_object [shapes]:
  "(\<And>h. load_shape t n p (k h)) \<Longrightarrow> load_shape t n p (with_object B call p k)"
  by (auto simp: with_object_def load_shape_def split: option.split)

lemma shape_music_with [shapes]: "load_shape TMusic n p (music_with B n dec s once p)"
  unfolding music_with_def by (cases "music_range B dec s") (auto intro!: shapes)

lemma shape_shader [shapes]: "load_shape TFX n p (enter_shader B n call p)"
proof (cases "\<exists>h. perform B call = Some h \<and> has_shader B h")
  case True
  then obtain h where "perform B call = Some h" "has_shader B h" by blast
  then show ?thesis unfolding load_shape_def
    by (intro disjI2 exI[of _ "\<lparr>res_name = n, res_object = h, res_video = False\<rparr>"])
      (simp add: enter_shader_def)
qed (auto simp: enter_shader_def load_shape_def split: option.split)

lemma pool_loadingI:
  assumes "\<And>n p. map_of (dict_of t p) n = None \<Longrightarrow> load_shape t n p (load n p)"
    "\<And>n p. map_of (dict_of t p) n \<noteq> None \<Longrightarrow> snd (load n p) = p"
  shows "pool_loading t load"
proof
  fix p n
  show "map_of (dict_of t p) n \<noteq> None \<Longrightarrow> snd (load n p) = p" by (rule assms(2))
  show "\<not> fst (load n p) \<Longrightarrow> snd (load n p) = p"
    using assms[of p n] by (cases "map_of (dict_of t p) n = None") (auto simp: load_shape_def)
  show "fst (load n p) \<Longrightarrow> map_of (dict_of t p) n = None \<Longrightarrow> adds_entry t n p (snd (load n p))"
    using assms(1)[of p n] by (auto simp: load_shape_def adds_entry_def)
qed

interpretation texture_file: pool_loading TTexture "\<lambda>n. LoadTextureFile B n f m" for B f m
  by (rule pool_loadingI) (auto simp: LoadTextureFile_def intro!: shapes)

interpretation texture_data: pool_loading TTexture "\<lambda>n. LoadTextureData B n d m" for B d m
  by (rule pool_loadingI) (auto simp: LoadTextureData_def intro!: shapes)

interpretation video_file: pool_loading TTexture "\<lambda>n. LoadVideoFile B n f l" for B f l
  by (rule pool_loadingI) (auto simp: LoadVideoFile_def intro!: shapes)

interpretation video_decoder: pool_loading TTexture "\<lambda>n. LoadVideoDecoder B n d l" for B d l
  by (rule pool_loadingI) (auto simp: LoadVideoDecoder_def intro!: shapes)

interpretation blank_texture: pool_loading TTexture "\<lambda>n. CreateTexture B n w h" for B w h
  by (rule pool_loadingI) (auto simp: CreateTexture_def intro!: shapes)

interpretation render_target: pool_loading TTexture "\<lambda>n. CreateRenderTarget B n w h d" for B w h d
  by (rule pool_loadingI) (auto simp: CreateRenderTarget_def intro!: shapes)

interpretation sprite_load: pool_loading TSprite "\<lambda>n. CreateSpriteRes B n tx q an rc" for B tx q an rc
  by (rule pool_loadingI) (auto simp: CreateSpriteRes_def intro!: shapes split: option.split)

interpretation animation_load: pool_loading TAnimation "\<lambda>n. CreateAnimationRes B n tx q c r i an rc" for B tx q c r i an rc
  by (rule pool_loadingI) (auto simp: CreateAnimationRes_def intro!: shapes split: option.split)

interpretation animation_list: pool_loading TAnimation "\<lambda>n. CreateAnimationList B n sl i an rc" for B sl i an rc
  by (rule pool_loadingI) (auto simp: CreateAnimationList_def intro!: shapes)

interpretation music_file: pool_loading TMusic "\<lambda>n. LoadMusicFile B n f s once" for B f s once
  by (rule pool_loadingI) (auto simp: LoadMusicFile_def intro!: shapes)

interpretation music_decoder: pool_loading TMusic "\<lambda>n. LoadMusicDecoder B n d s once" for B d s once
  by (rule pool_loadingI) (auto simp: LoadMusicDecoder_def intro!: shapes split: option.split)

interpretation sound_file: pool_loading TSoundEffect "\<lambda>n. LoadSoundEffectFile B n f" for B f
  by (rule pool_loadingI) (auto simp: LoadSoundEffectFile_def intro!: shapes)

interpretation sound_decoder: pool_loading TSoundEffect "\<lambda>n. LoadSoundEffectDecoder B n d" for B d
  by (rule pool_loadingI) (auto simp: LoadSoundEffectDecoder_def intro!: shapes split: option.split)

interpretation particle_info: pool_loading TParticle "\<lambda>n. LoadParticleInfo B n i sp an rc" for B i sp an rc
  by (rule pool_loadingI) (auto simp: LoadParticleInfo_def intro!: shapes split: option.split)

interpretation particle_file: pool_loading TParticle "\<lambda>n. LoadParticleFile B n f sp an rc" for B f sp an rc
  by (rule pool_loadingI)
    (auto simp: LoadParticleFile_def LoadParticleInfo_def intro!: shapes split: option.split)

interpretation hge_file: pool_loading TSpriteFont "\<lambda>n. LoadHgeFontFile B n f m" for B f m
  by (rule pool_loadingI) (auto simp: LoadHgeFontFile_def intro!: shapes)

interpretation hge_data: pool_loading TSpriteFont "\<lambda>n. LoadHgeFontData B n d f tx tp m" for B d f tx tp m
  by (rule pool_loadingI) (auto simp: LoadHgeFontData_def intro!: shapes)

interpretation fancy_file: pool_loading TSpriteFont "\<lambda>n. LoadFancyFontFile B n f tp m" for B f tp m
  by (rule pool_loadingI) (auto simp: LoadFancyFontFile_def intro!: shapes)

interpretation fancy_data: pool_loading TSpriteFont "\<lambda>n. LoadFancyFontData B n d f tp tx m" for B d f tp tx m
  by (rule pool_loadingI) (auto simp: LoadFancyFontData_def intro!: shapes)

interpretation ttf_path: pool_loading TTrueTypeFont "\<lambda>n. LoadTTFFontPath B n f wh" for B f wh
  by (rule pool_loadingI) (auto simp: LoadTTFFontPath_def intro!: shapes)

interpretation ttf_bytes: pool_loading TTrueTypeFont "\<lambda>n. LoadTTFFontBytes B n d wh" for B d wh
  by (rule pool_loadingI) (auto simp: LoadTTFFontBytes_def intro!: shapes split: option.split)

interpretation ttf_list: pool_loading TTrueTypeFont "\<lambda>n. LoadTrueTypeFonts B n fs" for B fs
  by (rule pool_loadingI) (auto simp: LoadTrueTypeFonts_def intro!: shapes)

interpretation fx_file: pool_loading TFX "\<lambda>n. LoadFX B n f" for B f
  by (rule pool_loadingI) (auto simp: LoadFX_def intro!: shapes)

interpretation fx_source: pool_loading TFX "\<lambda>n. LoadFXSource B n s" for B s
  by (rule pool_loadingI) (auto simp: LoadFXSource_def intro!: shapes)

interpretation model_load: pool_loading TModel "\<lambda>n. LoadModelFile B n f" for B f
  by (rule pool_loadingI) (auto simp: LoadModelFile_def intro!: shapes)

end
