(* ===== verification/AsyncThreads.thy ===== *)
theory AsyncThreads
  imports AsyncLoader
begin

text \<open>
  The two threads of the asynchronous loader.  \<open>worker_step\<close> is the next step of \<open>workerMain\<close>,
  \<open>main_step\<close> a call of the main thread or the next step of the call it is in; \<open>loader_step\<close>
  interleaves them.  Cancelling the jobs of a list is one step: a cancellation of one job
  commutes with the worker's work on another, and the list is protected by the loader's mutex.
\<close>

subsection \<open>The worker\<close>

definition worker_set :: "nat \<Rightarrow> (job \<Rightarrow> job) \<Rightarrow> worker_place \<Rightarrow> 'm loader \<Rightarrow> 'm loader" where
  "worker_set j f p s = (update_job j f s)\<lparr>worker := p\<rparr>"

fun worker_step :: "work_env \<Rightarrow> worker_place \<Rightarrow> 'm loader \<Rightarrow> 'm loader option" where
  "worker_step E WWait s = (if m_exit s then Some (s\<lparr>worker := WExit\<rparr>)
     else case m_queue s of [] \<Rightarrow> None | j # q \<Rightarrow> Some (s\<lparr>m_queue := q, worker := WPopped j\<rparr>))"
| "worker_step E (WPopped j) s =
     Some (s\<lparr>worker := (if isCancelled (job_of s j) then WDropped j else WProcess j)\<rparr>)"
| "worker_step E (WDropped j) s = Some (worker_set j (setState Cancelled) WWait s)"
| "worker_step E (WProcess j) s = Some (worker_set j (setState Running) (WStarted j) s)"
| "worker_step E (WStarted j) s =
     Some (s\<lparr>worker := (if isCancelled (job_of s j) then WAborted j else WWork j)\<rparr>)"
| "worker_step E (WAborted j) s = Some (worker_set j (setState Cancelled) (WProcessed j) s)"
| "worker_step E (WWork j) s = Some (worker_set j (\<lambda>job. snd (work E job))
     (case fst (work E (job_of s j)) of
        WorkFinished \<Rightarrow> WFinishing j | WorkFailed e \<Rightarrow> WFailing j e | WorkReady \<Rightarrow> WRead j) s)"
| "worker_step E (WFailing j e) s = Some (worker_set j (job_fail e) (WProcessed j) s)"
| "worker_step E (WFinishing j) s = Some (worker_set j job_finish (WProcessed j) s)"
| "worker_step E (WRead j) s =
     Some (s\<lparr>worker := (if isCancelled (job_of s j) then WAborted j else WSetReady j)\<rparr>)"
| "worker_step E (WSetReady j) s = Some (worker_set j (setState Ready) (WProcessed j) s)"
| "worker_step E (WProcessed j) s =
     Some (s\<lparr>worker := (if m_kind (job_of s j) = Resource \<and> m_state (job_of s j) = Ready
        then WQueueReady j else WWait)\<rparr>)"
| "worker_step E (WQueueReady j) s = Some (s\<lparr>m_ready := m_ready s @ [j], worker := WWait\<rparr>)"
| "worker_step E WExit s = None"

fun worker_jobs :: "worker_place \<Rightarrow> nat list" where
  "worker_jobs (WPopped j) = [j]" | "worker_jobs (WDropped j) = [j]" | "worker_jobs (WProcess j) = [j]"
| "worker_jobs (WStarted j) = [j]" | "worker_jobs (WAborted j) = [j]" | "worker_jobs (WWork j) = [j]"
| "worker_jobs (WFailing j e) = [j]" | "worker_jobs (WFinishing j) = [j]" | "worker_jobs (WRead j) = [j]"
| "worker_jobs (WSetReady j) = [j]" | "worker_jobs (WProcessed j) = [j]"
| "worker_jobs (WQueueReady j) = [j]" | "worker_jobs WWait = []" | "worker_jobs WExit = []"

subsection \<open>The main thread\<close>

datatype main_op = SubmitFileRead string | SubmitResource request | SubmitFailedResource request string
  | CancelJob nat | CancelPool u64 | CancelAll | ReleaseHandle nat | StartUpdate nat | StartStop | Continue

definition submit :: "job \<Rightarrow> 'm loader \<Rightarrow> 'm loader" where
  "submit job s = (let j = created s in
     if m_exit s
     then s\<lparr>job_of := (job_of s)(j := job_fail ''async resource loader has stopped'' job),
            created := Suc j, handles := j # handles s\<rparr>
     else s\<lparr>job_of := (job_of s)(j := job), created := Suc j, handles := j # handles s,
            m_jobs := m_jobs s @ [j], m_queue := m_queue s @ [j]\<rparr>)"

definition submitFailedResource :: "request \<Rightarrow> string \<Rightarrow> 'm loader \<Rightarrow> 'm loader" where
  "submitFailedResource r message s = (let j = created s; job = job_fail message (resource_job r) in
     s\<lparr>job_of := (job_of s)(j := job), created := Suc j, handles := j # handles s,
       m_history := addHistory (getDebugInfo job) (m_history s)\<rparr>)"

definition cancel_where :: "(job \<Rightarrow> bool) \<Rightarrow> 'm loader \<Rightarrow> 'm loader" where
  "cancel_where P s = s\<lparr>job_of := (\<lambda>j. if j \<in> set (m_jobs s) \<and> P (job_of s j)
     then snd (job_cancel (job_of s j)) else job_of s j)\<rparr>"

definition cancelAll :: "'m loader \<Rightarrow> 'm loader" where
  "cancelAll s = cancel_where (\<lambda>_. True) s"

definition cancelPool :: "u64 \<Rightarrow> 'm loader \<Rightarrow> 'm loader" where
  "cancelPool p s = cancel_where (\<lambda>job. m_kind job = Resource \<and> pool_id (m_request job) = p) s"

text \<open>
  The sweep at the end of \<open>update\<close>: \<open>use_count() == 1\<close> holds when neither a script nor the queues
  nor the worker refer to the job.
\<close>

definition unreferenced :: "'m loader \<Rightarrow> nat \<Rightarrow> bool" where
  "unreferenced s j \<longleftrightarrow> j \<notin> set (handles s) \<and> j \<notin> set (m_queue s) \<and> j \<notin> set (m_ready s)
     \<and> j \<notin> set (worker_jobs (worker s))"

fun sweep_jobs :: "'m loader \<Rightarrow> nat list \<Rightarrow> debug_info list \<Rightarrow> nat list \<times> debug_info list" where
  "sweep_jobs s [] hist = ([], hist)"
| "sweep_jobs s (j # js) hist = (if unreferenced s j \<and> isFinished (job_of s j)
     then sweep_jobs s js (addHistory (getDebugInfo (job_of s j)) hist)
     else let (keep, hist') = sweep_jobs s js hist in (j # keep, hist'))"

definition sweep :: "'m loader \<Rightarrow> 'm loader" where
  "sweep s = (let (keep, hist) = sweep_jobs s (m_jobs s) (m_history s) in
     s\<lparr>m_jobs := keep, m_history := hist, main := MIdle\<rparr>)"

fun main_call :: "main_op \<Rightarrow> 'm loader \<Rightarrow> 'm loader option" where
  "main_call (SubmitFileRead p) s = Some (submit (file_job p) s)"
| "main_call (SubmitResource r) s = Some (submit (resource_job r) s)"
| "main_call (SubmitFailedResource r message) s = Some (submitFailedResource r message s)"
| "main_call (CancelJob j) s = (if j \<in> set (handles s)
     then Some (update_job j (\<lambda>job. snd (job_cancel job)) s) else None)"
| "main_call (CancelPool p) s = Some (cancelPool p s)"
| "main_call CancelAll s = Some (cancelAll s)"
| "main_call (ReleaseHandle j) s = Some (s\<lparr>handles := removeAll j (handles s)\<rparr>)"
| "main_call (StartUpdate n) s = Some (s\<lparr>main := MUpdate 0 n\<rparr>)"
| "main_call StartStop s = Some ((cancelAll s)\<lparr>main := MStopping\<rparr>)"
| "main_call Continue s = None"

fun main_continue :: "work_env \<Rightarrow> 'm manager_env \<Rightarrow> main_place \<Rightarrow> 'm loader \<Rightarrow> 'm loader option" where
  "main_continue E M MIdle s = None"
| "main_continue E M (MUpdate c n) s = (if c < n
     then (case m_ready s of [] \<Rightarrow> Some (s\<lparr>main := MSweep\<rparr>)
       | j # q \<Rightarrow> Some (s\<lparr>m_ready := q, main := MTaken j c n\<rparr>))
     else Some (s\<lparr>main := MSweep\<rparr>))"
| "main_continue E M (MTaken j c n) s =
     Some (s\<lparr>main := (if isFinished (job_of s j) then MUpdate c n else MChecked j c n)\<rparr>)"
| "main_continue E M (MChecked j c n) s =
     Some (s\<lparr>main := (if isCancelled (job_of s j) then MDropping j c n else MFinalize j c n)\<rparr>)"
| "main_continue E M (MDropping j c n) s =
     Some ((update_job j (setState Cancelled) s)\<lparr>main := MUpdate c n\<rparr>)"
| "main_continue E M (MFinalize j c n) s = (case finalize E M (manager s) (job_of s j) of
     None \<Rightarrow> None
   | Some (ok, job, mgr) \<Rightarrow> Some ((update_job j (\<lambda>_. job) s)\<lparr>manager := mgr,
       main := (if ok then MLoaded j c n else MUpdate (Suc c) n)\<rparr>))"
| "main_continue E M (MLoaded j c n) s =
     Some ((update_job j job_finish s)\<lparr>main := MUpdate (Suc c) n\<rparr>)"
| "main_continue E M MSweep s = Some (sweep s)"
| "main_continue E M MStopping s = Some (s\<lparr>m_exit := True, main := MJoining\<rparr>)"
| "main_continue E M MJoining s = (if worker s = WExit then Some (s\<lparr>main := MIdle\<rparr>) else None)"

definition main_step :: "work_env \<Rightarrow> 'm manager_env \<Rightarrow> main_op \<Rightarrow> 'm loader \<Rightarrow> 'm loader option" where
  "main_step E M op s = (if main s = MIdle then main_call op s else main_continue E M (main s) s)"

fun main_jobs :: "main_place \<Rightarrow> nat list" where
  "main_jobs (MTaken j c n) = [j]" | "main_jobs (MChecked j c n) = [j]"
| "main_jobs (MDropping j c n) = [j]" | "main_jobs (MFinalize j c n) = [j]"
| "main_jobs (MLoaded j c n) = [j]" | "main_jobs _ = []"

subsection \<open>The interleaving\<close>

inductive loader_step :: "work_env \<Rightarrow> 'm manager_env \<Rightarrow> 'm loader \<Rightarrow> 'm loader \<Rightarrow> bool" for E M where
  Worker: "worker_step E (worker s) s = Some s' \<Longrightarrow> loader_step E M s s'"
| Main: "main_step E M op s = Some s' \<Longrightarrow> loader_step E M s s'"

inductive_cases loader_stepE: "loader_step E M s s'"

inductive loader_run :: "work_env \<Rightarrow> 'm manager_env \<Rightarrow> 'm loader \<Rightarrow> 'm loader \<Rightarrow> bool" for E M where
  Refl: "loader_run E M s s"
| Step: "loader_run E M s s' \<Longrightarrow> loader_step E M s' s'' \<Longrightarrow> loader_run E M s s''"

definition initial_loader :: "'m \<Rightarrow> 'm loader" where
  "initial_loader mgr = \<lparr>job_of = (\<lambda>_. resource_job empty_request), created = 0, m_queue = [],
     m_ready = [], m_jobs = [], m_history = [], m_exit = False, handles = [], worker = WWait,
     main = MIdle, manager = mgr\<rparr>"

definition loader_reachable :: "work_env \<Rightarrow> 'm manager_env \<Rightarrow> 'm loader \<Rightarrow> bool" where
  "loader_reachable E M s \<longleftrightarrow> (\<exists>mgr. loader_run E M (initial_loader mgr) s)"

lemma loader_run_trans:
  assumes "loader_run E M s' s''" "loader_run E M s s'"
  shows "loader_run E M s s''"
  using assms by (induction rule: loader_run.induct) (auto intro: loader_run.intros)

lemma loader_run_invariant:
  assumes "loader_run E M s s'" "I s" "\<And>a b. I a \<Longrightarrow> loader_step E M a b \<Longrightarrow> I b"
  shows "I s'"
  using assms by (induction rule: loader_run.induct) auto

end
