(* ===== verification/AsyncInvariant.thy ===== *)
theory AsyncInvariant
  imports AsyncThreads
begin

text \<open>
  The invariant of the asynchronous loader: every job is at one place at most, its state fits
  the place, an unfinished job is always somewhere and always in the list \<open>cancelAll\<close> walks, a
  cancelled job stays cancelled, and once the exit flag is set nothing is left uncancelled.
\<close>

subsection \<open>One job\<close>

definition job_ok :: "job \<Rightarrow> bool" where
  "job_ok job \<longleftrightarrow> (m_state job = Cancelled \<longrightarrow> m_cancel_requested job)
     \<and> (m_cancel_requested job \<longrightarrow> m_state job \<in> {Running, Cancelled})"

named_theorems job_ops

lemma job_cancel_state [job_ops]:
  "m_state (snd (job_cancel job)) = (if m_state job = Queued \<or> m_state job = Ready then Cancelled else m_state job)"
  "m_cancel_requested (snd (job_cancel job)) = (m_cancel_requested job \<or> \<not> isTerminal (m_state job))"
  "m_kind (snd (job_cancel job)) = m_kind job"
  by (simp_all add: job_cancel_def Let_def)

lemma setState_state [job_ops]:
  "m_state (setState st job) = (if m_cancel_requested job \<and> \<not> isTerminal st then Cancelled else st)"
  "m_cancel_requested (setState st job) = m_cancel_requested job"
  "m_kind (setState st job) = m_kind job"
  by (simp_all add: setState_def)

lemma job_fail_state [job_ops]:
  "m_state (job_fail e job) = (if m_cancel_requested job then Cancelled else Failed)"
  "m_cancel_requested (job_fail e job) = m_cancel_requested job"
  "m_kind (job_fail e job) = m_kind job"
  by (simp_all add: job_fail_def)

lemma job_finish_state [job_ops]:
  "m_state (job_finish job) = (if m_cancel_requested job then Cancelled else Done)"
  "m_cancel_requested (job_finish job) = m_cancel_requested job"
  "m_kind (job_finish job) = m_kind job"
  by (simp_all add: job_finish_def)

text \<open>The work of the worker only writes the members that hold data.\<close>

definition same_status :: "job \<Rightarrow> job \<Rightarrow> bool" where
  "same_status a b \<longleftrightarrow> m_state a = m_state b \<and> m_cancel_requested a = m_cancel_requested b
     \<and> m_kind a = m_kind b \<and> m_error a = m_error b"

lemma same_status_refl [simp]: "same_status a a"
  by (simp add: same_status_def)

lemma read_main_status:
  assumes "\<And>b. same_status b job \<Longrightarrow> same_status (snd (k b)) job"
  shows "same_status (snd (read_main E job k)) job"
  using assms by (auto simp: read_main_def same_status_def split: option.splits)

lemma read_font_texture_status: "same_status b job \<Longrightarrow> same_status (snd (read_font_texture E p b)) job"
  by (auto simp: read_font_texture_def same_status_def setSecondaryDebugFile_def Let_def
      split: prod.splits sum.splits)

lemma read_fonts_status: "same_status b job \<Longrightarrow> same_status (snd (read_fonts E fs i b)) job"
  by (induction fs arbitrary: i b) (auto simp: Let_def same_status_def split: option.splits)

lemma work_status: "same_status (snd (work E job)) job"
proof (cases "m_kind job")
  case FileRead
  then show ?thesis by (auto simp: work_def same_status_def split: option.splits)
next
  case Resource
  have "same_status (snd (work_resource E job)) job"
    by (cases "req_type (m_request job)")
      (auto simp: work_resource_def work_audio_def work_particle_def work_sprite_font_def
        work_true_type_def intro!: read_main_status read_font_texture_status read_fonts_status
        split: option.splits; auto simp: same_status_def)+
  then show ?thesis using Resource by (simp add: work_def)
qed

lemma work_state [job_ops]:
  "m_state (snd (work E job)) = m_state job"
  "m_cancel_requested (snd (work E job)) = m_cancel_requested job"
  "m_kind (snd (work E job)) = m_kind job"
  using work_status[of E job] by (simp_all add: same_status_def)

lemma work_ready_kind: "fst (work E job) = WorkReady \<Longrightarrow> m_kind job = Resource"
  by (cases "m_kind job") (auto simp: work_def split: option.split_asm)

lemma isCancelled_ok: "job_ok job \<Longrightarrow> isCancelled job \<longleftrightarrow> m_cancel_requested job"
  by (auto simp: isCancelled_def job_ok_def)

lemma job_ok_steps:
  "job_ok job \<Longrightarrow> job_ok (snd (job_cancel job))"
  "job_ok job \<Longrightarrow> \<not> isTerminal st \<Longrightarrow> job_ok (setState st job)"
  "job_ok job \<Longrightarrow> m_cancel_requested job \<Longrightarrow> job_ok (setState Cancelled job)"
  "job_ok job \<Longrightarrow> job_ok (job_fail e job)"
  "job_ok job \<Longrightarrow> job_ok (job_finish job)"
  "job_ok job \<Longrightarrow> job_ok (snd (work E job))"
  by (cases "m_state job"; auto simp: job_ok_def job_ops)+

lemma finalize_status:
  assumes "finalize E M mgr job = Some (ok, job', mgr')"
  shows "ok \<and> job' = job \<or> \<not> ok \<and> (\<exists>e. job' = job_fail e job)"
  using assms by (auto simp: finalize_def Let_def split: if_splits option.splits sum.splits prod.splits bool.splits)

subsection \<open>Places\<close>

definition places :: "'m loader \<Rightarrow> nat list" where
  "places s = m_queue s @ m_ready s @ worker_jobs (worker s) @ main_jobs (main s)"

fun worker_states :: "worker_place \<Rightarrow> job_state set" where
  "worker_states (WPopped j) = {Queued, Cancelled}"
| "worker_states (WDropped j) = {Cancelled}"
| "worker_states (WProcess j) = {Queued, Cancelled}"
| "worker_states (WProcessed j) = {Ready, Done, Failed, Cancelled}"
| "worker_states (WQueueReady j) = {Ready, Cancelled}"
| "worker_states _ = {Running, Cancelled}"

fun place_marks :: "worker_place \<Rightarrow> (nat \<Rightarrow> job) \<Rightarrow> bool" where
  "place_marks (WDropped j) J = m_cancel_requested (J j)"
| "place_marks (WAborted j) J = m_cancel_requested (J j)"
| "place_marks (WRead j) J = (m_kind (J j) = Resource)"
| "place_marks (WSetReady j) J = (m_kind (J j) = Resource)"
| "place_marks (WProcessed j) J = (m_state (J j) = Ready \<longrightarrow> m_kind (J j) = Resource)"
| "place_marks _ J = True"

fun main_marks :: "main_place \<Rightarrow> (nat \<Rightarrow> job) \<Rightarrow> bool" where
  "main_marks (MDropping j c n) J = m_cancel_requested (J j)"
| "main_marks (MFinalize j c n) J = (\<not> m_cancel_requested (J j))"
| "main_marks (MLoaded j c n) J = (\<not> m_cancel_requested (J j))"
| "main_marks _ J = True"

definition states_at :: "'m loader \<Rightarrow> nat \<Rightarrow> job_state set" where
  "states_at s j = (if j \<in> set (m_queue s) then {Queued, Cancelled}
     else if j \<in> set (m_ready s) then {Ready, Cancelled}
     else if j \<in> set (worker_jobs (worker s)) then worker_states (worker s)
     else if j \<in> set (main_jobs (main s)) then {Ready, Cancelled}
     else {Done, Failed, Cancelled})"

definition loader_inv :: "'m loader \<Rightarrow> bool" where
  "loader_inv s \<longleftrightarrow> distinct (places s) \<and> (\<forall>j \<in> set (places s). j < created s)
     \<and> (\<forall>j < created s. job_ok (job_of s j))
     \<and> (\<forall>j < created s. m_state (job_of s j) \<in> states_at s j)
     \<and> (\<forall>j < created s. \<not> isTerminal (m_state (job_of s j)) \<longrightarrow> j \<in> set (m_jobs s))
     \<and> (\<forall>j \<in> set (m_jobs s) \<union> set (handles s). j < created s)
     \<and> place_marks (worker s) (job_of s) \<and> main_marks (main s) (job_of s)"

definition exit_inv :: "'m loader \<Rightarrow> bool" where
  "exit_inv s \<longleftrightarrow> (m_exit s \<or> main s = MStopping \<longrightarrow>
       (\<forall>j < created s. isTerminal (m_state (job_of s j)) \<or> m_cancel_requested (job_of s j)))
     \<and> (worker s = WExit \<longrightarrow> m_exit s) \<and> (main s = MJoining \<longrightarrow> m_exit s)"

subsection \<open>The worker's steps\<close>

lemma worker_keeps:
  assumes "worker_step E w s = Some s'"
  shows "created s' = created s \<and> m_jobs s' = m_jobs s \<and> handles s' = handles s \<and> main s' = main s
    \<and> m_exit s' = m_exit s \<and> m_history s' = m_history s \<and> manager s' = manager s"
  using assms
  by (induction E w s rule: worker_step.induct)
    (auto simp: worker_set_def update_job_def split: if_split_asm list.split_asm)

text \<open>The invariant by its parts.\<close>

lemma loader_invI:
  assumes "distinct (places s)" "\<And>j. j \<in> set (places s) \<Longrightarrow> j < created s"
    "\<And>j. j < created s \<Longrightarrow> job_ok (job_of s j)"
    "\<And>j. j < created s \<Longrightarrow> m_state (job_of s j) \<in> states_at s j"
    "\<And>j. j < created s \<Longrightarrow> \<not> isTerminal (m_state (job_of s j)) \<Longrightarrow> j \<in> set (m_jobs s)"
    "\<And>j. j \<in> set (m_jobs s) \<union> set (handles s) \<Longrightarrow> j < created s"
    "place_marks (worker s) (job_of s)" "main_marks (main s) (job_of s)"
  shows "loader_inv s"
  using assms unfolding loader_inv_def by blast

lemma loader_invD:
  assumes "loader_inv s"
  shows "distinct (places s)" "\<And>j. j \<in> set (places s) \<Longrightarrow> j < created s"
    "\<And>j. j < created s \<Longrightarrow> job_ok (job_of s j)"
    "\<And>j. j < created s \<Longrightarrow> m_state (job_of s j) \<in> states_at s j"
    "\<And>j. j < created s \<Longrightarrow> \<not> isTerminal (m_state (job_of s j)) \<Longrightarrow> j \<in> set (m_jobs s)"
    "\<And>j. j \<in> set (m_jobs s) \<union> set (handles s) \<Longrightarrow> j < created s"
    "place_marks (worker s) (job_of s)" "main_marks (main s) (job_of s)"
  using assms unfolding loader_inv_def by blast+

lemma main_marks_other:
  "main_marks m J \<Longrightarrow> j \<notin> set (main_jobs m) \<Longrightarrow> main_marks m (J(j := x))"
  by (cases m) auto

lemma place_marks_other:
  "place_marks w J \<Longrightarrow> j \<notin> set (worker_jobs w) \<Longrightarrow> place_marks w (J(j := x))"
  by (cases w) auto

lemma terminal_states: "isTerminal st \<longleftrightarrow> st \<in> {Done, Failed, Cancelled}"
  by (cases st) simp_all

text \<open>The worker changes its job and moves on with it or lets go of it.\<close>

lemma worker_move:
  assumes inv: "loader_inv s" and w: "worker_jobs (worker s) = [j]" and p: "set (worker_jobs p) \<subseteq> {j}"
    "length (worker_jobs p) \<le> 1"
    and J: "job_ok J" "m_state J \<in> (if worker_jobs p = [] then {Done, Failed, Cancelled} else worker_states p)"
    "isTerminal (m_state (job_of s j)) \<Longrightarrow> isTerminal (m_state J)"
    and mk: "place_marks p ((job_of s)(j := J))"
  shows "loader_inv (s\<lparr>job_of := (job_of s)(j := J), worker := p\<rparr>)"
proof -
  note I = loader_invD[OF inv]
  have pj: "worker_jobs p = [] \<or> worker_jobs p = [j]" using p by (cases "worker_jobs p") auto
  have d: "distinct (m_queue s)" "distinct (m_ready s)" "distinct (main_jobs (main s))"
    "j \<notin> set (m_queue s)" "j \<notin> set (m_ready s)" "j \<notin> set (main_jobs (main s))"
    using I(1) by (auto simp: places_def w)
  have lt: "j < created s" using I(2)[of j] by (simp add: places_def w)
  show ?thesis
  proof (rule loader_invI)
    fix k assume "k < created (s\<lparr>job_of := (job_of s)(j := J), worker := p\<rparr>)"
    then have k: "k < created s" by simp
    show "m_state (job_of (s\<lparr>job_of := (job_of s)(j := J), worker := p\<rparr>) k)
        \<in> states_at (s\<lparr>job_of := (job_of s)(j := J), worker := p\<rparr>) k"
    proof (cases "k = j")
      case True
      then show ?thesis using J(2) d pj by (auto simp: states_at_def)
    next
      case False
      then show ?thesis using I(4)[OF k] pj by (auto simp: states_at_def w split: if_split_asm)
    qed
  next
    show "main_marks (main (s\<lparr>job_of := (job_of s)(j := J), worker := p\<rparr>))
        (job_of (s\<lparr>job_of := (job_of s)(j := J), worker := p\<rparr>))"
      using main_marks_other[OF I(8) d(6)] by simp
  next
    show "distinct (places (s\<lparr>job_of := (job_of s)(j := J), worker := p\<rparr>))"
      using I(1) pj by (auto simp: places_def w)
  next
    fix k assume "k \<in> set (places (s\<lparr>job_of := (job_of s)(j := J), worker := p\<rparr>))"
    then show "k < created (s\<lparr>job_of := (job_of s)(j := J), worker := p\<rparr>)"
      using I(2)[of k] lt pj by (auto simp: places_def w)
  next
    fix k assume "k < created (s\<lparr>job_of := (job_of s)(j := J), worker := p\<rparr>)"
      "\<not> isTerminal (m_state (job_of (s\<lparr>job_of := (job_of s)(j := J), worker := p\<rparr>) k))"
    then show "k \<in> set (m_jobs (s\<lparr>job_of := (job_of s)(j := J), worker := p\<rparr>))"
      using I(5)[of k] J(3) by (auto split: if_split_asm)
  qed (use I J mk in auto)
qed

lemma worker_move_same:
  assumes inv: "loader_inv s" and w: "worker_jobs (worker s) = [j]" and p: "set (worker_jobs p) \<subseteq> {j}"
    "length (worker_jobs p) \<le> 1"
    and J: "m_state (job_of s j) \<in> (if worker_jobs p = [] then {Done, Failed, Cancelled} else worker_states p)"
    and mk: "place_marks p (job_of s)"
  shows "loader_inv (s\<lparr>worker := p\<rparr>)"
proof -
  have lt: "j < created s" using loader_invD(2)[OF inv, of j] by (simp add: places_def w)
  show ?thesis
    using worker_move[OF inv w p loader_invD(3)[OF inv lt] J] mk by simp
qed

lemma worker_set_inv:
  assumes "loader_inv s" "worker_jobs (worker s) = [j]" "set (worker_jobs p) \<subseteq> {j}"
    "length (worker_jobs p) \<le> 1" "job_ok (f (job_of s j))"
    "m_state (f (job_of s j)) \<in> (if worker_jobs p = [] then {Done, Failed, Cancelled} else worker_states p)"
    "isTerminal (m_state (job_of s j)) \<Longrightarrow> isTerminal (m_state (f (job_of s j)))"
    "place_marks p ((job_of s)(j := f (job_of s j)))"
  shows "loader_inv (worker_set j f p s)"
  using worker_move[OF assms] by (simp add: worker_set_def update_job_def)

lemma worker_place_state:
  assumes "loader_inv s" "worker_jobs (worker s) = [j]"
  shows "j < created s" "job_ok (job_of s j)" "m_state (job_of s j) \<in> worker_states (worker s)"
proof -
  note I = loader_invD[OF assms(1)]
  show lt: "j < created s" using I(2)[of j] by (simp add: places_def assms(2))
  show "job_ok (job_of s j)" by (rule I(3)[OF lt])
  show "m_state (job_of s j) \<in> worker_states (worker s)"
    using I(4)[OF lt] I(1) by (auto simp: states_at_def places_def assms(2))
qed

lemma worker_take_inv:
  assumes inv: "loader_inv s" and w: "worker s = WWait" and q: "m_queue s = j # q"
  shows "loader_inv (s\<lparr>m_queue := q, worker := WPopped j\<rparr>)"
proof -
  note I = loader_invD[OF inv]
  show ?thesis
  proof (rule loader_invI)
    show "distinct (places (s\<lparr>m_queue := q, worker := WPopped j\<rparr>))"
      using I(1) by (auto simp: places_def w q)
    fix k assume "k < created (s\<lparr>m_queue := q, worker := WPopped j\<rparr>)"
    then have k: "k < created s" by simp
    show "m_state (job_of (s\<lparr>m_queue := q, worker := WPopped j\<rparr>) k)
        \<in> states_at (s\<lparr>m_queue := q, worker := WPopped j\<rparr>) k"
      using I(4)[OF k] I(1) by (auto simp: states_at_def places_def w q split: if_split_asm)
  next
    fix k assume "k \<in> set (places (s\<lparr>m_queue := q, worker := WPopped j\<rparr>))"
    then show "k < created (s\<lparr>m_queue := q, worker := WPopped j\<rparr>)"
      using I(2)[of k] by (auto simp: places_def w q)
  qed (use I in auto)
qed

lemma worker_queue_ready_inv:
  assumes inv: "loader_inv s" and w: "worker s = WQueueReady j"
  shows "loader_inv (s\<lparr>m_ready := m_ready s @ [j], worker := WWait\<rparr>)"
proof -
  note I = loader_invD[OF inv]
  show ?thesis
  proof (rule loader_invI)
    show "distinct (places (s\<lparr>m_ready := m_ready s @ [j], worker := WWait\<rparr>))"
      using I(1) by (auto simp: places_def w)
    fix k assume "k < created (s\<lparr>m_ready := m_ready s @ [j], worker := WWait\<rparr>)"
    then have k: "k < created s" by simp
    show "m_state (job_of (s\<lparr>m_ready := m_ready s @ [j], worker := WWait\<rparr>) k)
        \<in> states_at (s\<lparr>m_ready := m_ready s @ [j], worker := WWait\<rparr>) k"
      using I(4)[OF k] I(1) by (auto simp: states_at_def places_def w split: if_split_asm)
  next
    fix k assume "k \<in> set (places (s\<lparr>m_ready := m_ready s @ [j], worker := WWait\<rparr>))"
    then show "k < created (s\<lparr>m_ready := m_ready s @ [j], worker := WWait\<rparr>)"
      using I(2)[of k] by (auto simp: places_def w)
  qed (use I in auto)
qed

lemma worker_exit_inv:
  assumes "loader_inv s" "worker s = WWait"
  shows "loader_inv (s\<lparr>worker := WExit\<rparr>)"
proof -
  have "states_at (s\<lparr>worker := WExit\<rparr>) = states_at s" "places (s\<lparr>worker := WExit\<rparr>) = places s"
    using assms(2) by (simp_all add: states_at_def places_def fun_eq_iff)
  then show ?thesis using assms by (simp add: loader_inv_def)
qed

lemma worker_step_inv:
  assumes inv: "loader_inv s" and step: "worker_step E (worker s) s = Some s'"
  shows "loader_inv s'"
proof (cases "worker_jobs (worker s)")
  case Nil
  then consider "worker s = WWait" "m_exit s" | j q where "worker s = WWait" "\<not> m_exit s" "m_queue s = j # q"
    using step by (cases "worker s") (auto split: if_split_asm list.split_asm)
  then show ?thesis
  proof cases
    case 1
    then show ?thesis using step worker_exit_inv[OF inv] by simp
  next
    case 2
    then show ?thesis using step worker_take_inv[OF inv] by simp
  qed
next
  case (Cons j js)
  then have w: "worker_jobs (worker s) = [j]" by (cases "worker s") auto
  note P = worker_place_state[OF inv w] and M = loader_invD(7)[OF inv]
  note set_inv = worker_set_inv[OF inv w] and go = worker_move_same[OF inv w]
  show ?thesis
  proof (cases "worker s")
    case (WPopped k)
    with step w have s': "s' = s\<lparr>worker := (if isCancelled (job_of s j) then WDropped j else WProcess j)\<rparr>" by auto
    show ?thesis unfolding s'
      by (rule go) (use P WPopped in \<open>auto simp: isCancelled_ok job_ok_def\<close>)
  next
    case (WDropped k)
    with step w have s': "s' = worker_set j (setState Cancelled) WWait s" by auto
    show ?thesis unfolding s'
      by (rule set_inv) (use P M WDropped w in \<open>auto simp: job_ok_steps job_ops\<close>)
  next
    case (WProcess k)
    with step w have s': "s' = worker_set j (setState Running) (WStarted j) s" by auto
    show ?thesis unfolding s'
      by (rule set_inv) (use P WProcess in \<open>auto simp: job_ok_steps job_ops job_ok_def\<close>)
  next
    case (WStarted k)
    with step w have s': "s' = s\<lparr>worker := (if isCancelled (job_of s j) then WAborted j else WWork j)\<rparr>" by auto
    show ?thesis unfolding s'
      by (rule go) (use P WStarted in \<open>auto simp: isCancelled_ok job_ok_def\<close>)
  next
    case (WAborted k)
    with step w have s': "s' = worker_set j (setState Cancelled) (WProcessed j) s" by auto
    show ?thesis unfolding s'
      by (rule set_inv) (use P M WAborted w in \<open>auto simp: job_ok_steps job_ops\<close>)
  next
    case (WWork k)
    with step w have s': "s' = worker_set j (\<lambda>job. snd (work E job)) (case fst (work E (job_of s j)) of
        WorkFinished \<Rightarrow> WFinishing j | WorkFailed e \<Rightarrow> WFailing j e | WorkReady \<Rightarrow> WRead j) s" by auto
    show ?thesis unfolding s'
      by (rule set_inv)
        (use P WWork work_ready_kind[of E "job_of s j"] in \<open>auto simp: job_ok_steps job_ops split: work_end.split\<close>)
  next
    case (WFailing k e)
    with step w have s': "s' = worker_set j (job_fail e) (WProcessed j) s" by auto
    show ?thesis unfolding s'
      by (rule set_inv) (use P WFailing in \<open>auto simp: job_ok_steps job_ops\<close>)
  next
    case (WFinishing k)
    with step w have s': "s' = worker_set j job_finish (WProcessed j) s" by auto
    show ?thesis unfolding s'
      by (rule set_inv) (use P WFinishing in \<open>auto simp: job_ok_steps job_ops\<close>)
  next
    case (WRead k)
    with step w have s': "s' = s\<lparr>worker := (if isCancelled (job_of s j) then WAborted j else WSetReady j)\<rparr>" by auto
    show ?thesis unfolding s'
      by (rule go) (use P M w WRead in \<open>auto simp: isCancelled_ok job_ok_def\<close>)
  next
    case (WSetReady k)
    with step w have s': "s' = worker_set j (setState Ready) (WProcessed j) s" by auto
    show ?thesis unfolding s'
      by (rule set_inv) (use P M w WSetReady in \<open>auto simp: job_ok_steps job_ops job_ok_def\<close>)
  next
    case (WProcessed k)
    have "m_state (job_of s j) = Ready \<longrightarrow> m_kind (job_of s j) = Resource" using M WProcessed w by simp
    with WProcessed step w have s': "s' = s\<lparr>worker := (if m_state (job_of s j) = Ready then WQueueReady j else WWait)\<rparr>" by auto
    show ?thesis unfolding s'
      by (rule go) (use P WProcessed in auto)
  next
    case (WQueueReady k)
    then show ?thesis using step worker_queue_ready_inv[OF inv WQueueReady] by simp
  qed (use w in simp_all)
qed

end
