(* ===== verification/AsyncMain.thy ===== *)
theory AsyncMain
  imports AsyncInvariant
begin

text \<open>
  The invariant of the asynchronous loader under the steps of the main thread, and the
  invariant of the exit flag.
\<close>

subsection \<open>Calls\<close>

lemma same_places:
  assumes inv: "loader_inv s" and pl: "m_queue s' = m_queue s" "m_ready s' = m_ready s"
      "worker s' = worker s" "main_jobs (main s') = main_jobs (main s)" "created s' = created s"
    and J: "\<And>j. j < created s \<Longrightarrow> job_ok (job_of s' j)"
      "\<And>j. j < created s \<Longrightarrow> m_state (job_of s' j) = m_state (job_of s j) \<or> m_state (job_of s' j) = Cancelled"
      "\<And>j. m_cancel_requested (job_of s j) \<Longrightarrow> m_cancel_requested (job_of s' j)"
      "\<And>j. m_kind (job_of s' j) = m_kind (job_of s j)"
    and L: "\<And>j. j \<in> set (m_jobs s') \<union> set (handles s') \<Longrightarrow> j < created s"
      "\<And>j. j \<in> set (m_jobs s) \<Longrightarrow> \<not> isTerminal (m_state (job_of s' j)) \<Longrightarrow> j \<in> set (m_jobs s')"
    and mm: "main_marks (main s') (job_of s')"
  shows "loader_inv s'"
proof (rule loader_invI)
  note I = loader_invD[OF inv]
  have P: "places s' = places s" by (simp add: places_def pl)
  show "distinct (places s')" "\<And>j. j \<in> set (places s') \<Longrightarrow> j < created s'"
    using I(1,2) by (simp_all add: P pl)
  fix j
  show "j < created s' \<Longrightarrow> job_ok (job_of s' j)" using J(1) by (simp add: pl)
  have sa: "states_at s' j = states_at s j" by (simp add: states_at_def pl)
  have cs: "Cancelled \<in> states_at s j"
    by (cases "worker s") (simp_all add: states_at_def)
  show "j < created s' \<Longrightarrow> m_state (job_of s' j) \<in> states_at s' j"
    using I(4)[of j] J(2)[of j] cs by (auto simp: pl sa)
  show "j < created s' \<Longrightarrow> \<not> isTerminal (m_state (job_of s' j)) \<Longrightarrow> j \<in> set (m_jobs s')"
    using I(5)[of j] J(2)[of j] L(2)[of j] by (auto simp: pl)
  show "j \<in> set (m_jobs s') \<union> set (handles s') \<Longrightarrow> j < created s'" using L(1) by (simp add: pl)
next
  show "place_marks (worker s') (job_of s')"
  proof -
    have M: "place_marks (worker s) (job_of s)" by (rule loader_invD(7)[OF inv])
    show ?thesis
    proof (cases "worker s")
      case (WProcessed j)
      then have "j < created s" using loader_invD(2)[OF inv, of j] by (simp add: places_def)
      then show ?thesis using M WProcessed J(2)[of j] J(4)[of j] by (auto simp: pl)
    qed (use M J(3,4) in \<open>auto simp: pl\<close>)
  qed
qed (rule mm)

lemma cancel_job_facts:
  "m_state (snd (job_cancel J)) = m_state J \<or> m_state (snd (job_cancel J)) = Cancelled"
  "m_cancel_requested J \<Longrightarrow> m_cancel_requested (snd (job_cancel J))"
  by (simp_all add: job_ops)

lemma cancel_where_inv:
  assumes inv: "loader_inv s" and m: "main s = MIdle"
  shows "loader_inv (cancel_where P s)"
  by (rule same_places[OF inv])
    (use loader_invD[OF inv] m in \<open>auto simp: cancel_where_def job_ok_steps cancel_job_facts job_ops\<close>)

lemma cancel_job_inv:
  assumes inv: "loader_inv s" and m: "main s = MIdle"
  shows "loader_inv (update_job j (\<lambda>job. snd (job_cancel job)) s)"
  by (rule same_places[OF inv])
    (use loader_invD[OF inv] m in \<open>auto simp: update_job_def job_ok_steps cancel_job_facts job_ops\<close>)

lemma new_job_ok:
  "job_ok (file_job p)" "job_ok (resource_job r)" "m_state (file_job p) = Queued"
  "m_state (resource_job r) = Queued" "\<not> m_cancel_requested (file_job p)"
  "\<not> m_cancel_requested (resource_job r)"
  by (simp_all add: job_ok_def file_job_def resource_job_def)

lemma fresh_place: "loader_inv s \<Longrightarrow> created s \<notin> set (places s)"
  using loader_invD(2) by blast

lemma add_finished_inv:
  assumes inv: "loader_inv s" and J: "job_ok J" "isTerminal (m_state J)"
    and s': "s' = s\<lparr>job_of := (job_of s)(created s := J), created := Suc (created s), handles := h, m_history := hh\<rparr>"
    and h: "set h \<subseteq> insert (created s) (set (handles s))"
  shows "loader_inv s'"
proof -
  note I = loader_invD[OF inv]
  have fresh: "created s \<notin> set (places s)" by (rule fresh_place[OF inv])
  have P: "places s' = places s" by (simp add: places_def s')
  have st: "states_at s' = states_at s" by (simp add: states_at_def s' fun_eq_iff)
  have out: "states_at s (created s) = {Done, Failed, Cancelled}"
    using fresh by (auto simp: states_at_def places_def)
  show ?thesis
  proof (rule loader_invI)
    fix j assume "j < created s'"
    then have j: "j < Suc (created s)" by (simp add: s')
    show "m_state (job_of s' j) \<in> states_at s' j"
      unfolding st using I(4)[of j] j J(2) out by (auto simp: s' terminal_states less_Suc_eq)
    show "job_ok (job_of s' j)" using I(3)[of j] j J(1) by (auto simp: s' less_Suc_eq)
    show "\<not> isTerminal (m_state (job_of s' j)) \<Longrightarrow> j \<in> set (m_jobs s')"
      using I(5)[of j] j J(2) by (auto simp: s' less_Suc_eq split: if_split_asm)
  next
    show "place_marks (worker s') (job_of s')"
      using place_marks_other[OF I(7)] fresh by (simp add: s' places_def)
    show "main_marks (main s') (job_of s')"
      using main_marks_other[OF I(8)] fresh by (simp add: s' places_def)
    show "\<And>j. j \<in> set (places s') \<Longrightarrow> j < created s'"
      using I(2) unfolding P by (auto simp: s' less_SucI)
    show "\<And>j. j \<in> set (m_jobs s') \<union> set (handles s') \<Longrightarrow> j < created s'"
      using I(6) h by (auto simp: s' less_Suc_eq)
  qed (simp add: P I(1))
qed

lemma add_queued_inv:
  assumes inv: "loader_inv s" and J: "job_ok J" "m_state J = Queued"
    and s': "s' = s\<lparr>job_of := (job_of s)(created s := J), created := Suc (created s),
      handles := created s # handles s, m_jobs := m_jobs s @ [created s], m_queue := m_queue s @ [created s]\<rparr>"
  shows "loader_inv s'"
proof -
  note I = loader_invD[OF inv]
  have fresh: "created s \<notin> set (places s)" by (rule fresh_place[OF inv])
  show ?thesis
  proof (rule loader_invI)
    fix j assume "j < created s'"
    then have j: "j < Suc (created s)" by (simp add: s')
    show "m_state (job_of s' j) \<in> states_at s' j"
    proof (cases "j = created s")
      case True
      then show ?thesis using J(2) by (simp add: s' states_at_def)
    next
      case False
      then have "states_at s' j = states_at s j" by (simp add: s' states_at_def)
      then show ?thesis using I(4)[of j] j False by (simp add: s')
    qed
    show "job_ok (job_of s' j)" using I(3)[of j] j J(1) by (auto simp: s' less_Suc_eq)
    show "\<not> isTerminal (m_state (job_of s' j)) \<Longrightarrow> j \<in> set (m_jobs s')"
      using I(5)[of j] j by (auto simp: s' less_Suc_eq split: if_split_asm)
  next
    show "place_marks (worker s') (job_of s')"
      using place_marks_other[OF I(7)] fresh by (simp add: s' places_def)
    show "main_marks (main s') (job_of s')"
      using main_marks_other[OF I(8)] fresh by (simp add: s' places_def)
    show "distinct (places s')" using I(1) fresh by (auto simp: s' places_def)
    show "\<And>j. j \<in> set (places s') \<Longrightarrow> j < created s'"
      using I(2) by (auto simp: s' places_def less_Suc_eq)
    show "\<And>j. j \<in> set (m_jobs s') \<union> set (handles s') \<Longrightarrow> j < created s'"
      using I(6) by (auto simp: s' less_Suc_eq)
  qed
qed

lemma submit_inv:
  assumes "loader_inv s" "job_ok J" "m_state J = Queued"
  shows "loader_inv (submit J s)"
proof (cases "m_exit s")
  case True
  show ?thesis
    by (rule add_finished_inv[OF assms(1), where J = "job_fail ''async resource loader has stopped'' J"
          and h = "created s # handles s" and hh = "m_history s"])
      (use True assms in \<open>auto simp: submit_def Let_def job_ok_steps job_ops\<close>)
next
  case False
  show ?thesis
    by (rule add_queued_inv[OF assms]) (simp add: submit_def Let_def False)
qed

lemma submitFailed_inv:
  assumes "loader_inv s"
  shows "loader_inv (submitFailedResource r e s)"
  by (rule add_finished_inv[OF assms, of "job_fail e (resource_job r)"])
    (auto simp: submitFailedResource_def Let_def job_ok_steps job_ops new_job_ok)

subsection \<open>The steps of update\<close>

lemma main_move:
  assumes inv: "loader_inv s" and w: "main_jobs (main s) = [j]" and p: "set (main_jobs p) \<subseteq> {j}"
    "length (main_jobs p) \<le> 1"
    and J: "job_ok J" "m_state J \<in> (if main_jobs p = [] then {Done, Failed, Cancelled} else {Ready, Cancelled})"
    "isTerminal (m_state (job_of s j)) \<Longrightarrow> isTerminal (m_state J)"
    and mk: "main_marks p ((job_of s)(j := J))"
  shows "loader_inv (s\<lparr>job_of := (job_of s)(j := J), main := p, manager := mgr\<rparr>)" (is "loader_inv ?s")
proof -
  note I = loader_invD[OF inv]
  have pj: "main_jobs p = [] \<or> main_jobs p = [j]" using p by (cases "main_jobs p") auto
  have d: "distinct (m_queue s)" "distinct (m_ready s)" "distinct (worker_jobs (worker s))"
    "j \<notin> set (m_queue s)" "j \<notin> set (m_ready s)" "j \<notin> set (worker_jobs (worker s))"
    using I(1) by (auto simp: places_def w)
  have lt: "j < created s" using I(2)[of j] by (simp add: places_def w)
  show ?thesis
  proof (rule loader_invI)
    fix k assume k': "k < created ?s"
    then have k: "k < created s" by simp
    show "m_state (job_of ?s k) \<in> states_at ?s k"
    proof (cases "k = j")
      case True
      then show ?thesis using J(2) d pj by (auto simp: states_at_def)
    next
      case False
      then have "states_at ?s k = states_at s k" using pj by (auto simp: states_at_def w)
      then show ?thesis using I(4)[OF k] False by simp
    qed
    show "\<not> isTerminal (m_state (job_of ?s k)) \<Longrightarrow> k \<in> set (m_jobs ?s)"
      using I(5)[OF k] J(3) by (auto split: if_split_asm)
  next
    show "place_marks (worker ?s) (job_of ?s)"
      using place_marks_other[OF I(7) d(6)] by simp
    show "distinct (places ?s)" using I(1) pj by (auto simp: places_def w)
    fix k assume "k \<in> set (places ?s)"
    then show "k < created ?s" using I(2)[of k] lt pj by (auto simp: places_def w)
  qed (use I J mk in auto)
qed

lemma main_move_same:
  assumes inv: "loader_inv s" and w: "main_jobs (main s) = [j]" and p: "set (main_jobs p) \<subseteq> {j}"
    "length (main_jobs p) \<le> 1"
    and J: "m_state (job_of s j) \<in> (if main_jobs p = [] then {Done, Failed, Cancelled} else {Ready, Cancelled})"
    and mk: "main_marks p (job_of s)"
  shows "loader_inv (s\<lparr>main := p\<rparr>)"
proof -
  have lt: "j < created s" using loader_invD(2)[OF inv, of j] by (simp add: places_def w)
  show ?thesis
    using main_move[OF inv w p loader_invD(3)[OF inv lt] J, of "manager s"] mk by simp
qed

lemma main_place_state:
  assumes "loader_inv s" "main_jobs (main s) = [j]"
  shows "j < created s" "job_ok (job_of s j)" "m_state (job_of s j) \<in> {Ready, Cancelled}"
proof -
  note I = loader_invD[OF assms(1)]
  show lt: "j < created s" using I(2)[of j] by (simp add: places_def assms(2))
  show "job_ok (job_of s j)" by (rule I(3)[OF lt])
  show "m_state (job_of s j) \<in> {Ready, Cancelled}"
    using I(4)[OF lt] I(1) by (auto simp: states_at_def places_def assms(2) split: if_split_asm)
qed

lemma main_empty_inv:
  assumes "loader_inv s" "main_jobs (main s) = []" "main_jobs p = []" "main_marks p (job_of s)"
  shows "loader_inv (s\<lparr>main := p\<rparr>)"
proof -
  have "states_at (s\<lparr>main := p\<rparr>) = states_at s" "places (s\<lparr>main := p\<rparr>) = places s"
    using assms(2,3) by (simp_all add: states_at_def places_def fun_eq_iff)
  then show ?thesis using assms by (simp add: loader_inv_def)
qed

lemma main_take_inv:
  assumes inv: "loader_inv s" and w: "main s = MUpdate c n" and q: "m_ready s = j # q"
  shows "loader_inv (s\<lparr>m_ready := q, main := MTaken j c n\<rparr>)" (is "loader_inv ?s")
proof -
  note I = loader_invD[OF inv]
  show ?thesis
  proof (rule loader_invI)
    show "distinct (places ?s)" using I(1) by (auto simp: places_def w q)
    fix k assume k': "k < created ?s"
    then have k: "k < created s" by simp
    show "m_state (job_of ?s k) \<in> states_at ?s k"
      using I(4)[OF k] I(1) by (auto simp: states_at_def places_def w q split: if_split_asm)
  next
    fix k assume "k \<in> set (places ?s)"
    then show "k < created ?s" using I(2)[of k] by (auto simp: places_def w q)
  qed (use I in auto)
qed

lemma sweep_jobs_keeps:
  "set (fst (sweep_jobs s js hist)) \<subseteq> set js"
  "j \<in> set js \<Longrightarrow> \<not> isFinished (job_of s j) \<Longrightarrow> j \<in> set (fst (sweep_jobs s js hist))"
  by (induction js arbitrary: hist) (auto simp: Let_def case_prod_beta)

lemma sweep_fields:
  "m_queue (sweep s) = m_queue s" "m_ready (sweep s) = m_ready s" "worker (sweep s) = worker s"
  "main (sweep s) = MIdle" "created (sweep s) = created s" "job_of (sweep s) = job_of s"
  "handles (sweep s) = handles s" "m_exit (sweep s) = m_exit s"
  "m_jobs (sweep s) = fst (sweep_jobs s (m_jobs s) (m_history s))"
  by (simp_all add: sweep_def split: prod.split)

lemma sweep_inv:
  assumes inv: "loader_inv s" and m: "main s = MSweep"
  shows "loader_inv (sweep s)"
  by (rule same_places[OF inv])
    (use loader_invD[OF inv] m sweep_jobs_keeps(1)[of s "m_jobs s" "m_history s"]
        sweep_jobs_keeps(2)[of _ "m_jobs s" s "m_history s"] in
      \<open>auto simp: sweep_fields isFinished_def\<close>)

lemma main_step_inv:
  assumes inv: "loader_inv s" and step: "main_step E M op s = Some s'"
  shows "loader_inv s'"
proof (cases "main_jobs (main s)")
  case Nil
  then consider "main s = MIdle" | c n where "main s = MUpdate c n" | "main s = MSweep" | "main s = MStopping"
    | "main s = MJoining" by (cases "main s") auto
  then show ?thesis
  proof cases
    case 1
    then have call: "main_call op s = Some s'" using step by (simp add: main_step_def)
    note I = loader_invD[OF inv]
    show ?thesis
    proof (cases op)
      case (SubmitFileRead p)
      then show ?thesis using call submit_inv[OF inv] new_job_ok(1,3)[of p] by auto
    next
      case (SubmitResource r)
      then show ?thesis using call submit_inv[OF inv] new_job_ok(2,4)[of r] by auto
    next
      case (SubmitFailedResource r e)
      then show ?thesis using call submitFailed_inv[OF inv] by auto
    next
      case (CancelJob j)
      then show ?thesis using call cancel_job_inv[OF inv 1] by (auto split: if_split_asm)
    next
      case (CancelPool p)
      then show ?thesis
        using call cancel_where_inv[OF inv 1] by (auto simp: cancelPool_def)
    next
      case CancelAll
      then show ?thesis
        using call cancel_where_inv[OF inv 1] by (auto simp: cancelAll_def)
    next
      case (ReleaseHandle j)
      then have s': "s' = s\<lparr>handles := removeAll j (handles s)\<rparr>" using call by simp
      show ?thesis by (rule same_places[OF inv]) (use I in \<open>auto simp: s'\<close>)
    next
      case (StartUpdate n)
      then show ?thesis using call main_empty_inv[OF inv Nil, of "MUpdate 0 n"] by auto
    next
      case StartStop
      then have s': "s' = (cancelAll s)\<lparr>main := MStopping\<rparr>" using call by simp
      have "loader_inv (cancelAll s)" "main (cancelAll s) = MIdle"
        using cancel_where_inv[OF inv 1] 1 by (simp_all add: cancelAll_def) (simp add: cancel_where_def)
      then show ?thesis unfolding s' by (intro main_empty_inv) simp_all
    next
      case Continue
      then show ?thesis using call by simp
    qed
  next
    case (2 c n)
    then show ?thesis
      using step main_empty_inv[OF inv Nil, of MSweep] main_take_inv[OF inv 2]
      by (auto simp: main_step_def split: if_split_asm list.split_asm)
  next
    case 3
    then show ?thesis using step sweep_inv[OF inv 3] by (auto simp: main_step_def)
  next
    case 4
    then have s': "s' = s\<lparr>m_exit := True, main := MJoining\<rparr>" using step by (simp add: main_step_def)
    show ?thesis by (rule same_places[OF inv]) (use loader_invD[OF inv] 4 in \<open>auto simp: s'\<close>)
  next
    case 5
    then show ?thesis
      using step main_empty_inv[OF inv Nil, of MIdle] by (auto simp: main_step_def split: if_split_asm)
  qed
next
  case (Cons j js)
  then have w: "main_jobs (main s) = [j]" by (cases "main s") auto
  note P = main_place_state[OF inv w] and K = loader_invD(8)[OF inv]
  note move = main_move[OF inv w] and go = main_move_same[OF inv w]
  have idle: "main s \<noteq> MIdle" using w by auto
  show ?thesis
  proof (cases "main s")
    case (MTaken k c n)
    with step w idle have s': "s' = s\<lparr>main := (if isFinished (job_of s j) then MUpdate c n else MChecked j c n)\<rparr>"
      by (auto simp: main_step_def)
    show ?thesis unfolding s' by (rule go) (use P in \<open>auto simp: isFinished_def\<close>)
  next
    case (MChecked k c n)
    with step w idle have s': "s' = s\<lparr>main := (if isCancelled (job_of s j) then MDropping j c n else MFinalize j c n)\<rparr>"
      by (auto simp: main_step_def)
    show ?thesis unfolding s' by (rule go) (use P in \<open>auto simp: isCancelled_ok\<close>)
  next
    case (MDropping k c n)
    with step w idle have s': "s' = s\<lparr>job_of := (job_of s)(j := setState Cancelled (job_of s j)),
        main := MUpdate c n, manager := manager s\<rparr>" by (auto simp: main_step_def update_job_def)
    show ?thesis unfolding s'
      by (rule move) (use P K MDropping w in \<open>auto simp: job_ok_steps job_ops\<close>)
  next
    case (MFinalize k c n)
    then obtain ok J mgr where f: "finalize E M (manager s) (job_of s j) = Some (ok, J, mgr)"
      and s': "s' = s\<lparr>job_of := (job_of s)(j := J), main := (if ok then MLoaded j c n else MUpdate (Suc c) n),
        manager := mgr\<rparr>"
      using step w idle by (auto simp: main_step_def update_job_def split: option.split_asm)
    consider (ok) "ok" "J = job_of s j" | (fail) e where "\<not> ok" "J = job_fail e (job_of s j)"
      using finalize_status[OF f] by blast
    then show ?thesis
    proof cases
      case ok
      show ?thesis unfolding s' by (rule move) (use P K MFinalize w ok in auto)
    next
      case fail
      show ?thesis unfolding s' by (rule move) (use P fail in \<open>auto simp: job_ok_steps job_ops\<close>)
    qed
  next
    case (MLoaded k c n)
    with step w idle have s': "s' = s\<lparr>job_of := (job_of s)(j := job_finish (job_of s j)),
        main := MUpdate (Suc c) n, manager := manager s\<rparr>" by (auto simp: main_step_def update_job_def)
    show ?thesis unfolding s'
      by (rule move) (use P in \<open>auto simp: job_ok_steps job_ops\<close>)
  qed (use w in simp_all)
qed

lemma loader_step_inv: "loader_step E M s s' \<Longrightarrow> loader_inv s \<Longrightarrow> loader_inv s'"
  by (auto elim!: loader_stepE intro: worker_step_inv main_step_inv)

lemma initial_inv: "loader_inv (initial_loader mgr)"
  by (simp add: loader_inv_def initial_loader_def places_def)

lemma reachable_induct:
  assumes r: "loader_reachable E M s" and base: "\<And>mgr. I (initial_loader mgr)"
    and step: "\<And>a b. loader_inv a \<Longrightarrow> I a \<Longrightarrow> loader_step E M a b \<Longrightarrow> I b"
  shows "loader_inv s \<and> I s"
proof -
  obtain mgr where "loader_run E M (initial_loader mgr) s"
    using r unfolding loader_reachable_def by blast
  then show ?thesis
  proof (rule loader_run_invariant[where I = "\<lambda>s. loader_inv s \<and> I s"])
    show "loader_inv (initial_loader mgr) \<and> I (initial_loader mgr)" by (simp add: initial_inv base)
    fix a b assume "loader_inv a \<and> I a" "loader_step E M a b"
    then show "loader_inv b \<and> I b" using loader_step_inv step by blast
  qed
qed

lemma reachable_inv: "loader_reachable E M s \<Longrightarrow> loader_inv s"
  using reachable_induct[of E M s "\<lambda>_. True"] by simp

subsection \<open>What a step does to the jobs\<close>

definition job_grows :: "job \<Rightarrow> job \<Rightarrow> bool" where
  "job_grows a b \<longleftrightarrow> (m_cancel_requested a \<longrightarrow> m_cancel_requested b)
     \<and> (isTerminal (m_state a) \<longrightarrow> m_state b = m_state a) \<and> m_kind b = m_kind a"

lemma job_grows_refl [simp]: "job_grows a a"
  by (simp add: job_grows_def)

lemma worker_step_grows:
  assumes inv: "loader_inv s" and step: "worker_step E (worker s) s = Some s'"
  shows "job_grows (job_of s k) (job_of s' k)"
proof (cases "worker_jobs (worker s)")
  case Nil
  then show ?thesis using step
    by (cases "worker s") (auto split: if_split_asm list.split_asm)
next
  case (Cons j js)
  then have w: "worker_jobs (worker s) = [j]" by (cases "worker s") auto
  note P = worker_place_state[OF inv w]
  have "job_of s' = job_of s \<or> (\<exists>J. job_of s' = (job_of s)(j := J) \<and> job_grows (job_of s j) J)"
    using step P w
    by (cases "worker s") (auto simp: worker_set_def update_job_def job_grows_def job_ops job_ok_def)
  then show ?thesis by auto
qed

lemma main_call_grows:
  "loader_inv s \<Longrightarrow> main_call op s = Some s' \<Longrightarrow> k < created s \<Longrightarrow> job_grows (job_of s k) (job_of s' k)"
  by (cases op) (auto simp: submit_def submitFailedResource_def Let_def cancelAll_def cancelPool_def
      cancel_where_def update_job_def job_grows_def job_ops split: if_split_asm)

lemma main_continue_grows:
  assumes inv: "loader_inv s" and step: "main_continue E M (main s) s = Some s'"
  shows "job_grows (job_of s k) (job_of s' k) \<and> created s' = created s"
proof (cases "main_jobs (main s)")
  case Nil
  then show ?thesis using step
    by (cases "main s") (auto simp: sweep_fields split: if_split_asm list.split_asm)
next
  case (Cons j js)
  then have w: "main_jobs (main s) = [j]" by (cases "main s") auto
  note P = main_place_state[OF inv w] and K = loader_invD(8)[OF inv]
  have "created s' = created s \<and> (job_of s' = job_of s \<or> (\<exists>J. job_of s' = (job_of s)(j := J) \<and> job_grows (job_of s j) J))"
  proof (cases "main s")
    case (MFinalize i c n)
    then obtain ok J mgr where f: "finalize E M (manager s) (job_of s j) = Some (ok, J, mgr)"
      and s': "job_of s' = (job_of s)(j := J)" "created s' = created s"
      using step w by (auto simp: update_job_def split: option.split_asm)
    have "job_grows (job_of s j) J"
      using finalize_status[OF f] P K MFinalize w by (auto simp: job_grows_def job_ops job_ok_def)
    then show ?thesis using s' by blast
  qed (use step P K w in \<open>auto simp: update_job_def job_grows_def job_ops job_ok_def\<close>)
  then show ?thesis by auto
qed

lemma loader_step_grows:
  assumes inv: "loader_inv s" and step: "loader_step E M s s'" and k: "k < created s"
  shows "job_grows (job_of s k) (job_of s' k) \<and> created s \<le> created s'"
  using step
proof (rule loader_stepE)
  assume "worker_step E (worker s) s = Some s'"
  then show ?thesis using worker_step_grows[OF inv] worker_keeps by force
next
  fix op assume m: "main_step E M op s = Some s'"
  show ?thesis
  proof (cases "main s = MIdle")
    case True
    then have c: "main_call op s = Some s'" using m by (simp add: main_step_def)
    have "created s \<le> created s'"
      using c by (cases op) (auto simp: submit_def submitFailedResource_def Let_def cancelAll_def
          cancelPool_def cancel_where_def update_job_def split: if_split_asm)
    then show ?thesis using main_call_grows[OF inv c k] by blast
  next
    case False
    then show ?thesis using m main_continue_grows[OF inv] by (simp add: main_step_def)
  qed
qed

lemma job_grows_trans: "job_grows a b \<Longrightarrow> job_grows b c \<Longrightarrow> job_grows a c"
  by (auto simp: job_grows_def)

lemma loader_run_grows:
  assumes "loader_run E M s s'" "loader_inv s" "k < created s"
  shows "loader_inv s' \<and> k < created s' \<and> job_grows (job_of s k) (job_of s' k)"
  using assms
proof (induction rule: loader_run.induct)
  case (Step a b c)
  then have b: "loader_inv b" "k < created b" "job_grows (job_of a k) (job_of b k)" by auto
  then show ?case
    using loader_step_inv[OF Step.hyps(2)] loader_step_grows[OF b(1) Step.hyps(2) b(2)] job_grows_trans
    by fastforce
qed simp

end
