(* ===== verification/ResourceManager.thy ===== *)
theory ResourceManager
  imports PoolLoading AsyncMain
begin

text \<open>
  The resource manager (\<open>GameResource/ResourceManager.cpp\<close>): the pools by id and by name, the
  lookup order, and the asynchronous loader it owns.  The whole state is a loader whose
  manager component is the \<open>resource_mgr\<close>.
\<close>

subsection \<open>State\<close>

record resource_mgr =
  m_nextPoolId :: u64
  m_resourcePools :: "(u64 \<times> resource_pool) list"
  m_resourcePoolNames :: "(string \<times> u64) list"
  m_lookupOrder :: "u64 list"

type_synonym engine_resources = "resource_mgr loader"

definition new_manager :: resource_mgr where
  "new_manager = \<lparr>m_nextPoolId = 1, m_resourcePools = [], m_resourcePoolNames = [], m_lookupOrder = []\<rparr>"

subsection \<open>Pools\<close>

definition GetResourcePool :: "u64 \<Rightarrow> resource_mgr \<Rightarrow> resource_pool option" where
  "GetResourcePool i m = map_of (m_resourcePools m) i"

definition GetResourcePoolNamed :: "string \<Rightarrow> resource_mgr \<Rightarrow> resource_pool option" where
  "GetResourcePoolNamed n m = (case map_of (m_resourcePoolNames m) n of
     None \<Rightarrow> None | Some i \<Rightarrow> GetResourcePool i m)"

definition GetResourcePools :: "resource_mgr \<Rightarrow> resource_pool list" where
  "GetResourcePools m = sort_key p_id (map snd (m_resourcePools m))"

definition GetResourcePoolGeneration :: "u64 \<Rightarrow> resource_mgr \<Rightarrow> u64" where
  "GetResourcePoolGeneration i m = (case GetResourcePool i m of None \<Rightarrow> 0 | Some p \<Rightarrow> p_generation p)"

text \<open>Id 0 is invalid; once the counter has wrapped to 0 no pool is created any more.\<close>

definition CreateResourcePool :: "string \<Rightarrow> resource_mgr \<Rightarrow> u64 \<times> resource_mgr" where
  "CreateResourcePool name m = (if name = [] \<or> m_nextPoolId m = 0 then (0, m)
     else if map_of (m_resourcePoolNames m) name \<noteq> None then (0, m)
     else let i = m_nextPoolId m in
       (i, m\<lparr>m_nextPoolId := i + 1, m_resourcePools := m_resourcePools m @ [(i, new_pool i name)],
            m_resourcePoolNames := m_resourcePoolNames m @ [(name, i)]\<rparr>))"

definition on_manager :: "(resource_mgr \<Rightarrow> resource_mgr) \<Rightarrow> engine_resources \<Rightarrow> engine_resources" where
  "on_manager f s = s\<lparr>manager := f (manager s)\<rparr>"

definition remove_pool :: "u64 \<Rightarrow> string \<Rightarrow> resource_mgr \<Rightarrow> resource_mgr" where
  "remove_pool i n m = m\<lparr>m_lookupOrder := removeAll i (m_lookupOrder m),
     m_resourcePoolNames := filter (\<lambda>e. fst e \<noteq> n) (m_resourcePoolNames m),
     m_resourcePools := filter (\<lambda>e. fst e \<noteq> i) (m_resourcePools m)\<rparr>"

definition DestroyResourcePool :: "u64 \<Rightarrow> engine_resources \<Rightarrow> bool \<times> engine_resources" where
  "DestroyResourcePool i s = (case GetResourcePool i (manager s) of
     None \<Rightarrow> (False, s)
   | Some p \<Rightarrow> (True, on_manager (remove_pool i (p_name p)) (cancelPool i s)))"

fun lookup_order_valid :: "resource_mgr \<Rightarrow> u64 list \<Rightarrow> u64 list \<Rightarrow> bool" where
  "lookup_order_valid m seen [] \<longleftrightarrow> True"
| "lookup_order_valid m seen (i # is) \<longleftrightarrow>
     GetResourcePool i m \<noteq> None \<and> i \<notin> set seen \<and> lookup_order_valid m (i # seen) is"

definition SetLookupOrder :: "u64 list \<Rightarrow> resource_mgr \<Rightarrow> bool \<times> resource_mgr" where
  "SetLookupOrder ord m = (if lookup_order_valid m [] ord then (True, m\<lparr>m_lookupOrder := ord\<rparr>) else (False, m))"

text \<open>A change of one pool in place.\<close>

definition change_pool :: "u64 \<Rightarrow> (resource_pool \<Rightarrow> resource_pool) \<Rightarrow> resource_mgr \<Rightarrow> resource_mgr" where
  "change_pool i f m = m\<lparr>m_resourcePools := map (\<lambda>e. if fst e = i then (fst e, f (snd e)) else e) (m_resourcePools m)\<rparr>"

text \<open>\<open>ResourcePool::Clear\<close>, with the cancellation of the pool's jobs.\<close>

definition ClearResourcePool :: "u64 \<Rightarrow> engine_resources \<Rightarrow> engine_resources" where
  "ClearResourcePool i s = on_manager (change_pool i pool_clear) (cancelPool i s)"

text \<open>\<open>ClearAllResource\<close> after the loader has been stopped.\<close>

definition clear_all_pools :: "resource_mgr \<Rightarrow> resource_mgr" where
  "clear_all_pools m = m\<lparr>m_lookupOrder := [], m_resourcePoolNames := [], m_resourcePools := []\<rparr>"

subsection \<open>Lookup through the order\<close>

fun find_in_order :: "resource_mgr \<Rightarrow> u64 list \<Rightarrow> (resource_pool \<Rightarrow> resource option) \<Rightarrow> resource option" where
  "find_in_order m [] getter = None"
| "find_in_order m (i # is) getter = (case GetResourcePool i m of
     None \<Rightarrow> find_in_order m is getter
   | Some p \<Rightarrow> (case getter p of Some r \<Rightarrow> Some r | None \<Rightarrow> find_in_order m is getter))"

definition FindResource :: "resource_type \<Rightarrow> string \<Rightarrow> resource_mgr \<Rightarrow> resource option" where
  "FindResource t name m = find_in_order m (m_lookupOrder m) (GetResource t name)"

definition FindVideo :: "string \<Rightarrow> resource_mgr \<Rightarrow> resource option" where
  "FindVideo name m = find_in_order m (m_lookupOrder m) (GetVideo name)"

subsection \<open>Asynchronous loads\<close>

definition SubmitAsyncResource :: "request \<Rightarrow> engine_resources \<Rightarrow> engine_resources" where
  "SubmitAsyncResource r s = (let
     r = r\<lparr>pool_generation := GetResourcePoolGeneration (pool_id r) (manager s)\<rparr>
   in if GetResourcePool (pool_id r) (manager s) = None
      then submitFailedResource r ''Can't load resource at this time.'' s
      else submit (resource_job r) s)"

fun pool_load :: "backend \<Rightarrow> load_command \<Rightarrow> resource_pool \<Rightarrow> load_result" where
  "pool_load B (LoadTexture n d f m) p = LoadTextureData B n d m p"
| "pool_load B (LoadVideo n d l) p = LoadVideoDecoder B n d l p"
| "pool_load B (CreateSprite n tx q an rc) p = CreateSpriteRes B n tx q an rc p"
| "pool_load B (CreateAnimationSprites n sl i an rc) p = CreateAnimationList B n sl i an rc p"
| "pool_load B (CreateAnimation n tx q c r i an rc) p = CreateAnimationRes B n tx q c r i an rc p"
| "pool_load B (LoadParticle n i sp an rc) p = LoadParticleInfo B n i sp an rc p"
| "pool_load B (LoadSoundEffect n d f) p = LoadSoundEffectDecoder B n d p"
| "pool_load B (LoadMusic n d f sp once) p = LoadMusicDecoder B n d sp once p"
| "pool_load B (LoadSpriteFontTexture n d f tp td m) p = LoadFancyFontData B n d f tp td m p"
| "pool_load B (LoadSpriteFont n d f td tp m) p = LoadHgeFontData B n d f td tp m p"
| "pool_load B (LoadTTFFontData n d wh) p = LoadTTFFontBytes B n (Some d) wh p"
| "pool_load B (LoadTTFFontFile n f wh) p = LoadTTFFontPath B n f wh p"
| "pool_load B (LoadTrueTypeFont n fs) p = LoadTrueTypeFonts B n fs p"
| "pool_load B (LoadFXFromSource n s f) p = LoadFXSource B n s p"
| "pool_load B (LoadModel n f) p = LoadModelFile B n f p"

definition manager_load :: "backend \<Rightarrow> u64 \<Rightarrow> load_command \<Rightarrow> resource_mgr \<Rightarrow> bool \<times> resource_mgr" where
  "manager_load B i c m = (case GetResourcePool i m of
     None \<Rightarrow> (False, m)
   | Some p \<Rightarrow> (fst (pool_load B c p), change_pool i (\<lambda>_. snd (pool_load B c p)) m))"

definition mgr_env :: "backend \<Rightarrow> resource_mgr manager_env" where
  "mgr_env B = \<lparr>has_pool = (\<lambda>m i. GetResourcePool i m \<noteq> None),
     generation_of = (\<lambda>m i. GetResourcePoolGeneration i m), run_load = manager_load B\<rparr>"

subsection \<open>The invariant of the manager\<close>

definition mgr_inv :: "resource_mgr \<Rightarrow> bool" where
  "mgr_inv m \<longleftrightarrow> distinct (map fst (m_resourcePools m)) \<and> distinct (map fst (m_resourcePoolNames m))
     \<and> (\<forall>i p. map_of (m_resourcePools m) i = Some p \<longrightarrow>
          p_id p = i \<and> i \<noteq> 0 \<and> (m_nextPoolId m = 0 \<or> i < m_nextPoolId m) \<and> pool_ok p
          \<and> map_of (m_resourcePoolNames m) (p_name p) = Some i)
     \<and> (\<forall>n i. map_of (m_resourcePoolNames m) n = Some i \<longrightarrow>
          (\<exists>p. map_of (m_resourcePools m) i = Some p \<and> p_name p = n))
     \<and> distinct (m_lookupOrder m) \<and> (\<forall>i \<in> set (m_lookupOrder m). GetResourcePool i m \<noteq> None)"

lemma pool_ok_new: "pool_ok (new_pool i n)"
  by (simp add: pool_ok_def dict_ok_def)

lemma pool_ok_clear: "pool_ok (pool_clear p)"
  by (simp add: pool_ok_def dict_ok_def)

lemma map_of_filter_key: "map_of (filter (\<lambda>e. fst e \<noteq> k) d) = (map_of d)(k := None)"
  by (induction d) (auto simp: fun_eq_iff)

lemma map_of_change:
  "map_of (map (\<lambda>e. if fst e = i then (fst e, f (snd e)) else e) d)
    = (\<lambda>j. if j = i then map_option f (map_of d i) else map_of d j)"
  by (induction d) (auto simp: fun_eq_iff)

lemma keys_change: "map (fst \<circ> (\<lambda>e. if fst e = i then (fst e, f (snd e)) else e)) d = map fst d"
  by (induction d) auto

lemma GetResourcePool_change:
  "GetResourcePool j (change_pool i f m) = (if j = i then map_option f (GetResourcePool i m) else GetResourcePool j m)"
  by (simp add: GetResourcePool_def change_pool_def map_of_change)

lemma new_manager_inv: "mgr_inv new_manager"
  by (simp add: mgr_inv_def new_manager_def)

lemma mgr_inv_pool:
  assumes "mgr_inv m" "GetResourcePool i m = Some p"
  shows "p_id p = i" "i \<noteq> 0" "m_nextPoolId m = 0 \<or> i < m_nextPoolId m" "pool_ok p"
    "map_of (m_resourcePoolNames m) (p_name p) = Some i"
  using assms unfolding mgr_inv_def GetResourcePool_def by blast+

lemma mgr_inv_name:
  assumes "mgr_inv m" "map_of (m_resourcePoolNames m) n = Some i"
  shows "\<exists>p. GetResourcePool i m = Some p \<and> p_name p = n"
  using assms unfolding mgr_inv_def GetResourcePool_def by blast

lemma mgr_invI:
  assumes "distinct (map fst (m_resourcePools m))" "distinct (map fst (m_resourcePoolNames m))"
    "\<And>i p. GetResourcePool i m = Some p \<Longrightarrow> p_id p = i \<and> i \<noteq> 0
       \<and> (m_nextPoolId m = 0 \<or> i < m_nextPoolId m) \<and> pool_ok p
       \<and> map_of (m_resourcePoolNames m) (p_name p) = Some i"
    "\<And>n i. map_of (m_resourcePoolNames m) n = Some i \<Longrightarrow> \<exists>p. GetResourcePool i m = Some p \<and> p_name p = n"
    "distinct (m_lookupOrder m)" "\<And>i. i \<in> set (m_lookupOrder m) \<Longrightarrow> GetResourcePool i m \<noteq> None"
  shows "mgr_inv m"
  using assms unfolding mgr_inv_def GetResourcePool_def by blast

lemma CreateResourcePool_inv:
  assumes inv: "mgr_inv m"
  shows "mgr_inv (snd (CreateResourcePool name m))"
proof (cases "name = [] \<or> m_nextPoolId m = 0 \<or> map_of (m_resourcePoolNames m) name \<noteq> None")
  case True
  then show ?thesis using inv by (auto simp: CreateResourcePool_def)
next
  case False
  define i where "i = m_nextPoolId m"
  have i0: "i \<noteq> 0" using False by (simp add: i_def)
  have below: "j < i" if "GetResourcePool j m = Some p" for j p
    using mgr_inv_pool(3)[OF inv that] i0 by (simp add: i_def)
  have fresh: "GetResourcePool i m = None" using below by (cases "GetResourcePool i m") auto
  have lt: "i + 1 = 0 \<or> j < i + 1" if "j \<le> i" for j
  proof (cases "i + 1 = 0")
    case False
    then have "i < i + 1" by (simp add: word_less_nat_alt) (metis add.commute lessI unatSuc)
    then show ?thesis using that by auto
  qed simp
  define m' where "m' = snd (CreateResourcePool name m)"
  have m': "m_nextPoolId m' = i + 1" "m_resourcePools m' = m_resourcePools m @ [(i, new_pool i name)]"
    "m_resourcePoolNames m' = m_resourcePoolNames m @ [(name, i)]" "m_lookupOrder m' = m_lookupOrder m"
    using False by (simp_all add: m'_def CreateResourcePool_def i_def Let_def)
  have pools: "GetResourcePool j m' = (if j = i then Some (new_pool i name) else GetResourcePool j m)" for j
    using fresh by (auto simp: GetResourcePool_def m' map_add_def split: option.split)
  have names: "map_of (m_resourcePoolNames m') = (map_of (m_resourcePoolNames m))(name \<mapsto> i)"
    using False by (auto simp: m' map_add_def fun_eq_iff split: option.split)
  have np: "p_id (new_pool i name) = i" "p_name (new_pool i name) = name" by (simp_all add: new_pool_def)
  show ?thesis
    unfolding m'_def[symmetric]
  proof (rule mgr_invI)
    show "distinct (map fst (m_resourcePools m'))"
      using inv fresh by (simp add: m' mgr_inv_def GetResourcePool_def map_of_eq_None_iff)
    show "distinct (map fst (m_resourcePoolNames m'))"
      using inv False by (simp add: m' mgr_inv_def map_of_eq_None_iff)
    show "distinct (m_lookupOrder m')" using inv by (simp add: m' mgr_inv_def)
    show "GetResourcePool j m' \<noteq> None" if "j \<in> set (m_lookupOrder m')" for j
      using inv that by (auto simp: pools m' mgr_inv_def)
    show "\<exists>p. GetResourcePool j m' = Some p \<and> p_name p = n"
      if n: "map_of (m_resourcePoolNames m') n = Some j" for n j
    proof (cases "n = name")
      case True
      then show ?thesis using n np by (simp add: names pools)
    next
      case ne: False
      then obtain p where "GetResourcePool j m = Some p" "p_name p = n"
        using n mgr_inv_name[OF inv, of n j] by (auto simp: names)
      then show ?thesis using fresh by (auto simp: pools)
    qed
    fix j p assume p: "GetResourcePool j m' = Some p"
    show "p_id p = j \<and> j \<noteq> 0 \<and> (m_nextPoolId m' = 0 \<or> j < m_nextPoolId m') \<and> pool_ok p
      \<and> map_of (m_resourcePoolNames m') (p_name p) = Some j"
    proof (cases "j = i")
      case True
      then show ?thesis using p np i0 lt[of i] pool_ok_new[of i name] by (simp add: pools names m'(1))
    next
      case ne: False
      then have q: "GetResourcePool j m = Some p" using p by (simp add: pools)
      moreover have "p_name p \<noteq> name" using mgr_inv_pool(5)[OF inv q] False by auto
      ultimately show ?thesis
        using mgr_inv_pool[OF inv q] lt[of j] below[OF q] by (simp add: names m'(1))
    qed
  qed
qed

lemma change_pool_inv:
  assumes inv: "mgr_inv m"
    and same: "\<And>p. GetResourcePool i m = Some p \<Longrightarrow>
      p_id (f p) = p_id p \<and> p_name (f p) = p_name p \<and> (pool_ok p \<longrightarrow> pool_ok (f p))"
  shows "mgr_inv (change_pool i f m)"
proof (rule mgr_invI)
  have simps: "m_resourcePoolNames (change_pool i f m) = m_resourcePoolNames m"
    "m_nextPoolId (change_pool i f m) = m_nextPoolId m" "m_lookupOrder (change_pool i f m) = m_lookupOrder m"
    by (simp_all add: change_pool_def)
  show "distinct (map fst (m_resourcePools (change_pool i f m)))"
    using inv by (simp add: change_pool_def keys_change mgr_inv_def)
  show "distinct (map fst (m_resourcePoolNames (change_pool i f m)))" "distinct (m_lookupOrder (change_pool i f m))"
    using inv by (simp_all add: simps mgr_inv_def)
  show "GetResourcePool j (change_pool i f m) \<noteq> None" if "j \<in> set (m_lookupOrder (change_pool i f m))" for j
    using inv that by (auto simp: simps GetResourcePool_change mgr_inv_def)
  show "\<exists>p. GetResourcePool j (change_pool i f m) = Some p \<and> p_name p = n"
    if "map_of (m_resourcePoolNames (change_pool i f m)) n = Some j" for n j
    using mgr_inv_name[OF inv] that same by (fastforce simp: simps GetResourcePool_change)
  fix j p assume p: "GetResourcePool j (change_pool i f m) = Some p"
  then obtain q where q: "GetResourcePool j m = Some q" "p = q \<or> j = i \<and> p = f q"
    by (auto simp: GetResourcePool_change split: if_split_asm)
  then show "p_id p = j \<and> j \<noteq> 0 \<and> (m_nextPoolId (change_pool i f m) = 0 \<or> j < m_nextPoolId (change_pool i f m))
      \<and> pool_ok p \<and> map_of (m_resourcePoolNames (change_pool i f m)) (p_name p) = Some j"
    using mgr_inv_pool[OF inv q(1)] same[of q] by (auto simp: simps)
qed

lemma remove_pool_inv:
  assumes inv: "mgr_inv m" and p: "GetResourcePool i m = Some p"
  shows "mgr_inv (remove_pool i (p_name p) m)"
proof (rule mgr_invI)
  let ?m = "remove_pool i (p_name p) m"
  have get: "GetResourcePool j ?m = (if j = i then None else GetResourcePool j m)" for j
    by (simp add: GetResourcePool_def remove_pool_def map_of_filter_key)
  have names: "map_of (m_resourcePoolNames ?m) = (map_of (m_resourcePoolNames m))(p_name p := None)"
    by (simp add: remove_pool_def map_of_filter_key)
  show "distinct (map fst (m_resourcePools ?m))" "distinct (map fst (m_resourcePoolNames ?m))"
    "distinct (m_lookupOrder ?m)"
    using inv by (simp_all add: remove_pool_def mgr_inv_def distinct_map_filter distinct_removeAll)
  show "GetResourcePool j ?m \<noteq> None" if "j \<in> set (m_lookupOrder ?m)" for j
  proof -
    have "j \<in> set (m_lookupOrder m)" "j \<noteq> i" using that by (auto simp: remove_pool_def)
    then show ?thesis using inv by (simp add: get mgr_inv_def)
  qed
  show "\<exists>q. GetResourcePool j ?m = Some q \<and> p_name q = n" if "map_of (m_resourcePoolNames ?m) n = Some j" for n j
    using that mgr_inv_name[OF inv, of n j] p by (auto simp: names get split: if_split_asm)
  fix j q assume q: "GetResourcePool j ?m = Some q"
  then have j: "j \<noteq> i" "GetResourcePool j m = Some q" by (auto simp: get split: if_split_asm)
  have "p_name q \<noteq> p_name p" using mgr_inv_pool(5)[OF inv j(2)] mgr_inv_pool(5)[OF inv p] j(1) by auto
  then show "p_id q = j \<and> j \<noteq> 0 \<and> (m_nextPoolId ?m = 0 \<or> j < m_nextPoolId ?m) \<and> pool_ok q
      \<and> map_of (m_resourcePoolNames ?m) (p_name q) = Some j"
    using mgr_inv_pool[OF inv j(2)] by (simp add: names) (simp add: remove_pool_def)
qed

lemma clear_all_inv: "mgr_inv m \<Longrightarrow> mgr_inv (clear_all_pools m)"
  by (simp add: mgr_inv_def clear_all_pools_def)

lemma lookup_order_valid_iff:
  "lookup_order_valid m seen is \<longleftrightarrow> distinct is \<and> set is \<inter> set seen = {}
     \<and> (\<forall>i \<in> set is. GetResourcePool i m \<noteq> None)"
  by (induction "is" arbitrary: seen) auto

lemma SetLookupOrder_inv: "mgr_inv m \<Longrightarrow> mgr_inv (snd (SetLookupOrder ord m))"
  by (auto simp: SetLookupOrder_def lookup_order_valid_iff mgr_inv_def GetResourcePool_def)

subsection \<open>Loads of the manager\<close>

fun command_type :: "load_command \<Rightarrow> resource_type" where
  "command_type (LoadTexture n d f m) = TTexture"
| "command_type (LoadVideo n d l) = TTexture"
| "command_type (CreateSprite n tx q an rc) = TSprite"
| "command_type (CreateAnimationSprites n sl i an rc) = TAnimation"
| "command_type (CreateAnimation n tx q c r i an rc) = TAnimation"
| "command_type (LoadParticle n i sp an rc) = TParticle"
| "command_type (LoadSoundEffect n d f) = TSoundEffect"
| "command_type (LoadMusic n d f sp once) = TMusic"
| "command_type (LoadSpriteFontTexture n d f tp td m) = TSpriteFont"
| "command_type (LoadSpriteFont n d f td tp m) = TSpriteFont"
| "command_type (LoadTTFFontData n d wh) = TTrueTypeFont"
| "command_type (LoadTTFFontFile n f wh) = TTrueTypeFont"
| "command_type (LoadTrueTypeFont n fs) = TTrueTypeFont"
| "command_type (LoadFXFromSource n s f) = TFX"
| "command_type (LoadModel n f) = TModel"

fun command_name :: "load_command \<Rightarrow> string" where
  "command_name (LoadTexture n d f m) = n"
| "command_name (LoadVideo n d l) = n"
| "command_name (CreateSprite n tx q an rc) = n"
| "command_name (CreateAnimationSprites n sl i an rc) = n"
| "command_name (CreateAnimation n tx q c r i an rc) = n"
| "command_name (LoadParticle n i sp an rc) = n"
| "command_name (LoadSoundEffect n d f) = n"
| "command_name (LoadMusic n d f sp once) = n"
| "command_name (LoadSpriteFontTexture n d f tp td m) = n"
| "command_name (LoadSpriteFont n d f td tp m) = n"
| "command_name (LoadTTFFontData n d wh) = n"
| "command_name (LoadTTFFontFile n f wh) = n"
| "command_name (LoadTrueTypeFont n fs) = n"
| "command_name (LoadFXFromSource n s f) = n"
| "command_name (LoadModel n f) = n"

text \<open>A load with a fixed name, in the words of the contract.\<close>

definition entry_load :: "resource_type \<Rightarrow> string \<Rightarrow> resource_pool \<Rightarrow> load_result \<Rightarrow> bool" where
  "entry_load t n p res \<longleftrightarrow>
     (map_of (dict_of t p) n \<noteq> None \<longrightarrow> snd res = p) \<and> (\<not> fst res \<longrightarrow> snd res = p)
     \<and> (fst res \<longrightarrow> map_of (dict_of t p) n = None \<longrightarrow> adds_entry t n p (snd res))"

lemma pool_loading_entry: "pool_loading t load \<Longrightarrow> entry_load t n p (load n p)"
  by (simp add: pool_loading_def entry_load_def)

lemma pool_load_entry: "entry_load (command_type c) (command_name c) p (pool_load B c p)"
  by (cases c) (simp_all add: pool_loading_entry
      pool_loading_entry[OF texture_data.pool_loading_axioms] pool_loading_entry[OF video_decoder.pool_loading_axioms]
      pool_loading_entry[OF sprite_load.pool_loading_axioms] pool_loading_entry[OF animation_list.pool_loading_axioms]
      pool_loading_entry[OF animation_load.pool_loading_axioms] pool_loading_entry[OF particle_info.pool_loading_axioms]
      pool_loading_entry[OF sound_decoder.pool_loading_axioms] pool_loading_entry[OF music_decoder.pool_loading_axioms]
      pool_loading_entry[OF fancy_data.pool_loading_axioms] pool_loading_entry[OF hge_data.pool_loading_axioms]
      pool_loading_entry[OF ttf_bytes.pool_loading_axioms] pool_loading_entry[OF ttf_path.pool_loading_axioms]
      pool_loading_entry[OF ttf_list.pool_loading_axioms] pool_loading_entry[OF fx_source.pool_loading_axioms]
      pool_loading_entry[OF model_load.pool_loading_axioms])

end
