(* ===== verification/ResourceEngine.thy ===== *)
theory ResourceEngine
  imports ResourceManager
begin

text \<open>
  The resource manager and its loader together: the step relation of everything the engine does
  with them, the invariant, and what steps keep of jobs and of dead pool ids.
\<close>

subsection \<open>Steps\<close>

text \<open>
  A synchronous load stands for any function that meets the contract of the load functions, which
  each of them has been shown to meet.
\<close>

inductive engine_step :: "work_env \<Rightarrow> backend \<Rightarrow> engine_resources \<Rightarrow> engine_resources \<Rightarrow> bool" for E B where
  Loader: "loader_step E (mgr_env B) s s' \<Longrightarrow> engine_step E B s s'"
| Create: "main s = MIdle \<Longrightarrow> engine_step E B s (on_manager (\<lambda>m. snd (CreateResourcePool n m)) s)"
| Destroy: "main s = MIdle \<Longrightarrow> engine_step E B s (snd (DestroyResourcePool i s))"
| Order: "main s = MIdle \<Longrightarrow> engine_step E B s (on_manager (\<lambda>m. snd (SetLookupOrder ord m)) s)"
| Clear: "main s = MIdle \<Longrightarrow> engine_step E B s (ClearResourcePool i s)"
| Remove: "main s = MIdle \<Longrightarrow> engine_step E B s (on_manager (change_pool i (RemoveResource t n)) s)"
| Load: "main s = MIdle \<Longrightarrow> pool_loading t load \<Longrightarrow>
    engine_step E B s (on_manager (change_pool i (\<lambda>p. snd (load n p))) s)"
| ClearAll: "main s = MIdle \<Longrightarrow> m_exit s \<Longrightarrow> engine_step E B s (on_manager clear_all_pools s)"

inductive_cases engine_stepE: "engine_step E B s s'"

definition engine_run :: "work_env \<Rightarrow> backend \<Rightarrow> engine_resources \<Rightarrow> engine_resources \<Rightarrow> bool" where
  "engine_run E B = (engine_step E B)\<^sup>*\<^sup>*"

definition engine_reachable :: "work_env \<Rightarrow> backend \<Rightarrow> engine_resources \<Rightarrow> bool" where
  "engine_reachable E B s \<longleftrightarrow> engine_run E B (initial_loader new_manager) s"

lemma engine_run_induct [consumes 1, case_names start step]:
  assumes "engine_run E B s s'" "I s" "\<And>a b. I a \<Longrightarrow> engine_step E B a b \<Longrightarrow> I b"
  shows "I s'"
  using assms(1) unfolding engine_run_def by (induction rule: rtranclp_induct) (use assms in auto)

lemma engine_run_trans: "engine_run E B a b \<Longrightarrow> engine_run E B b c \<Longrightarrow> engine_run E B a c"
  by (simp add: engine_run_def)

lemma engine_run_step: "engine_step E B a b \<Longrightarrow> engine_run E B a b"
  by (simp add: engine_run_def r_into_rtranclp)

text \<open>An asynchronous submission is a call of the loader.\<close>

lemma submit_async_step:
  assumes "main s = MIdle"
  shows "engine_step E B s (SubmitAsyncResource r s)"
proof -
  let ?r = "r\<lparr>pool_generation := GetResourcePoolGeneration (pool_id r) (manager s)\<rparr>"
  have "SubmitAsyncResource r s = submitFailedResource ?r ''Can't load resource at this time.'' s
      \<or> SubmitAsyncResource r s = submit (resource_job ?r) s"
    by (simp add: SubmitAsyncResource_def Let_def)
  moreover have "main_step E (mgr_env B) (SubmitFailedResource ?r m) s = Some (submitFailedResource ?r m s)"
    "main_step E (mgr_env B) (SubmitResource ?r) s = Some (submit (resource_job ?r) s)" for m
    using assms by (simp_all add: main_step_def)
  ultimately show ?thesis by (metis engine_step.Loader loader_step.Main)
qed

subsection \<open>What a step changes in the manager\<close>

lemma loader_step_manager:
  assumes "loader_step E M s s'"
  shows "manager s' = manager s \<or> (\<exists>i c. manager s' = snd (run_load M i c (manager s)))"
  using assms
proof (rule loader_stepE)
  assume "worker_step E (worker s) s = Some s'"
  then show ?thesis using worker_keeps by metis
next
  fix op assume m: "main_step E M op s = Some s'"
  show ?thesis
  proof (cases "main s = MIdle")
    case True
    then have "main_call op s = Some s'" using m by (simp add: main_step_def)
    then have "manager s' = manager s"
      by (cases op) (auto simp: submit_def submitFailedResource_def Let_def cancelAll_def
          cancelPool_def cancel_where_def update_job_def split: if_split_asm)
    then show ?thesis ..
  next
    case False
    then have c: "main_continue E M (main s) s = Some s'" using m by (simp add: main_step_def)
    show ?thesis
    proof (cases "main s")
      case (MFinalize j c n)
      then obtain ok J mgr where f: "finalize E M (manager s) (job_of s j) = Some (ok, J, mgr)"
        and "manager s' = mgr"
        using c by (auto split: option.split_asm)
      then show ?thesis
        by (auto simp: finalize_def Let_def split: if_split_asm option.split_asm sum.split_asm
            prod.split_asm bool.split_asm) (metis snd_conv)+
    qed (use c in \<open>auto simp: update_job_def sweep_def split: if_split_asm list.split_asm prod.split\<close>)
  qed
qed

lemma GetResourcePool_load:
  "GetResourcePool j (snd (manager_load B i c m)) = (case GetResourcePool j m of
     None \<Rightarrow> None | Some p \<Rightarrow> Some (if j = i then snd (pool_load B c p) else p))"
  by (auto simp: manager_load_def GetResourcePool_change split: option.split)

lemma pool_load_keeps:
  "p_id (snd (pool_load B c p)) = p_id p" "p_name (snd (pool_load B c p)) = p_name p"
  "p_generation (snd (pool_load B c p)) = p_generation p"
  "pool_ok p \<Longrightarrow> pool_ok (snd (pool_load B c p))"
proof -
  have "snd (pool_load B c p) = p \<or> adds_entry (command_type c) (command_name c) p (snd (pool_load B c p))"
    using pool_load_entry[of c p B] by (auto simp: entry_load_def)
  then show "p_id (snd (pool_load B c p)) = p_id p" "p_name (snd (pool_load B c p)) = p_name p"
    "p_generation (snd (pool_load B c p)) = p_generation p"
    "pool_ok p \<Longrightarrow> pool_ok (snd (pool_load B c p))"
    by (auto simp: adds_entry_def pool_ok_def dict_ok_emplace)
qed

lemma manager_load_inv: "mgr_inv m \<Longrightarrow> mgr_inv (snd (manager_load B i c m))"
  by (auto simp: manager_load_def pool_load_keeps intro!: change_pool_inv split: option.split)

lemma RemoveResource_keeps:
  "p_id (RemoveResource t n p) = p_id p" "p_name (RemoveResource t n p) = p_name p"
  "pool_ok p \<Longrightarrow> pool_ok (RemoveResource t n p)"
  by (auto simp: RemoveResource_def removeResource_def pool_ok_def dict_ok_erase)

lemma pool_clear_keeps: "p_id (pool_clear p) = p_id p" "p_name (pool_clear p) = p_name p"
  by (simp_all add: pool_clear_def)

text \<open>The manager of a state reached in one step.\<close>

inductive manager_step :: "backend \<Rightarrow> resource_mgr \<Rightarrow> resource_mgr \<Rightarrow> bool" for B where
  "manager_step B m m"
| "manager_step B m (snd (manager_load B i c m))"
| "manager_step B m (snd (CreateResourcePool n m))"
| "GetResourcePool i m = Some p \<Longrightarrow> manager_step B m (remove_pool i (p_name p) m)"
| "manager_step B m (snd (SetLookupOrder ord m))"
| "manager_step B m (change_pool i pool_clear m)"
| "manager_step B m (change_pool i (RemoveResource t n) m)"
| "pool_loading t load \<Longrightarrow> manager_step B m (change_pool i (\<lambda>p. snd (load n p)) m)"
| "manager_step B m (clear_all_pools m)"

lemma engine_step_manager:
  assumes "engine_step E B s s'"
  shows "manager_step B (manager s) (manager s')"
  using assms
proof (rule engine_stepE)
  assume "loader_step E (mgr_env B) s s'"
  then show ?thesis
    using loader_step_manager[of E "mgr_env B" s s'] by (auto simp: mgr_env_def intro: manager_step.intros)
next
  fix i assume "s' = snd (DestroyResourcePool i s)"
  then show ?thesis
    by (auto simp: DestroyResourcePool_def on_manager_def cancelPool_def cancel_where_def
        intro: manager_step.intros split: option.split)
qed (auto simp: on_manager_def ClearResourcePool_def cancelPool_def cancel_where_def intro: manager_step.intros)

lemma manager_step_inv: "manager_step B m m' \<Longrightarrow> mgr_inv m \<Longrightarrow> mgr_inv m'"
proof (induction rule: manager_step.induct)
  case (8 t load m i n)
  note keeps = pool_loading.identity_kept[OF 8(1)] pool_loading.pool_ok_kept[OF 8(1)]
  show ?case by (rule change_pool_inv[OF 8(2)]) (simp add: keeps)
qed (auto intro: manager_load_inv CreateResourcePool_inv remove_pool_inv SetLookupOrder_inv clear_all_inv
    change_pool_inv simp: pool_clear_keeps RemoveResource_keeps pool_ok_clear)

subsection \<open>The loader inside the engine\<close>

lemma on_manager_inv [simp]: "loader_inv (on_manager f s) \<longleftrightarrow> loader_inv s"
  by (simp add: loader_inv_def on_manager_def places_def states_at_def)

lemma on_manager_fields [simp]:
  "job_of (on_manager f s) = job_of s" "created (on_manager f s) = created s"
  "main (on_manager f s) = main s" "m_jobs (on_manager f s) = m_jobs s"
  "manager (on_manager f s) = f (manager s)"
  by (simp_all add: on_manager_def)

lemma cancelPool_fields [simp]:
  "created (cancelPool i s) = created s" "main (cancelPool i s) = main s"
  "manager (cancelPool i s) = manager s" "m_jobs (cancelPool i s) = m_jobs s"
  by (simp_all add: cancelPool_def cancel_where_def)

lemma cancelPool_step: "main s = MIdle \<Longrightarrow> loader_step E M s (cancelPool i s)"
  by (rule loader_step.Main[of _ _ "CancelPool i"]) (simp add: main_step_def)

lemma cancelPool_grows:
  assumes "loader_inv s" "main s = MIdle" "k < created s"
  shows "loader_inv (cancelPool i s) \<and> job_grows (job_of s k) (job_of (cancelPool i s) k)"
  using loader_step_inv[OF cancelPool_step[OF assms(2)] assms(1)]
    loader_step_grows[OF assms(1) cancelPool_step[OF assms(2)] assms(3)] by blast

lemma cancelPool_inv:
  "loader_inv s \<Longrightarrow> main s = MIdle \<Longrightarrow> loader_inv (cancelPool i s)"
  using loader_step_inv[OF cancelPool_step] by blast

lemma engine_step_jobs:
  assumes "engine_step E B s s'" and inv: "loader_inv s"
  shows "loader_inv s' \<and> created s \<le> created s'
    \<and> (\<forall>k < created s. job_grows (job_of s k) (job_of s' k))"
  using assms(1)
proof (rule engine_stepE)
  assume st: "loader_step E (mgr_env B) s s'"
  have "created s \<le> created s'"
    using loader_step_grows[OF inv st, of "created s - 1"] by (cases "created s") auto
  then show ?thesis using loader_step_inv[OF st inv] loader_step_grows[OF inv st] by blast
next
  fix i assume "main s = MIdle" "s' = snd (DestroyResourcePool i s)"
  then show ?thesis
    using inv cancelPool_inv[OF inv] cancelPool_grows[OF inv] by (auto simp: DestroyResourcePool_def split: option.split)
next
  fix i assume "main s = MIdle" "s' = ClearResourcePool i s"
  then show ?thesis
    using inv cancelPool_inv[OF inv] cancelPool_grows[OF inv] by (auto simp: ClearResourcePool_def)
qed (use inv in auto)

definition engine_inv :: "engine_resources \<Rightarrow> bool" where
  "engine_inv s \<longleftrightarrow> loader_inv s \<and> mgr_inv (manager s)"

lemma engine_step_inv: "engine_step E B s s' \<Longrightarrow> engine_inv s \<Longrightarrow> engine_inv s'"
  using engine_step_jobs[of E B s s'] manager_step_inv[OF engine_step_manager, of E B s s']
  by (simp add: engine_inv_def)

lemma engine_run_inv: "engine_run E B s s' \<Longrightarrow> engine_inv s \<Longrightarrow> engine_inv s'"
  by (induction rule: engine_run_induct) (auto intro: engine_step_inv)

lemma engine_initial_inv: "engine_inv (initial_loader new_manager)"
  by (simp add: engine_inv_def initial_inv) (simp add: initial_loader_def new_manager_inv)

lemma engine_reachable_inv: "engine_reachable E B s \<Longrightarrow> engine_inv s"
  using engine_run_inv engine_initial_inv unfolding engine_reachable_def by blast

lemma engine_run_jobs:
  assumes "engine_run E B s s'" "loader_inv s" "k < created s"
  shows "loader_inv s' \<and> k < created s' \<and> job_grows (job_of s k) (job_of s' k)"
  using assms(1)
proof (induction rule: engine_run_induct)
  case start
  then show ?case using assms by simp
next
  case (step a b)
  then show ?case using engine_step_jobs[of E B a b] job_grows_trans by fastforce
qed

subsection \<open>Ids\<close>

text \<open>An id that was given out.\<close>

definition issued :: "u64 \<Rightarrow> resource_mgr \<Rightarrow> bool" where
  "issued i m \<longleftrightarrow> i \<noteq> 0 \<and> (m_nextPoolId m = 0 \<or> i < m_nextPoolId m)"

lemma successor_above:
  fixes i j :: u64
  assumes "j \<le> i"
  shows "i + 1 = 0 \<or> j < i + 1"
proof (cases "i + 1 = 0")
  case False
  then have "i < i + 1" by (simp add: word_less_nat_alt) (metis add.commute lessI unatSuc)
  then show ?thesis using assms by auto
qed simp

lemma change_pool_counter [simp]: "m_nextPoolId (change_pool i f m) = m_nextPoolId m"
  by (simp add: change_pool_def)

lemma create_fields:
  "GetResourcePool j (snd (CreateResourcePool n m)) =
     (if j = fst (CreateResourcePool n m) \<and> j \<noteq> 0 \<and> GetResourcePool j m = None
      then Some (new_pool j n) else GetResourcePool j m)"
  by (auto simp: CreateResourcePool_def Let_def GetResourcePool_def map_add_def split: option.split)

lemma create_result:
  "fst (CreateResourcePool n m) = m_nextPoolId m \<and> m_nextPoolId m \<noteq> 0 \<or> fst (CreateResourcePool n m) = 0"
  by (simp add: CreateResourcePool_def Let_def)

lemma issued_not_created: "issued i m \<Longrightarrow> fst (CreateResourcePool n m) \<noteq> i"
  using create_result[of n m] by (auto simp: issued_def)

lemma live_issued: "mgr_inv m \<Longrightarrow> GetResourcePool i m = Some p \<Longrightarrow> issued i m"
  using mgr_inv_pool[of m i p] by (simp add: issued_def)

lemma manager_step_issued:
  assumes "manager_step B m m'" "issued i m"
  shows "issued i m' \<and> (GetResourcePool i m = None \<longrightarrow> GetResourcePool i m' = None)"
  using assms
proof (induction rule: manager_step.induct)
  case (2 m k c)
  moreover have "m_nextPoolId (snd (manager_load B k c m)) = m_nextPoolId m"
    by (simp add: manager_load_def split: option.split)
  ultimately show ?case by (simp add: issued_def GetResourcePool_load)
next
  case (3 m n)
  have "m_nextPoolId (snd (CreateResourcePool n m)) = m_nextPoolId m \<or>
      m_nextPoolId m \<noteq> 0 \<and> m_nextPoolId (snd (CreateResourcePool n m)) = m_nextPoolId m + 1"
    by (simp add: CreateResourcePool_def Let_def)
  then show ?case
    using 3 successor_above[of i "m_nextPoolId m"] create_result[of n m]
    unfolding issued_def create_fields by auto
next
  case (4 k m p)
  then show ?case by (simp add: issued_def remove_pool_def GetResourcePool_def map_of_filter_key)
next
  case (5 m ord)
  then show ?case by (simp add: issued_def SetLookupOrder_def GetResourcePool_def)
next
  case (9 m)
  then show ?case by (simp add: issued_def clear_all_pools_def GetResourcePool_def)
qed (auto simp: issued_def GetResourcePool_change)

lemma engine_run_issued:
  assumes "engine_run E B s s'" "issued i (manager s)"
  shows "issued i (manager s') \<and> (GetResourcePool i (manager s) = None \<longrightarrow> GetResourcePool i (manager s') = None)"
  using assms(1)
proof (induction rule: engine_run_induct)
  case start
  then show ?case using assms(2) by simp
next
  case (step a b)
  then show ?case using manager_step_issued[OF engine_step_manager[of E B a b]] by blast
qed

subsection \<open>Asynchronous loads\<close>

fun request_pool :: "request_type \<Rightarrow> resource_type" where
  "request_pool ReqTexture = TTexture" | "request_pool ReqVideo = TTexture"
| "request_pool ReqSprite = TSprite" | "request_pool ReqAnimation = TAnimation"
| "request_pool ReqParticle = TParticle" | "request_pool ReqSound = TSoundEffect"
| "request_pool ReqMusic = TMusic" | "request_pool ReqSpriteFont = TSpriteFont"
| "request_pool ReqTrueTypeFont = TTrueTypeFont" | "request_pool ReqFX = TFX"
| "request_pool ReqModel = TModel"

lemma command_of_target:
  assumes "command_of E job = Some (Inr (c, e))"
  shows "command_type c = request_pool (req_type (m_request job)) \<and> command_name c = req_name (m_request job)"
  using assms by (cases "req_type (m_request job)")
    (auto simp: command_of_def Let_def split: option.split_asm if_split_asm)

lemma finalize_cases:
  assumes "finalize E M mgr job = Some (ok, job', mgr')"
  shows "(ok = False \<and> (\<exists>e. job' = job_fail e job) \<and> mgr' = mgr) \<or>
    (\<exists>c e. has_pool M mgr (pool_id (m_request job))
      \<and> generation_of M mgr (pool_id (m_request job)) = pool_generation (m_request job)
      \<and> command_of E job = Some (Inr (c, e))
      \<and> run_load M (pool_id (m_request job)) c mgr = (ok, mgr')
      \<and> job' = (if ok then job else job_fail e job))"
  using assms by (auto simp: finalize_def Let_def split: if_split_asm option.split_asm sum.split_asm
      prod.split_asm bool.split_asm)

lemma change_pool_same:
  assumes "GetResourcePool i m = Some p" "distinct (map fst (m_resourcePools m))"
  shows "change_pool i (\<lambda>_. p) m = m"
  using assms by (cases m)
    (auto simp: change_pool_def GetResourcePool_def intro!: map_idI dest: eq_key_imp_eq_value)

lemma manager_load_failed:
  assumes "mgr_inv m" "\<not> fst (manager_load B i c m)"
  shows "snd (manager_load B i c m) = m"
proof (cases "GetResourcePool i m")
  case (Some p)
  then have "snd (pool_load B c p) = p"
    using assms(2) pool_load_entry[of c p B] by (simp add: manager_load_def entry_load_def)
  then show ?thesis
    using Some change_pool_same[OF Some] assms(1) by (simp add: manager_load_def mgr_inv_def)
qed (simp add: manager_load_def)

lemma manager_load_success:
  assumes "fst (manager_load B i c m)"
  shows "\<exists>p p'. GetResourcePool i m = Some p \<and> GetResourcePool i (snd (manager_load B i c m)) = Some p'
    \<and> p_generation p' = p_generation p \<and> CheckResourceExists (command_type c) (command_name c) p'"
proof -
  obtain p where p: "GetResourcePool i m = Some p" "fst (pool_load B c p)"
    using assms by (auto simp: manager_load_def split: option.split_asm)
  have "CheckResourceExists (command_type c) (command_name c) (snd (pool_load B c p))"
    using pool_load_entry[of c p B] p(2)
    by (cases "map_of (dict_of (command_type c) p) (command_name c)")
      (auto simp: entry_load_def adds_entry_def CheckResourceExists_def map_of_emplace)
  then show ?thesis using p by (auto simp: GetResourcePool_load pool_load_keeps)
qed

lemma manager_load_keeps_resources:
  assumes "GetResourcePool k m = Some p" "GetResource t a p = Some x"
  shows "\<exists>p'. GetResourcePool k (snd (manager_load B i c m)) = Some p' \<and> GetResource t a p' = Some x"
proof -
  have "GetResource t a (snd (pool_load B c p)) = Some x"
    using pool_load_entry[of c p B] assms(2)
    by (cases "snd (pool_load B c p) = p")
      (auto simp: entry_load_def adds_entry_def GetResource_def findResource_def map_of_emplace)
  then show ?thesis using assms by (simp add: GetResourcePool_load)
qed

subsection \<open>Cancelling the jobs of a pool\<close>

lemma cancelPool_marks:
  assumes inv: "loader_inv s" and j: "j < created s" "\<not> isFinished (job_of s j)"
    and pool: "m_kind (job_of s j) = Resource" "pool_id (m_request (job_of s j)) = i"
  shows "m_cancel_requested (job_of (cancelPool i s) j)"
proof -
  have nt: "\<not> isTerminal (m_state (job_of s j))" using j(2) by (simp add: isFinished_def)
  then have "j \<in> set (m_jobs s)" using loader_invD(5)[OF inv j(1)] by blast
  then show ?thesis using nt pool by (simp add: cancelPool_def cancel_where_def job_ops)
qed

end
