(* ===== verification/AsyncCorrect.thy ===== *)
theory AsyncCorrect
  imports AsyncMain
begin

text \<open>
  The properties of the asynchronous loader: no job is lost, a cancelled job stays cancelled and
  is never loaded, the worker drains the queue, stopping finishes every job.
\<close>

subsection \<open>The exit flag\<close>

definition settled :: "'m loader \<Rightarrow> bool" where
  "settled s \<longleftrightarrow> (\<forall>j < created s. isTerminal (m_state (job_of s j)) \<or> m_cancel_requested (job_of s j))"

definition stop_inv :: "'m loader \<Rightarrow> bool" where
  "stop_inv s \<longleftrightarrow> (m_exit s \<or> main s = MStopping \<longrightarrow> settled s)
     \<and> (worker s = WExit \<longrightarrow> m_exit s) \<and> (main s = MJoining \<longrightarrow> m_exit s)
     \<and> (m_exit s \<longrightarrow> main s = MJoining \<or> worker s = WExit)"

lemma settled_grows:
  assumes "settled s" "created s' = created s" "\<And>k. k < created s \<Longrightarrow> job_grows (job_of s k) (job_of s' k)"
  shows "settled s'"
  using assms by (auto simp: settled_def job_grows_def)

lemma worker_stop_inv:
  assumes inv: "loader_inv s" and st: "stop_inv s" and step: "worker_step E (worker s) s = Some s'"
  shows "stop_inv s'"
proof -
  have k: "created s' = created s" "main s' = main s" "m_exit s' = m_exit s"
    using worker_keeps[OF step] by auto
  have "worker s' = WExit \<Longrightarrow> m_exit s"
    using step by (cases "worker s") (auto simp: worker_set_def split: if_split_asm list.split_asm work_end.split_asm)
  moreover have "worker s \<noteq> WExit" using step by auto
  moreover have "settled s \<Longrightarrow> settled s'"
    using settled_grows[OF _ k(1)] worker_step_grows[OF inv step] by blast
  ultimately show ?thesis using st by (auto simp: stop_inv_def k)
qed

lemma cancelAll_settled:
  assumes "loader_inv s"
  shows "settled (cancelAll s)"
proof -
  have "isTerminal (m_state (job_of (cancelAll s) j)) \<or> m_cancel_requested (job_of (cancelAll s) j)"
    if j: "j < created s" for j
  proof (cases "isTerminal (m_state (job_of s j))")
    case True
    then show ?thesis by (auto simp: cancelAll_def cancel_where_def job_ops)
  next
    case False
    then have "j \<in> set (m_jobs s)" using loader_invD(5)[OF assms j] by blast
    then show ?thesis using False by (simp add: cancelAll_def cancel_where_def job_ops)
  qed
  then show ?thesis by (simp add: settled_def cancelAll_def cancel_where_def)
qed

lemma main_stop_inv:
  assumes inv: "loader_inv s" and st: "stop_inv s" and step: "main_step E M op s = Some s'"
  shows "stop_inv s'"
proof (cases "main s = MIdle")
  case True
  then have c: "main_call op s = Some s'" using step by (simp add: main_step_def)
  show ?thesis
  proof (cases "op = StartStop")
    case True
    then have s': "s' = (cancelAll s)\<lparr>main := MStopping\<rparr>" using c by simp
    have "m_exit (cancelAll s) = m_exit s" "worker (cancelAll s) = worker s"
      by (simp_all add: cancelAll_def cancel_where_def)
    then show ?thesis
      using cancelAll_settled[OF inv] st \<open>main s = MIdle\<close> by (simp add: s' stop_inv_def settled_def)
  next
    case False
    have "m_exit s' = m_exit s \<and> worker s' = worker s \<and> main s' \<noteq> MStopping \<and> main s' \<noteq> MJoining"
      using c False True by (cases op) (auto simp: submit_def submitFailedResource_def Let_def cancelAll_def
          cancelPool_def cancel_where_def update_job_def split: if_split_asm)
    moreover have "settled s'" if ex: "m_exit s"
    proof -
      have g: "\<And>k. k < created s \<Longrightarrow> job_grows (job_of s k) (job_of s' k)"
        using main_call_grows[OF inv c] by blast
      have se: "settled s" using st ex by (simp add: stop_inv_def)
      have "created s' = created s \<or> created s' = Suc (created s) \<and> isTerminal (m_state (job_of s' (created s)))"
        using c ex by (cases op) (auto simp: submit_def submitFailedResource_def Let_def cancelAll_def
          cancelPool_def cancel_where_def update_job_def job_ops split: if_split_asm)
      moreover have "isTerminal (m_state (job_of s' k)) \<or> m_cancel_requested (job_of s' k)"
        if "k < created s" for k
        using g[OF that] se that by (auto simp: settled_def job_grows_def)
      ultimately show ?thesis unfolding settled_def by (metis less_Suc_eq)
    qed
    ultimately show ?thesis using st True by (auto simp: stop_inv_def)
  qed
next
  case False
  then have c: "main_continue E M (main s) s = Some s'" using step by (simp add: main_step_def)
  have g: "settled s \<Longrightarrow> settled s'"
    using settled_grows main_continue_grows[OF inv c] by blast
  have "worker s' = worker s \<and> (m_exit s' = m_exit s \<or> main s = MStopping)
    \<and> main s' \<noteq> MStopping \<and> (main s' = MJoining \<longrightarrow> m_exit s' \<and> main s = MStopping)
    \<and> (main s = MJoining \<longrightarrow> worker s = WExit) \<and> (main s = MStopping \<longrightarrow> main s' = MJoining)"
    using c False
    by (cases "main s") (auto simp: update_job_def sweep_fields
        split: if_split_asm list.split_asm option.split_asm bool.split_asm)
  then show ?thesis using st g by (auto simp: stop_inv_def)
qed

lemma reachable_stop_inv:
  assumes "loader_reachable E M s"
  shows "loader_inv s \<and> stop_inv s"
proof (rule reachable_induct[OF assms])
  show "stop_inv (initial_loader mgr)" for mgr by (simp add: stop_inv_def settled_def initial_loader_def)
  show "stop_inv b" if "loader_inv a" "stop_inv a" "loader_step E M a b" for a b
    using that worker_stop_inv main_stop_inv by (auto elim!: loader_stepE)
qed

subsection \<open>The worker alone\<close>

fun worker_iter :: "work_env \<Rightarrow> nat \<Rightarrow> 'm loader \<Rightarrow> 'm loader" where
  "worker_iter E 0 s = s"
| "worker_iter E (Suc n) s = (case worker_step E (worker s) s of None \<Rightarrow> s | Some s' \<Rightarrow> worker_iter E n s')"

fun worker_rank :: "worker_place \<Rightarrow> nat" where
  "worker_rank (WPopped j) = 10" | "worker_rank (WDropped j) = 9" | "worker_rank (WProcess j) = 9"
| "worker_rank (WStarted j) = 8" | "worker_rank (WWork j) = 7" | "worker_rank (WFailing j e) = 6"
| "worker_rank (WFinishing j) = 6" | "worker_rank (WRead j) = 6" | "worker_rank (WSetReady j) = 5"
| "worker_rank (WAborted j) = 5" | "worker_rank (WProcessed j) = 3" | "worker_rank (WQueueReady j) = 2"
| "worker_rank WWait = 1" | "worker_rank WExit = 0"

definition worker_measure :: "'m loader \<Rightarrow> nat" where
  "worker_measure s = 12 * length (m_queue s) + worker_rank (worker s)"

lemma worker_step_measure:
  "worker_step E (worker s) s = Some s' \<Longrightarrow> worker_measure s' < worker_measure s"
  by (cases "worker s") (auto simp: worker_measure_def worker_set_def update_job_def
      split: if_split_asm list.split_asm work_end.split)

lemma worker_stuck:
  "worker_step E (worker s) s = None \<longleftrightarrow> worker s = WExit \<or> worker s = WWait \<and> \<not> m_exit s \<and> m_queue s = []"
  by (cases "worker s") (auto split: list.split)

lemma worker_iter_stuck:
  "worker_measure s \<le> n \<Longrightarrow> worker_step E (worker (worker_iter E n s)) (worker_iter E n s) = None"
proof (induction n arbitrary: s)
  case 0
  then show ?case using worker_step_measure[of E s] by (cases "worker_step E (worker s) s") auto
next
  case (Suc n)
  then show ?case using worker_step_measure[of E s] by (auto split: option.split)
qed

lemma worker_iter_run: "loader_run E M s (worker_iter E n s)"
proof (induction n arbitrary: s)
  case (Suc n)
  show ?case
  proof (cases "worker_step E (worker s) s")
    case (Some s')
    then have "loader_run E M s s'" by (auto intro: loader_run.intros loader_step.Worker)
    then show ?thesis using Some Suc[of s'] loader_run_trans by fastforce
  qed (simp add: loader_run.Refl)
qed (simp add: loader_run.Refl)

lemma worker_iter_keeps:
  "created (worker_iter E n s) = created s \<and> m_exit (worker_iter E n s) = m_exit s \<and> main (worker_iter E n s) = main s"
  by (induction n arbitrary: s) (auto split: option.split dest: worker_keeps)

subsection \<open>Properties\<close>

text \<open>
  C14.  No job is lost.  In every reachable state of the two threads, a job that is not finished
  is in the list of jobs and at exactly one place that fits its state: queued in the queue,
  ready in the ready queue, or held by the worker or by the main thread.
\<close>

theorem async_no_job_lost:
  assumes "loader_reachable E M s" "j < created s" "\<not> isFinished (job_of s j)"
  shows "j \<in> set (m_jobs s) \<and> distinct (places s) \<and> j \<in> set (places s)
    \<and> (j \<in> set (m_queue s) \<longrightarrow> m_state (job_of s j) = Queued)
    \<and> (j \<in> set (m_ready s) \<longrightarrow> m_state (job_of s j) = Ready)
    \<and> (m_state (job_of s j) = Running \<longrightarrow> worker_jobs (worker s) = [j])"
proof -
  note I = loader_invD[OF reachable_inv[OF assms(1)]]
  have nt: "\<not> isTerminal (m_state (job_of s j))" using assms(3) by (simp add: isFinished_def)
  have st: "m_state (job_of s j) \<in> states_at s j" by (rule I(4)[OF assms(2)])
  have single: "worker_jobs (worker s) = [] \<or> worker_jobs (worker s) = [i]" if "i \<in> set (worker_jobs (worker s))" for i
    using that by (cases "worker s") auto
  show ?thesis
    using I(5)[OF assms(2) nt] I(1) st nt single[of j]
    by (auto simp: states_at_def places_def split: if_split_asm)
qed

lemma demo_reachable:
  "loader_reachable E M (submit (file_job p) (initial_loader mgr))"
proof -
  have "loader_step E M (initial_loader mgr) (submit (file_job p) (initial_loader mgr))"
    by (rule loader_step.Main[of _ _ "SubmitFileRead p"]) (simp add: main_step_def initial_loader_def)
  then show ?thesis unfolding loader_reachable_def by (meson loader_run.intros)
qed

theorem async_no_job_lost_witness:
  "0 \<in> set (m_queue (submit (file_job ''a'') (initial_loader ())))
   \<and> m_state (job_of (submit (file_job ''a'') (initial_loader ())) 0) = Queued"
proof -
  let ?s = "submit (file_job ''a'') (initial_loader ())"
  have f: "0 < created ?s" "\<not> isFinished (job_of ?s 0)" "0 \<in> set (m_queue ?s)"
    by (simp_all add: submit_def initial_loader_def file_job_def resource_job_def isFinished_def)
  show ?thesis using async_no_job_lost[OF demo_reachable f(1,2)] f(3) by blast
qed

text \<open>
  C15.  Cancelling is final.  When \<open>cancel\<close> of a job returns true, then in every state reached
  later, whatever the worker was doing with it, the job is cancelled or still running and bound
  to be cancelled: it is never done or failed, and the main thread never gets to load it.
\<close>

theorem async_cancel_is_final:
  assumes "loader_reachable E M s" "main s = MIdle" "j \<in> set (handles s)"
    and "fst (job_cancel (job_of s j))"
    and "main_step E M (CancelJob j) s = Some s1" "loader_run E M s1 s2"
  shows "m_state (job_of s2 j) \<in> {Running, Cancelled} \<and> m_cancel_requested (job_of s2 j)
    \<and> main s2 \<noteq> MFinalize j c n"
proof -
  note inv = reachable_inv[OF assms(1)]
  have j: "j < created s" using loader_invD(6)[OF inv, of j] assms(3) by blast
  have s1: "s1 = update_job j (\<lambda>job. snd (job_cancel job)) s"
    using assms(2,3,5) by (simp add: main_step_def)
  have inv1: "loader_inv s1" unfolding s1 by (rule cancel_job_inv[OF inv assms(2)])
  have cr: "m_cancel_requested (job_of s1 j)" "created s1 = created s"
    using assms(4) by (auto simp: s1 update_job_def job_ops job_cancel_def Let_def split: if_split_asm)
  have r: "loader_inv s2 \<and> j < created s2 \<and> job_grows (job_of s1 j) (job_of s2 j)"
    using loader_run_grows[OF assms(6) inv1] j cr(2) by simp
  then have cr2: "m_cancel_requested (job_of s2 j)" using cr(1) by (simp add: job_grows_def)
  then have "m_state (job_of s2 j) \<in> {Running, Cancelled}"
    using loader_invD(3)[of s2 j] r by (auto simp: job_ok_def)
  moreover have "main s2 \<noteq> MFinalize j c n" using loader_invD(8)[of s2] r cr2 by auto
  ultimately show ?thesis using cr2 by blast
qed

theorem async_cancel_is_final_witness:
  "let s = submit (file_job ''a'') (initial_loader ()); s1 = update_job 0 (\<lambda>job. snd (job_cancel job)) s in
   m_state (job_of (worker_iter \<lparr>readFile = \<lambda>p. Some p, sibling_path = \<lambda>a b. b, decode_audio = id,
     decode_video = id, particle_info_size = 128\<rparr> 20 s1) 0) \<in> {Running, Cancelled}"
proof -
  let ?E = "\<lparr>readFile = \<lambda>p. Some p, sibling_path = \<lambda>a b. b, decode_audio = id,
     decode_video = id, particle_info_size = 128\<rparr>"
  let ?M = "\<lparr>has_pool = \<lambda>_ _. True, generation_of = \<lambda>_ _. 0, run_load = \<lambda>_ _ m. (True, m)\<rparr> :: unit manager_env"
  let ?s = "submit (file_job ''a'') (initial_loader ())"
  let ?s1 = "update_job 0 (\<lambda>job. snd (job_cancel job)) ?s"
  have f: "main ?s = MIdle" "0 \<in> set (handles ?s)" "fst (job_cancel (job_of ?s 0))"
    by (simp_all add: submit_def initial_loader_def file_job_def resource_job_def job_cancel_def Let_def)
  have s1: "main_step ?E ?M (CancelJob 0) ?s = Some ?s1" using f by (simp add: main_step_def)
  show ?thesis
    unfolding Let_def
    using async_cancel_is_final[OF demo_reachable f s1 worker_iter_run[where n = 20 and E = ?E]] by blast
qed

text \<open>
  C16.  The worker drains the queue.  From every reachable state of a running loader, at most
  \<open>12 * length queue + 10\<close> steps of the worker alone lead to a state where it waits on an empty
  queue and every job is finished, ready for the main thread, or in the main thread's hands.
\<close>

theorem async_worker_drains:
  assumes "loader_reachable E M s" "\<not> m_exit s"
  defines "t \<equiv> worker_iter E (12 * length (m_queue s) + 10) s"
  shows "worker t = WWait \<and> m_queue t = [] \<and> created t = created s
    \<and> (\<forall>j < created t. isFinished (job_of t j) \<or> j \<in> set (m_ready t) \<or> j \<in> set (main_jobs (main t)))"
proof -
  have "worker_rank (worker s) \<le> 10" by (cases "worker s") simp_all
  then have "worker_measure s \<le> 12 * length (m_queue s) + 10" by (simp add: worker_measure_def)
  then have stuck: "worker_step E (worker t) t = None" unfolding t_def by (rule worker_iter_stuck)
  have keep: "created t = created s" "m_exit t = m_exit s"
    unfolding t_def using worker_iter_keeps by blast+
  obtain mgr where "loader_run E M (initial_loader mgr) s"
    using assms(1) unfolding loader_reachable_def by blast
  then have "loader_reachable E M t"
    unfolding loader_reachable_def t_def using loader_run_trans[OF worker_iter_run] by blast
  then have I: "loader_inv t" "stop_inv t" using reachable_stop_inv by blast+
  have w: "worker t = WWait" "m_queue t = []"
    using stuck I(2) assms(2) keep(2) unfolding worker_stuck by (auto simp: stop_inv_def)
  have "isFinished (job_of t j) \<or> j \<in> set (m_ready t) \<or> j \<in> set (main_jobs (main t))" if "j < created t" for j
    using loader_invD(4)[OF I(1) that] w
    by (auto simp: states_at_def isFinished_def split: if_split_asm)
  then show ?thesis using w keep(1) by blast
qed

theorem async_worker_drains_witness:
  "m_queue (worker_iter \<lparr>readFile = \<lambda>p. None, sibling_path = \<lambda>a b. b, decode_audio = id,
     decode_video = id, particle_info_size = 128\<rparr> 22 (submit (file_job ''a'') (initial_loader ()))) = []"
proof -
  let ?s = "submit (file_job ''a'') (initial_loader ())"
  have f: "\<not> m_exit ?s" "length (m_queue ?s) = 1"
    by (simp_all add: submit_def initial_loader_def Let_def)
  show ?thesis
    using async_worker_drains[OF demo_reachable f(1), THEN conjunct2, THEN conjunct1, unfolded f(2)] by simp
qed

text \<open>
  C17.  Stopping finishes every job.  Once the exit flag is set and \<open>stop\<close> has returned, the
  worker has left and every job ever created is done, failed or cancelled; that stays so, jobs
  submitted later included, since those fail at once.
\<close>

theorem async_stop_finishes_all:
  assumes "loader_reachable E M s" "m_exit s" "main s \<noteq> MJoining" "j < created s"
  shows "worker s = WExit \<and> isFinished (job_of s j)"
proof -
  have I: "loader_inv s" "stop_inv s" using reachable_stop_inv[OF assms(1)] by blast+
  have w: "worker s = WExit" and se: "settled s" using I(2) assms(2,3) by (auto simp: stop_inv_def)
  have "isTerminal (m_state (job_of s j)) \<or> m_cancel_requested (job_of s j)"
    using se assms(4) by (simp add: settled_def)
  moreover have "m_cancel_requested (job_of s j) \<Longrightarrow> isTerminal (m_state (job_of s j))"
    using loader_invD(3,4)[OF I(1) assms(4)] w
    by (auto simp: job_ok_def states_at_def split: if_split_asm)
  ultimately show ?thesis using w by (auto simp: isFinished_def)
qed

lemma stopped_reachable:
  "loader_reachable E M (submit (file_job p) ((initial_loader mgr)\<lparr>m_exit := True, worker := WExit\<rparr>))"
proof -
  let ?a = "initial_loader mgr"
  have cancel: "cancelAll ?a = ?a" by (simp add: cancelAll_def cancel_where_def initial_loader_def)
  have m: "main ?a = MIdle" and w: "worker ?a = WWait" by (simp_all add: initial_loader_def)
  have 1: "loader_step E M ?a (?a\<lparr>main := MStopping\<rparr>)"
    by (rule loader_step.Main[of _ _ StartStop]) (simp add: main_step_def m cancel)
  have 2: "loader_step E M (?a\<lparr>main := MStopping\<rparr>) (?a\<lparr>m_exit := True, main := MJoining\<rparr>)"
    by (rule loader_step.Main[of _ _ Continue]) (simp add: main_step_def)
  have 3: "loader_step E M (?a\<lparr>m_exit := True, main := MJoining\<rparr>)
      (?a\<lparr>m_exit := True, worker := WExit, main := MJoining\<rparr>)"
    by (rule loader_step.Worker) (simp add: w)
  have 4: "loader_step E M (?a\<lparr>m_exit := True, worker := WExit, main := MJoining\<rparr>)
      (?a\<lparr>m_exit := True, worker := WExit\<rparr>)"
    by (rule loader_step.Main[of _ _ Continue]) (simp add: main_step_def initial_loader_def)
  have 5: "loader_step E M (?a\<lparr>m_exit := True, worker := WExit\<rparr>)
      (submit (file_job p) (?a\<lparr>m_exit := True, worker := WExit\<rparr>))"
    by (rule loader_step.Main[of _ _ "SubmitFileRead p"]) (simp add: main_step_def m)
  show ?thesis
    unfolding loader_reachable_def using 1 2 3 4 5 by (meson loader_run.intros)
qed

theorem async_stop_finishes_all_witness:
  "isFinished (job_of (submit (file_job ''a'') ((initial_loader ())\<lparr>m_exit := True, worker := WExit\<rparr>)) 0)"
  by (rule async_stop_finishes_all[OF stopped_reachable, THEN conjunct2])
    (simp_all add: submit_def initial_loader_def)

end
