(* ===== verification/ResourceCorrect.thy ===== *)
theory ResourceCorrect
  imports ResourceEngine AsyncCorrect
begin

text \<open>
  The properties of resource pools, their manager and its asynchronous loads, over everything the
  engine can do with them in any order.
\<close>

text \<open>
  C18.  Lookup follows the order.  \<open>FindResource\<close> returns the resource of the first pool of the
  lookup order that has one of that name and type, and nothing when no pool has;  a new order is
  taken over exactly when it names live pools without repetition, and otherwise changes nothing.
\<close>

theorem lookup_follows_order:
  "FindResource t n m = (case find (\<lambda>i. \<exists>p. GetResourcePool i m = Some p \<and> CheckResourceExists t n p) (m_lookupOrder m) of
      None \<Rightarrow> None | Some i \<Rightarrow> GetResource t n (the (GetResourcePool i m)))
   \<and> SetLookupOrder ord m =
      (if distinct ord \<and> list_all (\<lambda>i. GetResourcePool i m \<noteq> None) ord
       then (True, m\<lparr>m_lookupOrder := ord\<rparr>) else (False, m))"
proof -
  have "find_in_order m is (GetResource t n) =
    (case find (\<lambda>i. \<exists>p. GetResourcePool i m = Some p \<and> CheckResourceExists t n p) is of
      None \<Rightarrow> None | Some i \<Rightarrow> GetResource t n (the (GetResourcePool i m)))" for "is"
    by (induction "is") (auto simp: CheckResourceExists_def GetResource_def findResource_def split: option.splits)
  moreover have "lookup_order_valid m [] ord \<longleftrightarrow> distinct ord \<and> list_all (\<lambda>i. GetResourcePool i m \<noteq> None) ord"
    by (simp add: lookup_order_valid_iff list_all_iff)
  ultimately show ?thesis by (simp add: FindResource_def SetLookupOrder_def)
qed

text \<open>
  C19.  A pool id names one pool for ever.  In every run of the engine the manager keeps its
  invariant (the two maps agree, the lookup order names live pools once each, every dictionary
  holds each resource under its own name); and once the pool of an id is gone, the id is never
  live again, never in the lookup order and never given to a new pool.
\<close>

theorem pool_ids_never_reused:
  assumes "engine_reachable E B s0" "engine_run E B s0 s1" "engine_run E B s1 s2"
    and "GetResourcePool i (manager s0) = Some p" "GetResourcePool i (manager s1) = None"
  shows "mgr_inv (manager s2) \<and> GetResourcePool i (manager s2) = None
    \<and> i \<notin> set (m_lookupOrder (manager s2)) \<and> fst (CreateResourcePool n (manager s2)) \<noteq> i"
proof -
  have inv0: "engine_inv s0" by (rule engine_reachable_inv[OF assms(1)])
  have inv2: "mgr_inv (manager s2)"
    using engine_run_inv[OF assms(3)] engine_run_inv[OF assms(2)] inv0 by (simp add: engine_inv_def)
  have i0: "issued i (manager s0)" using live_issued assms(4) inv0 by (auto simp: engine_inv_def)
  have i1: "issued i (manager s1)" using engine_run_issued[OF assms(2) i0] by blast
  have i2: "issued i (manager s2) \<and> GetResourcePool i (manager s2) = None"
    using engine_run_issued[OF assms(3) i1] assms(5) by blast
  then show ?thesis using inv2 issued_not_created by (auto simp: mgr_inv_def)
qed

lemma destroy_step: "main s = MIdle \<Longrightarrow> engine_run E B s (snd (DestroyResourcePool i s))"
  by (rule engine_run_step, rule engine_step.Destroy)

lemma demo_create:
  "engine_reachable E B (on_manager (\<lambda>m. snd (CreateResourcePool ''a'' m)) (initial_loader new_manager))"
  unfolding engine_reachable_def
  by (rule engine_run_step, rule engine_step.Create) (simp add: initial_loader_def)

lemma demo_pool:
  "manager (on_manager (\<lambda>m. snd (CreateResourcePool ''a'' m)) (initial_loader new_manager))
    = \<lparr>m_nextPoolId = 2, m_resourcePools = [(1, new_pool 1 ''a'')], m_resourcePoolNames = [(''a'', 1)], m_lookupOrder = []\<rparr>"
  by (simp add: initial_loader_def new_manager_def CreateResourcePool_def)

theorem pool_ids_never_reused_witness:
  "let s = on_manager (\<lambda>m. snd (CreateResourcePool ''a'' m)) (initial_loader new_manager)
   in fst (CreateResourcePool ''a'' (manager (snd (DestroyResourcePool 1 s)))) \<noteq> 1"
proof -
  let ?s = "on_manager (\<lambda>m. snd (CreateResourcePool ''a'' m)) (initial_loader new_manager) :: engine_resources"
  have m: "main ?s = MIdle" by (simp add: initial_loader_def)
  have live: "GetResourcePool 1 (manager ?s) = Some (new_pool 1 ''a'')"
    by (simp add: demo_pool GetResourcePool_def del: on_manager_fields)
  have dead: "GetResourcePool 1 (manager (snd (DestroyResourcePool 1 ?s))) = None"
    using live by (simp add: DestroyResourcePool_def remove_pool_def GetResourcePool_def map_of_filter_key)
  have refl: "engine_run E B a a" for E B a by (simp add: engine_run_def)
  show ?thesis
    unfolding Let_def
    using pool_ids_never_reused[OF demo_create destroy_step[OF m] refl live dead] by blast
qed

subsection \<open>A concrete run\<close>

definition demo_env :: work_env where
  "demo_env = \<lparr>readFile = \<lambda>p. Some p, sibling_path = \<lambda>a b. b, decode_audio = id,
     decode_video = id, particle_info_size = 128\<rparr>"

definition demo_backend :: backend where
  "demo_backend = \<lparr>perform = \<lambda>_. Some 7, decoder_handle = \<lambda>_. 0, sample_of = \<lambda>_ _. 0, full_length = \<lambda>_. 0,
     has_shader = \<lambda>_. True, read_file = \<lambda>p. Some p, particle_size = 128\<rparr>"

definition demo_request :: request where
  "demo_request = empty_request\<lparr>req_type := ReqSprite, pool_id := 1, req_name := ''s'', texture := Some 3\<rparr>"

definition demo_created :: engine_resources where
  "demo_created = on_manager (\<lambda>m. snd (CreateResourcePool ''a'' m)) (initial_loader new_manager)"

definition demo_submitted :: engine_resources where
  "demo_submitted = SubmitAsyncResource demo_request demo_created"

fun main_iter :: "nat \<Rightarrow> engine_resources \<Rightarrow> engine_resources" where
  "main_iter 0 s = s"
| "main_iter (Suc k) s = (case main_step demo_env (mgr_env demo_backend) Continue s of
     None \<Rightarrow> s | Some s' \<Rightarrow> main_iter k s')"

definition demo_updating :: engine_resources where
  "demo_updating = main_iter 3 ((worker_iter demo_env 10 demo_submitted)\<lparr>main := MUpdate 0 1\<rparr>)"

lemma main_iter_run: "engine_run demo_env demo_backend s (main_iter k s)"
proof (induction k arbitrary: s)
  case (Suc k)
  show ?case
  proof (cases "main_step demo_env (mgr_env demo_backend) Continue s")
    case (Some s')
    then have "engine_step demo_env demo_backend s s'"
      by (auto intro: engine_step.Loader loader_step.Main)
    then show ?thesis using Some Suc[of s'] engine_run_trans[OF engine_run_step] by simp
  qed (simp add: engine_run_def)
qed (simp add: engine_run_def)

lemma loader_run_engine: "loader_run E (mgr_env B) s s' \<Longrightarrow> engine_run E B s s'"
  by (induction rule: loader_run.induct)
    (auto simp: engine_run_def intro: rtranclp.rtrancl_into_rtrancl engine_step.Loader)

lemmas demo_defs = demo_updating_def demo_submitted_def demo_created_def demo_request_def demo_env_def
  demo_backend_def SubmitAsyncResource_def submit_def initial_loader_def new_manager_def
  CreateResourcePool_def GetResourcePool_def GetResourcePoolGeneration_def resource_job_def empty_request_def
  on_manager_def new_pool_def Let_def eval_nat_numeral worker_set_def update_job_def setState_def
  isCancelled_def isFinished_def work_def work_resource_def main_step_def debug_files_def mgr_env_def

lemma demo_submitted_run: "engine_reachable demo_env demo_backend demo_submitted \<and> main demo_submitted = MIdle"
proof -
  have c: "engine_reachable demo_env demo_backend demo_created" unfolding demo_created_def by (rule demo_create)
  have m: "main demo_created = MIdle" by (simp add: demo_created_def initial_loader_def)
  have "engine_reachable demo_env demo_backend demo_submitted"
    using c engine_run_trans[OF _ engine_run_step[OF submit_async_step[OF m]]]
    unfolding engine_reachable_def demo_submitted_def by blast
  moreover have "main demo_submitted = MIdle" by (simp add: demo_defs)
  ultimately show ?thesis ..
qed

lemma demo_worked: "main (worker_iter demo_env 10 demo_submitted) = MIdle"
  using demo_submitted_run worker_iter_keeps by metis

lemma demo_reached: "engine_reachable demo_env demo_backend demo_updating"
proof -
  let ?w = "worker_iter demo_env 10 demo_submitted"
  have 1: "engine_run demo_env demo_backend demo_submitted ?w"
    by (rule loader_run_engine) (rule worker_iter_run)
  have "main_step demo_env (mgr_env demo_backend) (StartUpdate 1) ?w = Some (?w\<lparr>main := MUpdate 0 1\<rparr>)"
    by (simp add: main_step_def demo_worked)
  then have 2: "engine_run demo_env demo_backend ?w (?w\<lparr>main := MUpdate 0 1\<rparr>)"
    by (intro engine_run_step engine_step.Loader loader_step.Main)
  show ?thesis
    using demo_submitted_run engine_run_trans[OF engine_run_trans[OF 1 2] main_iter_run[of _ 3]] engine_run_trans
    unfolding engine_reachable_def demo_updating_def by blast
qed

lemma demo_at_finalize: "main demo_updating = MFinalize 0 0 1"
  by (simp add: demo_defs)

text \<open>
  C20.  What an asynchronous load delivers.  When the main thread finalizes a job, either the
  load succeeds, and then the pool of the request is live, of the generation the request was made
  in, and has a resource of the requested type and name; or it fails, and then the job has failed
  and the manager is as it was.  In both cases no resource that any pool held is lost or replaced.
\<close>

theorem async_load_delivers:
  assumes "engine_reachable E B s" "main s = MFinalize j c n"
    and "main_step E (mgr_env B) op s = Some s'"
  defines "r \<equiv> m_request (job_of s j)"
  shows "(if main s' = MLoaded j c n
      then (\<exists>p. GetResourcePool (pool_id r) (manager s') = Some p \<and> p_generation p = pool_generation r
          \<and> CheckResourceExists (request_pool (req_type r)) (req_name r) p)
      else manager s' = manager s \<and> m_state (job_of s' j) = Failed)
    \<and> (\<forall>k p t a x. GetResourcePool k (manager s) = Some p \<and> GetResource t a p = Some x \<longrightarrow>
        (\<exists>p'. GetResourcePool k (manager s') = Some p' \<and> GetResource t a p' = Some x))"
proof -
  have inv: "loader_inv s" "mgr_inv (manager s)"
    using engine_reachable_inv[OF assms(1)] by (simp_all add: engine_inv_def)
  have job: "\<not> m_cancel_requested (job_of s j)" using loader_invD(8)[OF inv(1)] assms(2) by auto
  obtain ok J mgr where f: "finalize E (mgr_env B) (manager s) (job_of s j) = Some (ok, J, mgr)"
    and s': "s' = (update_job j (\<lambda>_. J) s)\<lparr>manager := mgr, main := (if ok then MLoaded j c n else MUpdate (Suc c) n)\<rparr>"
    using assms(2,3) by (auto simp: main_step_def split: option.split_asm)
  have failed: "m_state (job_fail e (job_of s j)) = Failed" for e
    using job by (simp add: job_ops)
  show ?thesis
    using finalize_cases[OF f]
  proof (elim disjE exE conjE)
    assume "ok = False" "mgr = manager s"
    moreover from this have "\<exists>e. J = job_fail e (job_of s j)" using finalize_cases[OF f] by auto
    ultimately show ?thesis using failed by (auto simp: s' update_job_def)
  next
    fix cmd e
    assume c: "generation_of (mgr_env B) (manager s) (pool_id (m_request (job_of s j))) = pool_generation (m_request (job_of s j))"
      "command_of E (job_of s j) = Some (Inr (cmd, e))"
      "run_load (mgr_env B) (pool_id (m_request (job_of s j))) cmd (manager s) = (ok, mgr)"
      "J = (if ok then job_of s j else job_fail e (job_of s j))"
    have l: "manager_load B (pool_id r) cmd (manager s) = (ok, mgr)" using c(3) by (simp add: mgr_env_def r_def)
    have t: "command_type cmd = request_pool (req_type r)" "command_name cmd = req_name r"
      using command_of_target[OF c(2)] by (simp_all add: r_def)
    have "\<exists>p. GetResourcePool (pool_id r) mgr = Some p \<and> p_generation p = pool_generation r
          \<and> CheckResourceExists (request_pool (req_type r)) (req_name r) p" if ok
      using manager_load_success[of B "pool_id r" cmd "manager s"] that c(1) l t
      by (auto simp: mgr_env_def GetResourcePoolGeneration_def r_def)
    moreover have "mgr = manager s" if "\<not> ok"
      using manager_load_failed[OF inv(2), of B "pool_id r" cmd] l that by simp
    moreover have "\<exists>p'. GetResourcePool k mgr = Some p' \<and> GetResource t a p' = Some x"
      if "GetResourcePool k (manager s) = Some p" "GetResource t a p = Some x" for k p t a x
      using manager_load_keeps_resources[OF that, of B "pool_id r" cmd] l by simp
    ultimately show ?thesis using failed c(4) by (auto simp: s' update_job_def)
  qed
qed

lemma demo_finalized:
  "\<exists>s'. main_step demo_env (mgr_env demo_backend) Continue demo_updating = Some s' \<and> main s' = MLoaded 0 0 1
     \<and> pool_id (m_request (job_of demo_updating 0)) = 1"
  by (simp add: demo_defs finalize_def command_of_def manager_load_def CreateSpriteRes_def
      with_object_def enter_def)

theorem async_load_delivers_witness:
  "\<exists>s' p. main_step demo_env (mgr_env demo_backend) Continue demo_updating = Some s'
     \<and> GetResourcePool 1 (manager s') = Some p"
proof -
  obtain s' where s': "main_step demo_env (mgr_env demo_backend) Continue demo_updating = Some s'"
      "main s' = MLoaded 0 0 1" "pool_id (m_request (job_of demo_updating 0)) = 1"
    using demo_finalized by blast
  show ?thesis
    using async_load_delivers[OF demo_reached demo_at_finalize s'(1), THEN conjunct1] s' by auto
qed

text \<open>
  C21.  Clearing or destroying a pool settles its jobs.  After \<open>Clear\<close> or \<open>DestroyResourcePool\<close>
  every resource job of the pool that had not finished, wherever it was between the two threads,
  can only be running on or cancelled, in every continuation: it is never loaded, so nothing
  asked for before the call enters the pool after it.
\<close>

theorem cleared_pool_jobs_never_load:
  assumes "engine_reachable E B s" "main s = MIdle" "j < created s" "\<not> isFinished (job_of s j)"
    and "m_kind (job_of s j) = Resource" "pool_id (m_request (job_of s j)) = i"
    and "s1 = ClearResourcePool i s \<or> DestroyResourcePool i s = (True, s1)" "engine_run E B s1 s2"
  shows "m_state (job_of s2 j) \<in> {Running, Cancelled} \<and> main s2 \<noteq> MFinalize j c n
    \<and> GetResourcePoolGeneration i (manager s1) = (if GetResourcePool i (manager s1) = None then 0
        else GetResourcePoolGeneration i (manager s) + 1)"
proof -
  have inv: "loader_inv s" using engine_reachable_inv[OF assms(1)] by (simp add: engine_inv_def)
  have marks: "m_cancel_requested (job_of (cancelPool i s) j)"
    by (rule cancelPool_marks[OF inv assms(3-6)])
  have s1: "loader_inv s1 \<and> job_of s1 j = job_of (cancelPool i s) j \<and> created s1 = created s"
    using assms(7) cancelPool_inv[OF inv assms(2)]
    by (auto simp: ClearResourcePool_def DestroyResourcePool_def split: option.split_asm)
  have r: "loader_inv s2 \<and> j < created s2 \<and> job_grows (job_of s1 j) (job_of s2 j)"
    using engine_run_jobs[OF assms(8), of j] s1 assms(3) by simp
  then have cr: "m_cancel_requested (job_of s2 j)" using s1 marks by (simp add: job_grows_def)
  have "m_state (job_of s2 j) \<in> {Running, Cancelled}"
    using loader_invD(3)[of s2 j] r cr by (auto simp: job_ok_def)
  moreover have "main s2 \<noteq> MFinalize j c n" using loader_invD(8)[of s2] r cr by auto
  moreover have "GetResourcePoolGeneration i (manager s1) = (if GetResourcePool i (manager s1) = None then 0
        else GetResourcePoolGeneration i (manager s) + 1)"
    using assms(7)
    by (auto simp: ClearResourcePool_def DestroyResourcePool_def GetResourcePoolGeneration_def
        GetResourcePool_change pool_clear_def split: option.split_asm option.split)
      (simp_all add: GetResourcePool_def remove_pool_def map_of_filter_key)
  ultimately show ?thesis by blast
qed

theorem cleared_pool_jobs_never_load_witness:
  "m_state (job_of (ClearResourcePool 1 demo_submitted) 0) \<in> {Running, Cancelled}"
proof -
  have f: "0 < created demo_submitted" "\<not> isFinished (job_of demo_submitted 0)"
      "m_kind (job_of demo_submitted 0) = Resource" "pool_id (m_request (job_of demo_submitted 0)) = 1"
    by (simp_all add: demo_defs)
  have run: "engine_run demo_env demo_backend (ClearResourcePool 1 demo_submitted) (ClearResourcePool 1 demo_submitted)"
    by (simp add: engine_run_def)
  note d = demo_submitted_run
  show ?thesis
    using cleared_pool_jobs_never_load[OF d[THEN conjunct1] d[THEN conjunct2] f disjI1[OF refl] run] by blast
qed

end
