(* ===== verification/DatCodec.thy ===== *)
theory DatCodec
  imports Prelude "HOL-Library.List_Lexorder"
begin

text \<open>
  The bytes of a DAT archive (\<open>DATArchiveEncryption.hpp\<close> and the first part of
  \<open>FileSystemDATArchive.cpp\<close>): the key stream, little-endian integers, paths, the header and
  the entry records.  Paths and contents are lists of bytes.
\<close>

type_synonym octets = "u8 list"

definition octets_of :: "string \<Rightarrow> octets" where
  "octets_of s = map of_char s"

subsection \<open>The key stream\<close>

definition fnv1a_32 :: "octets \<Rightarrow> u32" where
  "fnv1a_32 data = foldl (\<lambda>hash b. (hash XOR ucast b) * 16777619) 2166136261 data"

definition HEADER_MAGIC :: octets where
  "HEADER_MAGIC = octets_of ''LSTGRETR''"

definition ENCRYPTION_KEY :: octets where
  "ENCRYPTION_KEY = octets_of ''Sonic The Hedgehog''"

definition getKeyHashHeader :: "octets \<Rightarrow> u8 \<times> u8" where
  "getKeyHashHeader key = (let hash = fnv1a_32 key in
     (ucast (hash AND 0xFF) XOR 0x55, ucast (drop_bit 8 hash AND 0xFF) XOR 0xC8))"

definition getKeyHashFile :: "octets \<Rightarrow> u8 \<Rightarrow> u8 \<Rightarrow> u8 \<times> u8" where
  "getKeyHashFile path headerBase headerStep = (let hash = fnv1a_32 path in
     (ucast (drop_bit 24 hash AND 0xFF) XOR headerBase XOR 0x4A,
      ucast (drop_bit 16 hash AND 0xFF) XOR headerStep XOR 0xEB))"

definition next_base :: "u8 \<Rightarrow> u8 \<Rightarrow> u8" where
  "next_base step base = ucast ((ucast base :: u32) * 0xBD + ucast step)"

text \<open>The block after the loop, and the base it leaves.\<close>

fun shiftBlock :: "octets \<Rightarrow> u8 \<Rightarrow> u8 \<Rightarrow> octets \<times> u8" where
  "shiftBlock [] base step = ([], base)"
| "shiftBlock (b # bs) base step =
     (let (r, base') = shiftBlock bs (next_base step base) step in ((b XOR base) # r, base'))"

lemma shiftBlock_base: "snd (shiftBlock bs base step) = (next_base step ^^ length bs) base"
  by (induction bs arbitrary: base) (simp_all add: funpow_swap1 case_prod_unfold Let_def)

lemma shiftBlock_length [simp]: "length (fst (shiftBlock bs base step)) = length bs"
  by (induction bs arbitrary: base) (simp_all add: case_prod_unfold Let_def)

lemma shiftBlock_append:
  "shiftBlock (xs @ ys) base step =
    (fst (shiftBlock xs base step) @ fst (shiftBlock ys (snd (shiftBlock xs base step)) step),
     snd (shiftBlock ys (snd (shiftBlock xs base step)) step))"
  by (induction xs arbitrary: base) (simp_all add: case_prod_unfold Let_def)

lemma shiftBlock_twice: "fst (shiftBlock (fst (shiftBlock bs base step)) base step) = bs"
  by (induction bs arbitrary: base) (simp_all add: xor.assoc case_prod_unfold Let_def)

lemma shiftBlock_base_length:
  "length xs = length ys \<Longrightarrow> snd (shiftBlock xs base step) = snd (shiftBlock ys base step)"
  by (simp add: shiftBlock_base)

subsection \<open>Integers\<close>

definition u32le :: "u32 \<Rightarrow> octets" where
  "u32le v = [ucast (v AND 0xFF), ucast (drop_bit 8 v AND 0xFF), ucast (drop_bit 16 v AND 0xFF),
     ucast (drop_bit 24 v AND 0xFF)]"

text \<open>\<open>appendU32LE\<close> and \<open>appendU8\<close> write at the end of a buffer.\<close>

definition appendU32LE :: "octets \<Rightarrow> u32 \<Rightarrow> octets" where
  "appendU32LE buf v = buf @ u32le v"

definition appendU8 :: "octets \<Rightarrow> u8 \<Rightarrow> octets" where
  "appendU8 buf v = buf @ [v]"

text \<open>Readers take the bytes from the cursor to the end and return the value and the bytes after it.\<close>

fun readU8 :: "octets \<Rightarrow> (u8 \<times> octets) option" where
  "readU8 [] = None"
| "readU8 (b # bs) = Some (b, bs)"

fun readU32LE :: "octets \<Rightarrow> (u32 \<times> octets) option" where
  "readU32LE (a # b # c # d # bs) =
     Some (ucast a OR push_bit 8 (ucast b) OR push_bit 16 (ucast c) OR push_bit 24 (ucast d), bs)"
| "readU32LE _ = None"

lemma u32le_length [simp]: "length (u32le v) = 4"
  by (simp add: u32le_def)

lemma bytes_of_u32:
  fixes v :: u32
  shows "ucast (ucast (v AND 0xFF) :: u8) OR push_bit 8 (ucast (ucast (drop_bit 8 v AND 0xFF) :: u8))
    OR push_bit 16 (ucast (ucast (drop_bit 16 v AND 0xFF) :: u8))
    OR push_bit 24 (ucast (ucast (drop_bit 24 v AND 0xFF) :: u8)) = v"
proof -
  have m: "(0xFF :: u32) = mask 8" by (simp add: mask_eq_exp_minus_1)
  show ?thesis
    unfolding m
  proof (rule bit_word_eqI, simp add: bit_simps)
    fix n :: nat assume "n < 32"
    moreover have "n < 8 \<or> 8 \<le> n \<and> n < 16 \<or> 16 \<le> n \<and> n < 24 \<or> 24 \<le> n" by linarith
    ultimately show "(n < 8 \<and> bit v n \<and> n < 8 \<or>
        8 \<le> n \<and> n - 8 < 32 \<and> n - 8 < 8 \<and> bit v (8 + (n - 8)) \<and> n - 8 < 32 \<and> n - 8 < 8 \<or>
        16 \<le> n \<and> n - 16 < 32 \<and> n - 16 < 8 \<and> bit v (16 + (n - 16)) \<and> n - 16 < 32 \<and> n - 16 < 8 \<or>
        24 \<le> n \<and> n - 24 < 32 \<and> n - 24 < 8 \<and> bit v (24 + (n - 24)) \<and> n - 24 < 32 \<and> n - 24 < 8) = bit v n"
      by (elim disjE conjE) auto
  qed
qed

lemma readU32LE_u32le [simp]: "readU32LE (u32le v @ bs) = Some (v, bs)"
  using bytes_of_u32[of v] by (simp add: u32le_def)

lemma readU8_cons [simp]: "readU8 ([b] @ bs) = Some (b, bs)"
  by simp

lemma readU32LE_shorter: "readU32LE bs = Some (v, r) \<Longrightarrow> length bs = length r + 4"
  by (cases bs rule: readU32LE.cases) auto

lemma readU8_shorter: "readU8 bs = Some (v, r) \<Longrightarrow> length bs = length r + 1"
  by (cases bs) auto

subsection \<open>Paths\<close>

definition slash :: u8 where "slash = 0x2F"
definition backslash :: u8 where "backslash = 0x5C"
definition colon :: u8 where "colon = 0x3A"
definition dot :: u8 where "dot = 0x2E"

definition normalizeSlashes :: "octets \<Rightarrow> octets" where
  "normalizeSlashes p = map (\<lambda>c. if c = backslash then slash else c) p"

definition is_alpha :: "u8 \<Rightarrow> bool" where
  "is_alpha c \<longleftrightarrow> 0x41 \<le> c \<and> c \<le> 0x5A \<or> 0x61 \<le> c \<and> c \<le> 0x7A"

definition isDrivePath :: "octets \<Rightarrow> bool" where
  "isDrivePath p \<longleftrightarrow> 2 \<le> length p \<and> p ! 1 = colon \<and> is_alpha (p ! 0)"

text \<open>The loop over the segments between slashes.\<close>

function hasParentTraversal :: "octets \<Rightarrow> bool" where
  "hasParentTraversal p = (let segment = takeWhile (\<lambda>c. c \<noteq> slash) p; rest = dropWhile (\<lambda>c. c \<noteq> slash) p in
     if segment = [dot, dot] then True else if rest = [] then False else hasParentTraversal (tl rest))"
  by pat_completeness auto
termination
proof (relation "measure length", simp)
  fix p segment rest :: octets
  assume r: "rest = dropWhile (\<lambda>c. c \<noteq> slash) p" "rest \<noteq> []"
  have "length rest \<le> length p" unfolding r(1) by (rule length_dropWhile_le)
  then show "(tl rest, p) \<in> measure length" using r(2) by (cases rest) simp_all
qed

declare hasParentTraversal.simps [simp del]

definition normalizeArchiveFilePath :: "octets \<Rightarrow> bool \<times> octets" where
  "normalizeArchiveFilePath p = (let p = normalizeSlashes p in
     (p \<noteq> [] \<and> hd p \<noteq> slash \<and> last p \<noteq> slash \<and> \<not> isDrivePath p \<and> 0 \<notin> set p \<and> \<not> hasParentTraversal p, p))"

lemma normalizeSlashes_idem [simp]: "normalizeSlashes (normalizeSlashes p) = normalizeSlashes p"
  by (simp add: normalizeSlashes_def)

lemma normalizeArchiveFilePath_idem:
  "normalizeArchiveFilePath p = (ok, q) \<Longrightarrow> normalizeArchiveFilePath q = (ok, q)"
  unfolding normalizeArchiveFilePath_def Let_def prod.inject
  by (metis normalizeSlashes_idem)

text \<open>The segments of a path, as a list.\<close>

fun segments :: "octets \<Rightarrow> octets list" where
  "segments [] = [[]]"
| "segments (c # cs) = (if c = slash then [] # segments cs
     else (case segments cs of s # ss \<Rightarrow> (c # s) # ss | [] \<Rightarrow> [[c]]))"

lemma segments_nonempty [simp]: "segments p \<noteq> []"
  by (induction p) (auto split: list.split)

lemma segments_unfold:
  "segments p = takeWhile (\<lambda>c. c \<noteq> slash) p #
     (case dropWhile (\<lambda>c. c \<noteq> slash) p of [] \<Rightarrow> [] | _ # r \<Rightarrow> segments r)"
  by (induction p) auto

lemma hasParentTraversal_segments: "hasParentTraversal p \<longleftrightarrow> [dot, dot] \<in> set (segments p)"
proof (induction p rule: hasParentTraversal.induct)
  case (1 p)
  show ?case
  proof (cases "dropWhile (\<lambda>c. c \<noteq> slash) p")
    case Nil
    show ?thesis
      by (subst hasParentTraversal.simps, subst segments_unfold)
        (auto simp: Let_def Nil simp del: dropWhile_eq_Nil_conv)
  next
    case (Cons d r)
    then have "hasParentTraversal p \<longleftrightarrow> takeWhile (\<lambda>c. c \<noteq> slash) p = [dot, dot] \<or> hasParentTraversal r"
      by (subst hasParentTraversal.simps) (auto simp: Let_def)
    moreover have "takeWhile (\<lambda>c. c \<noteq> slash) p \<noteq> [dot, dot] \<Longrightarrow>
        hasParentTraversal r \<longleftrightarrow> [dot, dot] \<in> set (segments r)"
      using 1[OF refl refl] Cons by simp
    ultimately show ?thesis by (subst segments_unfold) (auto simp: Cons eq_commute[of "[dot, dot]"])
  qed
qed

subsection \<open>The header\<close>

record dat_header =
  h_magic :: octets
  entryCount :: u32
  headerOffset :: u32
  headerSize :: u32

text \<open>\<open>sizeof(DATArchiveHeader)\<close>.\<close>

definition sizeof_header :: nat where "sizeof_header = 20"

definition writeHeader :: "dat_header \<Rightarrow> octets" where
  "writeHeader h = take 8 (h_magic h) @ u32le (entryCount h) @ u32le (headerOffset h) @ u32le (headerSize h)"

definition readHeader :: "octets \<Rightarrow> dat_header option" where
  "readHeader data = (if length data < 8 then None else
     (case readU32LE (drop 8 data) of None \<Rightarrow> None | Some (n, bs) \<Rightarrow>
     (case readU32LE bs of None \<Rightarrow> None | Some (off, bs) \<Rightarrow>
     (case readU32LE bs of None \<Rightarrow> None | Some (sz, bs) \<Rightarrow>
        if bs = [] then Some \<lparr>h_magic = take 8 data, entryCount = n, headerOffset = off, headerSize = sz\<rparr>
        else None))))"

lemma writeHeader_length: "length (h_magic h) = 8 \<Longrightarrow> length (writeHeader h) = sizeof_header"
  by (simp add: writeHeader_def sizeof_header_def)

lemma readHeader_writeHeader: "length (h_magic h) = 8 \<Longrightarrow> readHeader (writeHeader h) = Some h"
  using readU32LE_u32le[of "headerSize h" "[]"] by (simp add: readHeader_def writeHeader_def)

subsection \<open>Entry records\<close>

text \<open>The compression type is an enumeration over a byte; a file may hold any byte.\<close>

definition CT_NONE :: u8 where "CT_NONE = 0"
definition CT_ZLIB :: u8 where "CT_ZLIB = 1"

record dat_entry =
  e_path :: octets
  compressionType :: u8
  sizeFull :: u32
  sizeStored :: u32
  offsetPos :: u32
  e_keyBase :: u8
  e_keyStep :: u8
  crc32Value :: u32

definition fits_u32 :: "nat \<Rightarrow> bool" where
  "fits_u32 n \<longleftrightarrow> n \<le> 0xFFFFFFFF"

definition writeEntryRecord :: "octets \<Rightarrow> dat_entry \<Rightarrow> octets option" where
  "writeEntryRecord buf e = (if \<not> fits_u32 (length (e_path e)) then None else
     let buf = appendU32LE buf (of_nat (length (e_path e)));
         buf = buf @ e_path e;
         buf = appendU8 buf (compressionType e);
         buf = appendU32LE buf (sizeFull e);
         buf = appendU32LE buf (sizeStored e);
         buf = appendU32LE buf (offsetPos e);
         buf = appendU8 buf (e_keyBase e);
         buf = appendU8 buf (e_keyStep e);
         buf = appendU32LE buf (crc32Value e)
     in Some buf)"

text \<open>The fields after the path.\<close>

definition readEntryFields :: "octets \<Rightarrow> octets \<Rightarrow> (dat_entry \<times> octets) option" where
  "readEntryFields p bs =
     (case readU8 bs of None \<Rightarrow> None | Some (ct, bs) \<Rightarrow>
     (case readU32LE bs of None \<Rightarrow> None | Some (full, bs) \<Rightarrow>
     (case readU32LE bs of None \<Rightarrow> None | Some (stored, bs) \<Rightarrow>
     (case readU32LE bs of None \<Rightarrow> None | Some (off, bs) \<Rightarrow>
     (case readU8 bs of None \<Rightarrow> None | Some (kb, bs) \<Rightarrow>
     (case readU8 bs of None \<Rightarrow> None | Some (ks, bs) \<Rightarrow>
     (case readU32LE bs of None \<Rightarrow> None | Some (crc, bs) \<Rightarrow>
        Some (\<lparr>e_path = p, compressionType = ct, sizeFull = full, sizeStored = stored, offsetPos = off,
          e_keyBase = kb, e_keyStep = ks, crc32Value = crc\<rparr>, bs))))))))"

definition readEntryRecord :: "octets \<Rightarrow> (dat_entry \<times> octets) option" where
  "readEntryRecord bs =
     (case readU32LE bs of None \<Rightarrow> None | Some (pathSize, bs) \<Rightarrow>
        if pathSize = 0 \<or> length bs < unat pathSize then None
        else (case normalizeArchiveFilePath (take (unat pathSize) bs) of
            (False, _) \<Rightarrow> None
          | (True, p) \<Rightarrow> readEntryFields p (drop (unat pathSize) bs)))"

definition entry_bytes :: "dat_entry \<Rightarrow> octets" where
  "entry_bytes e = u32le (of_nat (length (e_path e))) @ e_path e @ [compressionType e] @ u32le (sizeFull e)
     @ u32le (sizeStored e) @ u32le (offsetPos e) @ [e_keyBase e, e_keyStep e] @ u32le (crc32Value e)"

lemma writeEntryRecord_bytes:
  "writeEntryRecord buf e = (if fits_u32 (length (e_path e)) then Some (buf @ entry_bytes e) else None)"
  by (simp add: writeEntryRecord_def Let_def appendU8_def appendU32LE_def entry_bytes_def)

lemma entry_bytes_length: "length (entry_bytes e) = length (e_path e) + 23"
  by (simp add: entry_bytes_def)

lemma unat_of_length: "fits_u32 n \<Longrightarrow> unat (of_nat n :: u32) = n"
  by (simp add: fits_u32_def unat_of_nat)

lemma readEntryFields_bytes:
  "readEntryFields p ([ct] @ u32le full @ u32le stored @ u32le off @ [kb, ks] @ u32le crc)
    = Some (\<lparr>e_path = p, compressionType = ct, sizeFull = full, sizeStored = stored, offsetPos = off,
          e_keyBase = kb, e_keyStep = ks, crc32Value = crc\<rparr>, [])"
  using readU32LE_u32le[of crc "[]"] by (simp add: readEntryFields_def)

lemma readEntryRecord_bytes:
  assumes "fits_u32 (length (e_path e))" "normalizeArchiveFilePath (e_path e) = (True, e_path e)"
  shows "readEntryRecord (entry_bytes e) = Some (e, [])"
proof -
  have ne: "e_path e \<noteq> []" using assms(2) by (auto simp: normalizeArchiveFilePath_def Let_def)
  have n: "unat (of_nat (length (e_path e)) :: u32) = length (e_path e)" by (rule unat_of_length[OF assms(1)])
  then have "(of_nat (length (e_path e)) :: u32) \<noteq> 0" using ne by (metis length_0_conv unat_0)
  then show ?thesis
    using readEntryFields_bytes[of "e_path e" "compressionType e" "sizeFull e" "sizeStored e" "offsetPos e"
        "e_keyBase e" "e_keyStep e" "crc32Value e"] assms(2) n
    by (simp add: readEntryRecord_def entry_bytes_def)
qed

end
