(* ===== verification/DatArchive.thy ===== *)
theory DatArchive
  imports DatCodec
begin

text \<open>
  Reading a DAT archive (\<open>FileSystemDATArchive\<close>): opening, the checks of the entry table,
  queries, reading a file, enumeration.  zlib and the CRC are the parameter \<open>zlib\<close>.
\<close>

record zlib =
  deflate :: "octets \<Rightarrow> octets option"
  inflate :: "octets \<Rightarrow> octets option"
  uncompress :: "octets \<Rightarrow> nat \<Rightarrow> octets option"
  crc32_z :: "octets \<Rightarrow> u32"

subsection \<open>Streams\<close>

text \<open>
  \<open>basic_filebuf::open\<close> fails unless the mode, \<open>binary\<close> and \<open>ate\<close> apart, is one of the
  combinations the C++ standard lists.  \<open>ifstream\<close> adds \<open>in\<close> to the mode, \<open>fstream\<close> adds nothing.
\<close>

datatype open_flag = FIn | FOut | FApp | FTrunc | FBinary | FAte

definition valid_mode :: "open_flag list \<Rightarrow> bool" where
  "valid_mode flags \<longleftrightarrow> set flags - {FBinary, FAte} \<in>
     {{FOut}, {FOut, FTrunc}, {FApp}, {FOut, FApp}, {FIn}, {FIn, FOut}, {FIn, FOut, FTrunc},
      {FIn, FOut, FApp}, {FIn, FApp}}"

text \<open>\<open>seekg\<close> and \<open>read\<close>: all the bytes or failure.\<close>

definition read_at :: "octets \<Rightarrow> nat \<Rightarrow> nat \<Rightarrow> octets option" where
  "read_at file p n = (if p + n \<le> length file then Some (take n (drop p file)) else None)"

definition isRangeInside :: "u64 \<Rightarrow> u32 \<Rightarrow> u32 \<Rightarrow> u64 \<Rightarrow> bool" where
  "isRangeInside offset relativeOffset sz totalSize = (let bg = offset + ucast relativeOffset in
     if bg < offset \<or> totalSize < bg then False
     else let en = bg + ucast sz in bg \<le> en \<and> en \<le> totalSize)"

subsection \<open>Opening\<close>

record dat_archive =
  a_file :: octets
  m_readOffset :: u64
  a_keyBase :: u8
  a_keyStep :: u8
  m_entries :: "(octets \<times> dat_entry) list"
  m_directories :: "octets list"

text \<open>The header at the offset, deciphered, with the key stream after it.\<close>

definition header_at :: "octets \<Rightarrow> u64 \<Rightarrow> (dat_header \<times> u8 \<times> u8) option" where
  "header_at file readOffset = (let archiveSize = of_nat (length file) in
     if archiveSize < readOffset \<or> archiveSize - readOffset < of_nat sizeof_header then None
     else (case read_at file (unat readOffset) sizeof_header of None \<Rightarrow> None
       | Some headerBuf \<Rightarrow> let (kb, ks) = getKeyHashHeader ENCRYPTION_KEY;
             (buf, base) = shiftBlock headerBuf kb ks
           in (case readHeader buf of None \<Rightarrow> None
             | Some h \<Rightarrow> if h_magic h = HEADER_MAGIC then Some (h, base, ks) else None)))"

text \<open>\<open>std::set::emplace\<close> and \<open>std::map::emplace\<close> keep their elements sorted.\<close>

fun collect_from :: "octets \<Rightarrow> octets \<Rightarrow> octets list \<Rightarrow> octets list" where
  "collect_from pre [] dirs = dirs"
| "collect_from pre (c # cs) dirs = collect_from (pre @ [c]) cs
     (if c = slash then insort_insert (pre @ [c]) dirs else dirs)"

definition collectParentDirectories :: "octets \<Rightarrow> octets list \<Rightarrow> octets list" where
  "collectParentDirectories p dirs = collect_from [] p dirs"

definition entries_emplace :: "dat_entry \<Rightarrow> (octets \<times> dat_entry) list \<Rightarrow> (octets \<times> dat_entry) list option" where
  "entries_emplace e es = (if map_of es (e_path e) \<noteq> None then None
     else Some (insort_key fst (e_path e, e) es))"

definition entry_valid :: "u64 \<Rightarrow> u64 \<Rightarrow> dat_entry \<Rightarrow> bool" where
  "entry_valid readOffset archiveSize e \<longleftrightarrow> e_path e \<noteq> [] \<and> compressionType e \<le> CT_ZLIB
     \<and> fst (normalizeArchiveFilePath (e_path e))
     \<and> isRangeInside readOffset (offsetPos e) (sizeStored e) archiveSize
     \<and> \<not> (compressionType e = CT_NONE \<and> sizeFull e \<noteq> sizeStored e)"

fun read_entries :: "u64 \<Rightarrow> u64 \<Rightarrow> nat \<Rightarrow> octets \<Rightarrow> (octets \<times> dat_entry) list \<Rightarrow> octets list
    \<Rightarrow> (octets \<times> (octets \<times> dat_entry) list \<times> octets list) option" where
  "read_entries ro totalSize 0 bs es ds = Some (bs, es, ds)"
| "read_entries ro totalSize (Suc n) bs es ds = (case readU32LE bs of None \<Rightarrow> None
   | Some (recordSize, bs) \<Rightarrow>
      if recordSize = 0 \<or> length bs < unat recordSize then None
      else (case readEntryRecord (take (unat recordSize) bs) of None \<Rightarrow> None
        | Some (e, rest) \<Rightarrow> if rest \<noteq> [] \<or> \<not> entry_valid ro totalSize e then None
          else let e = e\<lparr>e_path := snd (normalizeArchiveFilePath (e_path e))\<rparr>;
                   ds = collectParentDirectories (e_path e) ds
            in (case entries_emplace e es of None \<Rightarrow> None
              | Some es \<Rightarrow> read_entries ro totalSize n (drop (unat recordSize) bs) es ds)))"

text \<open>\<open>open\<close> once the stream is open.\<close>

definition dat_load :: "zlib \<Rightarrow> octets \<Rightarrow> u64 \<Rightarrow> dat_archive option" where
  "dat_load Z file ro = (case header_at file ro of None \<Rightarrow> None
   | Some (h, base, step) \<Rightarrow>
      if headerSize h = 0 then None
      else if \<not> isRangeInside ro (headerOffset h) (headerSize h) (of_nat (length file)) then None
      else (case read_at file (unat (ro + ucast (headerOffset h))) (unat (headerSize h)) of None \<Rightarrow> None
        | Some encMeta \<Rightarrow> let (decMeta, base') = shiftBlock encMeta base step
          in (case inflate Z decMeta of None \<Rightarrow> None
            | Some metaBuf \<Rightarrow> if length metaBuf div 4 < unat (entryCount h) then None
              else (case read_entries ro (of_nat (length file)) (unat (entryCount h)) metaBuf [] [] of
                  None \<Rightarrow> None
                | Some (bs, es, ds) \<Rightarrow> if bs \<noteq> [] then None
                    else Some \<lparr>a_file = file, m_readOffset = ro, a_keyBase = base', a_keyStep = step,
                      m_entries = es, m_directories = ds\<rparr>))))"

definition dat_open :: "zlib \<Rightarrow> (octets \<Rightarrow> octets option) \<Rightarrow> octets \<Rightarrow> u64 \<Rightarrow> dat_archive option" where
  "dat_open Z disk path ro = (if \<not> valid_mode [FBinary] then None
     else case disk path of None \<Rightarrow> None | Some file \<Rightarrow> dat_load Z file ro)"

definition isDATArchive :: "(octets \<Rightarrow> octets option) \<Rightarrow> octets \<Rightarrow> u64 \<Rightarrow> bool" where
  "isDATArchive disk path ro = (case disk path of None \<Rightarrow> False
     | Some file \<Rightarrow> valid_mode [FIn, FBinary] \<and> header_at file ro \<noteq> None)"

text \<open>\<open>IFileSystemArchive::createFromFile\<close>: a DAT archive, or what the zip reader makes of it.\<close>

datatype 'z archive = Dat dat_archive | Zip 'z

definition createFromFile :: "zlib \<Rightarrow> (octets \<Rightarrow> 'z option) \<Rightarrow> (octets \<Rightarrow> octets option) \<Rightarrow> octets
    \<Rightarrow> 'z archive option" where
  "createFromFile Z zip_open disk path = (if isDATArchive disk path 0
     then map_option Dat (dat_open Z disk path 0) else map_option Zip (zip_open path))"

subsection \<open>Queries\<close>

datatype node_type = NUnknown | NFile | NDirectory

definition as_directory :: "octets \<Rightarrow> octets" where
  "as_directory name = (if name \<noteq> [] \<and> last name \<noteq> slash then name @ [slash] else name)"

definition dat_hasFile :: "dat_archive \<Rightarrow> octets \<Rightarrow> bool" where
  "dat_hasFile A name \<longleftrightarrow> map_of (m_entries A) name \<noteq> None"

definition dat_hasNode :: "dat_archive \<Rightarrow> octets \<Rightarrow> bool" where
  "dat_hasNode A name = (if map_of (m_entries A) name \<noteq> None then True
     else as_directory name \<in> set (m_directories A))"

definition dat_getNodeType :: "dat_archive \<Rightarrow> octets \<Rightarrow> node_type" where
  "dat_getNodeType A name = (if map_of (m_entries A) name \<noteq> None then NFile
     else if as_directory name \<in> set (m_directories A) then NDirectory else NUnknown)"

definition dat_getFileSize :: "dat_archive \<Rightarrow> octets \<Rightarrow> u64" where
  "dat_getFileSize A name = (case map_of (m_entries A) name of None \<Rightarrow> 0 | Some e \<Rightarrow> ucast (sizeFull e))"

definition dat_hasDirectory :: "dat_archive \<Rightarrow> octets \<Rightarrow> bool" where
  "dat_hasDirectory A name = (if name = [] then True else as_directory name \<in> set (m_directories A))"

text \<open>
  A CRC that does not match is only logged.  \<open>None\<close> is a failed read.
\<close>

definition readEntryData :: "zlib \<Rightarrow> dat_archive \<Rightarrow> dat_entry \<Rightarrow> octets option" where
  "readEntryData Z A e =
    (case (if sizeStored e = 0 then Some []
           else read_at (a_file A) (unat (m_readOffset A + ucast (offsetPos e))) (unat (sizeStored e))) of
       None \<Rightarrow> None
     | Some raw \<Rightarrow> let rawBuf = fst (shiftBlock raw (e_keyBase e) (e_keyStep e)) in
        if compressionType e = CT_NONE then Some rawBuf
        else if compressionType e = CT_ZLIB then
          (if sizeFull e = 0 then Some []
           else if sizeStored e = 0 then None
           else (case uncompress Z rawBuf (unat (sizeFull e)) of None \<Rightarrow> None
             | Some outBuf \<Rightarrow> if length outBuf \<noteq> unat (sizeFull e) then None else Some outBuf))
        else None)"

definition dat_readFile :: "zlib \<Rightarrow> dat_archive \<Rightarrow> octets \<Rightarrow> octets option" where
  "dat_readFile Z A name = (case map_of (m_entries A) name of None \<Rightarrow> None | Some e \<Rightarrow> readEntryData Z A e)"

subsection \<open>Enumeration\<close>

definition isSeparator :: "u8 \<Rightarrow> bool" where
  "isSeparator c \<longleftrightarrow> c = slash \<or> c = backslash"

definition isPathEndsWithSeparator :: "octets \<Rightarrow> bool" where
  "isPathEndsWithSeparator p \<longleftrightarrow> p \<noteq> [] \<and> isSeparator (last p)"

definition isPathStartsWith :: "octets \<Rightarrow> octets \<Rightarrow> bool" where
  "isPathStartsWith p start = (if length p < length start then False
     else list_all2 (\<lambda>a b. isSeparator a \<and> isSeparator b \<or> a = b) (take (length start) p) start)"

definition isPathMatched :: "octets \<Rightarrow> octets \<Rightarrow> bool \<Rightarrow> bool" where
  "isPathMatched p directory recursive = (if \<not> isPathStartsWith p directory then False
     else if length p = length directory then False
     else if recursive then True
     else let leaf = drop (length directory) p; separators = length (filter isSeparator leaf)
       in if separators = 0 then True
          else if separators = 1 \<and> isPathEndsWithSeparator leaf then True else False)"

record dat_item =
  item_name :: octets
  isDirectory :: bool
  item_size :: u32

record dat_enumerator =
  en_archive :: dat_archive
  en_items :: "dat_item list"
  en_index :: int

text \<open>\<open>normalized\<close> is the directory after \<open>normalizePath\<close> (\<open>std::filesystem\<close>).\<close>

definition enumerator_dir :: "octets \<Rightarrow> octets \<Rightarrow> octets" where
  "enumerator_dir directory normalized = (if directory = [] \<or> normalized = [] then []
     else if isPathEndsWithSeparator normalized then normalized else normalized @ [slash])"

definition createEnumerator :: "dat_archive \<Rightarrow> octets \<Rightarrow> octets \<Rightarrow> bool \<Rightarrow> dat_enumerator" where
  "createEnumerator A directory normalized recursive = (let dir = enumerator_dir directory normalized in
     \<lparr>en_archive = A,
      en_items = map (\<lambda>(p, e). \<lparr>item_name = p, isDirectory = False, item_size = sizeFull e\<rparr>)
          (filter (\<lambda>(p, e). isPathMatched p dir recursive) (m_entries A))
        @ map (\<lambda>p. \<lparr>item_name = p, isDirectory = True, item_size = 0\<rparr>)
          (filter (\<lambda>p. isPathMatched p dir recursive) (m_directories A)),
      en_index = -1\<rparr>)"

definition en_current :: "dat_enumerator \<Rightarrow> dat_item option" where
  "en_current en = (if en_index en < 0 \<or> int (length (en_items en)) \<le> en_index en then None
     else Some (en_items en ! nat (en_index en)))"

definition en_next :: "dat_enumerator \<Rightarrow> bool \<times> dat_enumerator" where
  "en_next en = (let en = en\<lparr>en_index := en_index en + 1\<rparr> in
     (0 \<le> en_index en \<and> en_index en < int (length (en_items en)), en))"

definition en_getName :: "dat_enumerator \<Rightarrow> octets" where
  "en_getName en = (case en_current en of None \<Rightarrow> [] | Some it \<Rightarrow> item_name it)"

definition en_getNodeType :: "dat_enumerator \<Rightarrow> node_type" where
  "en_getNodeType en = (case en_current en of None \<Rightarrow> NUnknown
     | Some it \<Rightarrow> if isDirectory it then NDirectory else NFile)"

definition en_getFileSize :: "dat_enumerator \<Rightarrow> u64" where
  "en_getFileSize en = (case en_current en of None \<Rightarrow> 0 | Some it \<Rightarrow> ucast (item_size it))"

definition en_readFile :: "zlib \<Rightarrow> dat_enumerator \<Rightarrow> octets option" where
  "en_readFile Z en = (case en_current en of None \<Rightarrow> None
     | Some it \<Rightarrow> if isDirectory it then None else dat_readFile Z (en_archive en) (item_name it))"

end
