(* ===== verification/DatCreator.thy ===== *)
theory DatCreator
  imports DatArchive
begin

text \<open>
  Writing a DAT archive (\<open>DATArchiveCreator\<close>): a first pass puts the contents one after another
  into a temporary file and collects the entry table, a second pass enciphers it into the output.
  Writing to an open file is taken to succeed.
\<close>

record dat_disk =
  source_file :: "octets \<Rightarrow> octets option"
  tmp_opens :: bool
  dest_opens :: bool

definition addFile :: "octets list \<Rightarrow> octets \<Rightarrow> octets list" where
  "addFile files relativePath = files @ [normalizeSlashes relativePath]"

subsection \<open>The entries\<close>

text \<open>What is stored for a file: the compression type and the bytes.  \<open>None\<close> aborts the creation.\<close>

definition stored_content :: "zlib \<Rightarrow> octets \<Rightarrow> (u8 \<times> octets) option" where
  "stored_content Z content = (if 0x100 \<le> length content
     then (case deflate Z content of
         Some compressed \<Rightarrow> if fits_u32 (length compressed) then Some (CT_ZLIB, compressed) else None
       | None \<Rightarrow> Some (CT_NONE, content))
     else Some (CT_NONE, content))"

definition create_entry :: "zlib \<Rightarrow> dat_disk \<Rightarrow> u8 \<Rightarrow> u8 \<Rightarrow> octets \<Rightarrow> octets \<Rightarrow> (dat_entry \<times> octets) option" where
  "create_entry Z D headerKeyBase headerKeyStep tmpFile originalName =
    (let (ok, name) = normalizeArchiveFilePath originalName in
     if \<not> ok then None
     else (case source_file D name of None \<Rightarrow> None
       | Some content \<Rightarrow> if \<not> fits_u32 (length content) \<or> \<not> fits_u32 (length tmpFile) then None
         else let (kb, ks) = getKeyHashFile name headerKeyBase headerKeyStep
           in (case stored_content Z content of None \<Rightarrow> None
             | Some (ct, stored) \<Rightarrow> Some (\<lparr>e_path = name, compressionType = ct,
                 sizeFull = of_nat (length content), sizeStored = of_nat (length stored),
                 offsetPos = of_nat (length tmpFile), e_keyBase = kb, e_keyStep = ks,
                 crc32Value = crc32_z Z content\<rparr>, stored))))"

fun create_entries :: "zlib \<Rightarrow> dat_disk \<Rightarrow> u8 \<Rightarrow> u8 \<Rightarrow> octets list \<Rightarrow> octets \<Rightarrow> dat_entry list
    \<Rightarrow> (octets \<times> dat_entry list) option" where
  "create_entries Z D kb ks [] tmpFile entries = Some (tmpFile, entries)"
| "create_entries Z D kb ks (f # fs) tmpFile entries =
     (case create_entry Z D kb ks tmpFile f of None \<Rightarrow> None
      | Some (e, stored) \<Rightarrow> create_entries Z D kb ks fs (tmpFile @ stored) (entries @ [e]))"

fun write_meta :: "dat_entry list \<Rightarrow> octets \<Rightarrow> octets option" where
  "write_meta [] metaBuf = Some metaBuf"
| "write_meta (e # es) metaBuf = (case writeEntryRecord [] e of None \<Rightarrow> None
     | Some recordBuf \<Rightarrow> if \<not> fits_u32 (length recordBuf) then None
         else write_meta es (appendU32LE metaBuf (of_nat (length recordBuf)) @ recordBuf))"

subsection \<open>The second pass\<close>

definition write_at :: "octets \<Rightarrow> nat \<Rightarrow> octets \<Rightarrow> octets" where
  "write_at file p bs = take p (file @ replicate (p - length file) 0) @ bs @ drop (p + length bs) file"

definition CHUNK :: nat where "CHUNK = 16384"

text \<open>The copying loop: \<open>remaining\<close> bytes from \<open>p\<close> on, in blocks of \<open>CHUNK\<close>.\<close>

function encrypt_range :: "octets \<Rightarrow> nat \<Rightarrow> nat \<Rightarrow> u8 \<Rightarrow> u8 \<Rightarrow> octets \<Rightarrow> (octets \<times> u8) option" where
  "encrypt_range src p remaining base step dest = (if remaining = 0 then Some (dest, base)
     else let toRead = min remaining CHUNK in
       (case read_at src p toRead of None \<Rightarrow> None
        | Some buf \<Rightarrow> let (enc, base') = shiftBlock buf base step in
            encrypt_range src (p + toRead) (remaining - toRead) base' step (write_at dest p enc)))"
  by pat_completeness auto
termination
  by (relation "measure (\<lambda>(src, p, remaining, base, step, dest). remaining)") (auto simp: CHUNK_def)

declare encrypt_range.simps [simp del]

fun encrypt_entries :: "octets \<Rightarrow> dat_entry list \<Rightarrow> octets \<Rightarrow> octets option" where
  "encrypt_entries src [] dest = Some dest"
| "encrypt_entries src (e # es) dest =
     (case encrypt_range src (unat (offsetPos e)) (unat (sizeStored e)) (e_keyBase e) (e_keyStep e) dest of
        None \<Rightarrow> None | Some (dest, _) \<Rightarrow> encrypt_entries src es dest)"

definition encryptArchive :: "dat_disk \<Rightarrow> octets \<Rightarrow> dat_header \<Rightarrow> u8 \<Rightarrow> u8 \<Rightarrow> dat_entry list \<Rightarrow> octets option" where
  "encryptArchive D src h keyBase keyStep entries =
    (if \<not> dest_opens D then None
     else (case read_at src 0 sizeof_header of None \<Rightarrow> None
       | Some buf \<Rightarrow> let (enc, headerBase) = shiftBlock buf keyBase keyStep in
          (case encrypt_entries src entries enc of None \<Rightarrow> None
           | Some dest \<Rightarrow> map_option fst
               (encrypt_range src (unat (headerOffset h)) (unat (headerSize h)) headerBase keyStep dest))))"

text \<open>\<open>create\<close>: the bytes of the output file, or failure.\<close>

definition dat_create :: "zlib \<Rightarrow> dat_disk \<Rightarrow> octets list \<Rightarrow> octets option" where
  "dat_create Z D files = (let (kb, ks) = getKeyHashHeader ENCRYPTION_KEY in
     if \<not> tmp_opens D \<or> \<not> fits_u32 (length files) then None
     else let h = \<lparr>h_magic = HEADER_MAGIC, entryCount = of_nat (length files), headerOffset = 0, headerSize = 0\<rparr>
     in (case create_entries Z D kb ks files (writeHeader h) [] of None \<Rightarrow> None
      | Some (tmpFile, entries) \<Rightarrow> if \<not> fits_u32 (length tmpFile) then None
        else let h = h\<lparr>headerOffset := of_nat (length tmpFile)\<rparr>
          in (case write_meta entries [] of None \<Rightarrow> None
            | Some metaBuf \<Rightarrow> (case deflate Z metaBuf of None \<Rightarrow> None
              | Some compMeta \<Rightarrow> if \<not> fits_u32 (length compMeta) then None
                else let h = h\<lparr>headerSize := of_nat (length compMeta)\<rparr>;
                         tmpFile = write_at (tmpFile @ compMeta) 0 (writeHeader h)
                  in encryptArchive D tmpFile h kb ks entries))))"

subsection \<open>What the passes do\<close>

lemma write_at_after [simp]: "write_at (write_at d p a) (p + length a) b = write_at d p (a @ b)"
  by (cases "length d \<le> p") (auto simp: write_at_def min_def ac_simps)

lemma write_at_end: "length d = p \<Longrightarrow> write_at d p bs = d @ bs"
  by (simp add: write_at_def)

lemma encrypt_range_whole:
  "p + remaining \<le> length src \<Longrightarrow> encrypt_range src p remaining base step dest =
    Some (if remaining = 0 then dest else write_at dest p (fst (shiftBlock (take remaining (drop p src)) base step)),
      snd (shiftBlock (take remaining (drop p src)) base step))"
proof (induction src p remaining base step dest rule: encrypt_range.induct)
  case (1 src p remaining base step dest)
  show ?case
  proof (cases "remaining = 0")
    case True
    then show ?thesis by (simp add: encrypt_range.simps)
  next
    case False
    define n where "n = min remaining CHUNK"
    have n: "n \<le> remaining" "0 < n" using False by (auto simp: n_def CHUNK_def)
    define buf where "buf = take n (drop p src)"
    have rd: "read_at src p n = Some buf" using 1(2) n by (simp add: read_at_def buf_def)
    have len: "length buf = n" using 1(2) n by (simp add: buf_def)
    have split: "take remaining (drop p src) = buf @ take (remaining - n) (drop (p + n) src)"
      using n by (simp add: buf_def take_add[symmetric] flip: drop_drop) (metis add.commute drop_drop le_add_diff_inverse take_add)
    have IH: "encrypt_range src (p + n) (remaining - n) (snd (shiftBlock buf base step)) step
          (write_at dest p (fst (shiftBlock buf base step))) =
        Some (if remaining - n = 0 then write_at dest p (fst (shiftBlock buf base step))
            else write_at (write_at dest p (fst (shiftBlock buf base step))) (p + n)
              (fst (shiftBlock (take (remaining - n) (drop (p + n) src)) (snd (shiftBlock buf base step)) step)),
          snd (shiftBlock (take (remaining - n) (drop (p + n) src)) (snd (shiftBlock buf base step)) step))"
      using 1(1)[OF False n_def rd, of "shiftBlock buf base step" "fst (shiftBlock buf base step)" "snd (shiftBlock buf base step)"] 1(2) n by simp
    have "encrypt_range src p remaining base step dest = encrypt_range src (p + n) (remaining - n)
        (snd (shiftBlock buf base step)) step (write_at dest p (fst (shiftBlock buf base step)))"
      using False rd by (subst encrypt_range.simps) (simp add: Let_def case_prod_unfold flip: n_def)
    then show ?thesis
      using IH False n write_at_after[of dest p "fst (shiftBlock buf base step)"] len
      by (auto simp: split shiftBlock_append)
  qed
qed

end
