(* ===== verification/DatLayout.thy ===== *)
theory DatLayout
  imports DatCreator
begin

text \<open>
  How an archive is laid out: ranges of a file, the entry table as bytes, the place of every
  content in the temporary file and in the enciphered output.
\<close>

subsection \<open>Ranges\<close>

lemma range_nat:
  fixes a b c t M :: nat
  assumes "a < M" "b < M" "c < M" "t < M"
  shows "(\<not> (a + b) mod M < a \<and> (a + b) mod M \<le> t \<and>
     (a + b) mod M \<le> ((a + b) mod M + c) mod M \<and> ((a + b) mod M + c) mod M \<le> t)
    \<longleftrightarrow> a + b + c \<le> t"
proof -
  have wrap: "x mod M = (if x < M then x else x - M)" if "x < 2 * M" for x
    using that by (auto simp: mod_if)
  have 1: "(a + b) mod M = (if a + b < M then a + b else a + b - M)"
    using assms by (intro wrap) linarith
  then have "(a + b) mod M < M" using assms by auto
  then have 2: "((a + b) mod M + c) mod M =
      (if (a + b) mod M + c < M then (a + b) mod M + c else (a + b) mod M + c - M)"
    using assms by (intro wrap) linarith
  show ?thesis
    using assms unfolding 2 unfolding 1 by (auto split: if_splits)
qed

lemma isRangeInside_iff:
  "isRangeInside ro off sz t \<longleftrightarrow> unat ro + unat off + unat sz \<le> unat t"
proof -
  have lt: "unat ro < 2 ^ 64" "unat off < 2 ^ 32" "unat sz < 2 ^ 32" "unat t < 2 ^ 64"
    using unsigned_less[of ro, where ?'a = nat] unsigned_less[of off, where ?'a = nat]
      unsigned_less[of sz, where ?'a = nat] unsigned_less[of t, where ?'a = nat] by simp_all
  have c: "unat (ucast w :: u64) = unat w" for w :: u32
    using unsigned_less[of w, where ?'a = nat] by (simp add: unsigned_ucast_eq take_bit_nat_eq_self)
  have u: "unat (ro + ucast off) = (unat ro + unat off) mod 2 ^ 64"
    "unat (ro + ucast off + ucast sz) = ((unat ro + unat off) mod 2 ^ 64 + unat sz) mod 2 ^ 64"
    by (simp_all add: unat_word_ariths c)
  show ?thesis
    using range_nat[of "unat ro" "2 ^ 64" "unat off" "unat sz" "unat t"] lt
    by (auto simp: isRangeInside_def Let_def word_less_nat_alt word_le_nat_alt u not_less)
qed

lemma word_add_nat: "unat (ro + ucast (off :: u32) :: u64) = unat ro + unat off"
  if "unat ro + unat off < 2 ^ 64"
proof -
  have "unat (ucast off :: u64) = unat off"
    using unsigned_less[of off, where ?'a = nat] by (simp add: unsigned_ucast_eq take_bit_nat_eq_self)
  then show ?thesis using that by (simp add: unat_word_ariths)
qed

lemma read_at_range:
  assumes "isRangeInside ro off sz (of_nat (length file))" "length file < 2 ^ 64"
  shows "read_at file (unat (ro + ucast off)) (unat sz) =
    Some (take (unat sz) (drop (unat ro + unat off) file))"
proof -
  have "unat (of_nat (length file) :: u64) = length file" using assms(2) by (simp add: unat_of_nat)
  then have "unat ro + unat off + unat sz \<le> length file" using assms(1) by (simp add: isRangeInside_iff)
  then show ?thesis using word_add_nat[of ro off] assms(2) by (simp add: read_at_def)
qed

subsection \<open>The sorted tables\<close>

lemma map_of_insort:
  "k \<notin> fst ` set xs \<Longrightarrow> map_of (insort_key fst (k, v) xs) = (map_of xs)(k \<mapsto> v)"
  by (induction xs) (auto simp: fun_eq_iff)

lemma entries_emplace_Some [option_inv]:
  "entries_emplace e es = Some es' \<longleftrightarrow> e_path e \<notin> fst ` set es \<and> es' = insort_key fst (e_path e, e) es"
  by (auto simp: entries_emplace_def map_of_eq_None_iff)

text \<open>The table of an open archive.\<close>

definition parents :: "octets \<Rightarrow> octets set" where
  "parents p = {take (Suc i) p | i. i < length p \<and> p ! i = slash}"

definition table_ok :: "u64 \<Rightarrow> u64 \<Rightarrow> (octets \<times> dat_entry) list \<Rightarrow> octets list \<Rightarrow> bool" where
  "table_ok ro t es ds \<longleftrightarrow> sorted (map fst es) \<and> distinct (map fst es)
     \<and> (\<forall>(p, e) \<in> set es. e_path e = p \<and> entry_valid ro t e \<and> normalizeArchiveFilePath p = (True, p))
     \<and> sorted ds \<and> distinct ds \<and> set ds = (\<Union>p \<in> fst ` set es. parents p)"

lemma collect_from_spec:
  "set (collect_from pre cs ds) = set ds \<union> {pre @ take (Suc i) cs | i. i < length cs \<and> cs ! i = slash}
   \<and> (sorted ds \<longrightarrow> sorted (collect_from pre cs ds)) \<and> (distinct ds \<longrightarrow> distinct (collect_from pre cs ds))"
proof (induction pre cs ds rule: collect_from.induct)
  case (2 pre c cs dirs)
  have "{pre @ take (Suc i) (c # cs) | i. i < length (c # cs) \<and> (c # cs) ! i = slash} =
    (if c = slash then {pre @ [c]} else {}) \<union> {(pre @ [c]) @ take (Suc i) cs | i. i < length cs \<and> cs ! i = slash}"
    by (auto simp: less_Suc_eq_0_disj)
  then show ?case
    using 2 by (auto simp: set_insort_insert sorted_insort_insert distinct_insort_insert)
qed simp

lemma collect_spec:
  "set (collectParentDirectories p ds) = set ds \<union> parents p"
  "sorted ds \<Longrightarrow> sorted (collectParentDirectories p ds)"
  "distinct ds \<Longrightarrow> distinct (collectParentDirectories p ds)"
  using collect_from_spec[of "[]" p ds] by (auto simp: collectParentDirectories_def parents_def)

lemma read_entries_ok:
  "read_entries ro t n bs es ds = Some (bs', es', ds') \<Longrightarrow> table_ok ro t es ds \<Longrightarrow> table_ok ro t es' ds'"
proof (induction n arbitrary: bs es ds)
  case (Suc n)
  obtain sz bs1 e where r: "readU32LE bs = Some (sz, bs1)"
      "\<not> (sz = 0 \<or> length bs1 < unat sz)" "readEntryRecord (take (unat sz) bs1) = Some (e, [])" "entry_valid ro t e"
    and rest: "(case entries_emplace (e\<lparr>e_path := snd (normalizeArchiveFilePath (e_path e))\<rparr>) es of None \<Rightarrow> None
       | Some es \<Rightarrow> read_entries ro t n (drop (unat sz) bs1) es
          (collectParentDirectories (snd (normalizeArchiveFilePath (e_path e))) ds)) = Some (bs', es', ds')"
    using Suc(2) by (auto simp: Let_def split: option.split_asm if_split_asm)
  define p where "p = snd (normalizeArchiveFilePath (e_path e))"
  define e1 where "e1 = e\<lparr>e_path := p\<rparr>"
  have p: "normalizeArchiveFilePath p = (True, p)"
    using r(4) normalizeArchiveFilePath_idem[of "e_path e" True p] unfolding entry_valid_def p_def
    by (metis prod.collapse)
  have pn: "p \<noteq> []" using p by (auto simp: normalizeArchiveFilePath_def Let_def)
  have e1: "e_path e1 = p" "entry_valid ro t e1" using r(4) p pn by (simp_all add: e1_def entry_valid_def)
  obtain es1 where es1: "entries_emplace e1 es = Some es1"
    and go: "read_entries ro t n (drop (unat sz) bs1) es1 (collectParentDirectories p ds) = Some (bs', es', ds')"
    using rest unfolding p_def[symmetric] e1_def[symmetric] by (auto split: option.split_asm)
  have ok1: "table_ok ro t es1 (collectParentDirectories p ds)"
    using es1 Suc(3) e1 p collect_spec(1)[of p ds] collect_spec(2,3)[of ds p]
    by (auto simp: table_ok_def option_inv set_insort_key sorted_insort_key distinct_insort_key)
  show ?case by (rule Suc(1)[OF go ok1])
qed simp

end
