(* ===== verification/DatWritten.thy ===== *)
theory DatWritten
  imports DatLayout
begin

text \<open>
  What the creator has written, read back: the entry table, and the place and the cipher of every
  content in the output.
\<close>

subsection \<open>The entry table as bytes\<close>

definition record_bytes :: "dat_entry \<Rightarrow> octets" where
  "record_bytes e = u32le (of_nat (length (entry_bytes e))) @ entry_bytes e"

definition meta_bytes :: "dat_entry list \<Rightarrow> octets" where
  "meta_bytes es = concat (map record_bytes es)"

lemma write_meta_bytes:
  "write_meta es buf = Some m \<Longrightarrow> m = buf @ meta_bytes es \<and>
    (\<forall>e \<in> set es. fits_u32 (length (e_path e)) \<and> fits_u32 (length (entry_bytes e)))"
proof (induction es arbitrary: buf)
  case (Cons e es)
  then have "write_meta es (buf @ record_bytes e) = Some m"
    and "fits_u32 (length (e_path e)) \<and> fits_u32 (length (entry_bytes e))"
    by (auto simp: writeEntryRecord_bytes record_bytes_def appendU32LE_def split: if_split_asm)
  then show ?case using Cons.IH[of "buf @ record_bytes e"] by (simp add: meta_bytes_def)
qed (simp add: meta_bytes_def)

definition table_of :: "dat_entry list \<Rightarrow> (octets \<times> dat_entry) list \<Rightarrow> (octets \<times> dat_entry) list" where
  "table_of es acc = fold (\<lambda>e. insort_key fst (e_path e, e)) es acc"

definition dirs_of :: "dat_entry list \<Rightarrow> octets list \<Rightarrow> octets list" where
  "dirs_of es ds = fold (\<lambda>e. collectParentDirectories (e_path e)) es ds"

lemma read_entries_meta:
  assumes "\<forall>e \<in> set es. fits_u32 (length (e_path e)) \<and> fits_u32 (length (entry_bytes e))
      \<and> normalizeArchiveFilePath (e_path e) = (True, e_path e) \<and> entry_valid ro t e"
    and "distinct (map e_path es)" "set (map e_path es) \<inter> fst ` set acc = {}"
  shows "read_entries ro t (length es) (meta_bytes es) acc ds = Some ([], table_of es acc, dirs_of es ds)"
  using assms
proof (induction es arbitrary: acc ds)
  case (Cons e es)
  have n: "unat (of_nat (length (entry_bytes e)) :: u32) = length (entry_bytes e)"
    using Cons.prems(1) by (simp add: unat_of_length)
  then have nz: "(of_nat (length (entry_bytes e)) :: u32) \<noteq> 0"
    by (metis entry_bytes_length add_is_0 unat_0 zero_neq_numeral)
  have rd: "readU32LE (meta_bytes (e # es)) = Some (of_nat (length (entry_bytes e)), entry_bytes e @ meta_bytes es)"
    by (simp add: meta_bytes_def record_bytes_def)
  have rec: "readEntryRecord (entry_bytes e) = Some (e, [])"
    using Cons.prems(1) by (simp add: readEntryRecord_bytes)
  have em: "entries_emplace e acc = Some (insort_key fst (e_path e, e) acc)"
    using Cons.prems(3) by (auto simp: option_inv)
  have "read_entries ro t (length es) (meta_bytes es) (insort_key fst (e_path e, e) acc)
      (collectParentDirectories (e_path e) ds) = Some ([], table_of (e # es) acc, dirs_of (e # es) ds)"
    using Cons.prems by (subst Cons.IH) (auto simp: table_of_def dirs_of_def set_insort_key)
  then show ?case
    using rd nz rec em Cons.prems(1) n by (simp add: Let_def del: entry_bytes_length)
qed (simp add: table_of_def dirs_of_def meta_bytes_def)

lemma table_of_map:
  assumes "distinct (map e_path es)" "set (map e_path es) \<inter> fst ` set acc = {}"
  shows "map_of (table_of es acc) = (\<lambda>p. if p \<in> set (map e_path es) then Some (the (find (\<lambda>e. e_path e = p) es)) else map_of acc p)"
  using assms
proof (induction es arbitrary: acc)
  case (Cons e es)
  have "map_of (table_of (e # es) acc) = map_of (table_of es (insort_key fst (e_path e, e) acc))"
    by (simp add: table_of_def)
  also have "\<dots> = (\<lambda>p. if p \<in> set (map e_path es) then Some (the (find (\<lambda>e. e_path e = p) es))
      else map_of (insort_key fst (e_path e, e) acc) p)"
    using Cons.prems by (subst Cons.IH) (auto simp: set_insort_key)
  finally show ?case using Cons.prems by (auto simp: fun_eq_iff map_of_insort)
qed (simp add: table_of_def)

lemma find_path: "e \<in> set es \<Longrightarrow> distinct (map e_path es) \<Longrightarrow> find (\<lambda>x. e_path x = e_path e) es = Some e"
  by (induction es) (auto simp: image_iff)

lemma meta_long: "length es \<le> length (meta_bytes es) div 4"
proof -
  have "4 * length es \<le> length (meta_bytes es)"
    by (induction es) (simp_all add: meta_bytes_def record_bytes_def)
  then show ?thesis by simp
qed

subsection \<open>The contents\<close>

definition written :: "zlib \<Rightarrow> dat_disk \<Rightarrow> octets \<Rightarrow> nat \<Rightarrow> dat_entry \<Rightarrow> octets \<Rightarrow> bool" where
  "written Z D f p e raw \<longleftrightarrow> normalizeArchiveFilePath f = (True, e_path e) \<and> offsetPos e = of_nat p \<and> fits_u32 p
     \<and> sizeStored e = of_nat (length raw) \<and> fits_u32 (length raw)
     \<and> (\<exists>content. source_file D (e_path e) = Some content \<and> sizeFull e = of_nat (length content)
        \<and> fits_u32 (length content)
        \<and> (compressionType e = CT_NONE \<and> raw = content
           \<or> compressionType e = CT_ZLIB \<and> deflate Z content = Some raw \<and> 0x100 \<le> length content))"

fun laid_out :: "zlib \<Rightarrow> dat_disk \<Rightarrow> nat \<Rightarrow> octets list \<Rightarrow> dat_entry list \<Rightarrow> octets list \<Rightarrow> bool" where
  "laid_out Z D p [] [] [] \<longleftrightarrow> True"
| "laid_out Z D p (f # fs) (e # es) (r # rs) \<longleftrightarrow> written Z D f p e r \<and> laid_out Z D (p + length r) fs es rs"
| "laid_out Z D p _ _ _ \<longleftrightarrow> False"

lemma create_entry_written:
  "create_entry Z D kb ks tmp f = Some (e, raw) \<Longrightarrow> written Z D f (length tmp) e raw"
  by (auto simp: create_entry_def written_def stored_content_def Let_def
      split: prod.split_asm if_split_asm option.split_asm)

lemma create_entries_laid_out:
  "create_entries Z D kb ks fs tmp es0 = Some (tmp', es') \<Longrightarrow>
    \<exists>es rs. es' = es0 @ es \<and> tmp' = tmp @ concat rs \<and> laid_out Z D (length tmp) fs es rs"
proof (induction fs arbitrary: tmp es0)
  case Nil
  then show ?case by (intro exI[of _ "[]"]) simp
next
  case (Cons f fs)
  then obtain e raw where e: "create_entry Z D kb ks tmp f = Some (e, raw)"
    and go: "create_entries Z D kb ks fs (tmp @ raw) (es0 @ [e]) = Some (tmp', es')"
    by (auto split: option.split_asm)
  obtain es rs where "es' = (es0 @ [e]) @ es" "tmp' = (tmp @ raw) @ concat rs"
    "laid_out Z D (length (tmp @ raw)) fs es rs"
    using Cons.IH[OF go] by blast
  then show ?case using create_entry_written[OF e]
    by (intro exI[of _ "e # es"] exI[of _ "raw # rs"]) simp
qed

definition enc_block :: "dat_entry \<Rightarrow> octets \<Rightarrow> octets" where
  "enc_block e r = fst (shiftBlock r (e_keyBase e) (e_keyStep e))"

fun enc_blocks :: "dat_entry list \<Rightarrow> octets list \<Rightarrow> octets" where
  "enc_blocks (e # es) (r # rs) = enc_block e r @ enc_blocks es rs"
| "enc_blocks _ _ = []"

lemma enc_block_length [simp]: "length (enc_block e r) = length r"
  by (simp add: enc_block_def)

lemma enc_blocks_length: "laid_out Z D p fs es rs \<Longrightarrow> length (enc_blocks es rs) = length (concat rs)"
  by (induction Z D p fs es rs rule: laid_out.induct) simp_all

lemma encrypt_entries_laid_out:
  "laid_out Z D p fs es rs \<Longrightarrow> drop p src = concat rs @ tail \<Longrightarrow> p \<le> length src \<Longrightarrow> length dest = p \<Longrightarrow>
    encrypt_entries src es dest = Some (dest @ enc_blocks es rs)"
proof (induction Z D p fs es rs arbitrary: dest rule: laid_out.induct)
  case (2 Z D p f fs e es r rs)
  have w: "unat (offsetPos e) = p" "unat (sizeStored e) = length r"
    using 2(2) by (auto simp: written_def unat_of_length)
  have "length src - p = length r + length (concat rs @ tail)"
    using 2(3) by (metis append_assoc concat.simps(2) length_append length_drop)
  then have inside: "p + length r \<le> length src" using 2(4) by simp
  have tk: "take (length r) (drop p src) = r" using 2(3) by simp
  have "encrypt_range src p (length r) (e_keyBase e) (e_keyStep e) dest
      = Some (dest @ enc_block e r, snd (shiftBlock r (e_keyBase e) (e_keyStep e)))"
    using encrypt_range_whole[OF inside, of "e_keyBase e" "e_keyStep e" dest] 2(5) tk
    by (auto simp: write_at_end enc_block_def)
  moreover have "encrypt_entries src es (dest @ enc_block e r) = Some ((dest @ enc_block e r) @ enc_blocks es rs)"
  proof (rule 2(1))
    show "laid_out Z D (p + length r) fs es rs" using 2(2) by simp
    show "drop (p + length r) src = concat rs @ tail"
    proof -
      have "drop (p + length r) src = drop (length r) (drop p src)" by (simp add: add.commute)
      then show ?thesis using 2(3) by (simp del: drop_drop)
    qed
    show "p + length r \<le> length src" by (rule inside)
    show "length (dest @ enc_block e r) = p + length r" using 2(5) by simp
  qed
  ultimately show ?case by (simp add: w)
qed simp_all

text \<open>The range of an entry in the enciphered contents.\<close>

lemma block_at:
  "laid_out Z D p fs es rs \<Longrightarrow> e \<in> set es \<Longrightarrow>
    \<exists>f r k. f \<in> set fs \<and> written Z D f (p + k) e r \<and> k + length r \<le> length (enc_blocks es rs)
      \<and> take (length r) (drop k (enc_blocks es rs)) = enc_block e r"
proof (induction Z D p fs es rs rule: laid_out.induct)
  case (2 Z D p f fs x es r rs)
  show ?case
  proof (cases "e = x")
    case True
    then show ?thesis using 2(2) by (intro exI[of _ f] exI[of _ r] exI[of _ 0]) simp
  next
    case False
    then obtain g q k where IH: "g \<in> set fs" "written Z D g (p + length r + k) e q"
        "k + length q \<le> length (enc_blocks es rs)" "take (length q) (drop k (enc_blocks es rs)) = enc_block e q"
      using 2 by auto
    then show ?thesis
      by (intro exI[of _ g] exI[of _ q] exI[of _ "length r + k"]) (simp add: add.assoc)
  qed
qed auto

lemma laid_out_paths:
  "laid_out Z D p fs es rs \<Longrightarrow> map (\<lambda>f. normalizeArchiveFilePath f) fs = map (\<lambda>e. (True, e_path e)) es"
  by (induction Z D p fs es rs rule: laid_out.induct) (auto simp: written_def)

end
