(* ===== verification/DatCorrect.thy ===== *)
theory DatCorrect
  imports DatWritten
begin

text \<open>
  The properties of DAT archives: what the creator writes is read back, what any file loads to is
  safe, and the mode the archive is opened with is refused.
\<close>

subsection \<open>The output of the creator\<close>

definition header_keys :: "u8 \<times> u8" where
  "header_keys = getKeyHashHeader ENCRYPTION_KEY"

definition dat_bytes :: "dat_header \<Rightarrow> dat_entry list \<Rightarrow> octets list \<Rightarrow> octets \<Rightarrow> octets" where
  "dat_bytes h es rs packed = fst (shiftBlock (writeHeader h) (fst header_keys) (snd header_keys)) @ enc_blocks es rs
     @ fst (shiftBlock packed (snd (shiftBlock (writeHeader h) (fst header_keys) (snd header_keys))) (snd header_keys))"

definition final_header :: "octets list \<Rightarrow> octets list \<Rightarrow> octets \<Rightarrow> dat_header" where
  "final_header files rs packed = \<lparr>h_magic = HEADER_MAGIC, entryCount = of_nat (length files),
     headerOffset = of_nat (sizeof_header + length (concat rs)), headerSize = of_nat (length packed)\<rparr>"

lemma magic_length [simp]: "length HEADER_MAGIC = 8"
  by (simp add: HEADER_MAGIC_def octets_of_def)

lemma final_header_fields [simp]:
  "h_magic (final_header files rs packed) = HEADER_MAGIC"
  "entryCount (final_header files rs packed) = of_nat (length files)"
  "headerOffset (final_header files rs packed) = of_nat (sizeof_header + length (concat rs))"
  "headerSize (final_header files rs packed) = of_nat (length packed)"
  by (simp_all add: final_header_def)

lemma encryptArchive_bytes:
  assumes lay: "laid_out Z D sizeof_header files es rs" and D: "dest_opens D"
    and fit: "fits_u32 (sizeof_header + length (concat rs))" "fits_u32 (length packed)"
  defines "h \<equiv> final_header files rs packed"
  shows "encryptArchive D (writeHeader h @ concat rs @ packed) h (fst header_keys) (snd header_keys) es
    = Some (dat_bytes h es rs packed)"
proof -
  let ?src = "writeHeader h @ concat rs @ packed"
  let ?kb = "fst header_keys" let ?ks = "snd header_keys"
  have lh: "length (writeHeader h) = sizeof_header" by (rule writeHeader_length) (simp add: h_def)
  let ?enc = "fst (shiftBlock (writeHeader h) ?kb ?ks)" let ?base = "snd (shiftBlock (writeHeader h) ?kb ?ks)"
  have rd: "read_at ?src 0 sizeof_header = Some (writeHeader h)" by (simp add: read_at_def lh)
  have es: "encrypt_entries ?src es ?enc = Some (?enc @ enc_blocks es rs)"
    by (rule encrypt_entries_laid_out[OF lay, where tail = packed]) (simp_all add: lh)
  define p where "p = sizeof_header + length (concat rs)"
  have dp: "drop p ?src = packed" by (simp add: p_def lh flip: drop_drop)
  have ld: "length (?enc @ enc_blocks es rs) = p" using enc_blocks_length[OF lay] by (simp add: p_def lh)
  have inside: "p + length packed \<le> length ?src" by (simp add: p_def lh)
  have off: "unat (headerOffset h) = p" "unat (headerSize h) = length packed"
    using fit by (simp_all add: h_def p_def unat_of_length del: of_nat_add)
  have "map_option fst (encrypt_range ?src p (length packed) ?base ?ks (?enc @ enc_blocks es rs)) = Some (dat_bytes h es rs packed)"
    unfolding encrypt_range_whole[OF inside] dp using ld
    by (simp add: write_at_end dat_bytes_def)
  then show ?thesis
    using D rd es off by (simp add: encryptArchive_def Let_def case_prod_unfold)
qed

lemma dat_create_bytes:
  assumes "dat_create Z D files = Some out"
  shows "\<exists>es rs packed. out = dat_bytes (final_header files rs packed) es rs packed \<and> laid_out Z D sizeof_header files es rs
    \<and> deflate Z (meta_bytes es) = Some packed \<and> fits_u32 (length packed) \<and> fits_u32 (length files)
    \<and> fits_u32 (sizeof_header + length (concat rs))
    \<and> (\<forall>e \<in> set es. fits_u32 (length (e_path e)) \<and> fits_u32 (length (entry_bytes e)))"
proof -
  let ?init = "\<lparr>h_magic = HEADER_MAGIC, entryCount = of_nat (length files), headerOffset = 0, headerSize = 0\<rparr>"
  have lh0: "length (writeHeader ?init) = sizeof_header" by (rule writeHeader_length) simp
  obtain tmp es meta packed where c: "create_entries Z D (fst header_keys) (snd header_keys) files (writeHeader ?init) [] = Some (tmp, es)"
      "fits_u32 (length tmp)" "write_meta es [] = Some meta" "deflate Z meta = Some packed" "fits_u32 (length packed)"
      "fits_u32 (length files)"
    and enc: "encryptArchive D (write_at (tmp @ packed) 0 (writeHeader (?init\<lparr>headerOffset := of_nat (length tmp), headerSize := of_nat (length packed)\<rparr>)))
        (?init\<lparr>headerOffset := of_nat (length tmp), headerSize := of_nat (length packed)\<rparr>) (fst header_keys) (snd header_keys) es = Some out"
    using assms by (auto simp: dat_create_def header_keys_def Let_def case_prod_unfold
        split: if_split_asm option.split_asm)
  obtain rs where rs: "tmp = writeHeader ?init @ concat rs" "laid_out Z D sizeof_header files es rs"
    using create_entries_laid_out[OF c(1)] unfolding lh0 by auto
  have m: "meta = meta_bytes es" "\<forall>e \<in> set es. fits_u32 (length (e_path e)) \<and> fits_u32 (length (entry_bytes e))"
    using write_meta_bytes[OF c(3)] by auto
  have lt: "length tmp = sizeof_header + length (concat rs)" by (simp add: rs(1) lh0 del: length_concat)
  let ?h = "final_header files rs packed"
  have "length (writeHeader ?h) = sizeof_header" by (rule writeHeader_length) simp
  then have src: "write_at (tmp @ packed) 0 (writeHeader ?h) = writeHeader ?h @ concat rs @ packed"
    using lh0 by (simp add: write_at_def rs(1))
  have "dest_opens D" using enc by (simp add: encryptArchive_def split: if_split_asm)
  then have "encryptArchive D (writeHeader ?h @ concat rs @ packed) ?h (fst header_keys) (snd header_keys) es
      = Some (dat_bytes ?h es rs packed)"
    using encryptArchive_bytes[OF rs(2) _ _ c(5)] c(2) lt by simp
  moreover have "encryptArchive D (write_at (tmp @ packed) 0 (writeHeader ?h)) ?h (fst header_keys) (snd header_keys) es = Some out"
    using enc by (simp add: final_header_def lt del: of_nat_add)
  ultimately have "out = dat_bytes ?h es rs packed" by (simp add: src)
  then show ?thesis using rs(2) c m lt by (metis (no_types))
qed

subsection \<open>Reading it back\<close>

text \<open>What zlib promises of data it has compressed itself.\<close>

definition zlib_ok :: "zlib \<Rightarrow> bool" where
  "zlib_ok Z \<longleftrightarrow> (\<forall>x y. deflate Z x = Some y \<longrightarrow>
     y \<noteq> [] \<and> inflate Z y = Some x \<and> uncompress Z y (length x) = Some x)"

lemma header_at_bytes:
  assumes "h_magic h = HEADER_MAGIC" "length pre + sizeof_header + length tail < 2 ^ 64"
  shows "header_at (pre @ fst (shiftBlock (writeHeader h) (fst header_keys) (snd header_keys)) @ tail) (of_nat (length pre))
    = Some (h, snd (shiftBlock (writeHeader h) (fst header_keys) (snd header_keys)), snd header_keys)"
proof -
  let ?enc = "fst (shiftBlock (writeHeader h) (fst header_keys) (snd header_keys))"
  have lh: "length (writeHeader h) = sizeof_header" by (rule writeHeader_length) (simp add: assms(1))
  have n: "unat (of_nat (length pre) :: u64) = length pre" using assms(2) by (simp add: unat_of_nat)
  have m: "unat (of_nat (length (pre @ ?enc @ tail)) :: u64) = length pre + sizeof_header + length tail"
    using assms(2) by (simp add: unat_of_nat lh del: of_nat_add)
  have fit: "\<not> (of_nat (length (pre @ ?enc @ tail)) :: u64) < of_nat (length pre)"
    unfolding word_less_nat_alt n m by simp
  have "unat ((of_nat (length (pre @ ?enc @ tail)) :: u64) - of_nat (length pre)) = sizeof_header + length tail"
    using fit unfolding unat_sub[OF fit[unfolded not_less]] n m by simp
  then have fit2: "\<not> (of_nat (length (pre @ ?enc @ tail)) :: u64) - of_nat (length pre) < of_nat sizeof_header"
    unfolding word_less_nat_alt by (simp add: sizeof_header_def)
  have rd: "read_at (pre @ ?enc @ tail) (length pre) sizeof_header = Some ?enc"
    by (simp add: read_at_def lh)
  have dec: "fst (shiftBlock ?enc (fst header_keys) (snd header_keys)) = writeHeader h" by (rule shiftBlock_twice)
  have base: "snd (shiftBlock ?enc (fst header_keys) (snd header_keys))
      = snd (shiftBlock (writeHeader h) (fst header_keys) (snd header_keys))"
    by (rule shiftBlock_base_length) simp
  have rh: "readHeader (writeHeader h) = Some h" by (rule readHeader_writeHeader) (simp add: assms(1))
  show ?thesis
    using fit fit2 rd dec base rh assms(1) n
    by (simp add: header_at_def Let_def case_prod_unfold header_keys_def[symmetric] del: of_nat_add length_append)
qed

lemma written_valid:
  assumes w: "written Z D f (sizeof_header + k) e r" and inside: "length pre + sizeof_header + k + length r \<le> n" "n < 2 ^ 64"
  shows "entry_valid (of_nat (length pre)) (of_nat n) e \<and> normalizeArchiveFilePath (e_path e) = (True, e_path e)"
proof -
  have p: "normalizeArchiveFilePath (e_path e) = (True, e_path e)"
    using w normalizeArchiveFilePath_idem by (auto simp: written_def)
  then have "e_path e \<noteq> []" by (auto simp: normalizeArchiveFilePath_def Let_def)
  moreover have "unat (of_nat (length pre) :: u64) = length pre" "unat (of_nat n :: u64) = n"
    using inside by (simp_all add: unat_of_nat)
  moreover have "unat (offsetPos e) = sizeof_header + k" "unat (sizeStored e) = length r"
    using w by (auto simp: written_def unat_of_length simp del: of_nat_add)
  ultimately show ?thesis
    using w p inside by (auto simp: entry_valid_def isRangeInside_iff written_def CT_NONE_def CT_ZLIB_def)
qed

lemma read_written:
  assumes Z: "zlib_ok Z" and w: "written Z D f (sizeof_header + k) e r"
    and A: "a_file A = pre @ hd_bytes @ blocks @ tail" "m_readOffset A = of_nat (length pre)"
      "length hd_bytes = sizeof_header" "length (a_file A) < 2 ^ 64"
    and blk: "k + length r \<le> length blocks" "take (length r) (drop k blocks) = enc_block e r"
  shows "readEntryData Z A e = source_file D (e_path e) \<and> source_file D (e_path e) \<noteq> None"
proof -
  obtain content where c: "source_file D (e_path e) = Some content" "sizeFull e = of_nat (length content)"
      "fits_u32 (length content)"
      "compressionType e = CT_NONE \<and> r = content
       \<or> compressionType e = CT_ZLIB \<and> deflate Z content = Some r \<and> 0x100 \<le> length content"
    using w unfolding written_def by blast
  have u: "unat (of_nat (length pre) :: u64) = length pre" using A(1,4) by (simp add: unat_of_nat)
  have sz: "unat (offsetPos e) = sizeof_header + k" "unat (sizeStored e) = length r" "unat (sizeFull e) = length content"
    using w c by (auto simp: written_def unat_of_length simp del: of_nat_add)
  have z: "sizeStored e = 0 \<longleftrightarrow> r = []" "sizeFull e = 0 \<longleftrightarrow> content = []"
    using sz by (metis length_0_conv unat_0 unat_eq_0)+
  have pos: "unat (m_readOffset A + ucast (offsetPos e)) = length pre + sizeof_header + k"
    using word_add_nat[of "m_readOffset A" "offsetPos e"] A blk(1) by (simp add: u sz)
  have "drop (length pre + sizeof_header + k) (a_file A) = drop k blocks @ tail"
    using A(3) blk(1) by (simp add: A(1))
  moreover have "length pre + sizeof_header + k + length r \<le> length (a_file A)" using A(1,3) blk(1) by simp
  ultimately have rd: "read_at (a_file A) (length pre + sizeof_header + k) (length r) = Some (enc_block e r)"
    using blk by (simp add: read_at_def)
  have dec: "fst (shiftBlock (enc_block e r) (e_keyBase e) (e_keyStep e)) = r"
    by (simp add: enc_block_def shiftBlock_twice)
  have raw: "(if sizeStored e = 0 then Some [] else read_at (a_file A) (unat (m_readOffset A + ucast (offsetPos e))) (unat (sizeStored e)))
      = Some (enc_block e r)"
    using rd by (auto simp: z pos sz enc_block_def)
  show ?thesis
    using c(4)
  proof (elim disjE conjE)
    assume "compressionType e = CT_NONE" "r = content"
    then show ?thesis unfolding readEntryData_def raw using dec c(1) by (simp add: Let_def)
  next
    assume t: "compressionType e = CT_ZLIB" "deflate Z content = Some r" "0x100 \<le> length content"
    have "r \<noteq> []" "uncompress Z r (length content) = Some content"
      using Z t(2) by (simp_all add: zlib_ok_def)
    moreover have "content \<noteq> []" using t(3) by auto
    ultimately show ?thesis
      unfolding readEntryData_def raw using t(1) dec c(1) z by (simp add: Let_def sz CT_NONE_def CT_ZLIB_def)
  qed
qed

lemma dat_load_bytes:
  fixes files rs packed
  defines "h \<equiv> final_header files rs packed"
  assumes Z: "zlib_ok Z" and lay: "laid_out Z D sizeof_header files es rs"
    and meta: "deflate Z (meta_bytes es) = Some packed" "fits_u32 (length packed)" "fits_u32 (length files)"
      "fits_u32 (sizeof_header + length (concat rs))"
      "\<forall>e \<in> set es. fits_u32 (length (e_path e)) \<and> fits_u32 (length (entry_bytes e))"
    and names: "distinct (map e_path es)" and len: "length pre + length (dat_bytes h es rs packed) < 2 ^ 64"
  shows "\<exists>A. dat_load Z (pre @ dat_bytes h es rs packed) (of_nat (length pre)) = Some A
    \<and> a_file A = pre @ dat_bytes h es rs packed \<and> m_readOffset A = of_nat (length pre)
    \<and> m_entries A = table_of es []"
proof -
  let ?kb = "fst header_keys" let ?ks = "snd header_keys"
  let ?base = "snd (shiftBlock (writeHeader h) ?kb ?ks)"
  let ?encH = "fst (shiftBlock (writeHeader h) ?kb ?ks)" let ?encM = "fst (shiftBlock packed ?base ?ks)"
  let ?file = "pre @ dat_bytes h es rs packed"
  have lh: "length (writeHeader h) = sizeof_header" by (rule writeHeader_length) (simp add: h_def)
  have lb: "length (enc_blocks es rs) = length (concat rs)" by (rule enc_blocks_length[OF lay])
  have lf: "length ?file = length pre + sizeof_header + length (concat rs) + length packed"
    by (simp add: dat_bytes_def lh lb)
  have lt: "length ?file < 2 ^ 64" using len by simp
  have hd: "header_at ?file (of_nat (length pre)) = Some (h, ?base, ?ks)"
    unfolding dat_bytes_def using header_at_bytes[of h pre "enc_blocks es rs @ ?encM"] lt lf lb
    by (simp add: h_def[symmetric] dat_bytes_def) (simp add: h_def)
  have n: "unat (of_nat (length pre) :: u64) = length pre" "unat (of_nat (length ?file) :: u64) = length ?file"
    using lt by (simp_all add: unat_of_nat del: of_nat_add length_append) (simp add: lf unat_of_nat del: of_nat_add)
  have off: "unat (headerOffset h) = sizeof_header + length (concat rs)" "unat (headerSize h) = length packed"
      "unat (entryCount h) = length files"
    using meta by (simp_all add: h_def unat_of_length del: of_nat_add)
  have packed: "packed \<noteq> []" "inflate Z packed = Some (meta_bytes es)" using Z meta(1) by (auto simp: zlib_ok_def)
  have "headerSize h \<noteq> 0" using off(2) packed(1) by (metis length_0_conv unat_0)
  moreover have inside: "isRangeInside (of_nat (length pre)) (headerOffset h) (headerSize h) (of_nat (length ?file))"
    unfolding isRangeInside_iff unfolding n off unfolding lf by simp
  moreover have "take (unat (headerSize h)) (drop (unat (of_nat (length pre) :: u64) + unat (headerOffset h)) ?file) = ?encM"
    unfolding n off by (simp add: dat_bytes_def lh lb)
  note rd = read_at_range[OF inside lt, unfolded this]
  moreover have "fst (shiftBlock ?encM ?base ?ks) = packed" by (rule shiftBlock_twice)
  moreover have le: "length es = length files" using laid_out_paths[OF lay] by (metis length_map)
  moreover have "read_entries (of_nat (length pre)) (of_nat (length ?file)) (length es) (meta_bytes es) [] []
      = Some ([], table_of es [], dirs_of es [])"
  proof (rule read_entries_meta)
    show "\<forall>e \<in> set es. fits_u32 (length (e_path e)) \<and> fits_u32 (length (entry_bytes e))
      \<and> normalizeArchiveFilePath (e_path e) = (True, e_path e)
      \<and> entry_valid (of_nat (length pre)) (of_nat (length ?file)) e"
    proof
      fix e assume e: "e \<in> set es"
      obtain f r k where b: "written Z D f (sizeof_header + k) e r" "k + length r \<le> length (enc_blocks es rs)"
        using block_at[OF lay e] by blast
      have "length pre + sizeof_header + k + length r \<le> length ?file" using b(2) lf lb by linarith
      then show "fits_u32 (length (e_path e)) \<and> fits_u32 (length (entry_bytes e))
        \<and> normalizeArchiveFilePath (e_path e) = (True, e_path e)
        \<and> entry_valid (of_nat (length pre)) (of_nat (length ?file)) e"
        using written_valid[OF b(1)] lt meta(5) e by blast
    qed
  qed (simp_all add: names)
  moreover have "\<not> length (meta_bytes es) div 4 < unat (entryCount h)" using meta_long[of es] off(3) le by simp
  ultimately show ?thesis
    using hd packed(2) off(3) rd by (simp add: dat_load_def Let_def case_prod_unfold del: of_nat_add length_append)
qed

subsection \<open>What loads is safe\<close>

lemma byte_le_1: "(b :: u8) \<le> 1 \<longleftrightarrow> b = 0 \<or> b = 1"
  by (auto simp: word_le_nat_alt word_unat_eq_iff)

lemma normalized_path:
  assumes "normalizeArchiveFilePath p = (True, p)"
  shows "p \<noteq> [] \<and> hd p \<noteq> slash \<and> last p \<noteq> slash \<and> backslash \<notin> set p \<and> 0 \<notin> set p \<and> \<not> isDrivePath p
    \<and> [dot, dot] \<notin> set (segments p)"
proof -
  have "normalizeSlashes p = p" using assms by (simp add: normalizeArchiveFilePath_def Let_def)
  moreover have "backslash \<notin> set (normalizeSlashes p)"
    by (auto simp: normalizeSlashes_def slash_def backslash_def)
  ultimately show ?thesis
    using assms by (auto simp: normalizeArchiveFilePath_def Let_def hasParentTraversal_segments)
qed

lemma read_at_length: "read_at file p n = Some d \<Longrightarrow> length d = n"
  by (auto simp: read_at_def split: if_split_asm)

lemma readEntryData_length:
  assumes "readEntryData Z A e = Some d" "compressionType e = CT_NONE \<longrightarrow> sizeFull e = sizeStored e"
  shows "length d = unat (sizeFull e)"
proof -
  obtain raw where raw: "(if sizeStored e = 0 then Some []
      else read_at (a_file A) (unat (m_readOffset A + ucast (offsetPos e))) (unat (sizeStored e))) = Some raw"
    using assms(1) unfolding readEntryData_def by (auto split: option.split_asm)
  have "length raw = unat (sizeStored e)" using raw read_at_length by (auto split: if_split_asm)
  then show ?thesis
    using assms unfolding readEntryData_def raw by (auto simp: Let_def split: if_split_asm option.split_asm)
qed

subsection \<open>Properties\<close>

text \<open>
  C22.  What is packed is unpacked.  When the creator succeeds on files whose normalised paths are all
  different, \<open>load\<close>, given the output, wherever in a file of fewer than \<open>2 ^ 64\<close> bytes it stands,
  accepts it and has exactly these paths, and reading a path returns the content the source file
  had, stored or compressed.  (The public \<open>open\<close> does not get there: it rejects its stream before it
  calls \<open>load\<close>, which \<open>dat_open_refused\<close> states.)  zlib enters with what it documents: inflating
  gives back what was deflated.
\<close>

theorem dat_roundtrip:
  assumes "zlib_ok Z" "dat_create Z D files = Some packed"
    and "distinct (map (\<lambda>f. snd (normalizeArchiveFilePath f)) files)" "length pre + length packed < 2 ^ 64"
  shows "\<exists>A. dat_load Z (pre @ packed) (of_nat (length pre)) = Some A
    \<and> (\<forall>name. if name \<in> (\<lambda>f. snd (normalizeArchiveFilePath f)) ` set files
        then dat_readFile Z A name = source_file D name \<and> source_file D name \<noteq> None
        else \<not> dat_hasFile A name \<and> dat_readFile Z A name = None)"
proof -
  obtain es rs z where o: "packed = dat_bytes (final_header files rs z) es rs z" "laid_out Z D sizeof_header files es rs"
      "deflate Z (meta_bytes es) = Some z" "fits_u32 (length z)" "fits_u32 (length files)"
      "fits_u32 (sizeof_header + length (concat rs))"
      "\<forall>e \<in> set es. fits_u32 (length (e_path e)) \<and> fits_u32 (length (entry_bytes e))"
    using dat_create_bytes[OF assms(2)] by blast
  have paths: "map (\<lambda>f. snd (normalizeArchiveFilePath f)) files = map e_path es"
    using arg_cong[OF laid_out_paths[OF o(2)], of "map snd"] by (simp add: comp_def)
  have dist: "distinct (map e_path es)" using assms(3) paths by simp
  have names: "(\<lambda>f. snd (normalizeArchiveFilePath f)) ` set files = e_path ` set es"
    using arg_cong[OF paths, of set] by simp
  obtain A where A: "dat_load Z (pre @ packed) (of_nat (length pre)) = Some A" "a_file A = pre @ packed"
      "m_readOffset A = of_nat (length pre)" "m_entries A = table_of es []"
    using dat_load_bytes[OF assms(1) o(2-7) dist, of pre] assms(4) by (auto simp: o(1))
  have tab: "map_of (m_entries A) = (\<lambda>p. if p \<in> e_path ` set es then Some (the (find (\<lambda>e. e_path e = p) es)) else None)"
    using table_of_map[OF dist, of "[]"] by (simp add: A(4) fun_eq_iff)
  have "dat_readFile Z A (e_path e) = source_file D (e_path e) \<and> source_file D (e_path e) \<noteq> None"
    if e: "e \<in> set es" for e
  proof -
    obtain f r k where b: "written Z D f (sizeof_header + k) e r" "k + length r \<le> length (enc_blocks es rs)"
        "take (length r) (drop k (enc_blocks es rs)) = enc_block e r"
      using block_at[OF o(2) e] by blast
    have "map_of (m_entries A) (e_path e) = Some e" using tab find_path[OF e dist] e by simp
    moreover have "readEntryData Z A e = source_file D (e_path e) \<and> source_file D (e_path e) \<noteq> None"
    proof (rule read_written[OF assms(1) b(1) _ A(3) _ _ b(2,3)])
      show "a_file A = pre @ fst (shiftBlock (writeHeader (final_header files rs z)) (fst header_keys) (snd header_keys))
          @ enc_blocks es rs @ fst (shiftBlock z (snd (shiftBlock (writeHeader (final_header files rs z))
            (fst header_keys) (snd header_keys))) (snd header_keys))"
        by (simp add: A(2) o(1) dat_bytes_def)
      show "length (fst (shiftBlock (writeHeader (final_header files rs z)) (fst header_keys) (snd header_keys)))
          = sizeof_header"
        by (simp add: writeHeader_length)
      show "length (a_file A) < 2 ^ 64" using assms(4) by (simp add: A(2))
    qed
    ultimately show ?thesis by (simp add: dat_readFile_def)
  qed
  then show ?thesis
    using A(1) tab names by (intro exI[of _ A]) (auto simp: dat_hasFile_def dat_readFile_def)
qed

definition demo_zlib :: zlib where
  "demo_zlib = \<lparr>deflate = \<lambda>x. Some (1 # x), inflate = \<lambda>y. Some (tl y), uncompress = \<lambda>y n. Some (tl y),
     crc32_z = \<lambda>_. 0\<rparr>"

definition demo_disk :: dat_disk where
  "demo_disk = \<lparr>source_file = (\<lambda>p. if p = octets_of ''a'' then Some [1, 2, 3] else None), tmp_opens = True, dest_opens = True\<rparr>"

lemma demo_fields [simp]:
  "source_file demo_disk p = (if p = octets_of ''a'' then Some [1, 2, 3] else None)"
  "tmp_opens demo_disk" "dest_opens demo_disk" "deflate demo_zlib x = Some (1 # x)"
  by (simp_all add: demo_disk_def demo_zlib_def)

lemma demo_normalized: "normalizeArchiveFilePath (octets_of ''a'') = (True, octets_of ''a'')"
  by (simp add: normalizeArchiveFilePath_def normalizeSlashes_def octets_of_def Let_def isDrivePath_def
      backslash_def slash_def dot_def hasParentTraversal.simps)

lemma demo_packed_created: "\<exists>packed. dat_create demo_zlib demo_disk [octets_of ''a''] = Some packed \<and> length packed < 2 ^ 64"
proof -
  let ?kb = "fst header_keys" let ?ks = "snd header_keys"
  let ?init = "\<lparr>h_magic = HEADER_MAGIC, entryCount = 1, headerOffset = 0, headerSize = 0\<rparr>"
  have lh: "length (writeHeader ?init) = sizeof_header" by (rule writeHeader_length) simp
  have small: "fits_u32 k" if "k \<le> 1000" for k using that by (simp add: fits_u32_def)
  obtain e where e: "create_entry demo_zlib demo_disk ?kb ?ks (writeHeader ?init) (octets_of ''a'') = Some (e, [1, 2, 3])"
      "e_path e = octets_of ''a''"
  proof -
    have "\<exists>e. create_entry demo_zlib demo_disk ?kb ?ks (writeHeader ?init) (octets_of ''a'') = Some (e, [1, 2, 3])
        \<and> e_path e = octets_of ''a''"
      by (simp add: create_entry_def demo_normalized Let_def case_prod_unfold lh stored_content_def
        sizeof_header_def fits_u32_def)
    then show ?thesis using that by blast
  qed
  have lay: "laid_out demo_zlib demo_disk sizeof_header [octets_of ''a''] [e] [[1, 2, 3]]"
    using create_entry_written[OF e(1)] by (simp add: lh)
  have le: "length (entry_bytes e) = 24" by (simp add: entry_bytes_length e(2) octets_of_def)
  then have fe: "fits_u32 (length (e_path e))" "fits_u32 (length (entry_bytes e))"
    using small by (simp_all add: e(2) octets_of_def)
  have wm: "write_meta [e] [] = Some (record_bytes e)"
    using fe by (simp add: writeEntryRecord_bytes record_bytes_def appendU32LE_def)
  have lr: "length (record_bytes e) = 28" by (simp add: record_bytes_def le)
  let ?z = "1 # record_bytes e"
  let ?h = "final_header [octets_of ''a''] [[1, 2, 3]] ?z"
  have "length (writeHeader ?h) = sizeof_header" by (rule writeHeader_length) simp
  then have src: "write_at ((writeHeader ?init @ [1, 2, 3]) @ ?z) 0 (writeHeader ?h) = writeHeader ?h @ concat [[1, 2, 3]] @ ?z"
    using lh by (simp add: write_at_def)
  have enc: "encryptArchive demo_disk (writeHeader ?h @ concat [[1, 2, 3]] @ ?z) ?h ?kb ?ks [e]
      = Some (dat_bytes ?h [e] [[1, 2, 3]] ?z)"
    using small by (intro encryptArchive_bytes[OF lay]) (simp_all add: sizeof_header_def lr)
  have enc2: "encryptArchive demo_disk (write_at ((writeHeader ?init @ [1, 2, 3]) @ ?z) 0 (writeHeader ?h)) ?h ?kb ?ks [e]
      = Some (dat_bytes ?h [e] [[1, 2, 3]] ?z)"
    unfolding src by (rule enc)
  have "dat_create demo_zlib demo_disk [octets_of ''a''] = Some (dat_bytes ?h [e] [[1, 2, 3]] ?z)"
    using enc2 e(1) wm small[of 1] small[of 23] small[of 29]
    by (simp add: dat_create_def header_keys_def[symmetric] Let_def case_prod_unfold
        lh sizeof_header_def lr final_header_def)
  moreover have "length (dat_bytes ?h [e] [[1, 2, 3]] ?z) < 2 ^ 64"
    by (simp add: dat_bytes_def lr writeHeader_length sizeof_header_def del: shiftBlock.simps)
  ultimately show ?thesis by blast
qed

theorem dat_roundtrip_witness:
  "\<exists>packed A. dat_create demo_zlib demo_disk [octets_of ''a''] = Some packed
     \<and> dat_load demo_zlib packed 0 = Some A \<and> dat_readFile demo_zlib A (octets_of ''a'') = Some [1, 2, 3]"
proof -
  have Z: "zlib_ok demo_zlib" by (simp add: zlib_ok_def demo_zlib_def)
  obtain packed where p: "dat_create demo_zlib demo_disk [octets_of ''a''] = Some packed" "length packed < 2 ^ 64"
    using demo_packed_created by blast
  then obtain A where A: "dat_load demo_zlib packed 0 = Some A"
    and r: "\<forall>name. if name \<in> (\<lambda>f. snd (normalizeArchiveFilePath f)) ` set [octets_of ''a'']
        then dat_readFile demo_zlib A name = source_file demo_disk name \<and> source_file demo_disk name \<noteq> None
        else \<not> dat_hasFile A name \<and> dat_readFile demo_zlib A name = None"
    using dat_roundtrip[OF Z p(1), of "[]"] by auto
  have "dat_readFile demo_zlib A (octets_of ''a'') = Some [1, 2, 3]"
    using spec[OF r, of "octets_of ''a''"] by (simp add: demo_normalized demo_disk_def)
  then show ?thesis using p(1) A by blast
qed

text \<open>
  C23.  Loading an arbitrary file is safe.  Whatever bytes a file has, if it loads as an archive,
  every entry lies inside the file, is stored or compressed, and has a relative path without
  backslashes, empty front, drive or parent segments, so that no name leads outside;  the
  directories are exactly the proper prefixes of the paths; and a read delivers as many bytes as
  the entry announces.
\<close>

theorem dat_load_safe:
  assumes "dat_load Z file ro = Some A" "length file < 2 ^ 64"
  shows "distinct (map fst (m_entries A)) \<and> set (m_directories A) = (\<Union>p \<in> fst ` set (m_entries A). parents p)
    \<and> (\<forall>(p, e) \<in> set (m_entries A). e_path e = p
        \<and> unat ro + unat (offsetPos e) + unat (sizeStored e) \<le> length file
        \<and> compressionType e \<in> {CT_NONE, CT_ZLIB}
        \<and> p \<noteq> [] \<and> hd p \<noteq> slash \<and> last p \<noteq> slash \<and> backslash \<notin> set p \<and> 0 \<notin> set p \<and> \<not> isDrivePath p
        \<and> [dot, dot] \<notin> set (segments p)
        \<and> (\<forall>d. dat_readFile Z A p = Some d \<longrightarrow> length d = unat (sizeFull e)))"
proof -
  obtain n bs es ds where r: "read_entries ro (of_nat (length file)) n bs [] [] = Some ([], es, ds)"
    and A: "a_file A = file" "m_readOffset A = ro" "m_entries A = es" "m_directories A = ds"
    using assms(1) by (auto simp: dat_load_def Let_def case_prod_unfold split: option.split_asm if_split_asm)
  have tab: "table_ok ro (of_nat (length file)) es ds"
    using read_entries_ok[OF r] by (simp add: table_ok_def)
  have len: "unat (of_nat (length file) :: u64) = length file" using assms(2) by (simp add: unat_of_nat)
  have "e_path e = p \<and> unat ro + unat (offsetPos e) + unat (sizeStored e) \<le> length file
        \<and> compressionType e \<in> {CT_NONE, CT_ZLIB}
        \<and> p \<noteq> [] \<and> hd p \<noteq> slash \<and> last p \<noteq> slash \<and> backslash \<notin> set p \<and> 0 \<notin> set p \<and> \<not> isDrivePath p
        \<and> [dot, dot] \<notin> set (segments p)
        \<and> (\<forall>d. dat_readFile Z A p = Some d \<longrightarrow> length d = unat (sizeFull e))"
    if pe: "(p, e) \<in> set es" for p e
  proof -
    have v: "e_path e = p" "entry_valid ro (of_nat (length file)) e" "normalizeArchiveFilePath p = (True, p)"
      using tab pe by (auto simp: table_ok_def)
    have path: "p \<noteq> [] \<and> hd p \<noteq> slash \<and> last p \<noteq> slash \<and> backslash \<notin> set p \<and> 0 \<notin> set p \<and> \<not> isDrivePath p
        \<and> [dot, dot] \<notin> set (segments p)"
      by (rule normalized_path[OF v(3)])
    have ct: "compressionType e = CT_NONE \<or> compressionType e = CT_ZLIB"
      using v(2) by (simp add: entry_valid_def CT_NONE_def CT_ZLIB_def byte_le_1)
    have "map_of es p = Some e" using tab pe by (simp add: table_ok_def map_of_eq_Some_iff)
    then have rd: "dat_readFile Z A p = readEntryData Z A e" by (simp add: dat_readFile_def A)
    have "length d = unat (sizeFull e)" if d: "readEntryData Z A e = Some d" for d
      by (rule readEntryData_length[OF d]) (use v(2) in \<open>auto simp: entry_valid_def\<close>)
    then show ?thesis
      using v path ct rd by (auto simp: entry_valid_def isRangeInside_iff len)
  qed
  then show ?thesis using tab by (auto simp: table_ok_def A)
qed

lemma demo_loaded: "\<exists>packed A. dat_load demo_zlib packed 0 = Some A \<and> length packed < 2 ^ 64"
proof -
  have Z: "zlib_ok demo_zlib" by (simp add: zlib_ok_def demo_zlib_def)
  obtain packed where p: "dat_create demo_zlib demo_disk [octets_of ''a''] = Some packed" "length packed < 2 ^ 64"
    using demo_packed_created by blast
  obtain es rs z where o: "packed = dat_bytes (final_header [octets_of ''a''] rs z) es rs z"
      "laid_out demo_zlib demo_disk sizeof_header [octets_of ''a''] es rs"
      "deflate demo_zlib (meta_bytes es) = Some z" "fits_u32 (length z)" "fits_u32 (length [octets_of ''a''])"
      "fits_u32 (sizeof_header + length (concat rs))"
      "\<forall>e \<in> set es. fits_u32 (length (e_path e)) \<and> fits_u32 (length (entry_bytes e))"
    using dat_create_bytes[OF p(1)] by blast
  have "length es = 1" using laid_out_paths[OF o(2)] by (metis One_nat_def length_Cons length_map list.size(3))
  then have "distinct (map e_path es)" by (cases es) auto
  then show ?thesis using dat_load_bytes[OF Z o(2-7), of "[]"] p(2) o(1) by auto
qed

theorem dat_load_safe_witness:
  "\<exists>packed A. dat_load demo_zlib packed 0 = Some A \<and> distinct (map fst (m_entries A))"
proof -
  obtain packed A where "dat_load demo_zlib packed 0 = Some A" "length packed < 2 ^ 64"
    using demo_loaded by blast
  then show ?thesis using dat_load_safe by blast
qed

text \<open>
  No DAT archive is ever opened.  \<open>FileSystemDATArchive::open\<close> opens its \<open>fstream\<close> with
  \<open>std::ios::binary\<close> alone, a mode the standard refuses; a file recognised as a DAT archive is
  therefore never loaded, and the zip reader is not tried on it either.
\<close>

theorem dat_open_refused:
  "dat_open Z disk path ro = None \<and>
   createFromFile Z zip_open disk path = (if isDATArchive disk path 0 then None else map_option Zip (zip_open path))"
proof -
  have "\<not> valid_mode [FBinary]" by (auto simp: valid_mode_def)
  then show ?thesis by (simp add: dat_open_def createFromFile_def)
qed

end
