(* ===== verification/FileSystems.thy ===== *)
theory FileSystems
  imports DatArchive
begin

text \<open>
  The file system manager (\<open>FileSystemManager.cpp\<close>): mounted file systems, search paths, the
  resolution of resource locations.  Mounted objects are named by handles; what a handle answers
  is the interface \<open>IFileSystem\<close>.  An \<open>assert\<close> whose condition the next \<open>if\<close> tests again is that \<open>if\<close>.
\<close>

subsection \<open>The interface\<close>

record fs_ops =
  fs_hasNode :: "octets \<Rightarrow> bool"
  fs_getNodeType :: "octets \<Rightarrow> node_type"
  fs_hasFile :: "octets \<Rightarrow> bool"
  fs_getFileSize :: "octets \<Rightarrow> u64"
  fs_readFile :: "octets \<Rightarrow> octets option"
  fs_hasDirectory :: "octets \<Rightarrow> bool"

text \<open>What the answers of one file system have to do with each other.\<close>

locale file_system =
  fixes ops :: fs_ops
  assumes node_known: "fs_getNodeType ops n \<noteq> NUnknown \<longleftrightarrow> fs_hasNode ops n"
    and file_node: "fs_hasFile ops n \<longleftrightarrow> fs_getNodeType ops n = NFile"
    and read_file: "fs_readFile ops n = Some d \<Longrightarrow> fs_hasFile ops n"
    and size_file: "fs_getFileSize ops n \<noteq> 0 \<Longrightarrow> fs_hasFile ops n"
    and directory_node: "n \<noteq> [] \<Longrightarrow> fs_getNodeType ops n = NDirectory \<Longrightarrow> fs_hasDirectory ops n"
begin

lemma missing_node:
  assumes "\<not> fs_hasNode ops n"
  shows "fs_getNodeType ops n = NUnknown" "\<not> fs_hasFile ops n" "fs_getFileSize ops n = 0" "fs_readFile ops n = None"
proof -
  show t: "fs_getNodeType ops n = NUnknown" using assms node_known by blast
  show f: "\<not> fs_hasFile ops n" using t file_node[of n] by simp
  show "fs_getFileSize ops n = 0" using f size_file by blast
  show "fs_readFile ops n = None" using f read_file by (cases "fs_readFile ops n") auto
qed

lemma directory_not_file:
  assumes "fs_getNodeType ops n = NDirectory"
  shows "fs_hasNode ops n" "\<not> fs_hasFile ops n" "fs_readFile ops n = None"
proof -
  show "fs_hasNode ops n" using assms node_known[of n] by simp
  show f: "\<not> fs_hasFile ops n" using assms file_node[of n] by simp
  show "fs_readFile ops n = None" using f read_file by (cases "fs_readFile ops n") auto
qed

end

definition dat_ops :: "zlib \<Rightarrow> dat_archive \<Rightarrow> fs_ops" where
  "dat_ops Z A = \<lparr>fs_hasNode = dat_hasNode A, fs_getNodeType = dat_getNodeType A, fs_hasFile = dat_hasFile A,
     fs_getFileSize = dat_getFileSize A, fs_readFile = dat_readFile Z A, fs_hasDirectory = dat_hasDirectory A\<rparr>"

interpretation dat_fs: file_system "dat_ops Z A" for Z A
  by unfold_locales (auto simp: dat_ops_def dat_hasNode_def dat_getNodeType_def dat_hasFile_def dat_getFileSize_def
      dat_readFile_def dat_hasDirectory_def split: option.split_asm if_split_asm)

subsection \<open>Locations\<close>

datatype schema = SUnknown | SResource | SUser

record location =
  loc_file_system :: octets
  loc_path :: octets
  loc_schema :: schema

definition begins_with :: "octets \<Rightarrow> octets \<Rightarrow> bool" where
  "begins_with v p \<longleftrightarrow> take (length p) v = p"

text \<open>The position of the first occurrence of a byte.\<close>

fun find_first :: "u8 \<Rightarrow> octets \<Rightarrow> nat option" where
  "find_first c [] = None"
| "find_first c (x # xs) = (if x = c then Some 0 else map_option Suc (find_first c xs))"

definition schema_resource :: octets where "schema_resource = octets_of ''resource://''"
definition schema_resource_short :: octets where "schema_resource_short = octets_of ''res://''"
definition schema_user :: octets where "schema_user = octets_of ''user://''"

definition parse_location :: "octets \<Rightarrow> location" where
  "parse_location s =
    (let (sch, merged, v) =
       (if begins_with s schema_resource then (SResource, False, drop (length schema_resource) s)
        else if begins_with s schema_resource_short then (SResource, False, drop (length schema_resource_short) s)
        else if begins_with s schema_user then (SUser, False, drop (length schema_user) s)
        else (SResource, True, s))
     in if sch = SResource then
          (if merged then \<lparr>loc_file_system = [], loc_path = v, loc_schema = sch\<rparr>
           else (case (case find_first slash v of None \<Rightarrow> find_first backslash v | p \<Rightarrow> p) of
               None \<Rightarrow> \<lparr>loc_file_system = [], loc_path = [], loc_schema = sch\<rparr>
             | Some p \<Rightarrow> \<lparr>loc_file_system = take p v, loc_path = drop (p + 1) v, loc_schema = sch\<rparr>))
        else \<lparr>loc_file_system = [], loc_path = [], loc_schema = sch\<rparr>)"

subsection \<open>State\<close>

record fs_manager =
  s_file_systems :: "(octets \<times> nat) list"
  s_search_paths :: "octets list"

definition addFileSystem :: "octets \<Rightarrow> nat option \<Rightarrow> fs_manager \<Rightarrow> fs_manager" where
  "addFileSystem name fs m = (if name = [] then m else (case fs of None \<Rightarrow> m | Some h \<Rightarrow>
     if list_ex (\<lambda>v. fst v = name) (s_file_systems m) then m
     else m\<lparr>s_file_systems := s_file_systems m @ [(name, h)]\<rparr>))"

definition hasFileSystem :: "octets \<Rightarrow> fs_manager \<Rightarrow> bool" where
  "hasFileSystem name m = (if name = [] then False else list_ex (\<lambda>v. fst v = name) (s_file_systems m))"

definition removeFileSystemNamed :: "octets \<Rightarrow> fs_manager \<Rightarrow> fs_manager" where
  "removeFileSystemNamed name m = (if name = [] then m
     else m\<lparr>s_file_systems := filter (\<lambda>v. fst v \<noteq> name) (s_file_systems m)\<rparr>)"

definition removeFileSystem :: "nat option \<Rightarrow> fs_manager \<Rightarrow> fs_manager" where
  "removeFileSystem fs m = (case fs of None \<Rightarrow> m
     | Some h \<Rightarrow> m\<lparr>s_file_systems := filter (\<lambda>v. snd v \<noteq> h) (s_file_systems m)\<rparr>)"

definition removeAllFileSystem :: "fs_manager \<Rightarrow> fs_manager" where
  "removeAllFileSystem m = m\<lparr>s_file_systems := []\<rparr>"

text \<open>The enumerator of file systems: \<open>SIZE_MAX\<close> before the first call.\<close>

definition fs_enum_next :: "fs_manager \<Rightarrow> u64 \<Rightarrow> nat option \<times> u64" where
  "fs_enum_next m i = (if s_file_systems m = [] then (None, i)
     else let i = (if i = - 1 then 0 else i) in
       if i < of_nat (length (s_file_systems m)) \<and> i < - 1
       then (Some (snd (s_file_systems m ! unat i)), i + 1) else (None, i))"

text \<open>\<open>archive_path h\<close>: the path of the archive when the object is one.\<close>

definition getFileSystemArchiveByPath :: "(nat \<Rightarrow> octets option) \<Rightarrow> octets \<Rightarrow> fs_manager \<Rightarrow> nat option" where
  "getFileSystemArchiveByPath archive_path p m = (if p = [] then None
     else map_option snd (find (\<lambda>v. archive_path (snd v) = Some p) (s_file_systems m)))"

definition addSearchPath :: "octets \<Rightarrow> fs_manager \<Rightarrow> fs_manager" where
  "addSearchPath p m = (if list_ex (\<lambda>v. v = p) (s_search_paths m) then m
     else m\<lparr>s_search_paths := s_search_paths m @ [p]\<rparr>)"

definition hasSearchPath :: "octets \<Rightarrow> fs_manager \<Rightarrow> bool" where
  "hasSearchPath p m \<longleftrightarrow> list_ex (\<lambda>v. v = p) (s_search_paths m)"

definition removeSearchPath :: "octets \<Rightarrow> fs_manager \<Rightarrow> fs_manager" where
  "removeSearchPath p m = m\<lparr>s_search_paths := filter (\<lambda>v. v \<noteq> p) (s_search_paths m)\<rparr>"

definition removeAllSearchPath :: "fs_manager \<Rightarrow> fs_manager" where
  "removeAllSearchPath m = m\<lparr>s_search_paths := []\<rparr>"

subsection \<open>Resolution\<close>

text \<open>
  The world of a resolution: the objects behind the handles, the operating system's files, and
  \<open>join\<close> (\<open>std::filesystem\<close>, normalized).
\<close>

record fs_world =
  fs_of :: "nat \<Rightarrow> fs_ops"
  os_fs :: fs_ops
  join_path :: "octets \<Rightarrow> octets \<Rightarrow> octets"

datatype fs_ref = Mounted nat | OS

fun ops_of :: "fs_world \<Rightarrow> fs_ref \<Rightarrow> fs_ops" where
  "ops_of W (Mounted h) = fs_of W h"
| "ops_of W OS = os_fs W"

fun contains_dotdot :: "octets \<Rightarrow> bool" where
  "contains_dotdot (a # b # xs) = (if a = dot \<and> b = dot then True else contains_dotdot (b # xs))"
| "contains_dotdot _ = False"

text \<open>The loop over the search paths, last added first, for one mounted file system.\<close>

fun resolve_in_paths :: "fs_world \<Rightarrow> fs_ref \<Rightarrow> bool \<Rightarrow> octets list \<Rightarrow> octets \<Rightarrow> (fs_ref \<times> octets) option" where
  "resolve_in_paths W fs dots [] path = None"
| "resolve_in_paths W fs dots (s # ss) path = (let p = join_path W s path in
     if \<not> dots \<and> contains_dotdot p then resolve_in_paths W fs dots ss path
     else if fs_hasNode (ops_of W fs) p then Some (fs, p)
     else resolve_in_paths W fs dots ss path)"

fun resolve_mounted :: "fs_world \<Rightarrow> (octets \<times> nat) list \<Rightarrow> octets list \<Rightarrow> location \<Rightarrow> (fs_ref \<times> octets) option" where
  "resolve_mounted W [] paths l = None"
| "resolve_mounted W (v # vs) paths l =
     (if loc_file_system l \<noteq> [] \<and> fst v \<noteq> loc_file_system l then resolve_mounted W vs paths l
      else (case resolve_in_paths W (Mounted (snd v)) False (rev paths) (loc_path l) of
          Some r \<Rightarrow> Some r
        | None \<Rightarrow> if fs_hasNode (fs_of W (snd v)) (loc_path l) then Some (Mounted (snd v), loc_path l)
            else resolve_mounted W vs paths l))"

definition resolve :: "fs_world \<Rightarrow> fs_manager \<Rightarrow> location \<Rightarrow> (fs_ref \<times> octets) option" where
  "resolve W m l = (if loc_schema l \<noteq> SResource \<and> loc_schema l \<noteq> SUser then None
     else (case (if loc_schema l = SResource then resolve_mounted W (s_file_systems m) (s_search_paths m) l else None) of
         Some r \<Rightarrow> Some r
       | None \<Rightarrow> (case resolve_in_paths W OS True (rev (s_search_paths m)) (loc_path l) of
           Some r \<Rightarrow> Some r
         | None \<Rightarrow> if fs_hasNode (os_fs W) (loc_path l) then Some (OS, loc_path l) else None)))"

subsection \<open>Operations on resolved locations\<close>

definition fm_hasNode :: "fs_world \<Rightarrow> fs_manager \<Rightarrow> octets \<Rightarrow> bool" where
  "fm_hasNode W m name \<longleftrightarrow> resolve W m (parse_location name) \<noteq> None"

definition fm_getNodeType :: "fs_world \<Rightarrow> fs_manager \<Rightarrow> octets \<Rightarrow> node_type" where
  "fm_getNodeType W m name = (case resolve W m (parse_location name) of None \<Rightarrow> NUnknown
     | Some (fs, p) \<Rightarrow> fs_getNodeType (ops_of W fs) p)"

definition fm_hasFile :: "fs_world \<Rightarrow> fs_manager \<Rightarrow> octets \<Rightarrow> bool" where
  "fm_hasFile W m name = (case resolve W m (parse_location name) of None \<Rightarrow> False
     | Some (fs, p) \<Rightarrow> fs_hasFile (ops_of W fs) p)"

definition fm_getFileSize :: "fs_world \<Rightarrow> fs_manager \<Rightarrow> octets \<Rightarrow> u64" where
  "fm_getFileSize W m name = (case resolve W m (parse_location name) of None \<Rightarrow> 0
     | Some (fs, p) \<Rightarrow> fs_getFileSize (ops_of W fs) p)"

definition fm_readFile :: "fs_world \<Rightarrow> fs_manager \<Rightarrow> octets \<Rightarrow> octets option" where
  "fm_readFile W m name = (case resolve W m (parse_location name) of None \<Rightarrow> None
     | Some (fs, p) \<Rightarrow> fs_readFile (ops_of W fs) p)"

definition resolvePhysicalPath :: "fs_world \<Rightarrow> fs_manager \<Rightarrow> octets \<Rightarrow> octets option" where
  "resolvePhysicalPath W m name = (case resolve W m (parse_location name) of None \<Rightarrow> None
     | Some (fs, p) \<Rightarrow> if fs \<noteq> OS \<or> \<not> fs_hasFile (os_fs W) p then None else Some p)"

definition fm_hasDirectory :: "fs_world \<Rightarrow> fs_manager \<Rightarrow> octets \<Rightarrow> bool" where
  "fm_hasDirectory W m name = (case resolve W m (parse_location name) of None \<Rightarrow> False
     | Some (fs, p) \<Rightarrow> fs_hasDirectory (ops_of W fs) p)"

end
