(* ===== verification/FileSystemsCorrect.thy ===== *)
theory FileSystemsCorrect
  imports FileSystems
begin

text \<open>
  The properties of the file system manager: resolution as a search through an explicit list of
  candidates, and the delivery of the files of a mounted archive.
\<close>

subsection \<open>Candidates\<close>

definition mounted_candidates :: "fs_world \<Rightarrow> octets list \<Rightarrow> location \<Rightarrow> octets \<times> nat \<Rightarrow> (fs_ref \<times> octets) list" where
  "mounted_candidates W paths l v = (if loc_file_system l \<noteq> [] \<and> fst v \<noteq> loc_file_system l then []
     else map (Pair (Mounted (snd v))) (filter (\<lambda>p. \<not> contains_dotdot p) (map (\<lambda>s. join_path W s (loc_path l)) (rev paths))
       @ [loc_path l]))"

definition candidates :: "fs_world \<Rightarrow> fs_manager \<Rightarrow> location \<Rightarrow> (fs_ref \<times> octets) list" where
  "candidates W m l =
     (if loc_schema l = SResource then concat (map (mounted_candidates W (s_search_paths m) l) (s_file_systems m)) else [])
     @ map (\<lambda>s. (OS, join_path W s (loc_path l))) (rev (s_search_paths m)) @ [(OS, loc_path l)]"

definition present :: "fs_world \<Rightarrow> fs_ref \<times> octets \<Rightarrow> bool" where
  "present W r = fs_hasNode (ops_of W (fst r)) (snd r)"

lemma present_pair [simp]: "present W (fs, p) = fs_hasNode (ops_of W fs) p"
  by (simp add: present_def)

lemma find_append: "find P (xs @ ys) = (case find P xs of None \<Rightarrow> find P ys | Some x \<Rightarrow> Some x)"
  by (induction xs) auto

lemma resolve_in_paths_find:
  "resolve_in_paths W fs dots ss path = find (present W)
     (map (Pair fs) (filter (\<lambda>p. dots \<or> \<not> contains_dotdot p) (map (\<lambda>s. join_path W s path) ss)))"
  by (induction ss) (auto simp: Let_def)

lemma resolve_mounted_find:
  "resolve_mounted W vs paths l = find (present W) (concat (map (mounted_candidates W paths l) vs))"
proof (induction vs)
  case (Cons v vs)
  show ?case
    using Cons resolve_in_paths_find[of W "Mounted (snd v)" False "rev paths" "loc_path l"]
    by (auto simp: mounted_candidates_def find_append split: option.split)
qed simp

lemma resolve_find:
  "loc_schema l \<noteq> SUnknown \<Longrightarrow> resolve W m l = find (present W) (candidates W m l)"
  using resolve_mounted_find[of W "s_file_systems m" "s_search_paths m" l]
    resolve_in_paths_find[of W OS True "rev (s_search_paths m)" "loc_path l"]
  by (cases "loc_schema l") (auto simp: resolve_def candidates_def find_append comp_def split: option.split)

lemma find_archive:
  "fs_of W h = dat_ops Z A \<Longrightarrow> find (present W) (map (Pair (Mounted h)) ps) = map_option (Pair (Mounted h)) (find (dat_hasNode A) ps)"
  by (induction ps) (auto simp: dat_ops_def)

lemma parse_schema: "loc_schema (parse_location s) \<noteq> SUnknown"
  by (auto simp: parse_location_def Let_def split: option.split)

subsection \<open>Parsing\<close>

lemma find_first_append:
  "c \<notin> set xs \<Longrightarrow> find_first c (xs @ c # ys) = Some (length xs)"
  by (induction xs) auto

lemma find_first_None: "c \<notin> set xs \<Longrightarrow> find_first c xs = None"
  by (induction xs) auto

lemma begins_with_append [simp]: "begins_with (p @ xs) p"
  by (simp add: begins_with_def)

lemma parse_resource:
  assumes "slash \<notin> set name"
  shows "parse_location (schema_resource @ name @ slash # p)
    = \<lparr>loc_file_system = name, loc_path = p, loc_schema = SResource\<rparr>"
  using find_first_append[OF assms, of p] by (simp add: parse_location_def Let_def)

lemma parse_user: "parse_location (schema_user @ p) = \<lparr>loc_file_system = [], loc_path = [], loc_schema = SUser\<rparr>"
proof -
  have "\<not> begins_with (schema_user @ p) schema_resource" "\<not> begins_with (schema_user @ p) schema_resource_short"
    by (simp_all add: begins_with_def schema_user_def schema_resource_def schema_resource_short_def octets_of_def)
  then show ?thesis by (simp add: parse_location_def Let_def)
qed

subsection \<open>Properties\<close>

text \<open>
  C24.  Resolution is a search.  Reading a name reads the first node that exists among the
  candidates of its location: the mounted file systems in mounting order (only the named one when
  the location names one), each under the search paths, last added first and never through a
  parent segment, and then under the bare path; after them the files of the operating system in
  the same way.  What comes later is hidden, even when the first node is a directory.
\<close>

theorem resolution_is_search:
  "fm_readFile W m name = Option.bind (find (present W) (candidates W m (parse_location name)))
      (\<lambda>(fs, p). fs_readFile (ops_of W fs) p)
   \<and> (fm_hasNode W m name \<longleftrightarrow> list_ex (present W) (candidates W m (parse_location name)))
   \<and> resolvePhysicalPath W m name = Option.bind (find (present W) (candidates W m (parse_location name)))
      (\<lambda>(fs, p). if fs = OS \<and> fs_hasFile (os_fs W) p then Some p else None)"
proof -
  have ex: "list_ex P xs \<longleftrightarrow> find P xs \<noteq> None" for P and xs :: "(fs_ref \<times> octets) list"
    by (induction xs) auto
  show ?thesis
    unfolding ex fm_readFile_def fm_hasNode_def resolvePhysicalPath_def resolve_find[OF parse_schema]
    by (auto split: option.split)
qed

text \<open>
  C25.  A mounted archive delivers its files.  After \<open>addFileSystem\<close> of an archive under a new
  name without slash, \<open>resource://name/path\<close> reads a file of that archive whenever it has a
  node at \<open>path\<close>, whatever else is mounted: the one at \<open>path\<close>, unless the archive also has a node at
  \<open>path\<close> below a search path, without a parent segment, in which case the search path added last
  wins.
\<close>

theorem mounted_archive_delivers:
  assumes "fs_of W h = dat_ops Z A" "name \<noteq> []" "slash \<notin> set name" "\<not> hasFileSystem name m" "dat_hasNode A p"
  shows "let under = filter (\<lambda>q. \<not> contains_dotdot q) (map (\<lambda>s. join_path W s p) (rev (s_search_paths m)));
      q = (case find (dat_hasNode A) under of Some q \<Rightarrow> q | None \<Rightarrow> p);
      m' = addFileSystem name (Some h) m; resource = schema_resource @ name @ slash # p
    in fm_readFile W m' resource = dat_readFile Z A q \<and> fm_getNodeType W m' resource = dat_getNodeType A q"
proof -
  let ?under = "filter (\<lambda>q. \<not> contains_dotdot q) (map (\<lambda>s. join_path W s p) (rev (s_search_paths m)))"
  let ?q = "case find (dat_hasNode A) ?under of Some q \<Rightarrow> q | None \<Rightarrow> p"
  let ?m = "addFileSystem name (Some h) m"
  have new: "\<not> list_ex (\<lambda>v. fst v = name) (s_file_systems m)" using assms(2,4) by (simp add: hasFileSystem_def)
  then have m: "s_file_systems ?m = s_file_systems m @ [(name, h)]" "s_search_paths ?m = s_search_paths m"
    using assms(2) by (simp_all add: addFileSystem_def)
  let ?l = "\<lparr>loc_file_system = name, loc_path = p, loc_schema = SResource\<rparr>"
  have none: "concat (map (mounted_candidates W (s_search_paths m) ?l) (s_file_systems m)) = []"
    using new assms(2) by (auto simp: mounted_candidates_def list_ex_iff)
  have mine: "mounted_candidates W (s_search_paths m) ?l (name, h) = map (Pair (Mounted h)) (?under @ [p])"
    by (simp add: mounted_candidates_def)
  have "find (present W) (map (Pair (Mounted h)) (?under @ [p])) = Some (Mounted h, ?q)"
    using assms(1,5) by (simp add: find_append find_archive split: option.split) (simp add: dat_ops_def)
  moreover have "candidates W ?m ?l = map (Pair (Mounted h)) (?under @ [p])
      @ map (\<lambda>s. (OS, join_path W s p)) (rev (s_search_paths m)) @ [(OS, p)]"
    by (simp add: candidates_def m none mine)
  ultimately have "find (present W) (candidates W ?m ?l) = Some (Mounted h, ?q)"
    by (simp only: find_append option.case)
  then have "resolve W ?m (parse_location (schema_resource @ name @ slash # p)) = Some (Mounted h, ?q)"
    unfolding parse_resource[OF assms(3)] by (simp add: resolve_find)
  then show ?thesis
    using assms(1) by (simp add: fm_readFile_def fm_getNodeType_def dat_ops_def Let_def)
qed

text \<open>An archive with a file \<open>a\<close>, and a translation of it in \<open>y/\<close>.\<close>

definition demo_archive :: dat_archive where
  "demo_archive = \<lparr>a_file = [7, 9], m_readOffset = 0, a_keyBase = 0, a_keyStep = 0,
     m_entries = [([0x61], \<lparr>e_path = [0x61], compressionType = 0, sizeFull = 1, sizeStored = 1, offsetPos = 0,
        e_keyBase = 0, e_keyStep = 0, crc32Value = 0\<rparr>),
       ([0x79, slash, 0x61], \<lparr>e_path = [0x79, slash, 0x61], compressionType = 0, sizeFull = 1, sizeStored = 1, offsetPos = 1,
        e_keyBase = 0, e_keyStep = 0, crc32Value = 0\<rparr>)], m_directories = []\<rparr>"

definition demo_world :: "zlib \<Rightarrow> fs_world" where
  "demo_world Z = \<lparr>fs_of = \<lambda>h. dat_ops Z demo_archive, os_fs = dat_ops Z demo_archive, join_path = \<lambda>a b. a @ b\<rparr>"

definition demo_zlib :: zlib where
  "demo_zlib = \<lparr>deflate = Some, inflate = Some, uncompress = \<lambda>y n. Some y, crc32_z = \<lambda>_. 0\<rparr>"

theorem mounted_archive_delivers_witness:
  "fm_readFile (demo_world demo_zlib) (addFileSystem [0x78] (Some 0) \<lparr>s_file_systems = [], s_search_paths = [[0x79, slash]]\<rparr>)
     (schema_resource @ [0x78] @ slash # [0x61]) = Some [9]
   \<and> fm_readFile (demo_world demo_zlib) (addFileSystem [0x78] (Some 0) \<lparr>s_file_systems = [], s_search_paths = [[0x7A, slash]]\<rparr>)
     (schema_resource @ [0x78] @ slash # [0x61]) = Some [7]"
proof -
  have r: "dat_readFile demo_zlib demo_archive [0x61] = Some [7]" "dat_readFile demo_zlib demo_archive [0x79, slash, 0x61] = Some [9]"
    by (simp_all add: demo_zlib_def dat_readFile_def demo_archive_def readEntryData_def CT_NONE_def read_at_def slash_def)
  have h: "dat_hasNode demo_archive [0x61]" "dat_hasNode demo_archive [0x79, slash, 0x61]"
    "\<not> dat_hasNode demo_archive [0x7A, slash, 0x61]"
    by (simp_all add: dat_hasNode_def demo_archive_def slash_def)
  have d: "\<not> contains_dotdot [0x79, slash, 0x61]" "\<not> contains_dotdot [0x7A, slash, 0x61]" by (simp_all add: slash_def dot_def)
  have w: "fs_of (demo_world demo_zlib) 0 = dat_ops demo_zlib demo_archive" "join_path (demo_world demo_zlib) = (\<lambda>a b. a @ b)"
    by (simp_all add: demo_world_def)
  have n: "[0x78] \<noteq> ([] :: octets)" "slash \<notin> set [0x78]" "\<not> hasFileSystem [0x78] \<lparr>s_file_systems = [], s_search_paths = ss\<rparr>" for ss
    by (simp_all add: hasFileSystem_def slash_def)
  show ?thesis
    using mounted_archive_delivers[OF w(1) n h(1), of "[[0x79, slash]]"] mounted_archive_delivers[OF w(1) n h(1), of "[[0x7A, slash]]"]
    by (simp add: w r h d Let_def del: contains_dotdot.simps)
qed

text \<open>A location of the user schema loses its path: every name with it means the same.\<close>

theorem user_location_without_path:
  "fm_readFile W m (schema_user @ p) = fm_readFile W m schema_user
   \<and> fm_hasNode W m (schema_user @ p) = fm_hasNode W m schema_user"
  using parse_user[of p] parse_user[of "[]"] by (simp add: fm_readFile_def fm_hasNode_def)

end
