(* ===== verification/Utf.thy ===== *)
theory Utf
  imports Prelude
begin

text \<open>
  The UTF-8 and UTF-16 readers of \<open>utility/utf.hpp\<close>.  A reader is the text it was made for, the
  position of its cursor and the two lengths; reading past the text is not modelled as a value:
  \<open>utf8_ok\<close> is kept by every operation and says that the cursor stays inside.
\<close>

subsection \<open>Byte patterns\<close>

text \<open>
  Pointers are the bytes from the pointer on.  \<open>char\<close> is signed: its conversion to
  \<open>char32_t\<close> extends the sign.
\<close>

definition char32 :: "u8 \<Rightarrow> u32" where
  "char32 c = scast c"

definition is_utf8_l1 :: "u8 list \<Rightarrow> bool" where
  "is_utf8_l1 str \<longleftrightarrow> str ! 0 AND 0x80 = 0x00"

definition is_utf8_l2 :: "u8 list \<Rightarrow> bool" where
  "is_utf8_l2 str \<longleftrightarrow> str ! 0 AND 0xE0 = 0xC0 \<and> str ! 1 AND 0xC0 = 0x80"

definition is_utf8_l3 :: "u8 list \<Rightarrow> bool" where
  "is_utf8_l3 str \<longleftrightarrow> str ! 0 AND 0xF0 = 0xE0 \<and> str ! 1 AND 0xC0 = 0x80 \<and> str ! 2 AND 0xC0 = 0x80"

definition is_utf8_l4 :: "u8 list \<Rightarrow> bool" where
  "is_utf8_l4 str \<longleftrightarrow> str ! 0 AND 0xF8 = 0xF0 \<and> str ! 1 AND 0xC0 = 0x80 \<and> str ! 2 AND 0xC0 = 0x80
     \<and> str ! 3 AND 0xC0 = 0x80"

definition utf8_to_utf32_l1 :: "u8 list \<Rightarrow> u32" where
  "utf8_to_utf32_l1 str = char32 (str ! 0)"

definition utf8_to_utf32_l2 :: "u8 list \<Rightarrow> u32" where
  "utf8_to_utf32_l2 str = push_bit 6 (char32 (str ! 0) AND 0x1F) OR (char32 (str ! 1) AND 0x3F)"

definition utf8_to_utf32_l3 :: "u8 list \<Rightarrow> u32" where
  "utf8_to_utf32_l3 str = push_bit 12 (char32 (str ! 0) AND 0x0F) OR push_bit 6 (char32 (str ! 1) AND 0x3F)
     OR (char32 (str ! 2) AND 0x3F)"

definition utf8_to_utf32_l4 :: "u8 list \<Rightarrow> u32" where
  "utf8_to_utf32_l4 str = push_bit 18 (char32 (str ! 0) AND 0x07) OR push_bit 12 (char32 (str ! 1) AND 0x3F)
     OR push_bit 6 (char32 (str ! 2) AND 0x3F) OR (char32 (str ! 3) AND 0x3F)"

subsection \<open>The UTF-8 reader\<close>

text \<open>The text is \<open>None\<close> for the null pointer; \<open>str_pos\<close> is the distance of \<open>_str\<close> from \<open>_raw_str\<close>.\<close>

record utf8reader =
  raw_str :: "u8 list option"
  raw_len :: u64
  str_pos :: nat
  str_len :: u64

definition utf8reader :: "u8 list option \<Rightarrow> u64 \<Rightarrow> utf8reader" where
  "utf8reader str n = \<lparr>raw_str = str, raw_len = n, str_pos = 0, str_len = n\<rparr>"

text \<open>The bytes from \<open>_str - k\<close> on.\<close>

definition str_back :: "utf8reader \<Rightarrow> nat \<Rightarrow> u8 list" where
  "str_back r k = drop (str_pos r - k) (the (raw_str r))"

definition str_move :: "nat \<Rightarrow> utf8reader \<Rightarrow> utf8reader" where
  "str_move k r = r\<lparr>str_pos := str_pos r + k, str_len := str_len r - of_nat k\<rparr>"

definition str_retreat :: "nat \<Rightarrow> utf8reader \<Rightarrow> utf8reader" where
  "str_retreat k r = r\<lparr>str_pos := str_pos r - k, str_len := str_len r + of_nat k\<rparr>"

definition reader_step :: "utf8reader \<Rightarrow> bool \<times> u32 \<times> utf8reader" where
  "reader_step r = (if raw_str r = None \<or> str_len r = 0 then (False, 0, r)
     else let str = str_back r 0 in
       if is_utf8_l1 str then (True, utf8_to_utf32_l1 str, str_move 1 r)
       else if 2 \<le> str_len r \<and> is_utf8_l2 str then (True, utf8_to_utf32_l2 str, str_move 2 r)
       else if 3 \<le> str_len r \<and> is_utf8_l3 str then (True, utf8_to_utf32_l3 str, str_move 3 r)
       else if 4 \<le> str_len r \<and> is_utf8_l4 str then (True, utf8_to_utf32_l4 str, str_move 4 r)
       else (True, 0x3F, str_move 1 r))"

definition reader_next :: "utf8reader \<Rightarrow> u32" where
  "reader_next r = (if raw_str r = None \<or> str_len r = 0 then 0
     else let str = str_back r 0 in
       if is_utf8_l1 str then utf8_to_utf32_l1 str
       else if 2 \<le> str_len r \<and> is_utf8_l2 str then utf8_to_utf32_l2 str
       else if 3 \<le> str_len r \<and> is_utf8_l3 str then utf8_to_utf32_l3 str
       else if 4 \<le> str_len r \<and> is_utf8_l4 str then utf8_to_utf32_l4 str
       else 0x3F)"

definition reader_back :: "utf8reader \<Rightarrow> bool \<times> u32 \<times> utf8reader" where
  "reader_back r = (if raw_str r = None \<or> str_pos r < 1 then (False, 0, r)
     else if str_pos r \<ge> 1 \<and> is_utf8_l1 (str_back r 1) then (True, utf8_to_utf32_l1 (str_back r 1), str_retreat 1 r)
     else if str_pos r \<ge> 2 \<and> is_utf8_l1 (str_back r 2) then (True, utf8_to_utf32_l2 (str_back r 2), str_retreat 2 r)
     else if str_pos r \<ge> 3 \<and> is_utf8_l1 (str_back r 3) then (True, utf8_to_utf32_l3 (str_back r 3), str_retreat 3 r)
     else if str_pos r \<ge> 4 \<and> is_utf8_l1 (str_back r 4) then (True, utf8_to_utf32_l4 (str_back r 4), str_retreat 4 r)
     else (True, 0x3F, str_retreat 1 r))"

definition reader_last :: "utf8reader \<Rightarrow> u32" where
  "reader_last r = (if raw_str r = None \<or> str_pos r < 1 then 0
     else if str_pos r \<ge> 1 \<and> is_utf8_l1 (str_back r 1) then utf8_to_utf32_l1 (str_back r 1)
     else if str_pos r \<ge> 2 \<and> is_utf8_l1 (str_back r 2) then utf8_to_utf32_l2 (str_back r 2)
     else if str_pos r \<ge> 3 \<and> is_utf8_l1 (str_back r 3) then utf8_to_utf32_l3 (str_back r 3)
     else if str_pos r \<ge> 4 \<and> is_utf8_l1 (str_back r 4) then utf8_to_utf32_l4 (str_back r 4)
     else 0x3F)"

definition reader_tell :: "utf8reader \<Rightarrow> u64" where
  "reader_tell r = str_len r - raw_len r"

definition reader_call :: "utf8reader \<Rightarrow> u32 \<times> utf8reader" where
  "reader_call r = (let (_, code, r) = reader_step r in (code, r))"

text \<open>The loop every client runs: \<open>while (reader(code)) \<dots>\<close>.\<close>

function read_all :: "utf8reader \<Rightarrow> u32 list" where
  "read_all r = (let (more, code, r') = reader_step r in if more then code # read_all r' else [])"
  by pat_completeness auto
termination
proof (relation "measure (\<lambda>r. unat (str_len r))")
  fix r :: utf8reader and x more y code r'
  assume a: "x = reader_step r" "(more, y) = x" "(code, r') = y" more
  have lt: "unat (n - of_nat k) < unat n" if "(of_nat k :: u64) \<le> n" "0 < k" "k \<le> 4" for n :: u64 and k
  proof -
    have "unat (of_nat k :: u64) = k" using that(3) by (simp add: unat_of_nat)
    then show ?thesis using that by (simp add: unat_sub word_le_nat_alt)
  qed
  from a show "(r', r) \<in> measure (\<lambda>r. unat (str_len r))"
    using lt[of 1 "str_len r"] lt[of 2 "str_len r"] lt[of 3 "str_len r"] lt[of 4 "str_len r"]
    by (auto simp: reader_step_def Let_def str_move_def word_le_nat_alt unat_gt_0 Suc_le_eq split: if_splits)
qed simp

declare read_all.simps [simp del]

subsection \<open>The UTF-16 reader\<close>

record utf16reader =
  str16 :: "u16 list option"
  len16 :: u64

definition utf16reader :: "u16 list option \<Rightarrow> u64 \<Rightarrow> utf16reader" where
  "utf16reader str n = \<lparr>str16 = str, len16 = n\<rparr>"

definition str16_move :: "nat \<Rightarrow> utf16reader \<Rightarrow> utf16reader" where
  "str16_move k r = \<lparr>str16 = map_option (drop k) (str16 r), len16 = len16 r - of_nat k\<rparr>"

definition reader16_step :: "utf16reader \<Rightarrow> bool \<times> u32 \<times> utf16reader" where
  "reader16_step r = (case str16 r of None \<Rightarrow> (False, 0, r) | Some str \<Rightarrow>
     if len16 r = 0 then (False, 0, r)
     else if 2 \<le> len16 r \<and> (ucast (str ! 0) :: u32) AND 0xFC00 = 0xD800 \<and> (ucast (str ! 1) :: u32) AND 0xFC00 = 0xDC00
     then (True, push_bit 10 (ucast (str ! 0) AND 0x3FF) OR (ucast (str ! 1) AND 0x3FF), str16_move 2 r)
     else if (ucast (str ! 0) :: u32) AND 0xFC00 \<noteq> 0xDC00 then (True, ucast (str ! 0) AND 0xFFFF, str16_move 1 r)
     else (True, 0x3F, str16_move 1 r))"

function read16_all :: "utf16reader \<Rightarrow> u32 list" where
  "read16_all r = (let (more, code, r') = reader16_step r in if more then code # read16_all r' else [])"
  by pat_completeness auto
termination
proof (relation "measure (\<lambda>r. unat (len16 r))")
  fix r :: utf16reader and x more y code r'
  assume a: "x = reader16_step r" "(more, y) = x" "(code, r') = y" more
  have lt: "unat (n - of_nat k) < unat n" if "(of_nat k :: u64) \<le> n" "0 < k" "k \<le> 4" for n :: u64 and k
  proof -
    have "unat (of_nat k :: u64) = k" using that(3) by (simp add: unat_of_nat)
    then show ?thesis using that by (simp add: unat_sub word_le_nat_alt)
  qed
  from a show "(r', r) \<in> measure (\<lambda>r. unat (len16 r))"
    using lt[of 1 "len16 r"] lt[of 2 "len16 r"]
    by (auto simp: reader16_step_def Let_def str16_move_def word_le_nat_alt unat_gt_0 Suc_le_eq
        split: if_splits option.splits)
qed simp

declare read16_all.simps [simp del]

subsection \<open>Byte order marks\<close>

datatype utf_type = UtfUnknown | Utf8 | Utf16be | Utf16le | Utf32be | Utf32le

definition testtype :: "u8 list \<Rightarrow> u64 \<Rightarrow> utf_type \<times> u64" where
  "testtype v sz =
    (if 4 \<le> sz \<and> take 4 v = [0xFF, 0xFE, 0x00, 0x00] then (Utf32le, 4)
     else if 4 \<le> sz \<and> take 4 v = [0x00, 0x00, 0xFE, 0xFF] then (Utf32be, 4)
     else if 3 \<le> sz \<and> take 3 v = [0xEF, 0xBB, 0xBF] then (Utf8, 3)
     else if 2 \<le> sz \<and> take 2 v = [0xFF, 0xFE] then (Utf16le, 2)
     else if 2 \<le> sz \<and> take 2 v = [0xFE, 0xFF] then (Utf16be, 2)
     else (Utf8, 0))"

definition testbom :: "u8 list \<Rightarrow> u64 \<Rightarrow> u64" where
  "testbom v sz = snd (testtype v sz)"

end
