(* ===== verification/UtfCorrect.thy ===== *)
theory UtfCorrect
  imports Utf
begin

text \<open>
  The readers against the encodings they read: the standard encoders as the specification, what
  the readers deliver on encoded text, and what they do with text that is not.
\<close>

subsection \<open>The standard encodings\<close>

definition utf8_encode :: "u32 \<Rightarrow> u8 list" where
  "utf8_encode c = (if c < 0x80 then [ucast c]
     else if c < 0x800 then [0xC0 OR ucast (drop_bit 6 c), 0x80 OR ucast (c AND 0x3F)]
     else if c < 0x10000 then [0xE0 OR ucast (drop_bit 12 c), 0x80 OR ucast (drop_bit 6 c AND 0x3F), 0x80 OR ucast (c AND 0x3F)]
     else [0xF0 OR ucast (drop_bit 18 c), 0x80 OR ucast (drop_bit 12 c AND 0x3F), 0x80 OR ucast (drop_bit 6 c AND 0x3F),
       0x80 OR ucast (c AND 0x3F)])"

definition utf16_encode :: "u32 \<Rightarrow> u16 list" where
  "utf16_encode c = (if c < 0x10000 then [ucast c]
     else [0xD800 OR ucast (drop_bit 10 (c - 0x10000)), 0xDC00 OR ucast ((c - 0x10000) AND 0x3FF)])"

subsection \<open>Bits\<close>


lemma mask_numerals:
  "(0x3F :: 'a::len word) = mask 6" "(0x1F :: 'a word) = mask 5" "(0x0F :: 'a word) = mask 4" "(0x07 :: 'a word) = mask 3"
  "(0x3FF :: 'a word) = mask 10" "(0xFFFF :: 'a word) = mask 16"
  by (simp_all add: mask_eq_exp_minus_1)

lemma bit_less_exp:
  assumes "(c :: 'a::len word) < 2 ^ k" "k < LENGTH('a)" "bit c n" shows "n < k"
proof -
  have "c AND mask k = c" using assms(1,2) by (intro less_mask_eq) 
  then show ?thesis using assms(3) by (metis bit_and_iff bit_mask_iff)
qed

lemma eight: "n < (8::nat) \<longleftrightarrow> n \<in> {0,1,2,3,4,5,6,7}" by auto

text \<open>The payload of a byte: the marks of lead and continuation bytes are masked away.\<close>

lemma payload:
  assumes "k \<le> 6" "p \<in> {0xC0, 0x80} \<or> p = 0xE0 \<and> k \<le> 5 \<or> p = 0xF0 \<and> k \<le> 4"
  shows "char32 (p OR ucast (c :: u32)) AND mask k = c AND mask k"
proof (rule bit_word_eqI)
  fix n :: nat
  have "\<not> bit p n" if "n < k"
    using assms that by (elim disjE conjE insertE) (auto simp: numeral_nat less_Suc_eq le_Suc_eq)
  then show "bit (char32 (p OR ucast c) AND mask k) n \<longleftrightarrow> bit (c AND mask k) n"
    using assms(1) by (auto simp: char32_def bit_simps)
qed

lemma payloads:
  "char32 (0x80 OR ucast (c :: u32)) AND 0x3F = c AND 0x3F" "char32 (0xC0 OR ucast c) AND 0x1F = c AND 0x1F"
  "char32 (0xE0 OR ucast c) AND 0x0F = c AND 0x0F" "char32 (0xF0 OR ucast c) AND 0x07 = c AND 0x07"
  by (simp_all add: mask_numerals payload)

text \<open>The marks: what the tests of the reader see in an encoded byte.\<close>

lemma lead2: "c < 2 ^ 5 \<Longrightarrow> (0xC0 OR (ucast (c :: u32) :: u8)) AND 0xE0 = 0xC0"
  by (rule bit_word_eqI) (use bit_less_exp[of c 5] in \<open>auto simp: eight bit_simps\<close>)

lemma lead3: 
  "(0xE0 OR (ucast (c :: u32) :: u8)) AND 0xE0 = 0xE0"
  "c < 2 ^ 4 \<Longrightarrow> (0xE0 OR (ucast c :: u8)) AND 0xF0 = 0xE0"
  by (rule bit_word_eqI, (use bit_less_exp[of c 4] in \<open>auto simp: eight bit_simps\<close>))+

lemma lead4: 
  "(0xF0 OR (ucast (c :: u32) :: u8)) AND 0xE0 = 0xE0"
  "(0xF0 OR (ucast c :: u8)) AND 0xF0 = 0xF0"
  "c < 2 ^ 3 \<Longrightarrow> (0xF0 OR (ucast c :: u8)) AND 0xF8 = 0xF0"
  by (rule bit_word_eqI, (use bit_less_exp[of c 3] in \<open>auto simp: eight bit_simps\<close>))+

lemma high_bit:
  "(0x80 OR (b :: u8)) AND 0x80 = 0x80" "(0xC0 OR b) AND 0x80 = 0x80"
  "(0xE0 OR b) AND 0x80 = 0x80" "(0xF0 OR b) AND 0x80 = 0x80"
  by (rule bit_word_eqI, (auto simp: eight bit_simps))+

lemma continuation: "(0x80 OR (ucast (c AND 0x3F :: u32) :: u8)) AND 0xC0 = 0x80"
  unfolding mask_numerals by (rule bit_word_eqI) (auto simp: eight bit_simps)

lemma ascii:
  assumes "c < 2 ^ 7"
  shows "(ucast (c :: u32) :: u8) AND 0x80 = 0" "char32 (ucast c) = c"
proof -
  have b: "bit c n \<longleftrightarrow> n < 7 \<and> bit c n" for n using bit_less_exp[OF assms] by auto
  show "(ucast c :: u8) AND 0x80 = 0"
    by (rule bit_word_eqI) (use b[of 7] in \<open>auto simp: eight bit_simps\<close>)
  show "char32 (ucast c) = c"
    by (rule bit_word_eqI) (use b[of 7] in \<open>auto simp: char32_def bit_simps min_def dest: bit_less_exp[OF assms, simplified]\<close>)
qed

lemma join2:
  assumes "c < 2 ^ 11" shows "push_bit 6 (drop_bit 6 c AND 0x1F) OR (c AND 0x3F) = (c :: u32)"
proof (rule bit_word_eqI)
  fix n :: nat
  have "n < 6 \<or> 6 \<le> n" by linarith
  then show "bit (push_bit 6 (drop_bit 6 c AND 0x1F) OR (c AND 0x3F)) n = bit c n"
    by (elim disjE) (use bit_less_exp[OF assms, of n] in \<open>auto simp: mask_numerals bit_simps\<close>)
qed

lemma join3:
  assumes "c < 2 ^ 16"
  shows "push_bit 12 (drop_bit 12 c AND 0x0F) OR push_bit 6 (drop_bit 6 c AND 0x3F) OR (c AND 0x3F) = (c :: u32)"
    (is "?l = c")
proof (rule bit_word_eqI)
  fix n :: nat
  have "n < 6 \<or> 6 \<le> n \<and> n < 12 \<or> 12 \<le> n" by linarith
  then show "bit ?l n = bit c n"
    by (elim disjE conjE) (use bit_less_exp[OF assms, of n] in \<open>auto simp: mask_numerals bit_simps\<close>)
qed

lemma join4:
  assumes "c < 2 ^ 21"
  shows "push_bit 18 (drop_bit 18 c AND 0x07) OR push_bit 12 (drop_bit 12 c AND 0x3F)
    OR push_bit 6 (drop_bit 6 c AND 0x3F) OR (c AND 0x3F) = (c :: u32)" (is "?l = c")
proof (rule bit_word_eqI)
  fix n :: nat
  have "n < 6 \<or> 6 \<le> n \<and> n < 12 \<or> 12 \<le> n \<and> n < 18 \<or> 18 \<le> n" by linarith
  then show "bit ?l n = bit c n"
    by (elim disjE conjE) (use bit_less_exp[OF assms, of n] in \<open>auto simp: mask_numerals bit_simps\<close>)
qed

subsection \<open>Stepping over an encoded character\<close>

text \<open>The reader stands before \<open>bs\<close>, which is all that is left.\<close>

definition before :: "u8 list \<Rightarrow> utf8reader \<Rightarrow> bool" where
  "before bs r \<longleftrightarrow> (\<exists>pre. raw_str r = Some (pre @ bs) \<and> str_pos r = length pre) \<and> unat (str_len r) = length bs"

lemma before_start: "length bs < 2 ^ 64 \<Longrightarrow> before bs (utf8reader (Some bs) (of_nat (length bs)))"
  by (simp add: before_def utf8reader_def unat_of_nat take_bit_nat_eq_self)

lemma before_move:
  assumes "before (xs @ ys) r" shows "before ys (str_move (length xs) r)"
proof -
  obtain pre where pre: "raw_str r = Some (pre @ xs @ ys)" "str_pos r = length pre"
      "unat (str_len r) = length xs + length ys" using assms by (auto simp: before_def)
  have m: "unat (str_len r) < 2 ^ LENGTH(64)" by (rule unsigned_less)
  then have "length xs < 2 ^ 64" using pre(3) m by simp
  then have u: "unat (of_nat (length xs) :: u64) = length xs" by (simp add: unat_of_nat take_bit_nat_eq_self)
  then have "unat (str_len r - of_nat (length xs)) = length ys"
    using pre(3) by (simp add: unat_sub word_le_nat_alt)
  then show ?thesis
    using pre(1,2) by (auto simp: before_def str_move_def intro!: exI[of _ "pre @ xs"])
qed

lemma before_back: "before bs r \<Longrightarrow> str_back r 0 = bs"
  by (auto simp: before_def str_back_def)

lemma drop_bit_small:
  assumes "c < 2 ^ (k + m)" "k + m < 32" shows "drop_bit k (c :: u32) < 2 ^ m"
proof -
  have p: "unat (2 ^ n :: u32) = 2 ^ n" if "n < 32" for n
    using power_strict_increasing[OF that, of "2 :: nat"] unat_of_nat[of "2 ^ n", where 'a = 32] by simp
  have "unat c < 2 ^ k * 2 ^ m" using assms p[of "k + m"] by (simp add: word_less_nat_alt power_add)
  then have "unat c div 2 ^ k < 2 ^ m" by (simp add: less_mult_imp_div_less mult.commute)
  then show ?thesis using p[of m] assms(2) by (simp add: word_less_nat_alt unat_drop_bit_eq drop_bit_nat_def)
qed

lemma utf8_encode_length: "length (utf8_encode c) =
    (if c < 0x80 then 1 else if c < 0x800 then 2 else if c < 0x10000 then 3 else 4)"
  by (simp add: utf8_encode_def)

lemma step_encoded:
  assumes "before (utf8_encode c @ bs) r" "c < 0x110000"
  shows "reader_step r = (True, c, str_move (length (utf8_encode c)) r)"
proof -
  have raw: "raw_str r \<noteq> None" and n: "unat (str_len r) = length (utf8_encode c) + length bs"
    using assms(1) by (auto simp: before_def)
  have len: "str_len r \<noteq> 0" using n utf8_encode_length[of c] by (auto split: if_splits)
  have le: "(k :: u64) \<le> str_len r" if "unat k \<le> length (utf8_encode c)" for k
    using that n by (simp add: word_le_nat_alt)
  note s = reader_step_def Let_def before_back[OF assms(1)] is_utf8_l1_def is_utf8_l2_def is_utf8_l3_def is_utf8_l4_def
    utf8_to_utf32_l1_def utf8_to_utf32_l2_def utf8_to_utf32_l3_def utf8_to_utf32_l4_def
  have c21: "c < 2 ^ 21" using assms(2) by (simp add: word_less_nat_alt)
  consider "c < 0x80" | "\<not> c < 0x80" "c < 0x800" | "\<not> c < 0x800" "c < 0x10000" | "\<not> c < 0x10000" by blast
  then show ?thesis
  proof cases
    case 1
    then show ?thesis
      using raw len ascii[of c] by (simp add: s utf8_encode_def)
  next
    case 2
    then have d: "drop_bit 6 c < 2 ^ 5" by (intro drop_bit_small) simp_all
    have l: "length (utf8_encode c) = 2" using 2 by (simp add: utf8_encode_length)
    show ?thesis
      unfolding l using 2 d raw len le[of 2] join2[of c]
      by (simp add: s utf8_encode_def high_bit continuation lead2 payloads)
  next
    case 3
    then have d: "drop_bit 12 c < 2 ^ 4" by (intro drop_bit_small) simp_all
    have g: "\<not> c < 0x80" using 3 by (auto simp: word_less_nat_alt)
    then have l: "length (utf8_encode c) = 3" using 3 by (simp add: utf8_encode_length)
    show ?thesis
      unfolding l using 3 d g raw len le[of 2] le[of 3] join3[of c]
      by (simp add: s utf8_encode_def high_bit continuation lead3 payloads)
  next
    case 4
    then have d: "drop_bit 18 c < 2 ^ 3" using c21 by (intro drop_bit_small) simp_all
    have g: "\<not> c < 0x80" "\<not> c < 0x800" using 4 by (auto simp: word_less_nat_alt)
    then have l: "length (utf8_encode c) = 4" using 4 by (simp add: utf8_encode_length)
    show ?thesis
      unfolding l using 4 d g raw len le[of 2] le[of 3] le[of 4] join4[OF c21]
      by (simp add: s utf8_encode_def high_bit continuation lead4 payloads)
  qed
qed

subsection \<open>UTF-16\<close>

lemma read_all_encoded:
  assumes "\<forall>c \<in> set cs. c < 0x110000" "before (concat (map utf8_encode cs)) r"
  shows "read_all r = cs"
  using assms
proof (induction cs arbitrary: r)
  case Nil
  then have "str_len r = 0" by (auto simp: before_def unat_eq_0)
  then show ?case by (simp add: read_all.simps[of r] reader_step_def)
next
  case (Cons c cs)
  have b: "before (utf8_encode c @ concat (map utf8_encode cs)) r" using Cons.prems(2) by simp
  have "reader_step r = (True, c, str_move (length (utf8_encode c)) r)"
    using step_encoded[OF b] Cons.prems(1) by simp
  moreover have "read_all (str_move (length (utf8_encode c)) r) = cs"
    using Cons.IH[OF _ before_move[OF b]] Cons.prems(1) by simp
  ultimately show ?case by (simp add: read_all.simps[of r])
qed

lemma sixteen: "n < (16::nat) \<longleftrightarrow> n \<in> {0,1,2,3,4,5,6,7,8,9,10,11,12,13,14,15}"
  by (simp only: insert_iff empty_iff) presburger

lemma lead16:
  fixes d :: u32
  assumes "d < 2 ^ 10"
  shows "(0xD800 OR (ucast d :: u16)) AND 0xFC00 = 0xD800" "(0xDC00 OR (ucast d :: u16)) AND 0xFC00 = 0xDC00"
proof -
  have b: "\<not> bit d 10" "\<not> bit d 11" "\<not> bit d 12" "\<not> bit d 13" "\<not> bit d 14" "\<not> bit d 15"
    using bit_less_exp[OF assms] by fastforce+
  show "(0xD800 OR (ucast d :: u16)) AND 0xFC00 = 0xD800"
    by (rule bit_word_eqI) (use b in \<open>auto simp: sixteen bit_simps\<close>)
  show "(0xDC00 OR (ucast d :: u16)) AND 0xFC00 = 0xDC00"
    by (rule bit_word_eqI) (use b in \<open>auto simp: sixteen bit_simps\<close>)
qed

lemma payload16:
  fixes d :: u32
  assumes "p \<in> {0xD800, 0xDC00}"
  shows "(ucast (p OR (ucast d :: u16)) :: u32) AND 0x3FF = d AND 0x3FF"
proof (rule bit_word_eqI)
  fix n :: nat
  have "\<not> bit p n" if "n < 10"
    using assms that by (elim insertE) (auto simp: numeral_nat less_Suc_eq)
  then show "bit ((ucast (p OR (ucast d :: u16)) :: u32) AND 0x3FF) n \<longleftrightarrow> bit (d AND 0x3FF) n"
    by (auto simp: mask_numerals bit_simps)
qed

lemma and_FC00: "(ucast (x :: u16) :: u32) AND 0xFC00 = ucast (x AND 0xFC00)"
  by (simp add: unsigned_and_eq)

lemma join16:
  fixes d :: u32
  assumes "d < 2 ^ 20"
  shows "push_bit 10 (drop_bit 10 d AND 0x3FF) OR (d AND 0x3FF) = d" (is "?l = d")
proof (rule bit_word_eqI)
  fix n :: nat
  have "n < 10 \<or> 10 \<le> n" by linarith
  then show "bit ?l n = bit d n"
    by (elim disjE) (use bit_less_exp[OF assms, of n] in \<open>auto simp: mask_numerals bit_simps\<close>)
qed

text \<open>Characters of the first plane that are not surrogates.\<close>

definition is_scalar :: "u32 \<Rightarrow> bool" where
  "is_scalar c \<longleftrightarrow> c < 0x110000 \<and> \<not> (0xD800 \<le> c \<and> c \<le> 0xDFFF)"

lemma not_surrogate:
  assumes "is_scalar c" "c < 0x10000"
  shows "c AND 0xFC00 \<noteq> 0xD800" "c AND 0xFC00 \<noteq> 0xDC00"
proof -
  have d: "unat (drop_bit 10 c) = unat c div 1024" by (simp add: unat_drop_bit_eq drop_bit_nat_def)
  have "drop_bit 10 c < 2 ^ 6" using assms(2) by (intro drop_bit_small) simp_all
  then have "drop_bit 10 c AND mask 6 = drop_bit 10 c" by (intro less_mask_eq) simp_all
  then have a: "drop_bit 10 (c AND 0xFC00) = drop_bit 10 c" by (simp add: mask_eq_exp_minus_1)
  have "unat c div 1024 \<noteq> 54 \<and> unat c div 1024 \<noteq> 55"
    using assms(1) by (auto simp: is_scalar_def word_le_nat_alt word_less_nat_alt)
  then have n: "unat (drop_bit 10 c) \<noteq> 54" "unat (drop_bit 10 c) \<noteq> 55" by (simp_all add: d)
  have "c AND 0xFC00 = v \<Longrightarrow> drop_bit 10 c = drop_bit 10 v" for v using a by metis
  from this[of "0xD800"] this[of "0xDC00"] n
  show "c AND 0xFC00 \<noteq> 0xD800" "c AND 0xFC00 \<noteq> 0xDC00" by auto
qed

definition before16 :: "u16 list \<Rightarrow> utf16reader \<Rightarrow> bool" where
  "before16 bs r \<longleftrightarrow> str16 r = Some bs \<and> unat (len16 r) = length bs"

lemma before16_start: "length bs < 2 ^ 64 \<Longrightarrow> before16 bs (utf16reader (Some bs) (of_nat (length bs)))"
  by (simp add: before16_def utf16reader_def unat_of_nat take_bit_nat_eq_self)

lemma before16_move:
  assumes "before16 (xs @ ys) r" shows "before16 ys (str16_move (length xs) r)"
proof -
  have n: "unat (len16 r) = length xs + length ys" using assms by (simp add: before16_def)
  have m: "unat (len16 r) < 2 ^ LENGTH(64)" by (rule unsigned_less)
  then have "length xs < 2 ^ 64" using n m by simp
  then have "unat (of_nat (length xs) :: u64) = length xs" by (simp add: unat_of_nat take_bit_nat_eq_self)
  then have "unat (len16 r - of_nat (length xs)) = length ys"
    using n by (simp add: unat_sub word_le_nat_alt)
  then show ?thesis using assms by (simp add: before16_def str16_move_def)
qed

text \<open>What the reader makes of a character.\<close>

definition low_half :: "u32 \<Rightarrow> u32" where
  "low_half c = (if c < 0x10000 then c else c - 0x10000)"

lemma step16_encoded:
  assumes "before16 (utf16_encode c @ bs) r" "is_scalar c"
  shows "reader16_step r = (True, low_half c, str16_move (length (utf16_encode c)) r)"
proof (cases "c < 0x10000")
  case True
  have r: "str16 r = Some (ucast c # bs)" "len16 r \<noteq> 0"
    using assms(1) True by (auto simp: before16_def utf16_encode_def)
  have "c AND mask 16 = c" using True by (intro less_mask_eq) simp_all
  then have u: "(ucast (ucast c :: u16) :: u32) = c"
    by (intro bit_word_eqI) (use True in \<open>auto simp: bit_simps dest: bit_less_exp[of c 16, simplified]\<close>)
  then show ?thesis
    using r not_surrogate[OF assms(2) True] \<open>c AND mask 16 = c\<close> True
    by (simp add: reader16_step_def low_half_def utf16_encode_def mask_numerals(6))
next
  case False
  let ?d = "c - 0x10000"
  have d: "?d < 2 ^ 20"
    using False assms(2) by (simp add: is_scalar_def word_less_nat_alt unat_sub word_le_nat_alt)
  have "drop_bit 10 ?d < 2 ^ 10" using d by (intro drop_bit_small) simp_all
  moreover have "?d AND 0x3FF < 2 ^ 10" unfolding mask_numerals by (rule and_mask_less') simp
  moreover have "2 \<le> len16 r" "len16 r \<noteq> 0"
    using assms(1) False by (auto simp: before16_def utf16_encode_def word_le_nat_alt)
  moreover have l: "length (utf16_encode c) = 2" using False by (simp add: utf16_encode_def)
  ultimately show ?thesis
    unfolding l using assms(1) False join16[OF d]
    by (simp add: reader16_step_def before16_def utf16_encode_def low_half_def and_FC00 lead16 payload16)
qed

subsection \<open>Properties\<close>

text \<open>
  C29.  UTF-8 text is read as it was written.  The loop \<open>while (reader(code))\<close> over the UTF-8
  encoding of a list of code points delivers exactly these code points and ends.
\<close>

theorem utf8_text_read:
  assumes "\<forall>c \<in> set cs. c < 0x110000" "bytes = concat (map utf8_encode cs)" "length bytes < 2 ^ 64"
  shows "read_all (utf8reader (Some bytes) (of_nat (length bytes))) = cs"
  using read_all_encoded[OF assms(1)] before_start[OF assms(3)] assms(2) by simp

theorem utf8_text_read_witness:
  "read_all (utf8reader (Some [0x41, 0xE2, 0x82, 0xAC, 0xF0, 0x9F, 0x98, 0x80]) 8) = [0x41, 0x20AC, 0x1F600]"
proof -
  have "concat (map utf8_encode [0x41, 0x20AC, 0x1F600]) = [0x41, 0xE2, 0x82, 0xAC, 0xF0, 0x9F, 0x98, 0x80]"
    by (simp add: utf8_encode_def)
  then show ?thesis
    using utf8_text_read[of "[0x41, 0x20AC, 0x1F600]" "[0x41, 0xE2, 0x82, 0xAC, 0xF0, 0x9F, 0x98, 0x80]"] by simp
qed

lemma fits_mask: "(x :: u32) AND mask k = x \<Longrightarrow> k < 32 \<Longrightarrow> x < 2 ^ k"
  using and_mask_less'[of k x] by simp

lemma l1_small: "is_utf8_l1 str \<Longrightarrow> utf8_to_utf32_l1 str < 2 ^ 21"
proof (rule fits_mask)
  assume "is_utf8_l1 str"
  then have "\<not> bit (str ! 0 AND 0x80) 7" by (simp add: is_utf8_l1_def)
  then have "\<not> bit (str ! 0) 7" by (simp add: bit_simps)
  then show "utf8_to_utf32_l1 str AND mask 21 = utf8_to_utf32_l1 str"
    by (intro bit_word_eqI) (auto simp: utf8_to_utf32_l1_def char32_def bit_simps min_def split: if_splits)
qed simp

lemma l2_small: "utf8_to_utf32_l2 str < 2 ^ 21"
  by (rule fits_mask, rule bit_word_eqI) (auto simp: utf8_to_utf32_l2_def mask_numerals bit_simps)

lemma l3_small: "utf8_to_utf32_l3 str < 2 ^ 21"
  by (rule fits_mask, rule bit_word_eqI) (auto simp: utf8_to_utf32_l3_def mask_numerals bit_simps)

lemma l4_small: "utf8_to_utf32_l4 str < 2 ^ 21"
  by (rule fits_mask, rule bit_word_eqI) (auto simp: utf8_to_utf32_l4_def mask_numerals bit_simps)

lemma before_advance: "before bs r \<Longrightarrow> n \<le> length bs \<Longrightarrow> before (drop n bs) (str_move n r)"
  using before_move[of "take n bs" "drop n bs" r] by (simp add: min_absorb2)

text \<open>
  The reader is safe on any bytes.  Before a non-empty rest it delivers a code below
  \<open>2 ^ 21\<close>, the one \<open>next\<close> announces, and moves forward by one to four bytes that are all
  inside the text; at the end of the text it stops and stays.
\<close>

theorem utf8_reader_safe:
  assumes "before bs r"
  shows "if bs = [] then reader_step r = (False, 0, r) else \<exists>code n. reader_step r = (True, code, str_move n r)
    \<and> 1 \<le> n \<and> n \<le> 4 \<and> n \<le> length bs \<and> before (drop n bs) (str_move n r) \<and> code < 2 ^ 21 \<and> reader_next r = code"
proof (cases "bs = []")
  case True
  then have "str_len r = 0" using assms by (auto simp: before_def unat_eq_0)
  then show ?thesis using True by (simp add: reader_step_def)
next
  case False
  have raw: "raw_str r \<noteq> None" and n: "unat (str_len r) = length bs" using assms by (auto simp: before_def)
  have "str_len r \<noteq> 0" using n False by auto
  note s = reader_step_def reader_next_def Let_def before_back[OF assms]
  have len: "(k :: u64) \<le> str_len r \<longleftrightarrow> unat k \<le> length bs" for k by (simp add: word_le_nat_alt n)
  have one: "1 \<le> length bs" using False by (cases bs) auto
  consider (l1) "is_utf8_l1 bs" | (l2) "\<not> is_utf8_l1 bs" "2 \<le> str_len r \<and> is_utf8_l2 bs"
    | (l3) "\<not> is_utf8_l1 bs" "\<not> (2 \<le> str_len r \<and> is_utf8_l2 bs)" "3 \<le> str_len r \<and> is_utf8_l3 bs"
    | (l4) "\<not> is_utf8_l1 bs" "\<not> (2 \<le> str_len r \<and> is_utf8_l2 bs)" "\<not> (3 \<le> str_len r \<and> is_utf8_l3 bs)"
        "4 \<le> str_len r \<and> is_utf8_l4 bs"
    | (un) "\<not> is_utf8_l1 bs" "\<not> (2 \<le> str_len r \<and> is_utf8_l2 bs)" "\<not> (3 \<le> str_len r \<and> is_utf8_l3 bs)"
        "\<not> (4 \<le> str_len r \<and> is_utf8_l4 bs)" by blast
  then have "\<exists>code n. reader_step r = (True, code, str_move n r) \<and> 1 \<le> n \<and> n \<le> 4 \<and> n \<le> length bs
      \<and> code < 2 ^ 21 \<and> reader_next r = code"
  proof cases
    case l1 then show ?thesis using raw \<open>str_len r \<noteq> 0\<close> one l1_small by (intro exI[of _ 1] exI) (auto simp: s)
  next
    case l2 then show ?thesis using raw \<open>str_len r \<noteq> 0\<close> len l2_small by (intro exI[of _ 2] exI) (auto simp: s)
  next
    case l3 then show ?thesis using raw \<open>str_len r \<noteq> 0\<close> len l3_small by (intro exI[of _ 3] exI) (auto simp: s)
  next
    case l4 then show ?thesis using raw \<open>str_len r \<noteq> 0\<close> len l4_small by (intro exI[of _ 4] exI) (auto simp: s)
  next
    case un then show ?thesis using raw \<open>str_len r \<noteq> 0\<close> one by (intro exI[of _ 1] exI) (auto simp: s)
  qed
  then show ?thesis using False before_advance[OF assms] by metis
qed

theorem utf8_reader_safe_witness:
  "\<exists>code n. reader_step (utf8reader (Some [0xE2, 0x82]) 2) = (True, code, str_move n (utf8reader (Some [0xE2, 0x82]) 2))
     \<and> n \<le> length ([0xE2, 0x82] :: u8 list)"
proof -
  have "before [0xE2, 0x82] (utf8reader (Some [0xE2, 0x82]) 2)" using before_start[of "[0xE2, 0x82]"] by simp
  from utf8_reader_safe[OF this] show ?thesis by (simp only: list.distinct if_False) blast
qed

text \<open>
  C11.  UTF-16 text is read without its planes.  The reader forgets to add \<open>0x10000\<close> to what
  the two surrogates of a character carry: every character of the first plane is read as written,
  every other one as the character \<open>0x10000\<close> below it.
\<close>

theorem utf16_loses_plane:
  assumes "\<forall>c \<in> set cs. is_scalar c" "text = concat (map utf16_encode cs)" "length text < 2 ^ 64"
  shows "read16_all (utf16reader (Some text) (of_nat (length text))) = map low_half cs
    \<and> (\<forall>c \<in> set cs. low_half c = c \<longleftrightarrow> c < 0x10000)"
proof -
  have "read16_all r = map low_half cs" if "before16 (concat (map utf16_encode cs)) r" "\<forall>c \<in> set cs. is_scalar c" for r cs
    using that
  proof (induction cs arbitrary: r)
    case Nil
    then have "len16 r = 0" by (simp add: before16_def unat_eq_0)
    then show ?case using Nil.prems(1) by (simp add: read16_all.simps[of r] reader16_step_def before16_def)
  next
    case (Cons c cs)
    have b: "before16 (utf16_encode c @ concat (map utf16_encode cs)) r" using Cons.prems(1) by simp
    have "read16_all (str16_move (length (utf16_encode c)) r) = map low_half cs"
      using Cons.IH[OF before16_move[OF b]] Cons.prems(2) by simp
    then show ?case
      using step16_encoded[OF b] Cons.prems(2) by (simp add: read16_all.simps[of r])
  qed
  then show ?thesis
    using before16_start[OF assms(3)] assms(1,2) by (auto simp: low_half_def)
qed

theorem utf16_loses_plane_witness:
  "read16_all (utf16reader (Some [0x41, 0xD83D, 0xDE00]) 3) = [0x41, 0xF600]"
proof -
  have "concat (map utf16_encode [0x41, 0x1F600]) = [0x41, 0xD83D, 0xDE00]"
    by (simp add: utf16_encode_def)
  then show ?thesis
    using utf16_loses_plane[of "[0x41, 0x1F600]" "[0x41, 0xD83D, 0xDE00]"] by (simp add: is_scalar_def low_half_def)
qed

text \<open>
  Stepping back over a character of several bytes fails: the reader looks for an ASCII byte where
  the lead byte has to be, reports \<open>?\<close> and stops inside the character.
\<close>

theorem utf8_back_inside:
  assumes "0x80 \<le> c" "c < 0x110000" "bytes = utf8_encode c"
  shows "reader_back (snd (snd (reader_step (utf8reader (Some bytes) (of_nat (length bytes)))))) =
      (True, 0x3F, str_retreat 1 (str_move (length bytes) (utf8reader (Some bytes) (of_nat (length bytes)))))
    \<and> length bytes \<noteq> 1"
proof -
  let ?r = "utf8reader (Some bytes) (of_nat (length bytes))"
  have l: "length bytes \<in> {2, 3, 4}"
    using assms(1,3) by (auto simp: utf8_encode_length word_le_nat_alt word_less_nat_alt)
  have b: "before (utf8_encode c @ []) ?r" using before_start[of bytes] l by (auto simp: assms(3))
  have step: "reader_step ?r = (True, c, str_move (length bytes) ?r)"
    using step_encoded[OF b assms(2)] by (simp add: assms(3))
  have high: "bytes ! i AND 0x80 = 0x80" if "i < length bytes" for i
    using that assms(1) by (auto simp: assms(3) utf8_encode_def high_bit nth_Cons word_le_nat_alt word_less_nat_alt
        split: if_splits nat.splits)
  have "\<not> is_utf8_l1 (str_back (str_move (length bytes) ?r) k)" if "1 \<le> k" "k \<le> length bytes" for k
    using high[of "length bytes - k"] that l by (auto simp: is_utf8_l1_def str_back_def str_move_def utf8reader_def)
  moreover have "str_pos (str_move (length bytes) ?r) = length bytes" "raw_str (str_move (length bytes) ?r) = Some bytes"
    by (simp_all add: str_move_def utf8reader_def)
  ultimately show ?thesis
    unfolding step using l by (auto simp: reader_back_def)
qed

end
