(* ===== verification/GlyphCache.thy ===== *)
theory GlyphCache
  imports Utf
begin

text \<open>
  The glyph cache (\<open>FreeTypeGlyphManager\<close>): glyph bitmaps are packed row by row into
  textures of 1024 by 1024 pixels, kept in main memory and uploaded when dirty.  FreeType, the
  floating point conversions and the graphics device are the parameters \<open>freetype\<close>,
  \<open>glyph_floats\<close> and \<open>gpu\<close>.
\<close>

subsection \<open>What FreeType renders\<close>

datatype pixel_mode = PixelGray | PixelMono | PixelOther

record ft_bitmap =
  bm_width :: u32
  bm_rows :: u32
  bm_pitch :: int
  bm_mode :: pixel_mode
  bm_buffer :: "int \<Rightarrow> u8"

record ft_glyph =
  g_bitmap :: ft_bitmap
  g_left :: int
  g_top :: int
  g_advance_x :: int
  g_advance_y :: int

text \<open>\<open>char_index\<close> and \<open>load_glyph\<close> are \<open>FT_Get_Char_Index\<close> and \<open>FT_Load_Glyph\<close> on a face.\<close>

record freetype =
  char_index :: "nat \<Rightarrow> u32 \<Rightarrow> u32"
  load_glyph :: "nat \<Rightarrow> u32 \<Rightarrow> ft_glyph"

text \<open>The conversion of an integer to \<open>float\<close> and the division of floats.\<close>

record 'f glyph_floats =
  f_of :: "int \<Rightarrow> 'f"
  f_div :: "'f \<Rightarrow> 'f \<Rightarrow> 'f"

definition accessor_pixel :: "ft_bitmap \<Rightarrow> u32 \<Rightarrow> u32 \<Rightarrow> u32" where
  "accessor_pixel b x y =
    (case bm_mode b of
       PixelGray \<Rightarrow> push_bit 24 (ucast (bm_buffer b (uint y * bm_pitch b + uint x))) OR 0x00FFFFFF
     | PixelMono \<Rightarrow> (let block = bm_buffer b (uint y * bm_pitch b + uint (x div 8)) in
         if push_bit (unat (7 - x mod 8)) 1 AND (ucast block :: u32) \<noteq> 0 then 0xFFFFFFFF else 0x00FFFFFF)
     | PixelOther \<Rightarrow> 0)"

subsection \<open>Textures\<close>

definition texture_size :: u32 where "texture_size = 1024"

text \<open>
  An image is its array of pixels, in the order of memory.  A write outside the array is not
  modelled as a value: \<open>None\<close>.
\<close>

type_synonym image = "nat \<Rightarrow> u32"

definition pixel_index :: "u32 \<Rightarrow> u32 \<Rightarrow> nat" where
  "pixel_index x y = unat (y * texture_size + x)"

definition set_pixel :: "u32 \<times> u32 \<times> u32 \<Rightarrow> image \<Rightarrow> image option" where
  "set_pixel w img = (case w of (x, y, c) \<Rightarrow>
     if pixel_index x y < 1024 * 1024 then Some (img(pixel_index x y := c)) else None)"

fun set_pixels :: "(u32 \<times> u32 \<times> u32) list \<Rightarrow> image \<Rightarrow> image option" where
  "set_pixels [] img = Some img"
| "set_pixels (w # ws) img = Option.bind (set_pixel w img) (set_pixels ws)"

definition invalid_rect_value :: u32 where "invalid_rect_value = 0x7FFFFFFF"

text \<open>
  A texture of the cache: the image in memory, what the device's texture shows (\<open>None\<close> for the
  null pointer), the pen and the dirty rectangle.
\<close>

record glyph_cache2d =
  gc_image :: image
  gc_texture :: "image option"
  pen_x :: u32
  pen_y :: u32
  pen_bottom :: u32
  dirty_l :: u32
  dirty_t :: u32
  dirty_r :: u32
  dirty_b :: u32

definition new_cache2d :: "image option \<Rightarrow> glyph_cache2d" where
  "new_cache2d tex = \<lparr>gc_image = (\<lambda>_. 0), gc_texture = tex, pen_x = 0, pen_y = 0, pen_bottom = 0,
     dirty_l = invalid_rect_value, dirty_t = invalid_rect_value, dirty_r = invalid_rect_value,
     dirty_b = invalid_rect_value\<rparr>"

text \<open>
  The device: the content of the \<open>n\<close>th texture it is asked to create, \<open>None\<close> when it fails, and
  whether it accepts uploads.
\<close>

record gpu =
  create_texture :: "nat \<Rightarrow> image option"
  accepts_upload :: bool

subsection \<open>Placing a bitmap\<close>

text \<open>One turn of the loop over the textures: whether the bitmap fits, and the texture with its pen moved.\<close>

definition find_room :: "ft_bitmap \<Rightarrow> glyph_cache2d \<Rightarrow> bool \<times> glyph_cache2d" where
  "find_room b t =
    (let t = (if pen_x t = 0 \<or> pen_y t = 0 then t\<lparr>pen_x := 1, pen_y := 1\<rparr> else t) in
     if pen_x t + bm_width b < texture_size - 1 \<and> pen_y t + bm_rows b < texture_size - 1 then (True, t)
     else let new_pen_x = 1; new_pen_y = max (pen_y t) (pen_bottom t + 1) in
       if new_pen_x + bm_width b < texture_size - 1 \<and> new_pen_y + bm_rows b < texture_size - 1
       then (True, t\<lparr>pen_x := new_pen_x, pen_y := new_pen_y\<rparr>) else (False, t))"

fun search_textures :: "ft_bitmap \<Rightarrow> glyph_cache2d list \<Rightarrow> nat option \<times> glyph_cache2d list" where
  "search_textures b [] = (None, [])"
| "search_textures b (t # ts) = (let (found, t) = find_room b t in
     if found then (Some 0, t # ts)
     else let (i, ts) = search_textures b ts in (map_option Suc i, t # ts))"

definition addTexture :: "gpu \<Rightarrow> glyph_cache2d list \<Rightarrow> bool \<times> glyph_cache2d list" where
  "addTexture G ts = (create_texture G (length ts) \<noteq> None, ts @ [new_cache2d (create_texture G (length ts))])"

text \<open>
  The \<open>do\<close> loop: the index of the texture found, or \<open>None\<close> inside when a new texture could not
  be created.  It need not end, so its value is an option.
\<close>

partial_function (option) find_texture ::
    "gpu \<Rightarrow> ft_bitmap \<Rightarrow> glyph_cache2d list \<Rightarrow> (nat option \<times> glyph_cache2d list) option" where
  "find_texture G b ts = (case search_textures b ts of
     (Some i, ts) \<Rightarrow> Some (Some i, ts)
   | (None, ts) \<Rightarrow> if fst (addTexture G ts) then find_texture G b (snd (addTexture G ts))
       else Some (None, snd (addTexture G ts)))"

subsection \<open>Writing a bitmap\<close>

record 'f glyph_info =
  gi_texture_index :: u32
  gi_rect :: "'f \<times> 'f \<times> 'f \<times> 'f"
  gi_size :: "'f \<times> 'f"
  gi_position :: "'f \<times> 'f"
  gi_advance :: "'f \<times> 'f"
  gi_codepoint :: u32

definition texture_rect :: "'f glyph_floats \<Rightarrow> u32 \<Rightarrow> u32 \<Rightarrow> u32 \<Rightarrow> u32 \<Rightarrow> 'f \<times> 'f \<times> 'f \<times> 'f" where
  "texture_rect F x y w h =
    (f_div F (f_of F (uint x)) (f_of F (uint texture_size)), f_div F (f_of F (uint y)) (f_of F (uint texture_size)),
     f_div F (f_of F (uint (x + w))) (f_of F (uint texture_size)), f_div F (f_of F (uint (y + h))) (f_of F (uint texture_size)))"

text \<open>The loop variable of \<open>for (int x = 0; x < n; x += 1)\<close>, converted for the additions with the pen.\<close>

definition int_range :: "u32 \<Rightarrow> u32 list" where
  "int_range n = map of_int [0..sint n - 1]"

definition edge_color :: u32 where "edge_color = 0x00FFFFFF"

text \<open>The pixels written, in the order of the three loops.\<close>

definition bitmap_writes :: "ft_bitmap \<Rightarrow> u32 \<Rightarrow> u32 \<Rightarrow> (u32 \<times> u32 \<times> u32) list" where
  "bitmap_writes b px py =
    map (\<lambda>x. (px - 1 + x, py - 1, edge_color)) (int_range (bm_width b + 2))
    @ concat (map (\<lambda>y. (px - 1, py + y, edge_color)
        # map (\<lambda>x. (px + x, py + y, accessor_pixel b x y)) (int_range (bm_width b))
        @ [(px + bm_width b, py + y, edge_color)]) (int_range (bm_rows b)))
    @ map (\<lambda>x. (px - 1 + x, py + bm_rows b, edge_color)) (int_range (bm_width b + 2))"

definition extend_dirty :: "ft_bitmap \<Rightarrow> glyph_cache2d \<Rightarrow> glyph_cache2d" where
  "extend_dirty b t = (if dirty_l t = invalid_rect_value
     then t\<lparr>dirty_l := pen_x t - 1, dirty_t := pen_y t - 1, dirty_r := pen_x t + bm_width b + 1,
       dirty_b := pen_y t + bm_rows b + 1\<rparr>
     else t\<lparr>dirty_l := min (dirty_l t) (pen_x t - 1), dirty_t := min (dirty_t t) (pen_y t - 1),
       dirty_r := max (dirty_r t) (pen_x t + bm_width b + 1), dirty_b := max (dirty_b t) (pen_y t + bm_rows b + 1)\<rparr>)"

definition write_bitmap :: "ft_bitmap \<Rightarrow> glyph_cache2d \<Rightarrow> glyph_cache2d option" where
  "write_bitmap b t = (case set_pixels (bitmap_writes b (pen_x t) (pen_y t)) (gc_image t) of None \<Rightarrow> None
     | Some img \<Rightarrow> let t = extend_dirty b (t\<lparr>gc_image := img\<rparr>) in
         Some (t\<lparr>pen_x := pen_x t + (bm_width b + 1), pen_bottom := max (pen_bottom t) (pen_y t + bm_rows b)\<rparr>))"

text \<open>
  \<open>writeBitmapToCache\<close>: \<open>None\<close> when it does not return or writes outside an image; otherwise
  whether it succeeded, the glyph's texture and rectangle, and the textures.
\<close>

definition writeBitmapToCache :: "gpu \<Rightarrow> 'f glyph_floats \<Rightarrow> ft_bitmap \<Rightarrow> glyph_cache2d list
    \<Rightarrow> ((u32 \<times> ('f \<times> 'f \<times> 'f \<times> 'f)) option \<times> glyph_cache2d list) option" where
  "writeBitmapToCache G F b ts =
    (if texture_size - 2 < bm_width b \<or> texture_size - 2 < bm_rows b then Some (None, ts)
     else (case find_texture G b ts of
         None \<Rightarrow> None
       | Some (None, ts) \<Rightarrow> Some (None, ts)
       | Some (Some i, ts) \<Rightarrow> (let t = ts ! i in
           case write_bitmap b t of None \<Rightarrow> None
           | Some t' \<Rightarrow> Some (Some (of_nat i, texture_rect F (pen_x t) (pen_y t) (bm_width b) (bm_rows b)), ts[i := t']))))"

subsection \<open>The manager\<close>

record font_data =
  ft_face :: "nat option"
  is_fallback :: bool

text \<open>\<open>m_line_height\<close> and the fonts are what \<open>openFonts\<close> set up.\<close>

record 'f glyph_manager =
  m_line_height :: 'f
  m_font :: "font_data list"
  m_tex :: "glyph_cache2d list"
  m_map :: "u32 \<rightharpoonup> 'f glyph_info"

fun findGlyph :: "freetype \<Rightarrow> font_data list \<Rightarrow> u32 \<Rightarrow> (nat \<times> u32) option" where
  "findGlyph T [] code = None"
| "findGlyph T (f # fs) code = (case ft_face f of
     Some face \<Rightarrow> if char_index T face code \<noteq> 0 \<or> is_fallback f then Some (face, char_index T face code)
       else findGlyph T fs code
   | None \<Rightarrow> findGlyph T fs code)"

definition glyph_metrics :: "'f glyph_floats \<Rightarrow> ft_glyph \<Rightarrow> u32 \<Rightarrow> u32 \<Rightarrow> 'f \<times> 'f \<times> 'f \<times> 'f \<Rightarrow> 'f glyph_info" where
  "glyph_metrics F g code i rect = \<lparr>gi_texture_index = i, gi_rect = rect,
     gi_size = (f_of F (uint (bm_width (g_bitmap g))), f_of F (uint (bm_rows (g_bitmap g)))),
     gi_position = (f_of F (g_left g), f_of F (g_top g)),
     gi_advance = (f_div F (f_of F (g_advance_x g)) (f_of F 64), f_div F (f_of F (g_advance_y g)) (f_of F 64)),
     gi_codepoint = code\<rparr>"

text \<open>\<open>renderCache\<close> has no \<open>return true\<close>: it reports failure whatever it did.\<close>

definition renderCache :: "freetype \<Rightarrow> gpu \<Rightarrow> 'f glyph_floats \<Rightarrow> u32 \<Rightarrow> 'f glyph_manager
    \<Rightarrow> (bool \<times> 'f glyph_manager) option" where
  "renderCache T G F code m = (case findGlyph T (m_font m) code of None \<Rightarrow> Some (False, m)
     | Some (face, index) \<Rightarrow> (let g = load_glyph T face index in
         case writeBitmapToCache G F (g_bitmap g) (m_tex m) of None \<Rightarrow> None
         | Some (None, ts) \<Rightarrow> Some (False, m\<lparr>m_tex := ts\<rparr>)
         | Some (Some (i, rect), ts) \<Rightarrow> Some (False, m\<lparr>m_tex := ts,
             m_map := (m_map m)(code \<mapsto> glyph_metrics F g code i rect)\<rparr>)))"

definition zero_info :: "'f glyph_floats \<Rightarrow> 'f glyph_info" where
  "zero_info F = (let z = f_of F 0 in \<lparr>gi_texture_index = 0, gi_rect = (z, z, z, z), gi_size = (z, z),
     gi_position = (z, z), gi_advance = (z, z), gi_codepoint = 0\<rparr>)"

definition getGlyphCacheInfo :: "freetype \<Rightarrow> gpu \<Rightarrow> 'f glyph_floats \<Rightarrow> u32 \<Rightarrow> 'f glyph_manager
    \<Rightarrow> ('f glyph_info option \<times> 'f glyph_manager) option" where
  "getGlyphCacheInfo T G F code m = (case m_map m code of Some info \<Rightarrow> Some (Some info, m)
     | None \<Rightarrow> (case renderCache T G F code m of None \<Rightarrow> None
         | Some (True, m) \<Rightarrow> Some (Some (case m_map m code of Some info \<Rightarrow> info | None \<Rightarrow> zero_info F), m)
         | Some (False, m) \<Rightarrow> Some (None, m)))"

definition cacheGlyph :: "freetype \<Rightarrow> gpu \<Rightarrow> 'f glyph_floats \<Rightarrow> u32 \<Rightarrow> 'f glyph_manager
    \<Rightarrow> (bool \<times> 'f glyph_manager) option" where
  "cacheGlyph T G F code m = map_option (\<lambda>(info, m). (info \<noteq> None, m)) (getGlyphCacheInfo T G F code m)"

text \<open>The body of \<open>cacheString\<close> over the codes the reader delivers.\<close>

fun cache_codes :: "freetype \<Rightarrow> gpu \<Rightarrow> 'f glyph_floats \<Rightarrow> u32 list \<Rightarrow> bool \<Rightarrow> 'f glyph_manager
    \<Rightarrow> (bool \<times> 'f glyph_manager) option" where
  "cache_codes T G F [] result m = Some (result, m)"
| "cache_codes T G F (c # cs) result m = (case getGlyphCacheInfo T G F c m of None \<Rightarrow> None
     | Some (info, m) \<Rightarrow> cache_codes T G F cs (if info = None \<and> c \<noteq> 0x0A then False else result) m)"

definition cacheString :: "freetype \<Rightarrow> gpu \<Rightarrow> 'f glyph_floats \<Rightarrow> u8 list \<Rightarrow> 'f glyph_manager
    \<Rightarrow> (bool \<times> 'f glyph_manager) option" where
  "cacheString T G F str m = cache_codes T G F (read_all (utf8reader (Some str) (of_nat (length str)))) True m"

text \<open>
  An upload copies the dirty rectangle; it dereferences the texture, so that a null texture has
  no value.
\<close>

definition in_dirty :: "glyph_cache2d \<Rightarrow> nat \<Rightarrow> bool" where
  "in_dirty t i \<longleftrightarrow> unat (dirty_l t) \<le> i mod 1024 \<and> i mod 1024 < unat (dirty_r t)
     \<and> unat (dirty_t t) \<le> i div 1024 \<and> i div 1024 < unat (dirty_b t)"

definition upload :: "glyph_cache2d \<Rightarrow> image \<Rightarrow> glyph_cache2d" where
  "upload t tex = t\<lparr>gc_texture := Some (\<lambda>i. if in_dirty t i then gc_image t i else tex i),
     dirty_l := invalid_rect_value, dirty_t := invalid_rect_value, dirty_r := invalid_rect_value,
     dirty_b := invalid_rect_value\<rparr>"

fun flush_textures :: "gpu \<Rightarrow> glyph_cache2d list \<Rightarrow> (bool \<times> glyph_cache2d list) option" where
  "flush_textures G [] = Some (True, [])"
| "flush_textures G (t # ts) =
     (if dirty_l t \<noteq> invalid_rect_value then
        (case gc_texture t of None \<Rightarrow> None
         | Some tex \<Rightarrow> if accepts_upload G
             then map_option (\<lambda>(r, ts). (r, upload t tex # ts)) (flush_textures G ts)
             else Some (False, t # ts))
      else map_option (\<lambda>(r, ts). (r, t # ts)) (flush_textures G ts))"

definition flush :: "gpu \<Rightarrow> 'f glyph_manager \<Rightarrow> (bool \<times> 'f glyph_manager) option" where
  "flush G m = map_option (\<lambda>(r, ts). (r, m\<lparr>m_tex := ts\<rparr>)) (flush_textures G (m_tex m))"

text \<open>\<open>getGlyph\<close>: whether it succeeded, what it stores through the pointer, and the state.\<close>

definition getGlyph :: "freetype \<Rightarrow> gpu \<Rightarrow> 'f glyph_floats \<Rightarrow> u32 \<Rightarrow> bool \<Rightarrow> 'f glyph_manager
    \<Rightarrow> (bool \<times> 'f glyph_info option \<times> 'f glyph_manager) option" where
  "getGlyph T G F code no_render m = (case getGlyphCacheInfo T G F code m of None \<Rightarrow> None
     | Some (None, m) \<Rightarrow> Some (False, None, m)
     | Some (Some info, m) \<Rightarrow> if no_render then Some (True, Some info, m)
         else map_option (\<lambda>(r, m). (r, Some info, m)) (flush G m))"

text \<open>A lost device: every texture is dirty, and the device's textures are new.\<close>

definition onDeviceDestroy :: "'f glyph_manager \<Rightarrow> 'f glyph_manager" where
  "onDeviceDestroy m = m\<lparr>m_tex := map (\<lambda>t. t\<lparr>dirty_l := 0, dirty_t := 0, dirty_r := texture_size,
     dirty_b := pen_bottom t + 1\<rparr>) (m_tex m)\<rparr>"

definition new_manager :: "freetype \<Rightarrow> gpu \<Rightarrow> 'f glyph_floats \<Rightarrow> 'f \<Rightarrow> font_data list \<Rightarrow> 'f glyph_manager option option" where
  "new_manager T G F line_height fonts = (case addTexture G [] of (False, ts) \<Rightarrow> Some None
     | (True, ts) \<Rightarrow> map_option (\<lambda>(r, m). Some m)
         (cacheGlyph T G F 0x20 \<lparr>m_line_height = line_height, m_font = fonts, m_tex = ts, m_map = Map.empty\<rparr>))"

end
