(* ===== verification/GlyphAtlas.thy ===== *)
theory GlyphAtlas
  imports GlyphCache
begin

text \<open>
  The geometry of the glyph textures: what writing a bitmap changes, that bitmaps are placed apart
  from each other, and that the dirty rectangle covers what the device has not got yet.
\<close>

abbreviation bw :: "ft_bitmap \<Rightarrow> nat" where "bw b \<equiv> unat (bm_width b)"
abbreviation bh :: "ft_bitmap \<Rightarrow> nat" where "bh b \<equiv> unat (bm_rows b)"

text \<open>The pixel at column \<open>i\<close> and row \<open>j\<close> of a bitmap with its edge of one pixel.\<close>

definition frame_pixel :: "ft_bitmap \<Rightarrow> nat \<Rightarrow> nat \<Rightarrow> u32" where
  "frame_pixel b i j = (if 1 \<le> i \<and> i \<le> bw b \<and> 1 \<le> j \<and> j \<le> bh b
     then accessor_pixel b (of_nat (i - 1)) (of_nat (j - 1)) else edge_color)"

text \<open>The bitmap with its edge stands in the image, its upper left corner at \<open>(x, y)\<close>.\<close>

definition shows_at :: "image \<Rightarrow> nat \<Rightarrow> nat \<Rightarrow> ft_bitmap \<Rightarrow> bool" where
  "shows_at img x y b \<longleftrightarrow> (\<forall>i \<le> bw b + 1. \<forall>j \<le> bh b + 1.
     img ((y - 1 + j) * 1024 + (x - 1 + i)) = frame_pixel b i j)"

subsection \<open>Words as numbers\<close>

lemma unat_small [simp]: "n < 2 ^ 32 \<Longrightarrow> unat (of_nat n :: u32) = n"
  by (simp add: unat_of_nat take_bit_nat_eq_self)

lemma unat_plus: "unat x + unat y < 2 ^ 32 \<Longrightarrow> unat (x + y :: u32) = unat x + unat y"
  by (simp add: unat_word_ariths)

lemma unat_minus_one: "1 \<le> unat x \<Longrightarrow> unat (x - 1 :: u32) = unat x - 1"
  by (simp add: unat_sub word_le_nat_alt)

lemma pixel_index_small:
  assumes "unat x < 1024" "unat y < 1024" shows "pixel_index x y = unat y * 1024 + unat x"
proof -
  have "unat (y * 1024) = unat y * 1024" using assms(2) by (simp add: unat_word_ariths)
  then show ?thesis using assms by (simp add: pixel_index_def texture_size_def unat_plus)
qed

lemma int_upto_nat: "[0..int n - 1] = map int [0..<n]"
proof (induction n)
  case (Suc n)
  have "[0..int n] = [0..int n - 1] @ [int n]" by (simp add: upto_rec2)
  then show ?case using Suc by simp
qed simp

lemma int_range_nat:
  assumes "unat n < 2 ^ 31" shows "int_range n = map of_nat [0..<unat n]"
proof -
  have u: "uint n = int (unat n)" by simp
  have "int (unat n) < int (2 ^ 31)" using assms by (simp only: of_nat_less_iff)
  then have "uint n < 2 ^ 31" unfolding u[symmetric] by simp
  moreover have "- (2 ^ 31) \<le> uint n" by (rule order_trans[OF _ uint_ge_0]) simp
  ultimately have "signed_take_bit 31 (uint n) = uint n" by (intro signed_take_bit_int_eq_self)
  then have "sint n = int (unat n)" by (simp add: sint_uint)
  then show ?thesis by (simp only: int_range_def int_upto_nat) (simp add: comp_def)
qed

subsection \<open>Writing pixels\<close>

lemma set_pixels_untouched:
  "set_pixels ws img = Some img' \<Longrightarrow> \<forall>(x, y, c) \<in> set ws. pixel_index x y \<noteq> k \<Longrightarrow> img' k = img k"
  by (induction ws arbitrary: img) (auto simp: bind_Some_iff set_pixel_def split: if_splits)

lemma set_pixels_touched:
  assumes "set_pixels ws img = Some img'" "\<forall>(x, y, c) \<in> set ws. pixel_index x y = k \<longrightarrow> c = v"
    and "\<exists>(x, y, c) \<in> set ws. pixel_index x y = k"
  shows "img' k = v"
  using assms
proof (induction ws arbitrary: img)
  case (Cons w ws)
  obtain x y c where w: "w = (x, y, c)" by (cases w)
  from Cons.prems(1) obtain img1 where i: "set_pixel w img = Some img1" "set_pixels ws img1 = Some img'"
    by (auto simp: bind_Some_iff)
  show ?case
  proof (cases "\<exists>(x, y, c) \<in> set ws. pixel_index x y = k")
    case True
    then show ?thesis using Cons.IH[OF i(2)] Cons.prems(2) by auto
  next
    case False
    then have "img' k = img1 k" using set_pixels_untouched[OF i(2)] by blast
    moreover have "pixel_index x y = k" "c = v" using False Cons.prems(2,3) w by auto
    ultimately show ?thesis using i(1) w by (auto simp: set_pixel_def split: if_splits)
  qed
qed simp

lemma set_pixels_defined:
  "\<forall>(x, y, c) \<in> set ws. pixel_index x y < 1024 * 1024 \<Longrightarrow> \<exists>img'. set_pixels ws img = Some img'"
  by (induction ws arbitrary: img) (auto simp: set_pixel_def)

text \<open>The writes of a bitmap are the pixels of its frame.\<close>

lemma word_of_offset:
  assumes "1 \<le> unat px" shows "px - 1 + of_nat i = of_nat (unat px - 1 + i)" "px + of_nat k = of_nat (unat px - 1 + (k + 1))"
  using assms by (simp_all add: of_nat_diff)

text \<open>The writes of a bitmap are the pixels of its frame, each with its place.\<close>

definition frame_write :: "ft_bitmap \<Rightarrow> u32 \<Rightarrow> u32 \<Rightarrow> nat \<Rightarrow> nat \<Rightarrow> u32 \<times> u32 \<times> u32" where
  "frame_write b px py i j = (of_nat (unat px - 1 + i), of_nat (unat py - 1 + j), frame_pixel b i j)"

lemma bitmap_writes_frame:
  assumes "1 \<le> unat px" "1 \<le> unat py" "unat px + bw b < 1023" "unat py + bh b < 1023"
  shows "bitmap_writes b px py =
      map (\<lambda>i. frame_write b px py i 0) [0..<bw b + 2]
      @ concat (map (\<lambda>k. frame_write b px py 0 (k + 1)
        # map (\<lambda>l. frame_write b px py (l + 1) (k + 1)) [0..<bw b] @ [frame_write b px py (bw b + 1) (k + 1)]) [0..<bh b])
      @ map (\<lambda>i. frame_write b px py i (bh b + 1)) [0..<bw b + 2]"
proof -
  have r: "int_range (bm_width b + 2) = map of_nat [0..<bw b + 2]" "int_range (bm_width b) = map of_nat [0..<bw b]"
      "int_range (bm_rows b) = map of_nat [0..<bh b]"
    using assms by (simp_all add: int_range_nat unat_plus)
  have x: "(px - 1 + of_nat i, py - 1, edge_color) = frame_write b px py i 0" for i
    using word_of_offset[OF assms(1)] word_of_offset[OF assms(2), of 0] by (simp add: frame_write_def frame_pixel_def)
  have bottom: "(px - 1 + of_nat i, py + bm_rows b, edge_color) = frame_write b px py i (bh b + 1)" for i
    using word_of_offset[OF assms(1), of i] word_of_offset(2)[OF assms(2), of "bh b"] by (simp add: frame_write_def frame_pixel_def)
  have left: "(px - 1, py + of_nat k, edge_color) = frame_write b px py 0 (k + 1)" for k
    using word_of_offset(1)[OF assms(1), of 0] word_of_offset(2)[OF assms(2), of k] by (simp add: frame_write_def frame_pixel_def)
  have right: "(px + bm_width b, py + of_nat k, edge_color) = frame_write b px py (bw b + 1) (k + 1)" for k
    using word_of_offset(2)[OF assms(1), of "bw b"] word_of_offset(2)[OF assms(2), of k] by (simp add: frame_write_def frame_pixel_def)
  have inner: "(px + of_nat l, py + of_nat k, accessor_pixel b (of_nat l) (of_nat k)) = frame_write b px py (l + 1) (k + 1)"
    if "l < bw b" "k < bh b" for l k
    using that word_of_offset(2)[OF assms(1), of l] word_of_offset(2)[OF assms(2), of k] by (simp add: frame_write_def frame_pixel_def)
  have row: "map (\<lambda>l. (px + of_nat l, py + of_nat k, accessor_pixel b (of_nat l) (of_nat k))) [0..<bw b]
      = map (\<lambda>l. frame_write b px py (l + 1) (k + 1)) [0..<bw b]" if "k < bh b" for k
    using inner that by (intro map_cong) auto
  show ?thesis
    unfolding bitmap_writes_def r map_map comp_def x bottom left right
    by (intro arg_cong2[where f = append] arg_cong[where f = concat] refl map_cong) (simp add: row)
qed

lemma bitmap_writes_set:
  assumes "1 \<le> unat px" "1 \<le> unat py" "unat px + bw b < 1023" "unat py + bh b < 1023"
  shows "set (bitmap_writes b px py) = {frame_write b px py i j | i j. i \<le> bw b + 1 \<and> j \<le> bh b + 1}" (is "?L = ?R")
proof -
  let ?f = "frame_write b px py"
  let ?S = "(\<lambda>i. ?f i 0) ` {0..<bw b + 2}
      \<union> ((\<Union>k\<in>{0..<bh b}. insert (?f 0 (k + 1)) ((\<lambda>l. ?f (l + 1) (k + 1)) ` {0..<bw b} \<union> {?f (bw b + 1) (k + 1)}))
      \<union> (\<lambda>i. ?f i (bh b + 1)) ` {0..<bw b + 2})"
  have L: "?L = ?S"
    unfolding bitmap_writes_frame[OF assms]
    by (simp only: set_append set_concat set_map set_upt list.set image_image)
  have "w \<in> ?S" if "w \<in> ?R" for w
  proof -
    obtain i j where ij: "w = ?f i j" "i \<le> bw b + 1" "j \<le> bh b + 1" using \<open>w \<in> ?R\<close> by blast
    have nz: "\<exists>k. n = k + 1 \<and> k < m" if "n \<noteq> 0" "n \<noteq> m + 1" "n \<le> m + 1" for n m :: nat
      using that by (intro exI[of _ "n - 1"]) auto
    consider "j = 0" | "j = bh b + 1" | k where "j = k + 1" "k < bh b" "i = 0" | k where "j = k + 1" "k < bh b" "i = bw b + 1"
      | k l where "j = k + 1" "k < bh b" "i = l + 1" "l < bw b"
      using nz[of j "bh b"] nz[of i "bw b"] ij(2,3) by blast
    then show ?thesis
    proof cases
      case 1 then show ?thesis using ij by (intro UnI1) auto
    next
      case 2 then show ?thesis using ij by (intro UnI2[OF UnI2]) auto
    next
      case 3 then show ?thesis using ij(1) by auto
    next
      case 4 then show ?thesis using ij(1) by auto
    next
      case (5 k l)
      have "w \<in> (\<lambda>l. ?f (l + 1) (k + 1)) ` {0..<bw b}" using ij(1) 5 by auto
      then show ?thesis using 5(2) by (intro UnI2[OF UnI1] UN_I[of k]) auto
    qed
  qed
  moreover have "w \<in> ?R" if "w \<in> ?S" for w
  proof -
    have R: "w \<in> ?R" if "w = ?f i j" "i \<le> bw b + 1" "j \<le> bh b + 1" for i j using that by blast
    from that show ?thesis
    proof (elim UnE UN_E insertE imageE emptyE)
      show "w \<in> ?R" if "w = ?f i 0" "i \<in> {0..<bw b + 2}" for i using R[OF that(1)] that(2) by simp
      show "w \<in> ?R" if "k \<in> {0..<bh b}" "w = ?f 0 (k + 1)" for k using R[OF that(2)] that(1) by simp
      show "w \<in> ?R" if "k \<in> {0..<bh b}" "w = ?f (l + 1) (k + 1)" "l \<in> {0..<bw b}" for k l
        using R[OF that(2)] that(1,3) by simp
      show "w \<in> ?R" if "k \<in> {0..<bh b}" "w = ?f (bw b + 1) (k + 1)" for k using R[OF that(2)] that(1) by simp
      show "w \<in> ?R" if "w = ?f i (bh b + 1)" "i \<in> {0..<bw b + 2}" for i using R[OF that(1)] that(2) by simp
    qed
  qed
  ultimately show ?thesis unfolding L by blast
qed

text \<open>The array index of a pixel of the frame of a bitmap placed at \<open>(x, y)\<close>.\<close>

definition frame_index :: "nat \<Rightarrow> nat \<Rightarrow> nat \<Rightarrow> nat \<Rightarrow> nat" where
  "frame_index x y i j = (y - 1 + j) * 1024 + (x - 1 + i)"

lemma shows_at_frame: "shows_at img x y b \<longleftrightarrow>
    (\<forall>i \<le> bw b + 1. \<forall>j \<le> bh b + 1. img (frame_index x y i j) = frame_pixel b i j)"
  by (simp add: shows_at_def frame_index_def)

lemma split_index: "X < 1024 \<Longrightarrow> (Y * 1024 + X) mod 1024 = X \<and> (Y * 1024 + X) div 1024 = (Y :: nat)"
  by simp

lemma frame_index_coords:
  assumes "1 \<le> x" "x + bw b < 1023" "i \<le> bw b + 1"
  shows "frame_index x y i j mod 1024 = x - 1 + i" "frame_index x y i j div 1024 = y - 1 + j"
  using split_index[of "x - 1 + i" "y - 1 + j"] assms by (simp_all add: frame_index_def)

lemma frame_index_eq:
  assumes "1 \<le> x" "x + bw b < 1023" "i \<le> bw b + 1" "1 \<le> x'" "x' + bw b' < 1023" "i' \<le> bw b' + 1"
    and "frame_index x y i j = frame_index x' y' i' j'"
  shows "x - 1 + i = x' - 1 + i'" "y - 1 + j = y' - 1 + j'"
  using frame_index_coords[OF assms(1-3), of y j] frame_index_coords[OF assms(4-6), of y' j'] assms(7) by simp_all

lemma frame_write_index:
  assumes "1 \<le> unat px" "1 \<le> unat py" "unat px + bw b < 1023" "unat py + bh b < 1023" "i \<le> bw b + 1" "j \<le> bh b + 1"
  shows "pixel_index (of_nat (unat px - 1 + i)) (of_nat (unat py - 1 + j)) = frame_index (unat px) (unat py) i j"
proof -
  have "unat (of_nat (unat px - 1 + i) :: u32) = unat px - 1 + i" "unat (of_nat (unat py - 1 + j) :: u32) = unat py - 1 + j"
    by (rule unat_small, use assms in simp)+
  note u = this
  have "unat px - 1 + i < 1024" "unat py - 1 + j < 1024" using assms by simp_all
  then show ?thesis using pixel_index_small[unfolded atomize_imp, of "of_nat (unat px - 1 + i)" "of_nat (unat py - 1 + j)"]
    by (simp only: u frame_index_def simp_thms)
qed

lemma write_image:
  assumes "1 \<le> unat px" "1 \<le> unat py" "unat px + bw b < 1023" "unat py + bh b < 1023"
  obtains img' where "set_pixels (bitmap_writes b px py) img = Some img'" "shows_at img' (unat px) (unat py) b"
    "\<And>k. \<forall>i \<le> bw b + 1. \<forall>j \<le> bh b + 1. k \<noteq> frame_index (unat px) (unat py) i j \<Longrightarrow> img' k = img k"
proof -
  let ?k = "frame_index (unat px) (unat py)"
  note ix = frame_write_index[OF assms]
  have ws: "w \<in> set (bitmap_writes b px py) \<longleftrightarrow> (\<exists>i j. i \<le> bw b + 1 \<and> j \<le> bh b + 1
      \<and> w = frame_write b px py i j)" for w
    using bitmap_writes_set[OF assms] by blast
  have small: "?k i j < 1024 * 1024" if "i \<le> bw b + 1" "j \<le> bh b + 1" for i j
    using that assms by (simp add: frame_index_def)
  have "\<forall>(x, y, c) \<in> set (bitmap_writes b px py). pixel_index x y < 1024 * 1024"
    using ix small by (auto simp: ws frame_write_def simp del: of_nat_add)
  then obtain img' where s: "set_pixels (bitmap_writes b px py) img = Some img'"
    using set_pixels_defined by blast
  have "img' (?k i j) = frame_pixel b i j" if ij: "i \<le> bw b + 1" "j \<le> bh b + 1" for i j
  proof (rule set_pixels_touched[OF s])
    have "frame_pixel b i' j' = frame_pixel b i j" if "i' \<le> bw b + 1" "j' \<le> bh b + 1" "?k i' j' = ?k i j" for i' j'
      using frame_index_eq[OF assms(1,3) that(1) assms(1,3) ij(1) that(3)] by simp
    then show "\<forall>(x, y, c) \<in> set (bitmap_writes b px py). pixel_index x y = ?k i j \<longrightarrow> c = frame_pixel b i j"
      using ix by (auto simp: ws frame_write_def simp del: of_nat_add)
    have "frame_write b px py i j \<in> set (bitmap_writes b px py)" using ws ij by blast
    then show "\<exists>(x, y, c) \<in> set (bitmap_writes b px py). pixel_index x y = ?k i j"
      using ix[OF ij] by (force simp: frame_write_def simp del: of_nat_add)
  qed
  then have "shows_at img' (unat px) (unat py) b" by (simp add: shows_at_frame)
  moreover have "img' k = img k" if "\<forall>i \<le> bw b + 1. \<forall>j \<le> bh b + 1. k \<noteq> ?k i j" for k
  proof (rule set_pixels_untouched[OF s], clarify)
    fix x y c assume "(x, y, c) \<in> set (bitmap_writes b px py)" "k = pixel_index x y"
    then obtain i j where "i \<le> bw b + 1" "j \<le> bh b + 1" "k = ?k i j"
      using ix by (auto simp: ws frame_write_def simp del: of_nat_add)
    then show False using that by blast
  qed
  ultimately show ?thesis using that s by blast
qed

subsection \<open>Where bitmaps are placed\<close>

type_synonym place = "nat \<times> nat \<times> ft_bitmap"

text \<open>
  A placed bitmap lies inside the image, with room for its edge, and either above the line of the
  pen or on it and left of the pen.
\<close>

definition placed :: "glyph_cache2d \<Rightarrow> place \<Rightarrow> bool" where
  "placed t p = (case p of (x, y, b) \<Rightarrow> 1 \<le> x \<and> 1 \<le> y \<and> x + bw b < 1023 \<and> y + bh b < 1023
     \<and> y + bh b \<le> unat (pen_bottom t)
     \<and> (y + bh b < unat (pen_y t) \<or> y = unat (pen_y t) \<and> x + bw b < unat (pen_x t)))"

text \<open>Two placed bitmaps are at least a pixel apart.\<close>

definition apart :: "place \<Rightarrow> place \<Rightarrow> bool" where
  "apart p q = (case (p, q) of ((x, y, b), (x', y', b')) \<Rightarrow>
     x + bw b < x' \<or> x' + bw b' < x \<or> y + bh b < y' \<or> y' + bh b' < y)"

text \<open>Every pixel of the frame is in the dirty rectangle, or the device shows it as it is in memory.\<close>

definition up_to_date :: "glyph_cache2d \<Rightarrow> place \<Rightarrow> bool" where
  "up_to_date t p = (case p of (x, y, b) \<Rightarrow> \<forall>i \<le> bw b + 1. \<forall>j \<le> bh b + 1. in_dirty t (frame_index x y i j)
     \<or> (\<exists>tex. gc_texture t = Some tex \<and> tex (frame_index x y i j) = gc_image t (frame_index x y i j)))"

definition visible :: "glyph_cache2d \<Rightarrow> place \<Rightarrow> bool" where
  "visible t p = (case p of (x, y, b) \<Rightarrow> shows_at (gc_image t) x y b)"

definition texture_ok :: "glyph_cache2d \<Rightarrow> place list \<Rightarrow> bool" where
  "texture_ok t ps \<longleftrightarrow> unat (pen_x t) \<le> 1023 \<and> unat (pen_y t) \<le> 1023 \<and> unat (pen_bottom t) \<le> 1022
     \<and> (pen_x t = 0 \<or> pen_y t = 0 \<longrightarrow> ps = []) \<and> sorted_wrt apart ps
     \<and> (\<forall>p \<in> set ps. placed t p \<and> visible t p \<and> up_to_date t p)"

lemma texture_ok_new: "texture_ok (new_cache2d tex) []"
  by (simp add: texture_ok_def new_cache2d_def)

definition room_for :: "ft_bitmap \<Rightarrow> glyph_cache2d \<Rightarrow> bool" where
  "room_for b t \<longleftrightarrow> 1 \<le> unat (pen_x t) \<and> 1 \<le> unat (pen_y t) \<and> unat (pen_x t) + bw b < 1023 \<and> unat (pen_y t) + bh b < 1023"

lemma fits_nat:
  assumes "unat p \<le> 1023" "unat n \<le> 1022" shows "p + n < texture_size - 1 \<longleftrightarrow> unat p + unat n < 1023"
  using assms by (simp add: word_less_nat_alt texture_size_def unat_plus)

text \<open>Only the pen matters for where bitmaps may go.\<close>

lemma texture_ok_pen:
  assumes "texture_ok t ps" "unat px \<le> 1023" "unat py \<le> 1023" "px = 0 \<or> py = 0 \<longrightarrow> ps = []"
    and "\<And>x y b. (x, y, b) \<in> set ps \<Longrightarrow> y + bh b \<le> unat (pen_bottom t) \<Longrightarrow>
      y + bh b < unat (pen_y t) \<or> y = unat (pen_y t) \<and> x + bw b < unat (pen_x t) \<Longrightarrow>
      y + bh b < unat py \<or> y = unat py \<and> x + bw b < unat px"
  shows "texture_ok (t\<lparr>pen_x := px, pen_y := py\<rparr>) ps"
proof -
  have "placed (t\<lparr>pen_x := px, pen_y := py\<rparr>) p \<and> visible (t\<lparr>pen_x := px, pen_y := py\<rparr>) p
      \<and> up_to_date (t\<lparr>pen_x := px, pen_y := py\<rparr>) p" if "p \<in> set ps" for p
  proof -
    obtain x y b where p: "p = (x, y, b)" by (cases p)
    have "placed t p" "visible t p" "up_to_date t p" using assms(1) that by (auto simp: texture_ok_def)
    then show ?thesis using assms(5)[of x y b] that
      by (auto simp: p placed_def visible_def up_to_date_def in_dirty_def)
  qed
  then show ?thesis using assms(1-4) by (auto simp: texture_ok_def)
qed

lemma find_room_ok:
  assumes "texture_ok t ps" "bw b \<le> 1022" "bh b \<le> 1022" "find_room b t = (r, t')"
  shows "texture_ok t' ps" "r \<Longrightarrow> room_for b t'" "gc_texture t' = gc_texture t"
proof -
  let ?t = "if pen_x t = 0 \<or> pen_y t = 0 then t\<lparr>pen_x := 1, pen_y := 1\<rparr> else t"
  have one: "texture_ok ?t ps"
    using assms(1) texture_ok_pen[OF assms(1), of 1 1] by (auto simp: texture_ok_def)
  have pos: "1 \<le> unat (pen_x ?t)" "1 \<le> unat (pen_y ?t)" by (auto simp: Suc_le_eq unat_gt_0)
  have tex: "gc_texture ?t = gc_texture t" by simp
  obtain u where u: "u = ?t" by blast
  have u': "texture_ok u ps" "1 \<le> unat (pen_x u)" "1 \<le> unat (pen_y u)" "gc_texture u = gc_texture t"
    using one pos tex by (simp_all only: u)
  have bounds: "unat (pen_x u) \<le> 1023" "unat (pen_y u) \<le> 1023" "unat (pen_bottom u) \<le> 1022"
    using u'(1) by (auto simp: texture_ok_def)
  have bot: "unat (pen_bottom u + 1) = unat (pen_bottom u) + 1" using bounds(3) by (simp add: unat_plus)
  define ny where "ny = max (pen_y u) (pen_bottom u + 1)"
  have ny: "unat ny = max (unat (pen_y u)) (unat (pen_bottom u) + 1)"
    by (simp add: ny_def max_def word_le_nat_alt bot)
  have down: "texture_ok (u\<lparr>pen_x := 1, pen_y := ny\<rparr>) ps"
    using bounds ny u'(1,3) by (intro texture_ok_pen) (auto simp: unat_eq_0[symmetric])
  have f: "find_room b t = (if pen_x u + bm_width b < texture_size - 1 \<and> pen_y u + bm_rows b < texture_size - 1 then (True, u)
      else if 1 + bm_width b < texture_size - 1 \<and> ny + bm_rows b < texture_size - 1
      then (True, u\<lparr>pen_x := 1, pen_y := ny\<rparr>) else (False, u))"
    unfolding find_room_def Let_def u[symmetric] ny_def by (rule refl)
  have fit: "pen_x u + bm_width b < texture_size - 1 \<longleftrightarrow> unat (pen_x u) + bw b < 1023"
      "pen_y u + bm_rows b < texture_size - 1 \<longleftrightarrow> unat (pen_y u) + bh b < 1023"
      "1 + bm_width b < texture_size - 1 \<longleftrightarrow> 1 + bw b < 1023" "ny + bm_rows b < texture_size - 1 \<longleftrightarrow> unat ny + bh b < 1023"
    using fits_nat[of "pen_x u" "bm_width b"] fits_nat[of "pen_y u" "bm_rows b"] fits_nat[of 1 "bm_width b"]
      fits_nat[of ny "bm_rows b"] bounds ny assms(2,3) by simp_all
  show "texture_ok t' ps" "r \<Longrightarrow> room_for b t'" "gc_texture t' = gc_texture t"
    using assms(4) u' down ny unfolding f fit by (auto simp: room_for_def split: if_splits)
qed

subsection \<open>Writing a bitmap keeps the others\<close>

lemma frames_meet_at_edges:
  assumes "placed t (x, y, b)" "room_for b' t" "i \<le> bw b + 1" "j \<le> bh b + 1" "i' \<le> bw b' + 1" "j' \<le> bh b' + 1"
    and "frame_index x y i j = frame_index (unat (pen_x t)) (unat (pen_y t)) i' j'"
  shows "frame_pixel b i j = edge_color" "frame_pixel b' i' j' = edge_color"
proof -
  have c: "x - 1 + i = unat (pen_x t) - 1 + i'" "y - 1 + j = unat (pen_y t) - 1 + j'"
    using assms(1,2,3,5,7) frame_index_eq[of x b i "unat (pen_x t)" b' i' y j "unat (pen_y t)" j']
    by (auto simp: placed_def room_for_def)
  have p: "1 \<le> x" "1 \<le> y" "1 \<le> unat (pen_x t)" "1 \<le> unat (pen_y t)"
    "y + bh b < unat (pen_y t) \<or> y = unat (pen_y t) \<and> x + bw b < unat (pen_x t)"
    using assms(1,2) by (auto simp: placed_def room_for_def)
  from p(5) have "j = bh b + 1 \<and> j' = 0 \<or> i = bw b + 1 \<and> i' = 0"
    using c p(1-4) assms(3,4) by auto
  then show "frame_pixel b i j = edge_color" "frame_pixel b' i' j' = edge_color"
    by (auto simp: frame_pixel_def)
qed

lemma in_dirty_invalid: "dirty_l t = invalid_rect_value \<Longrightarrow> \<not> in_dirty t k"
proof -
  assume "dirty_l t = invalid_rect_value"
  then have l: "unat (dirty_l t) = 0x7FFFFFFF" by (simp add: invalid_rect_value_def)
  have "k mod 1024 < 0x7FFFFFFF" by (rule order.strict_trans[OF mod_less_divisor]) simp_all
  then show ?thesis unfolding in_dirty_def l by linarith
qed

lemma unat_min: "unat (min a b) = min (unat a) (unat b)" and unat_max: "unat (max a b) = max (unat a) (unat b)"
  for a b :: u32
  by (simp_all add: min_def max_def word_le_nat_alt)

lemma extend_dirty_ok:
  assumes "room_for b t"
  shows "in_dirty t k \<Longrightarrow> in_dirty (extend_dirty b t) k"
    and "\<lbrakk>i \<le> bw b + 1; j \<le> bh b + 1\<rbrakk> \<Longrightarrow> in_dirty (extend_dirty b t) (frame_index (unat (pen_x t)) (unat (pen_y t)) i j)"
proof -
  have r: "1 \<le> unat (pen_x t)" "1 \<le> unat (pen_y t)" "unat (pen_x t) + bw b < 1023" "unat (pen_y t) + bh b < 1023"
    using assms by (auto simp: room_for_def)
  have u: "unat (pen_x t - 1) = unat (pen_x t) - 1" "unat (pen_y t - 1) = unat (pen_y t) - 1"
      "unat (pen_x t + bm_width b + 1) = unat (pen_x t) + bw b + 1" "unat (pen_y t + bm_rows b + 1) = unat (pen_y t) + bh b + 1"
    using r by (simp_all add: unat_minus_one unat_plus)
  show "in_dirty (extend_dirty b t) k" if "in_dirty t k"
    using that in_dirty_invalid[of t k]
    by (auto simp: extend_dirty_def in_dirty_def unat_min unat_max u)
  show "in_dirty (extend_dirty b t) (frame_index (unat (pen_x t)) (unat (pen_y t)) i j)" if ij: "i \<le> bw b + 1" "j \<le> bh b + 1"
    using frame_index_coords[OF r(1,3) ij(1), of "unat (pen_y t)" j] ij r
    by (auto simp: extend_dirty_def in_dirty_def unat_min unat_max u)
qed

lemma write_bitmap_ok:
  assumes "texture_ok t ps" "room_for b t"
  obtains t' where "write_bitmap b t = Some t'" "texture_ok t' (ps @ [(unat (pen_x t), unat (pen_y t), b)])"
    "gc_texture t' = gc_texture t"
proof -
  let ?px = "unat (pen_x t)" and ?py = "unat (pen_y t)"
  have r: "1 \<le> ?px" "1 \<le> ?py" "?px + bw b < 1023" "?py + bh b < 1023"
    using assms(2) by (auto simp: room_for_def)
  obtain img where w: "set_pixels (bitmap_writes b (pen_x t) (pen_y t)) (gc_image t) = Some img" "shows_at img ?px ?py b"
    "\<And>k. \<forall>i \<le> bw b + 1. \<forall>j \<le> bh b + 1. k \<noteq> frame_index ?px ?py i j \<Longrightarrow> img k = gc_image t k"
    using write_image[OF r, of "gc_image t"] by blast
  define e where "e = extend_dirty b (t\<lparr>gc_image := img\<rparr>)"
  define t' where "t' = e\<lparr>pen_x := pen_x t + (bm_width b + 1), pen_bottom := max (pen_bottom t) (pen_y t + bm_rows b)\<rparr>"
  have e: "gc_image e = img" "gc_texture e = gc_texture t" "pen_x e = pen_x t" "pen_y e = pen_y t" "pen_bottom e = pen_bottom t"
    by (simp_all add: e_def extend_dirty_def)
  have pens: "unat (pen_x t') = ?px + bw b + 1" "unat (pen_y t') = ?py" "unat (pen_bottom t') = max (unat (pen_bottom t)) (?py + bh b)"
    using r by (simp_all add: t'_def e unat_max unat_plus)
  have "room_for b (t\<lparr>gc_image := img\<rparr>)" using assms(2) by (simp add: room_for_def)
  note d = extend_dirty_ok[OF this]
  have dirty: "in_dirty t' k \<longleftrightarrow> in_dirty e k" "in_dirty (t\<lparr>gc_image := img\<rparr>) k = in_dirty t k" for k
    by (simp_all add: t'_def in_dirty_def)
  have tex: "gc_texture t' = gc_texture t" "gc_image t' = img" by (simp_all add: t'_def e)
  have new: "in_dirty t' (frame_index ?px ?py i j)" if "i \<le> bw b + 1" "j \<le> bh b + 1" for i j
    using d(2)[OF that] by (simp add: dirty(1) e_def)
  have old: "placed t' p \<and> visible t' p \<and> up_to_date t' p \<and> apart p (?px, ?py, b)" if "p \<in> set ps" for p
  proof -
    obtain x y c where p: "p = (x, y, c)" by (cases p)
    have ok: "placed t (x, y, c)" "visible t (x, y, c)" "up_to_date t (x, y, c)"
      using assms(1) that p by (auto simp: texture_ok_def)
    have "img (frame_index x y i j) = frame_pixel c i j \<and> (in_dirty t' (frame_index x y i j)
        \<or> (\<exists>tx. gc_texture t = Some tx \<and> tx (frame_index x y i j) = img (frame_index x y i j)))"
      if ij: "i \<le> bw c + 1" "j \<le> bh c + 1" for i j
    proof (cases "\<exists>i' j'. i' \<le> bw b + 1 \<and> j' \<le> bh b + 1 \<and> frame_index x y i j = frame_index ?px ?py i' j'")
      case True
      then obtain i' j' where q: "i' \<le> bw b + 1" "j' \<le> bh b + 1" "frame_index x y i j = frame_index ?px ?py i' j'" by blast
      have "img (frame_index x y i j) = frame_pixel b i' j'" using w(2) q by (simp add: shows_at_frame)
      then show ?thesis
        using frames_meet_at_edges[OF ok(1) assms(2) ij q] new[OF q(1,2)] q(3) by simp
    next
      case False
      then have same: "img (frame_index x y i j) = gc_image t (frame_index x y i j)" using w(3) by metis
      have "in_dirty t (frame_index x y i j) \<or> (\<exists>tx. gc_texture t = Some tx \<and> tx (frame_index x y i j) = gc_image t (frame_index x y i j))"
        using ok(3) ij by (auto simp: up_to_date_def)
      then show ?thesis
        using ok(2) ij d(1) dirty by (auto simp: same visible_def shows_at_frame e_def)
    qed
    note f = this
    have "visible t' p" using f by (simp add: p visible_def shows_at_frame tex)
    moreover have "up_to_date t' p" unfolding p up_to_date_def prod.case tex using f by blast
    ultimately show ?thesis
      using ok(1) pens r by (auto simp: p placed_def apart_def)
  qed
  have "placed t' (?px, ?py, b) \<and> visible t' (?px, ?py, b) \<and> up_to_date t' (?px, ?py, b)"
    using r pens w(2) new by (auto simp: placed_def visible_def up_to_date_def tex)
  moreover have "pen_x t' \<noteq> 0" "pen_y t' \<noteq> 0" using pens(1,2) r by auto
  ultimately have "texture_ok t' (ps @ [(?px, ?py, b)])"
    using assms(1) old pens r by (auto simp: texture_ok_def sorted_wrt_append)
  moreover have "write_bitmap b t = Some t'"
    by (simp add: write_bitmap_def w(1) t'_def Let_def e e_def[symmetric])
  ultimately show ?thesis using that tex(1) by blast
qed

end
