(* ===== verification/GlyphCorrect.thy ===== *)
theory GlyphCorrect
  imports GlyphAtlas
begin

text \<open>
  What the glyph cache promises: the textures show every cached glyph, requests, and the one
  bitmap size for which placing does not end.
\<close>

subsection \<open>Finding room\<close>

abbreviation textures_ok :: "glyph_cache2d list \<Rightarrow> place list list \<Rightarrow> bool" where
  "textures_ok ts pss \<equiv> list_all2 texture_ok ts pss"

lemma search_textures_ok:
  assumes "textures_ok ts pss" "bw b \<le> 1022" "bh b \<le> 1022" "search_textures b ts = (r, ts')"
  shows "textures_ok ts' pss \<and> map gc_texture ts' = map gc_texture ts
    \<and> (\<forall>i. r = Some i \<longrightarrow> i < length ts' \<and> room_for b (ts' ! i))"
  using assms
proof (induction b ts arbitrary: pss r ts' rule: search_textures.induct)
  case (2 b t ts)
  from "2.prems"(1) obtain ps pss' where p: "pss = ps # pss'" "texture_ok t ps" "textures_ok ts pss'"
    by (auto simp: list_all2_Cons1)
  obtain found u where f: "find_room b t = (found, u)" by force
  obtain r' us where s: "search_textures b ts = (r', us)" by force
  note ok = find_room_ok[OF p(2) "2.prems"(2,3) f]
  show ?case
  proof (cases found)
    case True
    then show ?thesis using "2.prems"(4) ok p by (auto simp: f)
  next
    case False
    then show ?thesis
      using "2.IH"[OF f[symmetric] refl False p(3) "2.prems"(2,3) s] "2.prems"(4) ok p by (auto simp: f s)
  qed
qed auto

lemma new_room: "bw b \<le> 1021 \<Longrightarrow> bh b \<le> 1021 \<Longrightarrow> fst (find_room b (new_cache2d tex))"
  by (simp add: find_room_def new_cache2d_def texture_size_def word_less_nat_alt unat_plus)

lemma search_new: "bw b \<le> 1021 \<Longrightarrow> bh b \<le> 1021 \<Longrightarrow> fst (search_textures b (ts @ [new_cache2d tex])) \<noteq> None"
  by (induction ts) (use new_room[of b tex] in \<open>auto simp: split: prod.splits\<close>)

lemma no_room:
  assumes "texture_ok t ps" "bw b \<le> 1022" "bh b \<le> 1022" "bw b = 1022 \<or> bh b = 1022"
  shows "\<not> fst (find_room b t)"
proof
  assume "fst (find_room b t)"
  then have "room_for b (snd (find_room b t))" using find_room_ok(2)[OF assms(1-3)] by (metis prod.collapse)
  then show False using assms(4) by (auto simp: room_for_def)
qed

lemma search_none:
  assumes "textures_ok ts pss" "bw b \<le> 1022" "bh b \<le> 1022" "bw b = 1022 \<or> bh b = 1022"
  shows "fst (search_textures b ts) = None"
  using assms by (induction ts arbitrary: pss)
    (use no_room[OF _ assms(2-4)] in \<open>fastforce simp: list_all2_Cons1 split: prod.splits\<close>)+

lemma add_texture_ok: "textures_ok ts pss \<Longrightarrow> textures_ok (snd (addTexture G ts)) (pss @ [[]])"
  by (simp add: addTexture_def list_all2_appendI texture_ok_new)

text \<open>No texture is null.\<close>

definition live :: "glyph_cache2d list \<Rightarrow> bool" where
  "live ts \<longleftrightarrow> None \<notin> set (map gc_texture ts)"

lemma add_texture_live: "\<forall>n. create_texture G n \<noteq> None \<Longrightarrow> live ts \<Longrightarrow> live (snd (addTexture G ts))"
  by (simp add: live_def addTexture_def new_cache2d_def) (metis option.distinct(1))

text \<open>When placing ends, the texture found has room; it may have added empty textures.\<close>

lemma find_texture_partial:
  assumes "find_texture G b ts = Some (r, ts')" "textures_ok ts pss" "bw b \<le> 1022" "bh b \<le> 1022"
  shows "\<exists>k. textures_ok ts' (pss @ replicate k []) \<and> (\<forall>i. r = Some i \<longrightarrow> i < length ts' \<and> room_for b (ts' ! i))
    \<and> ((\<forall>n. create_texture G n \<noteq> None) \<and> live ts \<longrightarrow> live ts')"
proof -
  have "\<forall>pss. textures_ok ts pss \<and> bw b \<le> 1022 \<and> bh b \<le> 1022 \<longrightarrow> (\<exists>k. textures_ok (snd res) (pss @ replicate k [])
      \<and> (\<forall>i. fst res = Some i \<longrightarrow> i < length (snd res) \<and> room_for b (snd res ! i))
      \<and> ((\<forall>n. create_texture G n \<noteq> None) \<and> live ts \<longrightarrow> live (snd res)))"
    if "find_texture G b ts = Some res" for res
    using that
  proof (induction rule: find_texture.raw_induct[rotated, consumes 1, case_names step])
    case (step find_texture' G b ts res)
    show ?case
    proof (intro allI impI)
      fix pss
      assume a: "textures_ok ts pss \<and> bw b \<le> 1022 \<and> bh b \<le> 1022"
      obtain r1 ts1 where s: "search_textures b ts = (r1, ts1)" by force
      note o1 = search_textures_ok[OF _ _ _ s, of pss]
      let ?ts2 = "snd (addTexture G ts1)"
      have new: "textures_ok ?ts2 (pss @ [[]])" using add_texture_ok o1 a by blast
      have alive: "live ts1 = live ts" using o1 a by (simp only: live_def)
      have alive2: "(\<forall>n. create_texture G n \<noteq> None) \<and> live ts \<longrightarrow> live ?ts2"
        using add_texture_live[of G ts1] alive by blast
      consider (found) i where "r1 = Some i" "res = (Some i, ts1)" | (more) "r1 = None" "find_texture' G b ?ts2 = Some res"
        | (failed) "res = (None, ?ts2)"
        using step(2) by (cases r1; cases "fst (addTexture G ts1)") (simp_all add: s)
      then show "\<exists>k. textures_ok (snd res) (pss @ replicate k [])
          \<and> (\<forall>i. fst res = Some i \<longrightarrow> i < length (snd res) \<and> room_for b (snd res ! i))
          \<and> ((\<forall>n. create_texture G n \<noteq> None) \<and> live ts \<longrightarrow> live (snd res))"
      proof cases
        case found then show ?thesis using o1 a alive by (intro exI[of _ 0]) simp
      next
        case more
        then obtain k where "textures_ok (snd res) ((pss @ [[]]) @ replicate k [])"
          "\<forall>i. fst res = Some i \<longrightarrow> i < length (snd res) \<and> room_for b (snd res ! i)"
          "(\<forall>n. create_texture G n \<noteq> None) \<and> live ?ts2 \<longrightarrow> live (snd res)"
          using step(1) new a by blast
        then show ?thesis using alive2 by (intro exI[of _ "Suc k"]) auto
      next
        case failed then show ?thesis using new alive2 by (intro exI[of _ 1]) auto
      qed
    qed
  qed
  from this[OF assms(1)] show ?thesis using assms(2-4) by simp
qed

text \<open>A bitmap that leaves room for its edge finds a place after at most one new texture.\<close>

lemma find_texture_returns:
  assumes "textures_ok ts pss" "bw b \<le> 1021" "bh b \<le> 1021"
  shows "\<exists>r ts'. find_texture G b ts = Some (r, ts') \<and> ((\<forall>n. create_texture G n \<noteq> None) \<longrightarrow> r \<noteq> None)"
proof -
  obtain r1 ts1 where s1: "search_textures b ts = (r1, ts1)" by force
  let ?ts2 = "snd (addTexture G ts1)"
  have "fst (search_textures b ?ts2) \<noteq> None"
    unfolding addTexture_def snd_conv by (rule search_new[OF assms(2,3)])
  then obtain i ts3 where s3: "search_textures b ?ts2 = (Some i, ts3)" by (metis option.exhaust prod.collapse)
  then have "find_texture G b ?ts2 = Some (Some i, ts3)" by (subst find_texture.simps) simp
  then show ?thesis
    using find_texture.simps[of G b ts] s1 by (cases r1) (auto simp: addTexture_def)
qed

lemma find_texture_never:
  assumes "\<forall>n. create_texture G n \<noteq> None" "bw b \<le> 1022" "bh b \<le> 1022" "bw b = 1022 \<or> bh b = 1022"
    and "textures_ok ts pss"
  shows "find_texture G b ts = None"
proof (rule ccontr)
  assume "find_texture G b ts \<noteq> None"
  then obtain res where "find_texture G b ts = Some res" by blast
  then have "\<forall>pss. bw b \<le> 1022 \<and> bh b \<le> 1022 \<and> (bw b = 1022 \<or> bh b = 1022) \<and> (\<forall>n. create_texture G n \<noteq> None)
      \<longrightarrow> \<not> textures_ok ts pss"
  proof (induction rule: find_texture.raw_induct[rotated, consumes 1, case_names step])
    case (step find_texture' G b ts res)
    show ?case
    proof (intro allI impI notI)
      fix pss
      assume a: "bw b \<le> 1022 \<and> bh b \<le> 1022 \<and> (bw b = 1022 \<or> bh b = 1022) \<and> (\<forall>n. create_texture G n \<noteq> None)"
        "textures_ok ts pss"
      obtain r ts1 where s: "search_textures b ts = (r, ts1)" by force
      then have "r = None" using search_none[of ts pss b] a by simp
      then have "find_texture' G b (snd (addTexture G ts1)) = Some res"
        using step(2) s a(1) by (simp add: addTexture_def)
      moreover have "textures_ok (snd (addTexture G ts1)) (pss @ [[]])"
        using add_texture_ok search_textures_ok[OF a(2) _ _ s] a(1) by blast
      ultimately show False using step(1) a(1) by blast
    qed
  qed
  then show False using assms by blast
qed

subsection \<open>The states of a manager\<close>

text \<open>
  Every cached glyph has its bitmap, as FreeType renders it, at a place of one of the textures,
  and the rectangle of that place.
\<close>

definition cached_at :: "freetype \<Rightarrow> 'f glyph_floats \<Rightarrow> font_data list \<Rightarrow> place list list \<Rightarrow> u32 \<Rightarrow> 'f glyph_info \<Rightarrow> bool" where
  "cached_at T F fonts pss c info \<longleftrightarrow> (\<exists>face index g i x y. findGlyph T fonts c = Some (face, index)
     \<and> g = load_glyph T face index \<and> i < length pss \<and> (x, y, g_bitmap g) \<in> set (pss ! i)
     \<and> info = glyph_metrics F g c (of_nat i)
         (texture_rect F (of_nat x) (of_nat y) (bm_width (g_bitmap g)) (bm_rows (g_bitmap g))))"

definition manager_ok :: "freetype \<Rightarrow> gpu \<Rightarrow> 'f glyph_floats \<Rightarrow> font_data list \<Rightarrow> 'f glyph_manager \<Rightarrow> bool" where
  "manager_ok T G F fonts m \<longleftrightarrow> m_font m = fonts
    \<and> ((\<forall>n. create_texture G n \<noteq> None) \<longrightarrow> live (m_tex m)) \<and> (\<exists>pss. textures_ok (m_tex m) pss
     \<and> (\<forall>c info. m_map m c = Some info \<longrightarrow> cached_at T F fonts pss c info))"

lemma cached_at_mono:
  assumes "cached_at T F fonts pss c info" "length pss \<le> length pss'" "\<And>i. i < length pss \<Longrightarrow> set (pss ! i) \<subseteq> set (pss' ! i)"
  shows "cached_at T F fonts pss' c info"
proof -
  obtain face index i x y where p: "findGlyph T fonts c = Some (face, index)" "i < length pss"
      "(x, y, g_bitmap (load_glyph T face index)) \<in> set (pss ! i)" "info = glyph_metrics F (load_glyph T face index) c (of_nat i)
         (texture_rect F (of_nat x) (of_nat y) (bm_width (g_bitmap (load_glyph T face index))) (bm_rows (g_bitmap (load_glyph T face index))))"
    using assms(1) unfolding cached_at_def by blast
  then show ?thesis
    using assms(2,3) unfolding cached_at_def by (intro exI[of _ face] exI[of _ index] exI exI[of _ i]) auto
qed

text \<open>Placing and writing: the textures stay right, and the bitmap has its place.\<close>

lemma writeBitmapToCache_ok:
  assumes "textures_ok ts pss" "writeBitmapToCache G F b ts = Some (r, ts')"
  obtains pss' where "textures_ok ts' pss'" "length pss \<le> length pss'"
    "\<And>i. i < length pss \<Longrightarrow> set (pss ! i) \<subseteq> set (pss' ! i)"
    "\<And>ti rect. r = Some (ti, rect) \<Longrightarrow> \<exists>i x y. i < length pss' \<and> (x, y, b) \<in> set (pss' ! i) \<and> ti = of_nat i
       \<and> rect = texture_rect F (of_nat x) (of_nat y) (bm_width b) (bm_rows b)"
    "(\<forall>n. create_texture G n \<noteq> None) \<Longrightarrow> live ts \<Longrightarrow> live ts'"
proof (cases "texture_size - 2 < bm_width b \<or> texture_size - 2 < bm_rows b")
  case True
  then have "r = None" "ts' = ts" using assms(2) by (auto simp: writeBitmapToCache_def)
  then show ?thesis using that[of pss] assms(1) by simp
next
  case False
  then have le: "bw b \<le> 1022" "bh b \<le> 1022" by (auto simp: texture_size_def word_less_nat_alt)
  obtain fr ts1 where f: "find_texture G b ts = Some (fr, ts1)"
    using assms(2) False by (auto simp: writeBitmapToCache_def split: option.splits prod.splits)
  obtain k where k: "textures_ok ts1 (pss @ replicate k [])" "\<forall>i. fr = Some i \<longrightarrow> i < length ts1 \<and> room_for b (ts1 ! i)"
      "(\<forall>n. create_texture G n \<noteq> None) \<and> live ts \<longrightarrow> live ts1"
    using find_texture_partial[OF f assms(1) le] by blast
  have sub: "set (pss ! i) \<subseteq> set ((pss @ replicate k []) ! i)" if "i < length pss" for i using that by (simp add: nth_append)
  show ?thesis
  proof (cases fr)
    case None
    then have "r = None" "ts' = ts1" using assms(2) False f by (auto simp: writeBitmapToCache_def)
    then show ?thesis using that[OF _ _ sub] k by simp
  next
    case (Some i)
    let ?t = "ts1 ! i" and ?pss = "pss @ replicate k []"
    have i: "i < length ts1" "room_for b ?t" "i < length ?pss" "texture_ok ?t (?pss ! i)"
      using k Some by (auto simp: list_all2_conv_all_nth)
    obtain t' where w: "write_bitmap b ?t = Some t'"
        "texture_ok t' (?pss ! i @ [(unat (pen_x ?t), unat (pen_y ?t), b)])" "gc_texture t' = gc_texture ?t"
      using write_bitmap_ok[OF i(4,2)] by blast
    let ?pss' = "?pss[i := ?pss ! i @ [(unat (pen_x ?t), unat (pen_y ?t), b)]]"
    have res: "r = Some (of_nat i, texture_rect F (pen_x ?t) (pen_y ?t) (bm_width b) (bm_rows b))" "ts' = ts1[i := t']"
      using assms(2) False f Some w(1) by (auto simp: writeBitmapToCache_def Let_def)
    have "textures_ok ts' ?pss'" using k(1) w(2) res(2) by (simp add: list_all2_update_cong)
    moreover have "set (pss ! l) \<subseteq> set (?pss' ! l)" if "l < length pss" for l
      using sub[OF that] that by (cases "l = i") (auto simp: nth_append nth_list_update)
    moreover have "(unat (pen_x ?t), unat (pen_y ?t), b) \<in> set (?pss' ! i)" "i < length ?pss'" using i(3) by simp_all
    moreover have "rect = texture_rect F (of_nat (unat (pen_x ?t))) (of_nat (unat (pen_y ?t))) (bm_width b) (bm_rows b) \<and> ti = of_nat i"
      if "r = Some (ti, rect)" for ti rect using that res(1) by simp
    moreover have "length pss \<le> length ?pss'" by simp
    moreover have "map gc_texture ts' = map gc_texture ts1"
      using res(2) w(3) i(1) by (simp add: map_update list_update_same_conv)
    then have "live ts' = live ts1" by (simp only: live_def)
    ultimately show ?thesis using that[of ?pss'] k(3) by blast
  qed
qed

subsection \<open>Operations keep the manager right\<close>

lemma renderCache_ok:
  assumes "manager_ok T G F fonts m" "renderCache T G F c m = Some (r, m')"
  shows "manager_ok T G F fonts m'" "\<not> r" "\<And>c' info. m_map m c' = Some info \<Longrightarrow> c' \<noteq> c \<Longrightarrow> m_map m' c' = Some info"
proof -
  obtain pss where p: "m_font m = fonts" "textures_ok (m_tex m) pss"
      "\<And>c info. m_map m c = Some info \<Longrightarrow> cached_at T F fonts pss c info"
      "(\<forall>n. create_texture G n \<noteq> None) \<longrightarrow> live (m_tex m)"
    using assms(1) unfolding manager_ok_def by blast
  have "manager_ok T G F fonts m' \<and> \<not> r \<and> (\<forall>c' info. m_map m c' = Some info \<longrightarrow> c' \<noteq> c \<longrightarrow> m_map m' c' = Some info)"
  proof (cases "findGlyph T (m_font m) c")
    case None
    then show ?thesis using assms by (simp add: renderCache_def)
  next
    case (Some fi)
    obtain face index where fi: "fi = (face, index)" by (cases fi)
    let ?g = "load_glyph T face index"
    obtain w ts where w: "writeBitmapToCache G F (g_bitmap ?g) (m_tex m) = Some (w, ts)"
      using assms(2) Some fi by (auto simp: renderCache_def Let_def split: option.splits prod.splits)
    obtain pss' where q: "textures_ok ts pss'" "length pss \<le> length pss'" "\<And>i. i < length pss \<Longrightarrow> set (pss ! i) \<subseteq> set (pss' ! i)"
        "\<And>ti rect. w = Some (ti, rect) \<Longrightarrow> \<exists>i x y. i < length pss' \<and> (x, y, g_bitmap ?g) \<in> set (pss' ! i) \<and> ti = of_nat i
           \<and> rect = texture_rect F (of_nat x) (of_nat y) (bm_width (g_bitmap ?g)) (bm_rows (g_bitmap ?g))"
        "(\<forall>n. create_texture G n \<noteq> None) \<longrightarrow> live (m_tex m) \<longrightarrow> live ts"
      using writeBitmapToCache_ok[OF p(2) w] by metis
    have alive: "(\<forall>n. create_texture G n \<noteq> None) \<longrightarrow> live ts" using p(4) q(5) by blast
    have old: "cached_at T F fonts pss' c' info" if "m_map m c' = Some info" for c' info
      using cached_at_mono[OF p(3)[OF that] q(2,3)] .
    show ?thesis
    proof (cases w)
      case None
      then have "m' = m\<lparr>m_tex := ts\<rparr>" "\<not> r" using assms(2) Some fi w by (auto simp: renderCache_def Let_def)
      then show ?thesis using p(1) q(1) old alive unfolding manager_ok_def by auto
    next
      case (Some tr)
      obtain ti rect where tr: "tr = (ti, rect)" by (cases tr)
      have m': "m' = m\<lparr>m_tex := ts, m_map := (m_map m)(c \<mapsto> glyph_metrics F ?g c ti rect)\<rparr>" "\<not> r"
        using assms(2) \<open>findGlyph T (m_font m) c = Some fi\<close> fi w Some tr by (auto simp: renderCache_def Let_def)
      have "cached_at T F fonts pss' c (glyph_metrics F ?g c ti rect)"
        using q(4)[of ti rect] Some tr \<open>findGlyph T (m_font m) c = Some fi\<close> fi p(1) unfolding cached_at_def by blast
      then show ?thesis using m' p(1) q(1) old alive unfolding manager_ok_def by auto
    qed
  qed
  then show "manager_ok T G F fonts m'" "\<not> r" "\<And>c' info. m_map m c' = Some info \<Longrightarrow> c' \<noteq> c \<Longrightarrow> m_map m' c' = Some info"
    by blast+
qed

lemma getGlyphCacheInfo_ok:
  assumes "manager_ok T G F fonts m" "getGlyphCacheInfo T G F c m = Some (r, m')"
  shows "manager_ok T G F fonts m'" "r = m_map m c"
proof -
  have "manager_ok T G F fonts m' \<and> r = m_map m c"
  proof (cases "m_map m c")
    case None
    then obtain b m1 where c: "renderCache T G F c m = Some (b, m1)"
      using assms(2) by (auto simp: getGlyphCacheInfo_def split: option.splits)
    show ?thesis using renderCache_ok(1,2)[OF assms(1) c] assms(2) None c by (simp add: getGlyphCacheInfo_def)
  qed (use assms in \<open>simp add: getGlyphCacheInfo_def\<close>)
  then show "manager_ok T G F fonts m'" "r = m_map m c" by blast+
qed

lemma cache_codes_ok:
  "manager_ok T G F fonts m \<Longrightarrow> cache_codes T G F cs r m = Some (r', m') \<Longrightarrow> manager_ok T G F fonts m'"
proof (induction cs arbitrary: r m)
  case (Cons c cs)
  then obtain info m1 where g: "getGlyphCacheInfo T G F c m = Some (info, m1)"
    by (auto split: option.splits)
  then show ?case using Cons.IH[OF getGlyphCacheInfo_ok(1)[OF Cons.prems(1) g]] Cons.prems(2) by (auto split: if_splits)
qed simp

lemma upload_ok:
  assumes "texture_ok t ps" "gc_texture t = Some tex"
  shows "texture_ok (upload t tex) ps" "dirty_l (upload t tex) = invalid_rect_value" "gc_texture (upload t tex) \<noteq> None"
proof -
  have "up_to_date (upload t tex) p" if "up_to_date t p" for p
    using that assms(2) by (auto simp: up_to_date_def upload_def split: prod.splits)
  moreover have "placed (upload t tex) p = placed t p" "visible (upload t tex) p = visible t p" for p
    by (auto simp: placed_def visible_def upload_def split: prod.splits)
  ultimately show "texture_ok (upload t tex) ps" using assms(1) by (auto simp: texture_ok_def) (auto simp: upload_def)
qed (simp_all add: upload_def)

lemma flush_textures_ok:
  "textures_ok ts pss \<Longrightarrow> flush_textures G ts = Some (r, ts') \<Longrightarrow> textures_ok ts' pss
    \<and> (r \<longrightarrow> (\<forall>t \<in> set ts'. dirty_l t = invalid_rect_value))"
proof (induction ts arbitrary: pss r ts')
  case (Cons t ts)
  obtain ps pss' where p: "pss = ps # pss'" "texture_ok t ps" "textures_ok ts pss'" using Cons.prems(1) by (auto simp: list_all2_Cons1)
  show ?case
  proof (cases "dirty_l t = invalid_rect_value")
    case True
    then obtain ts1 where "flush_textures G ts = Some (r, ts1)" "ts' = t # ts1" using Cons.prems(2) by auto
    then show ?thesis using Cons.IH[OF p(3)] p True by auto
  next
    case False
    then obtain tex where tex: "gc_texture t = Some tex" using Cons.prems(2) by (auto split: option.splits)
    show ?thesis
    proof (cases "accepts_upload G")
      case True
      then obtain ts1 where "flush_textures G ts = Some (r, ts1)" "ts' = upload t tex # ts1"
        using Cons.prems(2) False tex by auto
      then show ?thesis using Cons.IH[OF p(3)] p upload_ok[OF p(2) tex] by auto
    next
      case False
      then show ?thesis using Cons.prems \<open>dirty_l t \<noteq> invalid_rect_value\<close> tex by auto
    qed
  qed
qed simp

lemma flush_live: "flush_textures G ts = Some (r, ts') \<Longrightarrow> live ts \<Longrightarrow> live ts'"
proof (induction ts arbitrary: r ts')
  case (Cons t ts)
  then have "gc_texture t \<noteq> None" "live ts" by (auto simp: live_def)
  then show ?case
    using Cons by (auto simp: live_def upload_def split: if_splits)
qed simp

lemma flush_ok:
  assumes "manager_ok T G F fonts m" "flush G m = Some (r, m')"
  shows "manager_ok T G F fonts m'" "r \<Longrightarrow> t \<in> set (m_tex m') \<Longrightarrow> dirty_l t = invalid_rect_value" "m_map m' = m_map m"
proof -
  obtain ts' where f: "flush_textures G (m_tex m) = Some (r, ts')" "m' = m\<lparr>m_tex := ts'\<rparr>"
    using assms(2) by (auto simp: flush_def)
  obtain pss where p: "m_font m = fonts" "textures_ok (m_tex m) pss"
      "\<And>c info. m_map m c = Some info \<Longrightarrow> cached_at T F fonts pss c info"
      "(\<forall>n. create_texture G n \<noteq> None) \<longrightarrow> live (m_tex m)" using assms(1) unfolding manager_ok_def by blast
  show "manager_ok T G F fonts m'"
    using p flush_live[OF f(1)] flush_textures_ok[OF p(2) f(1)] unfolding manager_ok_def f(2) by auto
  show "r \<Longrightarrow> t \<in> set (m_tex m') \<Longrightarrow> dirty_l t = invalid_rect_value" "m_map m' = m_map m"
    using flush_textures_ok[OF p(2) f(1)] by (simp_all add: f(2))
qed

text \<open>A lost device: the textures of the new one hold anything.\<close>

definition retexture :: "(image \<Rightarrow> image) \<Rightarrow> 'f glyph_manager \<Rightarrow> 'f glyph_manager" where
  "retexture f m = m\<lparr>m_tex := map (\<lambda>t. t\<lparr>gc_texture := map_option f (gc_texture t)\<rparr>) (m_tex m)\<rparr>"

lemma lost_texture_ok:
  assumes "texture_ok t ps"
  shows "texture_ok (t\<lparr>dirty_l := 0, dirty_t := 0, dirty_r := texture_size, dirty_b := pen_bottom t + 1, gc_texture := tex\<rparr>) ps"
    (is "texture_ok ?t ps")
proof -
  have bot: "unat (pen_bottom t + 1) = unat (pen_bottom t) + 1" using assms by (simp add: texture_ok_def unat_plus)
  have "placed ?t p \<and> visible ?t p \<and> up_to_date ?t p" if "p \<in> set ps" for p
  proof -
    obtain x y b where p: "p = (x, y, b)" by (cases p)
    have ok: "placed t p" "visible t p" using assms that by (auto simp: texture_ok_def)
    then have q: "1 \<le> x" "1 \<le> y" "x + bw b < 1023" "y + bh b \<le> unat (pen_bottom t)" by (auto simp: p placed_def)
    have "in_dirty ?t (frame_index x y i j)" if "i \<le> bw b + 1" "j \<le> bh b + 1" for i j
      using frame_index_coords[OF q(1,3) that(1), of y j] that q bot by (simp add: in_dirty_def texture_size_def) linarith
    then show ?thesis using ok by (simp add: p placed_def visible_def up_to_date_def)
  qed
  then show ?thesis using assms by (auto simp: texture_ok_def)
qed

lemma lost_ok:
  assumes "manager_ok T G F fonts m" shows "manager_ok T G F fonts (retexture f (onDeviceDestroy m))"
proof -
  obtain pss where p: "m_font m = fonts" "textures_ok (m_tex m) pss"
      "\<And>c info. m_map m c = Some info \<Longrightarrow> cached_at T F fonts pss c info"
      "(\<forall>n. create_texture G n \<noteq> None) \<longrightarrow> live (m_tex m)" using assms unfolding manager_ok_def by blast
  have "textures_ok (m_tex (retexture f (onDeviceDestroy m))) pss"
    using p(2) unfolding retexture_def onDeviceDestroy_def
    by (auto simp: list_all2_conv_all_nth comp_def intro: lost_texture_ok)
  moreover have "live (m_tex (retexture f (onDeviceDestroy m))) = live (m_tex m)"
    by (auto simp: live_def retexture_def onDeviceDestroy_def image_iff) (metis not_None_eq)
  moreover have "m_font (retexture f (onDeviceDestroy m)) = m_font m" "m_map (retexture f (onDeviceDestroy m)) = m_map m"
    by (simp_all add: retexture_def onDeviceDestroy_def)
  ultimately show ?thesis using p unfolding manager_ok_def by auto
qed

subsection \<open>Reachable states\<close>

inductive glyph_reach :: "freetype \<Rightarrow> gpu \<Rightarrow> 'f glyph_floats \<Rightarrow> font_data list \<Rightarrow> 'f glyph_manager \<Rightarrow> bool"
  for T G F fonts where
  created: "new_manager T G F line_height fonts = Some (Some m) \<Longrightarrow> glyph_reach T G F fonts m"
| glyph: "glyph_reach T G F fonts m \<Longrightarrow> getGlyph T G F c no_render m = Some (r, info, m') \<Longrightarrow> glyph_reach T G F fonts m'"
| string: "glyph_reach T G F fonts m \<Longrightarrow> cacheString T G F str m = Some (r, m') \<Longrightarrow> glyph_reach T G F fonts m'"
| flushed: "glyph_reach T G F fonts m \<Longrightarrow> flush G m = Some (r, m') \<Longrightarrow> glyph_reach T G F fonts m'"
| lost: "glyph_reach T G F fonts m \<Longrightarrow> glyph_reach T G F fonts (retexture f (onDeviceDestroy m))"

lemma getGlyph_ok:
  assumes "manager_ok T G F fonts m" "getGlyph T G F c no_render m = Some (r, info, m')"
  shows "manager_ok T G F fonts m'" "r \<Longrightarrow> info \<noteq> None \<and> m_map m' c = info"
    "r \<Longrightarrow> \<not> no_render \<Longrightarrow> t \<in> set (m_tex m') \<Longrightarrow> dirty_l t = invalid_rect_value"
proof -
  obtain i m1 where g: "getGlyphCacheInfo T G F c m = Some (i, m1)"
    using assms(2) by (auto simp: getGlyph_def split: option.splits)
  note ok = getGlyphCacheInfo_ok[OF assms(1) g]
  have same: "m1 = m" if "i = Some x" for x
  proof -
    have "m_map m c = Some x" using ok(2) that by simp
    then show ?thesis using g by (simp add: getGlyphCacheInfo_def)
  qed
  have "manager_ok T G F fonts m' \<and> (r \<longrightarrow> info \<noteq> None \<and> m_map m' c = info)
      \<and> (r \<and> \<not> no_render \<longrightarrow> (\<forall>t \<in> set (m_tex m'). dirty_l t = invalid_rect_value))"
  proof (cases i)
    case None
    then show ?thesis using assms(2) g ok by (simp add: getGlyph_def)
  next
    case (Some x)
    have x: "m_map m c = Some x" using ok(2) Some by simp
    have e: "getGlyph T G F c no_render m = (if no_render then Some (True, Some x, m)
        else map_option (\<lambda>(r, m). (r, Some x, m)) (flush G m))"
      by (simp add: getGlyph_def g Some same[OF Some])
    show ?thesis
      using assms(1) assms(2)[unfolded e] x flush_ok[OF assms(1)] by (cases no_render) (auto dest: sym[of "Some x"])
  qed
  then show "manager_ok T G F fonts m'" "r \<Longrightarrow> info \<noteq> None \<and> m_map m' c = info"
    "r \<Longrightarrow> \<not> no_render \<Longrightarrow> t \<in> set (m_tex m') \<Longrightarrow> dirty_l t = invalid_rect_value"
    by blast+
qed

lemma reach_ok: "glyph_reach T G F fonts m \<Longrightarrow> manager_ok T G F fonts m"
proof (induction rule: glyph_reach.induct)
  case (created line_height m)
  have "manager_ok T G F fonts \<lparr>m_line_height = line_height, m_font = fonts, m_tex = snd (addTexture G []), m_map = Map.empty\<rparr>"
    using add_texture_ok[of "[]" "[]" G] add_texture_live[of G "[]"] unfolding manager_ok_def by (auto simp: live_def)
  then show ?case
    using created getGlyphCacheInfo_ok(1)
    by (auto simp: new_manager_def cacheGlyph_def split: prod.splits bool.splits)
next
  case (string m str r m')
  then show ?case using cache_codes_ok by (auto simp: cacheString_def)
qed (auto intro: getGlyph_ok flush_ok lost_ok)

subsection \<open>A concrete cache\<close>

definition demo_bitmap :: ft_bitmap where
  "demo_bitmap = \<lparr>bm_width = 1, bm_rows = 1, bm_pitch = 1, bm_mode = PixelGray, bm_buffer = (\<lambda>_. 0x80)\<rparr>"

definition demo_freetype :: freetype where
  "demo_freetype = \<lparr>char_index = (\<lambda>_ c. c), load_glyph = (\<lambda>_ _. \<lparr>g_bitmap = demo_bitmap, g_left = 0, g_top = 1,
     g_advance_x = 64, g_advance_y = 0\<rparr>)\<rparr>"

definition demo_gpu :: gpu where
  "demo_gpu = \<lparr>create_texture = (\<lambda>_. Some (\<lambda>_. 7)), accepts_upload = True\<rparr>"

definition demo_glyph_floats :: "int glyph_floats" where
  "demo_glyph_floats = \<lparr>f_of = (\<lambda>x. x), f_div = (\<lambda>x y. x)\<rparr>"

definition demo_fonts :: "font_data list" where
  "demo_fonts = [\<lparr>ft_face = Some 0, is_fallback = True\<rparr>]"

lemma demo_bitmap_size: "bm_width demo_bitmap = 1" "bm_rows demo_bitmap = 1"
  by (simp_all add: demo_bitmap_def)

lemma demo_glyph: "g_bitmap (load_glyph demo_freetype f i) = demo_bitmap" "findGlyph demo_freetype demo_fonts c = Some (0, c)"
  by (simp_all add: demo_freetype_def demo_fonts_def)

lemma demo_glyph_manager:
  obtains m m' info where "glyph_reach demo_freetype demo_gpu demo_glyph_floats demo_fonts m" "m_map m 0x41 = None"
    "getGlyph demo_freetype demo_gpu demo_glyph_floats 0x20 False m = Some (True, Some info, m')"
proof -
  let ?tex = "\<lambda>_. 7 :: u32"
  let ?t = "(new_cache2d (Some ?tex))\<lparr>pen_x := 1, pen_y := 1\<rparr>"
  have add: "addTexture demo_gpu [] = (True, [new_cache2d (Some ?tex)])" by (simp add: addTexture_def demo_gpu_def)
  have "find_room demo_bitmap (new_cache2d (Some ?tex)) = (True, ?t)"
    by (simp add: find_room_def demo_bitmap_size texture_size_def new_cache2d_def)
  then have f: "find_texture demo_gpu demo_bitmap [new_cache2d (Some ?tex)] = Some (Some 0, [?t])"
    by (subst find_texture.simps) simp
  have "texture_ok ?t []" "room_for demo_bitmap ?t"
    by (simp_all add: texture_ok_def room_for_def new_cache2d_def demo_bitmap_size)
  then obtain t' where t': "write_bitmap demo_bitmap ?t = Some t'" "gc_texture t' = Some ?tex"
    using write_bitmap_ok[of ?t "[]" demo_bitmap] by (auto simp: new_cache2d_def)
  have w: "writeBitmapToCache demo_gpu demo_glyph_floats demo_bitmap [new_cache2d (Some ?tex)]
      = Some (Some (0, texture_rect demo_glyph_floats 1 1 1 1), [t'])"
    using t'(1) by (simp add: writeBitmapToCache_def f demo_bitmap_size texture_size_def)
  let ?info = "glyph_metrics demo_glyph_floats (load_glyph demo_freetype 0 0x20) 0x20 0 (texture_rect demo_glyph_floats 1 1 1 1)"
  let ?m = "\<lparr>m_line_height = 2, m_font = demo_fonts, m_tex = [t'], m_map = [0x20 \<mapsto> ?info]\<rparr>"
  have "new_manager demo_freetype demo_gpu demo_glyph_floats 2 demo_fonts = Some (Some ?m)"
    by (simp add: new_manager_def add cacheGlyph_def getGlyphCacheInfo_def renderCache_def demo_glyph w Let_def)
  then have r: "glyph_reach demo_freetype demo_gpu demo_glyph_floats demo_fonts ?m" by (rule glyph_reach.created)
  have "\<exists>m'. flush demo_gpu ?m = Some (True, m')"
    using t'(2) by (auto simp: flush_def demo_gpu_def)
  then obtain m' where "getGlyph demo_freetype demo_gpu demo_glyph_floats 0x20 False ?m = Some (True, Some ?info, m')"
    by (auto simp: getGlyph_def getGlyphCacheInfo_def)
  then show ?thesis using that r by simp
qed

subsection \<open>Properties\<close>

text \<open>
  The glyph of \<open>c\<close> is on the textures as \<open>info\<close> says: its bitmap, pixel by pixel as FreeType
  renders it and with an empty edge of one pixel, stands in the device's texture of the index at
  the place the rectangle names.
\<close>

definition glyph_shown :: "freetype \<Rightarrow> 'f glyph_floats \<Rightarrow> font_data list \<Rightarrow> 'f glyph_manager \<Rightarrow> u32 \<Rightarrow> 'f glyph_info \<Rightarrow> bool" where
  "glyph_shown T F fonts m c info \<longleftrightarrow> (\<exists>face index b i x y tex. findGlyph T fonts c = Some (face, index)
    \<and> b = g_bitmap (load_glyph T face index) \<and> i < length (m_tex m) \<and> gi_texture_index info = of_nat i
    \<and> gc_texture (m_tex m ! i) = Some tex \<and> shows_at tex x y b
    \<and> 1 \<le> x \<and> 1 \<le> y \<and> x + bw b < 1023 \<and> y + bh b < 1023
    \<and> gi_rect info = texture_rect F (of_nat x) (of_nat y) (bm_width b) (bm_rows b))"

text \<open>
  More precisely: the glyph is on texture \<open>i\<close> at \<open>(x, y)\<close>, and \<open>info\<close> holds the metrics FreeType
  gives.
\<close>

definition glyph_stands :: "freetype \<Rightarrow> 'f glyph_floats \<Rightarrow> font_data list \<Rightarrow> 'f glyph_manager \<Rightarrow> u32 \<Rightarrow> 'f glyph_info
    \<Rightarrow> ft_glyph \<Rightarrow> nat \<times> nat \<times> nat \<Rightarrow> bool" where
  "glyph_stands T F fonts m c info g p \<longleftrightarrow> (\<exists>face index tex. case p of (i, x, y) \<Rightarrow>
     findGlyph T fonts c = Some (face, index) \<and> g = load_glyph T face index
   \<and> i < length (m_tex m) \<and> gc_texture (m_tex m ! i) = Some tex \<and> shows_at tex x y (g_bitmap g)
   \<and> 1 \<le> x \<and> 1 \<le> y \<and> x + bw (g_bitmap g) < 1023 \<and> y + bh (g_bitmap g) < 1023
   \<and> info = glyph_metrics F g c (of_nat i)
       (texture_rect F (of_nat x) (of_nat y) (bm_width (g_bitmap g)) (bm_rows (g_bitmap g))))"

lemma clean_stands:
  assumes "manager_ok T G F fonts m" "\<And>t. t \<in> set (m_tex m) \<Longrightarrow> dirty_l t = invalid_rect_value" "m_map m c = Some info"
  shows "\<exists>g p. glyph_stands T F fonts m c info g p"
proof -
  obtain pss where p: "textures_ok (m_tex m) pss" "cached_at T F fonts pss c info"
    using assms(1,3) unfolding manager_ok_def by auto
  obtain face index i x y where q: "findGlyph T fonts c = Some (face, index)" "i < length pss"
      "(x, y, g_bitmap (load_glyph T face index)) \<in> set (pss ! i)" "info = glyph_metrics F (load_glyph T face index) c (of_nat i)
         (texture_rect F (of_nat x) (of_nat y) (bm_width (g_bitmap (load_glyph T face index))) (bm_rows (g_bitmap (load_glyph T face index))))"
    using p(2) unfolding cached_at_def by blast
  let ?b = "g_bitmap (load_glyph T face index)" and ?t = "m_tex m ! i"
  have i: "i < length (m_tex m)" "texture_ok ?t (pss ! i)" using p(1) q(2) by (auto simp: list_all2_conv_all_nth)
  then have t: "placed ?t (x, y, ?b)" "visible ?t (x, y, ?b)" "up_to_date ?t (x, y, ?b)"
    using q(3) by (auto simp: texture_ok_def)
  have clean: "\<not> in_dirty ?t k" for k using in_dirty_invalid assms(2) i(1) by (metis nth_mem)
  then obtain tex where tex: "gc_texture ?t = Some tex"
    using t(3) by (fastforce simp: up_to_date_def)
  then have "shows_at tex x y ?b"
    using t(2,3) clean by (simp add: visible_def shows_at_frame up_to_date_def)
  then have "glyph_stands T F fonts m c info (load_glyph T face index) (i, x, y)"
    unfolding glyph_stands_def prod.case
    using q i(1) tex t(1) by (intro exI[of _ face] exI[of _ index] exI[of _ tex]) (simp add: placed_def)
  then show ?thesis by blast
qed

lemma stands_shown:
  assumes "glyph_stands T F fonts m c info g p" shows "glyph_shown T F fonts m c info"
proof -
  obtain i x y where p: "p = (i, x, y)" by (cases p)
  obtain face index tex where "findGlyph T fonts c = Some (face, index)" "g = load_glyph T face index"
      "i < length (m_tex m)" "gc_texture (m_tex m ! i) = Some tex" "shows_at tex x y (g_bitmap g)"
      "1 \<le> x" "1 \<le> y" "x + bw (g_bitmap g) < 1023" "y + bh (g_bitmap g) < 1023"
      "info = glyph_metrics F g c (of_nat i)
        (texture_rect F (of_nat x) (of_nat y) (bm_width (g_bitmap g)) (bm_rows (g_bitmap g)))"
    using assms unfolding glyph_stands_def p prod.case by blast
  then show ?thesis
    unfolding glyph_shown_def
    by (intro exI[of _ face] exI[of _ index] exI[of _ "g_bitmap g"] exI[of _ i] exI[of _ x] exI[of _ y] exI[of _ tex])
      (simp add: glyph_metrics_def)
qed

lemma clean_shows:
  assumes "manager_ok T G F fonts m" "\<And>t. t \<in> set (m_tex m) \<Longrightarrow> dirty_l t = invalid_rect_value" "m_map m c = Some info"
  shows "glyph_shown T F fonts m c info"
  using clean_stands[OF assms] stands_shown by blast

text \<open>
  C26.  What a glyph request promises is on the texture.  In any state the cache can reach, after
  any requests, uploads and losses of the device, a request that succeeds and uploads leaves the
  glyph's bitmap, pixel by pixel as FreeType rendered it and with an empty edge of one pixel, in
  the device's texture of the returned index at the place the returned rectangle names.
\<close>

theorem glyph_on_texture:
  assumes "glyph_reach T G F fonts m" "getGlyph T G F c False m = Some (True, Some info, m')"
  shows "glyph_shown T F fonts m' c info"
proof -
  note ok = getGlyph_ok[OF reach_ok[OF assms(1)] assms(2)]
  show ?thesis using clean_shows[OF ok(1), of c info] ok(2,3) by simp
qed

theorem glyph_on_texture_witness:
  "\<exists>m m' info i x y tex. getGlyph demo_freetype demo_gpu demo_glyph_floats 0x20 False m = Some (True, Some info, m')
     \<and> gc_texture (m_tex m' ! i) = Some tex \<and> shows_at tex x y demo_bitmap"
proof -
  obtain m m' info where d: "glyph_reach demo_freetype demo_gpu demo_glyph_floats demo_fonts m"
      "getGlyph demo_freetype demo_gpu demo_glyph_floats 0x20 False m = Some (True, Some info, m')"
    by (rule demo_glyph_manager)
  have "g_bitmap (load_glyph demo_freetype f i) = demo_bitmap" for f i by (simp add: demo_freetype_def)
  then have "\<exists>i x y tex. gc_texture (m_tex m' ! i) = Some tex \<and> shows_at tex x y demo_bitmap"
    using glyph_on_texture[OF d] unfolding glyph_shown_def by metis
  then show ?thesis using d(2) by blast
qed

text \<open>A glyph that leaves room for its edge is rendered and stored.\<close>

definition glyph_fits :: "freetype \<Rightarrow> font_data list \<Rightarrow> u32 \<Rightarrow> bool" where
  "glyph_fits T fonts c \<longleftrightarrow> (case findGlyph T fonts c of None \<Rightarrow> False
     | Some (face, index) \<Rightarrow> bw (g_bitmap (load_glyph T face index)) \<le> 1021 \<and> bh (g_bitmap (load_glyph T face index)) \<le> 1021)"

lemma render_places:
  assumes "manager_ok T G F fonts m" "glyph_fits T fonts c" "\<forall>n. create_texture G n \<noteq> None"
  shows "\<exists>m' info. renderCache T G F c m = Some (False, m') \<and> m_map m' c = Some info"
proof -
  obtain face index where g: "findGlyph T fonts c = Some (face, index)"
      "bw (g_bitmap (load_glyph T face index)) \<le> 1021" "bh (g_bitmap (load_glyph T face index)) \<le> 1021"
    using assms(2) by (auto simp: glyph_fits_def split: option.splits)
  let ?b = "g_bitmap (load_glyph T face index)"
  obtain pss where p: "m_font m = fonts" "textures_ok (m_tex m) pss"
    using assms(1) unfolding manager_ok_def by auto
  obtain i ts where f: "find_texture G ?b (m_tex m) = Some (Some i, ts)"
    using find_texture_returns[OF p(2) g(2,3), of G] assms(3) by auto
  obtain k where k: "textures_ok ts (pss @ replicate k [])" "i < length ts" "room_for ?b (ts ! i)"
    using find_texture_partial[OF f p(2)] g(2,3) by auto
  then obtain t' where w: "write_bitmap ?b (ts ! i) = Some t'"
    using write_bitmap_ok[of "ts ! i" "(pss @ replicate k []) ! i" ?b] by (metis list_all2_conv_all_nth)
  have "\<not> texture_size - 2 < bm_width ?b" "\<not> texture_size - 2 < bm_rows ?b"
    using g(2,3) by (auto simp: texture_size_def word_less_nat_alt)
  then obtain tr ts' where "writeBitmapToCache G F ?b (m_tex m) = Some (Some tr, ts')"
    using f w by (auto simp: writeBitmapToCache_def Let_def)
  then show ?thesis using g(1) p(1) by (cases tr) (auto simp: renderCache_def Let_def)
qed

text \<open>
  The first request for a glyph always fails.  \<open>renderCache\<close> has no \<open>return true\<close>:
  a request for a glyph that is not cached reports failure even when it has rendered, placed and
  stored the glyph; the same request made again succeeds.
\<close>

theorem glyph_first_request_fails:
  assumes "glyph_reach T G F fonts m" "m_map m c = None" "glyph_fits T fonts c" "\<forall>n. create_texture G n \<noteq> None"
  shows "\<exists>m' info. getGlyph T G F c no_render m = Some (False, None, m')
    \<and> getGlyph T G F c True m' = Some (True, Some info, m')"
  using render_places[OF reach_ok[OF assms(1)] assms(3,4)] assms(2)
  by (auto simp: getGlyph_def getGlyphCacheInfo_def)

theorem glyph_first_request_fails_witness:
  "\<exists>m m' info. getGlyph demo_freetype demo_gpu demo_glyph_floats 0x41 True m = Some (False, None, m')
     \<and> getGlyph demo_freetype demo_gpu demo_glyph_floats 0x41 True m' = Some (True, Some info, m')"
proof -
  obtain m where d: "glyph_reach demo_freetype demo_gpu demo_glyph_floats demo_fonts m" "m_map m 0x41 = None"
    by (rule demo_glyph_manager)
  have "glyph_fits demo_freetype demo_fonts 0x41" by (simp add: glyph_fits_def demo_glyph demo_bitmap_size)
  moreover have "\<forall>n. create_texture demo_gpu n \<noteq> None" by (simp add: demo_gpu_def)
  ultimately show ?thesis using glyph_first_request_fails[OF d] by blast
qed

text \<open>
  C27.  The one size that never finds a place.  As long as the device creates textures, placing a
  bitmap ends, unless its larger side has exactly 1022 pixels: such a bitmap passes the size check
  but does not fit into an empty texture, and the loop adds textures forever.
\<close>

theorem placing_ends_unless_1022:
  assumes "glyph_reach T G F fonts m" "\<forall>n. create_texture G n \<noteq> None"
  shows "writeBitmapToCache G F b (m_tex m) = None \<longleftrightarrow> max (bw b) (bh b) = 1022"
proof -
  obtain pss where p: "textures_ok (m_tex m) pss"
    using reach_ok[OF assms(1)] unfolding manager_ok_def by auto
  have sz: "texture_size - 2 < bm_width b \<longleftrightarrow> 1022 < bw b" "texture_size - 2 < bm_rows b \<longleftrightarrow> 1022 < bh b"
    by (simp_all add: texture_size_def word_less_nat_alt)
  consider "1022 < bw b \<or> 1022 < bh b" | "bw b \<le> 1022" "bh b \<le> 1022" "bw b = 1022 \<or> bh b = 1022" | "bw b \<le> 1021" "bh b \<le> 1021"
    by linarith
  then show ?thesis
  proof cases
    case 1
    then show ?thesis by (auto simp: writeBitmapToCache_def sz max_def)
  next
    case 2
    then have "find_texture G b (m_tex m) = None" using find_texture_never[OF assms(2) _ _ _ p] by blast
    then show ?thesis using 2 by (auto simp: writeBitmapToCache_def sz)
  next
    case 3
    obtain i ts where f: "find_texture G b (m_tex m) = Some (Some i, ts)"
      using find_texture_returns[OF p 3, of G] assms(2) by auto
    obtain k where k: "textures_ok ts (pss @ replicate k [])" "i < length ts" "room_for b (ts ! i)"
      using find_texture_partial[OF f p] 3 by auto
    then obtain t' where w: "write_bitmap b (ts ! i) = Some t'"
      using write_bitmap_ok[of "ts ! i" "(pss @ replicate k []) ! i" b] by (metis list_all2_conv_all_nth)
    then show ?thesis using f 3 by (auto simp: writeBitmapToCache_def sz Let_def)
  qed
qed

theorem placing_ends_unless_1022_witness:
  "\<exists>ts. writeBitmapToCache demo_gpu demo_glyph_floats (demo_bitmap\<lparr>bm_width := 1022\<rparr>) ts = None
     \<and> writeBitmapToCache demo_gpu demo_glyph_floats demo_bitmap ts \<noteq> None"
proof -
  obtain m where d: "glyph_reach demo_freetype demo_gpu demo_glyph_floats demo_fonts m" by (rule demo_glyph_manager)
  have "\<forall>n. create_texture demo_gpu n \<noteq> None" by (simp add: demo_gpu_def)
  note p = placing_ends_unless_1022[OF d this]
  have a: "max (bw (demo_bitmap\<lparr>bm_width := 1022\<rparr>)) (bh (demo_bitmap\<lparr>bm_width := 1022\<rparr>)) = 1022"
    and b: "max (bw demo_bitmap) (bh demo_bitmap) \<noteq> 1022" by (simp_all add: demo_bitmap_def)
  show ?thesis using iffD2[OF p a] b p[of demo_bitmap] by blast
qed

end
