(* ===== verification/TextDraw.thy ===== *)
theory TextDraw
  imports GlyphCache
begin

text \<open>
  The text renderer (\<open>TextRenderer\<close>): measuring and drawing UTF-8 text with the glyphs of a
  glyph cache.  Arithmetic on \<open>float\<close> is the parameter \<open>text_floats\<close>; what the renderer is asked
  to draw is a list of quads.
\<close>

record 'f text_floats =
  f_add :: "'f \<Rightarrow> 'f \<Rightarrow> 'f"
  f_sub :: "'f \<Rightarrow> 'f \<Rightarrow> 'f"
  f_mul :: "'f \<Rightarrow> 'f \<Rightarrow> 'f"
  f_min :: "'f \<Rightarrow> 'f \<Rightarrow> 'f"
  f_max :: "'f \<Rightarrow> 'f \<Rightarrow> 'f"
  flt_max :: 'f
  flt_lowest :: 'f
  f_half :: 'f

record 'f text_renderer =
  m_scale :: "'f \<times> 'f"
  m_z :: 'f
  m_color :: u32

definition new_text_renderer :: "'f glyph_floats \<Rightarrow> 'f text_floats \<Rightarrow> 'f text_renderer" where
  "new_text_renderer F A = \<lparr>m_scale = (f_of F 1, f_of F 1), m_z = f_half A, m_color = 0xFFFFFFFF\<rparr>"

text \<open>A vertex: position, texture coordinates, color.\<close>

type_synonym 'f vertex = "'f \<times> 'f \<times> 'f \<times> 'f \<times> 'f \<times> u32"
type_synonym 'f quad = "u32 \<times> 'f vertex list"

subsection \<open>Measuring\<close>

text \<open>
  Both loops of the measurements: \<open>visit\<close> is what a glyph does to the result at the pen.  The
  result carries whether a glyph was found.
\<close>

fun measure_codes :: "freetype \<Rightarrow> gpu \<Rightarrow> 'f glyph_floats \<Rightarrow> 'f text_floats \<Rightarrow> ('f glyph_info \<Rightarrow> 'f \<times> 'f \<Rightarrow> 'r \<Rightarrow> 'r)
    \<Rightarrow> u32 list \<Rightarrow> 'f \<times> 'f \<Rightarrow> 'r \<Rightarrow> bool \<Rightarrow> 'f glyph_manager \<Rightarrow> (('f \<times> 'f) \<times> 'r \<times> bool \<times> 'f glyph_manager) option" where
  "measure_codes T G F A visit [] start_pos rect is_updated m = Some (start_pos, rect, is_updated, m)"
| "measure_codes T G F A visit (c # cs) start_pos rect is_updated m =
     (if c = 0x0A then measure_codes T G F A visit cs (f_of F 0, f_sub A (snd start_pos) (m_line_height m)) rect is_updated m
      else (case getGlyph T G F c True m of None \<Rightarrow> None
        | Some (True, Some g, m) \<Rightarrow> measure_codes T G F A visit cs
            (f_add A (fst start_pos) (fst (gi_advance g)), f_add A (snd start_pos) (snd (gi_advance g)))
            (visit g start_pos rect) True m
        | Some (_, _, m) \<Rightarrow> measure_codes T G F A visit cs start_pos rect is_updated m))"

definition codes_of :: "u8 list \<Rightarrow> u32 list" where
  "codes_of str = read_all (utf8reader (Some str) (of_nat (length str)))"

definition getTextAdvance :: "freetype \<Rightarrow> gpu \<Rightarrow> 'f glyph_floats \<Rightarrow> 'f text_floats \<Rightarrow> 'f text_renderer \<Rightarrow> u8 list
    \<Rightarrow> 'f glyph_manager option \<Rightarrow> (('f \<times> 'f) \<times> 'f glyph_manager option) option" where
  "getTextAdvance T G F A R str mgr = (let z = f_of F 0 in case mgr of None \<Rightarrow> Some ((z, z), None)
     | Some m \<Rightarrow> map_option (\<lambda>(pos, _, is_updated, m). (if is_updated
         then (f_mul A (fst pos) (fst (m_scale R)), f_mul A (snd pos) (snd (m_scale R))) else (z, z), Some m))
       (measure_codes T G F A (\<lambda>_ _ r. r) (codes_of str) (z, z) () False m))"

definition extend_boundary :: "'f text_floats \<Rightarrow> 'f glyph_info \<Rightarrow> 'f \<times> 'f \<Rightarrow> 'f \<times> 'f \<times> 'f \<times> 'f \<Rightarrow> 'f \<times> 'f \<times> 'f \<times> 'f" where
  "extend_boundary A g pos rect = (case rect of (ax, ay, bx, by) \<Rightarrow>
     let left = f_add A (fst pos) (fst (gi_position g)); top = f_add A (snd pos) (snd (gi_position g));
         right = f_add A left (fst (gi_size g)); bottom = f_sub A top (snd (gi_size g))
     in (f_min A ax left, f_max A ay top, f_max A bx right, f_min A by bottom))"

definition getTextBoundary :: "freetype \<Rightarrow> gpu \<Rightarrow> 'f glyph_floats \<Rightarrow> 'f text_floats \<Rightarrow> 'f text_renderer \<Rightarrow> u8 list
    \<Rightarrow> 'f glyph_manager option \<Rightarrow> (('f \<times> 'f \<times> 'f \<times> 'f) \<times> 'f glyph_manager option) option" where
  "getTextBoundary T G F A R str mgr = (let z = f_of F 0 in case mgr of None \<Rightarrow> Some ((z, z, z, z), None)
     | Some m \<Rightarrow> map_option (\<lambda>(_, (ax, ay, bx, by), is_updated, m). (if is_updated
         then (f_mul A ax (fst (m_scale R)), f_mul A ay (snd (m_scale R)), f_mul A bx (fst (m_scale R)), f_mul A by (snd (m_scale R)))
         else (z, z, z, z), Some m))
       (measure_codes T G F A (extend_boundary A) (codes_of str) (z, z)
          (flt_max A, flt_lowest A, flt_lowest A, flt_max A) False m))"

subsection \<open>Quads\<close>

definition uv_corners :: "'f glyph_info \<Rightarrow> ('f \<times> 'f) list" where
  "uv_corners g = (case gi_rect g of (ax, ay, bx, by) \<Rightarrow> [(ax, ay), (bx, ay), (bx, by), (ax, by)])"

text \<open>The quad of a glyph, whose size and position are scaled already, at the pen.\<close>

definition glyph_quad :: "'f text_floats \<Rightarrow> 'f text_renderer \<Rightarrow> 'f glyph_info \<Rightarrow> 'f \<times> 'f \<Rightarrow> 'f quad" where
  "glyph_quad A R g start_pos =
    (let x = f_add A (fst start_pos) (fst (gi_position g)); y = f_add A (snd start_pos) (snd (gi_position g));
         x' = f_add A x (fst (gi_size g)); y' = f_sub A y (snd (gi_size g))
     in (gi_texture_index g, map (\<lambda>((px, py), (u, v)). (px, py, m_z R, u, v, m_color R))
          (zip [(x, y), (x', y), (x', y'), (x, y')] (uv_corners g))))"

type_synonym 'f vec3 = "'f \<times> 'f \<times> 'f"

definition v3_add :: "'f text_floats \<Rightarrow> 'f vec3 \<Rightarrow> 'f vec3 \<Rightarrow> 'f vec3" where
  "v3_add A a b = (case (a, b) of ((x, y, z), (x', y', z')) \<Rightarrow> (f_add A x x', f_add A y y', f_add A z z'))"

definition v3_sub :: "'f text_floats \<Rightarrow> 'f vec3 \<Rightarrow> 'f vec3 \<Rightarrow> 'f vec3" where
  "v3_sub A a b = (case (a, b) of ((x, y, z), (x', y', z')) \<Rightarrow> (f_sub A x x', f_sub A y y', f_sub A z z'))"

definition v3_mul :: "'f text_floats \<Rightarrow> 'f vec3 \<Rightarrow> 'f \<Rightarrow> 'f vec3" where
  "v3_mul A a k = (case a of (x, y, z) \<Rightarrow> (f_mul A x k, f_mul A y k, f_mul A z k))"

definition glyph_quad_in_space :: "'f text_floats \<Rightarrow> 'f text_renderer \<Rightarrow> 'f vec3 \<Rightarrow> 'f vec3 \<Rightarrow> 'f glyph_info \<Rightarrow> 'f vec3 \<Rightarrow> 'f quad" where
  "glyph_quad_in_space A R right_vec down_vec g start_pos =
    (let position = v3_sub A (v3_add A start_pos (v3_mul A right_vec (fst (gi_position g)))) (v3_mul A down_vec (snd (gi_position g)));
         right_top = v3_add A position (v3_mul A right_vec (fst (gi_size g)));
         right_bottom = v3_add A (v3_add A position (v3_mul A right_vec (fst (gi_size g)))) (v3_mul A down_vec (snd (gi_size g)));
         left_bottom = v3_add A position (v3_mul A down_vec (snd (gi_size g)))
     in (gi_texture_index g, map (\<lambda>((px, py, pz), (u, v)). (px, py, pz, u, v, m_color R))
          (zip [position, right_top, right_bottom, left_bottom] (uv_corners g))))"

subsection \<open>Drawing\<close>

definition scale_glyph :: "'f text_floats \<Rightarrow> 'f \<times> 'f \<Rightarrow> 'f glyph_info \<Rightarrow> 'f glyph_info" where
  "scale_glyph A s g = g\<lparr>gi_size := (f_mul A (fst (gi_size g)) (fst s), f_mul A (snd (gi_size g)) (snd s)),
     gi_position := (f_mul A (fst (gi_position g)) (fst s), f_mul A (snd (gi_position g)) (snd s))\<rparr>"

definition scale_advance :: "'f text_floats \<Rightarrow> 'f \<times> 'f \<Rightarrow> 'f glyph_info \<Rightarrow> 'f \<times> 'f" where
  "scale_advance A s g = (f_mul A (fst (gi_advance g)) (fst s), f_mul A (snd (gi_advance g)) (snd s))"

text \<open>
  What the two drawing functions do with the pen: the pen, its moves for a line feed and for an
  advance, and the quad of a glyph at it.
\<close>

record ('f, 'p) pen_ops =
  pen_newline :: "'p \<Rightarrow> 'p"
  pen_advance :: "'f \<times> 'f \<Rightarrow> 'p \<Rightarrow> 'p"
  pen_quad :: "'f glyph_info \<Rightarrow> 'p \<Rightarrow> 'f quad"

definition has_texture :: "'f glyph_manager \<Rightarrow> u32 \<Rightarrow> bool" where
  "has_texture m i \<longleftrightarrow> unat i < length (m_tex m) \<and> gc_texture (m_tex m ! unat i) \<noteq> None"

text \<open>
  One pass over the text: \<open>only\<close> is the texture whose glyphs are drawn, all of them for \<open>None\<close>.
  The result: whether it went through, the pen, the manager and the quads drawn.
\<close>

fun draw_pass :: "freetype \<Rightarrow> gpu \<Rightarrow> 'f glyph_floats \<Rightarrow> 'f text_floats \<Rightarrow> 'f \<times> 'f \<Rightarrow> ('f, 'p) pen_ops \<Rightarrow> 'f \<times> 'f
    \<Rightarrow> u32 option \<Rightarrow> u32 list \<Rightarrow> 'p \<Rightarrow> 'f glyph_manager \<Rightarrow> 'f quad list
    \<Rightarrow> (bool \<times> 'p \<times> 'f glyph_manager \<times> 'f quad list) option" where
  "draw_pass T G F A s P space only [] pen m qs = Some (True, pen, m, qs)"
| "draw_pass T G F A s P space only (c # cs) pen m qs =
     (if c = 0x0A then draw_pass T G F A s P space only cs (pen_newline P pen) m qs
      else if c = 0x20 then draw_pass T G F A s P space only cs (pen_advance P space pen) m qs
      else (case getGlyph T G F c True m of None \<Rightarrow> None
        | Some (True, Some g, m) \<Rightarrow>
            if only = None \<or> only = Some (gi_texture_index g) then
              (if has_texture m (gi_texture_index g)
               then draw_pass T G F A s P space only cs (pen_advance P (scale_advance A s g) pen) m
                 (qs @ [pen_quad P (scale_glyph A s g) pen])
               else Some (False, pen, m, qs))
            else draw_pass T G F A s P space only cs (pen_advance P (scale_advance A s g) pen) m qs
        | Some (_, _, m) \<Rightarrow> draw_pass T G F A s P space only cs pen m qs))"

text \<open>The loop over the textures; their number is asked for again in every round.\<close>

partial_function (option) draw_textures :: "freetype \<Rightarrow> gpu \<Rightarrow> 'f glyph_floats \<Rightarrow> 'f text_floats \<Rightarrow> 'f \<times> 'f
    \<Rightarrow> ('f, 'p) pen_ops \<Rightarrow> 'f \<times> 'f \<Rightarrow> u32 list \<Rightarrow> 'p \<Rightarrow> nat \<Rightarrow> 'p \<Rightarrow> 'f glyph_manager \<Rightarrow> 'f quad list
    \<Rightarrow> (bool \<times> 'p \<times> 'f glyph_manager \<times> 'f quad list) option" where
  "draw_textures T G F A s P space cs start idx pen m qs =
    (if idx < length (m_tex m) then
       (case draw_pass T G F A s P space (Some (of_nat idx)) cs start m qs of None \<Rightarrow> None
        | Some (r, pen, m, qs) \<Rightarrow> if r then draw_textures T G F A s P space cs start (idx + 1) pen m qs
            else Some (False, pen, m, qs))
     else Some (True, pen, m, qs))"

text \<open>The common course of \<open>drawText\<close> and \<open>drawTextInSpace\<close>.\<close>

definition draw_text_with :: "freetype \<Rightarrow> gpu \<Rightarrow> 'f glyph_floats \<Rightarrow> 'f text_floats \<Rightarrow> 'f text_renderer
    \<Rightarrow> ('f \<Rightarrow> ('f, 'p) pen_ops) \<Rightarrow> u8 list \<Rightarrow> 'p \<Rightarrow> 'f glyph_manager option
    \<Rightarrow> (bool \<times> 'p \<times> 'f glyph_manager option \<times> 'f quad list) option" where
  "draw_text_with T G F A R P str start mgr = (case mgr of None \<Rightarrow> Some (False, start, None, [])
   | Some m \<Rightarrow> (case cacheString T G F str m of None \<Rightarrow> None
     | Some (_, m) \<Rightarrow> (case flush G m of None \<Rightarrow> None
       | Some (False, m) \<Rightarrow> Some (False, start, Some m, [])
       | Some (True, m) \<Rightarrow> (case getGlyph T G F 0x20 True m of None \<Rightarrow> None
         | Some (_, g, m) \<Rightarrow>
            let z = f_of F 0;
                space = (case g of Some g \<Rightarrow> scale_advance A (m_scale R) g
                  | None \<Rightarrow> (f_mul A z (fst (m_scale R)), f_mul A z (snd (m_scale R))));
                ops = P (f_mul A (m_line_height m) (snd (m_scale R)))
            in map_option (\<lambda>(r, pen, m, qs). (r, pen, Some m, qs))
               (if length (m_tex m) \<le> 1
                then draw_pass T G F A (m_scale R) ops space None (codes_of str) start m []
                else draw_textures T G F A (m_scale R) ops space (codes_of str) start 0 start m [])))))"

text \<open>In the plane the pen is a point; \<open>start\<close> gives the left margin.\<close>

definition flat_pen :: "'f text_floats \<Rightarrow> 'f text_renderer \<Rightarrow> 'f \<times> 'f \<Rightarrow> 'f \<Rightarrow> ('f, 'f \<times> 'f) pen_ops" where
  "flat_pen A R start line_height = \<lparr>pen_newline = (\<lambda>pen. (fst start, f_sub A (snd pen) line_height)),
     pen_advance = (\<lambda>a pen. (f_add A (fst pen) (fst a), f_add A (snd pen) (snd a))), pen_quad = glyph_quad A R\<rparr>"

definition drawText :: "freetype \<Rightarrow> gpu \<Rightarrow> 'f glyph_floats \<Rightarrow> 'f text_floats \<Rightarrow> 'f text_renderer \<Rightarrow> u8 list \<Rightarrow> 'f \<times> 'f
    \<Rightarrow> 'f glyph_manager option \<Rightarrow> (bool \<times> ('f \<times> 'f) \<times> 'f glyph_manager option \<times> 'f quad list) option" where
  "drawText T G F A R str start mgr = draw_text_with T G F A R (flat_pen A R start) str start mgr"

text \<open>In space the pen is the start of the line and the position.\<close>

definition space_pen :: "'f text_floats \<Rightarrow> 'f text_renderer \<Rightarrow> 'f vec3 \<Rightarrow> 'f vec3 \<Rightarrow> 'f \<Rightarrow> ('f, 'f vec3 \<times> 'f vec3) pen_ops" where
  "space_pen A R right_vec down_vec line_height = \<lparr>
     pen_newline = (\<lambda>(line_pos, _). let p = v3_add A line_pos (v3_mul A down_vec line_height) in (p, p)),
     pen_advance = (\<lambda>a (line_pos, pos). (line_pos,
       v3_add A (v3_add A pos (v3_mul A right_vec (fst a))) (v3_mul A down_vec (snd a)))),
     pen_quad = (\<lambda>g (_, pos). glyph_quad_in_space A R right_vec down_vec g pos)\<rparr>"

definition drawTextInSpace :: "freetype \<Rightarrow> gpu \<Rightarrow> 'f glyph_floats \<Rightarrow> 'f text_floats \<Rightarrow> 'f text_renderer \<Rightarrow> u8 list
    \<Rightarrow> 'f vec3 \<Rightarrow> 'f vec3 \<Rightarrow> 'f vec3 \<Rightarrow> 'f glyph_manager option
    \<Rightarrow> (bool \<times> 'f vec3 \<times> 'f glyph_manager option \<times> 'f quad list) option" where
  "drawTextInSpace T G F A R str start right_vec down_vec mgr =
    map_option (\<lambda>(r, pen, m, qs). (r, snd pen, m, qs))
      (draw_text_with T G F A R (space_pen A R right_vec down_vec) str (start, start) mgr)"

end
