(* ===== verification/TextCorrect.thy ===== *)
theory TextCorrect
  imports GlyphCorrect TextDraw UtfCorrect
begin

text \<open>
  What is drawn for a text: its layout, the passes over several textures, and what the first
  measurement misses.
\<close>

subsection \<open>Caching the glyphs of a text\<close>

lemma request_cases:
  assumes "manager_ok T G F fonts m" "getGlyphCacheInfo T G F c m = Some (r, m')"
  obtains "m_map m c \<noteq> None" "m' = m" | "m_map m c = None" "renderCache T G F c m = Some (False, m')"
proof (cases "m_map m c")
  case None
  obtain p where p: "renderCache T G F c m = Some p"
    using assms(2) None by (cases "renderCache T G F c m") (simp_all add: getGlyphCacheInfo_def)
  obtain b m1 where b: "p = (b, m1)" by (cases p)
  have "\<not> b" using renderCache_ok(2)[OF assms(1)] p b by blast
  then show ?thesis using that(2) assms(2) None p b by (simp add: getGlyphCacheInfo_def)
next
  case (Some info)
  then show ?thesis using that(1) assms(2) by (simp add: getGlyphCacheInfo_def)
qed

lemma request_keeps:
  assumes "manager_ok T G F fonts m" "getGlyphCacheInfo T G F c m = Some (r, m')" "m_map m c' = Some info"
  shows "m_map m' c' = Some info"
  using assms(1,2)
proof (cases rule: request_cases)
  case 2
  then have "c' \<noteq> c" using assms(3) by auto
  then show ?thesis using renderCache_ok(3)[OF assms(1) 2(2) assms(3)] by blast
qed (use assms(3) in simp)

lemma request_caches:
  assumes "manager_ok T G F fonts m" "glyph_fits T fonts c" "\<forall>n. create_texture G n \<noteq> None"
  obtains r m' where "getGlyphCacheInfo T G F c m = Some (r, m')" "manager_ok T G F fonts m'" "m_map m' c \<noteq> None"
proof (cases "m_map m c")
  case None
  obtain m' info where "renderCache T G F c m = Some (False, m')" "m_map m' c = Some info"
    using render_places[OF assms] by blast
  then show ?thesis using that[of None m'] renderCache_ok(1)[OF assms(1)] None by (simp add: getGlyphCacheInfo_def)
next
  case (Some info)
  then show ?thesis using that[of "Some info" m] assms(1) by (simp add: getGlyphCacheInfo_def)
qed

lemma cache_codes_caches:
  assumes "manager_ok T G F fonts m" "\<forall>c \<in> set cs. glyph_fits T fonts c" "\<forall>n. create_texture G n \<noteq> None"
  shows "\<exists>r' m'. cache_codes T G F cs r m = Some (r', m') \<and> manager_ok T G F fonts m'
    \<and> (\<forall>c \<in> set cs. m_map m' c \<noteq> None) \<and> (\<forall>c info. m_map m c = Some info \<longrightarrow> m_map m' c = Some info)"
  using assms
proof (induction cs arbitrary: r m)
  case (Cons c cs)
  have fits: "glyph_fits T fonts c" "\<forall>c \<in> set cs. glyph_fits T fonts c" using Cons.prems(2) by simp_all
  obtain i m1 where g: "getGlyphCacheInfo T G F c m = Some (i, m1)" "manager_ok T G F fonts m1" "m_map m1 c \<noteq> None"
    using request_caches[OF Cons.prems(1) fits(1) Cons.prems(3)] by blast
  obtain r' m' where *: "cache_codes T G F cs (if i = None \<and> c \<noteq> 0x0A then False else r) m1 = Some (r', m')"
      "manager_ok T G F fonts m'" "\<forall>c \<in> set cs. m_map m' c \<noteq> None" "\<forall>c info. m_map m1 c = Some info \<longrightarrow> m_map m' c = Some info"
    using Cons.IH[OF g(2) fits(2) Cons.prems(3), of "if i = None \<and> c \<noteq> 0x0A then False else r"] by blast
  have "m_map m' c \<noteq> None" using g(3) *(4) by blast
  moreover have "m_map m' d = Some info" if "m_map m d = Some info" for d info
    using request_keeps[OF Cons.prems(1) g(1) that] *(4) by blast
  ultimately show ?case using g(1) * by (intro exI[of _ r'] exI[of _ m']) simp
qed simp

lemma cache_codes_keeps:
  "manager_ok T G F fonts m \<Longrightarrow> cache_codes T G F cs r m = Some (r', m') \<Longrightarrow> m_map m c = Some info \<Longrightarrow> m_map m' c = Some info"
proof (induction cs arbitrary: r m)
  case (Cons c' cs)
  then obtain i m1 where g: "getGlyphCacheInfo T G F c' m = Some (i, m1)" by (auto split: option.splits)
  show ?case
    using Cons.IH[OF getGlyphCacheInfo_ok(1)[OF Cons.prems(1) g]] Cons.prems(2) g request_keeps[OF Cons.prems(1) g Cons.prems(3)]
    by auto
qed simp

text \<open>The line height is that of the fonts.\<close>

lemma request_height:
  assumes "getGlyphCacheInfo T G F c m = Some (r, m')" shows "m_line_height m' = m_line_height m"
proof -
  have "m_line_height m1 = m_line_height m" if "renderCache T G F c m = Some (b, m1)" for b m1
    using that by (auto simp: renderCache_def Let_def split: option.splits prod.splits)
  then show ?thesis using assms by (auto simp: getGlyphCacheInfo_def split: option.splits bool.splits)
qed

lemma cache_codes_height: "cache_codes T G F cs r m = Some (r', m') \<Longrightarrow> m_line_height m' = m_line_height m"
proof (induction cs arbitrary: r m)
  case (Cons c cs)
  then obtain i m1 where g: "getGlyphCacheInfo T G F c m = Some (i, m1)" by (auto split: option.splits)
  then show ?case using Cons request_height[OF g] by auto
qed simp

lemma flush_live_works:
  assumes "live ts" "accepts_upload G" shows "\<exists>ts'. flush_textures G ts = Some (True, ts')"
  using assms
proof (induction ts)
  case (Cons t ts)
  moreover obtain tex where "gc_texture t = Some tex" using Cons.prems(1) by (cases "gc_texture t") (auto simp: live_def)
  ultimately show ?case by (auto simp: live_def)
qed simp

lemma getGlyph_hit: "m_map m c = Some g \<Longrightarrow> getGlyph T G F c True m = Some (True, Some g, m)"
  by (simp add: getGlyph_def getGlyphCacheInfo_def)

text \<open>The blank is cached from the start.\<close>

lemma reach_blank:
  assumes "glyph_reach T G F fonts m" "\<forall>n. create_texture G n \<noteq> None" "glyph_fits T fonts 0x20"
  shows "m_map m 0x20 \<noteq> None"
  using assms(1)
proof (induction rule: glyph_reach.induct)
  case (created line_height m)
  let ?m = "\<lparr>m_line_height = line_height, m_font = fonts, m_tex = snd (addTexture G []), m_map = Map.empty\<rparr>"
  have ok: "manager_ok T G F fonts ?m"
    using add_texture_ok[of "[]" "[]" G] add_texture_live[of G "[]"] unfolding manager_ok_def by (auto simp: live_def)
  obtain m' info where m': "renderCache T G F 0x20 ?m = Some (False, m')" "m_map m' 0x20 = Some info"
    using render_places[OF ok assms(3,2)] by blast
  obtain r ts where a: "addTexture G [] = (r, ts)" by fastforce
  have "r" using created a by (cases r) (simp_all add: new_manager_def)
  then have "m = m'" using created a m'(1) by (simp add: new_manager_def cacheGlyph_def getGlyphCacheInfo_def)
  then show ?case using m'(2) by simp
next
  case (glyph m c no_render r info m')
  then obtain i m1 where g: "getGlyphCacheInfo T G F c m = Some (i, m1)" by (auto simp: getGlyph_def split: option.splits)
  note ok = reach_ok[OF glyph.hyps(1)]
  have "m_map m1 0x20 \<noteq> None" using request_keeps[OF ok g] glyph.IH by auto
  moreover have "m_map m' = m_map m1"
    using glyph.hyps(2) g flush_ok(3)[OF getGlyphCacheInfo_ok(1)[OF ok g]]
    by (auto simp: getGlyph_def split: option.splits if_splits)
  ultimately show ?case by simp
next
  case (string m str r m')
  then show ?case using cache_codes_keeps[OF reach_ok[OF string.hyps(1)]] by (auto simp: cacheString_def)
next
  case (flushed m r m')
  then show ?case using flush_ok(3)[OF reach_ok[OF flushed.hyps(1)]] by simp
next
  case (lost m f)
  then show ?case by (simp add: retexture_def onDeviceDestroy_def)
qed

subsection \<open>Layout\<close>

text \<open>
  The specification of drawing: the quads of the visible characters of a text from left to right,
  and the pen after it.
\<close>

fun layout :: "'f text_floats \<Rightarrow> 'f \<times> 'f \<Rightarrow> ('f, 'p) pen_ops \<Rightarrow> 'f \<times> 'f \<Rightarrow> (u32 \<Rightarrow> 'f glyph_info) \<Rightarrow> u32 list \<Rightarrow> 'p
    \<Rightarrow> 'f quad list \<times> 'p" where
  "layout A s P space glyph [] pen = ([], pen)"
| "layout A s P space glyph (c # cs) pen =
    (if c = 0x0A then layout A s P space glyph cs (pen_newline P pen)
     else if c = 0x20 then layout A s P space glyph cs (pen_advance P space pen)
     else let (qs, pen') = layout A s P space glyph cs (pen_advance P (scale_advance A s (glyph c)) pen)
       in (pen_quad P (scale_glyph A s (glyph c)) pen # qs, pen'))"

text \<open>What drawing asks of a pen: the quad of a glyph belongs to the texture of the glyph.\<close>

locale text_pen =
  fixes P :: "('f, 'p) pen_ops"
  assumes quad_texture: "fst (pen_quad P g p) = gi_texture_index g"
begin

lemma draw_pass_layout:
  assumes "\<And>c. c \<in> set cs \<Longrightarrow> c \<noteq> 0x0A \<Longrightarrow> c \<noteq> 0x20 \<Longrightarrow> m_map m c = Some (glyph c) \<and> has_texture m (gi_texture_index (glyph c))"
  shows "draw_pass T G F A s P space only cs pen m qs = Some (True, snd (layout A s P space glyph cs pen), m,
    qs @ filter (\<lambda>q. only = None \<or> only = Some (fst q)) (fst (layout A s P space glyph cs pen)))"
  using assms
proof (induction cs arbitrary: pen qs)
  case (Cons c cs)
  show ?case
  proof (cases "c = 0x0A \<or> c = 0x20")
    case True
    then show ?thesis using Cons by auto
  next
    case False
    then have h: "getGlyph T G F c True m = Some (True, Some (glyph c), m)" "has_texture m (gi_texture_index (glyph c))"
      using Cons.prems[of c] getGlyph_hit by auto
    have "fst (pen_quad P (scale_glyph A s (glyph c)) pen) = gi_texture_index (glyph c)"
      by (simp add: quad_texture scale_glyph_def)
    then show ?thesis using False Cons h by (auto simp: case_prod_unfold Let_def)
  qed
qed simp

lemma draw_textures_layout:
  assumes "\<And>c. c \<in> set cs \<Longrightarrow> c \<noteq> 0x0A \<Longrightarrow> c \<noteq> 0x20 \<Longrightarrow> m_map m c = Some (glyph c) \<and> has_texture m (gi_texture_index (glyph c))"
    and "idx \<le> length (m_tex m)"
  shows "draw_textures T G F A s P space cs start idx pen m qs = Some (True,
    if idx < length (m_tex m) then snd (layout A s P space glyph cs start) else pen, m,
    qs @ concat (map (\<lambda>i. filter (\<lambda>q. fst q = of_nat i) (fst (layout A s P space glyph cs start))) [idx..<length (m_tex m)]))"
  using assms(2)
proof (induction "length (m_tex m) - idx" arbitrary: idx pen qs)
  case 0
  then show ?case by (subst draw_textures.simps) simp
next
  case (Suc n)
  then have lt: "idx < length (m_tex m)" by simp
  have eq: "(\<lambda>q :: 'f quad. of_nat idx = fst q) = (\<lambda>q. fst q = of_nat idx)" by auto
  have "n = length (m_tex m) - (idx + 1)" "idx + 1 \<le> length (m_tex m)" using Suc.hyps(2) lt by simp_all
  note ih = Suc.hyps(1)[OF this]
  show ?case
    by (subst draw_textures.simps)
      (simp add: lt draw_pass_layout[OF assms(1)] ih[simplified] eq upt_conv_Cons[OF lt] del: upt_Suc)
qed

end


interpretation in_space: text_pen "space_pen A R right_vec down_vec line_height" for A R right_vec down_vec line_height
  by unfold_locales (auto simp: space_pen_def glyph_quad_in_space_def Let_def split: prod.splits)

subsection \<open>A whole text\<close>

lemma concat_only: "concat (map (\<lambda>i. if i = k then xs else []) [0..<n]) = (if k < n then xs else [])"
  by (induction n) auto

lemma filter_concat: "filter p (concat xss) = concat (map (filter p) xss)"
  by (induction xss) auto

lemma concat_blank: "(\<And>i. i < n \<Longrightarrow> f i = []) \<Longrightarrow> concat (map f [0..<n]) = []"
  by simp

text \<open>Drawing texture by texture keeps the quads of each texture and their order.\<close>

lemma texture_passes:
  assumes "n \<le> 2 ^ 32" "\<And>q. q \<in> set l \<Longrightarrow> unat (fst q :: u32) < n"
  shows "filter (\<lambda>q. fst q = t) (concat (map (\<lambda>i. filter (\<lambda>q. fst q = of_nat i) l) [0..<n])) = filter (\<lambda>q. fst q = t) l"
proof -
  have u: "of_nat i = t \<longleftrightarrow> i = unat t" if "i < n" for i
    using that assms(1) take_bit_nat_eq_self[of i 32] by (auto simp: unsigned_of_nat)
  have "filter (\<lambda>q. fst q = t) (filter (\<lambda>q. fst q = of_nat i) l) = (if i = unat t then filter (\<lambda>q. fst q = t) l else [])"
    if "i < n" for i
    using u[OF that] by (auto simp: filter_empty_conv intro: filter_cong)
  then have "map (\<lambda>i. filter (\<lambda>q. fst q = t) (filter (\<lambda>q. fst q = of_nat i) l)) [0..<n]
      = map (\<lambda>i. if i = unat t then filter (\<lambda>q. fst q = t) l else []) [0..<n]" by simp
  then have "filter (\<lambda>q. fst q = t) (concat (map (\<lambda>i. filter (\<lambda>q. fst q = of_nat i) l) [0..<n]))
      = (if unat t < n then filter (\<lambda>q. fst q = t) l else [])"
    unfolding filter_concat map_map o_def by (simp only: concat_only)
  moreover have "filter (\<lambda>q. fst q = t) l = []" if "\<not> unat t < n"
    using that assms(2) by (auto simp: filter_empty_conv)
  ultimately show ?thesis by simp
qed

context text_pen begin

lemma layout_textures:
  "q \<in> set (fst (layout A s P space glyph cs pen)) \<Longrightarrow> \<exists>c \<in> set cs. c \<noteq> 0x0A \<and> c \<noteq> 0x20 \<and> fst q = gi_texture_index (glyph c)"
  by (induction cs arbitrary: pen) (auto simp: Let_def case_prod_unfold quad_texture scale_glyph_def split: if_splits)

lemma draw_layout:
  assumes "\<And>c. c \<in> set cs \<Longrightarrow> c \<noteq> 0x0A \<Longrightarrow> c \<noteq> 0x20 \<Longrightarrow> m_map m c = Some (glyph c) \<and> has_texture m (gi_texture_index (glyph c))"
    and "m_tex m \<noteq> []"
  shows "\<exists>qs. (if length (m_tex m) \<le> 1 then draw_pass T G F A s P space None cs pen m []
      else draw_textures T G F A s P space cs pen 0 pen m []) = Some (True, snd (layout A s P space glyph cs pen), m, qs)
    \<and> (length (m_tex m) \<le> 2 ^ 32 \<longrightarrow> (\<forall>t. filter (\<lambda>q. fst q = t) qs = filter (\<lambda>q. fst q = t) (fst (layout A s P space glyph cs pen))))"
proof -
  have "unat (fst q) < length (m_tex m)" if "q \<in> set (fst (layout A s P space glyph cs pen))" for q
    using layout_textures[OF that] assms(1) by (auto simp: has_texture_def)
  note passes = texture_passes[OF _ this]
  show ?thesis
  proof (cases "length (m_tex m) \<le> 1")
    case True
    have "draw_pass T G F A s P space None cs pen m [] = Some (True, snd (layout A s P space glyph cs pen), m,
        fst (layout A s P space glyph cs pen))"
      using draw_pass_layout[OF assms(1), where only = None and qs = "[]"] by simp
    then show ?thesis using True by simp
  next
    case False
    then show ?thesis
      using draw_textures_layout[OF assms(1), where idx = 0 and qs = "[]"] assms(2) passes by simp
  qed
qed

end

text \<open>Every character of the text and the blank have glyphs that can be stored.\<close>

definition text_fits :: "freetype \<Rightarrow> font_data list \<Rightarrow> u8 list \<Rightarrow> bool" where
  "text_fits T fonts str \<longleftrightarrow> (\<forall>c \<in> insert 0x20 (set (codes_of str)). glyph_fits T fonts c)"

text \<open>What drawing promises of its result.\<close>

definition drawn_as_laid_out :: "freetype \<Rightarrow> 'f glyph_floats \<Rightarrow> 'f text_floats \<Rightarrow> font_data list \<Rightarrow> 'f \<Rightarrow> 'f text_renderer
    \<Rightarrow> ('f \<Rightarrow> ('f, 'p) pen_ops) \<Rightarrow> u8 list \<Rightarrow> 'p \<Rightarrow> (bool \<times> 'p \<times> 'f glyph_manager option \<times> 'f quad list) option \<Rightarrow> bool" where
  "drawn_as_laid_out T F A fonts h R P str start result \<longleftrightarrow> (\<exists>m qs glyph l pen. result = Some (True, pen, Some m, qs)
     \<and> (\<forall>c \<in> insert 0x20 (set (codes_of str)). \<exists>g p. glyph_stands T F fonts m c (glyph c) g p)
     \<and> layout A (m_scale R) (P (f_mul A h (snd (m_scale R)))) (scale_advance A (m_scale R) (glyph 0x20))
         glyph (codes_of str) start = (l, pen)
     \<and> (length (m_tex m) \<le> 2 ^ 32 \<longrightarrow> (\<forall>t. filter (\<lambda>q. fst q = t) qs = filter (\<lambda>q. fst q = t) l)))"

lemma live_has_texture:
  assumes "live (m_tex m)" "glyph_shown T F fonts m c g" shows "has_texture m (gi_texture_index g)"
proof -
  obtain i where i: "i < length (m_tex m)" "gi_texture_index g = of_nat i" using assms(2) unfolding glyph_shown_def by blast
  have "unat (of_nat i :: u32) \<le> i" by (simp add: unsigned_of_nat take_bit_nat_less_eq_self)
  then have "unat (gi_texture_index g) < length (m_tex m)" using i by simp
  moreover from this have "gc_texture (m_tex m ! unat (gi_texture_index g)) \<noteq> None"
    using assms(1) nth_mem[of "unat (gi_texture_index g)" "m_tex m"] unfolding live_def set_map by (metis image_eqI)
  ultimately show ?thesis by (simp add: has_texture_def)
qed

lemma draw_text_with_layout:
  assumes "glyph_reach T G F fonts m" "\<forall>n. create_texture G n \<noteq> None" "accepts_upload G" "text_fits T fonts str"
    and pens: "\<And>h. text_pen (P h)"
  shows "drawn_as_laid_out T F A fonts (m_line_height m) R P str start
    (draw_text_with T G F A R P str start (Some m))"
proof -
  have fits: "\<forall>c \<in> set (codes_of str). glyph_fits T fonts c" "glyph_fits T fonts 0x20"
    using assms(4) by (simp_all add: text_fits_def)
  obtain r m1 where m1: "cacheString T G F str m = Some (r, m1)" "manager_ok T G F fonts m1"
      "\<forall>c \<in> set (codes_of str). m_map m1 c \<noteq> None" "\<forall>c info. m_map m c = Some info \<longrightarrow> m_map m1 c = Some info"
    using cache_codes_caches[OF reach_ok[OF assms(1)] fits(1) assms(2), of True] by (auto simp: cacheString_def codes_of_def)
  have "live (m_tex m1)" using m1(2) assms(2) by (simp add: manager_ok_def)
  then obtain m2 where m2: "flush G m1 = Some (True, m2)"
    using flush_live_works[OF _ assms(3)] by (fastforce simp: flush_def)
  note ok = flush_ok[OF m1(2) m2]
  define glyph where "glyph c = the (m_map m2 c)" for c
  have glyph: "m_map m2 c = Some (glyph c)" if "c \<in> insert 0x20 (set (codes_of str))" for c
    using that m1(3,4) reach_blank[OF assms(1,2) fits(2)] ok(3) unfolding glyph_def by (cases "m_map m2 c") auto
  have stands: "\<exists>g p. glyph_stands T F fonts m2 c (glyph c) g p" if "c \<in> insert 0x20 (set (codes_of str))" for c
    using clean_stands[OF ok(1) ok(2) glyph[OF that]] by blast
  have shown: "glyph_shown T F fonts m2 c (glyph c)" if "c \<in> insert 0x20 (set (codes_of str))" for c
    using clean_shows[OF ok(1) ok(2) glyph[OF that]] by blast
  have height: "m_line_height m2 = m_line_height m"
    using m2 cache_codes_height[of T G F "codes_of str" True m r m1] m1(1)
    by (auto simp: flush_def cacheString_def codes_of_def)
  have live: "live (m_tex m2)" using ok(1) assms(2) by (simp add: manager_ok_def)
  let ?P = "P (f_mul A (m_line_height m) (snd (m_scale R)))"
  let ?space = "scale_advance A (m_scale R) (glyph 0x20)"
  have all: "m_map m2 c = Some (glyph c) \<and> has_texture m2 (gi_texture_index (glyph c))" if "c \<in> set (codes_of str)" for c
    using glyph[of c] live_has_texture[OF live shown[of c]] that by simp
  have "m_tex m2 \<noteq> []" using shown[of "0x20"] by (auto simp: glyph_shown_def)
  then obtain qs where qs: "(if length (m_tex m2) \<le> 1 then draw_pass T G F A (m_scale R) ?P ?space None (codes_of str) start m2 []
        else draw_textures T G F A (m_scale R) ?P ?space (codes_of str) start 0 start m2 [])
        = Some (True, snd (layout A (m_scale R) ?P ?space glyph (codes_of str) start), m2, qs)"
      "length (m_tex m2) \<le> 2 ^ 32 \<longrightarrow> (\<forall>t. filter (\<lambda>q. fst q = t) qs
         = filter (\<lambda>q. fst q = t) (fst (layout A (m_scale R) ?P ?space glyph (codes_of str) start)))"
    using text_pen.draw_layout[OF pens, where cs = "codes_of str" and m = m2 and glyph = glyph, OF all] by blast
  have "getGlyph T G F 0x20 True m2 = Some (True, Some (glyph 0x20), m2)" using getGlyph_hit[OF glyph[of "0x20"]] by simp
  then have "draw_text_with T G F A R P str start (Some m)
      = Some (True, snd (layout A (m_scale R) ?P ?space glyph (codes_of str) start), Some m2, qs)"
    using m1(1) m2 qs(1) by (simp add: draw_text_with_def Let_def height split del: if_split cong del: if_weak_cong)
  then show ?thesis
    unfolding drawn_as_laid_out_def using stands qs(2) by (intro exI[of _ m2] exI[of _ qs] exI[of _ glyph] exI conjI) auto
qed

subsection \<open>The first measurement\<close>

lemma renderCache_other:
  assumes "renderCache T G F c m = Some (r, m')" "c' \<noteq> c" shows "m_map m' c' = m_map m c'"
proof (cases "findGlyph T (m_font m) c")
  case (Some fi)
  then obtain face index where f: "findGlyph T (m_font m) c = Some (face, index)" by (cases fi) simp
  then show ?thesis
    using assms by (cases "writeBitmapToCache G F (g_bitmap (load_glyph T face index)) (m_tex m)")
      (auto simp: renderCache_def Let_def split: option.splits prod.splits)
qed (use assms in \<open>simp add: renderCache_def\<close>)

lemma measure_missing:
  assumes "manager_ok T G F fonts m" "\<forall>n. create_texture G n \<noteq> None" "distinct cs" "0x0A \<notin> set cs"
    and "\<forall>c \<in> set cs. m_map m c = None \<and> glyph_fits T fonts c"
  shows "\<exists>m'. measure_codes T G F A visit cs pos rect u m = Some (pos, rect, u, m') \<and> manager_ok T G F fonts m'
    \<and> (\<forall>c \<in> set cs. m_map m' c \<noteq> None) \<and> (\<forall>c. c \<notin> set cs \<longrightarrow> m_map m' c = m_map m c)"
  using assms
proof (induction cs arbitrary: m)
  case (Cons c cs)
  have c: "m_map m c = None" "glyph_fits T fonts c" "c \<noteq> 0x0A" using Cons.prems(4,5) by auto
  obtain m1 info where m1: "renderCache T G F c m = Some (False, m1)" "m_map m1 c = Some info"
    using render_places[OF Cons.prems(1) c(2) Cons.prems(2)] by blast
  have other: "m_map m1 d = m_map m d" if "d \<noteq> c" for d using renderCache_other[OF m1(1) that] .
  have "\<forall>d \<in> set cs. m_map m1 d = None \<and> glyph_fits T fonts d"
    using Cons.prems(3,5) other by (metis distinct.simps(2) list.set_intros(2))
  moreover have "distinct cs" "0x0A \<notin> set cs" using Cons.prems(3,4) by simp_all
  ultimately obtain m' where m': "measure_codes T G F A visit cs pos rect u m1 = Some (pos, rect, u, m')"
      "manager_ok T G F fonts m'" "\<forall>c \<in> set cs. m_map m' c \<noteq> None" "\<forall>c. c \<notin> set cs \<longrightarrow> m_map m' c = m_map m1 c"
    using Cons.IH[OF renderCache_ok(1)[OF Cons.prems(1) m1(1)] Cons.prems(2)] by blast
  have "getGlyph T G F c True m = Some (False, None, m1)" using m1(1) c(1) by (simp add: getGlyph_def getGlyphCacheInfo_def)
  moreover have "m_map m' c = Some info" using m'(4) m1(2) Cons.prems(3) by simp
  ultimately show ?case using m' c(3) other by (intro exI[of _ m']) auto
qed simp

text \<open>The pen after the characters of a text without line feeds.\<close>

definition advance_of :: "'f text_floats \<Rightarrow> (u32 \<Rightarrow> 'f glyph_info) \<Rightarrow> u32 list \<Rightarrow> 'f \<times> 'f \<Rightarrow> 'f \<times> 'f" where
  "advance_of A glyph cs pos = foldl (\<lambda>p c. (f_add A (fst p) (fst (gi_advance (glyph c))),
     f_add A (snd p) (snd (gi_advance (glyph c))))) pos cs"

lemma measure_cached:
  assumes "\<And>c. c \<in> set cs \<Longrightarrow> m_map m c = Some (glyph c)" "0x0A \<notin> set cs"
  shows "measure_codes T G F A (\<lambda>_ _ r. r) cs pos rect u m = Some (advance_of A glyph cs pos, rect, u \<or> cs \<noteq> [], m)"
  using assms
proof (induction cs arbitrary: pos u)
  case (Cons c cs)
  then have c: "m_map m c = Some (glyph c)" "c \<noteq> 0x0A" by auto
  note hit = getGlyph_hit[OF c(1), of T G F]
  have "measure_codes T G F A (\<lambda>_ _ r. r) cs p rect True m = Some (advance_of A glyph cs p, rect, True, m)" for p
    using Cons.IH[of p True] Cons.prems by simp
  then show ?case using c(2) hit by (simp add: advance_of_def)
qed (simp add: advance_of_def)

subsection \<open>Properties\<close>














lemma text_drawn_in_space:
  assumes "glyph_reach T G F fonts m" "\<forall>n. create_texture G n \<noteq> None" "accepts_upload G" "text_fits T fonts str"
  shows "drawn_as_laid_out T F A fonts (m_line_height m) R (space_pen A R right_vec down_vec) str (start, start)
    (draw_text_with T G F A R (space_pen A R right_vec down_vec) str (start, start) (Some m))"
  using assms by (rule draw_text_with_layout) (rule in_space.text_pen_axioms)

definition demo_text_floats :: "int text_floats" where
  "demo_text_floats = \<lparr>f_add = (+), f_sub = (-), f_mul = (*), f_min = min, f_max = max, flt_max = 1000, flt_lowest = -1000,
     f_half = 0\<rparr>"

definition demo_text :: "u8 list" where "demo_text = [0x41]"

lemma demo_codes: "codes_of demo_text = [0x41]"
  by (simp add: codes_of_def demo_text_def) code_simp

lemma demo_text_fits: "text_fits demo_freetype demo_fonts demo_text" "\<forall>n. create_texture demo_gpu n \<noteq> None" "accepts_upload demo_gpu"
  by (simp_all add: text_fits_def demo_codes glyph_fits_def demo_glyph demo_bitmap_size demo_gpu_def)


text \<open>
  The first measurement of new characters misses them.  A text of distinct characters none
  of which is cached measures as empty, since every request renders the glyph and reports failure;
  the same measurement made again gives the scaled sum of the advances.
\<close>

theorem first_measure_misses:
  assumes "glyph_reach T G F fonts m" "\<forall>n. create_texture G n \<noteq> None" "codes_of str \<noteq> []" "distinct (codes_of str)"
    "0x0A \<notin> set (codes_of str)" "\<forall>c \<in> set (codes_of str). m_map m c = None \<and> glyph_fits T fonts c"
  shows "\<exists>m' glyph. getTextAdvance T G F A R str (Some m) = Some ((f_of F 0, f_of F 0), Some m')
    \<and> (\<forall>c \<in> set (codes_of str). m_map m' c = Some (glyph c))
    \<and> getTextAdvance T G F A R str (Some m') = Some ((case advance_of A glyph (codes_of str) (f_of F 0, f_of F 0) of
        (x, y) \<Rightarrow> (f_mul A x (fst (m_scale R)), f_mul A y (snd (m_scale R)))), Some m')"
proof -
  obtain m' where m': "measure_codes T G F A (\<lambda>_ _ r. r) (codes_of str) (f_of F 0, f_of F 0) () False m
        = Some ((f_of F 0, f_of F 0), (), False, m')" "\<forall>c \<in> set (codes_of str). m_map m' c \<noteq> None"
    using measure_missing[OF reach_ok[OF assms(1)] assms(2,4-6), of A "\<lambda>_ _ r. r" "(f_of F 0, f_of F 0)" "()" False] by blast
  have g: "m_map m' c = Some (the (m_map m' c))" if "c \<in> set (codes_of str)" for c using m'(2) that by auto
  note again = measure_cached[where glyph = "\<lambda>c. the (m_map m' c)", OF g assms(5), of T G F A "(f_of F 0, f_of F 0)" "()" False]
  show ?thesis
    using m'(1) g again assms(3)
    by (intro exI[of _ m'] exI[of _ "\<lambda>c. the (m_map m' c)"]) (simp add: getTextAdvance_def Let_def case_prod_unfold)
qed

theorem first_measure_misses_witness:
  "\<exists>m m' a. getTextAdvance demo_freetype demo_gpu demo_glyph_floats demo_text_floats
       (new_text_renderer demo_glyph_floats demo_text_floats) demo_text (Some m) = Some ((0, 0), Some m')
     \<and> getTextAdvance demo_freetype demo_gpu demo_glyph_floats demo_text_floats
       (new_text_renderer demo_glyph_floats demo_text_floats) demo_text (Some m') = Some (a, Some m')"
proof -
  obtain m where d: "glyph_reach demo_freetype demo_gpu demo_glyph_floats demo_fonts m" "m_map m 0x41 = None"
    by (rule demo_glyph_manager)
  have "codes_of demo_text \<noteq> []" "distinct (codes_of demo_text)" "0x0A \<notin> set (codes_of demo_text)"
    by (simp_all add: demo_codes)
  moreover have "\<forall>c \<in> set (codes_of demo_text). m_map m c = None \<and> glyph_fits demo_freetype demo_fonts c"
    using d(2) demo_text_fits(1) by (simp add: text_fits_def demo_codes)
  ultimately obtain m' glyph where m': "getTextAdvance demo_freetype demo_gpu demo_glyph_floats demo_text_floats
       (new_text_renderer demo_glyph_floats demo_text_floats) demo_text (Some m) = Some ((f_of demo_glyph_floats 0, f_of demo_glyph_floats 0), Some m')"
     "getTextAdvance demo_freetype demo_gpu demo_glyph_floats demo_text_floats
       (new_text_renderer demo_glyph_floats demo_text_floats) demo_text (Some m') = Some ((case advance_of demo_text_floats glyph
          (codes_of demo_text) (f_of demo_glyph_floats 0, f_of demo_glyph_floats 0) of
        (x, y) \<Rightarrow> (f_mul demo_text_floats x (fst (m_scale (new_text_renderer demo_glyph_floats demo_text_floats))),
          f_mul demo_text_floats y (snd (m_scale (new_text_renderer demo_glyph_floats demo_text_floats))))), Some m')"
    using first_measure_misses[OF d(1) demo_text_fits(2), of demo_text demo_text_floats] by blast
  have "f_of demo_glyph_floats 0 = 0" by (simp add: demo_glyph_floats_def)
  then show ?thesis using m' by (intro exI conjI) auto
qed

end
