(* ===== verification/MessageQueue.thy ===== *)
theory MessageQueue
  imports Prelude
begin

text \<open>
  The message queue (\<open>FixedLengthMessageQueue\<close>): two counting semaphores and two atomic
  counters around an array.  Each semaphore operation, each \<open>fetch_add\<close> and each access to the
  array is one step, and the steps of the threads interleave freely.
\<close>

subsection \<open>State\<close>

record 'a message_queue =
  mq_data :: "'a list"
  m_write_index :: u64
  m_read_index :: u64
  m_space_available :: nat
  m_data_available :: nat

text \<open>An array of \<open>n\<close> default values \<open>d\<close>.\<close>

definition new_message_queue :: "nat \<Rightarrow> 'a \<Rightarrow> 'a message_queue" where
  "new_message_queue n d = \<lparr>mq_data = replicate n d, m_write_index = 0, m_read_index = 0,
     m_space_available = n, m_data_available = 0\<rparr>"

definition mq_slot :: "'a message_queue \<Rightarrow> u64 \<Rightarrow> nat" where
  "mq_slot q i = unat (i mod of_nat (length (mq_data q)))"

text \<open>How far a thread is in \<open>put\<close> or in \<open>get\<close>.\<close>

datatype 'a put_pc = PutIdle | PutAcquire 'a | PutReserve 'a | PutStore u64 'a | PutRelease 'a

datatype 'a get_pc = GetIdle | GetAcquire | GetReserve | GetLoad u64 | GetRelease 'a

subsection \<open>The steps of put\<close>

definition put_acquire :: "'a put_pc \<Rightarrow> 'a message_queue \<Rightarrow> ('a put_pc \<times> 'a message_queue) option" where
  "put_acquire pc q = (case pc of PutAcquire v \<Rightarrow> if m_space_available q = 0 then None
       else Some (PutReserve v, q\<lparr>m_space_available := m_space_available q - 1\<rparr>)
     | _ \<Rightarrow> None)"

definition put_reserve :: "'a put_pc \<Rightarrow> 'a message_queue \<Rightarrow> ('a put_pc \<times> 'a message_queue) option" where
  "put_reserve pc q = (case pc of PutReserve v \<Rightarrow>
       Some (PutStore (m_write_index q) v, q\<lparr>m_write_index := m_write_index q + 1\<rparr>) | _ \<Rightarrow> None)"

definition put_store :: "'a put_pc \<Rightarrow> 'a message_queue \<Rightarrow> ('a put_pc \<times> 'a message_queue) option" where
  "put_store pc q = (case pc of PutStore i v \<Rightarrow>
       Some (PutRelease v, q\<lparr>mq_data := (mq_data q)[mq_slot q i := v]\<rparr>) | _ \<Rightarrow> None)"

text \<open>A release beyond the maximum of the semaphore is undefined: no value.\<close>

definition put_release :: "'a put_pc \<Rightarrow> 'a message_queue \<Rightarrow> ('a put_pc \<times> 'a message_queue) option" where
  "put_release pc q = (case pc of PutRelease v \<Rightarrow> if m_data_available q < length (mq_data q)
       then Some (PutIdle, q\<lparr>m_data_available := m_data_available q + 1\<rparr>) else None | _ \<Rightarrow> None)"

subsection \<open>The steps of get\<close>

definition get_acquire :: "'a get_pc \<Rightarrow> 'a message_queue \<Rightarrow> ('a get_pc \<times> 'a message_queue) option" where
  "get_acquire pc q = (case pc of GetAcquire \<Rightarrow> if m_data_available q = 0 then None
       else Some (GetReserve, q\<lparr>m_data_available := m_data_available q - 1\<rparr>)
     | _ \<Rightarrow> None)"

definition get_reserve :: "'a get_pc \<Rightarrow> 'a message_queue \<Rightarrow> ('a get_pc \<times> 'a message_queue) option" where
  "get_reserve pc q = (case pc of GetReserve \<Rightarrow>
       Some (GetLoad (m_read_index q), q\<lparr>m_read_index := m_read_index q + 1\<rparr>) | _ \<Rightarrow> None)"

definition get_load :: "'a get_pc \<Rightarrow> 'a message_queue \<Rightarrow> ('a get_pc \<times> 'a message_queue) option" where
  "get_load pc q = (case pc of GetLoad i \<Rightarrow> Some (GetRelease (mq_data q ! mq_slot q i), q) | _ \<Rightarrow> None)"

definition get_release :: "'a get_pc \<Rightarrow> 'a message_queue \<Rightarrow> ('a get_pc \<times> 'a message_queue) option" where
  "get_release pc q = (case pc of GetRelease v \<Rightarrow> if m_space_available q < length (mq_data q)
       then Some (GetIdle, q\<lparr>m_space_available := m_space_available q + 1\<rparr>) else None | _ \<Rightarrow> None)"

subsection \<open>Threads\<close>

text \<open>
  The threads that put and the threads that get, by number, with the values whose \<open>put\<close> has
  returned and the values \<open>get\<close> has returned, in the order of the returns.
\<close>

record 'a mq_system =
  mq :: "'a message_queue"
  putters :: "nat \<Rightarrow> 'a put_pc"
  getters :: "nat \<Rightarrow> 'a get_pc"
  put_log :: "'a list"
  get_log :: "'a list"

definition mq_start :: "nat \<Rightarrow> 'a \<Rightarrow> 'a mq_system" where
  "mq_start n d = \<lparr>mq = new_message_queue n d, putters = (\<lambda>_. PutIdle), getters = (\<lambda>_. GetIdle), put_log = [], get_log = []\<rparr>"

definition put_to :: "nat \<Rightarrow> ('a put_pc \<times> 'a message_queue) \<Rightarrow> 'a mq_system \<Rightarrow> 'a mq_system" where
  "put_to p r s = s\<lparr>mq := snd r, putters := (putters s)(p := fst r)\<rparr>"

definition get_to :: "nat \<Rightarrow> ('a get_pc \<times> 'a message_queue) \<Rightarrow> 'a mq_system \<Rightarrow> 'a mq_system" where
  "get_to g r s = s\<lparr>mq := snd r, getters := (getters s)(g := fst r)\<rparr>"

text \<open>
  A step of the system.  The thread \<open>p\<close> or \<open>g\<close> calls, moves on, gives up waiting (the variant with
  a timeout, which then returns \<open>false\<close>), or returns.
\<close>

inductive mq_step :: "'a mq_system \<Rightarrow> 'a mq_system \<Rightarrow> bool" where
  put_call: "putters s p = PutIdle \<Longrightarrow> mq_step s (s\<lparr>putters := (putters s)(p := PutAcquire v)\<rparr>)"
| put_timeout: "putters s p = PutAcquire v \<Longrightarrow> mq_step s (s\<lparr>putters := (putters s)(p := PutIdle)\<rparr>)"
| put_acquire: "put_acquire (putters s p) (mq s) = Some r \<Longrightarrow> mq_step s (put_to p r s)"
| put_reserve: "put_reserve (putters s p) (mq s) = Some r \<Longrightarrow> mq_step s (put_to p r s)"
| put_store: "put_store (putters s p) (mq s) = Some r \<Longrightarrow> mq_step s (put_to p r s)"
| put_return: "putters s p = PutRelease v \<Longrightarrow> put_release (putters s p) (mq s) = Some r
    \<Longrightarrow> mq_step s (put_to p r s\<lparr>put_log := put_log s @ [v]\<rparr>)"
| get_call: "getters s g = GetIdle \<Longrightarrow> mq_step s (s\<lparr>getters := (getters s)(g := GetAcquire)\<rparr>)"
| get_timeout: "getters s g = GetAcquire \<Longrightarrow> mq_step s (s\<lparr>getters := (getters s)(g := GetIdle)\<rparr>)"
| get_acquire: "get_acquire (getters s g) (mq s) = Some r \<Longrightarrow> mq_step s (get_to g r s)"
| get_reserve: "get_reserve (getters s g) (mq s) = Some r \<Longrightarrow> mq_step s (get_to g r s)"
| get_load: "get_load (getters s g) (mq s) = Some r \<Longrightarrow> mq_step s (get_to g r s)"
| get_return: "getters s g = GetRelease v \<Longrightarrow> get_release (getters s g) (mq s) = Some r
    \<Longrightarrow> mq_step s (get_to g r s\<lparr>get_log := get_log s @ [v]\<rparr>)"

inductive mq_reach :: "nat \<Rightarrow> 'a \<Rightarrow> 'a mq_system \<Rightarrow> bool" for n d where
  start: "mq_reach n d (mq_start n d)"
| step: "mq_reach n d s \<Longrightarrow> mq_step s s' \<Longrightarrow> mq_reach n d s'"

text \<open>At most the thread 0 puts and at most the thread 0 gets.\<close>

definition one_putter :: "'a mq_system \<Rightarrow> bool" where
  "one_putter s \<longleftrightarrow> (\<forall>p. p \<noteq> 0 \<longrightarrow> putters s p = PutIdle)"

definition one_getter :: "'a mq_system \<Rightarrow> bool" where
  "one_getter s \<longleftrightarrow> (\<forall>g. g \<noteq> 0 \<longrightarrow> getters s g = GetIdle)"

inductive mq_reach1 :: "nat \<Rightarrow> 'a \<Rightarrow> 'a mq_system \<Rightarrow> bool" for n d where
  start1: "mq_reach1 n d (mq_start n d)"
| step1: "mq_reach1 n d s \<Longrightarrow> mq_step s s' \<Longrightarrow> one_putter s' \<Longrightarrow> one_getter s' \<Longrightarrow> mq_reach1 n d s'"

lemmas mq_defs [guard_defs] = put_acquire_def put_reserve_def put_store_def put_release_def
  get_acquire_def get_reserve_def get_load_def get_release_def

inductive_cases mq_stepE: "mq_step s s'"

subsection \<open>Schedules\<close>

text \<open>A schedule fixes who moves; \<open>mq_run\<close> follows it.\<close>

datatype 'a mq_event = PutCall nat 'a | PutMove nat | GetCall nat | GetMove nat

definition mq_put_move :: "nat \<Rightarrow> 'a mq_system \<Rightarrow> 'a mq_system option" where
  "mq_put_move p s = (case putters s p of PutIdle \<Rightarrow> None
     | PutAcquire v \<Rightarrow> map_option (\<lambda>r. put_to p r s) (MessageQueue.put_acquire (putters s p) (mq s))
     | PutReserve v \<Rightarrow> map_option (\<lambda>r. put_to p r s) (MessageQueue.put_reserve (putters s p) (mq s))
     | PutStore i v \<Rightarrow> map_option (\<lambda>r. put_to p r s) (MessageQueue.put_store (putters s p) (mq s))
     | PutRelease v \<Rightarrow> map_option (\<lambda>r. put_to p r s\<lparr>put_log := put_log s @ [v]\<rparr>) (put_release (putters s p) (mq s)))"

definition mq_get_move :: "nat \<Rightarrow> 'a mq_system \<Rightarrow> 'a mq_system option" where
  "mq_get_move g s = (case getters s g of GetIdle \<Rightarrow> None
     | GetAcquire \<Rightarrow> map_option (\<lambda>r. get_to g r s) (MessageQueue.get_acquire (getters s g) (mq s))
     | GetReserve \<Rightarrow> map_option (\<lambda>r. get_to g r s) (MessageQueue.get_reserve (getters s g) (mq s))
     | GetLoad i \<Rightarrow> map_option (\<lambda>r. get_to g r s) (MessageQueue.get_load (getters s g) (mq s))
     | GetRelease v \<Rightarrow> map_option (\<lambda>r. get_to g r s\<lparr>get_log := get_log s @ [v]\<rparr>) (get_release (getters s g) (mq s)))"

fun mq_do :: "'a mq_event \<Rightarrow> 'a mq_system \<Rightarrow> 'a mq_system option" where
  "mq_do (PutCall p v) s = (case putters s p of PutIdle \<Rightarrow> Some (s\<lparr>putters := (putters s)(p := PutAcquire v)\<rparr>) | _ \<Rightarrow> None)"
| "mq_do (PutMove p) s = mq_put_move p s"
| "mq_do (GetCall g) s = (case getters s g of GetIdle \<Rightarrow> Some (s\<lparr>getters := (getters s)(g := GetAcquire)\<rparr>) | _ \<Rightarrow> None)"
| "mq_do (GetMove g) s = mq_get_move g s"

fun mq_run :: "'a mq_event list \<Rightarrow> 'a mq_system \<Rightarrow> 'a mq_system option" where
  "mq_run [] s = Some s"
| "mq_run (e # es) s = Option.bind (mq_do e s) (mq_run es)"

lemma mq_do_step: "mq_do e s = Some s' \<Longrightarrow> mq_step s s'"
  by (cases e) (auto simp: mq_put_move_def mq_get_move_def intro: mq_step.intros split: put_pc.splits get_pc.splits)

lemma mq_run_reach: "mq_run es s = Some s' \<Longrightarrow> mq_reach n d s \<Longrightarrow> mq_reach n d s'"
proof (induction es arbitrary: s)
  case (Cons e es)
  then obtain s1 where s1: "mq_do e s = Some s1" "mq_run es s1 = Some s'" by (auto simp: bind_eq_Some_conv)
  show ?case by (rule Cons.IH[OF s1(2) mq_reach.step[OF Cons.prems(2) mq_do_step[OF s1(1)]]])
qed simp

text \<open>The threads of a schedule.\<close>

fun event_thread :: "'a mq_event \<Rightarrow> nat" where
  "event_thread (PutCall p v) = p"
| "event_thread (PutMove p) = p"
| "event_thread (GetCall g) = g"
| "event_thread (GetMove g) = g"

lemma mq_do_one:
  "mq_do e s = Some s' \<Longrightarrow> event_thread e = 0 \<Longrightarrow> one_putter s \<Longrightarrow> one_getter s \<Longrightarrow> one_putter s' \<and> one_getter s'"
  by (cases e) (auto simp: mq_put_move_def mq_get_move_def put_to_def get_to_def one_putter_def one_getter_def
      split: put_pc.splits get_pc.splits)

lemma mq_run_reach1:
  "mq_run es s = Some s' \<Longrightarrow> \<forall>e \<in> set es. event_thread e = 0 \<Longrightarrow> mq_reach1 n d s \<Longrightarrow> one_putter s \<Longrightarrow> one_getter s
    \<Longrightarrow> mq_reach1 n d s'"
proof (induction es arbitrary: s)
  case (Cons e es)
  then obtain s1 where s1: "mq_do e s = Some s1" "mq_run es s1 = Some s'" by (auto simp: bind_eq_Some_conv)
  then have one: "one_putter s1" "one_getter s1" using mq_do_one[OF s1(1)] Cons.prems by auto
  have "mq_reach1 n d s1" using mq_reach1.step1[OF Cons.prems(3) mq_do_step[OF s1(1)] one] .
  then show ?case using Cons.IH[OF s1(2)] Cons.prems(2) one by simp
qed simp

end
