(* ===== verification/MessageQueueCorrect.thy ===== *)
theory MessageQueueCorrect
  imports MessageQueue
begin

text \<open>
  One thread that puts and one that gets see a bounded first-in-first-out queue; two that put
  do not.
\<close>

subsection \<open>Slots\<close>

lemma mq_slot_of_nat:
  assumes "length (mq_data q) < 2 ^ 64" "length (mq_data q) dvd 2 ^ 64"
  shows "mq_slot q (of_nat k) = k mod length (mq_data q)"
proof -
  have "unat (of_nat k :: u64) = k mod 2 ^ 64" "unat (of_nat (length (mq_data q)) :: u64) = length (mq_data q)"
    using assms(1) by (simp_all add: unsigned_of_nat take_bit_eq_mod)
  then show ?thesis using assms(2) by (simp add: mq_slot_def unat_mod_distrib mod_mod_cancel)
qed

subsection \<open>The invariant\<close>

fun put_holds :: "'a put_pc \<Rightarrow> nat" where
  "put_holds PutIdle = 0"
| "put_holds (PutAcquire v) = 0"
| "put_holds _ = 1"

fun put_reserved :: "'a put_pc \<Rightarrow> nat" where
  "put_reserved (PutStore i v) = 1"
| "put_reserved (PutRelease v) = 1"
| "put_reserved _ = 0"

fun get_holds :: "'a get_pc \<Rightarrow> nat" where
  "get_holds GetIdle = 0"
| "get_holds GetAcquire = 0"
| "get_holds _ = 1"

fun get_reserved :: "'a get_pc \<Rightarrow> nat" where
  "get_reserved (GetLoad i) = 1"
| "get_reserved (GetRelease v) = 1"
| "get_reserved _ = 0"

fun put_value_ok :: "'a list \<Rightarrow> nat \<Rightarrow> 'a put_pc \<Rightarrow> bool" where
  "put_value_ok data P (PutStore i v) = (i = of_nat P)"
| "put_value_ok data P (PutRelease v) = (data ! (P mod length data) = v)"
| "put_value_ok data P _ = True"

fun get_value_ok :: "'a list \<Rightarrow> nat \<Rightarrow> 'a get_pc \<Rightarrow> bool" where
  "get_value_ok log G (GetLoad i) = (i = of_nat G)"
| "get_value_ok log G (GetRelease v) = (v = log ! G)"
| "get_value_ok log G _ = True"

definition counters_ok :: "nat \<Rightarrow> 'a mq_system \<Rightarrow> bool" where
  "counters_ok n s \<longleftrightarrow> (let q = mq s; pp = putters s 0; gg = getters s 0; P = length (put_log s); G = length (get_log s) in
     length (mq_data q) = n
     \<and> m_write_index q = of_nat (P + put_reserved pp) \<and> m_read_index q = of_nat (G + get_reserved gg)
     \<and> m_space_available q + put_holds pp + P = n + G \<and> m_data_available q + get_holds gg + G = P)"

definition values_ok :: "'a mq_system \<Rightarrow> bool" where
  "values_ok s \<longleftrightarrow> (let data = mq_data (mq s); P = length (put_log s); G = length (get_log s) in
     get_log s = take G (put_log s)
     \<and> (\<forall>k. G \<le> k \<longrightarrow> k < P \<longrightarrow> data ! (k mod length data) = put_log s ! k)
     \<and> put_value_ok data P (putters s 0) \<and> get_value_ok (put_log s) G (getters s 0))"

definition mq_inv :: "nat \<Rightarrow> 'a mq_system \<Rightarrow> bool" where
  "mq_inv n s \<longleftrightarrow> one_putter s \<and> one_getter s \<and> counters_ok n s \<and> values_ok s"

lemma mod_distinct: "k < P \<Longrightarrow> P - k < n \<Longrightarrow> k mod n \<noteq> P mod (n :: nat)"
  by (metis diff_is_0_eq' less_imp_le_nat linorder_not_le mod_eq_dvd_iff_nat mod_eq_nat1E mod_less nat_dvd_not_less
      zero_less_diff)

lemma start_inv: "mq_inv n (mq_start n d)"
  by (simp add: mq_inv_def one_putter_def one_getter_def counters_ok_def values_ok_def mq_start_def new_message_queue_def)

text \<open>What a value loaded promises survives a further put.\<close>

lemma get_value_snoc: "get_value_ok log G gg \<Longrightarrow> get_holds gg + G \<le> length log \<Longrightarrow> get_value_ok (log @ [v]) G gg"
  by (cases gg) (auto simp: nth_append)

lemma step_inv:
  assumes "mq_step s s'" "mq_inv n s" "one_putter s'" "one_getter s'" "0 < n" "n < 2 ^ 64" "n dvd 2 ^ 64"
  shows "mq_inv n s'"
proof -
  have c: "counters_ok n s" "values_ok s" "one_putter s" "one_getter s" using assms(2) by (simp_all add: mq_inv_def)
  have slot: "mq_slot (mq s) (of_nat k) = k mod n" for k
    using mq_slot_of_nat[of "mq s" k] c(1) assms(6,7) by (simp add: counters_ok_def Let_def)
  have p0: "p = 0" if "putters s p \<noteq> PutIdle" for p using that c(3) by (auto simp: one_putter_def)
  have g0: "g = 0" if "getters s g \<noteq> GetIdle" for g using that c(4) by (auto simp: one_getter_def)
  from assms(1) have "counters_ok n s' \<and> values_ok s'"
  proof cases
    case (put_call p v)
    then have "p = 0" using assms(3) by (auto simp: one_putter_def split: if_splits)
    then show ?thesis using put_call c by (simp add: counters_ok_def values_ok_def Let_def)
  next
    case (put_timeout p v)
    then have "p = 0" using p0 by simp
    then show ?thesis using put_timeout c by (simp add: counters_ok_def values_ok_def Let_def)
  next
    case (put_acquire p r)
    then obtain v where v: "putters s p = PutAcquire v" "p = 0"
      using p0[of p] by (auto simp: put_acquire_def split: put_pc.splits)
    then show ?thesis using put_acquire c
      by (auto simp: counters_ok_def values_ok_def Let_def put_to_def put_acquire_def split: if_splits)
  next
    case (put_reserve p r)
    then obtain v where v: "putters s p = PutReserve v" "p = 0"
      using p0[of p] by (auto simp: put_reserve_def split: put_pc.splits)
    then show ?thesis using put_reserve c
      by (auto simp: counters_ok_def values_ok_def Let_def put_to_def put_reserve_def)
  next
    case (put_store p r)
    then obtain i v where v: "putters s p = PutStore i v" "p = 0"
      using p0[of p] by (auto simp: put_store_def split: put_pc.splits)
    let ?P = "length (put_log s)" and ?G = "length (get_log s)"
    have i: "mq_slot (mq s) i = ?P mod n" using c(2) v slot[of ?P] by (simp add: values_ok_def Let_def)
    have k: "k mod n \<noteq> ?P mod n" if "?G \<le> k" "k < ?P" for k
    proof -
      have "Suc (m_space_available (mq s) + ?P) = n + ?G" using c(1) v by (simp add: counters_ok_def Let_def)
      then have "?P - k < n" using that by arith
      then show ?thesis using mod_distinct[OF that(2)] by blast
    qed
    have n: "n = length (mq_data (mq s))" using c(1) by (simp add: counters_ok_def Let_def)
    then have "(mq_data (mq s))[?P mod n := v] ! (?P mod n) = v" using assms(5) by simp
    then show ?thesis using put_store c v i k[THEN not_sym] n
      by (auto simp: counters_ok_def values_ok_def Let_def put_to_def put_store_def)
  next
    case (put_return p v r)
    then have v: "p = 0" using p0[of p] by simp
    have "get_value_ok (put_log s @ [v]) (length (get_log s)) (getters s 0)"
    proof (rule get_value_snoc)
      show "get_value_ok (put_log s) (length (get_log s)) (getters s 0)" using c(2) by (simp add: values_ok_def Let_def)
      have "m_data_available (mq s) + get_holds (getters s 0) + length (get_log s) = length (put_log s)"
        using c(1) by (simp add: counters_ok_def Let_def)
      then show "get_holds (getters s 0) + length (get_log s) \<le> length (put_log s)" by simp
    qed
    then show ?thesis using put_return c v
      by (auto simp: counters_ok_def values_ok_def Let_def put_to_def put_release_def nth_append less_Suc_eq split: if_splits)
  next
    case (get_call g)
    then have "g = 0" using assms(4) by (auto simp: one_getter_def split: if_splits)
    then show ?thesis using get_call c by (simp add: counters_ok_def values_ok_def Let_def)
  next
    case (get_timeout g)
    then have "g = 0" using g0 by simp
    then show ?thesis using get_timeout c by (simp add: counters_ok_def values_ok_def Let_def)
  next
    case (get_acquire g r)
    then have v: "getters s g = GetAcquire" "g = 0"
      using g0[of g] by (auto simp: get_acquire_def split: get_pc.splits)
    then show ?thesis using get_acquire c
      by (auto simp: counters_ok_def values_ok_def Let_def get_to_def get_acquire_def split: if_splits)
  next
    case (get_reserve g r)
    then have v: "getters s g = GetReserve" "g = 0"
      using g0[of g] by (auto simp: get_reserve_def split: get_pc.splits)
    then show ?thesis using get_reserve c
      by (auto simp: counters_ok_def values_ok_def Let_def get_to_def get_reserve_def)
  next
    case (get_load g r)
    then obtain i where v: "getters s g = GetLoad i" "g = 0"
      using g0[of g] by (auto simp: get_load_def split: get_pc.splits)
    let ?P = "length (put_log s)" and ?G = "length (get_log s)"
    have "mq_slot (mq s) i = ?G mod n" using c(2) v slot[of ?G] by (simp add: values_ok_def Let_def)
    moreover have "?G < ?P" using c(1) v by (simp add: counters_ok_def Let_def)
    ultimately show ?thesis using get_load c v
      by (auto simp: counters_ok_def values_ok_def Let_def get_to_def get_load_def)
  next
    case (get_return g v r)
    then have v: "g = 0" using g0[of g] by simp
    then show ?thesis using get_return c
      by (auto simp: counters_ok_def values_ok_def Let_def get_to_def get_release_def take_Suc_conv_app_nth
          split: if_splits)
  qed
  then show ?thesis using assms(3,4) by (simp add: mq_inv_def)
qed

lemma reach_inv:
  assumes "mq_reach1 n d s" "0 < n" "n < 2 ^ 64" "n dvd 2 ^ 64" shows "mq_inv n s"
  using assms(1)
proof (induction rule: mq_reach1.induct)
  case start1
  then show ?case by (rule start_inv)
next
  case (step1 s s')
  then show ?case using step_inv[OF step1.hyps(2) step1.IH step1.hyps(3,4) assms(2-4)] by blast
qed

subsection \<open>Properties\<close>

text \<open>
  C34.  One sender and one receiver have a bounded first-in-first-out queue.  When the size of the
  queue is a power of two (it divides \<open>2 ^ 64\<close>, so that the slots stay in step with the counters when
  these wrap around) and one thread puts and one gets, in any interleaving of their steps the values returned by \<open>get\<close> are the
  values put, in order, none lost and none repeated; at most the capacity is under way; a waiting
  receiver can go on when there is a value it has not taken and a waiting sender when there is
  room; and no semaphore is released beyond its maximum.
\<close>

theorem message_queue_fifo:
  assumes "mq_reach1 n d s" "0 < n" "n < 2 ^ 64" "n dvd 2 ^ 64"
  shows "get_log s = take (length (get_log s)) (put_log s) \<and> length (put_log s) \<le> length (get_log s) + n
    \<and> (getters s 0 = GetAcquire \<and> length (get_log s) < length (put_log s) \<longrightarrow> MessageQueue.get_acquire (getters s 0) (mq s) \<noteq> None)
    \<and> (\<forall>v. putters s 0 = PutAcquire v \<and> length (put_log s) < length (get_log s) + n
        \<longrightarrow> MessageQueue.put_acquire (putters s 0) (mq s) \<noteq> None)
    \<and> (\<forall>v. putters s 0 = PutRelease v \<longrightarrow> put_release (putters s 0) (mq s) \<noteq> None)
    \<and> (\<forall>v. getters s 0 = GetRelease v \<longrightarrow> get_release (getters s 0) (mq s) \<noteq> None)"
  using reach_inv[OF assms]
  by (auto simp: mq_inv_def counters_ok_def values_ok_def Let_def put_acquire_def get_acquire_def put_release_def get_release_def)

text \<open>Two values through a queue of two, the second put while the first is being taken.\<close>

definition demo_schedule :: "nat mq_event list" where
  "demo_schedule = [PutCall 0 5, PutMove 0, PutMove 0, PutMove 0, PutMove 0, GetCall 0, GetMove 0, PutCall 0 6, PutMove 0,
     PutMove 0, GetMove 0, PutMove 0, GetMove 0, PutMove 0, GetMove 0]"

lemmas mq_eval = mq_put_move_def mq_get_move_def put_to_def get_to_def mq_start_def new_message_queue_def mq_slot_def
  put_acquire_def put_reserve_def put_store_def put_release_def get_acquire_def get_reserve_def get_load_def get_release_def

theorem message_queue_fifo_witness:
  "\<exists>s. mq_run demo_schedule (mq_start 2 0) = Some s \<and> put_log s = [5, 6] \<and> get_log s = [5]
     \<and> get_log s = take (length (get_log s)) (put_log s)"
proof -
  obtain s where s: "mq_run demo_schedule (mq_start 2 0) = Some s" "put_log s = [5, 6]" "get_log s = [5]"
    by (simp add: demo_schedule_def mq_eval)
  have "mq_reach1 2 0 s"
    by (rule mq_run_reach1[OF s(1) _ mq_reach1.start1])
      (simp_all add: demo_schedule_def mq_start_def one_putter_def one_getter_def)
  from message_queue_fifo[OF this] show ?thesis using s by simp
qed

text \<open>
  Two senders are too many: a sender that has taken its place but not yet stored its value lets
  the other one announce its own, and the receiver reads the empty place.
\<close>

definition race_schedule :: "nat mq_event list" where
  "race_schedule = [PutCall 0 5, PutMove 0, PutMove 0, PutCall 1 6, PutMove 1, PutMove 1, PutMove 1, PutMove 1,
     GetCall 0, GetMove 0, GetMove 0, GetMove 0, GetMove 0]"

theorem message_queue_two_senders: "\<exists>s. mq_reach 2 (0 :: nat) s \<and> put_log s = [6] \<and> get_log s = [0]"
proof -
  obtain s where s: "mq_run race_schedule (mq_start 2 0) = Some s" "put_log s = [6]" "get_log s = [0]"
    by (simp add: race_schedule_def mq_eval)
  then show ?thesis using mq_run_reach[OF s(1) mq_reach.start] by blast
qed

end
