(* ===== verification/BentLaser.thy ===== *)
theory BentLaser
  imports Collections GameObjectPool
begin

text \<open>
  The bent laser (\<open>GameObjectBentLaser\<close>): a ring buffer of at most 512 nodes, the oldest at the
  head, its total_length length and a collision envelope.  \<open>float\<close> values and their arithmetic are the
  parameter \<open>laser_floats\<close>.
\<close>

subsection \<open>Floats and vectors\<close>

text \<open>
  \<open>l_to_double\<close> and \<open>l_of_double\<close> convert between \<open>float\<close> and \<open>double\<close>; \<open>l_half_of_double d\<close> is
  \<open>(float)(d * 0.5)\<close>; \<open>l_floor\<close> is \<open>floorf\<close>, \<open>l_const\<close> an integer literal, \<open>l_min\<close> the least
  positive normal number, \<open>l_to_degrees\<close> the factor \<open>L_RAD_TO_DEG_F\<close>.
\<close>

record 'f laser_floats =
  l_add :: "'f \<Rightarrow> 'f \<Rightarrow> 'f"
  l_sub :: "'f \<Rightarrow> 'f \<Rightarrow> 'f"
  l_mul :: "'f \<Rightarrow> 'f \<Rightarrow> 'f"
  l_div :: "'f \<Rightarrow> 'f \<Rightarrow> 'f"
  l_neg :: "'f \<Rightarrow> 'f"
  l_sqrt :: "'f \<Rightarrow> 'f"
  l_atan2 :: "'f \<Rightarrow> 'f \<Rightarrow> 'f"
  l_pow :: "'f \<Rightarrow> 'f \<Rightarrow> 'f"
  l_floor :: "'f \<Rightarrow> 'f"
  l_le :: "'f \<Rightarrow> 'f \<Rightarrow> bool"
  l_lt :: "'f \<Rightarrow> 'f \<Rightarrow> bool"
  l_const :: "int \<Rightarrow> 'f"
  l_half :: 'f
  l_two_fifths :: 'f
  l_min :: 'f
  l_to_degrees :: 'f
  l_to_double :: "'f \<Rightarrow> double"
  l_of_double :: "double \<Rightarrow> 'f"
  l_half_of_double :: "double \<Rightarrow> 'f"

type_synonym 'f vec2 = "'f \<times> 'f"

definition v2_add :: "'f laser_floats \<Rightarrow> 'f vec2 \<Rightarrow> 'f vec2 \<Rightarrow> 'f vec2" where
  "v2_add F a b = (l_add F (fst a) (fst b), l_add F (snd a) (snd b))"

definition v2_sub :: "'f laser_floats \<Rightarrow> 'f vec2 \<Rightarrow> 'f vec2 \<Rightarrow> 'f vec2" where
  "v2_sub F a b = (l_sub F (fst a) (fst b), l_sub F (snd a) (snd b))"

definition v2_scale :: "'f laser_floats \<Rightarrow> 'f vec2 \<Rightarrow> 'f \<Rightarrow> 'f vec2" where
  "v2_scale F a k = (l_mul F (fst a) k, l_mul F (snd a) k)"

definition v2_neg :: "'f laser_floats \<Rightarrow> 'f vec2 \<Rightarrow> 'f vec2" where
  "v2_neg F a = (l_neg F (fst a), l_neg F (snd a))"

definition v2_length :: "'f laser_floats \<Rightarrow> 'f vec2 \<Rightarrow> 'f" where
  "v2_length F a = l_sqrt F (l_add F (l_mul F (fst a) (fst a)) (l_mul F (snd a) (snd a)))"

definition v2_normalized :: "'f laser_floats \<Rightarrow> 'f vec2 \<Rightarrow> 'f vec2" where
  "v2_normalized F a = (let l = v2_length F a in
     if l_le F (l_min F) l then (l_div F (fst a) l, l_div F (snd a) l) else (l_const F 0, l_const F 0))"

definition v2_dot :: "'f laser_floats \<Rightarrow> 'f vec2 \<Rightarrow> 'f vec2 \<Rightarrow> 'f" where
  "v2_dot F a b = l_add F (l_mul F (fst a) (fst b)) (l_mul F (snd a) (snd b))"

definition v2_angle :: "'f laser_floats \<Rightarrow> 'f vec2 \<Rightarrow> 'f" where
  "v2_angle F a = l_atan2 F (snd a) (fst a)"

text \<open>A quarter turn: \<open>core::Vector2F(v.y, -v.x)\<close>.\<close>

definition v2_quarter :: "'f laser_floats \<Rightarrow> 'f vec2 \<Rightarrow> 'f vec2" where
  "v2_quarter F a = (snd a, l_neg F (fst a))"

subsection \<open>State\<close>

record 'f laser_node =
  node_pos :: "'f vec2"
  half_width :: 'f
  dis :: 'f
  x_dir :: 'f
  y_dir :: 'f
  node_active :: bool
  sharp :: bool

definition new_node :: "'f laser_floats \<Rightarrow> 'f laser_node" where
  "new_node F = (let z = l_const F 0 in \<lparr>node_pos = (z, z), half_width = z, dis = z, x_dir = z, y_dir = z,
     node_active = True, sharp = False\<rparr>)"

record 'f bent_laser =
  laser_queue :: "'f laser_node fixed_circular_queue"
  m_fLength :: 'f
  m_fEnvelopeHeight :: 'f
  m_fEnvelopeBase :: 'f
  m_fEnvelopeRate :: 'f
  m_fEnvelopePower :: 'f

definition LGOBJ_MAXLASERNODE :: nat where "LGOBJ_MAXLASERNODE = 512"

definition new_laser :: "'f laser_floats \<Rightarrow> 'f bent_laser" where
  "new_laser F = (let z = l_const F 0 in
     \<lparr>laser_queue = \<lparr>m_data = replicate LGOBJ_MAXLASERNODE (new_node F), m_front = 0, m_back = 0, m_size = 0\<rparr>,
      m_fLength = z, m_fEnvelopeHeight = z, m_fEnvelopeBase = l_const F 1, m_fEnvelopeRate = z, m_fEnvelopePower = z\<rparr>)"

definition laser_size :: "'f bent_laser \<Rightarrow> nat" where
  "laser_size L = m_size (laser_queue L)"

text \<open>Reading and changing the node at an index, as a reference into the queue does.\<close>

definition laser_at :: "nat \<Rightarrow> 'f bent_laser \<Rightarrow> 'f laser_node option" where
  "laser_at i L = queue_at (laser_queue L) i"

definition laser_modify :: "nat \<Rightarrow> ('f laser_node \<Rightarrow> 'f laser_node) \<Rightarrow> 'f bent_laser \<Rightarrow> 'f bent_laser option" where
  "laser_modify i f L = Option.bind (queue_at (laser_queue L) i) (\<lambda>n.
     map_option (\<lambda>q. L\<lparr>laser_queue := q\<rparr>) (queue_set_at (laser_queue L) i (f n)))"

subsection \<open>Directions and distances\<close>

definition set_dir :: "'f vec2 \<Rightarrow> 'f laser_node \<Rightarrow> 'f laser_node" where
  "set_dir d n = n\<lparr>x_dir := fst d, y_dir := snd d, sharp := False\<rparr>"

text \<open>The direction of a node between its neighbours.\<close>

definition middle_dir :: "'f laser_floats \<Rightarrow> 'f vec2 \<Rightarrow> 'f vec2 \<Rightarrow> 'f vec2 \<Rightarrow> 'f vec2" where
  "middle_dir F prv node nxt = (let vec1 = v2_sub F node prv; vec2 = v2_sub F nxt node in
     if l_lt F (l_const F 0) (v2_dot F vec1 vec2)
     then v2_normalized F (v2_add F (v2_quarter F vec1) (v2_quarter F vec2))
     else v2_normalized F (v2_add F (v2_neg F vec1) vec2))"

definition UpdateNodeVertexExtend :: "'f laser_floats \<Rightarrow> nat \<Rightarrow> 'f bent_laser \<Rightarrow> 'f bent_laser option" where
  "UpdateNodeVertexExtend F i L = Option.bind (laser_at i L) (\<lambda>node.
     if laser_size L \<le> 1 then laser_modify i (set_dir (l_const F 0, l_const F 0)) L
     else if i = 0 then Option.bind (laser_at (i + 1) L) (\<lambda>nxt.
       laser_modify i (set_dir (v2_normalized F (v2_quarter F (v2_sub F (node_pos nxt) (node_pos node))))) L)
     else if i = laser_size L - 1 then Option.bind (laser_at (i - 1) L) (\<lambda>last.
       laser_modify i (set_dir (v2_normalized F (v2_quarter F (v2_sub F (node_pos node) (node_pos last))))) L)
     else Option.bind (laser_at (i - 1) L) (\<lambda>last. Option.bind (laser_at (i + 1) L) (\<lambda>nxt.
       laser_modify i (set_dir (middle_dir F (node_pos last) (node_pos node) (node_pos nxt))) L)))"

text \<open>One turn of the loop over the distances.\<close>

definition measure_step :: "'f laser_floats \<Rightarrow> nat \<Rightarrow> 'f bent_laser \<Rightarrow> 'f bent_laser option" where
  "measure_step F i L = Option.bind (laser_at i L) (\<lambda>last. Option.bind (laser_at (i + 1) L) (\<lambda>nxt.
     let len = v2_length F (v2_sub F (node_pos nxt) (node_pos last)) in
     map_option (\<lambda>L. if node_active last \<and> node_active nxt then L\<lparr>m_fLength := l_add F (m_fLength L) len\<rparr> else L)
       (laser_modify (i + 1) (\<lambda>n. n\<lparr>dis := len\<rparr>) L)))"

definition UpdateAllNode :: "'f laser_floats \<Rightarrow> 'f bent_laser \<Rightarrow> 'f bent_laser option" where
  "UpdateAllNode F L = (let z = l_const F 0; L = L\<lparr>m_fLength := z\<rparr>; node_count = laser_size L in
     if node_count = 0 then Some L
     else if node_count = 1 then laser_modify 0 (\<lambda>n. n\<lparr>dis := z, x_dir := z, y_dir := z, sharp := False\<rparr>) L
     else Option.bind (laser_modify 0 (\<lambda>n. n\<lparr>dis := z\<rparr>) L) (\<lambda>L.
       Option.bind (fold_option (measure_step F) [0..<node_count - 1] L)
         (fold_option (UpdateNodeVertexExtend F) [0..<node_count])))"

definition PopHead :: "'f laser_floats \<Rightarrow> 'f bent_laser \<Rightarrow> 'f bent_laser option" where
  "PopHead F L = (if laser_size L > 1 then
     Option.bind (popHead (laser_queue L)) (\<lambda>(last, q). let L = L\<lparr>laser_queue := q\<rparr> in
       if m_size q > 1 then Option.bind (laser_at 0 L) (\<lambda>nxt.
         let L = (if node_active last \<and> node_active nxt then L\<lparr>m_fLength := l_sub F (m_fLength L) (dis nxt)\<rparr> else L)
         in laser_modify 0 (\<lambda>n. n\<lparr>dis := l_const F 0\<rparr>) L)
       else Some L)
     else Some L)"

subsection \<open>Moving on\<close>

text \<open>The two loops that pop: while the laser is too long, while it is also full.\<close>

partial_function (option) pop_while :: "'f laser_floats \<Rightarrow> ('f bent_laser \<Rightarrow> bool) \<Rightarrow> 'f bent_laser \<Rightarrow> 'f bent_laser option" where
  "pop_while F c L = (if c L then Option.bind (PopHead F L) (pop_while F c) else Some L)"

definition push_node :: "'f laser_node \<Rightarrow> 'f bent_laser \<Rightarrow> 'f bent_laser option" where
  "push_node n L = map_option (\<lambda>q. L\<lparr>laser_queue := q\<rparr>) (pushTail (laser_queue L) n)"

text \<open>The position has hardly changed: the newest node is changed in place.\<close>

definition update_tail :: "'f laser_floats \<Rightarrow> 'f laser_node \<Rightarrow> 'f bent_laser \<Rightarrow> 'f bent_laser option" where
  "update_tail F node L = (let s = laser_size L in
     if s \<ge> 2 then Option.bind (laser_at (s - 2) L) (\<lambda>prev. Option.bind (laser_at (s - 1) L) (\<lambda>last.
       let L = L\<lparr>m_fLength := l_sub F (m_fLength L) (dis last)\<rparr>;
           len = v2_length F (v2_sub F (node_pos node) (node_pos prev));
           L = L\<lparr>m_fLength := l_add F (m_fLength L) len\<rparr>
       in Option.bind (laser_modify (s - 1) (\<lambda>n. n\<lparr>node_pos := node_pos node, dis := len\<rparr>) L) (\<lambda>L.
          Option.bind (UpdateNodeVertexExtend F (s - 1) L) (UpdateNodeVertexExtend F (s - 2)))))
     else map_option (\<lambda>L. L\<lparr>m_fLength := l_const F 0\<rparr>)
       (laser_modify (s - 1) (\<lambda>n. n\<lparr>node_pos := node_pos node, half_width := half_width node, dis := l_const F 0,
          node_active := node_active node\<rparr>) L))"

definition append_node :: "'f laser_floats \<Rightarrow> 'f laser_node \<Rightarrow> 'f bent_laser \<Rightarrow> 'f bent_laser option" where
  "append_node F node L = (let s = laser_size L in
     if s > 0 then Option.bind (laser_at (s - 1) L) (\<lambda>last.
       let len = v2_length F (v2_sub F (node_pos node) (node_pos last));
           L = (if node_active node \<and> node_active last then L\<lparr>m_fLength := l_add F (m_fLength L) len\<rparr> else L)
       in Option.bind (push_node (node\<lparr>dis := len\<rparr>) L) (\<lambda>L.
          Option.bind (UpdateNodeVertexExtend F (laser_size L - 1) L) (UpdateNodeVertexExtend F (laser_size L - 2))))
     else push_node (node\<lparr>dis := l_const F 0\<rparr>) (L\<lparr>m_fLength := l_const F 0\<rparr>))"

definition laser_Update :: "'f laser_floats \<Rightarrow> 'f \<Rightarrow> 'f \<Rightarrow> int \<Rightarrow> 'f \<Rightarrow> bool \<Rightarrow> 'f bent_laser \<Rightarrow> (bool \<times> 'f bent_laser) option" where
  "laser_Update F x y len width active L = (if len \<le> 1 then Some (False, L)
   else let node = (new_node F)\<lparr>node_pos := (x, y), half_width := l_mul F width (l_half F), node_active := active\<rparr> in
     map_option (Pair True)
     (case (if laser_size L = 0 then Some False
        else map_option (\<lambda>tail. l_le F (v2_length F (v2_sub F (node_pos node) (node_pos tail))) (l_min F))
          (queue_tail (laser_queue L))) of
       None \<Rightarrow> None
     | Some True \<Rightarrow> Option.bind (pop_while F (\<lambda>L. laser_size L \<ge> nat len) L) (update_tail F node)
     | Some False \<Rightarrow> Option.bind (pop_while F (\<lambda>L. queue_full (laser_queue L) \<or> laser_size L \<ge> nat len) L)
         (append_node F node)))"

text \<open>\<open>Update\<close> with the id of an object; \<open>None\<close> for an id without object.\<close>

definition laser_Update_id :: "'f laser_floats \<Rightarrow> game_object option \<Rightarrow> int \<Rightarrow> 'f \<Rightarrow> bool \<Rightarrow> 'f bent_laser
    \<Rightarrow> (bool \<times> 'f bent_laser) option" where
  "laser_Update_id F p len width active L = (case p of None \<Rightarrow> Some (False, L)
     | Some p \<Rightarrow> laser_Update F (l_of_double F (pos_x p)) (l_of_double F (pos_y p)) len width active L)"

text \<open>\<open>UpdateByNode\<close>; \<open>node\<close> counts from the newest when negative.\<close>

definition laser_UpdateByNode :: "'f laser_floats \<Rightarrow> game_object option \<Rightarrow> int \<Rightarrow> int \<Rightarrow> bool \<Rightarrow> 'f bent_laser
    \<Rightarrow> (bool \<times> 'f bent_laser) option" where
  "laser_UpdateByNode F p node len active L = (if p = None \<or> len \<le> 1 then Some (False, L)
   else let node = (if node < 0 then int (laser_size L) + node else node) in
     if node < int (laser_size L) \<and> node \<ge> 0
     then map_option (Pair True) (Option.bind (laser_modify (nat node) (\<lambda>n. n\<lparr>node_active := active\<rparr>) L) (UpdateAllNode F))
     else Some (True, L))"

definition laser_SetAllWidth :: "'f laser_floats \<Rightarrow> 'f \<Rightarrow> 'f bent_laser \<Rightarrow> 'f bent_laser option" where
  "laser_SetAllWidth F width L = fold_option (\<lambda>i. laser_modify i (\<lambda>n. n\<lparr>half_width := l_div F width (l_const F 2)\<rparr>))
     [0..<laser_size L] L"

subsection \<open>Envelope and collision\<close>

definition laser_SetEnvelope :: "'f laser_floats \<Rightarrow> 'f \<Rightarrow> 'f \<Rightarrow> 'f \<Rightarrow> 'f \<Rightarrow> 'f bent_laser \<Rightarrow> 'f bent_laser" where
  "laser_SetEnvelope F height base rate pw L = L\<lparr>m_fEnvelopeHeight := height,
     m_fEnvelopeBase := (if l_lt F base (l_const F 0) then l_const F 0
       else if l_lt F (l_const F 1) base then l_const F 1 else base),
     m_fEnvelopeRate := rate,
     m_fEnvelopePower := l_mul F (l_two_fifths F) (l_floor F (l_div F pw (l_two_fifths F)))\<rparr>"

definition GetEnvelope :: "'f laser_floats \<Rightarrow> 'f bent_laser \<Rightarrow> 'f \<Rightarrow> 'f" where
  "GetEnvelope F L t = (let ret = l_add F (m_fEnvelopeHeight L) (l_mul F (m_fEnvelopeBase L)
       (l_sub F (l_const F 1) (l_mul F (l_mul F (m_fEnvelopeRate L) (l_const F 2))
         (l_pow F (l_sub F t (l_half F)) (m_fEnvelopePower L)))))
     in if l_lt F (l_const F 0) ret then ret else l_const F 0)"

text \<open>The object that stands for a node: a circle, and the object it is tested against.\<close>

definition node_circle :: "float_ops \<Rightarrow> 'f laser_floats \<Rightarrow> 'f laser_node \<Rightarrow> 'f \<Rightarrow> game_object" where
  "node_circle D F n r = UpdateCollisionCircleRadius D ((game_object_Reset game_object_zero)
     \<lparr>rot := 0, pos_x := l_to_double F (fst (node_pos n)), pos_y := l_to_double F (snd (node_pos n)),
      half_a := l_to_double F r, half_b := l_to_double F r, rect := False\<rparr>)"

definition test_object :: "float_ops \<Rightarrow> 'f laser_floats \<Rightarrow> 'f \<Rightarrow> 'f \<Rightarrow> 'f \<Rightarrow> 'f \<Rightarrow> 'f \<Rightarrow> bool \<Rightarrow> game_object" where
  "test_object D F x y rt a b is_rect = UpdateCollisionCircleRadius D ((game_object_Reset game_object_zero)
     \<lparr>pos_x := l_to_double F x, pos_y := l_to_double F y, rot := l_to_double F rt,
      half_a := l_to_double F a, half_b := l_to_double F b, rect := is_rect\<rparr>)"

text \<open>The loop of the checks: \<open>hit i n\<close> is the test of the node \<open>n\<close> at \<open>i\<close>.\<close>

fun any_node :: "(nat \<Rightarrow> 'f laser_node \<Rightarrow> bool) \<Rightarrow> nat list \<Rightarrow> 'f bent_laser \<Rightarrow> bool option" where
  "any_node hit [] L = Some False"
| "any_node hit (i # is) L = Option.bind (laser_at i L) (\<lambda>n. if hit i n then Some True else any_node hit is L)"

definition CollisionCheck :: "float_ops \<Rightarrow> (collider \<Rightarrow> collider \<Rightarrow> bool) \<Rightarrow> 'f laser_floats \<Rightarrow> 'f \<Rightarrow> 'f \<Rightarrow> 'f \<Rightarrow> 'f \<Rightarrow> 'f
    \<Rightarrow> bool \<Rightarrow> 'f bent_laser \<Rightarrow> bool option" where
  "CollisionCheck D check F x y rt a b is_rect L = (if laser_size L \<le> 1 then Some False
   else let sn = laser_size L in any_node (\<lambda>i n. node_active n \<and> isIntersect D check
       (node_circle D F n (l_mul F (half_width n) (GetEnvelope F L (l_div F (l_const F (int i)) (l_const F (int (sn - 1)))))))
       (test_object D F x y rt a b is_rect)) [0..<sn] L)"

definition CollisionCheckW :: "float_ops \<Rightarrow> (collider \<Rightarrow> collider \<Rightarrow> bool) \<Rightarrow> 'f laser_floats \<Rightarrow> 'f \<Rightarrow> 'f \<Rightarrow> 'f \<Rightarrow> 'f \<Rightarrow> 'f
    \<Rightarrow> bool \<Rightarrow> 'f \<Rightarrow> 'f bent_laser \<Rightarrow> bool option" where
  "CollisionCheckW D check F x y rt a b is_rect width L = (if laser_size L \<le> 1 then Some False
   else any_node (\<lambda>i n. node_active n \<and> isIntersect D check (node_circle D F n (l_div F width (l_const F 2)))
       (test_object D F x y rt a b is_rect)) [0..<laser_size L] L)"

definition laser_BoundCheck :: "'f laser_floats \<Rightarrow> 'u game_pool \<Rightarrow> 'f bent_laser \<Rightarrow> bool option" where
  "laser_BoundCheck F pool L = any_node (\<lambda>i n. isPointInBound (l_to_double F (fst (node_pos n)))
     (l_to_double F (snd (node_pos n))) pool) [0..<laser_size L] L"

text \<open>The circles \<open>RenderCollider\<close> draws: position and radius of each active node.\<close>

definition collider_circles :: "'f laser_floats \<Rightarrow> 'f bent_laser \<Rightarrow> ('f vec2 \<times> 'f) list option" where
  "collider_circles F L = (if laser_size L \<le> 1 then Some []
   else let one_nc = l_div F (l_const F 1) (l_const F (int (laser_size L - 1))) in
     fold_option (\<lambda>i cs. map_option (\<lambda>n. if node_active n
         then cs @ [(node_pos n, l_mul F (half_width n) (GetEnvelope F L (l_mul F (l_const F (int i)) one_nc)))] else cs)
       (laser_at i L)) [0..<laser_size L] [])"

subsection \<open>Sampling\<close>

text \<open>
  A sample is a point and a rotation.  The inner loop of a sampling: from \<open>left\<close> on, in steps of
  \<open>step\<close>, as long as \<open>left - until <= 0\<close>.  It need not end.
\<close>

type_synonym 'f sample = "'f vec2 \<times> 'f"

partial_function (option) sample_segment :: "'f laser_floats \<Rightarrow> ('f \<Rightarrow> 'f vec2) \<Rightarrow> 'f \<Rightarrow> 'f \<Rightarrow> 'f \<Rightarrow> 'f \<Rightarrow> 'f sample list
    \<Rightarrow> ('f \<times> 'f sample list) option" where
  "sample_segment F at angle stp until left out = (if l_le F (l_sub F left until) (l_const F 0)
     then sample_segment F at angle stp until (l_add F left stp) (out @ [(at left, angle)])
     else Some (left, out))"

text \<open>The outer loop goes from the newest node to the oldest.\<close>

definition sample_nodes :: "'f laser_floats \<Rightarrow> ('f vec2 \<Rightarrow> 'f vec2 \<Rightarrow> 'f \<Rightarrow> 'f sample list \<Rightarrow> ('f \<times> 'f sample list) option)
    \<Rightarrow> 'f bent_laser \<Rightarrow> 'f sample list option" where
  "sample_nodes F segment L = (if laser_size L \<le> 1 then Some []
   else map_option snd (fold_option (\<lambda>i (left, out). Option.bind (laser_at i L) (\<lambda>cur.
       Option.bind (laser_at (i - 1) L) (\<lambda>nxt. segment (node_pos cur) (node_pos nxt) left out)))
     (rev [1..<laser_size L]) (l_const F 0, [])))"

definition sample_angle :: "'f laser_floats \<Rightarrow> 'f vec2 \<Rightarrow> 'f" where
  "sample_angle F v = l_add F (l_mul F (v2_angle F v) (l_to_degrees F)) (l_const F 180)"

definition SampleL :: "'f laser_floats \<Rightarrow> 'f \<Rightarrow> 'f bent_laser \<Rightarrow> 'f sample list option" where
  "SampleL F len L = sample_nodes F (\<lambda>cur nxt left out.
     let offsetA = v2_sub F nxt cur; lenOffsetA = v2_length F offsetA; expandVec = v2_normalized F offsetA in
     map_option (\<lambda>(left, out). (l_sub F left lenOffsetA, out))
       (sample_segment F (\<lambda>left. v2_add F (v2_scale F expandVec left) cur) (sample_angle F expandVec) len lenOffsetA left out)) L"

definition SampleT :: "'f laser_floats \<Rightarrow> 'f \<Rightarrow> 'f bent_laser \<Rightarrow> 'f sample list option" where
  "SampleT F delay L = sample_nodes F (\<lambda>cur nxt left out.
     let offsetA = v2_sub F nxt cur in
     map_option (\<lambda>(left, out). (l_sub F left (l_const F 1), out))
       (sample_segment F (\<lambda>left. v2_add F (v2_scale F offsetA left) cur) (sample_angle F offsetA) delay (l_const F 1) left out)) L"

subsection \<open>Lists from scripts\<close>

text \<open>
  \<open>UpdatePositionByList\<close>.  \<open>points i\<close> is what the script's list holds at \<open>i\<close>: a position, or
  \<open>None\<close> when reading it raises a script error, which leaves the nodes as they are then.  The
  result says whether it returned.
\<close>

fun push_many :: "('q \<Rightarrow> 'q option) \<Rightarrow> nat \<Rightarrow> 'q \<Rightarrow> 'q option" where
  "push_many push 0 q = Some q"
| "push_many push (Suc n) q = Option.bind (push q) (push_many push n)"

definition place_point :: "'f laser_floats \<Rightarrow> 'f \<Rightarrow> int \<Rightarrow> 'f vec2 \<Rightarrow> 'f bent_laser \<Rightarrow> 'f bent_laser option" where
  "place_point F width cindex p L = (let size = int (laser_size L); np = (new_node F)\<lparr>node_active := False\<rparr> in
     Option.bind (if cindex \<ge> size then push_many (\<lambda>q. pushHead q np) (nat (cindex - size + 1)) (laser_queue L)
       else Some (laser_queue L))
     (\<lambda>q. let L = L\<lparr>laser_queue := q\<rparr> in
       laser_modify (nat (int (laser_size L) - cindex - 1))
         (\<lambda>n. n\<lparr>node_active := True, half_width := l_div F width (l_const F 2), node_pos := p\<rparr>) L))"

text \<open>
  A negative index appends nothing: the loop \<open>while (j > 0)\<close> starts with \<open>j = cindex < 0\<close>, and
  \<open>push_count\<close> stays 0.
\<close>

definition laser_UpdatePositionByList :: "'f laser_floats \<Rightarrow> (nat \<Rightarrow> 'f vec2 option) \<Rightarrow> int \<Rightarrow> 'f \<Rightarrow> int \<Rightarrow> bool
    \<Rightarrow> 'f bent_laser \<Rightarrow> (bool \<times> 'f bent_laser) option" where
  "laser_UpdatePositionByList F points len width index revert L =
    (case fold_option (\<lambda>i (ok, L). if \<not> ok then Some (False, L) else (case points i of None \<Rightarrow> Some (False, L)
       | Some p \<Rightarrow> map_option (Pair True)
           (place_point F width (index - 1 + (if revert then - int i else int i)) p L))) [0..<nat len] (True, L) of
      None \<Rightarrow> None
    | Some (False, L) \<Rightarrow> Some (False, L)
    | Some (True, L) \<Rightarrow> map_option (Pair True) (UpdateAllNode F L))"

text \<open>
  The two functions of the script interface: an error message, or \<open>None\<close> when they return.
  Numbers of the script are \<open>double\<close>, integers are converted to \<open>size_t\<close>.
\<close>

definition size_of_int :: "int \<Rightarrow> u64" where
  "size_of_int i = word_of_int i"

definition api_UpdateSingleNode :: "'f laser_floats \<Rightarrow> int \<Rightarrow> double \<Rightarrow> double \<Rightarrow> double \<Rightarrow> 'f bent_laser
    \<Rightarrow> (string option \<times> 'f bent_laser) option" where
  "api_UpdateSingleNode F index x y width L = (let i = unat (size_of_int (index - 1)) in
     if i \<ge> laser_size L then Some (Some ''invalid parameter #1, node index out of bounds'', L)
     else let p = (l_of_double F x, l_of_double F y) in
     map_option (Pair None)
     (Option.bind (laser_at i L) (\<lambda>node. let L = L\<lparr>m_fLength := l_sub F (m_fLength L) (dis node)\<rparr> in
       Option.bind (laser_modify i (\<lambda>n. n\<lparr>node_pos := p, half_width := l_half_of_double F width, node_active := True\<rparr>) L) (\<lambda>L.
       Option.bind (if i > 0 then Option.bind (laser_at (i - 1) L) (\<lambda>last. let len = v2_length F (v2_sub F p (node_pos last)) in
             map_option (\<lambda>L. L\<lparr>m_fLength := l_add F (m_fLength L) len\<rparr>) (laser_modify i (\<lambda>n. n\<lparr>dis := len\<rparr>) L))
           else laser_modify i (\<lambda>n. n\<lparr>dis := l_const F 0\<rparr>) L) (\<lambda>L.
       Option.bind (UpdateNodeVertexExtend F i L) (\<lambda>L.
         if laser_size L > 1 then
           Option.bind (if i > 0 then UpdateNodeVertexExtend F (i - 1) L else Some L) (\<lambda>L.
             if i < laser_size L - 1 then UpdateNodeVertexExtend F (i + 1) L else Some L)
         else Some L))))))"

text \<open>
  An error message is its format and the number formatted.  A list of numbers is what the script's table holds at each index, \<open>None\<close> for no number.
  \<open>widths\<close> is one number for all nodes or a list.
\<close>

type_synonym number_list = "nat \<Rightarrow> double option"

definition number_error :: "string \<Rightarrow> nat \<Rightarrow> string \<times> nat" where
  "number_error param i = (''invalid number at [%d] in parameter '' @ param, i + 1)"

definition set_listed_node :: "'f laser_floats \<Rightarrow> number_list \<Rightarrow> number_list \<Rightarrow> double + number_list \<Rightarrow> nat
    \<Rightarrow> (string \<times> nat) option \<times> 'f bent_laser \<Rightarrow> ((string \<times> nat) option \<times> 'f bent_laser) option" where
  "set_listed_node F xs ys widths i r = (case r of (Some e, L) \<Rightarrow> Some (Some e, L)
   | (None, L) \<Rightarrow> Option.bind (laser_at i L) (\<lambda>_. case (xs i, ys i, case widths of Inl w \<Rightarrow> Some w | Inr ws \<Rightarrow> ws i) of
       (None, _, _) \<Rightarrow> Some (Some (number_error ''#2'' i), L)
     | (_, None, _) \<Rightarrow> Some (Some (number_error ''#3'' i), L)
     | (_, _, None) \<Rightarrow> Some (Some (number_error ''#4'' i), L)
     | (Some x, Some y, Some w) \<Rightarrow> map_option (Pair None)
         (laser_modify i (\<lambda>n. n\<lparr>node_pos := (l_of_double F x, l_of_double F y), half_width := l_half_of_double F w,
            node_active := True\<rparr>) L)))"

definition api_UpdateAllNodeByList :: "'f laser_floats \<Rightarrow> int \<Rightarrow> number_list \<Rightarrow> number_list \<Rightarrow> double + number_list
    \<Rightarrow> 'f bent_laser \<Rightarrow> ((string \<times> nat) option \<times> 'f bent_laser) option" where
  "api_UpdateAllNodeByList F new_size xs ys widths L = (let node_count = unat (size_of_int new_size) in
     if node_count > length (m_data (laser_queue L)) then Some (Some (''invalid parameter #1, number of nodes should <= %d'', length (m_data (laser_queue L))), L)
     else Option.bind (placementResize (laser_queue L) node_count) (\<lambda>q.
       case fold_option (set_listed_node F xs ys widths) [0..<node_count] (None, L\<lparr>laser_queue := q\<rparr>) of
         None \<Rightarrow> None
       | Some (Some e, L) \<Rightarrow> Some (Some e, L)
       | Some (None, L) \<Rightarrow> map_option (Pair None) (UpdateAllNode F L)))"

subsection \<open>Rendering\<close>

text \<open>A vertex: position, texture coordinates, color.  \<open>0.5\<close> is the depth.\<close>

type_synonym 'f laser_vertex = "'f \<times> 'f \<times> 'f \<times> 'f \<times> 'f \<times> u32"

text \<open>The arguments of \<open>Render\<close> once the texture is found.\<close>

record 'f laser_paint =
  paint_color :: u32
  tex_left :: 'f
  tex_top :: 'f
  tex_width :: 'f
  tex_height :: 'f
  paint_scale :: 'f
  tex_size :: "'f vec2"

definition node_vertices :: "'f laser_floats \<Rightarrow> 'f laser_paint \<Rightarrow> 'f \<Rightarrow> 'f \<Rightarrow> bool \<Rightarrow> 'f laser_node \<Rightarrow> 'f laser_vertex list" where
  "node_vertices F P m_len total_length flip n = (let u_scale = l_div F (l_const F 1) (fst (tex_size P));
       v_scale = l_div F (l_const F 1) (snd (tex_size P));
       v_top = l_mul F (tex_top P) v_scale; v_bottom = l_mul F (l_add F (tex_top P) (tex_height P)) v_scale;
       tex_u = l_add F (tex_left P) (l_mul F (l_div F total_length m_len) (tex_width P));
       pos_x = l_mul F (l_mul F (x_dir n) (paint_scale P)) (half_width n);
       pos_y = l_mul F (l_mul F (y_dir n) (paint_scale P)) (half_width n);
       (pos_x, pos_y) = (if flip then (l_neg F pos_x, l_neg F pos_y) else (pos_x, pos_y));
       color = (if node_active n then paint_color P else paint_color P AND 0x00FFFFFF)
     in [(l_sub F (fst (node_pos n)) pos_x, l_sub F (snd (node_pos n)) pos_y, l_half F, l_mul F tex_u u_scale, v_top, color),
         (l_add F (fst (node_pos n)) pos_x, l_add F (snd (node_pos n)) pos_y, l_half F, l_mul F tex_u u_scale, v_bottom, color)])"

text \<open>The state of the loop: the length so far, whether to flip, the vertices written.\<close>

definition vertex_step :: "'f laser_floats \<Rightarrow> 'f laser_paint \<Rightarrow> 'f bent_laser \<Rightarrow> nat \<Rightarrow> 'f \<times> bool \<times> 'f laser_vertex list
    \<Rightarrow> ('f \<times> bool \<times> 'f laser_vertex list) option" where
  "vertex_step F P L i st = (case st of (total_length, flip, vs) \<Rightarrow> map_option (\<lambda>n.
     let flip = (if sharp n then \<not> flip else flip); total_length = l_add F total_length (dis n) in
     (total_length, flip, vs @ node_vertices F P (m_fLength L) total_length flip n)) (laser_at i L))"

definition quad_indices :: "u16 \<Rightarrow> u16 \<Rightarrow> u16 list" where
  "quad_indices index_offset quad_offset = [index_offset + quad_offset, index_offset + quad_offset + 2,
     index_offset + quad_offset + 3, index_offset + quad_offset + 3, index_offset + quad_offset + 1,
     index_offset + quad_offset]"

text \<open>
  The part of \<open>Render\<close> that fills the vertices and indices the renderer has given; \<open>index_offset\<close> is the
  number of the first vertex.  The whole function, with the renderer, is in \<open>LaserDrawing\<close>.
\<close>

definition laser_mesh :: "'f laser_floats \<Rightarrow> 'f laser_paint \<Rightarrow> u16 \<Rightarrow> u16 \<Rightarrow> 'f bent_laser
    \<Rightarrow> ('f laser_vertex list \<times> u16 list) option" where
  "laser_mesh F P node_count index_offset L = map_option (\<lambda>(total_length, flip, vs). (vs,
       concat (map (\<lambda>i. quad_indices index_offset (of_nat (2 * i))) [0..<unat node_count - 1])))
     (fold_option (vertex_step F P L) [0..<unat node_count] (l_const F 0, False, []))"

end
