(* ===== verification/BentLaserNodes.thy ===== *)
theory BentLaserNodes
  imports BentLaser
begin

text \<open>
  The bent laser over the contract of the ring buffer: every operation is one on the list of its
  nodes, the oldest first.
\<close>

definition nodes :: "'f bent_laser \<Rightarrow> 'f laser_node list" where
  "nodes L = queue_list (laser_queue L)"

definition laser_ok :: "'f bent_laser \<Rightarrow> bool" where
  "laser_ok L \<longleftrightarrow> queue_inv (laser_queue L) \<and> length (m_data (laser_queue L)) = LGOBJ_MAXLASERNODE"

text \<open>
  \<open>L'\<close> shows the nodes \<open>xs\<close> and the length \<open>l\<close>, and is otherwise \<open>L\<close>.
\<close>

definition shows_as :: "'f bent_laser \<Rightarrow> 'f laser_node list \<Rightarrow> 'f \<Rightarrow> 'f bent_laser \<Rightarrow> bool" where
  "shows_as L xs l L' \<longleftrightarrow> laser_ok L' \<and> nodes L' = xs \<and> (\<exists>q. L' = L\<lparr>laser_queue := q, m_fLength := l\<rparr>)"

lemma laser_size_nodes: "laser_size L = length (nodes L)"
  by (simp add: laser_size_def nodes_def)

lemma laser_at_ok: "laser_ok L \<Longrightarrow> i < length (nodes L) \<Longrightarrow> laser_at i L = Some (nodes L ! i)"
  using queue_at_correct[of "laser_queue L" i] by (simp add: laser_at_def laser_ok_def nodes_def)

lemma shows_as_trans: "shows_as L xs l L1 \<Longrightarrow> shows_as L1 ys k L2 \<Longrightarrow> shows_as L ys k L2"
  by (auto simp: shows_as_def)

lemma shows_as_refl: "laser_ok L \<Longrightarrow> shows_as L (nodes L) (m_fLength L) L"
  unfolding shows_as_def by (intro conjI exI[of _ "laser_queue L"]) auto

lemma shows_asD: "shows_as L xs l L' \<Longrightarrow> laser_ok L'" "shows_as L xs l L' \<Longrightarrow> nodes L' = xs"
  "shows_as L xs l L' \<Longrightarrow> m_fLength L' = l"
  by (auto simp: shows_as_def)

lemma shows_as_length: "shows_as L xs l L' \<Longrightarrow> shows_as L xs k (L'\<lparr>m_fLength := k\<rparr>)"
  by (auto simp: shows_as_def laser_ok_def nodes_def)

lemma laser_ok_length [simp]: "laser_ok (L\<lparr>m_fLength := k\<rparr>) = laser_ok L" "nodes (L\<lparr>m_fLength := k\<rparr>) = nodes L"
  by (simp_all add: laser_ok_def nodes_def)

lemma laser_modify_ok:
  assumes "laser_ok L" "i < length (nodes L)"
  shows "\<exists>L'. laser_modify i f L = Some L' \<and> shows_as L ((nodes L)[i := f (nodes L ! i)]) (m_fLength L) L'"
proof -
  have q: "queue_inv (laser_queue L)" "i < m_size (laser_queue L)"
    using assms by (simp_all add: laser_ok_def nodes_def)
  obtain q' where q': "queue_set_at (laser_queue L) i (f (nodes L ! i)) = Some q'" "queue_inv q'"
      "queue_list q' = (queue_list (laser_queue L))[i := f (nodes L ! i)]"
    using queue_set_at_correct[OF q, of "f (nodes L ! i)"] by blast
  have "length (m_data q') = length (m_data (laser_queue L))"
    using q'(1) by (auto simp: queue_set_at_def option_inv)
  then have "shows_as L ((nodes L)[i := f (nodes L ! i)]) (m_fLength L) (L\<lparr>laser_queue := q'\<rparr>)"
    using q' assms(1) unfolding shows_as_def by (auto simp: laser_ok_def nodes_def intro!: exI[of _ q'])
  moreover have "laser_modify i f L = Some (L\<lparr>laser_queue := q'\<rparr>)"
    using q' queue_at_correct[OF q] by (simp add: laser_modify_def nodes_def)
  ultimately show ?thesis by blast
qed

subsection \<open>Directions\<close>

text \<open>The direction of the node at \<open>i\<close> in a list of nodes.\<close>

definition dir_of :: "'f laser_floats \<Rightarrow> 'f laser_node list \<Rightarrow> nat \<Rightarrow> 'f vec2" where
  "dir_of F xs i = (let p = (\<lambda>j. node_pos (xs ! j)) in
     if length xs \<le> 1 then (l_const F 0, l_const F 0)
     else if i = 0 then v2_normalized F (v2_quarter F (v2_sub F (p 1) (p 0)))
     else if i = length xs - 1 then v2_normalized F (v2_quarter F (v2_sub F (p i) (p (i - 1))))
     else middle_dir F (p (i - 1)) (p i) (p (i + 1)))"

definition spread :: "'f laser_floats \<Rightarrow> nat \<Rightarrow> 'f laser_node list \<Rightarrow> 'f laser_node list" where
  "spread F i xs = xs[i := set_dir (dir_of F xs i) (xs ! i)]"

lemma length_spread [simp]: "length (spread F i xs) = length xs"
  by (simp add: spread_def)

lemma UpdateNodeVertexExtend_ok:
  assumes "laser_ok L" "i < length (nodes L)"
  shows "\<exists>L'. UpdateNodeVertexExtend F i L = Some L' \<and> shows_as L (spread F i (nodes L)) (m_fLength L) L'"
proof -
  note at = laser_at_ok[OF assms(1)]
  have "UpdateNodeVertexExtend F i L = laser_modify i (set_dir (dir_of F (nodes L) i)) L"
    using at[OF assms(2)] at[of "i - 1"] at[of "i + 1"] assms(2)
    by (simp add: UpdateNodeVertexExtend_def laser_size_nodes dir_of_def Let_def) (auto simp: not_le)
  then show ?thesis using laser_modify_ok[OF assms] by (simp add: spread_def)
qed

text \<open>Spreading changes directions only.\<close>

definition undirected :: "'f laser_node \<Rightarrow> 'f vec2 \<times> 'f \<times> 'f \<times> bool" where
  "undirected n = (node_pos n, half_width n, dis n, node_active n)"

lemma undirected_set_dir [simp]: "undirected (set_dir d n) = undirected n" "node_pos (set_dir d n) = node_pos n"
  by (simp_all add: undirected_def set_dir_def)

lemma spread_undirected [simp]: "map undirected (spread F i xs) = map undirected xs"
  by (cases "i < length xs") (simp_all add: spread_def map_update list_update_same_conv list_update_beyond)

lemma spread_pos [simp]: "map node_pos (spread F i xs) = map node_pos xs"
  by (cases "i < length xs") (simp_all add: spread_def map_update list_update_same_conv list_update_beyond)

lemma dir_of_cong:
  assumes "map node_pos xs = map node_pos ys" "i < length xs" shows "dir_of F xs i = dir_of F ys i"
proof -
  have l: "length xs = length ys" using assms(1) by (metis length_map)
  have p: "node_pos (xs ! j) = node_pos (ys ! j)" if "j < length xs" for j
    using that l assms(1) by (metis nth_map)
  show ?thesis
    unfolding dir_of_def Let_def l using assms(2) l p[of 0] p[of 1] p[of i] p[of "i - 1"] p[of "i + 1"]
    by (auto simp: not_le)
qed

subsection \<open>Popping\<close>

definition pop_nodes :: "'f laser_floats \<Rightarrow> 'f laser_node list \<Rightarrow> 'f laser_node list" where
  "pop_nodes F xs = (case xs of [] \<Rightarrow> [] | [n] \<Rightarrow> [n] | [n, n'] \<Rightarrow> [n']
     | n # n' # rest \<Rightarrow> n'\<lparr>dis := l_const F 0\<rparr> # rest)"

definition pop_length :: "'f laser_floats \<Rightarrow> 'f laser_node list \<Rightarrow> 'f \<Rightarrow> 'f" where
  "pop_length F xs l = (if length xs > 2 \<and> node_active (xs ! 0) \<and> node_active (xs ! 1) then l_sub F l (dis (xs ! 1)) else l)"

lemma PopHead_ok:
  assumes "laser_ok L"
  shows "\<exists>L'. PopHead F L = Some L' \<and> shows_as L (pop_nodes F (nodes L)) (pop_length F (nodes L) (m_fLength L)) L'"
proof (cases "length (nodes L) \<le> 1")
  case True
  then show ?thesis using shows_as_refl[OF assms]
    by (cases "nodes L") (auto simp: PopHead_def laser_size_nodes pop_nodes_def pop_length_def)
next
  case False
  then obtain n n' rest where n: "nodes L = n # n' # rest"
    by (cases "nodes L" rule: remdups_adj.cases) auto
  obtain q where q: "popHead (laser_queue L) = Some (n, q)" "queue_inv q" "queue_list q = n' # rest"
      "length (m_data q) = length (m_data (laser_queue L))"
    using popHead_correct[of "laser_queue L" n "n' # rest"] assms n by (auto simp: laser_ok_def nodes_def)
  define k where "k = (if rest \<noteq> [] \<and> node_active n \<and> node_active n' then l_sub F (m_fLength L) (dis n') else m_fLength L)"
  let ?L1 = "L\<lparr>laser_queue := q\<rparr>"
  have sz: "m_size q = Suc (length rest)" using q(3) length_queue_list[of q] by simp
  have ok: "laser_ok (?L1\<lparr>m_fLength := k\<rparr>)" "nodes (?L1\<lparr>m_fLength := k\<rparr>) = n' # rest" "laser_ok ?L1" "nodes ?L1 = n' # rest"
    using q assms by (auto simp: laser_ok_def nodes_def)
  show ?thesis
  proof (cases "rest = []")
    case True
    have "shows_as L [n'] (m_fLength L) ?L1" using ok(3,4) True unfolding shows_as_def by (auto intro!: exI[of _ q])
    then show ?thesis using n True q(1) sz by (simp add: PopHead_def laser_size_nodes pop_nodes_def pop_length_def)
  next
    case rest: False
    obtain L' where L': "laser_modify 0 (\<lambda>n. n\<lparr>dis := l_const F 0\<rparr>) (?L1\<lparr>m_fLength := k\<rparr>) = Some L'"
        "shows_as (?L1\<lparr>m_fLength := k\<rparr>) (n'\<lparr>dis := l_const F 0\<rparr> # rest) k L'"
      using laser_modify_ok[OF ok(1), of 0] ok(2) by auto
    have "shows_as L (n' # rest) k (?L1\<lparr>m_fLength := k\<rparr>)"
      using ok(1,2) unfolding shows_as_def by (auto intro!: exI[of _ q])
    then have s: "shows_as L (n'\<lparr>dis := l_const F 0\<rparr> # rest) k L'" using L'(2) by (rule shows_as_trans)
    have len: "(if node_active n \<and> node_active n' then ?L1\<lparr>m_fLength := l_sub F (m_fLength ?L1) (dis n')\<rparr> else ?L1)
        = ?L1\<lparr>m_fLength := k\<rparr>" using rest by (simp add: k_def)
    have "PopHead F L = Some L'"
      using n q(1) sz rest L'(1) laser_at_ok[OF ok(3), of 0] ok(4)
      by (simp add: PopHead_def laser_size_nodes Let_def len split del: if_split)
    moreover have "pop_nodes F (nodes L) = n'\<lparr>dis := l_const F 0\<rparr> # rest" "pop_length F (nodes L) (m_fLength L) = k"
      using n rest by (cases rest; simp add: pop_nodes_def pop_length_def k_def)+
    ultimately show ?thesis using s by auto
  qed
qed

lemma length_pop_nodes: "length (pop_nodes F xs) = (if length xs > 1 then length xs - 1 else length xs)"
  by (auto simp: pop_nodes_def split: list.splits)

text \<open>\<open>k\<close> pops.\<close>

fun pops :: "'f laser_floats \<Rightarrow> nat \<Rightarrow> 'f laser_node list \<times> 'f \<Rightarrow> 'f laser_node list \<times> 'f" where
  "pops F 0 s = s"
| "pops F (Suc k) s = pops F k (pop_nodes F (fst s), pop_length F (fst s) (snd s))"

lemma length_pops: "k < length xs \<Longrightarrow> length (fst (pops F k (xs, l))) = length xs - k"
  by (induction k arbitrary: xs l) (auto simp: length_pop_nodes)

lemma pop_while_ok:
  assumes "laser_ok L" "1 \<le> n" "\<And>L'. laser_ok L' \<Longrightarrow> c L' \<longleftrightarrow> n < length (nodes L')"
  shows "\<exists>L'. pop_while F c L = Some L'
    \<and> (let r = pops F (length (nodes L) - n) (nodes L, m_fLength L) in shows_as L (fst r) (snd r) L')"
  using assms(1)
proof (induction "length (nodes L) - n" arbitrary: L)
  case 0
  then have "\<not> c L" using assms(3) by simp
  then show ?case using 0 shows_as_refl[OF 0(2)] by (subst pop_while.simps) (simp add: Let_def)
next
  case (Suc k)
  then have c: "c L" using assms(3) by simp
  obtain L1 where L1: "PopHead F L = Some L1" "shows_as L (pop_nodes F (nodes L)) (pop_length F (nodes L) (m_fLength L)) L1"
    using PopHead_ok[OF Suc.prems] by blast
  note d = shows_asD[OF L1(2)]
  have "k = length (nodes L1) - n" using Suc(2) assms(2) d(2) by (auto simp: length_pop_nodes)
  from Suc(1)[OF this d(1)] obtain L2 where L2: "pop_while F c L1 = Some L2"
      "let r = pops F k (nodes L1, m_fLength L1) in shows_as L1 (fst r) (snd r) L2"
    using \<open>k = length (nodes L1) - n\<close> by auto
  have "shows_as L (fst (pops F (Suc k) (nodes L, m_fLength L))) (snd (pops F (Suc k) (nodes L, m_fLength L))) L2"
    using shows_as_trans[OF L1(2)] L2(2) d(2,3) by (simp add: Let_def)
  then show ?case using c L1(1) L2(1) Suc(2) by (subst pop_while.simps) (auto simp: Let_def simp del: pops.simps)
qed

subsection \<open>Updating\<close>

definition gap :: "'f laser_floats \<Rightarrow> 'f laser_node \<Rightarrow> 'f laser_node \<Rightarrow> 'f" where
  "gap F n prev = v2_length F (v2_sub F (node_pos n) (node_pos prev))"

definition tail_nodes :: "'f laser_floats \<Rightarrow> 'f laser_node \<Rightarrow> 'f laser_node list \<Rightarrow> 'f laser_node list" where
  "tail_nodes F node xs = (let s = length xs in
     if s \<ge> 2 then spread F (s - 2) (spread F (s - 1)
       (xs[s - 1 := (xs ! (s - 1))\<lparr>node_pos := node_pos node, dis := gap F node (xs ! (s - 2))\<rparr>]))
     else map (\<lambda>n. n\<lparr>node_pos := node_pos node, half_width := half_width node, dis := l_const F 0,
       node_active := node_active node\<rparr>) xs)"

definition tail_length :: "'f laser_floats \<Rightarrow> 'f laser_node \<Rightarrow> 'f laser_node list \<Rightarrow> 'f \<Rightarrow> 'f" where
  "tail_length F node xs l = (if length xs \<ge> 2
     then l_add F (l_sub F l (dis (last xs))) (gap F node (xs ! (length xs - 2))) else l_const F 0)"

definition append_nodes :: "'f laser_floats \<Rightarrow> 'f laser_node \<Rightarrow> 'f laser_node list \<Rightarrow> 'f laser_node list" where
  "append_nodes F node xs = (if xs = [] then [node\<lparr>dis := l_const F 0\<rparr>]
     else spread F (length xs - 1) (spread F (length xs) (xs @ [node\<lparr>dis := gap F node (last xs)\<rparr>])))"

definition append_length :: "'f laser_floats \<Rightarrow> 'f laser_node \<Rightarrow> 'f laser_node list \<Rightarrow> 'f \<Rightarrow> 'f" where
  "append_length F node xs l = (if xs = [] then l_const F 0
     else if node_active node \<and> node_active (last xs) then l_add F l (gap F node (last xs)) else l)"

lemma update_tail_ok:
  assumes "laser_ok L" "nodes L \<noteq> []"
  shows "\<exists>L'. update_tail F node L = Some L' \<and> shows_as L (tail_nodes F node (nodes L)) (tail_length F node (nodes L) (m_fLength L)) L'"
proof (cases "length (nodes L) \<ge> 2")
  case True
  let ?s = "length (nodes L)" and ?len = "gap F node (nodes L ! (length (nodes L) - 2))"
  let ?k = "l_add F (l_sub F (m_fLength L) (dis (nodes L ! (?s - 1)))) ?len"
  obtain L1 where L1: "laser_modify (?s - 1) (\<lambda>n. n\<lparr>node_pos := node_pos node, dis := ?len\<rparr>) (L\<lparr>m_fLength := ?k\<rparr>) = Some L1"
      "shows_as (L\<lparr>m_fLength := ?k\<rparr>) ((nodes L)[?s - 1 := (nodes L ! (?s - 1))\<lparr>node_pos := node_pos node, dis := ?len\<rparr>]) ?k L1"
    using laser_modify_ok[of "L\<lparr>m_fLength := ?k\<rparr>" "?s - 1"] assms(1) True by force
  note d1 = shows_asD[OF L1(2)]
  have i: "?s - 1 < length (nodes L1)" "?s - 2 < length (nodes L1)" using d1(2) True by simp_all
  obtain L2 where L2: "UpdateNodeVertexExtend F (?s - 1) L1 = Some L2" "shows_as L1 (spread F (?s - 1) (nodes L1)) (m_fLength L1) L2"
    using UpdateNodeVertexExtend_ok[OF d1(1) i(1)] by blast
  note d2 = shows_asD[OF L2(2)]
  obtain L3 where L3: "UpdateNodeVertexExtend F (?s - 2) L2 = Some L3" "shows_as L2 (spread F (?s - 2) (nodes L2)) (m_fLength L2) L3"
    using UpdateNodeVertexExtend_ok[OF d2(1), of "?s - 2" F] i(2) d2(2) by auto
  have "shows_as L (nodes L) ?k (L\<lparr>m_fLength := ?k\<rparr>)" using shows_as_length[OF shows_as_refl[OF assms(1)]] .
  from shows_as_trans[OF this L1(2)] have "shows_as L (spread F (?s - 2) (nodes L2)) ?k L3"
    using shows_as_trans[OF _ L2(2)] shows_as_trans[OF _ L3(2)] d1(3) d2(3) by metis
  moreover have "update_tail F node L = Some L3"
    using True L1(1) L2(1) L3(1) laser_at_ok[OF assms(1)] by (simp add: update_tail_def laser_size_nodes Let_def gap_def)
  ultimately show ?thesis
    using True d2(2) d1(2) assms(2) by (simp add: tail_nodes_def tail_length_def Let_def last_conv_nth)
next
  case False
  then obtain n where n: "nodes L = [n]" using assms(2) by (cases "nodes L") (auto simp: not_le Suc_le_eq)
  show ?thesis
    using laser_modify_ok[OF assms(1), of 0] n shows_as_length
    by (fastforce simp: update_tail_def laser_size_nodes tail_nodes_def tail_length_def Let_def)
qed

lemma push_node_ok:
  assumes "laser_ok L" "length (nodes L) < LGOBJ_MAXLASERNODE"
  shows "\<exists>L'. push_node n L = Some L' \<and> shows_as L (nodes L @ [n]) (m_fLength L) L'"
proof -
  have q: "queue_inv (laser_queue L)" "m_size (laser_queue L) < length (m_data (laser_queue L))"
    using assms by (simp_all add: laser_ok_def nodes_def)
  obtain q' where "pushTail (laser_queue L) n = Some q'" "queue_inv q'" "queue_list q' = queue_list (laser_queue L) @ [n]"
      "length (m_data q') = length (m_data (laser_queue L))"
    using pushTail_correct[OF q] by blast
  then show ?thesis
    using assms(1) unfolding shows_as_def by (auto simp: push_node_def laser_ok_def nodes_def)
qed

lemma append_node_ok:
  assumes "laser_ok L" "length (nodes L) < LGOBJ_MAXLASERNODE"
  shows "\<exists>L'. append_node F node L = Some L' \<and> shows_as L (append_nodes F node (nodes L)) (append_length F node (nodes L) (m_fLength L)) L'"
proof (cases "nodes L = []")
  case True
  let ?L = "L\<lparr>m_fLength := l_const F 0\<rparr>"
  obtain L' where "push_node (node\<lparr>dis := l_const F 0\<rparr>) ?L = Some L'" "shows_as ?L (nodes L @ [node\<lparr>dis := l_const F 0\<rparr>]) (l_const F 0) L'"
    using push_node_ok[of ?L "node\<lparr>dis := l_const F 0\<rparr>"] assms by auto
  then show ?thesis using True shows_as_trans[OF shows_as_length[OF shows_as_refl[OF assms(1)]]]
    by (auto simp: append_node_def laser_size_nodes append_nodes_def append_length_def)
next
  case False
  let ?s = "length (nodes L)" and ?k = "append_length F node (nodes L) (m_fLength L)"
  let ?n = "node\<lparr>dis := gap F node (last (nodes L))\<rparr>"
  have at: "laser_at (?s - 1) L = Some (last (nodes L))" using laser_at_ok[OF assms(1)] False by (simp add: last_conv_nth)
  obtain L1 where L1: "push_node ?n (L\<lparr>m_fLength := ?k\<rparr>) = Some L1" "shows_as (L\<lparr>m_fLength := ?k\<rparr>) (nodes L @ [?n]) ?k L1"
    using push_node_ok[of "L\<lparr>m_fLength := ?k\<rparr>" ?n] assms by auto
  note d1 = shows_asD[OF L1(2)]
  obtain L2 where L2: "UpdateNodeVertexExtend F ?s L1 = Some L2" "shows_as L1 (spread F ?s (nodes L1)) (m_fLength L1) L2"
    using UpdateNodeVertexExtend_ok[OF d1(1), of ?s] d1(2) by auto
  note d2 = shows_asD[OF L2(2)]
  obtain L3 where L3: "UpdateNodeVertexExtend F (?s - 1) L2 = Some L3" "shows_as L2 (spread F (?s - 1) (nodes L2)) (m_fLength L2) L3"
    using UpdateNodeVertexExtend_ok[OF d2(1), of "?s - 1" F] d2(2) d1(2) by (auto simp: less_Suc_eq_le)
  have "shows_as L (nodes L) ?k (L\<lparr>m_fLength := ?k\<rparr>)" using shows_as_length[OF shows_as_refl[OF assms(1)]] .
  from shows_as_trans[OF this L1(2)] have "shows_as L (spread F (?s - 1) (nodes L2)) ?k L3"
    using shows_as_trans[OF _ L2(2)] shows_as_trans[OF _ L3(2)] d1(3) d2(3) by metis
  moreover have "append_node F node L = Some L3"
  proof -
    have len: "(if node_active node \<and> node_active (last (nodes L))
        then L\<lparr>m_fLength := l_add F (m_fLength L) (v2_length F (v2_sub F (node_pos node) (node_pos (last (nodes L)))))\<rparr> else L)
        = L\<lparr>m_fLength := ?k\<rparr>"
      using False by (simp add: append_length_def gap_def)
    have sz: "laser_size L1 = ?s + 1" "laser_size L2 = ?s + 1" using d1(2) d2(2) by (simp_all add: laser_size_nodes)
    then show ?thesis
      using False L1(1) L2(1) L3(1) at
      by (simp add: append_node_def laser_size_nodes[of L] Let_def len gap_def split del: if_split)
  qed
  ultimately show ?thesis using False d2(2) d1(2) by (simp add: append_nodes_def)
qed

text \<open>What \<open>Update\<close> makes of the nodes and of the length.\<close>

definition update_spec :: "'f laser_floats \<Rightarrow> 'f laser_node \<Rightarrow> nat \<Rightarrow> 'f laser_node list \<times> 'f \<Rightarrow> 'f laser_node list \<times> 'f" where
  "update_spec F node n s = (let xs = fst s in
     if xs \<noteq> [] \<and> l_le F (gap F node (last xs)) (l_min F)
     then let r = pops F (length xs - (n - 1)) s in (tail_nodes F node (fst r), tail_length F node (fst r) (snd r))
     else let r = pops F (length xs - (min n LGOBJ_MAXLASERNODE - 1)) s in
       (append_nodes F node (fst r), append_length F node (fst r) (snd r)))"

definition update_node :: "'f laser_floats \<Rightarrow> 'f \<Rightarrow> 'f \<Rightarrow> 'f \<Rightarrow> bool \<Rightarrow> 'f laser_node" where
  "update_node F x y width active = (new_node F)\<lparr>node_pos := (x, y), half_width := l_mul F width (l_half F), node_active := active\<rparr>"

lemma queue_tail_nodes:
  assumes "laser_ok L" "nodes L \<noteq> []" shows "queue_tail (laser_queue L) = Some (last (nodes L))"
proof -
  let ?q = "laser_queue L" and ?N = "length (m_data (laser_queue L))"
  have s: "m_size ?q \<noteq> 0" "queue_inv ?q" "0 < ?N"
    using assms queue_list_Nil_iff[of ?q] unfolding laser_ok_def nodes_def LGOBJ_MAXLASERNODE_def by auto
  have "(m_back ?q + ?N - 1) mod ?N = ((m_front ?q + m_size ?q) mod ?N + (?N - 1)) mod ?N"
  proof -
    have "m_back ?q + ?N - 1 = m_back ?q + (?N - 1)" using s(3) by arith
    then show ?thesis using s(2) by (simp add: queue_inv_def)
  qed
  also have "\<dots> = (m_front ?q + m_size ?q + (?N - 1)) mod ?N" by (rule mod_add_left_eq)
  also have "m_front ?q + m_size ?q + (?N - 1) = m_front ?q + (m_size ?q - 1) + ?N" using s(1,3) by arith
  finally have "(m_back ?q + ?N - 1) mod ?N = (m_front ?q + (m_size ?q - 1)) mod ?N" by simp
  then have "queue_tail ?q = Some (m_data ?q ! ((m_front ?q + (m_size ?q - 1)) mod ?N))"
    using s by (simp add: queue_tail_def queue_empty_def)
  then show ?thesis using assms(2) s by (simp add: nodes_def last_conv_nth queue_list_nth)
qed

lemma laser_Update_ok:
  assumes "laser_ok L" "2 \<le> len"
  shows "\<exists>L'. laser_Update F x y len width active L = Some (True, L')
    \<and> (let r = update_spec F (update_node F x y width active) (nat len) (nodes L, m_fLength L) in shows_as L (fst r) (snd r) L')"
proof -
  let ?node = "update_node F x y width active" and ?n = "nat len"
  have n: "2 \<le> ?n" using assms(2) by simp
  define near where "near = (nodes L \<noteq> [] \<and> l_le F (gap F ?node (last (nodes L))) (l_min F))"
  have near: "(if laser_size L = 0 then Some False
        else map_option (\<lambda>tail. l_le F (v2_length F (v2_sub F (node_pos ?node) (node_pos tail))) (l_min F))
          (queue_tail (laser_queue L))) = Some near"
    using queue_tail_nodes[OF assms(1)] by (auto simp: near_def laser_size_nodes gap_def)
  have upd: "laser_Update F x y len width active L = map_option (Pair True) (if near
      then Option.bind (pop_while F (\<lambda>L. laser_size L \<ge> ?n) L) (update_tail F ?node)
      else Option.bind (pop_while F (\<lambda>L. queue_full (laser_queue L) \<or> laser_size L \<ge> ?n) L) (append_node F ?node))"
    using near assms(2) unfolding laser_Update_def Let_def update_node_def[symmetric] by simp
  show ?thesis
  proof (cases near)
    case True
    let ?r = "pops F (length (nodes L) - (?n - 1)) (nodes L, m_fLength L)"
    obtain L1 where L1: "pop_while F (\<lambda>L. laser_size L \<ge> ?n) L = Some L1" "shows_as L (fst ?r) (snd ?r) L1"
    proof -
      have "laser_size L' \<ge> ?n \<longleftrightarrow> ?n - 1 < length (nodes L')" for L' :: "'a bent_laser"
        using n by (auto simp: laser_size_nodes)
      moreover have "1 \<le> ?n - 1" using n by simp
      ultimately show ?thesis
        using that pop_while_ok[OF assms(1), of "?n - 1" "\<lambda>L. laser_size L \<ge> ?n" F] unfolding Let_def by blast
    qed
    note d = shows_asD[OF L1(2)]
    have "length (nodes L) - (?n - 1) < length (nodes L)" 
    proof -
      have "0 < length (nodes L)" using True by (simp add: near_def)
      then show ?thesis using n by arith
    qed
    from length_pops[OF this, of F "m_fLength L"] this have "nodes L1 \<noteq> []" unfolding d(2) by auto
    then obtain L2 where L2: "update_tail F ?node L1 = Some L2"
        "shows_as L1 (tail_nodes F ?node (nodes L1)) (tail_length F ?node (nodes L1) (m_fLength L1)) L2"
      using update_tail_ok[OF d(1)] by blast
    show ?thesis using True upd L1(1) L2 shows_as_trans[OF L1(2) L2(2)] d(2,3)
      by (auto simp: update_spec_def near_def Let_def)
  next
    case False
    let ?m = "min ?n LGOBJ_MAXLASERNODE - 1"
    let ?r = "pops F (length (nodes L) - ?m) (nodes L, m_fLength L)"
    have m: "1 \<le> ?m" using n by (simp add: LGOBJ_MAXLASERNODE_def)
    have c: "queue_full (laser_queue L') \<or> laser_size L' \<ge> ?n \<longleftrightarrow> ?m < length (nodes L')" if "laser_ok L'" for L' :: "'a bent_laser"
      using that m by (auto simp: laser_ok_def queue_full_def laser_size_def nodes_def)
    obtain L1 where L1: "pop_while F (\<lambda>L. queue_full (laser_queue L) \<or> laser_size L \<ge> ?n) L = Some L1" "shows_as L (fst ?r) (snd ?r) L1"
      using pop_while_ok[OF assms(1) m, of "\<lambda>L. queue_full (laser_queue L) \<or> laser_size L \<ge> ?n" F] c by (auto simp: Let_def)
    note d = shows_asD[OF L1(2)]
    have "length (nodes L1) < LGOBJ_MAXLASERNODE"
    proof (cases "nodes L = []")
      case False
      then have "0 < length (nodes L)" by simp
      then have k: "length (nodes L) - ?m < length (nodes L)" using m by arith
      have "?m < LGOBJ_MAXLASERNODE" by (simp add: LGOBJ_MAXLASERNODE_def)
      then show ?thesis using length_pops[OF k, of F "m_fLength L"] unfolding d(2) by arith
    qed (use d(2) in \<open>simp add: LGOBJ_MAXLASERNODE_def\<close>)
    then obtain L2 where L2: "append_node F ?node L1 = Some L2"
        "shows_as L1 (append_nodes F ?node (nodes L1)) (append_length F ?node (nodes L1) (m_fLength L1)) L2"
      using append_node_ok[OF d(1)] by blast
    show ?thesis using False upd L1(1) L2 shows_as_trans[OF L1(2) L2(2)] d(2,3)
      by (auto simp: update_spec_def near_def Let_def)
  qed
qed

end
