(* ===== verification/BentLaserShape.thy ===== *)
theory BentLaserShape
  imports BentLaserNodes
begin

text \<open>
  What the operations of the bent laser keep: the directions of its nodes, and the distances,
  directions and length that a full update recomputes.
\<close>

subsection \<open>The full update\<close>

fun gaps :: "'f laser_floats \<Rightarrow> 'f laser_node list \<Rightarrow> 'f list" where
  "gaps F [] = []"
| "gaps F [n] = []"
| "gaps F (a # b # ns) = (if node_active a \<and> node_active b then gap F b a # gaps F (b # ns) else gaps F (b # ns))"

lemma gaps_snoc:
  "xs \<noteq> [] \<Longrightarrow> gaps F (xs @ [n]) = gaps F xs @ (if node_active (last xs) \<and> node_active n then [gap F n (last xs)] else [])"
  by (induction F xs rule: gaps.induct) auto

definition body :: "'f laser_node \<Rightarrow> 'f vec2 \<times> 'f \<times> bool" where
  "body n = (node_pos n, half_width n, node_active n)"

lemma body_simps [simp]: "body (n\<lparr>dis := d\<rparr>) = body n" "body (set_dir v n) = body n"
  by (simp_all add: body_def set_dir_def)

lemma body_nth:
  assumes "map body xs = map body ys" "i < length xs"
  shows "node_pos (xs ! i) = node_pos (ys ! i)" "node_active (xs ! i) = node_active (ys ! i)"
    "half_width (xs ! i) = half_width (ys ! i)"
proof -
  have "length xs = length ys" using assms(1) by (metis length_map)
  then have "body (xs ! i) = body (ys ! i)" using assms by (metis nth_map)
  then show "node_pos (xs ! i) = node_pos (ys ! i)" "node_active (xs ! i) = node_active (ys ! i)"
    "half_width (xs ! i) = half_width (ys ! i)" by (simp_all add: body_def)
qed

lemma body_length: "map body xs = map body ys \<Longrightarrow> length xs = length ys"
  by (metis length_map)

lemma body_pos: "map body xs = map body ys \<Longrightarrow> map node_pos xs = map node_pos ys"
  by (metis (no_types, lifting) body_length body_nth(1) length_map nth_equalityI nth_map)

lemma body_gaps: "map body xs = map body ys \<Longrightarrow> gaps F xs = gaps F ys"
proof (induction F xs arbitrary: ys rule: gaps.induct)
  case (3 F a b ns)
  obtain a' b' ns' where ys: "ys = a' # b' # ns'" using 3(3) by (cases ys rule: remdups_adj.cases) auto
  have "gaps F (b # ns) = gaps F (b' # ns')" using 3 ys by (cases "node_active a \<and> node_active b") auto
  moreover have "body a = body a'" "body b = body b'" using 3(3) ys by auto
  ultimately show ?case using ys by (simp add: body_def gap_def)
qed auto

text \<open>The loop over the distances, \<open>m\<close> turns of it.\<close>

lemma measure_loop:
  assumes "laser_ok L" "m < length (nodes L)"
  shows "\<exists>L' ys. fold_option (measure_step F) [0..<m] L = Some L'
    \<and> shows_as L ys (foldl (l_add F) (m_fLength L) (gaps F (take (Suc m) (nodes L)))) L'
    \<and> map body ys = map body (nodes L) \<and> dis (ys ! 0) = dis (nodes L ! 0)
    \<and> (\<forall>i < m. dis (ys ! Suc i) = gap F (nodes L ! Suc i) (nodes L ! i))"
  using assms(2)
proof (induction m)
  case 0
  then show ?case using shows_as_refl[OF assms(1)] by (intro exI[of _ L] exI[of _ "nodes L"]) (cases "nodes L"; simp)
next
  case (Suc m)
  obtain L1 ys where IH: "fold_option (measure_step F) [0..<m] L = Some L1"
      "shows_as L ys (foldl (l_add F) (m_fLength L) (gaps F (take (Suc m) (nodes L)))) L1" "map body ys = map body (nodes L)"
      "dis (ys ! 0) = dis (nodes L ! 0)" "\<forall>i < m. dis (ys ! Suc i) = gap F (nodes L ! Suc i) (nodes L ! i)"
    using Suc.IH Suc.prems by auto
  note d = shows_asD[OF IH(2)]
  have len: "length ys = length (nodes L)" using body_length[OF IH(3)] .
  note b = body_nth[OF IH(3)]
  let ?g = "gap F (nodes L ! Suc m) (nodes L ! m)"
  have g: "gap F (ys ! Suc m) (ys ! m) = ?g" using b[of m] b[of "Suc m"] len Suc.prems by (simp add: gap_def)
  obtain L2 where L2: "laser_modify (m + 1) (\<lambda>n. n\<lparr>dis := ?g\<rparr>) L1 = Some L2"
      "shows_as L1 (ys[m + 1 := (ys ! (m + 1))\<lparr>dis := ?g\<rparr>]) (m_fLength L1) L2"
    using laser_modify_ok[OF d(1), of "m + 1" "\<lambda>n. n\<lparr>dis := ?g\<rparr>"] d(2) len Suc.prems by auto
  note d2 = shows_asD[OF L2(2)]
  let ?both = "node_active (nodes L ! m) \<and> node_active (nodes L ! Suc m)"
  let ?k = "if ?both then l_add F (m_fLength L2) ?g else m_fLength L2"
  have step: "measure_step F m L1 = Some (L2\<lparr>m_fLength := ?k\<rparr>)"
    using laser_at_ok[OF d(1)] d(2) len Suc.prems L2(1) b[of m] b[of "Suc m"]
    by (simp add: measure_step_def Let_def gap_def)
  have t: "take (Suc (Suc m)) (nodes L) = take (Suc m) (nodes L) @ [nodes L ! Suc m]"
    using Suc.prems by (simp add: take_Suc_conv_app_nth)
  have "last (take (Suc m) (nodes L)) = nodes L ! m" using Suc.prems by (simp add: take_Suc_conv_app_nth)
  then have "gaps F (take (Suc (Suc m)) (nodes L)) = gaps F (take (Suc m) (nodes L)) @ (if ?both then [?g] else [])"
    unfolding t using Suc.prems by (subst gaps_snoc) auto
  then have k: "foldl (l_add F) (m_fLength L) (gaps F (take (Suc (Suc m)) (nodes L))) = ?k"
    using d(3) d2(3) by simp
  have "shows_as L (ys[m + 1 := (ys ! (m + 1))\<lparr>dis := ?g\<rparr>]) ?k (L2\<lparr>m_fLength := ?k\<rparr>)"
    using shows_as_length[OF shows_as_trans[OF IH(2) L2(2)]] .
  moreover have "map body (ys[m + 1 := (ys ! (m + 1))\<lparr>dis := ?g\<rparr>]) = map body (nodes L)"
    using IH(3) by (cases "m + 1 < length ys") (simp_all add: map_update list_update_same_conv list_update_beyond flip: IH(3))
  moreover have "fold_option (measure_step F) [0..<Suc m] L = Some (L2\<lparr>m_fLength := ?k\<rparr>)"
    using IH(1) step by (simp add: fold_option_append)
  ultimately show ?case
    using IH(4,5) len Suc.prems unfolding k by (intro exI[of _ "L2\<lparr>m_fLength := ?k\<rparr>"] exI[of _ "ys[m + 1 := (ys ! (m + 1))\<lparr>dis := ?g\<rparr>]"] conjI)
      (auto simp: nth_list_update less_Suc_eq)
qed

definition node_dir :: "'f laser_node \<Rightarrow> 'f vec2" where
  "node_dir n = (x_dir n, y_dir n)"

lemma node_dir_set [simp]: "node_dir (set_dir v n) = v"
  by (simp add: node_dir_def set_dir_def)

lemma spread_body [simp]: "map body (spread F i xs) = map body xs"
  by (cases "i < length xs") (simp_all add: spread_def map_update list_update_same_conv list_update_beyond)

lemma spread_dis [simp]: "map dis (spread F i xs) = map dis xs"
  by (cases "i < length xs") (simp_all add: spread_def set_dir_def map_update list_update_same_conv list_update_beyond)

lemma extend_loop:
  assumes "laser_ok L" "m \<le> length (nodes L)"
  shows "\<exists>L' ys. fold_option (UpdateNodeVertexExtend F) [0..<m] L = Some L' \<and> shows_as L ys (m_fLength L) L'
    \<and> map body ys = map body (nodes L) \<and> map dis ys = map dis (nodes L)
    \<and> (\<forall>i < m. node_dir (ys ! i) = dir_of F ys i \<and> \<not> sharp (ys ! i))"
  using assms(2)
proof (induction m)
  case 0
  then show ?case using shows_as_refl[OF assms(1)] by (intro exI[of _ L] exI[of _ "nodes L"]) simp
next
  case (Suc m)
  obtain L1 ys where IH: "fold_option (UpdateNodeVertexExtend F) [0..<m] L = Some L1" "shows_as L ys (m_fLength L) L1"
      "map body ys = map body (nodes L)" "map dis ys = map dis (nodes L)"
      "\<forall>i < m. node_dir (ys ! i) = dir_of F ys i \<and> \<not> sharp (ys ! i)"
    using Suc.IH Suc.prems by auto
  note d = shows_asD[OF IH(2)]
  have len: "length ys = length (nodes L)" using body_length[OF IH(3)] .
  obtain L2 where L2: "UpdateNodeVertexExtend F m L1 = Some L2" "shows_as L1 (spread F m ys) (m_fLength L1) L2"
    using UpdateNodeVertexExtend_ok[OF d(1), of m F] d(2) len Suc.prems by auto
  have "fold_option (UpdateNodeVertexExtend F) [0..<Suc m] L = Some L2" using IH(1) L2(1) by (simp add: fold_option_append)
  moreover have "shows_as L (spread F m ys) (m_fLength L) L2" using shows_as_trans[OF IH(2) L2(2)] d(3) by simp
  moreover have "node_dir (spread F m ys ! i) = dir_of F (spread F m ys) i \<and> \<not> sharp (spread F m ys ! i)" if "i < Suc m" for i
  proof -
    have "dir_of F (spread F m ys) i = dir_of F ys i" by (rule dir_of_cong) (use that len Suc.prems in simp_all)
    then show ?thesis using that IH(5) len Suc.prems by (cases "i = m") (auto simp: spread_def nth_list_update set_dir_def node_dir_def)
  qed
  ultimately show ?case using IH(3,4) by (intro exI[of _ L2] exI[of _ "spread F m ys"]) simp
qed

text \<open>The shape of a node list: distances and directions are those of the positions.\<close>

definition in_shape :: "'f laser_floats \<Rightarrow> 'f laser_node list \<Rightarrow> bool" where
  "in_shape F xs \<longleftrightarrow> (xs \<noteq> [] \<longrightarrow> dis (xs ! 0) = l_const F 0)
    \<and> (\<forall>i. Suc i < length xs \<longrightarrow> dis (xs ! Suc i) = gap F (xs ! Suc i) (xs ! i))
    \<and> (\<forall>i < length xs. node_dir (xs ! i) = dir_of F xs i \<and> \<not> sharp (xs ! i))"

lemma UpdateAllNode_ok:
  assumes "laser_ok L"
  shows "\<exists>L' ys. UpdateAllNode F L = Some L' \<and> shows_as L ys (foldl (l_add F) (l_const F 0) (gaps F ys)) L'
    \<and> map body ys = map body (nodes L) \<and> in_shape F ys"
proof -
  let ?L = "L\<lparr>m_fLength := l_const F 0\<rparr>"
  have s: "shows_as L (nodes L) (l_const F 0) ?L" using shows_as_length[OF shows_as_refl[OF assms]] .
  consider "nodes L = []" | n where "nodes L = [n]" | "2 \<le> length (nodes L)"
    by (cases "nodes L" rule: remdups_adj.cases) auto
  then show ?thesis
  proof cases
    case 1
    then show ?thesis using s by (intro exI[of _ ?L] exI[of _ "[]"]) (simp add: UpdateAllNode_def laser_size_nodes in_shape_def)
  next
    case 2
    let ?z = "l_const F 0"
    obtain L' where "laser_modify 0 (\<lambda>n. n\<lparr>dis := ?z, x_dir := ?z, y_dir := ?z, sharp := False\<rparr>) ?L = Some L'"
        "shows_as ?L [n\<lparr>dis := ?z, x_dir := ?z, y_dir := ?z, sharp := False\<rparr>] ?z L'"
      using laser_modify_ok[of ?L 0 "\<lambda>n. n\<lparr>dis := ?z, x_dir := ?z, y_dir := ?z, sharp := False\<rparr>"] assms 2 by auto
    then show ?thesis using 2 shows_as_trans[OF s]
      by (intro exI[of _ L'] exI[of _ "[n\<lparr>dis := ?z, x_dir := ?z, y_dir := ?z, sharp := False\<rparr>]"])
        (simp add: UpdateAllNode_def laser_size_nodes in_shape_def body_def node_dir_def dir_of_def)
  next
    case 3
    let ?z = "l_const F 0" and ?n = "length (nodes L)"
    let ?xs = "(nodes L)[0 := (nodes L ! 0)\<lparr>dis := ?z\<rparr>]"
    obtain L1 where L1: "laser_modify 0 (\<lambda>n. n\<lparr>dis := ?z\<rparr>) ?L = Some L1" "shows_as ?L ?xs ?z L1"
      using laser_modify_ok[of ?L 0 "\<lambda>n. n\<lparr>dis := ?z\<rparr>"] assms 3 by force
    note d1 = shows_asD[OF L1(2)]
    have xs: "length ?xs = ?n" "map body ?xs = map body (nodes L)" "dis (?xs ! 0) = ?z"
    proof -
      show "length ?xs = ?n" by simp
      show "dis (?xs ! 0) = ?z" using 3 by (subst nth_list_update_eq) auto
      have "body (nodes L ! 0) = map body (nodes L) ! 0" using 3 by (subst nth_map) auto
      then show "map body ?xs = map body (nodes L)" by (simp only: map_update body_simps list_update_id)
    qed
    have lt: "?n - 1 < length (nodes L1)" unfolding d1(2) xs(1) using 3 by arith
    obtain L2 ys where L2: "fold_option (measure_step F) [0..<?n - 1] L1 = Some L2"
        "shows_as L1 ys (foldl (l_add F) ?z (gaps F (take (Suc (?n - 1)) ?xs))) L2"
        "map body ys = map body ?xs" "dis (ys ! 0) = dis (?xs ! 0)" "\<forall>i < ?n - 1. dis (ys ! Suc i) = gap F (?xs ! Suc i) (?xs ! i)"
      using measure_loop[OF d1(1) lt, of F] unfolding d1(2,3) by blast
    note d2 = shows_asD[OF L2(2)]
    have ly: "length ys = ?n" using body_length[OF L2(3)] xs(1) by simp
    obtain L3 zs where L3: "fold_option (UpdateNodeVertexExtend F) [0..<?n] L2 = Some L3" "shows_as L2 zs (m_fLength L2) L3"
        "map body zs = map body ys" "map dis zs = map dis ys"
        "\<forall>i < ?n. node_dir (zs ! i) = dir_of F zs i \<and> \<not> sharp (zs ! i)"
      using extend_loop[OF d2(1), of ?n F] d2(2) ly by auto
    have lz: "length zs = ?n" using body_length[OF L3(3)] ly by simp
    have zx: "map body zs = map body ?xs" using L3(3) L2(3) by simp
    have dis: "dis (zs ! i) = dis (ys ! i)" if "i < ?n" for i using that lz ly L3(4) by (metis nth_map)
    have "gap F (zs ! Suc i) (zs ! i) = gap F (?xs ! Suc i) (?xs ! i)" if "Suc i < ?n" for i
      using that body_nth[OF zx] lz by (simp add: gap_def)
    moreover have "dis (zs ! 0) = ?z" using dis[of 0] 3 L2(4) xs(3) by (metis le_less_trans not_numeral_le_zero not_gr_zero)
    ultimately have shape: "in_shape F zs"
      using L3(5) lz 3 dis L2(5) unfolding in_shape_def by auto
    have "gaps F (take (Suc (?n - 1)) ?xs) = gaps F zs" using body_gaps[OF zx] 3 xs(1) by simp
    then have "shows_as L zs (foldl (l_add F) ?z (gaps F zs)) L3"
      using shows_as_trans[OF shows_as_trans[OF shows_as_trans[OF s L1(2)] L2(2)] L3(2)] d2(3) by simp
    moreover have "UpdateAllNode F L = Some L3"
    proof -
      have "length (nodes L) \<noteq> 0" "length (nodes L) \<noteq> 1" using 3 by linarith+
      then show ?thesis using L1(1) L2(1) L3(1) by (simp add: UpdateAllNode_def laser_size_nodes Let_def)
    qed
    ultimately show ?thesis using shape zx xs(2) by auto
  qed
qed

subsection \<open>What updating keeps\<close>

text \<open>The shape behind the oldest node: popping leaves that node's direction as it was.\<close>

definition trail_shape :: "'f laser_floats \<Rightarrow> 'f laser_node list \<Rightarrow> bool" where
  "trail_shape F xs \<longleftrightarrow> (\<forall>i. Suc i < length xs \<longrightarrow> dis (xs ! Suc i) = gap F (xs ! Suc i) (xs ! i)
     \<and> node_dir (xs ! Suc i) = dir_of F xs (Suc i) \<and> \<not> sharp (xs ! Suc i))"

lemma in_shape_trail: "in_shape F xs \<Longrightarrow> trail_shape F xs"
  by (simp add: in_shape_def trail_shape_def)

lemma dir_of_middle:
  "0 < i \<Longrightarrow> i + 1 < length xs \<Longrightarrow> dir_of F xs i = middle_dir F (node_pos (xs ! (i - 1))) (node_pos (xs ! i)) (node_pos (xs ! (i + 1)))"
  by (auto simp: dir_of_def Let_def)

lemma dir_of_newest:
  assumes "Suc (Suc j) = length xs"
  shows "dir_of F xs (Suc j) = v2_normalized F (v2_quarter F (v2_sub F (node_pos (xs ! Suc j)) (node_pos (xs ! j))))"
  by (simp add: dir_of_def Let_def flip: assms)

lemma dir_of_tl:
  assumes "map node_pos ys = tl (map node_pos xs)" "Suc i < length ys"
  shows "dir_of F ys (Suc i) = dir_of F xs (Suc (Suc i))"
proof -
  have "length ys = length xs - 1" using arg_cong[OF assms(1), of length] by simp
  then have l: "length xs = Suc (length ys)" using assms(2) by arith
  have p: "node_pos (ys ! j) = node_pos (xs ! Suc j)" if "j < length ys" for j
    using that l assms(1) by (metis Suc_less_eq length_map nth_map nth_tl)
  show ?thesis
  proof (cases "Suc (Suc i) = length ys")
    case True
    have "dir_of F xs (Suc (Suc i)) = v2_normalized F (v2_quarter F (v2_sub F (node_pos (xs ! Suc (Suc i))) (node_pos (xs ! Suc i))))"
      by (rule dir_of_newest) (simp only: l True)
    moreover have "dir_of F ys (Suc i) = v2_normalized F (v2_quarter F (v2_sub F (node_pos (ys ! Suc i)) (node_pos (ys ! i))))"
      by (rule dir_of_newest) (simp only: True)
    ultimately show ?thesis using p[of i] p[of "Suc i"] True by simp
  next
    case False
    then show ?thesis using p[of i] p[of "Suc i"] p[of "Suc (Suc i)"] l assms(2) by (simp add: dir_of_middle)
  qed
qed

lemma pop_nodes_keeps:
  assumes "1 < length xs"
  shows "map body (pop_nodes F xs) = tl (map body xs)" "trail_shape F xs \<Longrightarrow> trail_shape F (pop_nodes F xs)"
proof -
  obtain a b r where xs: "xs = a # b # r" using assms by (cases xs rule: remdups_adj.cases) auto
  show b: "map body (pop_nodes F xs) = tl (map body xs)" by (cases r) (simp_all add: xs pop_nodes_def)
  have p: "map node_pos (pop_nodes F xs) = tl (map node_pos xs)" by (cases r) (simp_all add: xs pop_nodes_def)
  have n: "pop_nodes F xs ! Suc i = xs ! Suc (Suc i)" "node_pos (pop_nodes F xs ! i) = node_pos (xs ! Suc i)"
    if "Suc i < length (pop_nodes F xs)" for i
    using that by (cases r; cases i; simp add: xs pop_nodes_def)+
  assume t: "trail_shape F xs"
  show "trail_shape F (pop_nodes F xs)"
    unfolding trail_shape_def
  proof (intro allI impI)
    fix i assume i: "Suc i < length (pop_nodes F xs)"
    then have "Suc (Suc i) < length xs" using assms by (simp add: length_pop_nodes)
    then have "dis (xs ! Suc (Suc i)) = gap F (xs ! Suc (Suc i)) (xs ! Suc i)
      \<and> node_dir (xs ! Suc (Suc i)) = dir_of F xs (Suc (Suc i)) \<and> \<not> sharp (xs ! Suc (Suc i))"
      using t by (simp add: trail_shape_def)
    then show "dis (pop_nodes F xs ! Suc i) = gap F (pop_nodes F xs ! Suc i) (pop_nodes F xs ! i)
      \<and> node_dir (pop_nodes F xs ! Suc i) = dir_of F (pop_nodes F xs) (Suc i) \<and> \<not> sharp (pop_nodes F xs ! Suc i)"
      using n[OF i] dir_of_tl[OF p i] by (simp add: gap_def)
  qed
qed

lemma pops_keeps:
  assumes "k < length xs"
  shows "map body (fst (pops F k (xs, l))) = drop k (map body xs)"
    "trail_shape F xs \<Longrightarrow> trail_shape F (fst (pops F k (xs, l)))"
  using assms
proof (induction k arbitrary: xs l)
  case (Suc k)
  {
    case 1
    then have "1 < length xs" by simp
    then show ?case using Suc.IH(1)[of "pop_nodes F xs"] 1 pop_nodes_keeps(1)[of xs F] by (simp add: length_pop_nodes drop_Suc)
  next
    case 2
    then have "1 < length xs" by simp
    then show ?case using Suc.IH(2)[of "pop_nodes F xs"] 2 pop_nodes_keeps(2)[of xs F] by (simp add: length_pop_nodes)
  }
qed simp_all

text \<open>The shape of all nodes but the direction of the newest.\<close>

definition pre_shape :: "'f laser_floats \<Rightarrow> 'f laser_node list \<Rightarrow> bool" where
  "pre_shape F xs \<longleftrightarrow> (\<forall>i. Suc i < length xs \<longrightarrow> dis (xs ! Suc i) = gap F (xs ! Suc i) (xs ! i))
     \<and> (\<forall>i. Suc (Suc i) < length xs \<longrightarrow> node_dir (xs ! Suc i) = dir_of F xs (Suc i) \<and> \<not> sharp (xs ! Suc i))"

lemma trail_pre: "trail_shape F xs \<Longrightarrow> pre_shape F xs"
  by (simp add: trail_shape_def pre_shape_def)

lemma trail_butlast:
  assumes "trail_shape F (xs @ [n])" shows "pre_shape F xs"
  unfolding pre_shape_def
proof (intro conjI allI impI)
  fix i
  have t: "dis ((xs @ [n]) ! Suc i) = gap F ((xs @ [n]) ! Suc i) ((xs @ [n]) ! i)
    \<and> node_dir ((xs @ [n]) ! Suc i) = dir_of F (xs @ [n]) (Suc i) \<and> \<not> sharp ((xs @ [n]) ! Suc i)" if "Suc i < length (xs @ [n])"
    using assms that unfolding trail_shape_def by blast
  { assume "Suc i < length xs"
    then show "dis (xs ! Suc i) = gap F (xs ! Suc i) (xs ! i)" using t by (simp add: nth_append) }
  assume i: "Suc (Suc i) < length xs"
  then have "dir_of F (xs @ [n]) (Suc i) = dir_of F xs (Suc i)" by (simp add: dir_of_middle nth_append)
  then show "node_dir (xs ! Suc i) = dir_of F xs (Suc i)" "\<not> sharp (xs ! Suc i)" using t i by (simp_all add: nth_append)
qed

text \<open>A new last node, whose direction and its predecessor's are computed.\<close>

lemma retail_shape:
  assumes "pre_shape F xs" "xs \<noteq> []" "dis n = gap F n (last xs)"
  shows "trail_shape F (spread F (length xs - 1) (spread F (length xs) (xs @ [n])))" (is "trail_shape F ?zs")
  unfolding trail_shape_def
proof (intro allI impI)
  fix i assume i: "Suc i < length ?zs"
  let ?ys = "xs @ [n]" and ?s = "length xs"
  have pos: "map node_pos ?zs = map node_pos ?ys" by simp
  have dir: "dir_of F ?zs j = dir_of F ?ys j" if "j < length ?ys" for j by (rule dir_of_cong) (use that in simp_all)
  have dir1: "dir_of F (spread F ?s ?ys) j = dir_of F ?ys j" if "j < length ?ys" for j
    by (rule dir_of_cong) (use that in simp_all)
  have nth: "?zs ! j = (if j = ?s - 1 then set_dir (dir_of F ?ys j) (?ys ! j) else if j = ?s then set_dir (dir_of F ?ys j) (?ys ! j)
      else ?ys ! j)" if "j < length ?ys" for j
  proof -
    have "0 < ?s" using assms(2) by simp
    then have "?s - 1 \<noteq> ?s" by arith
    then show ?thesis using that dir1[of "?s - 1"] dir1[of ?s] assms(2) by (auto simp: spread_def nth_list_update nth_append)
  qed
  have gap: "gap F (?zs ! Suc i) (?zs ! i) = gap F (?ys ! Suc i) (?ys ! i)"
    using nth[of i] nth[of "Suc i"] i by (simp add: gap_def)
  have dis: "dis (?zs ! Suc i) = dis (?ys ! Suc i)" using nth[of "Suc i"] i by (simp add: set_dir_def)
  have "dis (?ys ! Suc i) = gap F (?ys ! Suc i) (?ys ! i)"
  proof (cases "Suc i = ?s")
    case True
    then have "?ys ! i = last xs" using assms(2) by (simp add: nth_append last_conv_nth flip: True)
    then show ?thesis using True assms(3) by (simp add: nth_append)
  next
    case False
    then show ?thesis using assms(1) i by (simp add: pre_shape_def nth_append)
  qed
  moreover have "node_dir (?zs ! Suc i) = dir_of F ?zs (Suc i) \<and> \<not> sharp (?zs ! Suc i)"
  proof (cases "Suc i = ?s - 1 \<or> Suc i = ?s")
    case True
    then show ?thesis using nth[of "Suc i"] dir[of "Suc i"] i by (auto simp: set_dir_def node_dir_def)
  next
    case False
    have "i < ?s" using i by simp
    then have lt: "Suc i + 1 < ?s" using False by arith
    then have "dir_of F ?ys (Suc i) = dir_of F xs (Suc i)" by (simp add: dir_of_middle nth_append)
    then show ?thesis using assms(1) lt nth[of "Suc i"] dir[of "Suc i"] False by (simp add: pre_shape_def nth_append)
  qed
  ultimately show "dis (?zs ! Suc i) = gap F (?zs ! Suc i) (?zs ! i) \<and> node_dir (?zs ! Suc i) = dir_of F ?zs (Suc i)
    \<and> \<not> sharp (?zs ! Suc i)" using dis gap by simp
qed

end
