(* ===== verification/BentLaserCorrect.thy ===== *)
theory BentLaserCorrect
  imports Complex_Main BentLaserShape
begin

text \<open>
  The properties of the bent laser: how it moves, its length in exact arithmetic, sampling, and
  the mesh it renders.
\<close>

subsection \<open>Moving\<close>

lemma tail_nodes_keeps:
  assumes "trail_shape F xs" "xs \<noteq> []"
  shows "map node_pos (tail_nodes F node xs) = butlast (map node_pos xs) @ [node_pos node]"
    "trail_shape F (tail_nodes F node xs)"
proof -
  obtain ys n where xs: "xs = ys @ [n]" using assms(2) by (cases xs rule: rev_cases) auto
  let ?n = "n\<lparr>node_pos := node_pos node, dis := gap F node (last ys)\<rparr>"
  have "map node_pos (tail_nodes F node xs) = butlast (map node_pos xs) @ [node_pos node] \<and> trail_shape F (tail_nodes F node xs)"
  proof (cases "ys = []")
    case True
    then show ?thesis using xs by (simp add: tail_nodes_def trail_shape_def)
  next
    case False
    then have "length xs \<ge> 2" "xs ! (length xs - 2) = last ys" "xs ! (length xs - 1) = n"
      using xs by (cases ys; simp add: last_conv_nth nth_append Suc_le_eq)+
    then have t: "tail_nodes F node xs = spread F (length ys - 1) (spread F (length ys) (ys @ [?n]))"
      using xs by (simp add: tail_nodes_def Let_def)
    have "trail_shape F (tail_nodes F node xs)"
      unfolding t using trail_butlast assms(1) False xs by (intro retail_shape) (auto simp: gap_def)
    moreover have "map node_pos (tail_nodes F node xs) = butlast (map node_pos xs) @ [node_pos node]"
      by (simp only: t) (simp add: xs)
    ultimately show ?thesis by blast
  qed
  then show "map node_pos (tail_nodes F node xs) = butlast (map node_pos xs) @ [node_pos node]"
    "trail_shape F (tail_nodes F node xs)" by blast+
qed

lemma append_nodes_keeps:
  assumes "trail_shape F xs"
  shows "map body (append_nodes F node xs) = map body xs @ [body node]" "trail_shape F (append_nodes F node xs)"
proof -
  show "map body (append_nodes F node xs) = map body xs @ [body node]" by (simp add: append_nodes_def)
  show "trail_shape F (append_nodes F node xs)"
  proof (cases "xs = []")
    case False
    then show ?thesis
      using retail_shape[OF trail_pre[OF assms] False, of "node\<lparr>dis := gap F node (last xs)\<rparr>"]
      by (simp add: append_nodes_def gap_def)
  qed (simp add: append_nodes_def trail_shape_def)
qed

text \<open>
  C31.  The laser follows its path.  \<open>Update\<close> keeps at most \<open>length\<close> nodes, never more than 512:
  it drops the oldest nodes and puts the new position at the end, or, when the position has hardly
  changed, moves the newest node there.  Whatever was done before, afterwards every node behind
  the oldest has its distance to its predecessor and its direction between its neighbours.
\<close>

theorem laser_update_correct:
  assumes "laser_ok L" "trail_shape F (nodes L)" "2 \<le> len"
  shows "\<exists>L'. laser_Update F x y len width active L = Some (True, L') \<and> laser_ok L' \<and> trail_shape F (nodes L')
    \<and> length (nodes L') \<le> min (nat len) LGOBJ_MAXLASERNODE
    \<and> (if nodes L \<noteq> [] \<and> l_le F (gap F (update_node F x y width active) (last (nodes L))) (l_min F)
       then map node_pos (nodes L') = butlast (drop (length (nodes L) - (nat len - 1)) (map node_pos (nodes L))) @ [(x, y)]
       else map body (nodes L') = drop (length (nodes L) - (min (nat len) LGOBJ_MAXLASERNODE - 1)) (map body (nodes L))
         @ [((x, y), l_mul F width (l_half F), active)])"
proof -
  let ?node = "update_node F x y width active" and ?xs = "nodes L" and ?n = "nat len"
  obtain L' where L': "laser_Update F x y len width active L = Some (True, L')"
      "shows_as L (fst (update_spec F ?node ?n (nodes L, m_fLength L))) (snd (update_spec F ?node ?n (nodes L, m_fLength L))) L'"
    using laser_Update_ok[OF assms(1,3), of F x y width active] by (auto simp: Let_def)
  note d = shows_asD[OF L'(2)]
  have n: "2 \<le> ?n" using assms(3) by simp
  have bound: "length ?xs \<le> LGOBJ_MAXLASERNODE"
    using assms(1) queue_inv_bounded[of "laser_queue L"] by (simp add: laser_ok_def nodes_def)
  have node: "node_pos ?node = (x, y)" "body ?node = ((x, y), l_mul F width (l_half F), active)"
    by (simp_all add: update_node_def body_def)
  define near where "near = (?xs \<noteq> [] \<and> l_le F (gap F ?node (last ?xs)) (l_min F))"
  show ?thesis
  proof (cases near)
    case True
    let ?k = "length ?xs - (?n - 1)"
    have "0 < length ?xs" using True by (simp add: near_def)
    then have k: "?k < length ?xs" using n by arith
    let ?ys = "fst (pops F ?k (?xs, m_fLength L))"
    have ys: "map body ?ys = drop ?k (map body ?xs)" "trail_shape F ?ys" using pops_keeps[OF k] assms(2) by blast+
    have ly: "length ?ys = length ?xs - ?k" by (rule length_pops[OF k])
    then have "0 < length ?ys" "length ?ys \<le> ?n" using k by arith+
    moreover have "length ?ys \<le> LGOBJ_MAXLASERNODE" using ly bound by arith
    ultimately have "?ys \<noteq> []" "length ?ys \<le> ?n" "length ?ys \<le> LGOBJ_MAXLASERNODE" by simp_all
    moreover have pos: "map node_pos ?ys = drop ?k (map node_pos ?xs)"
      using arg_cong[OF ys(1), of "map fst"] by (simp add: drop_map o_def body_def)
    moreover have nodes': "nodes L' = tail_nodes F ?node ?ys"
      using d(2) True by (simp add: update_spec_def near_def Let_def)
    moreover have "length (tail_nodes F ?node ?ys) = length ?ys" by (simp add: tail_nodes_def Let_def)
    ultimately show ?thesis
      unfolding near_def[symmetric] using L'(1) d(1) True tail_nodes_keeps[OF ys(2), of ?node] bound n node by auto
  next
    case False
    define m where "m = min ?n LGOBJ_MAXLASERNODE - 1"
    let ?k = "length ?xs - m"
    let ?ys = "fst (pops F ?k (?xs, m_fLength L))"
    have m: "1 \<le> m" "m + 1 = min ?n LGOBJ_MAXLASERNODE" using n by (simp_all add: m_def LGOBJ_MAXLASERNODE_def)
    have ys: "map body ?ys = drop ?k (map body ?xs) \<and> trail_shape F ?ys \<and> length ?ys \<le> m"
    proof (cases "?xs = []")
      case False
      then have "0 < length ?xs" by simp
      then have k: "?k < length ?xs" using m by arith
      have "length ?ys = length ?xs - ?k" by (rule length_pops[OF k])
      then have "length ?ys \<le> m" using k by arith
      then show ?thesis using pops_keeps[OF k] assms(2) by blast
    qed (simp add: trail_shape_def)
    have nodes': "nodes L' = append_nodes F ?node ?ys"
      using d(2) False unfolding update_spec_def Let_def fst_conv near_def[symmetric] m_def by simp
    have "length (append_nodes F ?node ?ys) = length ?ys + 1" by (simp add: append_nodes_def)
    then show ?thesis
      unfolding near_def[symmetric] m_def[symmetric]
      using L'(1) d(1) False append_nodes_keeps[of F ?ys ?node] ys m(2)[symmetric] nodes' node by simp
  qed
qed

lemma new_laser_ok: "laser_ok (new_laser F)" "nodes (new_laser F) = []"
  by (simp_all add: new_laser_def laser_ok_def nodes_def queue_inv_def queue_list_def LGOBJ_MAXLASERNODE_def Let_def)

definition int_floats :: "int laser_floats" where
  "int_floats = \<lparr>l_add = (+), l_sub = (-), l_mul = (*), l_div = (div), l_neg = uminus, l_sqrt = (\<lambda>x. x), l_atan2 = (\<lambda>x y. 0),
     l_pow = (\<lambda>x y. x), l_floor = (\<lambda>x. x), l_le = (\<le>), l_lt = (<), l_const = (\<lambda>x. x), l_half = 1, l_two_fifths = 1, l_min = 0,
     l_to_degrees = 1, l_to_double = (\<lambda>x. word_of_int x), l_of_double = uint, l_half_of_double = uint\<rparr>"

theorem laser_update_correct_witness:
  "\<exists>L'. laser_Update int_floats 3 4 2 10 True (new_laser int_floats) = Some (True, L') \<and> map body (nodes L') = [((3, 4), 10, True)]"
proof -
  have "trail_shape int_floats (nodes (new_laser int_floats))" by (simp add: new_laser_ok trail_shape_def)
  from laser_update_correct[OF new_laser_ok(1) this, of 2 3 4 10 True]
  show ?thesis by (auto simp: new_laser_ok(2) int_floats_def)
qed

subsection \<open>The length\<close>

text \<open>
  Arithmetic without rounding.  The single precision of the code rounds; the properties under
  this hypothesis are about the algorithm.
\<close>

definition exact_arithmetic :: "real laser_floats \<Rightarrow> bool" where
  "exact_arithmetic F \<longleftrightarrow> l_add F = (+) \<and> l_sub F = (-) \<and> l_mul F = (*) \<and> l_div F = (/) \<and> l_neg F = uminus
     \<and> l_sqrt F = sqrt \<and> l_le F = (\<le>) \<and> l_lt F = (<) \<and> l_const F = real_of_int \<and> 0 < l_min F"

definition distance :: "real \<times> real \<Rightarrow> real \<times> real \<Rightarrow> real" where
  "distance p q = sqrt ((fst q - fst p) * (fst q - fst p) + (snd q - snd p) * (snd q - snd p))"

fun polyline :: "(real \<times> real) list \<Rightarrow> real" where
  "polyline [] = 0"
| "polyline [p] = 0"
| "polyline (p # q # rest) = distance p q + polyline (q # rest)"

lemma exact_gap: "exact_arithmetic F \<Longrightarrow> gap F n m = distance (node_pos m) (node_pos n)"
  by (simp add: exact_arithmetic_def gap_def v2_length_def v2_sub_def distance_def)

lemma exact_zero: "exact_arithmetic F \<Longrightarrow> l_const F 0 = 0"
  by (simp add: exact_arithmetic_def)

definition all_active :: "'f laser_node list \<Rightarrow> bool" where
  "all_active xs \<longleftrightarrow> (\<forall>n \<in> set xs. node_active n)"

lemma all_active_body: "map body xs = map body ys \<Longrightarrow> all_active xs = all_active ys"
  unfolding all_active_def body_def by (metis (no_types, lifting) body_nth(2) body_length body_def in_set_conv_nth list.map_cong0)

lemma gaps_polyline: "exact_arithmetic F \<Longrightarrow> all_active xs \<Longrightarrow> sum_list (gaps F xs) = polyline (map node_pos xs)"
  by (induction F xs rule: gaps.induct) (auto simp: all_active_def exact_gap)

text \<open>The length recorded is that of the nodes.\<close>

definition length_ok :: "real laser_floats \<Rightarrow> real laser_node list \<times> real \<Rightarrow> bool" where
  "length_ok F s \<longleftrightarrow> trail_shape F (fst s) \<and> all_active (fst s) \<and> snd s = sum_list (gaps F (fst s))"

lemma pop_length_ok:
  assumes "exact_arithmetic F" "length_ok F (xs, l)" "2 < length xs"
  shows "length_ok F (pop_nodes F xs, pop_length F xs l)"
proof -
  obtain a b c r where xs: "xs = a # b # c # r"
    using assms(3) by (cases xs; cases "tl xs"; cases "tl (tl xs)") auto
  have b: "map body (pop_nodes F xs) = map body (b # c # r)" by (simp add: xs pop_nodes_def)
  have "dis b = gap F b a"
    using assms(2) xs unfolding length_ok_def trail_shape_def by (auto dest: spec[of _ 0])
  then have "pop_length F xs l = sum_list (gaps F (b # c # r))"
    using assms xs by (simp add: pop_length_def length_ok_def all_active_def exact_arithmetic_def)
  moreover have "trail_shape F (pop_nodes F xs)" using pop_nodes_keeps(2)[of xs F] assms(2,3) by (simp add: length_ok_def)
  moreover have "all_active (pop_nodes F xs)" using all_active_body[OF b] assms(2) xs by (simp add: length_ok_def all_active_def)
  ultimately show ?thesis using body_gaps[OF b, of F] by (simp add: length_ok_def)
qed

lemma pops_length_ok:
  assumes "exact_arithmetic F"
  shows "length_ok F (xs, l) \<Longrightarrow> k + 2 \<le> length xs \<Longrightarrow> length_ok F (pops F k (xs, l))"
proof (induction k arbitrary: xs l)
  case (Suc k)
  then show ?case using pop_length_ok[OF assms Suc.prems(1)] Suc.IH[of "pop_nodes F xs"] by (simp add: length_pop_nodes)
qed simp

lemma tail_length_ok:
  assumes "exact_arithmetic F" "length_ok F (xs, l)" "xs \<noteq> []" "node_active node"
  shows "length_ok F (tail_nodes F node xs, tail_length F node xs l)"
proof -
  have t: "trail_shape F (tail_nodes F node xs)" using tail_nodes_keeps(2)[of F xs node] assms(2,3) by (simp add: length_ok_def)
  obtain ys n where xs: "xs = ys @ [n]" using assms(3) by (cases xs rule: rev_cases) auto
  show ?thesis
  proof (cases "ys = []")
    case True
    then show ?thesis using t xs assms(1,4) by (simp add: length_ok_def tail_nodes_def tail_length_def all_active_def exact_zero)
  next
    case False
    let ?n = "n\<lparr>node_pos := node_pos node, dis := gap F node (last ys)\<rparr>"
    have s: "length xs \<ge> 2" "xs ! (length xs - 2) = last ys" "xs ! (length xs - 1) = n"
      using xs False by (cases ys; simp add: last_conv_nth nth_append Suc_le_eq)+
    then have b: "map body (tail_nodes F node xs) = map body (ys @ [?n])" by (simp add: xs tail_nodes_def Let_def)
    have act: "all_active (ys @ [?n])" "all_active ys" "node_active (last ys)" "node_active n"
      using assms(2) xs False by (auto simp: length_ok_def all_active_def)
    have "Suc (length ys - 1) = length ys" using False by simp
    then have "dis n = gap F n (last ys)"
      using assms(2) xs False spec[of _ "length ys - 1"]
      by (auto simp: length_ok_def trail_shape_def nth_append last_conv_nth dest!: spec[of _ "length ys - 1"])
    then have "tail_length F node xs l = sum_list (gaps F (ys @ [?n]))"
      using assms(1,2) s(1) s(2)[symmetric] act False
      by (simp add: tail_length_def length_ok_def xs gaps_snoc exact_arithmetic_def gap_def)
    then show ?thesis using t act all_active_body[OF b] body_gaps[OF b, of F] by (simp add: length_ok_def)
  qed
qed

lemma append_length_ok:
  assumes "exact_arithmetic F" "length_ok F (xs, l)" "node_active node"
  shows "length_ok F (append_nodes F node xs, append_length F node xs l)"
proof -
  have t: "trail_shape F (append_nodes F node xs)" using append_nodes_keeps(2)[of F xs node] assms(2) by (simp add: length_ok_def)
  have b: "map body (append_nodes F node xs) = map body (xs @ [node])" using append_nodes_keeps(1)[of F xs node] assms(2) by (simp add: length_ok_def)
  have "append_length F node xs l = sum_list (gaps F (xs @ [node]))"
  proof (cases "xs = []")
    case False
    then have "node_active (last xs)" using assms(2) by (simp add: length_ok_def all_active_def)
    then show ?thesis using False assms by (simp add: append_length_def gaps_snoc length_ok_def exact_arithmetic_def)
  qed (use assms(1) in \<open>simp add: append_length_def exact_zero\<close>)
  moreover have "all_active (append_nodes F node xs)" using all_active_body[OF b] assms(2,3) by (simp add: length_ok_def all_active_def)
  ultimately show ?thesis using t body_gaps[OF b, of F] by (simp add: length_ok_def)
qed

lemma update_length_ok:
  assumes "exact_arithmetic F" "length_ok F s" "3 \<le> n" "node_active node"
  shows "length_ok F (update_spec F node n s)"
proof -
  obtain xs l where s: "s = (xs, l)" by (cases s)
  have pops: "length_ok F (pops F (length xs - m) (xs, l))" if "2 \<le> m" for m
  proof (cases "m < length xs")
    case True
    then have "length xs - m + 2 \<le> length xs" using that by arith
    then show ?thesis using pops_length_ok[OF assms(1)] assms(2) s by simp
  qed (use assms(2) s in simp)
  have m: "2 \<le> n - 1" "2 \<le> min n LGOBJ_MAXLASERNODE - 1" using assms(3) by (simp_all add: LGOBJ_MAXLASERNODE_def)
  define near where "near = (xs \<noteq> [] \<and> l_le F (gap F node (last xs)) (l_min F))"
  show ?thesis
  proof (cases near)
    case True
    let ?r = "pops F (length xs - (n - 1)) (xs, l)"
    have "0 < length xs" using True by (simp add: near_def)
    then have k: "length xs - (n - 1) < length xs" using m by arith
    have "length (fst ?r) = length xs - (length xs - (n - 1))" by (rule length_pops[OF k])
    then have "fst ?r \<noteq> []" using k by auto
    then show ?thesis
      using True tail_length_ok[OF assms(1) _ _ assms(4), of "fst ?r" "snd ?r"] pops[OF m(1)]
      unfolding update_spec_def Let_def s fst_conv near_def[symmetric] by simp
  next
    case False
    then show ?thesis
      using append_length_ok[OF assms(1) _ assms(4), of "fst (pops F (length xs - (min n LGOBJ_MAXLASERNODE - 1)) (xs, l))"
          "snd (pops F (length xs - (min n LGOBJ_MAXLASERNODE - 1)) (xs, l))"] pops[OF m(2)]
      unfolding update_spec_def Let_def s fst_conv near_def[symmetric] by simp
  qed
qed

text \<open>A laser drawn with at least three nodes, all of them active.\<close>

inductive laser_run :: "real laser_floats \<Rightarrow> real bent_laser \<Rightarrow> bool" for F where
  drawn: "laser_run F (new_laser F)"
| moved: "laser_run F L \<Longrightarrow> 3 \<le> len \<Longrightarrow> laser_Update F x y len width True L = Some (r, L') \<Longrightarrow> laser_run F L'"

lemma laser_run_ok:
  assumes "laser_run F L" "exact_arithmetic F" shows "laser_ok L \<and> length_ok F (nodes L, m_fLength L)"
  using assms(1)
proof (induction rule: laser_run.induct)
  case drawn
  then show ?case by (simp add: new_laser_ok length_ok_def trail_shape_def all_active_def)
    (simp add: new_laser_def exact_zero[OF assms(2)] Let_def)
next
  case (moved L len x y width r L')
  let ?node = "update_node F x y width True"
  let ?r = "update_spec F ?node (nat len) (nodes L, m_fLength L)"
  have "2 \<le> len" using moved.hyps(2) by simp
  then obtain L1 where L1: "laser_Update F x y len width True L = Some (True, L1)" "shows_as L (fst ?r) (snd ?r) L1"
    using laser_Update_ok[of L len F x y width True] moved.IH by (auto simp: Let_def)
  have "length_ok F ?r"
    using update_length_ok[OF assms(2), of "(nodes L, m_fLength L)" "nat len" ?node] moved by (simp add: update_node_def)
  then show ?case using L1 moved.hyps(3) shows_asD[OF L1(2)] by auto
qed

text \<open>
  C32.  The recorded length is the length.  In exact arithmetic, after any number of calls of
  \<open>Update\<close> that each add an active node and allow at least three nodes, the length the laser keeps
  by adding and subtracting distances is the length of the line through its nodes, and the next
  such call does not fail.  Updates with inactive nodes, whose sides are not counted, and the other
  operations on nodes are not covered.
\<close>

theorem laser_length_correct:
  assumes "laser_run F L" "exact_arithmetic F"
  shows "m_fLength L = polyline (map node_pos (nodes L))
    \<and> (\<forall>x y width len. 3 \<le> len \<longrightarrow> (\<exists>L'. laser_Update F x y len width True L = Some (True, L') \<and> laser_run F L'))"
proof (intro conjI allI impI)
  note ok = laser_run_ok[OF assms]
  show "m_fLength L = polyline (map node_pos (nodes L))"
    using ok gaps_polyline[OF assms(2), of "nodes L"] by (simp add: length_ok_def)
  fix x y width :: real and len :: int assume "3 \<le> len"
  then show "\<exists>L'. laser_Update F x y len width True L = Some (True, L') \<and> laser_run F L'"
    using laser_Update_ok[of L len F x y width True] ok laser_run.moved[OF assms(1)] by fastforce
qed

definition real_floats :: "real laser_floats" where
  "real_floats = \<lparr>l_add = (+), l_sub = (-), l_mul = (*), l_div = (/), l_neg = uminus, l_sqrt = sqrt, l_atan2 = (\<lambda>y x. arctan (y / x)),
     l_pow = (powr), l_floor = (\<lambda>x. of_int \<lfloor>x\<rfloor>), l_le = (\<le>), l_lt = (<), l_const = of_int, l_half = 1 / 2, l_two_fifths = 2 / 5,
     l_min = 1 / 2 ^ 126, l_to_degrees = 180 / pi, l_to_double = (\<lambda>x. word_of_int \<lfloor>x\<rfloor>), l_of_double = (\<lambda>d. of_int (uint d)),
     l_half_of_double = (\<lambda>d. of_int (uint d) / 2)\<rparr>"

lemma real_floats_exact: "exact_arithmetic real_floats" "l_min real_floats < 1"
  by (simp_all add: exact_arithmetic_def real_floats_def)

theorem laser_length_correct_witness:
  "\<exists>L. laser_Update real_floats 3 4 3 1 True (new_laser real_floats) = Some (True, L) \<and> m_fLength L = polyline (map node_pos (nodes L))"
proof -
  have "laser_run real_floats (new_laser real_floats)" by (rule laser_run.drawn)
  from laser_length_correct[OF this real_floats_exact(1)]
  obtain L where L: "laser_Update real_floats 3 4 3 1 True (new_laser real_floats) = Some (True, L)" "laser_run real_floats L"
    by fastforce
  then show ?thesis using laser_length_correct[OF L(2) real_floats_exact(1)] by blast
qed

text \<open>A straight walk of unit steps with two nodes.\<close>

fun straight :: "real laser_floats \<Rightarrow> nat \<Rightarrow> real bent_laser option" where
  "straight F 0 = Some (new_laser F)"
| "straight F (Suc k) = Option.bind (straight F k) (\<lambda>L. map_option snd (laser_Update F (real k) 0 2 1 True L))"

lemma distance_unit: "distance (real k, 0) (real (Suc k), 0) = 1"
  by (simp add: distance_def)

lemma straight_step:
  assumes "exact_arithmetic F" "l_min F < 1" "laser_ok L" "nodes L = ns @ [n]" "length ns \<le> 1"
    "node_pos n = (real k, 0)" "node_active n"
  shows "\<exists>L' m p. laser_Update F (real (Suc k)) 0 2 1 True L = Some (True, L') \<and> laser_ok L' \<and> nodes L' = [m, p]
    \<and> node_pos m = (real k, 0) \<and> node_active p \<and> node_pos p = (real (Suc k), 0) \<and> m_fLength L' = m_fLength L + 1"
proof -
  let ?node = "update_node F (real (Suc k)) 0 1 True"
  have pos: "node_pos ?node = (real (Suc k), 0)" "node_active ?node" by (simp_all add: update_node_def)
  have g: "gap F ?node n = 1" using exact_gap[OF assms(1), of ?node n] assms(6) pos distance_unit by simp
  have le: "\<not> l_le F (gap F ?node (last (nodes L))) (l_min F)" using g assms(1,2,4) by (simp add: exact_arithmetic_def)
  let ?r = "update_spec F ?node 2 (nodes L, m_fLength L)"
  obtain L' where L': "laser_Update F (real (Suc k)) 0 2 1 True L = Some (True, L')" "shows_as L (fst ?r) (snd ?r) L'"
    using laser_Update_ok[OF assms(3), of 2 F "real (Suc k)" 0 1 True] by (auto simp: Let_def)
  have pop: "pops F (length (nodes L) - 1) (nodes L, m_fLength L) = ([n], m_fLength L)"
    using assms(4,5) by (cases ns) (auto simp: pop_nodes_def pop_length_def)
  have "?r = (append_nodes F ?node [n], append_length F ?node [n] (m_fLength L))"
    using le pop by (simp add: update_spec_def Let_def LGOBJ_MAXLASERNODE_def)
  moreover have "append_length F ?node [n] (m_fLength L) = m_fLength L + 1"
    using g pos assms(1,7) by (simp add: append_length_def exact_arithmetic_def)
  ultimately have r: "fst ?r = spread F 0 (spread F 1 [n, ?node\<lparr>dis := gap F ?node n\<rparr>])" "snd ?r = m_fLength L + 1"
    by (simp_all add: append_nodes_def)
  note d = shows_asD[OF L'(2)]
  obtain u v where "fst ?r = [set_dir u n, set_dir v (?node\<lparr>dis := gap F ?node n\<rparr>)]"
    unfolding r(1) by (simp add: spread_def)
  then show ?thesis
    using L'(1) d r(2) pos assms(6)
    by (intro exI[of _ L'] exI[of _ "set_dir u n"] exI[of _ "set_dir v (?node\<lparr>dis := gap F ?node n\<rparr>)"]) (simp add: set_dir_def)
qed

lemma straight_shape:
  assumes "exact_arithmetic F" "l_min F < 1"
  shows "\<exists>L m p. straight F (k + 2) = Some L \<and> laser_ok L \<and> nodes L = [m, p] \<and> node_pos m = (real k, 0) \<and> node_active p
    \<and> node_pos p = (real (Suc k), 0) \<and> m_fLength L = real (Suc k)"
proof (induction k)
  case 0
  let ?node = "update_node F 0 0 1 True"
  have "update_spec F ?node 2 (nodes (new_laser F), m_fLength (new_laser F)) = ([?node\<lparr>dis := l_const F 0\<rparr>], 0)"
    using exact_zero[OF assms(1)] by (simp add: update_spec_def new_laser_ok append_nodes_def append_length_def Let_def)
  then obtain L where L: "laser_Update F 0 0 2 1 True (new_laser F) = Some (True, L)" "shows_as (new_laser F) [?node\<lparr>dis := l_const F 0\<rparr>] 0 L"
    using laser_Update_ok[OF new_laser_ok(1)[of F], of 2 F 0 0 1 True] by auto
  note d = shows_asD[OF L(2)]
  have "node_pos (?node\<lparr>dis := l_const F 0\<rparr>) = (real 0, 0)" "node_active (?node\<lparr>dis := l_const F 0\<rparr>)" by (simp_all add: update_node_def)
  from straight_step[OF assms d(1) _ _ this, of "[]"] d(2,3) L(1) show ?case
    by (auto simp: numeral_2_eq_2)
next
  case (Suc k)
  then obtain L m p where L: "straight F (k + 2) = Some L" "laser_ok L" "nodes L = [m, p]" "node_active p"
    "node_pos p = (real (Suc k), 0)" "m_fLength L = real (Suc k)" by blast
  from straight_step[OF assms L(2) _ _ L(5,4), of "[m]"] L(3,1,6) show ?case by auto
qed

text \<open>
  With two nodes the length only grows.  \<open>_PopHead\<close> takes a distance off only when two nodes
  are left: a laser drawn with \<open>length\<close> 2 along a straight line of unit steps has two nodes one
  apart, but records after \<open>k\<close> more steps a length of \<open>k + 1\<close>.
\<close>

theorem laser_length_two_wrong:
  assumes "exact_arithmetic F" "l_min F < 1"
  shows "\<exists>L. straight F (k + 2) = Some L \<and> map node_pos (nodes L) = [(real k, 0), (real (Suc k), 0)]
    \<and> polyline (map node_pos (nodes L)) = 1 \<and> m_fLength L = real (Suc k)"
  using straight_shape[OF assms, of k] distance_unit by auto

theorem laser_length_two_wrong_witness:
  "\<exists>L. straight real_floats 101 = Some L \<and> polyline (map node_pos (nodes L)) = 1 \<and> m_fLength L = 100"
  using laser_length_two_wrong[OF real_floats_exact, of 99] by auto

end
