(* ===== verification/BentLaserSampling.thy ===== *)
theory BentLaserSampling
  imports BentLaserCorrect
begin

text \<open>
  Sampling a bent laser at equal distances, the mesh it renders, and the lists scripts set.
\<close>

subsection \<open>Sampling\<close>

text \<open>The point at a distance along a line of points.\<close>

fun along :: "(real \<times> real) list \<Rightarrow> real \<Rightarrow> real \<times> real" where
  "along [] d = (0, 0)"
| "along [p] d = p"
| "along (p # q # rest) d = (if d \<le> distance p q
     then (fst p + (fst q - fst p) / distance p q * d, snd p + (snd q - snd p) / distance p q * d)
     else along (q # rest) (d - distance p q))"

lemma past_until: "0 < stp \<Longrightarrow> until < left \<Longrightarrow> \<not> left + real j * stp \<le> (until :: real)"
proof -
  assume "0 < stp" "until < left"
  then have "0 \<le> real j * stp" by simp
  then show ?thesis using \<open>until < left\<close> by linarith
qed

lemma sample_segment_steps:
  assumes "exact_arithmetic F" "0 < stp" "until - left < real m * stp"
  shows "\<exists>n. sample_segment F pt angle stp until left out
      = Some (left + real n * stp, out @ map (\<lambda>j. (pt (left + real j * stp), angle)) [0..<n])
    \<and> (\<forall>j. j < n \<longleftrightarrow> left + real j * stp \<le> until)"
  using assms(3)
proof (induction m arbitrary: left out)
  case 0
  then have "\<not> left + real j * stp \<le> until" for j using past_until[OF assms(2)] by simp
  moreover from this[of 0] have "sample_segment F pt angle stp until left out = Some (left, out)"
    using assms(1) by (subst sample_segment.simps) (simp add: exact_arithmetic_def)
  ultimately show ?case by (intro exI[of _ 0]) simp
next
  case (Suc m)
  show ?case
  proof (cases "left \<le> until")
    case True
    have "until - (left + stp) < real m * stp" using Suc.prems by (simp add: algebra_simps)
    from Suc.IH[OF this, of "out @ [(pt left, angle)]"] obtain n where n:
        "sample_segment F pt angle stp until (left + stp) (out @ [(pt left, angle)])
          = Some (left + stp + real n * stp, (out @ [(pt left, angle)]) @ map (\<lambda>j. (pt (left + stp + real j * stp), angle)) [0..<n])"
        "\<forall>j. j < n \<longleftrightarrow> left + stp + real j * stp \<le> until" by blast
    have seg: "sample_segment F pt angle stp until left out = sample_segment F pt angle stp until (left + stp) (out @ [(pt left, angle)])"
      using True assms(1) by (subst sample_segment.simps) (simp add: exact_arithmetic_def)
    have up: "[0..<Suc n] = 0 # map Suc [0..<n]" by (simp add: map_Suc_upt upt_conv_Cons del: upt_Suc)
    have "j < Suc n \<longleftrightarrow> left + real j * stp \<le> until" for j
      using n(2) True by (cases j) (auto simp: algebra_simps)
    then show ?thesis using n(1) seg up by (intro exI[of _ "Suc n"]) (simp add: algebra_simps o_def)
  next
    case False
    then have "\<not> left + real j * stp \<le> until" for j using past_until[OF assms(2)] by simp
    moreover from this[of 0] have "sample_segment F pt angle stp until left out = Some (left, out)"
      using assms(1) by (subst sample_segment.simps) (simp add: exact_arithmetic_def)
    ultimately show ?thesis by (intro exI[of _ 0]) simp
  qed
qed

lemma sample_segment_ends:
  assumes "exact_arithmetic F" "0 < stp"
  obtains n where "sample_segment F pt angle stp until left out
      = Some (left + real n * stp, out @ map (\<lambda>j. (pt (left + real j * stp), angle)) [0..<n])"
    "\<And>j. j < n \<longleftrightarrow> left + real j * stp \<le> until"
proof -
  obtain m :: nat where "(until - left) / stp < real m" using reals_Archimedean2 by blast
  then have "until - left < real m * stp" using assms(2) by (simp add: field_simps)
  from sample_segment_steps[OF assms this] show ?thesis using that by blast
qed

lemma sample_segment_never:
  assumes "exact_arithmetic F" "stp \<le> 0" "left \<le> until"
  shows "sample_segment F pt angle stp until left out = None"
proof -
  have "exact_arithmetic F \<longrightarrow> stp \<le> 0 \<longrightarrow> \<not> left \<le> until" if "sample_segment F pt angle stp until left out = Some y" for y
    using that
  proof (induction rule: sample_segment.raw_induct[rotated, consumes 1, case_names step])
    case (step rec F pt angle stp until left out y)
    show ?case
    proof (intro impI notI)
      assume *: "exact_arithmetic F" "stp \<le> 0" "left \<le> until"
      then have "rec F pt angle stp until (left + stp) (out @ [(pt left, angle)]) = Some y"
        using step(2) by (simp add: exact_arithmetic_def)
      from step(1)[OF this] show False using * by simp
    qed
  qed
  then show ?thesis using assms by (cases "sample_segment F pt angle stp until left out") auto
qed

text \<open>One segment of \<open>SampleL\<close>.\<close>

definition length_segment :: "'f laser_floats \<Rightarrow> 'f \<Rightarrow> 'f vec2 \<Rightarrow> 'f vec2 \<Rightarrow> 'f \<Rightarrow> 'f sample list \<Rightarrow> ('f \<times> 'f sample list) option" where
  "length_segment F stp cur nxt left out = (let offsetA = v2_sub F nxt cur; expandVec = v2_normalized F offsetA in
     map_option (\<lambda>(left', out). (l_sub F left' (v2_length F offsetA), out))
       (sample_segment F (\<lambda>left. v2_add F (v2_scale F expandVec left) cur) (sample_angle F expandVec) stp (v2_length F offsetA) left out))"

definition segment_step :: "real laser_floats \<Rightarrow> real \<Rightarrow> real bent_laser \<Rightarrow> nat \<Rightarrow> real \<times> real sample list \<Rightarrow> (real \<times> real sample list) option" where
  "segment_step F stp L i st = (case st of (left, out) \<Rightarrow> Option.bind (laser_at i L) (\<lambda>cur.
     Option.bind (laser_at (i - 1) L) (\<lambda>nxt. length_segment F stp (node_pos cur) (node_pos nxt) left out)))"

lemma SampleL_steps:
  "SampleL F stp L = (if laser_size L \<le> 1 then Some [] else map_option snd (fold_option (segment_step F stp L) (rev [1..<laser_size L]) (l_const F 0, [])))"
proof -
  have "(\<lambda>i (left, out). Option.bind (laser_at i L) (\<lambda>cur. Option.bind (laser_at (i - 1) L)
      (\<lambda>nxt. length_segment F stp (node_pos cur) (node_pos nxt) left out))) = segment_step F stp L"
    by (intro ext) (simp add: segment_step_def)
  then show ?thesis by (simp add: SampleL_def sample_nodes_def length_segment_def[abs_def] Let_def)
qed

text \<open>The samples of one segment.\<close>

lemma segment_samples:
  assumes "exact_arithmetic F" "0 < stp" "l_min F \<le> distance cur nxt"
  obtains n as where "length_segment F stp cur nxt left out = Some (left + real n * stp - distance cur nxt, out @ as)"
    "map fst as = map (\<lambda>j. along (cur # nxt # rest) (left + real j * stp)) [0..<n]"
    "\<And>j. j < n \<longleftrightarrow> left + real j * stp \<le> distance cur nxt"
proof -
  let ?d = "distance cur nxt" and ?e = "v2_normalized F (v2_sub F nxt cur)"
  have len: "v2_length F (v2_sub F nxt cur) = ?d"
    using assms(1) by (simp add: exact_arithmetic_def v2_length_def v2_sub_def distance_def)
  have e: "?e = ((fst nxt - fst cur) / ?d, (snd nxt - snd cur) / ?d)"
    using assms(1,3) len by (simp add: v2_normalized_def exact_arithmetic_def v2_sub_def Let_def)
  let ?pt = "\<lambda>l. v2_add F (v2_scale F ?e l) cur"
  obtain n where n: "sample_segment F ?pt (sample_angle F ?e) stp ?d left out
      = Some (left + real n * stp, out @ map (\<lambda>j. (?pt (left + real j * stp), sample_angle F ?e)) [0..<n])"
    "\<And>j. j < n \<longleftrightarrow> left + real j * stp \<le> ?d" 
    by (rule sample_segment_ends[OF assms(1,2), where pt = ?pt and angle = "sample_angle F ?e" and until = ?d and left = left and out = out])
      (rule that)
  have "?pt (left + real j * stp) = along (cur # nxt # rest) (left + real j * stp)" if "j < n" for j
    using that n(2)[of j] assms(1) e by (simp add: v2_add_def v2_scale_def exact_arithmetic_def)
  then have "map fst (map (\<lambda>j. (?pt (left + real j * stp), sample_angle F ?e)) [0..<n])
      = map (\<lambda>j. along (cur # nxt # rest) (left + real j * stp)) [0..<n]" by (auto simp: o_def)
  moreover have "length_segment F stp cur nxt left out = Some (left + real n * stp - ?d,
      out @ map (\<lambda>j. (?pt (left + real j * stp), sample_angle F ?e)) [0..<n])"
    using n(1) len assms(1) by (simp add: length_segment_def Let_def exact_arithmetic_def)
  ultimately show ?thesis using that n(2) by blast
qed

lemma polyline_nonneg: "0 \<le> polyline qs"
  by (induction qs rule: polyline.induct) (auto simp: distance_def)

lemma sample_fold:
  assumes "exact_arithmetic F" "0 < stp" "laser_ok L"
    and far: "\<And>i. Suc i < length (nodes L) \<Longrightarrow> l_min F \<le> distance (node_pos (nodes L ! Suc i)) (node_pos (nodes L ! i))"
    and "k < length (nodes L)" "k = 0 \<Longrightarrow> 0 < left"
  shows "\<exists>left' as. fold_option (segment_step F stp L) (rev [1..<Suc k]) (left, out) = Some (left', out @ as)
    \<and> map fst as = map (\<lambda>j. along (rev (take (Suc k) (map node_pos (nodes L)))) (left + real j * stp)) [0..<length as]
    \<and> (\<forall>j. j < length as \<longleftrightarrow> left + real j * stp \<le> polyline (rev (take (Suc k) (map node_pos (nodes L)))))"
  using assms(5,6)
proof (induction k arbitrary: left out)
  case 0
  then have "take (Suc 0) (map node_pos (nodes L)) = [node_pos (nodes L ! 0)]" by (cases "nodes L") auto
  then show ?case using past_until[OF assms(2), of 0 left] 0 by simp
next
  case (Suc k)
  let ?ps = "map node_pos (nodes L)"
  let ?cur = "node_pos (nodes L ! Suc k)" and ?nxt = "node_pos (nodes L ! k)"
  let ?d = "distance ?cur ?nxt" and ?qs = "rev (take (Suc k) ?ps)"
  obtain rest where rest: "?qs = ?nxt # rest" using Suc.prems(1) by (simp add: take_Suc_conv_app_nth)
  have qs: "rev (take (Suc (Suc k)) ?ps) = ?cur # ?qs" using Suc.prems(1) by (simp add: take_Suc_conv_app_nth)
  obtain n as where n: "length_segment F stp ?cur ?nxt left out = Some (left + real n * stp - ?d, out @ as)"
    "map fst as = map (\<lambda>j. along (?cur # ?nxt # rest) (left + real j * stp)) [0..<n]"
    "\<And>j. j < n \<longleftrightarrow> left + real j * stp \<le> ?d"
    using segment_samples[OF assms(1,2) far[OF Suc.prems(1)]] by blast
  let ?left = "left + real n * stp - ?d"
  have pos: "0 < ?left" using n(3)[of n] by simp
  obtain left' bs where b: "fold_option (segment_step F stp L) (rev [1..<Suc k]) (?left, out @ as) = Some (left', (out @ as) @ bs)"
      "map fst bs = map (\<lambda>j. along ?qs (?left + real j * stp)) [0..<length bs]"
      "\<forall>j. j < length bs \<longleftrightarrow> ?left + real j * stp \<le> polyline ?qs"
    using Suc.IH[of ?left "out @ as"] Suc.prems(1) pos by auto
  have step: "segment_step F stp L (Suc k) (left, out) = Some (?left, out @ as)"
    using n(1) laser_at_ok[OF assms(3)] Suc.prems(1) by (simp add: segment_step_def)
  have up: "rev [1..<Suc (Suc k)] = Suc k # rev [1..<Suc k]" by simp
  have fold: "fold_option (segment_step F stp L) (rev [1..<Suc (Suc k)]) (left, out) = Some (left', out @ (as @ bs))"
    unfolding up using step b(1) by simp
  have la: "length as = n" using arg_cong[OF n(2), of length] by simp
  have past: "\<not> left + real (n + j) * stp \<le> ?d" for j using n(3)[of "n + j"] by simp
  have off: "left + real (n + j) * stp - ?d = ?left + real j * stp" for j by (simp add: algebra_simps)
  have "along ?qs (?left + real j * stp) = along (?cur # ?qs) (left + real (n + j) * stp)" for j
    unfolding rest by (simp only: along.simps if_not_P[OF past] off)
  then have "map fst bs = map (\<lambda>j. along (?cur # ?qs) (left + real (n + j) * stp)) [0..<length bs]"
    unfolding b(2) by simp
  then have "map fst (as @ bs) = map (\<lambda>j. along (?cur # ?qs) (left + real j * stp)) ([0..<n] @ map ((+) n) [0..<length bs])"
    using n(2) unfolding rest by (simp add: o_def)
  also have "[0..<n] @ map ((+) n) [0..<length bs] = [0..<length (as @ bs)]"
    by (rule nth_equalityI) (auto simp: la nth_append)
  finally have pts: "map fst (as @ bs) = map (\<lambda>j. along (?cur # ?qs) (left + real j * stp)) [0..<length (as @ bs)]" .
  have "j < length (as @ bs) \<longleftrightarrow> left + real j * stp \<le> polyline (?cur # ?qs)" for j
  proof (cases "j < n")
    case True
    have "0 \<le> polyline ?qs" by (rule polyline_nonneg)
    then show ?thesis using True n(3)[of j] la rest by simp
  next
    case False
    then obtain i where i: "j = n + i" using le_Suc_ex not_less by blast
    then have "j < length (as @ bs) \<longleftrightarrow> i < length bs" using la by simp
    also have "\<dots> \<longleftrightarrow> left + real j * stp - ?d \<le> polyline ?qs" unfolding i off using b(3) by simp
    finally show ?thesis using rest by (simp add: algebra_simps)
  qed
  then show ?case using fold pts unfolding qs by blast
qed

lemma sample_first_never:
  assumes "exact_arithmetic F" "stp \<le> 0" "laser_ok L" "2 \<le> length (nodes L)"
  shows "SampleL F stp L = None"
proof -
  let ?k = "length (nodes L) - 1"
  let ?cur = "node_pos (nodes L ! ?k)" and ?nxt = "node_pos (nodes L ! (?k - 1))"
  have size: "laser_size L = Suc ?k" "0 < ?k" using assms(3,4) laser_size_nodes[of L] by simp_all
  have "v2_length F (v2_sub F ?nxt ?cur) = distance ?cur ?nxt"
    using assms(1) by (simp add: exact_arithmetic_def v2_length_def v2_sub_def distance_def)
  then have "length_segment F stp ?cur ?nxt 0 [] = None"
    using sample_segment_never[OF assms(1,2), of 0 "distance ?cur ?nxt"] by (simp add: length_segment_def distance_def)
  moreover have "laser_at ?k L = Some (nodes L ! ?k)" "laser_at (?k - 1) L = Some (nodes L ! (?k - 1))"
    using laser_at_ok[OF assms(3)] assms(4) by simp_all
  ultimately have "segment_step F stp L ?k (0, []) = None" by (simp add: segment_step_def)
  moreover have "rev [1..<Suc ?k] = ?k # rev [1..<?k]" using size(2) by simp
  ultimately show ?thesis using size exact_zero[OF assms(1)] by (simp add: SampleL_steps)
qed

text \<open>
  C33.  Samples at equal distances.  In exact arithmetic, for a well-formed laser of two or more nodes
  whose neighbours are at least the smallest normalised float apart, \<open>SampleL\<close> with a positive step
  gives the points of the line from the newest node to the oldest at the distances 0, step, 2 step
  and so on, every one the line is long enough for and no other; with a step that is not positive
  it never returns.  (Rounding can make a positive step that is too small for the distances behave
  as one of 0; a laser of fewer than two nodes returns at once for every step.)
\<close>

theorem sample_even:
  assumes "exact_arithmetic F" "laser_ok L" "2 \<le> length (nodes L)"
    and "\<And>i. Suc i < length (nodes L) \<Longrightarrow> l_min F \<le> distance (node_pos (nodes L ! Suc i)) (node_pos (nodes L ! i))"
  shows "(SampleL F stp L = None \<longleftrightarrow> stp \<le> 0)
    \<and> (0 < stp \<longrightarrow> (\<exists>out. SampleL F stp L = Some out
      \<and> map fst out = map (\<lambda>j. along (rev (map node_pos (nodes L))) (real j * stp)) [0..<length out]
      \<and> (\<forall>j. j < length out \<longleftrightarrow> real j * stp \<le> polyline (rev (map node_pos (nodes L))))))"
proof (cases "stp \<le> 0")
  case True
  then show ?thesis using sample_first_never[OF assms(1) True assms(2,3)] by simp
next
  case False
  let ?k = "length (nodes L) - 1"
  have k: "0 < stp" "?k < length (nodes L)" "?k = 0 \<Longrightarrow> 0 < (0::real)" "Suc ?k = length (nodes L)" using False assms(3) by simp_all
  have size: "laser_size L = Suc ?k" "\<not> laser_size L \<le> 1" using assms(2,3) laser_size_nodes[of L] by simp_all
  obtain left' out where "fold_option (segment_step F stp L) (rev [1..<Suc ?k]) (0, []) = Some (left', [] @ out)"
      "map fst out = map (\<lambda>j. along (rev (take (Suc ?k) (map node_pos (nodes L)))) (0 + real j * stp)) [0..<length out]"
      "\<forall>j. j < length out \<longleftrightarrow> 0 + real j * stp \<le> polyline (rev (take (Suc ?k) (map node_pos (nodes L))))"
    using sample_fold[OF assms(1) k(1) assms(2,4) k(2,3), of "[]"] by blast
  note r = this[unfolded k(4) append_Nil]
  have "SampleL F stp L = Some out" using r(1) size(2) exact_zero[OF assms(1)] by (simp only: SampleL_steps size(1) k(4)) simp
  then show ?thesis using False r(2,3) by simp
qed

theorem sample_even_witness:
  "\<exists>L out. straight real_floats 2 = Some L \<and> SampleL real_floats (1 / 2) L = Some out \<and> length out = 3"
proof -
  obtain L m p where L: "straight real_floats 2 = Some L" "laser_ok L" "nodes L = [m, p]"
      "node_pos m = (0, 0)" "node_pos p = (1, 0)"
    using straight_shape[OF real_floats_exact, of 0] by (auto simp: numeral_2_eq_2 simp del: straight.simps)
  have d: "distance (node_pos p) (node_pos m) = 1" using L(4,5) by (simp add: distance_def)
  have "l_min real_floats \<le> distance (node_pos (nodes L ! Suc i)) (node_pos (nodes L ! i))" if "Suc i < length (nodes L)" for i
    using that L(3) d real_floats_exact(2) by simp
  from sample_even[OF real_floats_exact(1) L(2) _ this, of "1 / 2"]
  obtain out where out: "SampleL real_floats (1 / 2) L = Some out"
      "\<forall>j. j < length out \<longleftrightarrow> real j * (1 / 2) \<le> polyline (rev (map node_pos (nodes L)))" using L(3) by auto
  have "j < length out \<longleftrightarrow> real j * (1 / 2) \<le> 1" for j using out(2) d L(3) by simp
  from this[of 2] this[of 3] have "length out = 3" by simp
  then show ?thesis using L(1) out(1) by blast
qed

subsection \<open>The mesh\<close>

text \<open>The distance walked and whether the sides are swapped, up to and including node \<open>i\<close>.\<close>

definition walked :: "'f laser_floats \<Rightarrow> 'f laser_node list \<Rightarrow> 'f" where
  "walked F xs = foldl (\<lambda>t n. l_add F t (dis n)) (l_const F 0) xs"

definition swapped :: "'f laser_node list \<Rightarrow> bool" where
  "swapped xs = odd (length (filter sharp xs))"

definition strip_vertices :: "'f laser_floats \<Rightarrow> 'f laser_paint \<Rightarrow> 'f \<Rightarrow> 'f laser_node list \<Rightarrow> 'f laser_vertex list" where
  "strip_vertices F P m_len xs = concat (map (\<lambda>i. node_vertices F P m_len (walked F (take (Suc i) xs)) (swapped (take (Suc i) xs)) (xs ! i))
     [0..<length xs])"

definition strip_indices :: "nat \<Rightarrow> nat \<Rightarrow> nat list" where
  "strip_indices off n = concat (map (\<lambda>i. map ((+) (off + 2 * i)) [0, 2, 3, 3, 1, 0]) [0..<n - 1])"

lemma length_strip_vertices: "length (strip_vertices F P m_len xs) = 2 * length xs"
proof -
  have "length (node_vertices F P m_len t f n) = 2" for t f n by (simp add: node_vertices_def Let_def split: prod.split)
  then show ?thesis by (simp add: strip_vertices_def length_concat o_def sum_list_triv)
qed

lemma vertex_fold:
  assumes "laser_ok L" "k \<le> length (nodes L)"
  shows "fold_option (vertex_step F P L) [0..<k] (l_const F 0, False, [])
    = Some (walked F (take k (nodes L)), swapped (take k (nodes L)),
        concat (map (\<lambda>i. node_vertices F P (m_fLength L) (walked F (take (Suc i) (nodes L))) (swapped (take (Suc i) (nodes L))) (nodes L ! i)) [0..<k]))"
  using assms(2)
proof (induction k)
  case (Suc k)
  have "laser_at k L = Some (nodes L ! k)" using laser_at_ok[OF assms(1)] Suc.prems by simp
  then show ?case using Suc
    by (simp add: fold_option_append vertex_step_def Let_def walked_def swapped_def take_Suc_conv_app_nth)
qed (simp add: walked_def swapped_def)

lemma quad_indices_nat:
  assumes "unat off + 2 * i + 4 \<le> 65536"
  shows "map unat (quad_indices off (of_nat (2 * i))) = map ((+) (unat off + 2 * i)) [0, 2, 3, 3, 1, 0]"
proof -
  have "unat (off + of_nat (2 * i) + of_nat d) = unat off + 2 * i + d" if "d \<le> 3" for d
  proof -
    have "off + of_nat (2 * i) + of_nat d = of_nat (unat off + 2 * i + d)" by simp
    then show ?thesis using that assms by (simp only: unat_of_nat) (simp add: take_bit_nat_eq_self)
  qed
  from this[of 0] this[of 1] this[of 2] this[of 3] show ?thesis by (simp add: quad_indices_def)
qed

lemma quads_nat:
  assumes "unat off + 2 * n \<le> 65536"
  shows "map unat (concat (map (\<lambda>i. quad_indices off (of_nat (2 * i))) [0..<n - 1])) = strip_indices (unat off) n"
  unfolding strip_indices_def map_concat map_map o_def
  using quad_indices_nat[of off] assms by (intro arg_cong[where f = concat] map_cong refl) auto

lemma strip_indices_bound: "j \<in> set (strip_indices off n) \<Longrightarrow> off \<le> j \<and> j < off + 2 * n"
  by (auto simp: strip_indices_def)

text \<open>What is filled in: the strip of the nodes, and the indices of its quads.\<close>

lemma laser_mesh_strip:
  assumes "laser_ok L"
  shows "laser_mesh F P (of_nat (length (nodes L))) off L = Some (strip_vertices F P (m_fLength L) (nodes L),
    concat (map (\<lambda>i. quad_indices off (of_nat (2 * i))) [0..<length (nodes L) - 1]))"
proof -
  let ?n = "length (nodes L)"
  have "?n \<le> 512" using assms queue_inv_bounded[of "laser_queue L"] by (simp add: laser_ok_def nodes_def LGOBJ_MAXLASERNODE_def)
  then have "unat (of_nat ?n :: u16) = ?n" by (simp add: unat_of_nat take_bit_nat_eq_self)
  then show ?thesis using vertex_fold[OF assms, of ?n F P] by (simp add: laser_mesh_def strip_vertices_def)
qed

text \<open>
  The mesh of a laser: for every node two vertices and for every two neighbours six
  indices.  When the vertices have 16-bit numbers, no index wraps around and each is that of a
  vertex of this laser.
\<close>

theorem laser_mesh_correct:
  assumes "laser_ok L" "unat off + 2 * length (nodes L) \<le> 65536"
  shows "\<exists>vs js. laser_mesh F P (of_nat (length (nodes L))) off L = Some (vs, js)
    \<and> vs = strip_vertices F P (m_fLength L) (nodes L) \<and> length vs = 2 * length (nodes L)
    \<and> map unat js = strip_indices (unat off) (length (nodes L)) \<and> length js = 6 * (length (nodes L) - 1)
    \<and> (\<forall>j. j \<in> set js \<longrightarrow> unat off \<le> unat j \<and> unat j < unat off + length vs)"
proof -
  let ?n = "length (nodes L)" and ?js = "concat (map (\<lambda>i. quad_indices off (of_nat (2 * i))) [0..<length (nodes L) - 1])"
  have js: "map unat ?js = strip_indices (unat off) ?n" by (rule quads_nat[OF assms(2)])
  moreover have "length ?js = 6 * (?n - 1)" by (simp add: length_concat o_def quad_indices_def sum_list_triv)
  moreover have "unat off \<le> unat j \<and> unat j < unat off + 2 * ?n" if "j \<in> set ?js" for j
  proof (rule strip_indices_bound)
    show "unat j \<in> set (strip_indices (unat off) ?n)" using imageI[OF that, of unat] unfolding js[symmetric] set_map .
  qed
  ultimately show ?thesis using laser_mesh_strip[OF assms(1)] by (simp add: length_strip_vertices)
qed

end
