(* ===== verification/BentLaserTypes.thy ===== *)
theory BentLaserTypes
  imports BentLaserSampling
begin

text \<open>
  No operation of the bent laser leaves its well-formed states, and none reads outside its nodes.
\<close>

text \<open>An operation that returns and keeps the number of nodes.\<close>

definition keeps_nodes :: "'f bent_laser \<Rightarrow> 'f bent_laser option \<Rightarrow> bool" where
  "keeps_nodes L r \<longleftrightarrow> (\<exists>L'. r = Some L' \<and> laser_ok L' \<and> length (nodes L') = length (nodes L))"

lemma keeps_nodes_refl: "laser_ok L \<Longrightarrow> keeps_nodes L (Some L)"
  by (simp add: keeps_nodes_def)

lemma keeps_nodes_bind:
  "keeps_nodes L r \<Longrightarrow> (\<And>L'. laser_ok L' \<Longrightarrow> length (nodes L') = length (nodes L) \<Longrightarrow> keeps_nodes L' (f L')) \<Longrightarrow> keeps_nodes L (Option.bind r f)"
  by (auto simp: keeps_nodes_def)

lemma keeps_nodes_length [simp]:
  "keeps_nodes (L\<lparr>m_fLength := k\<rparr>) r = keeps_nodes L r"
  by (simp add: keeps_nodes_def)

lemma keeps_nodes_map: "keeps_nodes L r \<Longrightarrow> keeps_nodes L (map_option (\<lambda>L. L\<lparr>m_fLength := l L\<rparr>) r)"
  by (auto simp: keeps_nodes_def)

text \<open>An operation with a result that returns in a well-formed state.\<close>

definition returns_ok :: "('r \<times> 'f bent_laser) option \<Rightarrow> bool" where
  "returns_ok r \<longleftrightarrow> (\<exists>p. r = Some p \<and> laser_ok (snd p))"

lemma returns_ok_Some [simp]: "returns_ok (Some (r, L)) = laser_ok L"
  by (simp add: returns_ok_def)

lemma keeps_nodes_returns: "keeps_nodes L r \<Longrightarrow> returns_ok (map_option (Pair b) r)"
  by (auto simp: keeps_nodes_def)

lemma shows_as_keeps: "\<exists>L'. r = Some L' \<and> shows_as L xs l L' \<Longrightarrow> length xs = length (nodes L) \<Longrightarrow> keeps_nodes L r"
  using shows_asD by (fastforce simp: keeps_nodes_def)

lemma laser_modify_keeps: "laser_ok L \<Longrightarrow> i < length (nodes L) \<Longrightarrow> keeps_nodes L (laser_modify i f L)"
  by (rule shows_as_keeps[OF laser_modify_ok]) simp_all

lemma extend_keeps: "laser_ok L \<Longrightarrow> i < length (nodes L) \<Longrightarrow> keeps_nodes L (UpdateNodeVertexExtend F i L)"
  by (rule shows_as_keeps[OF UpdateNodeVertexExtend_ok]) simp_all

lemma update_all_keeps: "laser_ok L \<Longrightarrow> keeps_nodes L (UpdateAllNode F L)"
proof -
  assume "laser_ok L"
  then obtain L' ys where L': "UpdateAllNode F L = Some L'" "shows_as L ys (foldl (l_add F) (l_const F 0) (gaps F ys)) L'"
      "map body ys = map body (nodes L)" using UpdateAllNode_ok[of L F] by blast
  then show ?thesis using shows_asD(1,2)[OF L'(2)] body_length[OF L'(3)] by (simp add: keeps_nodes_def)
qed

lemma fold_keeps:
  "(\<And>i L'. i \<in> set is \<Longrightarrow> laser_ok L' \<Longrightarrow> length (nodes L') = length (nodes L) \<Longrightarrow> keeps_nodes L' (f i L')) \<Longrightarrow> laser_ok L
    \<Longrightarrow> keeps_nodes L (fold_option f is L)"
proof (induction "is" arbitrary: L)
  case (Cons i "is")
  obtain L' where L': "f i L = Some L'" "laser_ok L'" "length (nodes L') = length (nodes L)"
    using Cons.prems by (auto simp: keeps_nodes_def)
  have "keeps_nodes L' (fold_option f is L')" using Cons.IH[of L'] Cons.prems(1) L' by simp
  then show ?case using L' by (simp add: keeps_nodes_def)
qed (simp add: keeps_nodes_def)

lemma set_all_width_keeps: "laser_ok L \<Longrightarrow> keeps_nodes L (laser_SetAllWidth F w L)"
  unfolding laser_SetAllWidth_def by (rule fold_keeps) (simp_all add: laser_size_nodes laser_modify_keeps)

lemma envelope_keeps: "laser_ok L \<Longrightarrow> laser_ok (laser_SetEnvelope F h b r p L) \<and> nodes (laser_SetEnvelope F h b r p L) = nodes L"
  by (simp add: laser_SetEnvelope_def laser_ok_def nodes_def)

lemma update_by_node_returns: "laser_ok L \<Longrightarrow> returns_ok (laser_UpdateByNode F p i len active L)"
proof -
  assume L: "laser_ok L"
  have "keeps_nodes L (Option.bind (laser_modify k f L) (UpdateAllNode F))" if "k < length (nodes L)" for k f
    by (rule keeps_nodes_bind[OF laser_modify_keeps[OF L that] update_all_keeps])
  note this[THEN keeps_nodes_returns[where b = True]]
  then show ?thesis using L by (simp add: laser_UpdateByNode_def Let_def laser_size_nodes)
qed

lemma single_node_returns:
  assumes "laser_ok L"
  shows "returns_ok (api_UpdateSingleNode F index x y w L)"
proof (cases "unat (size_of_int (index - 1)) < length (nodes L)")
  case True
  let ?i = "unat (size_of_int (index - 1))"
  have dis: "keeps_nodes M (if ?i > 0 then Option.bind (laser_at (?i - 1) M) (\<lambda>last. let len = v2_length F (v2_sub F (l_of_double F x, l_of_double F y) (node_pos last)) in
        map_option (\<lambda>L. L\<lparr>m_fLength := l_add F (m_fLength L) len\<rparr>) (laser_modify ?i (\<lambda>n. n\<lparr>dis := len\<rparr>) M))
      else laser_modify ?i (\<lambda>n. n\<lparr>dis := l_const F 0\<rparr>) M)" if "laser_ok M" "length (nodes M) = length (nodes L)" for M
    using that True laser_at_ok[OF that(1), of "?i - 1"]
    by (auto simp: Let_def laser_modify_keeps intro!: keeps_nodes_map)
  have around: "keeps_nodes M (if laser_size M > 1 then Option.bind (if ?i > 0 then UpdateNodeVertexExtend F (?i - 1) M else Some M) (\<lambda>L.
        if ?i < laser_size L - 1 then UpdateNodeVertexExtend F (?i + 1) L else Some L) else Some M)"
    if "laser_ok M" "length (nodes M) = length (nodes L)" for M
  proof -
    have "keeps_nodes M (if ?i > 0 then UpdateNodeVertexExtend F (?i - 1) M else Some M)"
      using that True by (simp add: extend_keeps keeps_nodes_refl less_imp_diff_less)
    moreover have "keeps_nodes N (if ?i < laser_size N - 1 then UpdateNodeVertexExtend F (?i + 1) N else Some N)" if "laser_ok N" for N
      using that by (simp add: extend_keeps keeps_nodes_refl laser_size_nodes)
    ultimately show ?thesis using that(1) by (simp add: keeps_nodes_bind keeps_nodes_refl)
  qed
  obtain n where "laser_at ?i L = Some n" using laser_at_ok[OF assms True] by blast
  moreover have "keeps_nodes (L\<lparr>m_fLength := l_sub F (m_fLength L) (dis n)\<rparr>)
      (Option.bind (laser_modify ?i (\<lambda>n. n\<lparr>node_pos := (l_of_double F x, l_of_double F y), half_width := l_half_of_double F w, node_active := True\<rparr>)
          (L\<lparr>m_fLength := l_sub F (m_fLength L) (dis n)\<rparr>)) (\<lambda>L.
       Option.bind (if ?i > 0 then Option.bind (laser_at (?i - 1) L) (\<lambda>last. let len = v2_length F (v2_sub F (l_of_double F x, l_of_double F y) (node_pos last)) in
             map_option (\<lambda>L. L\<lparr>m_fLength := l_add F (m_fLength L) len\<rparr>) (laser_modify ?i (\<lambda>n. n\<lparr>dis := len\<rparr>) L))
           else laser_modify ?i (\<lambda>n. n\<lparr>dis := l_const F 0\<rparr>) L) (\<lambda>L.
       Option.bind (UpdateNodeVertexExtend F ?i L) (\<lambda>L.
         if laser_size L > 1 then
           Option.bind (if ?i > 0 then UpdateNodeVertexExtend F (?i - 1) L else Some L) (\<lambda>L.
             if ?i < laser_size L - 1 then UpdateNodeVertexExtend F (?i + 1) L else Some L)
         else Some L))))"
    using assms True by (intro keeps_nodes_bind laser_modify_keeps dis around extend_keeps) simp_all
  ultimately show ?thesis
    using True keeps_nodes_returns unfolding api_UpdateSingleNode_def by (simp add: Let_def laser_size_nodes)
qed (use assms in \<open>simp add: api_UpdateSingleNode_def Let_def laser_size_nodes\<close>)

subsection \<open>Lists from scripts\<close>

lemma listed_node_returns:
  assumes "laser_ok (snd r)" "i < length (nodes (snd r))"
  shows "\<exists>r'. set_listed_node F xs ys ws i r = Some r' \<and> laser_ok (snd r') \<and> length (nodes (snd r')) = length (nodes (snd r))"
proof -
  obtain e L where r: "r = (e, L)" by (cases r)
  have "\<exists>L'. laser_modify i f L = Some L' \<and> laser_ok L' \<and> length (nodes L') = length (nodes L)" for f
    using laser_modify_keeps[of L i f] assms r by (simp add: keeps_nodes_def)
  then show ?thesis using assms r laser_at_ok[of L i]
    by (auto simp: set_listed_node_def split: option.split sum.split)
qed

lemma list_returns:
  assumes "laser_ok L" "unat (size_of_int n) \<noteq> LGOBJ_MAXLASERNODE"
  shows "returns_ok (api_UpdateAllNodeByList F n xs ys ws L)"
proof (cases "unat (size_of_int n) > LGOBJ_MAXLASERNODE")
  case True
  then show ?thesis using assms(1) by (simp add: api_UpdateAllNodeByList_def Let_def laser_ok_def)
next
  case False
  let ?n = "unat (size_of_int n)" and ?d = "m_data (laser_queue L)"
  have n: "?n < length ?d" using False assms by (simp add: laser_ok_def)
  obtain q where q: "placementResize (laser_queue L) ?n = Some q" "queue_inv q" "queue_list q = take ?n ?d"
    using placementResize_correct[OF n] by blast
  have "length (m_data q) = length ?d" using q(1) by (auto simp: placementResize_def option_inv)
  then have L': "laser_ok (L\<lparr>laser_queue := q\<rparr>)" "length (nodes (L\<lparr>laser_queue := q\<rparr>)) = ?n"
    using q(2) arg_cong[OF q(3), of length] assms(1) n unfolding laser_ok_def nodes_def by simp_all
  obtain e M where M: "fold_option (set_listed_node F xs ys ws) [0..<?n] (None, L\<lparr>laser_queue := q\<rparr>) = Some (e, M)" "laser_ok M"
    using fold_option_total[of "\<lambda>r. laser_ok (snd r) \<and> length (nodes (snd r)) = ?n" "(None, L\<lparr>laser_queue := q\<rparr>)" "[0..<?n]" "set_listed_node F xs ys ws"]
      L' listed_node_returns[where F = F and xs = xs and ys = ys and ws = ws] by fastforce
  then show ?thesis using n q(1) keeps_nodes_returns[OF update_all_keeps[OF M(2)]]
    by (cases e) (simp_all add: api_UpdateAllNodeByList_def Let_def)
qed

lemma fold_option_inv:
  "fold_option f xs st = Some st' \<Longrightarrow> I st \<Longrightarrow> (\<And>x st st'. I st \<Longrightarrow> f x st = Some st' \<Longrightarrow> I st') \<Longrightarrow> I st'"
  by (induction xs arbitrary: st) (auto split: option.splits)

lemma push_many_ok:
  "push_many (\<lambda>q. pushHead q v) k q = Some q' \<Longrightarrow> queue_inv q \<Longrightarrow> queue_inv q' \<and> length (m_data q') = length (m_data q)"
proof (induction k arbitrary: q)
  case (Suc k)
  then obtain q1 where q1: "pushHead q v = Some q1" "push_many (\<lambda>q. pushHead q v) k q1 = Some q'" by (auto simp: bind_eq_Some_conv)
  then have "m_size q < length (m_data q)"
    using queue_inv_bounded[OF Suc.prems(2)] by (auto simp: pushHead_def queue_full_def option_inv)
  then show ?case using pushHead_correct[OF Suc.prems(2), of v] q1 Suc.IH[OF q1(2)] by auto
qed simp

lemma modify_ok: "laser_ok L \<Longrightarrow> laser_modify i f L = Some L' \<Longrightarrow> laser_ok L'"
  by (auto simp: laser_modify_def queue_set_at_def laser_ok_def queue_inv_def option_inv bind_eq_Some_conv)

lemma place_point_ok: "laser_ok L \<Longrightarrow> place_point F width c p L = Some L' \<Longrightarrow> laser_ok L'"
proof -
  assume L: "laser_ok L" "place_point F width c p L = Some L'"
  then obtain q where q: "(if c \<ge> int (laser_size L) then push_many (\<lambda>q. pushHead q ((new_node F)\<lparr>node_active := False\<rparr>)) (nat (c - int (laser_size L) + 1)) (laser_queue L)
       else Some (laser_queue L)) = Some q"
    "laser_modify (nat (int (laser_size (L\<lparr>laser_queue := q\<rparr>)) - c - 1))
         (\<lambda>n. n\<lparr>node_active := True, half_width := l_div F width (l_const F 2), node_pos := p\<rparr>) (L\<lparr>laser_queue := q\<rparr>) = Some L'"
    unfolding place_point_def Let_def by (auto simp: bind_eq_Some_conv)
  have "laser_ok (L\<lparr>laser_queue := q\<rparr>)"
    using q(1) L(1) push_many_ok[of _ _ "laser_queue L" q] by (auto simp: laser_ok_def split: if_splits)
  then show ?thesis using q(2) by (rule modify_ok)
qed

lemma positions_ok:
  assumes "laser_ok L" "laser_UpdatePositionByList F points len width index revert L = Some (r, L')"
  shows "laser_ok L'"
proof -
  obtain b M where M: "fold_option (\<lambda>i (ok, L). if \<not> ok then Some (False, L) else (case points i of None \<Rightarrow> Some (False, L)
       | Some p \<Rightarrow> map_option (Pair True)
           (place_point F width (index - 1 + (if revert then - int i else int i)) p L))) [0..<nat len] (True, L) = Some (b, M)"
    using assms(2) by (auto simp: laser_UpdatePositionByList_def split: option.splits)
  have "laser_ok (snd (b, M))"
    using M by (rule fold_option_inv) (use assms(1) place_point_ok in \<open>auto split: if_splits option.splits\<close>)
  then show ?thesis
    using assms(2) M update_all_keeps[of M F] by (cases b) (auto simp: laser_UpdatePositionByList_def keeps_nodes_def)
qed

subsection \<open>Sessions\<close>

text \<open>
  A laser after any calls from a script.  \<open>api_UpdateAllNodeByList\<close> with 512 nodes is excluded: it
  leaves the end of the ring buffer outside its array.
\<close>

inductive laser_session :: "'f laser_floats \<Rightarrow> 'f bent_laser \<Rightarrow> bool" for F where
  session_new: "laser_session F (new_laser F)"
| session_update: "laser_session F L \<Longrightarrow> laser_Update_id F p len width active L = Some (r, L') \<Longrightarrow> laser_session F L'"
| session_node: "laser_session F L \<Longrightarrow> laser_UpdateByNode F p i len active L = Some (r, L') \<Longrightarrow> laser_session F L'"
| session_width: "laser_session F L \<Longrightarrow> laser_SetAllWidth F w L = Some L' \<Longrightarrow> laser_session F L'"
| session_envelope: "laser_session F L \<Longrightarrow> laser_session F (laser_SetEnvelope F h b rt pw L)"
| session_single: "laser_session F L \<Longrightarrow> api_UpdateSingleNode F i x y w' L = Some (e, L') \<Longrightarrow> laser_session F L'"
| session_list: "laser_session F L \<Longrightarrow> unat (size_of_int n) \<noteq> LGOBJ_MAXLASERNODE
    \<Longrightarrow> api_UpdateAllNodeByList F n xs ys ws L = Some (e', L') \<Longrightarrow> laser_session F L'"
| session_positions: "laser_session F L \<Longrightarrow> laser_UpdatePositionByList F points len width i revert L = Some (r, L')
    \<Longrightarrow> laser_session F L'"

lemma update_returns: "laser_ok L \<Longrightarrow> returns_ok (laser_Update F x y len width active L)"
proof (cases "2 \<le> len")
  case True
  assume "laser_ok L"
  then obtain L' xs l where "laser_Update F x y len width active L = Some (True, L')" "shows_as L xs l L'"
    using laser_Update_ok[OF _ True, of L F x y width active] by (auto simp: Let_def)
  then show ?thesis using shows_asD(1) by auto
qed (simp add: laser_Update_def)

lemma update_id_returns: "laser_ok L \<Longrightarrow> returns_ok (laser_Update_id F p len width active L)"
  by (simp add: laser_Update_id_def update_returns split: option.split)

lemma returns_okD: "returns_ok r \<Longrightarrow> r = Some (x, L) \<Longrightarrow> laser_ok L"
  by (simp add: returns_ok_def)

lemma session_ok: "laser_session F L \<Longrightarrow> laser_ok L"
proof (induction rule: laser_session.induct)
  case session_new
  then show ?case by (rule new_laser_ok(1))
next
  case (session_update L p len width active r L')
  show ?case by (rule returns_okD[OF update_id_returns[OF session_update.IH] session_update.hyps(2)])
next
  case (session_node L p i len active r L')
  show ?case by (rule returns_okD[OF update_by_node_returns[OF session_node.IH] session_node.hyps(2)])
next
  case (session_width L w L')
  then show ?case using set_all_width_keeps[of L F w] by (simp add: keeps_nodes_def)
next
  case (session_envelope L h b rt pw)
  then show ?case using envelope_keeps[of L] by blast
next
  case (session_single L i x y w' e L')
  show ?case by (rule returns_okD[OF single_node_returns[OF session_single.IH] session_single.hyps(2)])
next
  case (session_list L n xs ys ws e' L')
  show ?case by (rule returns_okD[OF list_returns[OF session_list.IH session_list.hyps(2)] session_list.hyps(3)])
next
  case (session_positions L points len width i revert r L')
  show ?case by (rule positions_ok[OF session_positions.IH session_positions.hyps(2)])
qed

text \<open>
  C30.  The laser is well-formed and its operations do not fail.  After any calls from a script
  the ring buffer is consistent and has at most 512 nodes, and from there each of the operations
  named below returns (no failed assertion, no access outside the array, no endless loop) in a
  well-formed state.  Two are limited: \<open>UpdateAllNodeByList\<close> with exactly 512 nodes writes outside
  the buffer and is left out, and \<open>UpdatePositionByList\<close>, which a negative index makes read outside,
  is only shown to leave a well-formed laser when it returns.  The samplers, which need not return,
  are not among the operations.
\<close>

theorem laser_well_formed:
  assumes "laser_session F L"
  shows "laser_ok L \<and> length (nodes L) \<le> LGOBJ_MAXLASERNODE
    \<and> returns_ok (laser_Update_id F p len width active L)
    \<and> returns_ok (laser_Update F x y len width active L)
    \<and> returns_ok (laser_UpdateByNode F p i len active L)
    \<and> keeps_nodes L (laser_SetAllWidth F width L)
    \<and> laser_ok (laser_SetEnvelope F h b rt pw L)
    \<and> returns_ok (api_UpdateSingleNode F i x' y' w' L)
    \<and> (unat (size_of_int n) \<noteq> LGOBJ_MAXLASERNODE \<longrightarrow> returns_ok (api_UpdateAllNodeByList F n xs ys ws L))
    \<and> (laser_UpdatePositionByList F points len width i revert L \<noteq> None
        \<longrightarrow> returns_ok (laser_UpdatePositionByList F points len width i revert L))"
proof -
  note ok = session_ok[OF assms]
  have "length (nodes L) \<le> LGOBJ_MAXLASERNODE"
    using ok queue_inv_bounded[of "laser_queue L"] by (simp add: laser_ok_def nodes_def)
  moreover have "returns_ok (laser_UpdatePositionByList F points len width i revert L)"
    if "laser_UpdatePositionByList F points len width i revert L \<noteq> None"
    using that positions_ok[OF ok, of F points len width i revert] by (auto simp: returns_ok_def)
  ultimately show ?thesis
    by (simp add: ok update_id_returns update_returns update_by_node_returns set_all_width_keeps envelope_keeps
        single_node_returns list_returns)
qed

theorem laser_well_formed_witness:
  "returns_ok (api_UpdateAllNodeByList int_floats 511 (\<lambda>i. Some 1) (\<lambda>i. Some 2) (Inl 3) (new_laser int_floats))"
proof -
  have "unat (size_of_int 511) \<noteq> LGOBJ_MAXLASERNODE" by (simp add: size_of_int_def LGOBJ_MAXLASERNODE_def)
  then show ?thesis
    using laser_well_formed[OF laser_session.session_new[of int_floats], where n = 511 and xs = "\<lambda>i. Some 1"
        and ys = "\<lambda>i. Some 2" and ws = "Inl 3"] by blast
qed

end
