(* ===== verification/Renderer.thy ===== *)
theory Renderer
  imports Prelude
begin

text \<open>
  The batching renderer (\<open>Renderer_D3D11\<close>): draw calls are collected in a list of vertices, a list
  of indices and a list of commands, one per texture, and given to the device when a state changes,
  when the lists are full or when asked for.  The calls on the device context are recorded in
  order.  Floats, the matrices of DirectXMath, the properties of textures and which calls of \<open>Map\<close>
  succeed are parameters.
\<close>

subsection \<open>Types\<close>

text \<open>Objects of the device (textures, views, samplers, models) are numbers, \<open>nullptr\<close> is \<open>None\<close>.\<close>

type_synonym handle = nat

datatype vertex_color_blend_state = VertexZero | VertexOne | VertexAdd | VertexMul
datatype fog_state = FogDisable | FogLinear | FogExp | FogExp2
datatype depth_state = DepthDisable | DepthEnable
datatype blend_state = BlendDisable | BlendAlpha | BlendOne | BlendMin | BlendMax | BlendMul | BlendScreen | BlendAdd
  | BlendSub | BlendRevSub | BlendInv
datatype sampler_state = PointWrap | PointClamp | PointBorderBlack | PointBorderWhite | LinearWrap | LinearClamp
  | LinearBorderBlack | LinearBorderWhite
datatype texture_alpha_type = AlphaNormal | AlphaPremul

record 'f draw_vertex =
  vx :: 'f
  vy :: 'f
  vz :: 'f
  vcolor :: u32
  vu :: 'f
  vv :: 'f

type_synonym 'f vec3 = "'f \<times> 'f \<times> 'f"
type_synonym 'f box = "'f vec3 \<times> 'f vec3"
type_synonym 'f rect = "('f \<times> 'f) \<times> ('f \<times> 'f)"

record 'f perspective =
  eye :: "'f vec3"
  lookat :: "'f vec3"
  headup :: "'f vec3"
  fov :: 'f
  aspect :: 'f
  znear :: 'f
  zfar :: 'f

text \<open>
  The parameters.  \<open>unit_of b\<close> is \<open>(float)b / 255.0f\<close>, \<open>long_of\<close> the conversion to \<open>LONG\<close>;
  \<open>ortho_matrix\<close> and \<open>view_matrix\<close> are the sixteen numbers of the matrices; \<open>tex_view\<close>, \<open>tex_sampler\<close>
  and \<open>tex_premul\<close> are \<open>GetView\<close>, \<open>getSamplerState\<close> and \<open>isPremultipliedAlpha\<close>; \<open>map_ok k\<close> says
  whether the call number \<open>k\<close> of \<open>Map\<close> succeeds.
\<close>

record 'f render_ops =
  f_eq :: "'f \<Rightarrow> 'f \<Rightarrow> bool"
  f_sub :: "'f \<Rightarrow> 'f \<Rightarrow> 'f"
  f_zero :: 'f
  f_one :: 'f
  unit_of :: "u8 \<Rightarrow> 'f"
  long_of :: "'f \<Rightarrow> int"
  ortho_matrix :: "'f list \<Rightarrow> 'f list"
  view_matrix :: "'f perspective \<Rightarrow> 'f list"
  tex_view :: "handle \<Rightarrow> handle option"
  tex_sampler :: "handle \<Rightarrow> handle option"
  tex_premul :: "handle \<Rightarrow> bool"
  known_sampler :: "sampler_state \<Rightarrow> handle"
  map_ok :: "nat \<Rightarrow> bool"

definition vec3_eq :: "'f render_ops \<Rightarrow> 'f vec3 \<Rightarrow> 'f vec3 \<Rightarrow> bool" where
  "vec3_eq D a b \<longleftrightarrow> f_eq D (fst a) (fst b) \<and> f_eq D (fst (snd a)) (fst (snd b)) \<and> f_eq D (snd (snd a)) (snd (snd b))"

definition box_eq :: "'f render_ops \<Rightarrow> 'f box \<Rightarrow> 'f box \<Rightarrow> bool" where
  "box_eq D a b \<longleftrightarrow> vec3_eq D (fst a) (fst b) \<and> vec3_eq D (snd a) (snd b)"

definition rect_eq :: "'f render_ops \<Rightarrow> 'f rect \<Rightarrow> 'f rect \<Rightarrow> bool" where
  "rect_eq D a b \<longleftrightarrow> f_eq D (fst (fst a)) (fst (fst b)) \<and> f_eq D (snd (fst a)) (snd (fst b))
     \<and> f_eq D (fst (snd a)) (fst (snd b)) \<and> f_eq D (snd (snd a)) (snd (snd b))"

text \<open>A color as the four numbers red, green, blue and alpha.\<close>

definition color_units :: "'f render_ops \<Rightarrow> u32 \<Rightarrow> 'f list" where
  "color_units D c = map (\<lambda>k. unit_of D (ucast (drop_bit k c))) [16, 8, 0, 24]"

subsection \<open>State\<close>

record 'f renderer_state_set =
  rs_viewport :: "'f box"
  rs_scissor_rect :: "'f rect"
  rs_fog_near_or_density :: 'f
  rs_fog_far :: 'f
  rs_fog_color :: u32
  rs_vertex_color_blend :: vertex_color_blend_state
  rs_sampler :: sampler_state
  rs_fog :: fog_state
  rs_texture_alpha :: texture_alpha_type
  rs_depth :: depth_state
  rs_blend :: blend_state

definition new_state_set :: "'f render_ops \<Rightarrow> 'f renderer_state_set" where
  "new_state_set D = (let z = f_zero D; o1 = f_one D in
     \<lparr>rs_viewport = ((z, z, z), (o1, o1, o1)), rs_scissor_rect = ((z, z), (o1, o1)), rs_fog_near_or_density = z, rs_fog_far = z,
      rs_fog_color = 0, rs_vertex_color_blend = VertexMul, rs_sampler = LinearClamp, rs_fog = FogDisable,
      rs_texture_alpha = AlphaNormal, rs_depth = DepthDisable, rs_blend = BlendAlpha\<rparr>)"

record 'f camera_state_set =
  cs_ortho :: "'f box"
  cs_perspective :: "'f perspective"
  cs_is_3D :: bool

definition new_camera_state :: "'f render_ops \<Rightarrow> 'f camera_state_set" where
  "new_camera_state D = (let z = f_zero D; o1 = f_one D in
     \<lparr>cs_ortho = ((z, z, z), (o1, o1, o1)),
      cs_perspective = \<lparr>eye = (z, z, z), lookat = (z, z, o1), headup = (z, o1, z), fov = z, aspect = z, znear = z, zfar = z\<rparr>,
      cs_is_3D = False\<rparr>)"

definition ortho_equal :: "'f render_ops \<Rightarrow> 'f camera_state_set \<Rightarrow> 'f box \<Rightarrow> bool" where
  "ortho_equal D c b \<longleftrightarrow> \<not> cs_is_3D c \<and> box_eq D (cs_ortho c) b"

definition perspective_equal :: "'f render_ops \<Rightarrow> 'f camera_state_set \<Rightarrow> 'f perspective \<Rightarrow> bool" where
  "perspective_equal D c p \<longleftrightarrow> cs_is_3D c \<and> (let q = cs_perspective c in vec3_eq D (eye q) (eye p) \<and> vec3_eq D (lookat q) (lookat p)
     \<and> vec3_eq D (headup q) (headup p) \<and> f_eq D (fov q) (fov p) \<and> f_eq D (aspect q) (aspect p) \<and> f_eq D (znear q) (znear p)
     \<and> f_eq D (zfar q) (zfar p))"

record draw_command =
  cmd_texture :: "handle option"
  cmd_vertex_count :: u16
  cmd_index_count :: u16

text \<open>The calls on the device context.  \<open>BindPipeline\<close> stands for the fixed bindings of \<open>beginBatch\<close>.\<close>

datatype 'f gpu_call =
    BindPipeline
  | WriteVertices bool nat "'f draw_vertex list"
  | WriteIndices bool nat "u16 list"
  | BindTexture "handle option"
  | BindSampler handle
  | BindPixelShader vertex_color_blend_state fog_state texture_alpha_type
  | BindVertexShader fog_state
  | DrawIndexed nat nat nat
  | UploadMatrix "'f list"
  | UploadCamera "'f list"
  | UploadFog "'f list"
  | SetViewports "'f list"
  | SetScissors "int list"
  | SetDepth depth_state
  | SetBlend blend_state
  | SetTargets "handle option" "handle option"
  | ClearTarget handle "'f list"
  | ClearDepth handle 'f
  | DrawModel handle fog_state

text \<open>
  The renderer.  There is one pair of vertex and index buffers, so \<open>_vi_buffer_index\<close> is always 0.
  \<open>om_target\<close> and \<open>om_depth\<close> are the attachments bound in the context, which the code reads back.
\<close>

record 'f renderer =
  vertex_offset :: nat
  index_offset :: nat
  vertex_data :: "'f draw_vertex list"
  vertex_size :: nat
  index_data :: "u16 list"
  index_size :: nat
  commands :: "draw_command list"
  state_texture :: "handle option"
  camera_state :: "'f camera_state_set"
  state_set :: "'f renderer_state_set"
  state_dirty :: bool
  batch_scope :: bool
  calls :: "'f gpu_call list"
  maps :: nat
  om_target :: "handle option"
  om_depth :: "handle option"

definition draw_capacity :: nat where "draw_capacity = 32768"

definition command_capacity :: nat where "command_capacity = 2048"

definition new_renderer :: "'f render_ops \<Rightarrow> 'f renderer" where
  "new_renderer D = (let z = f_zero D in
     \<lparr>vertex_offset = 0, index_offset = 0,
      vertex_data = replicate draw_capacity \<lparr>vx = z, vy = z, vz = z, vcolor = 0, vu = z, vv = z\<rparr>, vertex_size = 0,
      index_data = replicate draw_capacity 0, index_size = 0, commands = [], state_texture = None,
      camera_state = new_camera_state D, state_set = new_state_set D, state_dirty = False, batch_scope = False,
      calls = [], maps = 0, om_target = None, om_depth = None\<rparr>)"

definition emit :: "'f gpu_call \<Rightarrow> 'f renderer \<Rightarrow> 'f renderer" where
  "emit c r = r\<lparr>calls := calls r @ [c]\<rparr>"

text \<open>\<open>Map\<close>, the writing and \<open>Unmap\<close>: whether it succeeded.\<close>

definition map_write :: "'f render_ops \<Rightarrow> 'f gpu_call \<Rightarrow> 'f renderer \<Rightarrow> bool \<times> 'f renderer" where
  "map_write D c r = (if map_ok D (maps r) then (True, emit c (r\<lparr>maps := maps r + 1\<rparr>)) else (False, r\<lparr>maps := maps r + 1\<rparr>))"

text \<open>Free entries: \<open>capacity - size\<close> in \<open>size_t\<close>.\<close>

definition room :: "nat \<Rightarrow> nat \<Rightarrow> nat" where
  "room capacity used = unat (of_nat capacity - of_nat used :: u64)"

subsection \<open>Uploading and flushing\<close>

definition uploadVertexIndexBuffer :: "'f render_ops \<Rightarrow> bool \<Rightarrow> 'f renderer \<Rightarrow> bool \<times> 'f renderer" where
  "uploadVertexIndexBuffer D discard r = (let (ok, r) = (if vertex_size r > 0
       then map_write D (WriteVertices discard (vertex_offset r) (take (vertex_size r) (vertex_data r))) r else (True, r)) in
     if \<not> ok then (False, r)
     else if index_size r > 0 then map_write D (WriteIndices discard (index_offset r) (take (index_size r) (index_data r))) r
     else (True, r))"

definition clearDrawList :: "'f renderer \<Rightarrow> 'f renderer" where
  "clearDrawList r = r\<lparr>vertex_size := 0, index_size := 0, commands := []\<rparr>"

definition uploadVertexIndexBufferFromDrawList :: "'f render_ops \<Rightarrow> 'f renderer \<Rightarrow> bool \<times> 'f renderer" where
  "uploadVertexIndexBufferFromDrawList D r =
     (let (ok, r) = (if room draw_capacity (vertex_offset r) < vertex_size r \<or> room draw_capacity (index_offset r) < index_size r
        then uploadVertexIndexBuffer D True (r\<lparr>vertex_offset := 0, index_offset := 0\<rparr>)
        else uploadVertexIndexBuffer D False r)
      in if ok then (True, r) else (False, clearDrawList r))"

definition bindTextureSamplerState :: "'f render_ops \<Rightarrow> handle option \<Rightarrow> 'f renderer \<Rightarrow> 'f renderer" where
  "bindTextureSamplerState D t r = (let from_texture = (case t of None \<Rightarrow> None | Some x \<Rightarrow> tex_sampler D x) in
     emit (BindSampler (case from_texture of Some s \<Rightarrow> s | None \<Rightarrow> known_sampler D (rs_sampler (state_set r)))) r)"

definition alpha_type :: "'f render_ops \<Rightarrow> handle option \<Rightarrow> texture_alpha_type" where
  "alpha_type D t = (if (case t of None \<Rightarrow> False | Some x \<Rightarrow> tex_premul D x) then AlphaPremul else AlphaNormal)"

definition bindTextureAlphaType :: "'f render_ops \<Rightarrow> handle option \<Rightarrow> 'f renderer \<Rightarrow> 'f renderer" where
  "bindTextureAlphaType D t r = (let state = alpha_type D t in
     if state_dirty r \<or> rs_texture_alpha (state_set r) \<noteq> state
     then let r = r\<lparr>state_set := (state_set r)\<lparr>rs_texture_alpha := state\<rparr>\<rparr>
          in emit (BindPixelShader (rs_vertex_color_blend (state_set r)) (rs_fog (state_set r)) state) r
     else r)"

definition view_of :: "'f render_ops \<Rightarrow> handle option \<Rightarrow> handle option" where
  "view_of D t = Option.bind t (tex_view D)"

text \<open>One command of the loop in \<open>batchFlush\<close>.\<close>

definition draw_one :: "'f render_ops \<Rightarrow> draw_command \<Rightarrow> 'f renderer \<Rightarrow> 'f renderer" where
  "draw_one D c r = (let r = (if cmd_vertex_count c > 0 \<and> cmd_index_count c > 0
       then let r = bindTextureAlphaType D (cmd_texture c) (bindTextureSamplerState D (cmd_texture c) (emit (BindTexture (view_of D (cmd_texture c))) r))
            in emit (DrawIndexed (unat (cmd_index_count c)) (index_offset r) (vertex_offset r)) r
       else r)
     in r\<lparr>vertex_offset := vertex_offset r + unat (cmd_vertex_count c), index_offset := index_offset r + unat (cmd_index_count c)\<rparr>)"

definition is_same :: "'f render_ops \<Rightarrow> handle option \<Rightarrow> handle option \<Rightarrow> bool" where
  "is_same D a b = (case (a, b) of (Some x, Some y) \<Rightarrow> tex_view D x = tex_view D y | (None, None) \<Rightarrow> True | _ \<Rightarrow> False)"

text \<open>
  \<open>setTexture\<close> with the flush it calls when there is no room for a command.  \<open>batchFlush\<close> calls it
  in turn, with an empty list of commands, where it does not flush.
\<close>

definition set_texture_with :: "('f renderer \<Rightarrow> 'f renderer) \<Rightarrow> 'f render_ops \<Rightarrow> handle option \<Rightarrow> 'f renderer \<Rightarrow> 'f renderer" where
  "set_texture_with flush D t r = (let r = (if commands r \<noteq> [] \<and> is_same D (cmd_texture (last (commands r))) t then r
       else let r = (if room command_capacity (length (commands r)) < 1 then flush r else r)
            in r\<lparr>commands := commands r @ [\<lparr>cmd_texture = t, cmd_vertex_count = 0, cmd_index_count = 0\<rparr>]\<rparr>)
     in if is_same D (state_texture r) t then r else r\<lparr>state_texture := t\<rparr>)"

definition batchFlush :: "'f render_ops \<Rightarrow> bool \<Rightarrow> 'f renderer \<Rightarrow> bool \<times> 'f renderer" where
  "batchFlush D discard r = (let (ok, r) = (if discard then (True, r)
       else let (ok, r) = uploadVertexIndexBufferFromDrawList D r in
         if \<not> ok then (False, r) else (True, emit (BindTexture None) (fold (draw_one D) (commands r) r))) in
     if \<not> ok then (False, r)
     else let r = clearDrawList r in (True, set_texture_with id D (state_texture r) r))"

definition flushed :: "'f render_ops \<Rightarrow> 'f renderer \<Rightarrow> 'f renderer" where
  "flushed D r = snd (batchFlush D False r)"

definition setTexture :: "'f render_ops \<Rightarrow> handle option \<Rightarrow> 'f renderer \<Rightarrow> 'f renderer" where
  "setTexture D t r = set_texture_with (flushed D) D t r"

subsection \<open>States\<close>

definition setOrtho :: "'f render_ops \<Rightarrow> 'f box \<Rightarrow> 'f renderer \<Rightarrow> 'f renderer" where
  "setOrtho D b r = (if state_dirty r \<or> \<not> ortho_equal D (camera_state r) b
     then let r = flushed D r; r = r\<lparr>camera_state := (camera_state r)\<lparr>cs_ortho := b, cs_is_3D := False\<rparr>\<rparr>
          in snd (map_write D (UploadMatrix (ortho_matrix D [fst (fst b), fst (snd b), fst (snd (snd b)), fst (snd (fst b)),
               snd (snd (fst b)), snd (snd (snd b))])) r)
     else r)"

definition camera_data :: "'f render_ops \<Rightarrow> 'f perspective \<Rightarrow> 'f list" where
  "camera_data D p = (case (eye p, lookat p) of ((ex, ey, ez), (lx, ly, lz)) \<Rightarrow>
     [ex, ey, ez, f_zero D, f_sub D lx ex, f_sub D ly ey, f_sub D lz ez, f_zero D])"

definition setPerspective :: "'f render_ops \<Rightarrow> 'f perspective \<Rightarrow> 'f renderer \<Rightarrow> 'f renderer" where
  "setPerspective D p r = (if state_dirty r \<or> \<not> perspective_equal D (camera_state r) p
     then let r = flushed D r; r = r\<lparr>camera_state := (camera_state r)\<lparr>cs_perspective := p, cs_is_3D := True\<rparr>\<rparr>
          in snd (map_write D (UploadCamera (camera_data D p)) (snd (map_write D (UploadMatrix (view_matrix D p)) r)))
     else r)"

definition viewport_data :: "'f render_ops \<Rightarrow> 'f box \<Rightarrow> 'f list" where
  "viewport_data D b = (case b of ((ax, ay, az), (bx, by', bz)) \<Rightarrow> [ax, ay, f_sub D bx ax, f_sub D by' ay, az, bz])"

definition setViewport :: "'f render_ops \<Rightarrow> 'f box \<Rightarrow> 'f renderer \<Rightarrow> 'f renderer" where
  "setViewport D b r = (if state_dirty r \<or> \<not> box_eq D (rs_viewport (state_set r)) b
     then let r = flushed D r; r = r\<lparr>state_set := (state_set r)\<lparr>rs_viewport := b\<rparr>\<rparr> in emit (SetViewports (viewport_data D b)) r
     else r)"

definition scissor_data :: "'f render_ops \<Rightarrow> 'f rect \<Rightarrow> int list" where
  "scissor_data D b = map (long_of D) [fst (fst b), snd (fst b), fst (snd b), snd (snd b)]"

definition setScissorRect :: "'f render_ops \<Rightarrow> 'f rect \<Rightarrow> 'f renderer \<Rightarrow> 'f renderer" where
  "setScissorRect D b r = (if state_dirty r \<or> \<not> rect_eq D (rs_scissor_rect (state_set r)) b
     then let r = flushed D r; r = r\<lparr>state_set := (state_set r)\<lparr>rs_scissor_rect := b\<rparr>\<rparr> in emit (SetScissors (scissor_data D b)) r
     else r)"

definition setViewportAndScissorRect :: "'f render_ops \<Rightarrow> 'f renderer \<Rightarrow> 'f renderer" where
  "setViewportAndScissorRect D r = (let r = r\<lparr>state_dirty := True\<rparr>; r = setViewport D (rs_viewport (state_set r)) r;
     r = setScissorRect D (rs_scissor_rect (state_set r)) r in r\<lparr>state_dirty := False\<rparr>)"

definition setVertexColorBlendState :: "'f render_ops \<Rightarrow> vertex_color_blend_state \<Rightarrow> 'f renderer \<Rightarrow> 'f renderer" where
  "setVertexColorBlendState D s r = (if state_dirty r \<or> rs_vertex_color_blend (state_set r) \<noteq> s
     then let r = flushed D r; r = r\<lparr>state_set := (state_set r)\<lparr>rs_vertex_color_blend := s\<rparr>\<rparr>
          in emit (BindPixelShader s (rs_fog (state_set r)) (rs_texture_alpha (state_set r))) r
     else r)"

definition fog_data :: "'f render_ops \<Rightarrow> u32 \<Rightarrow> 'f \<Rightarrow> 'f \<Rightarrow> 'f list" where
  "fog_data D color near far = color_units D color @ [near, far, f_zero D, f_sub D far near]"

definition setFogState :: "'f render_ops \<Rightarrow> fog_state \<Rightarrow> u32 \<Rightarrow> 'f \<Rightarrow> 'f \<Rightarrow> 'f renderer \<Rightarrow> 'f renderer" where
  "setFogState D s color near far r = (let S = state_set r in
     if state_dirty r \<or> rs_fog S \<noteq> s \<or> rs_fog_color S \<noteq> color \<or> \<not> f_eq D (rs_fog_near_or_density S) near \<or> \<not> f_eq D (rs_fog_far S) far
     then let r = flushed D r;
              r = r\<lparr>state_set := (state_set r)\<lparr>rs_fog := s, rs_fog_color := color, rs_fog_near_or_density := near, rs_fog_far := far\<rparr>\<rparr>;
              r = emit (BindVertexShader s) r;
              r = snd (map_write D (UploadFog (fog_data D color near far)) r)
          in emit (BindPixelShader (rs_vertex_color_blend (state_set r)) s (rs_texture_alpha (state_set r))) r
     else r)"

definition setDepthState :: "'f render_ops \<Rightarrow> depth_state \<Rightarrow> 'f renderer \<Rightarrow> 'f renderer" where
  "setDepthState D s r = (if state_dirty r \<or> rs_depth (state_set r) \<noteq> s
     then let r = flushed D r; r = r\<lparr>state_set := (state_set r)\<lparr>rs_depth := s\<rparr>\<rparr> in emit (SetDepth s) r
     else r)"

definition setBlendState :: "'f render_ops \<Rightarrow> blend_state \<Rightarrow> 'f renderer \<Rightarrow> 'f renderer" where
  "setBlendState D s r = (if state_dirty r \<or> rs_blend (state_set r) \<noteq> s
     then let r = flushed D r; r = r\<lparr>state_set := (state_set r)\<lparr>rs_blend := s\<rparr>\<rparr> in emit (SetBlend s) r
     else r)"

definition setSamplerState :: "'f render_ops \<Rightarrow> sampler_state \<Rightarrow> 'f renderer \<Rightarrow> 'f renderer" where
  "setSamplerState D s r = emit (BindSampler (known_sampler D s)) r"

definition initState :: "'f render_ops \<Rightarrow> 'f renderer \<Rightarrow> 'f renderer" where
  "initState D r = (let r = r\<lparr>state_dirty := True\<rparr>;
     r = (if \<not> cs_is_3D (camera_state r) then setOrtho D (cs_ortho (camera_state r)) r
          else setPerspective D (cs_perspective (camera_state r)) r);
     r = setViewport D (rs_viewport (state_set r)) r;
     r = setScissorRect D (rs_scissor_rect (state_set r)) r;
     r = setVertexColorBlendState D (rs_vertex_color_blend (state_set r)) r;
     r = setSamplerState D (rs_sampler (state_set r)) r;
     r = setFogState D (rs_fog (state_set r)) (rs_fog_color (state_set r)) (rs_fog_near_or_density (state_set r)) (rs_fog_far (state_set r)) r;
     r = setDepthState D (rs_depth (state_set r)) r;
     r = setBlendState D (rs_blend (state_set r)) r;
     r = setTexture D (state_texture r) r;
     r = bindTextureAlphaType D (state_texture r) r
     in r\<lparr>state_dirty := False\<rparr>)"

subsection \<open>Batches\<close>

definition beginBatch :: "'f render_ops \<Rightarrow> 'f renderer \<Rightarrow> bool \<times> 'f renderer" where
  "beginBatch D r = (True, (initState D (emit BindPipeline r))\<lparr>batch_scope := True\<rparr>)"

definition endBatch :: "'f render_ops \<Rightarrow> 'f renderer \<Rightarrow> bool \<times> 'f renderer" where
  "endBatch D r = (let (ok, r) = batchFlush D False (r\<lparr>batch_scope := False\<rparr>) in
     if \<not> ok then (False, r) else (True, r\<lparr>state_texture := None\<rparr>))"

definition clearRenderTarget :: "'f render_ops \<Rightarrow> u32 \<Rightarrow> 'f renderer \<Rightarrow> 'f renderer" where
  "clearRenderTarget D color r = (let r = flushed D r in
     case om_target r of None \<Rightarrow> r | Some v \<Rightarrow> emit (ClearTarget v (color_units D color)) r)"

definition clearDepthBuffer :: "'f render_ops \<Rightarrow> 'f \<Rightarrow> 'f renderer \<Rightarrow> 'f renderer" where
  "clearDepthBuffer D z r = (let r = flushed D r in case om_depth r of None \<Rightarrow> r | Some v \<Rightarrow> emit (ClearDepth v z) r)"

definition setRenderAttachment :: "'f render_ops \<Rightarrow> handle option \<Rightarrow> handle option \<Rightarrow> 'f renderer \<Rightarrow> 'f renderer" where
  "setRenderAttachment D rt ds r = (let r = flushed D r in emit (SetTargets rt ds) (r\<lparr>om_target := rt, om_depth := ds\<rparr>))"

definition onDeviceDestroy :: "'f render_ops \<Rightarrow> 'f renderer \<Rightarrow> 'f renderer" where
  "onDeviceDestroy D r = (let r = snd (batchFlush D True r) in r\<lparr>state_texture := None, vertex_offset := 0, index_offset := 0\<rparr>)"

subsection \<open>Drawing\<close>

definition write_at :: "nat \<Rightarrow> 'a list \<Rightarrow> 'a list \<Rightarrow> 'a list option" where
  "write_at pos xs data = (if pos + length xs \<le> length data then Some (take pos data @ xs @ drop (pos + length xs) data) else None)"

text \<open>Room for \<open>nvert\<close> vertices and \<open>nidx\<close> indices, after a flush when there is none.\<close>

definition reserve :: "'f render_ops \<Rightarrow> nat \<Rightarrow> nat \<Rightarrow> 'f renderer \<Rightarrow> bool \<times> 'f renderer" where
  "reserve D nvert nidx r = (if room draw_capacity (vertex_size r) < nvert \<or> room draw_capacity (index_size r) < nidx
     then batchFlush D False r else (True, r))"

text \<open>The current command counts the vertices and indices that are added.\<close>

definition count_added :: "u16 \<Rightarrow> u16 \<Rightarrow> 'f renderer \<Rightarrow> 'f renderer" where
  "count_added nvert nidx r = (let c = last (commands r) in
     r\<lparr>vertex_size := vertex_size r + unat nvert, index_size := index_size r + unat nidx,
       commands := butlast (commands r) @ [c\<lparr>cmd_vertex_count := cmd_vertex_count c + nvert, cmd_index_count := cmd_index_count c + nidx\<rparr>]\<rparr>)"

text \<open>The vertices and indices of a primitive, the indices from the vertex count of the command on.\<close>

definition add_primitive :: "'f draw_vertex list \<Rightarrow> u16 \<Rightarrow> u16 list \<Rightarrow> u16 \<Rightarrow> 'f renderer \<Rightarrow> 'f renderer option" where
  "add_primitive vs nvert is nidx r = assert_that (commands r \<noteq> [])
     (Option.bind (write_at (vertex_size r) vs (vertex_data r)) (\<lambda>vd.
      map_option (\<lambda>idx. count_added nvert nidx (r\<lparr>vertex_data := vd, index_data := idx\<rparr>))
        (write_at (index_size r) (map ((+) (cmd_vertex_count (last (commands r)))) is) (index_data r))))"

definition drawTriangle :: "'f render_ops \<Rightarrow> 'f draw_vertex \<Rightarrow> 'f draw_vertex \<Rightarrow> 'f draw_vertex \<Rightarrow> 'f renderer \<Rightarrow> (bool \<times> 'f renderer) option" where
  "drawTriangle D v1 v2 v3 r = (let (ok, r) = reserve D 3 3 r in
     if \<not> ok then Some (False, r) else map_option (Pair True) (add_primitive [v1, v2, v3] 3 [0, 1, 2] 3 r))"

definition drawQuad :: "'f render_ops \<Rightarrow> 'f draw_vertex \<Rightarrow> 'f draw_vertex \<Rightarrow> 'f draw_vertex \<Rightarrow> 'f draw_vertex \<Rightarrow> 'f renderer
    \<Rightarrow> (bool \<times> 'f renderer) option" where
  "drawQuad D v1 v2 v3 v4 r = (let (ok, r) = reserve D 4 6 r in
     if \<not> ok then Some (False, r) else map_option (Pair True) (add_primitive [v1, v2, v3, v4] 4 [0, 1, 2, 0, 2, 3] 6 r))"

definition drawRaw :: "'f render_ops \<Rightarrow> 'f draw_vertex list \<Rightarrow> u16 \<Rightarrow> u16 list \<Rightarrow> u16 \<Rightarrow> 'f renderer \<Rightarrow> (bool \<times> 'f renderer) option" where
  "drawRaw D pvert nvert pidx nidx r = assert_that (unat nvert \<le> draw_capacity \<and> unat nidx \<le> draw_capacity)
     (let (ok, r) = reserve D (unat nvert) (unat nidx) r in
     if \<not> ok then Some (False, r)
     else map_option (Pair True) (add_primitive (take (unat nvert) pvert) nvert (take (unat nidx) pidx) nidx r))"

text \<open>
  \<open>drawRequest\<close> gives the caller the places of the vertices and indices in the lists and the number
  of the first vertex, and the caller writes there before it calls the renderer again.
\<close>

definition drawRequest :: "'f render_ops \<Rightarrow> u16 \<Rightarrow> u16 \<Rightarrow> 'f renderer \<Rightarrow> ((nat \<times> nat \<times> u16) option \<times> 'f renderer) option" where
  "drawRequest D nvert nidx r = assert_that (unat nvert \<le> draw_capacity \<and> unat nidx \<le> draw_capacity)
     (let (ok, r) = reserve D (unat nvert) (unat nidx) r in
     if \<not> ok then Some (None, r)
     else assert_that (commands r \<noteq> [])
       (Some (Some (vertex_size r, index_size r, cmd_vertex_count (last (commands r))), count_added nvert nidx r)))"

definition write_requested :: "nat \<Rightarrow> nat \<Rightarrow> 'f draw_vertex list \<Rightarrow> u16 list \<Rightarrow> 'f renderer \<Rightarrow> 'f renderer option" where
  "write_requested vpos ipos vs is r = Option.bind (write_at vpos vs (vertex_data r)) (\<lambda>vd.
     map_option (\<lambda>idx. r\<lparr>vertex_data := vd, index_data := idx\<rparr>) (write_at ipos is (index_data r)))"

definition drawModel :: "'f render_ops \<Rightarrow> handle option \<Rightarrow> 'f renderer \<Rightarrow> (bool \<times> 'f renderer) option" where
  "drawModel D m r = (case m of None \<Rightarrow> None | Some m \<Rightarrow> Some
     (let (ok, r) = endBatch D r in if \<not> ok then (False, r) else beginBatch D (emit (DrawModel m (rs_fog (state_set r))) r)))"

end
