(* ===== verification/RendererDevice.thy ===== *)
theory RendererDevice
  imports Renderer
begin

text \<open>
  What the recorded calls do (the documented behaviour of the device context as far as it is
  used here), and the renderer without batching that the batching one is compared with.
\<close>

subsection \<open>The device\<close>

text \<open>The state of the pipeline a draw call depends on, besides texture and sampler.\<close>

record 'f pipeline =
  p_matrix :: "'f list"
  p_camera :: "'f list"
  p_fog_data :: "'f list"
  p_viewport :: "'f list"
  p_scissor :: "int list"
  p_vertex_shader :: fog_state
  p_pixel_shader :: "vertex_color_blend_state \<times> fog_state \<times> texture_alpha_type"
  p_depth :: depth_state
  p_blend :: blend_state
  p_targets :: "handle option \<times> handle option"

text \<open>What becomes visible, in order.\<close>

datatype 'f event = Triangle "'f pipeline" "handle option" handle "'f draw_vertex" "'f draw_vertex" "'f draw_vertex"
  | Cleared handle "'f list" | ClearedDepth handle 'f | ModelDrawn handle fog_state

text \<open>
  The buffers: what each entry holds, \<open>None\<close> when that is undefined, and the entries that draw calls
  have used since the buffer was last discarded.
\<close>

record 'f gpu =
  pipe :: "'f pipeline"
  g_texture :: "handle option"
  g_sampler :: handle
  g_vertices :: "nat \<Rightarrow> 'f draw_vertex option"
  g_indices :: "nat \<Rightarrow> u16 option"
  used_vertices :: "nat set"
  used_indices :: "nat set"
  shown :: "'f event list"

definition write_buffer :: "bool \<Rightarrow> nat \<Rightarrow> 'a list \<Rightarrow> (nat \<Rightarrow> 'a option) \<Rightarrow> nat \<Rightarrow> 'a option" where
  "write_buffer discard pos xs m = (\<lambda>i. if pos \<le> i \<and> i < pos + length xs then Some (xs ! (i - pos)) else if discard then None else m i)"

fun triangles :: "'a list \<Rightarrow> ('a \<times> 'a \<times> 'a) list" where
  "triangles (a # b # c # xs) = (a, b, c) # triangles xs"
| "triangles xs = []"

text \<open>
  One call.  \<open>K m p\<close> is the pipeline state that drawing the model \<open>m\<close> leaves; the targets and the
  content of the renderer's camera buffer are not the model's to change.  A write outside the
  buffer, a write without discarding over entries that were used, and a draw from undefined entries
  have no result.
\<close>

definition draw_indexed :: "nat \<Rightarrow> nat \<Rightarrow> nat \<Rightarrow> 'f gpu \<Rightarrow> 'f gpu option" where
  "draw_indexed n start base g = Option.bind (those (map (\<lambda>k. g_indices g (start + k)) [0..<n])) (\<lambda>is.
     Option.bind (those (map (\<lambda>i. g_vertices g (base + unat i)) is)) (\<lambda>vs.
       Some (g\<lparr>used_vertices := used_vertices g \<union> (\<lambda>i. base + unat i) ` set is, used_indices := used_indices g \<union> {start..<start + n},
         shown := shown g @ map (\<lambda>(x, y, z). Triangle (pipe g) (g_texture g) (g_sampler g) x y z) (triangles vs)\<rparr>)))"

fun gpu_step :: "(handle \<Rightarrow> 'f pipeline \<Rightarrow> 'f pipeline) \<Rightarrow> 'f gpu_call \<Rightarrow> 'f gpu \<Rightarrow> 'f gpu option" where
  "gpu_step K BindPipeline g = Some g"
| "gpu_step K (WriteVertices discard pos vs) g = assert_that (pos + length vs \<le> draw_capacity
      \<and> (discard \<or> {pos..<pos + length vs} \<inter> used_vertices g = {}))
     (Some (g\<lparr>g_vertices := write_buffer discard pos vs (g_vertices g), used_vertices := if discard then {} else used_vertices g\<rparr>))"
| "gpu_step K (WriteIndices discard pos is) g = assert_that (pos + length is \<le> draw_capacity
      \<and> (discard \<or> {pos..<pos + length is} \<inter> used_indices g = {}))
     (Some (g\<lparr>g_indices := write_buffer discard pos is (g_indices g), used_indices := if discard then {} else used_indices g\<rparr>))"
| "gpu_step K (BindTexture v) g = Some (g\<lparr>g_texture := v\<rparr>)"
| "gpu_step K (BindSampler s) g = Some (g\<lparr>g_sampler := s\<rparr>)"
| "gpu_step K (BindPixelShader c f a) g = Some (g\<lparr>pipe := (pipe g)\<lparr>p_pixel_shader := (c, f, a)\<rparr>\<rparr>)"
| "gpu_step K (BindVertexShader f) g = Some (g\<lparr>pipe := (pipe g)\<lparr>p_vertex_shader := f\<rparr>\<rparr>)"
| "gpu_step K (DrawIndexed n start base) g = draw_indexed n start base g"
| "gpu_step K (UploadMatrix m) g = Some (g\<lparr>pipe := (pipe g)\<lparr>p_matrix := m\<rparr>\<rparr>)"
| "gpu_step K (UploadCamera m) g = Some (g\<lparr>pipe := (pipe g)\<lparr>p_camera := m\<rparr>\<rparr>)"
| "gpu_step K (UploadFog m) g = Some (g\<lparr>pipe := (pipe g)\<lparr>p_fog_data := m\<rparr>\<rparr>)"
| "gpu_step K (SetViewports b) g = Some (g\<lparr>pipe := (pipe g)\<lparr>p_viewport := b\<rparr>\<rparr>)"
| "gpu_step K (SetScissors b) g = Some (g\<lparr>pipe := (pipe g)\<lparr>p_scissor := b\<rparr>\<rparr>)"
| "gpu_step K (SetDepth s) g = Some (g\<lparr>pipe := (pipe g)\<lparr>p_depth := s\<rparr>\<rparr>)"
| "gpu_step K (SetBlend s) g = Some (g\<lparr>pipe := (pipe g)\<lparr>p_blend := s\<rparr>\<rparr>)"
| "gpu_step K (SetTargets rt ds) g = Some (g\<lparr>pipe := (pipe g)\<lparr>p_targets := (rt, ds)\<rparr>\<rparr>)"
| "gpu_step K (ClearTarget v c) g = Some (g\<lparr>shown := shown g @ [Cleared v c]\<rparr>)"
| "gpu_step K (ClearDepth v z) g = Some (g\<lparr>shown := shown g @ [ClearedDepth v z]\<rparr>)"
| "gpu_step K (DrawModel m f) g = Some (g\<lparr>shown := shown g @ [ModelDrawn m f], pipe := (K m (pipe g))\<lparr>p_camera := p_camera (pipe g), p_targets := p_targets (pipe g)\<rparr>\<rparr>)"

fun gpu_run :: "(handle \<Rightarrow> 'f pipeline \<Rightarrow> 'f pipeline) \<Rightarrow> 'f gpu_call list \<Rightarrow> 'f gpu \<Rightarrow> 'f gpu option" where
  "gpu_run K [] g = Some g"
| "gpu_run K (c # cs) g = Option.bind (gpu_step K c g) (gpu_run K cs)"

lemma gpu_run_append: "gpu_run K (xs @ ys) g = Option.bind (gpu_run K xs g) (gpu_run K ys)"
proof (induction xs arbitrary: g)
  case (Cons c cs)
  then show ?case by (cases "gpu_step K c g") simp_all
qed simp

subsection \<open>Drawing at once\<close>

text \<open>The operations of the renderer in a frame.\<close>

datatype 'f render_op =
    OpBegin | OpEnd | OpFlush
  | OpClear u32 | OpClearDepth 'f | OpTargets "handle option" "handle option"
  | OpOrtho "'f box" | OpPerspective "'f perspective" | OpViewport "'f box" | OpScissor "'f rect" | OpViewportAndScissor
  | OpVertexColorBlend vertex_color_blend_state | OpFog fog_state u32 'f 'f | OpDepth depth_state | OpBlend blend_state
  | OpTexture "handle option"
  | OpTriangle "'f draw_vertex" "'f draw_vertex" "'f draw_vertex"
  | OpQuad "'f draw_vertex" "'f draw_vertex" "'f draw_vertex" "'f draw_vertex"
  | OpRaw "'f draw_vertex list" "u16 list"
  | OpRequest nat nat "u16 \<Rightarrow> 'f draw_vertex list \<times> u16 list"
  | OpModel handle

definition run_op :: "'f render_ops \<Rightarrow> 'f render_op \<Rightarrow> 'f renderer \<Rightarrow> 'f renderer option" where
  "run_op D x r = (case x of
     OpBegin \<Rightarrow> Some (snd (beginBatch D r)) | OpEnd \<Rightarrow> Some (snd (endBatch D r)) | OpFlush \<Rightarrow> Some (flushed D r)
   | OpClear c \<Rightarrow> Some (clearRenderTarget D c r) | OpClearDepth z \<Rightarrow> Some (clearDepthBuffer D z r)
   | OpTargets rt ds \<Rightarrow> Some (setRenderAttachment D rt ds r)
   | OpOrtho b \<Rightarrow> Some (setOrtho D b r) | OpPerspective p \<Rightarrow> Some (setPerspective D p r)
   | OpViewport b \<Rightarrow> Some (setViewport D b r) | OpScissor b \<Rightarrow> Some (setScissorRect D b r)
   | OpViewportAndScissor \<Rightarrow> Some (setViewportAndScissorRect D r)
   | OpVertexColorBlend s \<Rightarrow> Some (setVertexColorBlendState D s r) | OpFog s c n f \<Rightarrow> Some (setFogState D s c n f r)
   | OpDepth s \<Rightarrow> Some (setDepthState D s r) | OpBlend s \<Rightarrow> Some (setBlendState D s r)
   | OpTexture t \<Rightarrow> Some (setTexture D t r)
   | OpTriangle a b c \<Rightarrow> map_option snd (drawTriangle D a b c r)
   | OpQuad a b c d \<Rightarrow> map_option snd (drawQuad D a b c d r)
   | OpRaw vs is \<Rightarrow> map_option snd (drawRaw D vs (of_nat (length vs)) is (of_nat (length is)) r)
   | OpRequest nv ni w \<Rightarrow> Option.bind (drawRequest D (of_nat nv) (of_nat ni) r) (\<lambda>(answer, r). case answer of None \<Rightarrow> Some r
       | Some (vpos, ipos, off) \<Rightarrow> write_requested vpos ipos (fst (w off)) (snd (w off)) r)
   | OpModel m \<Rightarrow> map_option snd (drawModel D (Some m) r))"

fun run_ops :: "'f render_ops \<Rightarrow> 'f render_op list \<Rightarrow> 'f renderer \<Rightarrow> 'f renderer option" where
  "run_ops D [] r = Some r"
| "run_ops D (x # xs) r = Option.bind (run_op D x r) (run_ops D xs)"

text \<open>The renderer that draws everything at once: pipeline state, texture, what was shown.\<close>

record 'f immediate =
  im_pipe :: "'f pipeline"
  im_texture :: "handle option"
  im_events :: "'f event list"

definition sampler_of :: "'f render_ops \<Rightarrow> handle option \<Rightarrow> handle" where
  "sampler_of D t = (case Option.bind t (tex_sampler D) of Some s \<Rightarrow> s | None \<Rightarrow> known_sampler D LinearClamp)"

definition pipe_for :: "'f render_ops \<Rightarrow> handle option \<Rightarrow> 'f pipeline \<Rightarrow> 'f pipeline" where
  "pipe_for D t p = p\<lparr>p_pixel_shader := (fst (p_pixel_shader p), fst (snd (p_pixel_shader p)), alpha_type D t)\<rparr>"

definition draw_at_once :: "'f render_ops \<Rightarrow> 'f draw_vertex list \<Rightarrow> nat list \<Rightarrow> 'f immediate \<Rightarrow> 'f immediate" where
  "draw_at_once D vs is s = s\<lparr>im_events := im_events s @ map (\<lambda>(i, j, k). Triangle (pipe_for D (im_texture s) (im_pipe s))
     (view_of D (im_texture s)) (sampler_of D (im_texture s)) (vs ! i) (vs ! j) (vs ! k)) (triangles is)\<rparr>"

definition ortho_data :: "'f box \<Rightarrow> 'f list" where
  "ortho_data b = (case b of ((l, t, n), (r, b, f)) \<Rightarrow> [l, r, b, t, n, f])"

definition show_event :: "'f event option \<Rightarrow> 'f immediate \<Rightarrow> 'f immediate" where
  "show_event e s = (case e of None \<Rightarrow> s | Some e \<Rightarrow> s\<lparr>im_events := im_events s @ [e]\<rparr>)"

text \<open>\<open>OpRequest\<close> gets the indices of its own vertices counted from 0.\<close>

fun immediate_op :: "'f render_ops \<Rightarrow> 'f render_op \<Rightarrow> 'f immediate \<Rightarrow> 'f immediate" where
  "immediate_op D OpBegin s = s"
| "immediate_op D OpEnd s = s\<lparr>im_texture := None\<rparr>"
| "immediate_op D OpFlush s = s"
| "immediate_op D (OpClear c) s = show_event (map_option (\<lambda>v. Cleared v (color_units D c)) (fst (p_targets (im_pipe s)))) s"
| "immediate_op D (OpClearDepth z) s = show_event (map_option (\<lambda>v. ClearedDepth v z) (snd (p_targets (im_pipe s)))) s"
| "immediate_op D (OpTargets rt ds) s = s\<lparr>im_pipe := (im_pipe s)\<lparr>p_targets := (rt, ds)\<rparr>\<rparr>"
| "immediate_op D (OpOrtho b) s = s\<lparr>im_pipe := (im_pipe s)\<lparr>p_matrix := ortho_matrix D (ortho_data b)\<rparr>\<rparr>"
| "immediate_op D (OpPerspective p) s = s\<lparr>im_pipe := (im_pipe s)\<lparr>p_matrix := view_matrix D p, p_camera := camera_data D p\<rparr>\<rparr>"
| "immediate_op D (OpViewport b) s = s\<lparr>im_pipe := (im_pipe s)\<lparr>p_viewport := viewport_data D b\<rparr>\<rparr>"
| "immediate_op D (OpScissor b) s = s\<lparr>im_pipe := (im_pipe s)\<lparr>p_scissor := scissor_data D b\<rparr>\<rparr>"
| "immediate_op D OpViewportAndScissor s = s"
| "immediate_op D (OpVertexColorBlend c) s = s\<lparr>im_pipe := (im_pipe s)\<lparr>p_pixel_shader := (c, snd (p_pixel_shader (im_pipe s)))\<rparr>\<rparr>"
| "immediate_op D (OpFog f c n m) s = s\<lparr>im_pipe := (im_pipe s)\<lparr>p_vertex_shader := f, p_fog_data := fog_data D c n m,
     p_pixel_shader := (fst (p_pixel_shader (im_pipe s)), f, snd (snd (p_pixel_shader (im_pipe s))))\<rparr>\<rparr>"
| "immediate_op D (OpDepth d) s = s\<lparr>im_pipe := (im_pipe s)\<lparr>p_depth := d\<rparr>\<rparr>"
| "immediate_op D (OpBlend b) s = s\<lparr>im_pipe := (im_pipe s)\<lparr>p_blend := b\<rparr>\<rparr>"
| "immediate_op D (OpTexture t) s = s\<lparr>im_texture := t\<rparr>"
| "immediate_op D (OpTriangle a b c) s = draw_at_once D [a, b, c] [0, 1, 2] s"
| "immediate_op D (OpQuad a b c d) s = draw_at_once D [a, b, c, d] [0, 1, 2, 0, 2, 3] s"
| "immediate_op D (OpRaw vs is) s = draw_at_once D vs (map unat is) s"
| "immediate_op D (OpRequest nv ni w) s = draw_at_once D (fst (w 0)) (map unat (snd (w 0))) s"
| "immediate_op D (OpModel m) s = show_event (Some (ModelDrawn m (p_vertex_shader (im_pipe s)))) (s\<lparr>im_texture := None\<rparr>)"

definition immediate_ops :: "'f render_ops \<Rightarrow> 'f render_op list \<Rightarrow> 'f immediate \<Rightarrow> 'f immediate" where
  "immediate_ops D xs s = fold (immediate_op D) xs s"

end
