(* ===== verification/RendererLists.thy ===== *)
theory RendererLists
  imports RendererDevice
begin

text \<open>
  The draw list as a list of batches, and the loop of \<open>batchFlush\<close> over it.
\<close>

subsection \<open>Batches\<close>

text \<open>A batch: texture, vertices, and indices counted from its first vertex.\<close>

type_synonym 'f batch = "handle option \<times> 'f draw_vertex list \<times> nat list"

abbreviation batch_vertices :: "'f batch \<Rightarrow> 'f draw_vertex list" where "batch_vertices b \<equiv> fst (snd b)"

abbreviation batch_indices :: "'f batch \<Rightarrow> nat list" where "batch_indices b \<equiv> snd (snd b)"

definition command_of :: "'f batch \<Rightarrow> draw_command" where
  "command_of b = \<lparr>cmd_texture = fst b, cmd_vertex_count = of_nat (length (batch_vertices b)),
     cmd_index_count = of_nat (length (batch_indices b))\<rparr>"

definition batch_ok :: "'f batch \<Rightarrow> bool" where
  "batch_ok b \<longleftrightarrow> 3 dvd length (batch_indices b) \<and> (\<forall>i \<in> set (batch_indices b). i < length (batch_vertices b))
     \<and> (batch_vertices b = [] \<longleftrightarrow> batch_indices b = [])"

definition all_vertices :: "'f batch list \<Rightarrow> 'f draw_vertex list" where
  "all_vertices bs = concat (map batch_vertices bs)"

definition all_indices :: "'f batch list \<Rightarrow> nat list" where
  "all_indices bs = concat (map batch_indices bs)"

lemma all_simps [simp]:
  "all_vertices [] = []" "all_vertices (b # bs) = batch_vertices b @ all_vertices bs"
  "all_vertices (bs @ bs') = all_vertices bs @ all_vertices bs'"
  "all_indices [] = []" "all_indices (b # bs) = batch_indices b @ all_indices bs"
  "all_indices (bs @ bs') = all_indices bs @ all_indices bs'"
  by (simp_all add: all_vertices_def all_indices_def)

text \<open>The draw list of the renderer holds these batches.\<close>

definition list_shows :: "'f renderer \<Rightarrow> 'f batch list \<Rightarrow> bool" where
  "list_shows r bs \<longleftrightarrow> commands r = map command_of bs \<and> length bs \<le> command_capacity
     \<and> length (vertex_data r) = draw_capacity \<and> length (index_data r) = draw_capacity
     \<and> vertex_size r = length (all_vertices bs) \<and> index_size r = length (all_indices bs)
     \<and> vertex_size r \<le> draw_capacity \<and> index_size r \<le> draw_capacity
     \<and> take (length (all_vertices bs)) (vertex_data r) = all_vertices bs
     \<and> take (length (all_indices bs)) (index_data r) = map of_nat (all_indices bs)
     \<and> (\<forall>b \<in> set bs. batch_ok b)"

text \<open>What drawing a batch shows.\<close>

definition batch_events :: "'f render_ops \<Rightarrow> 'f pipeline \<Rightarrow> 'f batch \<Rightarrow> 'f event list" where
  "batch_events D p b = map (\<lambda>(i, j, k). Triangle (pipe_for D (fst b) p) (view_of D (fst b)) (sampler_of D (fst b))
     (batch_vertices b ! i) (batch_vertices b ! j) (batch_vertices b ! k)) (triangles (batch_indices b))"

definition pending :: "'f render_ops \<Rightarrow> 'f pipeline \<Rightarrow> 'f batch list \<Rightarrow> 'f event list" where
  "pending D p bs = concat (map (batch_events D p) bs)"

lemma pending_simps [simp]: "pending D p [] = []" "pending D p (b # bs) = batch_events D p b @ pending D p bs"
  "pending D p (bs @ bs') = pending D p bs @ pending D p bs'"
  by (simp_all add: pending_def)

lemma batch_events_empty [simp]: "batch_events D p (t, vs, []) = []"
  by (simp add: batch_events_def)

text \<open>No triangle is waiting.\<close>

definition idle :: "'f batch list \<Rightarrow> bool" where
  "idle bs \<longleftrightarrow> (\<forall>b \<in> set bs. batch_vertices b = [] \<and> batch_indices b = [])"

lemma idle_simps [simp]: "idle []" "idle (b # bs) \<longleftrightarrow> batch_vertices b = [] \<and> batch_indices b = [] \<and> idle bs"
  by (auto simp: idle_def)

lemma idle_all: "idle bs \<Longrightarrow> all_vertices bs = [] \<and> all_indices bs = [] \<and> pending D p bs = []"
  by (induction bs) (auto simp: batch_events_def)

subsection \<open>Triangles\<close>

lemma triangles_map: "triangles (map f xs) = map (\<lambda>(a, b, c). (f a, f b, f c)) (triangles xs)"
  by (induction xs rule: triangles.induct) auto

lemma three_dvd_Suc: "3 dvd Suc (Suc (Suc n)) \<longleftrightarrow> 3 dvd n"
  by presburger

lemma triangles_append: "3 dvd length xs \<Longrightarrow> triangles (xs @ ys) = triangles xs @ triangles ys"
proof (induction xs rule: triangles.induct)
  case (1 a b c xs)
  then show ?case by (simp add: three_dvd_Suc)
qed (auto dest: dvd_imp_le)

lemma triangles_set: "(a, b, c) \<in> set (triangles xs) \<Longrightarrow> a \<in> set xs \<and> b \<in> set xs \<and> c \<in> set xs"
  by (induction xs rule: triangles.induct) auto

lemma those_map: "(\<And>x. x \<in> set xs \<Longrightarrow> f x = Some (h x)) \<Longrightarrow> those (map f xs) = Some (map h xs)"
  by (induction xs) auto

text \<open>A draw call over a region that holds a batch.\<close>

lemma draw_region:
  assumes "batch_ok b" "length (batch_vertices b) \<le> 65536"
    and "\<And>k. k < length (batch_vertices b) \<Longrightarrow> g_vertices g (base + k) = Some (batch_vertices b ! k)"
    and "\<And>k. k < length (batch_indices b) \<Longrightarrow> g_indices g (start + k) = Some (of_nat (batch_indices b ! k))"
  shows "\<exists>g'. draw_indexed (length (batch_indices b)) start base g = Some g' \<and> pipe g' = pipe g \<and> g_vertices g' = g_vertices g
    \<and> g_indices g' = g_indices g \<and> used_vertices g' \<subseteq> used_vertices g \<union> {base..<base + length (batch_vertices b)}
    \<and> used_indices g' = used_indices g \<union> {start..<start + length (batch_indices b)}
    \<and> shown g' = shown g @ map (\<lambda>(i, j, k). Triangle (pipe g) (g_texture g) (g_sampler g)
        (batch_vertices b ! i) (batch_vertices b ! j) (batch_vertices b ! k)) (triangles (batch_indices b))"
proof -
  let ?is = "batch_indices b" and ?vs = "batch_vertices b"
  have small: "unat (of_nat i :: u16) = i" if "i \<in> set ?is" for i
    using that assms(1,2) by (force simp: batch_ok_def unat_of_nat take_bit_nat_eq_self)
  have "those (map (\<lambda>k. g_indices g (start + k)) [0..<length ?is]) = Some (map (\<lambda>k. of_nat (?is ! k)) [0..<length ?is])"
    using assms(4) by (intro those_map) simp
  also have "map (\<lambda>k. of_nat (?is ! k)) [0..<length ?is] = (map of_nat ?is :: u16 list)" by (rule nth_equalityI) simp_all
  finally have i: "those (map (\<lambda>k. g_indices g (start + k)) [0..<length ?is]) = Some (map of_nat ?is)" .
  have v: "those (map (\<lambda>i. g_vertices g (base + unat i)) (map of_nat ?is :: u16 list)) = Some (map ((!) ?vs) ?is)"
    unfolding map_map o_def using small assms(1,3) by (intro those_map) (simp add: batch_ok_def)
  have used: "(\<lambda>i. base + unat i) ` set (map of_nat ?is :: u16 list) \<subseteq> {base..<base + length ?vs}"
    using small assms(1) by (auto simp: batch_ok_def)
  let ?ws = "map of_nat ?is :: u16 list"
  let ?g = "g\<lparr>used_vertices := used_vertices g \<union> (\<lambda>i. base + unat i) ` set ?ws, used_indices := used_indices g \<union> {start..<start + length ?is},
      shown := shown g @ map (\<lambda>(x, y, z). Triangle (pipe g) (g_texture g) (g_sampler g) x y z) (triangles (map ((!) ?vs) ?is))\<rparr>"
  have "draw_indexed (length ?is) start base g = Some ?g" unfolding draw_indexed_def i Option.bind.simps v ..
  moreover have "used_vertices ?g \<subseteq> used_vertices g \<union> {base..<base + length ?vs}" using used by simp blast
  moreover have "map (\<lambda>(x, y, z). Triangle (pipe g) (g_texture g) (g_sampler g) x y z) (triangles (map ((!) ?vs) ?is))
      = map (\<lambda>(i, j, k). Triangle (pipe g) (g_texture g) (g_sampler g) (?vs ! i) (?vs ! j) (?vs ! k)) (triangles ?is)"
    by (simp add: triangles_map case_prod_unfold o_def)
  ultimately show ?thesis by (intro exI[of _ ?g]) simp
qed

end
