(* ===== verification/RendererFlush.thy ===== *)
theory RendererFlush
  imports RendererLists
begin

text \<open>
  Flushing: the lists go to the device, the batches are drawn, and one empty command is left.
\<close>

subsection \<open>The loop over the commands\<close>

definition pixel_ok :: "'f renderer \<Rightarrow> 'f gpu \<Rightarrow> bool" where
  "pixel_ok r g \<longleftrightarrow> p_pixel_shader (pipe g) = (rs_vertex_color_blend (state_set r), rs_fog (state_set r), rs_texture_alpha (state_set r))"

lemma pipe_for_pipe_for [simp]: "pipe_for D t (pipe_for D t' p) = pipe_for D t p"
  by (simp add: pipe_for_def)

lemma batch_events_pipe [simp]: "batch_events D (pipe_for D t p) = batch_events D p"
  by (intro ext) (simp add: batch_events_def)

lemma pending_pipe [simp]: "pending D (pipe_for D t p) bs = pending D p bs"
  by (simp add: pending_def)

lemma pipe_for_cong: "pipe_for D None p = pipe_for D None q \<Longrightarrow> pipe_for D t p = pipe_for D t q"
  by (metis pipe_for_pipe_for)

lemma pending_cong: "pipe_for D None p = pipe_for D None q \<Longrightarrow> pending D p bs = pending D q bs"
  by (metis pending_pipe)

definition run_to :: "(handle \<Rightarrow> 'f pipeline \<Rightarrow> 'f pipeline) \<Rightarrow> 'f gpu \<Rightarrow> 'f renderer \<Rightarrow> 'f gpu \<Rightarrow> bool" where
  "run_to K g0 r g \<longleftrightarrow> gpu_run K (calls r) g0 = Some g"

lemma run_to_emit: "run_to K g0 r g \<Longrightarrow> gpu_step K c g = Some g' \<Longrightarrow> run_to K g0 (emit c r) g'"
  by (simp add: run_to_def emit_def gpu_run_append)

text \<open>Everything but the calls, the number of \<open>Map\<close>, the offsets and the bound alpha type.\<close>

definition like :: "'f renderer \<Rightarrow> 'f renderer \<Rightarrow> bool" where
  "like r r' \<longleftrightarrow> (\<exists>cs m v i a. r' = r\<lparr>calls := cs, maps := m, vertex_offset := v, index_offset := i, state_set := (state_set r)\<lparr>rs_texture_alpha := a\<rparr>\<rparr>)"

lemma likeI: "r' = r\<lparr>calls := cs, maps := m, vertex_offset := v, index_offset := i, state_set := (state_set r)\<lparr>rs_texture_alpha := a\<rparr>\<rparr> \<Longrightarrow> like r r'"
  unfolding like_def by blast

lemma like_refl [simp]: "like r r"
  by (rule likeI[where m = "maps r" and cs = "calls r" and v = "vertex_offset r" and i = "index_offset r" and a = "rs_texture_alpha (state_set r)"]) simp

lemma like_trans: "like r r1 \<Longrightarrow> like r1 r2 \<Longrightarrow> like r r2"
  unfolding like_def by (elim exE) (simp, blast)

lemma likeD:
  assumes "like r r'"
  shows "commands r' = commands r" "vertex_data r' = vertex_data r" "index_data r' = index_data r" "vertex_size r' = vertex_size r"
    "index_size r' = index_size r" "state_texture r' = state_texture r" "camera_state r' = camera_state r" "state_dirty r' = state_dirty r"
    "batch_scope r' = batch_scope r" "om_target r' = om_target r" "om_depth r' = om_depth r"
    "rs_vertex_color_blend (state_set r') = rs_vertex_color_blend (state_set r)" "rs_fog (state_set r') = rs_fog (state_set r)"
    "rs_sampler (state_set r') = rs_sampler (state_set r)"
  using assms by (auto simp: like_def)

lemma alpha_bound:
  assumes "run_to K g0 r g" "pixel_ok r g"
  shows "\<exists>g'. run_to K g0 (bindTextureAlphaType D t r) g' \<and> like r (bindTextureAlphaType D t r) \<and> pixel_ok (bindTextureAlphaType D t r) g'
    \<and> g' = g\<lparr>pipe := pipe_for D t (pipe g)\<rparr> \<and> vertex_offset (bindTextureAlphaType D t r) = vertex_offset r
    \<and> index_offset (bindTextureAlphaType D t r) = index_offset r"
proof (cases "state_dirty r \<or> rs_texture_alpha (state_set r) \<noteq> alpha_type D t")
  case True
  let ?r = "r\<lparr>state_set := (state_set r)\<lparr>rs_texture_alpha := alpha_type D t\<rparr>\<rparr>"
  let ?c = "BindPixelShader (rs_vertex_color_blend (state_set ?r)) (rs_fog (state_set ?r)) (alpha_type D t)"
  have r: "bindTextureAlphaType D t r = emit ?c ?r" using True by (simp add: bindTextureAlphaType_def Let_def)
  have g: "gpu_step K ?c g = Some (g\<lparr>pipe := pipe_for D t (pipe g)\<rparr>)" using assms(2) by (simp add: pixel_ok_def pipe_for_def)
  have "run_to K g0 ?r g" using assms(1) by (simp add: run_to_def)
  from run_to_emit[OF this g] have "run_to K g0 (emit ?c ?r) (g\<lparr>pipe := pipe_for D t (pipe g)\<rparr>)" .
  moreover have "like r (emit ?c ?r)"
    by (rule likeI[where m = "maps r" and cs = "calls r @ [?c]" and v = "vertex_offset r" and i = "index_offset r" and a = "alpha_type D t"]) (simp add: emit_def)
  moreover have "pixel_ok (emit ?c ?r) (g\<lparr>pipe := pipe_for D t (pipe g)\<rparr>)"
    using assms(2) by (simp add: pixel_ok_def emit_def pipe_for_def)
  ultimately show ?thesis unfolding r by (simp add: emit_def)
next
  case False
  then have "bindTextureAlphaType D t r = r" by (simp add: bindTextureAlphaType_def)
  moreover have "g = g\<lparr>pipe := pipe_for D t (pipe g)\<rparr>" using False assms(2) by (simp add: pixel_ok_def pipe_for_def)
  ultimately show ?thesis using assms by (intro exI[of _ g]) simp
qed

text \<open>Where the batches are in the buffers.\<close>

definition holds_at :: "(nat \<Rightarrow> 'a option) \<Rightarrow> nat \<Rightarrow> 'a list \<Rightarrow> bool" where
  "holds_at m pos xs \<longleftrightarrow> (\<forall>k < length xs. m (pos + k) = Some (xs ! k))"

lemma holds_at_append: "holds_at m pos (xs @ ys) \<longleftrightarrow> holds_at m pos xs \<and> holds_at m (pos + length xs) ys"
proof
  assume h: "holds_at m pos (xs @ ys)"
  have "m (pos + k) = Some (xs ! k)" if "k < length xs" for k
    using that spec[OF h[unfolded holds_at_def], of k] by (simp add: nth_append)
  moreover have "m (pos + length xs + k) = Some (ys ! k)" if "k < length ys" for k
    using that spec[OF h[unfolded holds_at_def], of "length xs + k"] by (simp add: nth_append add.assoc)
  ultimately show "holds_at m pos xs \<and> holds_at m (pos + length xs) ys" by (simp add: holds_at_def)
next
  assume h: "holds_at m pos xs \<and> holds_at m (pos + length xs) ys"
  show "holds_at m pos (xs @ ys)"
    unfolding holds_at_def
  proof (intro allI impI)
    fix k assume k: "k < length (xs @ ys)"
    show "m (pos + k) = Some ((xs @ ys) ! k)"
    proof (cases "k < length xs")
      case False
      then show ?thesis using h k spec[of "\<lambda>j. j < length ys \<longrightarrow> m (pos + length xs + j) = Some (ys ! j)" "k - length xs"]
        by (simp add: holds_at_def nth_append)
    qed (use h in \<open>simp add: holds_at_def nth_append\<close>)
  qed
qed

lemma draw_one_batch:
  assumes "run_to K g0 r g" "pixel_ok r g" "batch_ok b" "length (batch_vertices b) \<le> draw_capacity" "length (batch_indices b) \<le> draw_capacity"
    and "rs_sampler (state_set r) = LinearClamp"
    and "holds_at (g_vertices g) (vertex_offset r) (batch_vertices b)"
    and "holds_at (g_indices g) (index_offset r) (map of_nat (batch_indices b))"
    and "used_vertices g \<subseteq> {..<vertex_offset r}" "used_indices g \<subseteq> {..<index_offset r}"
  shows "\<exists>g'. run_to K g0 (draw_one D (command_of b) r) g' \<and> like r (draw_one D (command_of b) r) \<and> pixel_ok (draw_one D (command_of b) r) g'
    \<and> vertex_offset (draw_one D (command_of b) r) = vertex_offset r + length (batch_vertices b)
    \<and> index_offset (draw_one D (command_of b) r) = index_offset r + length (batch_indices b)
    \<and> g_vertices g' = g_vertices g \<and> g_indices g' = g_indices g \<and> pipe_for D None (pipe g') = pipe_for D None (pipe g)
    \<and> used_vertices g' \<subseteq> {..<vertex_offset r + length (batch_vertices b)}
    \<and> used_indices g' \<subseteq> {..<index_offset r + length (batch_indices b)}
    \<and> shown g' = shown g @ batch_events D (pipe g) b"
proof -
  have n: "unat (of_nat (length (batch_vertices b)) :: u16) = length (batch_vertices b)"
      "unat (of_nat (length (batch_indices b)) :: u16) = length (batch_indices b)"
    using assms(4,5) by (simp_all add: draw_capacity_def unat_of_nat take_bit_nat_eq_self)
  then have pos: "0 < (of_nat (length (batch_vertices b)) :: u16) \<longleftrightarrow> batch_vertices b \<noteq> []"
      "0 < (of_nat (length (batch_indices b)) :: u16) \<longleftrightarrow> batch_indices b \<noteq> []"
    by (simp_all add: word_less_nat_alt)
  have drawn: "cmd_vertex_count (command_of b) > 0 \<and> cmd_index_count (command_of b) > 0 \<longleftrightarrow> batch_vertices b \<noteq> []"
    using pos assms(3) by (auto simp: command_of_def batch_ok_def)
  show ?thesis
  proof (cases "batch_vertices b = []")
    case True
    then have "batch_indices b = []" using assms(3) by (simp add: batch_ok_def)
    moreover from this True have "draw_one D (command_of b) r = r" by (simp add: draw_one_def command_of_def)
    ultimately show ?thesis using True assms by (intro exI[of _ g]) (simp add: batch_events_def)
  next
    case False
    let ?t = "fst b"
    let ?s = "(case case ?t of None \<Rightarrow> None | Some x \<Rightarrow> tex_sampler D x of Some s \<Rightarrow> s | None \<Rightarrow> known_sampler D (rs_sampler (state_set r)))"
    let ?r2 = "bindTextureSamplerState D ?t (emit (BindTexture (view_of D ?t)) r)"
    let ?g2 = "g\<lparr>g_texture := view_of D ?t, g_sampler := ?s\<rparr>"
    have r2: "?r2 = emit (BindSampler ?s) (emit (BindTexture (view_of D ?t)) r)"
      by (simp add: bindTextureSamplerState_def emit_def Let_def split: option.split)
    have "run_to K g0 ?r2 ?g2"
      unfolding r2 by (rule run_to_emit[OF run_to_emit[OF assms(1)]]) simp_all
    moreover have "pixel_ok ?r2 ?g2" using assms(2) unfolding r2 by (simp add: pixel_ok_def emit_def)
    ultimately obtain g3 where g3: "run_to K g0 (bindTextureAlphaType D ?t ?r2) g3" "like ?r2 (bindTextureAlphaType D ?t ?r2)"
        "pixel_ok (bindTextureAlphaType D ?t ?r2) g3" "g3 = ?g2\<lparr>pipe := pipe_for D ?t (pipe ?g2)\<rparr>"
        "vertex_offset (bindTextureAlphaType D ?t ?r2) = vertex_offset ?r2" "index_offset (bindTextureAlphaType D ?t ?r2) = index_offset ?r2"
      using alpha_bound[of K g0 ?r2 ?g2 D ?t] by blast
    let ?r3 = "bindTextureAlphaType D ?t ?r2"
    have off: "vertex_offset ?r3 = vertex_offset r" "index_offset ?r3 = index_offset r" using g3(5,6) unfolding r2 by (simp_all add: emit_def)
    have "like r ?r2"
      unfolding r2
      by (rule likeI[where m = "maps r" and cs = "calls r @ [BindTexture (view_of D ?t), BindSampler ?s]" and v = "vertex_offset r" and i = "index_offset r" and a = "rs_texture_alpha (state_set r)"])
        (simp add: emit_def)
    then have like3: "like r ?r3" by (rule like_trans[OF _ g3(2)])
    have "g_vertices g3 (vertex_offset r + k) = Some (batch_vertices b ! k)" if "k < length (batch_vertices b)" for k
      using that assms(7) g3(4) by (simp add: holds_at_def)
    moreover have "g_indices g3 (index_offset r + k) = Some (of_nat (batch_indices b ! k))" if "k < length (batch_indices b)" for k
      using that assms(8) g3(4) by (simp add: holds_at_def)
    moreover have "length (batch_vertices b) \<le> 65536" using assms(4) by (simp add: draw_capacity_def)
    ultimately obtain g4 where g4: "draw_indexed (length (batch_indices b)) (index_offset r) (vertex_offset r) g3 = Some g4" "pipe g4 = pipe g3"
        "g_vertices g4 = g_vertices g3" "g_indices g4 = g_indices g3"
        "used_vertices g4 \<subseteq> used_vertices g3 \<union> {vertex_offset r..<vertex_offset r + length (batch_vertices b)}"
        "used_indices g4 = used_indices g3 \<union> {index_offset r..<index_offset r + length (batch_indices b)}"
        "shown g4 = shown g3 @ map (\<lambda>(i, j, k). Triangle (pipe g3) (g_texture g3) (g_sampler g3)
          (batch_vertices b ! i) (batch_vertices b ! j) (batch_vertices b ! k)) (triangles (batch_indices b))"
      using draw_region[OF assms(3), of g3 "vertex_offset r" "index_offset r"] by blast
    let ?d = "DrawIndexed (length (batch_indices b)) (index_offset r) (vertex_offset r)"
    have one: "draw_one D (command_of b) r = (emit ?d ?r3)\<lparr>vertex_offset := vertex_offset r + length (batch_vertices b),
        index_offset := index_offset r + length (batch_indices b)\<rparr>"
      using drawn False off n by (simp add: draw_one_def Let_def command_of_def emit_def)
    have "run_to K g0 (emit ?d ?r3) g4" by (rule run_to_emit[OF g3(1)]) (simp add: g4(1))
    then have "run_to K g0 (draw_one D (command_of b) r) g4" by (simp add: one run_to_def)
    moreover have "like ?r3 (draw_one D (command_of b) r)"
      unfolding one by (rule likeI[where m = "maps ?r3" and cs = "calls ?r3 @ [?d]" and a = "rs_texture_alpha (state_set ?r3)"]) (simp add: emit_def)
    then have "like r (draw_one D (command_of b) r)" by (rule like_trans[OF like3])
    moreover have "pixel_ok (draw_one D (command_of b) r) g4" using g3(3) g4(2) by (simp add: one pixel_ok_def emit_def)
    moreover have "?s = sampler_of D ?t" using assms(6) by (simp add: sampler_of_def split: option.split)
    then have "shown g4 = shown g @ batch_events D (pipe g) b" using g4(7) g3(4) by (simp add: batch_events_def)
    moreover have "used_vertices g4 \<subseteq> {..<vertex_offset r + length (batch_vertices b)}"
        "used_indices g4 \<subseteq> {..<index_offset r + length (batch_indices b)}"
      using g4(5,6) g3(4) assms(9,10) by force+
    ultimately show ?thesis using g4(2-4) g3(4) by (intro exI[of _ g4]) (simp add: one emit_def)
  qed
qed

lemma draw_loop:
  assumes "run_to K g0 r g" "pixel_ok r g" "\<forall>b \<in> set bs. batch_ok b"
    "length (all_vertices bs) \<le> draw_capacity" "length (all_indices bs) \<le> draw_capacity"
    and "rs_sampler (state_set r) = LinearClamp"
    and "holds_at (g_vertices g) (vertex_offset r) (all_vertices bs)"
    and "holds_at (g_indices g) (index_offset r) (map of_nat (all_indices bs))"
    and "used_vertices g \<subseteq> {..<vertex_offset r}" "used_indices g \<subseteq> {..<index_offset r}"
  shows "\<exists>r' g'. fold (draw_one D) (map command_of bs) r = r' \<and> run_to K g0 r' g' \<and> like r r' \<and> pixel_ok r' g'
    \<and> vertex_offset r' = vertex_offset r + length (all_vertices bs) \<and> index_offset r' = index_offset r + length (all_indices bs)
    \<and> pipe_for D None (pipe g') = pipe_for D None (pipe g)
    \<and> used_vertices g' \<subseteq> {..<vertex_offset r'} \<and> used_indices g' \<subseteq> {..<index_offset r'}
    \<and> shown g' = shown g @ pending D (pipe g) bs"
  using assms
proof (induction bs arbitrary: r g)
  case (Cons b bs)
  have h: "holds_at (g_vertices g) (vertex_offset r) (batch_vertices b)"
      "holds_at (g_vertices g) (vertex_offset r + length (batch_vertices b)) (all_vertices bs)"
      "holds_at (g_indices g) (index_offset r) (map of_nat (batch_indices b))"
      "holds_at (g_indices g) (index_offset r + length (batch_indices b)) (map of_nat (all_indices bs))"
    using Cons.prems(7,8) by (simp_all add: holds_at_append)
  let ?r = "draw_one D (command_of b) r"
  obtain g1 where g1: "run_to K g0 ?r g1" "like r ?r" "pixel_ok ?r g1" "vertex_offset ?r = vertex_offset r + length (batch_vertices b)"
      "index_offset ?r = index_offset r + length (batch_indices b)" "g_vertices g1 = g_vertices g" "g_indices g1 = g_indices g"
      "pipe_for D None (pipe g1) = pipe_for D None (pipe g)" "used_vertices g1 \<subseteq> {..<vertex_offset r + length (batch_vertices b)}"
      "used_indices g1 \<subseteq> {..<index_offset r + length (batch_indices b)}" "shown g1 = shown g @ batch_events D (pipe g) b"
    using draw_one_batch[OF Cons.prems(1,2) _ _ _ Cons.prems(6) h(1,3) Cons.prems(9,10), where D = D] Cons.prems(3-5) by auto
  obtain r' g' where r': "fold (draw_one D) (map command_of bs) ?r = r'" "run_to K g0 r' g'" "like ?r r'" "pixel_ok r' g'"
      "vertex_offset r' = vertex_offset ?r + length (all_vertices bs)" "index_offset r' = index_offset ?r + length (all_indices bs)"
      "pipe_for D None (pipe g') = pipe_for D None (pipe g1)" "used_vertices g' \<subseteq> {..<vertex_offset r'}" "used_indices g' \<subseteq> {..<index_offset r'}"
      "shown g' = shown g1 @ pending D (pipe g1) bs"
    using Cons.IH[OF g1(1,3)] Cons.prems(3-6) h(2,4) g1(4-7,9,10) likeD(14)[OF g1(2)] by auto
  have "fold (draw_one D) (map command_of (b # bs)) r = r'" using r'(1) by simp
  moreover have "shown g' = shown g @ pending D (pipe g) (b # bs)" using r'(10) g1(11) pending_cong[OF g1(8), of bs] by simp
  ultimately show ?case
    using r'(2-9) g1(4,5,8) like_trans[OF g1(2) r'(3)] by (intro exI[of _ r'] exI[of _ g']) simp
next
  case Nil
  then show ?case by (intro exI[of _ r] exI[of _ g]) simp
qed

lemma idle_loop: "idle bs \<Longrightarrow> fold (draw_one D) (map command_of bs) r = r"
  by (induction bs arbitrary: r) (simp_all add: draw_one_def command_of_def)

subsection \<open>Uploading\<close>

lemma room_eq: "used \<le> c \<Longrightarrow> c \<le> draw_capacity \<Longrightarrow> room c used = c - used"
proof -
  assume "used \<le> c" "c \<le> draw_capacity"
  then have "of_nat c - of_nat used = (of_nat (c - used) :: u64)" by (simp add: of_nat_diff)
  then show ?thesis using \<open>c \<le> draw_capacity\<close> by (simp add: room_def draw_capacity_def unat_of_nat take_bit_nat_eq_self)
qed

lemma all_empty_iff: "\<forall>b \<in> set bs. batch_ok b \<Longrightarrow> all_vertices bs = [] \<longleftrightarrow> all_indices bs = []"
  by (induction bs) (auto simp: batch_ok_def)

lemma write_buffer_holds: "holds_at (write_buffer discard pos xs m) pos xs"
  by (simp add: holds_at_def write_buffer_def)

lemma list_showsD:
  assumes "list_shows r bs"
  shows "commands r = map command_of bs" "vertex_size r = length (all_vertices bs)" "index_size r = length (all_indices bs)"
    "length (all_vertices bs) \<le> draw_capacity" "length (all_indices bs) \<le> draw_capacity"
    "take (vertex_size r) (vertex_data r) = all_vertices bs" "take (index_size r) (index_data r) = map of_nat (all_indices bs)"
    "\<forall>b \<in> set bs. batch_ok b"
  using assms by (auto simp: list_shows_def)

lemma list_shows_like: "like r r' \<Longrightarrow> list_shows r' bs = list_shows r bs"
  by (simp add: list_shows_def likeD)

lemma list_uploaded:
  assumes "run_to K g0 r g" "list_shows r bs" "\<forall>k. map_ok D k" "all_vertices bs \<noteq> []"
    and "discard \<or> used_vertices g \<subseteq> {..<vertex_offset r} \<and> used_indices g \<subseteq> {..<index_offset r}"
    and "vertex_offset r + length (all_vertices bs) \<le> draw_capacity" "index_offset r + length (all_indices bs) \<le> draw_capacity"
  shows "\<exists>r' g'. uploadVertexIndexBuffer D discard r = (True, r') \<and> run_to K g0 r' g' \<and> like r r'
    \<and> vertex_offset r' = vertex_offset r \<and> index_offset r' = index_offset r \<and> state_set r' = state_set r
    \<and> pipe g' = pipe g \<and> shown g' = shown g
    \<and> used_vertices g' \<subseteq> {..<vertex_offset r} \<and> used_indices g' \<subseteq> {..<index_offset r}
    \<and> holds_at (g_vertices g') (vertex_offset r) (all_vertices bs)
    \<and> holds_at (g_indices g') (index_offset r) (map of_nat (all_indices bs))"
proof -
  note l = list_showsD[OF assms(2)]
  have size: "0 < vertex_size r" "0 < index_size r" using assms(4) l(2,3) all_empty_iff[OF l(8)] by simp_all
  let ?cv = "WriteVertices discard (vertex_offset r) (all_vertices bs)"
  let ?ci = "WriteIndices discard (index_offset r) (map of_nat (all_indices bs))"
  let ?r = "(emit ?ci ((emit ?cv (r\<lparr>maps := maps r + 1\<rparr>))\<lparr>maps := maps r + 2\<rparr>))"
  let ?g1 = "g\<lparr>g_vertices := write_buffer discard (vertex_offset r) (all_vertices bs) (g_vertices g), used_vertices := if discard then {} else used_vertices g\<rparr>"
  let ?g2 = "?g1\<lparr>g_indices := write_buffer discard (index_offset r) (map of_nat (all_indices bs)) (g_indices g), used_indices := if discard then {} else used_indices g\<rparr>"
  have up: "uploadVertexIndexBuffer D discard r = (True, ?r)"
    using size l(6,7) assms(3) by (simp add: uploadVertexIndexBuffer_def map_write_def emit_def Let_def)
  have apart: "discard \<or> {vertex_offset r..<vertex_offset r + length (all_vertices bs)} \<inter> used_vertices g = {}"
      "discard \<or> {index_offset r..<index_offset r + length (all_indices bs)} \<inter> used_indices g = {}"
    using assms(5) by force+
  have "run_to K g0 (r\<lparr>maps := maps r + 1\<rparr>) g" using assms(1) by (simp add: run_to_def)
  then have "run_to K g0 (emit ?cv (r\<lparr>maps := maps r + 1\<rparr>)) ?g1"
    by (rule run_to_emit) (use assms(6) apart(1) in \<open>simp add: assert_that_def\<close>)
  then have "run_to K g0 ((emit ?cv (r\<lparr>maps := maps r + 1\<rparr>))\<lparr>maps := maps r + 2\<rparr>) ?g1" by (simp add: run_to_def)
  then have "run_to K g0 ?r ?g2"
    by (rule run_to_emit) (use assms(7) apart(2) in \<open>simp add: assert_that_def\<close>)
  moreover have "like r ?r"
    by (rule likeI[where m = "maps r + 2" and cs = "calls r @ [?cv, ?ci]" and v = "vertex_offset r" and i = "index_offset r"
          and a = "rs_texture_alpha (state_set r)"]) (simp add: emit_def)
  ultimately show ?thesis
    using up assms(5) by (intro exI[of _ ?r] exI[of _ ?g2]) (auto simp: emit_def write_buffer_holds)
qed

lemma upload_nothing:
  "list_shows r bs \<Longrightarrow> all_vertices bs = [] \<Longrightarrow> vertex_offset r \<le> draw_capacity \<Longrightarrow> index_offset r \<le> draw_capacity
    \<Longrightarrow> uploadVertexIndexBufferFromDrawList D r = (True, r)"
  using all_empty_iff[of bs] list_showsD[of r bs]
  by (simp add: uploadVertexIndexBufferFromDrawList_def uploadVertexIndexBuffer_def room_eq)

lemma upload_list_ok:
  assumes "run_to K g0 r g" "list_shows r bs" "\<forall>k. map_ok D k" "all_vertices bs \<noteq> []"
    and "used_vertices g \<subseteq> {..<vertex_offset r}" "used_indices g \<subseteq> {..<index_offset r}"
    and "vertex_offset r \<le> draw_capacity" "index_offset r \<le> draw_capacity"
  shows "\<exists>r' g'. uploadVertexIndexBufferFromDrawList D r = (True, r') \<and> run_to K g0 r' g' \<and> like r r'
    \<and> vertex_offset r' + length (all_vertices bs) \<le> draw_capacity \<and> index_offset r' + length (all_indices bs) \<le> draw_capacity
    \<and> state_set r' = state_set r \<and> pipe g' = pipe g \<and> shown g' = shown g
    \<and> used_vertices g' \<subseteq> {..<vertex_offset r'} \<and> used_indices g' \<subseteq> {..<index_offset r'}
    \<and> holds_at (g_vertices g') (vertex_offset r') (all_vertices bs)
    \<and> holds_at (g_indices g') (index_offset r') (map of_nat (all_indices bs))"
proof -
  note l = list_showsD[OF assms(2)]
  show ?thesis
  proof (cases "room draw_capacity (vertex_offset r) < vertex_size r \<or> room draw_capacity (index_offset r) < index_size r")
    case True
    let ?r = "r\<lparr>vertex_offset := 0, index_offset := 0\<rparr>"
    have like: "like r ?r"
      by (rule likeI[where m = "maps r" and cs = "calls r" and a = "rs_texture_alpha (state_set r)"]) simp
    have r: "run_to K g0 ?r g" "list_shows ?r bs" using assms(1,2) list_shows_like[OF like] by (simp_all add: run_to_def)
    obtain r' g' where "uploadVertexIndexBuffer D True ?r = (True, r')" "run_to K g0 r' g'" "like ?r r'"
        "vertex_offset r' = vertex_offset ?r" "index_offset r' = index_offset ?r" "state_set r' = state_set ?r" "pipe g' = pipe g" "shown g' = shown g"
        "used_vertices g' \<subseteq> {..<vertex_offset ?r}" "used_indices g' \<subseteq> {..<index_offset ?r}"
        "holds_at (g_vertices g') (vertex_offset ?r) (all_vertices bs)" "holds_at (g_indices g') (index_offset ?r) (map of_nat (all_indices bs))"
      using list_uploaded[OF r assms(3,4), of True] l(4,5) by auto
    then show ?thesis using True like_trans[OF like] l(4,5)
      by (intro exI[of _ r'] exI[of _ g']) (simp add: uploadVertexIndexBufferFromDrawList_def)
  next
    case False
    then have fits: "vertex_offset r + length (all_vertices bs) \<le> draw_capacity" "index_offset r + length (all_indices bs) \<le> draw_capacity"
      using l(2,3) assms(7,8) by (auto simp: room_eq)
    obtain r' g' where "uploadVertexIndexBuffer D False r = (True, r')" "run_to K g0 r' g'" "like r r'"
        "vertex_offset r' = vertex_offset r" "index_offset r' = index_offset r" "state_set r' = state_set r" "pipe g' = pipe g" "shown g' = shown g"
        "used_vertices g' \<subseteq> {..<vertex_offset r}" "used_indices g' \<subseteq> {..<index_offset r}"
        "holds_at (g_vertices g') (vertex_offset r) (all_vertices bs)" "holds_at (g_indices g') (index_offset r) (map of_nat (all_indices bs))"
      using list_uploaded[OF assms(1-4) _ fits, of False] assms(5,6) by auto
    then show ?thesis using False fits
      by (intro exI[of _ r'] exI[of _ g']) (simp add: uploadVertexIndexBufferFromDrawList_def)
  qed
qed

end
