(* ===== verification/RendererStates.thy ===== *)
theory RendererStates
  imports RendererFlush
begin

text \<open>
  How the batching renderer and the immediate one correspond, and that every change of a state
  keeps the correspondence.
\<close>

subsection \<open>Agreement\<close>

text \<open>
  The device is assumed to grant every \<open>Map\<close>, numbers that compare equal to be the same, and
  different textures to have different views.
\<close>

definition device_ok :: "'f render_ops \<Rightarrow> bool" where
  "device_ok D \<longleftrightarrow> (\<forall>k. map_ok D k) \<and> (\<forall>x y. f_eq D x y \<longrightarrow> x = y) \<and> (\<forall>x y. tex_view D x = tex_view D y \<longrightarrow> x = y)"

lemma device_okD:
  assumes "device_ok D"
  shows "map_ok D k" "f_eq D x y \<Longrightarrow> x = y" "tex_view D t = tex_view D u \<Longrightarrow> t = u"
  using assms by (auto simp: device_ok_def)

lemma equal_same:
  assumes "device_ok D"
  shows "vec3_eq D a b \<Longrightarrow> a = b" "box_eq D c d \<Longrightarrow> c = d" "rect_eq D e f \<Longrightarrow> e = f"
    "ortho_equal D cs c \<Longrightarrow> \<not> cs_is_3D cs \<and> cs_ortho cs = c" "perspective_equal D cs p \<Longrightarrow> cs_is_3D cs \<and> cs_perspective cs = p"
proof -
  note eq = device_okD(2)[OF assms]
  show v: "a = b" if "vec3_eq D a b" for a b
    using that eq by (auto simp: vec3_eq_def prod_eq_iff)
  show b: "c = d" if "box_eq D c d" for c d using that v by (auto simp: box_eq_def prod_eq_iff)
  show "e = f" if "rect_eq D e f" for e f using that eq by (auto simp: rect_eq_def prod_eq_iff)
  show "\<not> cs_is_3D cs \<and> cs_ortho cs = c" if "ortho_equal D cs c" using that b by (simp add: ortho_equal_def)
  show "cs_is_3D cs \<and> cs_perspective cs = p" if "perspective_equal D cs p"
    using that v eq by (cases "cs_perspective cs"; cases p) (auto simp: perspective_equal_def Let_def)
qed

lemma same_texture: "device_ok D \<Longrightarrow> is_same D t u \<longleftrightarrow> t = u"
  by (auto simp: is_same_def device_ok_def split: option.split)

text \<open>The parts of the pipeline state, and that they are what the renderer recorded.\<close>

datatype part = PartCamera | PartViewport | PartScissor | PartPixel | PartAlpha | PartFog | PartDepth | PartBlend

fun agrees :: "'f render_ops \<Rightarrow> 'f camera_state_set \<Rightarrow> 'f renderer_state_set \<Rightarrow> 'f pipeline \<Rightarrow> part \<Rightarrow> bool" where
  "agrees D c S p PartCamera = (if cs_is_3D c
     then p_matrix p = view_matrix D (cs_perspective c) \<and> p_camera p = camera_data D (cs_perspective c)
     else p_matrix p = ortho_matrix D (ortho_data (cs_ortho c)))"
| "agrees D c S p PartViewport = (p_viewport p = viewport_data D (rs_viewport S))"
| "agrees D c S p PartScissor = (p_scissor p = scissor_data D (rs_scissor_rect S))"
| "agrees D c S p PartPixel = (fst (p_pixel_shader p) = rs_vertex_color_blend S \<and> fst (snd (p_pixel_shader p)) = rs_fog S)"
| "agrees D c S p PartAlpha = (snd (snd (p_pixel_shader p)) = rs_texture_alpha S)"
| "agrees D c S p PartFog = (p_vertex_shader p = rs_fog S
     \<and> p_fog_data p = fog_data D (rs_fog_color S) (rs_fog_near_or_density S) (rs_fog_far S))"
| "agrees D c S p PartDepth = (p_depth p = rs_depth S)"
| "agrees D c S p PartBlend = (p_blend p = rs_blend S)"

text \<open>
  The correspondence.  The parts \<open>C\<close> of the pipeline state are set in the device; unless these are
  all, no triangle waits.  What was shown and what waits is what the immediate renderer showed.
\<close>

definition rel :: "'f render_ops \<Rightarrow> (handle \<Rightarrow> 'f pipeline \<Rightarrow> 'f pipeline) \<Rightarrow> 'f gpu \<Rightarrow> part set \<Rightarrow> 'f renderer \<Rightarrow> 'f gpu
    \<Rightarrow> 'f immediate \<Rightarrow> 'f batch list \<Rightarrow> bool" where
  "rel D K g0 C r g s bs \<longleftrightarrow> run_to K g0 r g \<and> list_shows r bs \<and> vertex_offset r \<le> draw_capacity \<and> index_offset r \<le> draw_capacity
     \<and> used_vertices g \<subseteq> {..<vertex_offset r} \<and> used_indices g \<subseteq> {..<index_offset r} \<and> rs_sampler (state_set r) = LinearClamp
     \<and> (\<forall>p \<in> C. agrees D (camera_state r) (state_set r) (pipe g) p)
     \<and> (\<forall>p. p \<noteq> PartAlpha \<longrightarrow> agrees D (camera_state r) (state_set r) (im_pipe s) p)
     \<and> p_camera (pipe g) = p_camera (im_pipe s) \<and> p_targets (pipe g) = (om_target r, om_depth r)
     \<and> p_targets (im_pipe s) = (om_target r, om_depth r)
     \<and> shown g @ pending D (im_pipe s) bs = im_events s \<and> (C = UNIV \<or> idle bs)"

lemma relD:
  assumes "rel D K g0 C r g s bs"
  shows "run_to K g0 r g" "list_shows r bs" "vertex_offset r \<le> draw_capacity" "index_offset r \<le> draw_capacity"
    "used_vertices g \<subseteq> {..<vertex_offset r}" "used_indices g \<subseteq> {..<index_offset r}" "rs_sampler (state_set r) = LinearClamp"
    "p \<in> C \<Longrightarrow> agrees D (camera_state r) (state_set r) (pipe g) p"
    "q \<noteq> PartAlpha \<Longrightarrow> agrees D (camera_state r) (state_set r) (im_pipe s) q"
    "p_camera (pipe g) = p_camera (im_pipe s)" "p_targets (pipe g) = (om_target r, om_depth r)" "p_targets (im_pipe s) = (om_target r, om_depth r)"
    "shown g @ pending D (im_pipe s) bs = im_events s" "C = UNIV \<or> idle bs"
  using assms unfolding rel_def by blast+

lemma list_shows_updates [simp]:
  "list_shows (emit c r) bs = list_shows r bs" "list_shows (r\<lparr>state_set := S\<rparr>) bs = list_shows r bs"
  "list_shows (r\<lparr>camera_state := cam\<rparr>) bs = list_shows r bs" "list_shows (r\<lparr>maps := m\<rparr>) bs = list_shows r bs"
  "list_shows (r\<lparr>state_dirty := d\<rparr>) bs = list_shows r bs" "list_shows (r\<lparr>batch_scope := d\<rparr>) bs = list_shows r bs"
  "list_shows (r\<lparr>state_texture := t\<rparr>) bs = list_shows r bs" "list_shows (r\<lparr>om_target := t\<rparr>) bs = list_shows r bs"
  "list_shows (r\<lparr>om_depth := t\<rparr>) bs = list_shows r bs"
  by (simp_all add: list_shows_def emit_def)

lemma run_to_updates [simp]:
  "run_to K g0 (r\<lparr>state_set := S\<rparr>) g = run_to K g0 r g" "run_to K g0 (r\<lparr>camera_state := cam\<rparr>) g = run_to K g0 r g"
  "run_to K g0 (r\<lparr>maps := m\<rparr>) g = run_to K g0 r g" "run_to K g0 (r\<lparr>state_dirty := d\<rparr>) g = run_to K g0 r g"
  "run_to K g0 (r\<lparr>batch_scope := d\<rparr>) g = run_to K g0 r g" "run_to K g0 (r\<lparr>state_texture := t\<rparr>) g = run_to K g0 r g"
  "run_to K g0 (r\<lparr>om_target := t\<rparr>) g = run_to K g0 r g" "run_to K g0 (r\<lparr>om_depth := t\<rparr>) g = run_to K g0 r g"
  "run_to K g0 (r\<lparr>commands := cs\<rparr>) g = run_to K g0 r g"
  by (simp_all add: run_to_def)

lemma emit_fields [simp]:
  "state_set (emit c r) = state_set r" "camera_state (emit c r) = camera_state r" "vertex_offset (emit c r) = vertex_offset r"
  "index_offset (emit c r) = index_offset r" "state_texture (emit c r) = state_texture r" "state_dirty (emit c r) = state_dirty r"
  "om_target (emit c r) = om_target r" "om_depth (emit c r) = om_depth r" "batch_scope (emit c r) = batch_scope r" "maps (emit c r) = maps r"
  "commands (emit c r) = commands r" "vertex_size (emit c r) = vertex_size r" "index_size (emit c r) = index_size r"
  by (simp_all add: emit_def)

lemma synced_pipe: "rel D K g0 UNIV r g s bs \<Longrightarrow> pipe_for D None (pipe g) = pipe_for D None (im_pipe s)"
proof -
  assume r: "rel D K g0 UNIV r g s bs"
  have both: "agrees D (camera_state r) (state_set r) (pipe g) q" "q \<noteq> PartAlpha \<Longrightarrow> agrees D (camera_state r) (state_set r) (im_pipe s) q" for q
    by (rule relD(8)[OF r UNIV_I], rule relD(9)[OF r])
  have "p_matrix (pipe g) = p_matrix (im_pipe s)" using both[of PartCamera] by (simp split: if_splits)
  moreover have "p_fog_data (pipe g) = p_fog_data (im_pipe s)" "p_vertex_shader (pipe g) = p_vertex_shader (im_pipe s)"
    using both[of PartFog] by simp_all
  moreover have "fst (p_pixel_shader (pipe g)) = fst (p_pixel_shader (im_pipe s))"
      "fst (snd (p_pixel_shader (pipe g))) = fst (snd (p_pixel_shader (im_pipe s)))" using both[of PartPixel] by simp_all
  moreover have "p_viewport (pipe g) = p_viewport (im_pipe s)" "p_scissor (pipe g) = p_scissor (im_pipe s)"
      "p_depth (pipe g) = p_depth (im_pipe s)" "p_blend (pipe g) = p_blend (im_pipe s)"
    using both[of PartViewport] both[of PartScissor] both[of PartDepth] both[of PartBlend] by simp_all
  ultimately show ?thesis using relD(10-12)[OF r] by (intro pipeline.equality) (simp_all add: pipe_for_def)
qed

lemma synced_pixel: "rel D K g0 UNIV r g s bs \<Longrightarrow> pixel_ok r g"
  using relD(8)[of D K g0 UNIV r g s bs PartPixel] relD(8)[of D K g0 UNIV r g s bs PartAlpha]
  by (simp add: pixel_ok_def prod_eq_iff)

lemma agrees_alpha: "agrees D c (S\<lparr>rs_texture_alpha := a\<rparr>) p q = (if q = PartAlpha then snd (snd (p_pixel_shader p)) = a else agrees D c S p q)"
  by (cases q) auto

lemma agrees_pipe_for: "agrees D c S (pipe_for D t p) q = (if q = PartAlpha then alpha_type D t = rs_texture_alpha S else agrees D c S p q)"
  by (cases q) (auto simp: pipe_for_def)

subsection \<open>Flushing\<close>

text \<open>The settings of the renderer, but for the bound alpha type, which a flush may change.\<close>

definition same_settings :: "'f renderer \<Rightarrow> 'f renderer \<Rightarrow> bool" where
  "same_settings r r' \<longleftrightarrow> camera_state r' = camera_state r \<and> state_texture r' = state_texture r \<and> state_dirty r' = state_dirty r
     \<and> batch_scope r' = batch_scope r \<and> om_target r' = om_target r \<and> om_depth r' = om_depth r
     \<and> (state_set r')\<lparr>rs_texture_alpha := AlphaNormal\<rparr> = (state_set r)\<lparr>rs_texture_alpha := AlphaNormal\<rparr>"

lemma like_settings: "like r r' \<Longrightarrow> same_settings r r'"
  by (auto simp: like_def same_settings_def)

lemma same_settings_refl [simp]: "same_settings r r"
  by (simp add: same_settings_def)

lemma same_settings_trans: "same_settings r r1 \<Longrightarrow> same_settings r1 r2 \<Longrightarrow> same_settings r r2"
  by (simp add: same_settings_def)

definition emptied :: "'f render_ops \<Rightarrow> 'f renderer \<Rightarrow> 'f renderer" where
  "emptied D r = (clearDrawList r)\<lparr>commands := [\<lparr>cmd_texture = state_texture r, cmd_vertex_count = 0, cmd_index_count = 0\<rparr>]\<rparr>"

lemma emptied_is: "device_ok D \<Longrightarrow> set_texture_with id D (state_texture (clearDrawList r)) (clearDrawList r) = emptied D r"
  by (simp add: set_texture_with_def clearDrawList_def emptied_def same_texture)

lemma emptied_fields [simp]:
  "state_set (emptied D r) = state_set r" "camera_state (emptied D r) = camera_state r" "vertex_offset (emptied D r) = vertex_offset r"
  "index_offset (emptied D r) = index_offset r" "om_target (emptied D r) = om_target r" "om_depth (emptied D r) = om_depth r"
  "state_texture (emptied D r) = state_texture r" "state_dirty (emptied D r) = state_dirty r" "batch_scope (emptied D r) = batch_scope r"
  "run_to K g0 (emptied D r) g = run_to K g0 r g" "same_settings r (emptied D r)"
  by (simp_all add: emptied_def clearDrawList_def run_to_def same_settings_def)

lemma emptied_shows: "list_shows r bs \<Longrightarrow> list_shows (emptied D r) [(state_texture r, [], [])]"
  by (simp add: list_shows_def emptied_def clearDrawList_def command_of_def batch_ok_def command_capacity_def)

lemma same_agrees:
  assumes "same_settings r r'" "q \<noteq> PartAlpha"
  shows "agrees D (camera_state r') (state_set r') p q = agrees D (camera_state r) (state_set r) p q"
proof -
  have "agrees D (camera_state r) ((state_set r')\<lparr>rs_texture_alpha := AlphaNormal\<rparr>) p q
      = agrees D (camera_state r) ((state_set r)\<lparr>rs_texture_alpha := AlphaNormal\<rparr>) p q"
    using assms(1) by (simp only: same_settings_def)
  then show ?thesis using assms by (simp add: agrees_alpha same_settings_def)
qed

text \<open>A flush shows what waits and keeps everything else.\<close>

lemma flush_rel:
  assumes "rel D K g0 C r g s bs" "device_ok D"
  shows "\<exists>r' g'. batchFlush D False r = (True, r') \<and> rel D K g0 C r' g' s [(state_texture r, [], [])] \<and> same_settings r r'"
proof -
  note R = relD[OF assms(1)]
  note upload = uploadVertexIndexBufferFromDrawList_def
  have texture: "run_to K g0 (emit (BindTexture None) r1) (g1\<lparr>g_texture := None\<rparr>)" if "run_to K g0 r1 g1" for r1 g1
    by (rule run_to_emit[OF that]) simp
  have flush: "batchFlush D False r = (True, emptied D (emit (BindTexture None) r2))"
    if "uploadVertexIndexBufferFromDrawList D r = (True, r1)" "fold (draw_one D) (commands r1) r1 = r2" for r1 r2
    using that emptied_is[OF assms(2), of "emit (BindTexture None) r2"] by (simp add: batchFlush_def Let_def)
  show ?thesis
  proof (cases "all_vertices bs = []")
    case True
    then have empty: "all_indices bs = []" using all_empty_iff list_showsD(8)[OF R(2)] by blast
    then have idle: "idle bs" using True by (auto simp: idle_def all_vertices_def all_indices_def)
    have "commands r = map command_of bs" using list_showsD(1)[OF R(2)] .
    then have f: "batchFlush D False r = (True, emptied D (emit (BindTexture None) r))"
      using flush[OF upload_nothing[OF R(2) True R(3,4)]] idle_loop[OF idle, of D r] by simp
    have "rel D K g0 C (emptied D (emit (BindTexture None) r)) (g\<lparr>g_texture := None\<rparr>) s [(state_texture r, [], [])]"
      using assms(1) texture[OF R(1)] emptied_shows[of "emit (BindTexture None) r" bs] idle_all[OF idle]
      unfolding rel_def by simp
    then show ?thesis using f by (intro exI conjI) (assumption, assumption, simp add: same_settings_def)
  next
    case False
    then have C: "C = UNIV" using R(14) idle_all[of bs] by auto
    have maps: "\<forall>k. map_ok D k" using assms(2) by (simp add: device_ok_def)
    obtain r1 g1 where r1: "uploadVertexIndexBufferFromDrawList D r = (True, r1)" "run_to K g0 r1 g1" "like r r1"
        "vertex_offset r1 + length (all_vertices bs) \<le> draw_capacity" "index_offset r1 + length (all_indices bs) \<le> draw_capacity"
        "state_set r1 = state_set r" "pipe g1 = pipe g" "shown g1 = shown g" "used_vertices g1 \<subseteq> {..<vertex_offset r1}"
        "used_indices g1 \<subseteq> {..<index_offset r1}" "holds_at (g_vertices g1) (vertex_offset r1) (all_vertices bs)"
        "holds_at (g_indices g1) (index_offset r1) (map of_nat (all_indices bs))"
      using upload_list_ok[OF R(1,2) maps False R(5,6,3,4)] by blast
    have "pixel_ok r1 g1" using synced_pixel[OF assms(1)[unfolded C]] r1(6,7) by (simp add: pixel_ok_def)
    moreover have "rs_sampler (state_set r1) = LinearClamp" using R(7) r1(6) by simp
    ultimately obtain r2 g2 where r2: "fold (draw_one D) (map command_of bs) r1 = r2" "run_to K g0 r2 g2" "like r1 r2" "pixel_ok r2 g2"
        "vertex_offset r2 = vertex_offset r1 + length (all_vertices bs)" "index_offset r2 = index_offset r1 + length (all_indices bs)"
        "pipe_for D None (pipe g2) = pipe_for D None (pipe g1)" "used_vertices g2 \<subseteq> {..<vertex_offset r2}"
        "used_indices g2 \<subseteq> {..<index_offset r2}" "shown g2 = shown g1 @ pending D (pipe g1) bs"
      using draw_loop[OF r1(2) _ list_showsD(8,4,5)[OF R(2)] _ r1(11,12,9,10)] by blast
    have like: "like r r2" by (rule like_trans[OF r1(3) r2(3)])
    have same: "same_settings r r2" by (rule like_settings[OF like])
    let ?r = "emptied D (emit (BindTexture None) r2)" and ?g = "g2\<lparr>g_texture := None\<rparr>"
    have f: "batchFlush D False r = (True, ?r)"
      using flush[OF r1(1)] r2(1) likeD(1)[OF r1(3)] list_showsD(1)[OF R(2)] by simp
    have shows2: "list_shows (emit (BindTexture None) r2) bs" using list_shows_like[OF like] R(2) by simp
    have agree: "agrees D (camera_state r2) (state_set r2) (pipe g2) q" for q
    proof (cases "q = PartAlpha")
      case True
      then show ?thesis using r2(4) by (simp add: pixel_ok_def)
    next
      case False
      have "agrees D (camera_state r) (state_set r) (pipe_for D None (pipe g2)) q"
        unfolding r2(7) r1(7) using False relD(8)[OF assms(1), of q] C by (simp add: agrees_pipe_for)
      then show ?thesis using False same_agrees[OF same False] by (simp add: agrees_pipe_for)
    qed
    have "pending D (pipe g) bs = pending D (im_pipe s) bs" by (rule pending_cong[OF synced_pipe[OF assms(1)[unfolded C]]])
    then have "shown g2 = im_events s" using r2(10) r1(7,8) R(13) by simp
    moreover have "p_camera (pipe g2) = p_camera (pipe g)" "p_targets (pipe g2) = p_targets (pipe g)"
      using arg_cong[OF r2(7), of p_camera] arg_cong[OF r2(7), of p_targets] r1(7) by (simp_all add: pipe_for_def)
    moreover have "agrees D (camera_state r2) (state_set r2) (im_pipe s) q" if "q \<noteq> PartAlpha" for q
      using R(9)[OF that] same_agrees[OF same that] by simp
    ultimately have "rel D K g0 C ?r ?g s [(state_texture r2, [], [])]"
      using texture[OF r2(2)] emptied_shows[OF shows2] r2(5,6,8,9) r1(4,5) R(7,10,11,12) agree likeD[OF like]
      unfolding rel_def by simp
    then show ?thesis using f same likeD(6)[OF like]
      by (intro exI[of _ ?r] exI[of _ ?g]) (simp add: same_settings_def)
  qed
qed

end
