(* ===== verification/RendererSetters.thy ===== *)
theory RendererSetters
  imports RendererStates
begin

text \<open>
  Every change of a state keeps the correspondence with the immediate renderer.
\<close>

subsection \<open>After a flush\<close>

definition changed :: "'f renderer \<Rightarrow> 'f camera_state_set \<Rightarrow> 'f renderer_state_set \<Rightarrow> nat \<Rightarrow> handle option \<times> handle option \<Rightarrow> 'f gpu_call list
    \<Rightarrow> 'f renderer" where
  "changed r cam S m om cs = r\<lparr>camera_state := cam, state_set := S, maps := m, om_target := fst om, om_depth := snd om, calls := calls r @ cs\<rparr>"

lemma changed_fields [simp]:
  "camera_state (changed r cam S m om cs) = cam" "state_set (changed r cam S m om cs) = S" "om_target (changed r cam S m om cs) = fst om"
  "om_depth (changed r cam S m om cs) = snd om" "vertex_offset (changed r cam S m om cs) = vertex_offset r"
  "index_offset (changed r cam S m om cs) = index_offset r" "list_shows (changed r cam S m om cs) bs = list_shows r bs"
  "state_texture (changed r cam S m om cs) = state_texture r" "state_dirty (changed r cam S m om cs) = state_dirty r"
  "batch_scope (changed r cam S m om cs) = batch_scope r"
  by (simp_all add: changed_def list_shows_def)

lemma changed_rel:
  assumes "rel D K g0 C r g s bs" "idle bs" "gpu_run K cs g = Some (g\<lparr>pipe := p\<rparr>)" "rs_sampler S = LinearClamp"
    and "\<And>q. q \<in> C' \<Longrightarrow> agrees D cam S p q" "\<And>q. q \<noteq> PartAlpha \<Longrightarrow> agrees D cam S (im_pipe s') q"
    and "p_camera p = p_camera (im_pipe s')" "p_targets p = om" "p_targets (im_pipe s') = om" "im_events s' = im_events s"
  shows "rel D K g0 C' (changed r cam S m om cs) (g\<lparr>pipe := p\<rparr>) s' bs"
proof -
  note R = relD[OF assms(1)]
  have "run_to K g0 (changed r cam S m om cs) (g\<lparr>pipe := p\<rparr>)"
    using R(1) assms(3) by (simp add: run_to_def changed_def gpu_run_append)
  moreover have "shown g = im_events s" using R(13) idle_all[OF assms(2), of D "im_pipe s"] by simp
  ultimately show ?thesis using R(2-6) assms idle_all[OF assms(2), of D "im_pipe s'"] unfolding rel_def by simp
qed

text \<open>What the change of a state leaves alone.\<close>

definition carried :: "'f renderer \<Rightarrow> 'f renderer \<Rightarrow> 'f batch list \<Rightarrow> 'f batch list \<Rightarrow> bool" where
  "carried r r' bs bs' \<longleftrightarrow> state_texture r' = state_texture r \<and> state_dirty r' = state_dirty r \<and> batch_scope r' = batch_scope r
     \<and> (bs' = bs \<or> bs' = [(state_texture r, [], [])])"

lemma carried_refl [simp]: "carried r r bs bs"
  by (simp add: carried_def)

lemma carried_trans: "carried r r1 bs bs1 \<Longrightarrow> carried r1 r2 bs1 bs2 \<Longrightarrow> carried r r2 bs bs2"
  by (auto simp: carried_def)

text \<open>
  A setter, in the form all of them have: nothing when the value is the one that is set, otherwise a
  flush, the recording of the value, and calls that set it in the device.
\<close>

lemma setter_rel:
  assumes "rel D K g0 C r g s bs" "device_ok D" "state_dirty r \<or> part \<in> C"
    and "set_it r = (if state_dirty r \<or> \<not> same then changed (flushed D r) (cam (flushed D r)) (S (flushed D r)) (m (flushed D r)) (om (flushed D r)) (cs (flushed D r)) else r)"
    and "\<And>r1 g1. rel D K g0 C r1 g1 s [(state_texture r, [], [])] \<Longrightarrow> same_settings r r1
        \<Longrightarrow> \<exists>g2. rel D K g0 (insert part C) (changed r1 (cam r1) (S r1) (m r1) (om r1) (cs r1)) g2 s' [(state_texture r, [], [])]"
    and "same \<Longrightarrow> s' = s"
  shows "\<exists>g' bs'. rel D K g0 (insert part C) (set_it r) g' s' bs' \<and> carried r (set_it r) bs bs'"
proof (cases "state_dirty r \<or> \<not> same")
  case True
  obtain r1 g1 where r1: "batchFlush D False r = (True, r1)" "rel D K g0 C r1 g1 s [(state_texture r, [], [])]" "same_settings r r1"
    using flush_rel[OF assms(1,2)] by blast
  have f: "flushed D r = r1" using r1(1) by (simp add: flushed_def)
  obtain g2 where g2: "rel D K g0 (insert part C) (changed r1 (cam r1) (S r1) (m r1) (om r1) (cs r1)) g2 s' [(state_texture r, [], [])]"
    using assms(5)[OF r1(2,3)] by blast
  have "set_it r = changed r1 (cam r1) (S r1) (m r1) (om r1) (cs r1)" unfolding assms(4) using True f by simp
  then show ?thesis using g2 r1(3) by (auto simp: carried_def same_settings_def)
next
  case False
  then have "part \<in> C" "set_it r = r" using assms(3,4) by auto
  then show ?thesis using False assms(1,6) by (intro exI[of _ g] exI[of _ bs]) (simp add: insert_absorb)
qed

subsection \<open>The setters\<close>

lemma viewport_agrees:
  "agrees D c (S\<lparr>rs_viewport := b\<rparr>) (p\<lparr>p_viewport := v\<rparr>) q = (if q = PartViewport then v = viewport_data D b else agrees D c S p q)"
  by (cases q) auto

lemma setViewport_rel:
  assumes "rel D K g0 C r g s bs" "device_ok D" "state_dirty r \<or> PartViewport \<in> C"
  shows "\<exists>g' bs'. rel D K g0 (insert PartViewport C) (setViewport D b r) g' (immediate_op D (OpViewport b) s) bs' \<and> carried r (setViewport D b r) bs bs'"
proof (rule setter_rel[OF assms, where cam = camera_state and S = "\<lambda>r. (state_set r)\<lparr>rs_viewport := b\<rparr>" and m = maps
      and om = "\<lambda>r. (om_target r, om_depth r)" and cs = "\<lambda>r. [SetViewports (viewport_data D b)]" and same = "box_eq D (rs_viewport (state_set r)) b"])
  show "setViewport D b r = (if state_dirty r \<or> \<not> box_eq D (rs_viewport (state_set r)) b
      then changed (flushed D r) (camera_state (flushed D r)) ((state_set (flushed D r))\<lparr>rs_viewport := b\<rparr>) (maps (flushed D r))
        (om_target (flushed D r), om_depth (flushed D r)) [SetViewports (viewport_data D b)] else r)"
    by (simp add: setViewport_def changed_def emit_def Let_def)
next
  fix r1 g1 assume r1: "rel D K g0 C r1 g1 s [(state_texture r, [], [])]"
  note R = relD[OF r1]
  show "\<exists>g2. rel D K g0 (insert PartViewport C) (changed r1 (camera_state r1) ((state_set r1)\<lparr>rs_viewport := b\<rparr>) (maps r1)
      (om_target r1, om_depth r1) [SetViewports (viewport_data D b)]) g2 (immediate_op D (OpViewport b) s) [(state_texture r, [], [])]"
    by (rule exI, rule changed_rel[OF r1, where p = "(pipe g1)\<lparr>p_viewport := viewport_data D b\<rparr>"])
      (use R in \<open>auto simp: viewport_agrees\<close>)
next
  assume "box_eq D (rs_viewport (state_set r)) b"
  then have "rs_viewport (state_set r) = b" by (rule equal_same(2)[OF assms(2)])
  then show "immediate_op D (OpViewport b) s = s" using relD(9)[OF assms(1), of PartViewport] by simp
qed

lemma scissor_agrees:
  "agrees D c (S\<lparr>rs_scissor_rect := b\<rparr>) (p\<lparr>p_scissor := v\<rparr>) q = (if q = PartScissor then v = scissor_data D b else agrees D c S p q)"
  by (cases q) auto

lemma setScissorRect_rel:
  assumes "rel D K g0 C r g s bs" "device_ok D" "state_dirty r \<or> PartScissor \<in> C"
  shows "\<exists>g' bs'. rel D K g0 (insert PartScissor C) (setScissorRect D b r) g' (immediate_op D (OpScissor b) s) bs' \<and> carried r (setScissorRect D b r) bs bs'"
proof (rule setter_rel[OF assms, where cam = camera_state and S = "\<lambda>r. (state_set r)\<lparr>rs_scissor_rect := b\<rparr>" and m = maps
      and om = "\<lambda>r. (om_target r, om_depth r)" and cs = "\<lambda>r. [SetScissors (scissor_data D b)]" and same = "rect_eq D (rs_scissor_rect (state_set r)) b"])
  show "setScissorRect D b r = (if state_dirty r \<or> \<not> rect_eq D (rs_scissor_rect (state_set r)) b
      then changed (flushed D r) (camera_state (flushed D r)) ((state_set (flushed D r))\<lparr>rs_scissor_rect := b\<rparr>) (maps (flushed D r))
        (om_target (flushed D r), om_depth (flushed D r)) [SetScissors (scissor_data D b)] else r)"
    by (simp add: setScissorRect_def changed_def emit_def Let_def)
next
  fix r1 g1 assume r1: "rel D K g0 C r1 g1 s [(state_texture r, [], [])]"
  note R = relD[OF r1]
  show "\<exists>g2. rel D K g0 (insert PartScissor C) (changed r1 (camera_state r1) ((state_set r1)\<lparr>rs_scissor_rect := b\<rparr>) (maps r1)
      (om_target r1, om_depth r1) [SetScissors (scissor_data D b)]) g2 (immediate_op D (OpScissor b) s) [(state_texture r, [], [])]"
    by (rule exI, rule changed_rel[OF r1, where p = "(pipe g1)\<lparr>p_scissor := scissor_data D b\<rparr>"])
      (use R in \<open>auto simp: scissor_agrees\<close>)
next
  assume "rect_eq D (rs_scissor_rect (state_set r)) b"
  then have "rs_scissor_rect (state_set r) = b" by (rule equal_same(3)[OF assms(2)])
  then show "immediate_op D (OpScissor b) s = s" using relD(9)[OF assms(1), of PartScissor] by simp
qed

lemma depth_agrees:
  "agrees D c (S\<lparr>rs_depth := b\<rparr>) (p\<lparr>p_depth := v\<rparr>) q = (if q = PartDepth then v = b else agrees D c S p q)"
  by (cases q) auto

lemma setDepthState_rel:
  assumes "rel D K g0 C r g s bs" "device_ok D" "state_dirty r \<or> PartDepth \<in> C"
  shows "\<exists>g' bs'. rel D K g0 (insert PartDepth C) (setDepthState D b r) g' (immediate_op D (OpDepth b) s) bs' \<and> carried r (setDepthState D b r) bs bs'"
proof (rule setter_rel[OF assms, where cam = camera_state and S = "\<lambda>r. (state_set r)\<lparr>rs_depth := b\<rparr>" and m = maps
      and om = "\<lambda>r. (om_target r, om_depth r)" and cs = "\<lambda>r. [SetDepth b]" and same = "rs_depth (state_set r) = b"])
  show "setDepthState D b r = (if state_dirty r \<or> \<not> rs_depth (state_set r) = b
      then changed (flushed D r) (camera_state (flushed D r)) ((state_set (flushed D r))\<lparr>rs_depth := b\<rparr>) (maps (flushed D r))
        (om_target (flushed D r), om_depth (flushed D r)) [SetDepth b] else r)"
    by (simp add: setDepthState_def changed_def emit_def Let_def)
next
  fix r1 g1 assume r1: "rel D K g0 C r1 g1 s [(state_texture r, [], [])]"
  note R = relD[OF r1]
  show "\<exists>g2. rel D K g0 (insert PartDepth C) (changed r1 (camera_state r1) ((state_set r1)\<lparr>rs_depth := b\<rparr>) (maps r1)
      (om_target r1, om_depth r1) [SetDepth b]) g2 (immediate_op D (OpDepth b) s) [(state_texture r, [], [])]"
    by (rule exI, rule changed_rel[OF r1, where p = "(pipe g1)\<lparr>p_depth := b\<rparr>"])
      (use R in \<open>auto simp: depth_agrees\<close>)
next
  assume "rs_depth (state_set r) = b"
  then have "rs_depth (state_set r) = b" by simp
  then show "immediate_op D (OpDepth b) s = s" using relD(9)[OF assms(1), of PartDepth] by simp
qed

lemma blend_agrees:
  "agrees D c (S\<lparr>rs_blend := b\<rparr>) (p\<lparr>p_blend := v\<rparr>) q = (if q = PartBlend then v = b else agrees D c S p q)"
  by (cases q) auto

lemma setBlendState_rel:
  assumes "rel D K g0 C r g s bs" "device_ok D" "state_dirty r \<or> PartBlend \<in> C"
  shows "\<exists>g' bs'. rel D K g0 (insert PartBlend C) (setBlendState D b r) g' (immediate_op D (OpBlend b) s) bs' \<and> carried r (setBlendState D b r) bs bs'"
proof (rule setter_rel[OF assms, where cam = camera_state and S = "\<lambda>r. (state_set r)\<lparr>rs_blend := b\<rparr>" and m = maps
      and om = "\<lambda>r. (om_target r, om_depth r)" and cs = "\<lambda>r. [SetBlend b]" and same = "rs_blend (state_set r) = b"])
  show "setBlendState D b r = (if state_dirty r \<or> \<not> rs_blend (state_set r) = b
      then changed (flushed D r) (camera_state (flushed D r)) ((state_set (flushed D r))\<lparr>rs_blend := b\<rparr>) (maps (flushed D r))
        (om_target (flushed D r), om_depth (flushed D r)) [SetBlend b] else r)"
    by (simp add: setBlendState_def changed_def emit_def Let_def)
next
  fix r1 g1 assume r1: "rel D K g0 C r1 g1 s [(state_texture r, [], [])]"
  note R = relD[OF r1]
  show "\<exists>g2. rel D K g0 (insert PartBlend C) (changed r1 (camera_state r1) ((state_set r1)\<lparr>rs_blend := b\<rparr>) (maps r1)
      (om_target r1, om_depth r1) [SetBlend b]) g2 (immediate_op D (OpBlend b) s) [(state_texture r, [], [])]"
    by (rule exI, rule changed_rel[OF r1, where p = "(pipe g1)\<lparr>p_blend := b\<rparr>"])
      (use R in \<open>auto simp: blend_agrees\<close>)
next
  assume "rs_blend (state_set r) = b"
  then have "rs_blend (state_set r) = b" by simp
  then show "immediate_op D (OpBlend b) s = s" using relD(9)[OF assms(1), of PartBlend] by simp
qed

lemma pixel_agrees:
  "agrees D c (S\<lparr>rs_vertex_color_blend := b\<rparr>) (p\<lparr>p_pixel_shader := (b', f, a)\<rparr>) q = (if q = PartPixel then b' = b \<and> f = rs_fog S
     else if q = PartAlpha then a = rs_texture_alpha S else agrees D c S p q)"
  by (cases q) auto

lemma setVertexColorBlendState_rel:
  assumes "rel D K g0 C r g s bs" "device_ok D" "state_dirty r \<or> PartPixel \<in> C"
  shows "\<exists>g' bs'. rel D K g0 (insert PartPixel C) (setVertexColorBlendState D b r) g' (immediate_op D (OpVertexColorBlend b) s) bs'
    \<and> carried r (setVertexColorBlendState D b r) bs bs'"
proof (rule setter_rel[OF assms, where cam = camera_state and S = "\<lambda>r. (state_set r)\<lparr>rs_vertex_color_blend := b\<rparr>" and m = maps
      and om = "\<lambda>r. (om_target r, om_depth r)" and cs = "\<lambda>r. [BindPixelShader b (rs_fog (state_set r)) (rs_texture_alpha (state_set r))]"
      and same = "rs_vertex_color_blend (state_set r) = b"])
  show "setVertexColorBlendState D b r = (if state_dirty r \<or> rs_vertex_color_blend (state_set r) \<noteq> b
      then changed (flushed D r) (camera_state (flushed D r)) ((state_set (flushed D r))\<lparr>rs_vertex_color_blend := b\<rparr>) (maps (flushed D r))
        (om_target (flushed D r), om_depth (flushed D r))
        [BindPixelShader b (rs_fog (state_set (flushed D r))) (rs_texture_alpha (state_set (flushed D r)))] else r)"
    by (simp add: setVertexColorBlendState_def changed_def emit_def Let_def)
next
  fix r1 g1 assume r1: "rel D K g0 C r1 g1 s [(state_texture r, [], [])]"
  note R = relD[OF r1]
  have "agrees D (camera_state r1) (state_set r1) (im_pipe s) PartPixel" using R(9) by blast
  then have f: "snd (p_pixel_shader (im_pipe s)) = (rs_fog (state_set r1), snd (snd (p_pixel_shader (im_pipe s))))" by (simp add: prod_eq_iff)
  have ag: "agrees D (camera_state r1) ((state_set r1)\<lparr>rs_vertex_color_blend := b\<rparr>)
      ((im_pipe s)\<lparr>p_pixel_shader := (b, snd (p_pixel_shader (im_pipe s)))\<rparr>) q" if "q \<noteq> PartAlpha" for q
    by (subst f, subst pixel_agrees) (use R(9) that in auto)
  show "\<exists>g2. rel D K g0 (insert PartPixel C) (changed r1 (camera_state r1) ((state_set r1)\<lparr>rs_vertex_color_blend := b\<rparr>) (maps r1)
      (om_target r1, om_depth r1) [BindPixelShader b (rs_fog (state_set r1)) (rs_texture_alpha (state_set r1))]) g2
      (immediate_op D (OpVertexColorBlend b) s) [(state_texture r, [], [])]"
    by (rule exI, rule changed_rel[OF r1, where p = "(pipe g1)\<lparr>p_pixel_shader := (b, rs_fog (state_set r1), rs_texture_alpha (state_set r1))\<rparr>"])
      (use R ag in \<open>auto simp: pixel_agrees\<close>)
next
  assume "rs_vertex_color_blend (state_set r) = b"
  then show "immediate_op D (OpVertexColorBlend b) s = s" using relD(9)[OF assms(1), of PartPixel] by (simp add: prod_eq_iff)
qed

lemma fog_agrees:
  "agrees D c (S\<lparr>rs_fog := f, rs_fog_color := col, rs_fog_near_or_density := n, rs_fog_far := m\<rparr>)
      (p\<lparr>p_vertex_shader := f', p_fog_data := d, p_pixel_shader := (b, f'', a)\<rparr>) q
    = (if q = PartFog then f' = f \<and> d = fog_data D col n m else if q = PartPixel then b = rs_vertex_color_blend S \<and> f'' = f
       else if q = PartAlpha then a = rs_texture_alpha S else agrees D c S p q)"
  by (cases q) auto

lemma setFogState_rel:
  assumes "rel D K g0 C r g s bs" "device_ok D" "state_dirty r \<or> PartFog \<in> C" "PartPixel \<in> C"
  shows "\<exists>g' bs'. rel D K g0 (insert PartFog C) (setFogState D f col n m r) g' (immediate_op D (OpFog f col n m) s) bs'
    \<and> carried r (setFogState D f col n m r) bs bs'"
proof (rule setter_rel[OF assms(1-3), where cam = camera_state
      and S = "\<lambda>r. (state_set r)\<lparr>rs_fog := f, rs_fog_color := col, rs_fog_near_or_density := n, rs_fog_far := m\<rparr>" and m = "\<lambda>r. maps r + 1"
      and om = "\<lambda>r. (om_target r, om_depth r)"
      and cs = "\<lambda>r. [BindVertexShader f, UploadFog (fog_data D col n m), BindPixelShader (rs_vertex_color_blend (state_set r)) f (rs_texture_alpha (state_set r))]"
      and same = "rs_fog (state_set r) = f \<and> rs_fog_color (state_set r) = col \<and> f_eq D (rs_fog_near_or_density (state_set r)) n
        \<and> f_eq D (rs_fog_far (state_set r)) m"])
  let ?f = "flushed D r"
  have "map_ok D k" for k by (rule device_okD(1)[OF assms(2)])
  then show "setFogState D f col n m r = (if state_dirty r \<or> \<not> (rs_fog (state_set r) = f \<and> rs_fog_color (state_set r) = col
        \<and> f_eq D (rs_fog_near_or_density (state_set r)) n \<and> f_eq D (rs_fog_far (state_set r)) m)
      then changed ?f (camera_state ?f) ((state_set ?f)\<lparr>rs_fog := f, rs_fog_color := col, rs_fog_near_or_density := n, rs_fog_far := m\<rparr>)
        (maps ?f + 1) (om_target ?f, om_depth ?f) [BindVertexShader f, UploadFog (fog_data D col n m),
        BindPixelShader (rs_vertex_color_blend (state_set ?f)) f (rs_texture_alpha (state_set ?f))] else r)"
    by (simp add: setFogState_def changed_def emit_def Let_def map_write_def)
next
  fix r1 g1 assume r1: "rel D K g0 C r1 g1 s [(state_texture r, [], [])]"
  note R = relD[OF r1]
  have "agrees D (camera_state r1) (state_set r1) (im_pipe s) PartPixel" using R(9) by blast
  then have b: "fst (p_pixel_shader (im_pipe s)) = rs_vertex_color_blend (state_set r1)" by simp
  have ag: "agrees D (camera_state r1) ((state_set r1)\<lparr>rs_fog := f, rs_fog_color := col, rs_fog_near_or_density := n, rs_fog_far := m\<rparr>)
      ((im_pipe s)\<lparr>p_vertex_shader := f, p_fog_data := fog_data D col n m, p_pixel_shader := (fst (p_pixel_shader (im_pipe s)), f, snd (snd (p_pixel_shader (im_pipe s))))\<rparr>) q"
    if "q \<noteq> PartAlpha" for q
    unfolding fog_agrees using b R(9)[OF that] that by simp
  show "\<exists>g2. rel D K g0 (insert PartFog C) (changed r1 (camera_state r1)
      ((state_set r1)\<lparr>rs_fog := f, rs_fog_color := col, rs_fog_near_or_density := n, rs_fog_far := m\<rparr>) (maps r1 + 1) (om_target r1, om_depth r1)
      [BindVertexShader f, UploadFog (fog_data D col n m), BindPixelShader (rs_vertex_color_blend (state_set r1)) f (rs_texture_alpha (state_set r1))])
      g2 (immediate_op D (OpFog f col n m) s) [(state_texture r, [], [])]"
    by (rule exI, rule changed_rel[OF r1, where p = "(pipe g1)\<lparr>p_vertex_shader := f, p_fog_data := fog_data D col n m,
          p_pixel_shader := (rs_vertex_color_blend (state_set r1), f, rs_texture_alpha (state_set r1))\<rparr>"])
      (use R ag in \<open>auto simp: fog_agrees\<close>)
next
  assume "rs_fog (state_set r) = f \<and> rs_fog_color (state_set r) = col \<and> f_eq D (rs_fog_near_or_density (state_set r)) n
      \<and> f_eq D (rs_fog_far (state_set r)) m"
  then have "rs_fog (state_set r) = f" "rs_fog_color (state_set r) = col" "rs_fog_near_or_density (state_set r) = n" "rs_fog_far (state_set r) = m"
    using device_okD(2)[OF assms(2)] by simp_all
  then show "immediate_op D (OpFog f col n m) s = s"
    using relD(9)[OF assms(1), of PartFog] relD(9)[OF assms(1), of PartPixel] by (simp add: prod_eq_iff)
qed

end
