(* ===== verification/RendererDraws.thy ===== *)
theory RendererDraws
  imports RendererSetters
begin

text \<open>
  Cameras, attachments, textures and primitives keep the correspondence.
\<close>

subsection \<open>Cameras\<close>

lemma ortho_agrees:
  "agrees D (c\<lparr>cs_ortho := b, cs_is_3D := False\<rparr>) S (p\<lparr>p_matrix := v\<rparr>) q
    = (if q = PartCamera then v = ortho_matrix D (ortho_data b) else agrees D c S p q)"
  by (cases q) auto

lemma setOrtho_rel:
  assumes "rel D K g0 C r g s bs" "device_ok D" "state_dirty r \<or> PartCamera \<in> C"
  shows "\<exists>g' bs'. rel D K g0 (insert PartCamera C) (setOrtho D b r) g' (immediate_op D (OpOrtho b) s) bs' \<and> carried r (setOrtho D b r) bs bs'"
proof (rule setter_rel[OF assms, where cam = "\<lambda>r. (camera_state r)\<lparr>cs_ortho := b, cs_is_3D := False\<rparr>" and S = state_set and m = "\<lambda>r. maps r + 1"
      and om = "\<lambda>r. (om_target r, om_depth r)" and cs = "\<lambda>r. [UploadMatrix (ortho_matrix D (ortho_data b))]" and same = "ortho_equal D (camera_state r) b"])
  have "map_ok D k" for k by (rule device_okD(1)[OF assms(2)])
  then show "setOrtho D b r = (if state_dirty r \<or> \<not> ortho_equal D (camera_state r) b
      then changed (flushed D r) ((camera_state (flushed D r))\<lparr>cs_ortho := b, cs_is_3D := False\<rparr>) (state_set (flushed D r)) (maps (flushed D r) + 1)
        (om_target (flushed D r), om_depth (flushed D r)) [UploadMatrix (ortho_matrix D (ortho_data b))] else r)"
    by (simp add: setOrtho_def changed_def emit_def Let_def map_write_def ortho_data_def split: prod.split)
next
  fix r1 g1 assume r1: "rel D K g0 C r1 g1 s [(state_texture r, [], [])]"
  note R = relD[OF r1]
  show "\<exists>g2. rel D K g0 (insert PartCamera C) (changed r1 ((camera_state r1)\<lparr>cs_ortho := b, cs_is_3D := False\<rparr>) (state_set r1) (maps r1 + 1)
      (om_target r1, om_depth r1) [UploadMatrix (ortho_matrix D (ortho_data b))]) g2 (immediate_op D (OpOrtho b) s) [(state_texture r, [], [])]"
    by (rule exI, rule changed_rel[OF r1, where p = "(pipe g1)\<lparr>p_matrix := ortho_matrix D (ortho_data b)\<rparr>"])
      (use R in \<open>auto simp: ortho_agrees\<close>)
next
  assume "ortho_equal D (camera_state r) b"
  then have "\<not> cs_is_3D (camera_state r)" "cs_ortho (camera_state r) = b" using equal_same(4)[OF assms(2)] by blast+
  then show "immediate_op D (OpOrtho b) s = s" using relD(9)[OF assms(1), of PartCamera] by simp
qed

lemma perspective_agrees:
  "agrees D (c\<lparr>cs_perspective := b, cs_is_3D := True\<rparr>) S (p\<lparr>p_matrix := v, p_camera := w\<rparr>) q
    = (if q = PartCamera then v = view_matrix D b \<and> w = camera_data D b else agrees D c S p q)"
  by (cases q) auto

lemma setPerspective_rel:
  assumes "rel D K g0 C r g s bs" "device_ok D" "state_dirty r \<or> PartCamera \<in> C"
  shows "\<exists>g' bs'. rel D K g0 (insert PartCamera C) (setPerspective D b r) g' (immediate_op D (OpPerspective b) s) bs' \<and> carried r (setPerspective D b r) bs bs'"
proof (rule setter_rel[OF assms, where cam = "\<lambda>r. (camera_state r)\<lparr>cs_perspective := b, cs_is_3D := True\<rparr>" and S = state_set and m = "\<lambda>r. maps r + 2"
      and om = "\<lambda>r. (om_target r, om_depth r)" and cs = "\<lambda>r. [UploadMatrix (view_matrix D b), UploadCamera (camera_data D b)]"
      and same = "perspective_equal D (camera_state r) b"])
  have "map_ok D k" for k by (rule device_okD(1)[OF assms(2)])
  then show "setPerspective D b r = (if state_dirty r \<or> \<not> perspective_equal D (camera_state r) b
      then changed (flushed D r) ((camera_state (flushed D r))\<lparr>cs_perspective := b, cs_is_3D := True\<rparr>) (state_set (flushed D r)) (maps (flushed D r) + 2)
        (om_target (flushed D r), om_depth (flushed D r)) [UploadMatrix (view_matrix D b), UploadCamera (camera_data D b)] else r)"
    by (simp add: setPerspective_def changed_def emit_def Let_def map_write_def)
next
  fix r1 g1 assume r1: "rel D K g0 C r1 g1 s [(state_texture r, [], [])]"
  note R = relD[OF r1]
  show "\<exists>g2. rel D K g0 (insert PartCamera C) (changed r1 ((camera_state r1)\<lparr>cs_perspective := b, cs_is_3D := True\<rparr>) (state_set r1) (maps r1 + 2)
      (om_target r1, om_depth r1) [UploadMatrix (view_matrix D b), UploadCamera (camera_data D b)]) g2 (immediate_op D (OpPerspective b) s) [(state_texture r, [], [])]"
    by (rule exI, rule changed_rel[OF r1, where p = "(pipe g1)\<lparr>p_matrix := view_matrix D b, p_camera := camera_data D b\<rparr>"])
      (use R in \<open>auto simp: perspective_agrees\<close>)
next
  assume "perspective_equal D (camera_state r) b"
  then have "cs_is_3D (camera_state r)" "cs_perspective (camera_state r) = b" using equal_same(5)[OF assms(2)] by blast+
  then show "immediate_op D (OpPerspective b) s = s" using relD(9)[OF assms(1), of PartCamera] by simp
qed

subsection \<open>Attachments\<close>

lemma targets_agrees: "agrees D c S (p\<lparr>p_targets := t\<rparr>) q = agrees D c S p q"
  by (cases q) auto

lemma setRenderAttachment_rel:
  assumes "rel D K g0 C r g s bs" "device_ok D"
  shows "\<exists>g' bs'. rel D K g0 C (setRenderAttachment D rt ds r) g' (immediate_op D (OpTargets rt ds) s) bs' \<and> carried r (setRenderAttachment D rt ds r) bs bs'"
proof -
  obtain r1 g1 where r1: "batchFlush D False r = (True, r1)" "rel D K g0 C r1 g1 s [(state_texture r, [], [])]" "same_settings r r1"
    using flush_rel[OF assms] by blast
  note R = relD[OF r1(2)]
  have eq: "setRenderAttachment D rt ds r = changed r1 (camera_state r1) (state_set r1) (maps r1) (rt, ds) [SetTargets rt ds]"
    using r1(1) by (simp add: setRenderAttachment_def flushed_def changed_def emit_def)
  have "rel D K g0 C (setRenderAttachment D rt ds r) (g1\<lparr>pipe := (pipe g1)\<lparr>p_targets := (rt, ds)\<rparr>\<rparr>) (immediate_op D (OpTargets rt ds) s) [(state_texture r, [], [])]"
    unfolding eq by (rule changed_rel[OF r1(2), where p = "(pipe g1)\<lparr>p_targets := (rt, ds)\<rparr>"]) (use R in \<open>auto simp: targets_agrees\<close>)
  moreover have "carried r (setRenderAttachment D rt ds r) bs [(state_texture r, [], [])]"
    unfolding eq using r1(3) by (simp add: carried_def same_settings_def)
  ultimately show ?thesis by blast
qed

text \<open>Clearing flushes and shows one more event.\<close>

lemma shown_rel:
  assumes "rel D K g0 C r g s bs" "idle bs" "gpu_step K c g = Some (g\<lparr>shown := shown g @ [e]\<rparr>)"
  shows "rel D K g0 C (emit c r) (g\<lparr>shown := shown g @ [e]\<rparr>) (s\<lparr>im_events := im_events s @ [e]\<rparr>) bs"
proof -
  note R = relD[OF assms(1)]
  have "shown g = im_events s" using R(13) idle_all[OF assms(2), of D "im_pipe s"] by simp
  then show ?thesis using assms(1,2) run_to_emit[OF R(1) assms(3)] idle_all[OF assms(2), of D "im_pipe s"] unfolding rel_def by simp
qed

lemma flushed_rel:
  assumes "rel D K g0 C r g s bs" "device_ok D"
  shows "\<exists>g'. rel D K g0 C (flushed D r) g' s [(state_texture r, [], [])] \<and> same_settings r (flushed D r)"
  using flush_rel[OF assms] by (auto simp: flushed_def)

lemma clearRenderTarget_rel:
  assumes "rel D K g0 C r g s bs" "device_ok D"
  shows "\<exists>g' bs'. rel D K g0 C (clearRenderTarget D c r) g' (immediate_op D (OpClear c) s) bs' \<and> carried r (clearRenderTarget D c r) bs bs'"
proof -
  obtain g1 where g1: "rel D K g0 C (flushed D r) g1 s [(state_texture r, [], [])]" "same_settings r (flushed D r)"
    using flushed_rel[OF assms] by blast
  have to: "fst (p_targets (im_pipe s)) = om_target (flushed D r)" using relD(12)[OF g1(1)] by simp
  show ?thesis
  proof (cases "om_target (flushed D r)")
    case None
    then have "clearRenderTarget D c r = flushed D r" "immediate_op D (OpClear c) s = s"
      using to by (simp_all add: clearRenderTarget_def show_event_def Let_def)
    then show ?thesis using g1 by (intro exI[of _ g1] exI[of _ "[(state_texture r, [], [])]"]) (simp add: carried_def same_settings_def)
  next
    case (Some v)
    then have "clearRenderTarget D c r = emit (ClearTarget v (color_units D c)) (flushed D r)" "immediate_op D (OpClear c) s = s\<lparr>im_events := im_events s @ [Cleared v (color_units D c)]\<rparr>"
      using to by (simp_all add: clearRenderTarget_def show_event_def Let_def)
    moreover have "rel D K g0 C (emit (ClearTarget v (color_units D c)) (flushed D r)) (g1\<lparr>shown := shown g1 @ [Cleared v (color_units D c)]\<rparr>)
        (s\<lparr>im_events := im_events s @ [Cleared v (color_units D c)]\<rparr>) [(state_texture r, [], [])]"
      by (rule shown_rel[OF g1(1)]) simp_all
    ultimately show ?thesis using g1(2)
      by (intro exI[of _ "g1\<lparr>shown := shown g1 @ [Cleared v (color_units D c)]\<rparr>"] exI[of _ "[(state_texture r, [], [])]"]) (simp add: carried_def same_settings_def)
  qed
qed

lemma clearDepthBuffer_rel:
  assumes "rel D K g0 C r g s bs" "device_ok D"
  shows "\<exists>g' bs'. rel D K g0 C (clearDepthBuffer D z r) g' (immediate_op D (OpClearDepth z) s) bs' \<and> carried r (clearDepthBuffer D z r) bs bs'"
proof -
  obtain g1 where g1: "rel D K g0 C (flushed D r) g1 s [(state_texture r, [], [])]" "same_settings r (flushed D r)"
    using flushed_rel[OF assms] by blast
  have to: "snd (p_targets (im_pipe s)) = om_depth (flushed D r)" using relD(12)[OF g1(1)] by simp
  show ?thesis
  proof (cases "om_depth (flushed D r)")
    case None
    then have "clearDepthBuffer D z r = flushed D r" "immediate_op D (OpClearDepth z) s = s"
      using to by (simp_all add: clearDepthBuffer_def show_event_def Let_def)
    then show ?thesis using g1 by (intro exI[of _ g1] exI[of _ "[(state_texture r, [], [])]"]) (simp add: carried_def same_settings_def)
  next
    case (Some v)
    then have "clearDepthBuffer D z r = emit (ClearDepth v z) (flushed D r)" "immediate_op D (OpClearDepth z) s = s\<lparr>im_events := im_events s @ [ClearedDepth v z]\<rparr>"
      using to by (simp_all add: clearDepthBuffer_def show_event_def Let_def)
    moreover have "rel D K g0 C (emit (ClearDepth v z) (flushed D r)) (g1\<lparr>shown := shown g1 @ [ClearedDepth v z]\<rparr>)
        (s\<lparr>im_events := im_events s @ [ClearedDepth v z]\<rparr>) [(state_texture r, [], [])]"
      by (rule shown_rel[OF g1(1)]) simp_all
    ultimately show ?thesis using g1(2)
      by (intro exI[of _ "g1\<lparr>shown := shown g1 @ [ClearedDepth v z]\<rparr>"] exI[of _ "[(state_texture r, [], [])]"]) (simp add: carried_def same_settings_def)
  qed
qed

subsection \<open>Textures\<close>

text \<open>The current command is that of the current texture.\<close>

definition at_texture :: "'f renderer \<Rightarrow> 'f immediate \<Rightarrow> 'f batch list \<Rightarrow> bool" where
  "at_texture r s bs \<longleftrightarrow> bs \<noteq> [] \<and> fst (last bs) = im_texture s \<and> state_texture r = im_texture s"

lemma carried_texture: "carried r r' bs bs' \<Longrightarrow> at_texture r s bs \<Longrightarrow> im_texture s' = im_texture s \<Longrightarrow> at_texture r' s' bs'"
  by (auto simp: carried_def at_texture_def)

lemma rel_texture [simp]: "rel D K g0 C r g (s\<lparr>im_texture := t\<rparr>) bs = rel D K g0 C r g s bs"
  "rel D K g0 C (r\<lparr>state_texture := t\<rparr>) g s bs = rel D K g0 C r g s bs" "rel D K g0 C (r\<lparr>state_dirty := d\<rparr>) g s bs = rel D K g0 C r g s bs"
  "rel D K g0 C (r\<lparr>batch_scope := d\<rparr>) g s bs = rel D K g0 C r g s bs"
  by (simp_all add: rel_def)

lemma new_command_rel:
  assumes "rel D K g0 C r g s bs" "length bs < command_capacity"
  shows "rel D K g0 C (r\<lparr>commands := commands r @ [\<lparr>cmd_texture = t, cmd_vertex_count = 0, cmd_index_count = 0\<rparr>]\<rparr>) g s (bs @ [(t, [], [])])"
proof -
  note R = relD[OF assms(1)]
  have "list_shows (r\<lparr>commands := commands r @ [\<lparr>cmd_texture = t, cmd_vertex_count = 0, cmd_index_count = 0\<rparr>]\<rparr>) (bs @ [(t, [], [])])"
    using R(2) assms(2) by (simp add: list_shows_def command_of_def batch_ok_def)
  moreover have "idle (bs @ [(t, [], [])]) = idle bs" by (auto simp: idle_def)
  ultimately show ?thesis using assms(1) unfolding rel_def by simp
qed

lemma setTexture_rel:
  assumes "rel D K g0 C r g s bs" "device_ok D"
  shows "\<exists>g' bs'. rel D K g0 C (setTexture D t r) g' (s\<lparr>im_texture := t\<rparr>) bs' \<and> at_texture (setTexture D t r) (s\<lparr>im_texture := t\<rparr>) bs'
    \<and> state_dirty (setTexture D t r) = state_dirty r \<and> batch_scope (setTexture D t r) = batch_scope r"
proof -
  note R = relD[OF assms(1)]
  have cs: "commands r = map command_of bs" by (rule list_showsD(1)[OF R(2)])
  have set: "(if is_same D (state_texture x) t then x else x\<lparr>state_texture := t\<rparr>) = x\<lparr>state_texture := t\<rparr>" for x :: "'a renderer"
    using same_texture[OF assms(2)] by simp
  show ?thesis
  proof (cases "commands r \<noteq> [] \<and> is_same D (cmd_texture (last (commands r))) t")
    case True
    then have bs: "bs \<noteq> []" using cs by simp
    then have "fst (last bs) = t" using True cs same_texture[OF assms(2)] by (simp add: last_map command_of_def)
    moreover have "setTexture D t r = r\<lparr>state_texture := t\<rparr>" using True set by (simp add: setTexture_def set_texture_with_def)
    ultimately show ?thesis using assms(1) bs by (intro exI[of _ g] exI[of _ bs]) (simp add: at_texture_def)
  next
    case False
    let ?c = "\<lambda>r. r\<lparr>commands := commands r @ [\<lparr>cmd_texture = t, cmd_vertex_count = 0, cmd_index_count = 0\<rparr>]\<rparr>"
    have len: "length bs \<le> command_capacity" using R(2) by (simp add: list_shows_def)
    have room: "room command_capacity (length (commands r)) < 1 \<longleftrightarrow> length bs = command_capacity"
      using cs len room_eq[of "length bs" command_capacity] by (auto simp: command_capacity_def draw_capacity_def)
    have eq: "setTexture D t r = (?c (if length bs = command_capacity then flushed D r else r))\<lparr>state_texture := t\<rparr>"
      using False room set unfolding setTexture_def set_texture_with_def Let_def by auto
    obtain g1 bs1 r1 where r1: "r1 = (if length bs = command_capacity then flushed D r else r)" "rel D K g0 C r1 g1 s bs1"
        "length bs1 < command_capacity" "state_dirty r1 = state_dirty r" "batch_scope r1 = batch_scope r"
    proof (cases "length bs = command_capacity")
      case True
      obtain g1 where "rel D K g0 C (flushed D r) g1 s [(state_texture r, [], [])]" "same_settings r (flushed D r)"
        using flushed_rel[OF assms] by blast
      then show ?thesis using that True by (simp add: same_settings_def command_capacity_def)
    qed (use that assms(1) len in simp)
    have "rel D K g0 C (?c r1) g1 s (bs1 @ [(t, [], [])])" by (rule new_command_rel[OF r1(2,3)])
    then show ?thesis unfolding eq r1(1)[symmetric] using r1(4,5)
      by (intro exI[of _ g1] exI[of _ "bs1 @ [(t, [], [])]"]) (simp add: at_texture_def)
  qed
qed

subsection \<open>Primitives\<close>

lemma write_at_fits:
  assumes "pos + length xs \<le> length data"
  obtains data' where "write_at pos xs data = Some data'" "length data' = length data" "take (pos + length xs) data' = take pos data @ xs"
  using assms by (simp add: write_at_def)

text \<open>Adding vertices and indices to the current command is drawing them at once.\<close>

lemma add_primitive_rel:
  assumes "rel D K g0 UNIV r g s bs" "at_texture r s bs"
    and "length vs + vertex_size r \<le> draw_capacity" "length ks + index_size r \<le> draw_capacity"
    and "3 dvd length ks" "\<forall>k \<in> set ks. k < length vs" "vs = [] \<longleftrightarrow> ks = []"
  shows "\<exists>r' bs'. add_primitive vs (of_nat (length vs)) (map of_nat ks) (of_nat (length ks)) r = Some r' \<and> rel D K g0 UNIV r' g (draw_at_once D vs ks s) bs'
    \<and> at_texture r' (draw_at_once D vs ks s) bs' \<and> state_dirty r' = state_dirty r \<and> batch_scope r' = batch_scope r"
proof -
  note R = relD[OF assms(1)]
  obtain bs0 t us js where bs: "bs = bs0 @ [(t, us, js)]" "t = im_texture s"
    using assms(2) by (cases bs rule: rev_cases) (auto simp: at_texture_def)
  have L: "commands r = map command_of bs0 @ [command_of (t, us, js)]" "length bs \<le> command_capacity"
      "length (vertex_data r) = draw_capacity" "length (index_data r) = draw_capacity"
      "vertex_size r = length (all_vertices bs)" "index_size r = length (all_indices bs)"
      "take (length (all_vertices bs)) (vertex_data r) = all_vertices bs" "take (length (all_indices bs)) (index_data r) = map of_nat (all_indices bs)"
      "\<forall>b \<in> set bs. batch_ok b"
    using R(2) bs(1) unfolding list_shows_def by auto
  let ?b = "(t, us @ vs, js @ map ((+) (length us)) ks)" and ?ws = "map ((+) (of_nat (length us))) (map of_nat ks) :: u16 list"
  obtain vd where vd: "write_at (vertex_size r) vs (vertex_data r) = Some vd" "length vd = draw_capacity"
      "take (vertex_size r + length vs) vd = take (vertex_size r) (vertex_data r) @ vs"
    using write_at_fits[of "vertex_size r" vs "vertex_data r"] assms(3) L(3) by (auto simp: add.commute)
  obtain idx where idx: "write_at (index_size r) ?ws (index_data r) = Some idx" "length idx = draw_capacity"
      "take (index_size r + length ?ws) idx = take (index_size r) (index_data r) @ ?ws"
    using write_at_fits[of "index_size r" ?ws "index_data r"] assms(4) L(4) by (auto simp: add.commute)
  have small: "unat (of_nat (length vs) :: u16) = length vs" "unat (of_nat (length ks) :: u16) = length ks"
    using assms(3,4) by (simp_all add: draw_capacity_def unat_of_nat take_bit_nat_eq_self)
  let ?r = "count_added (of_nat (length vs)) (of_nat (length ks)) (r\<lparr>vertex_data := vd, index_data := idx\<rparr>)"
  have add: "add_primitive vs (of_nat (length vs)) (map of_nat ks) (of_nat (length ks)) r = Some ?r"
    using vd(1) idx(1) L(1) by (simp add: add_primitive_def assert_that_def command_of_def)
  have words: "map of_nat (map ((+) (length us)) ks) = ?ws" by simp
  have ok: "batch_ok ?b"
  proof -
    have "batch_ok (t, us, js)" using L(9) bs(1) by simp
    then show ?thesis using assms(5-7) by (fastforce simp: batch_ok_def)
  qed
  have shows': "list_shows ?r (bs0 @ [?b])"
    unfolding list_shows_def
  proof (intro conjI)
    show "commands ?r = map command_of (bs0 @ [?b])" using L(1) by (simp add: count_added_def command_of_def Let_def)
    show "take (length (all_vertices (bs0 @ [?b]))) (vertex_data ?r) = all_vertices (bs0 @ [?b])"
      using vd(3) L(5,7) bs(1) by (simp add: count_added_def Let_def add.assoc)
    show "take (length (all_indices (bs0 @ [?b]))) (index_data ?r) = map of_nat (all_indices (bs0 @ [?b]))"
      using idx(3) L(6,8) bs(1) words by (simp add: count_added_def Let_def add.assoc)
    show "\<forall>b \<in> set (bs0 @ [?b]). batch_ok b" using L(9) bs(1) ok by simp
    show "vertex_size ?r = length (all_vertices (bs0 @ [?b]))" "index_size ?r = length (all_indices (bs0 @ [?b]))"
      using L(5,6) bs(1) small by (simp_all add: count_added_def Let_def)
    show "vertex_size ?r \<le> draw_capacity" "index_size ?r \<le> draw_capacity"
      using assms(3,4) small by (simp_all add: count_added_def Let_def)
    show "length (bs0 @ [?b]) \<le> command_capacity" using L(2) bs(1) by simp
  qed (simp_all add: count_added_def Let_def vd(2) idx(2))
  have nth: "(us @ vs) ! k = us ! k" if "k \<in> set js" for k
    using that L(9) bs(1) by (auto simp: batch_ok_def nth_append)
  have "3 dvd length js" using L(9) bs(1) by (simp add: batch_ok_def)
  then have "batch_events D (im_pipe s) ?b = batch_events D (im_pipe s) (t, us, js)
      @ map (\<lambda>(i, j, k). Triangle (pipe_for D t (im_pipe s)) (view_of D t) (sampler_of D t) (vs ! i) (vs ! j) (vs ! k)) (triangles ks)"
    using nth triangles_set[of _ _ _ js]
    by (auto simp: batch_events_def triangles_append triangles_map nth_append intro!: map_cong)
  then have pend: "pending D (im_pipe s) (bs0 @ [?b]) = pending D (im_pipe s) bs
      @ map (\<lambda>(i, j, k). Triangle (pipe_for D t (im_pipe s)) (view_of D t) (sampler_of D t) (vs ! i) (vs ! j) (vs ! k)) (triangles ks)"
    using bs(1) by simp
  have same: "camera_state ?r = camera_state r" "state_set ?r = state_set r" "calls ?r = calls r" "vertex_offset ?r = vertex_offset r"
      "index_offset ?r = index_offset r" "om_target ?r = om_target r" "om_depth ?r = om_depth r" "state_texture ?r = state_texture r"
      "state_dirty ?r = state_dirty r" "batch_scope ?r = batch_scope r"
    by (simp_all add: count_added_def Let_def)
  have "rel D K g0 UNIV ?r g (draw_at_once D vs ks s) (bs0 @ [?b])"
    using assms(1) shows' pend bs(2) unfolding rel_def run_to_def same by (auto simp: draw_at_once_def)
  moreover have "at_texture ?r (draw_at_once D vs ks s) (bs0 @ [?b])"
    using assms(2) bs(2) same(8) by (simp add: at_texture_def draw_at_once_def)
  ultimately show ?thesis using add same(9,10) by blast
qed

end
