(* ===== verification/RendererCorrect.thy ===== *)
theory RendererCorrect
  imports RendererDraws
begin

text \<open>
  The batching renderer shows exactly what drawing everything at once would show.
\<close>

subsection \<open>Draw calls\<close>

lemma reserve_rel:
  assumes "rel D K g0 C r g s bs" "device_ok D" "at_texture r s bs" "nv \<le> draw_capacity" "ni \<le> draw_capacity"
  shows "\<exists>r' g' bs'. reserve D nv ni r = (True, r') \<and> rel D K g0 C r' g' s bs' \<and> at_texture r' s bs'
    \<and> nv + vertex_size r' \<le> draw_capacity \<and> ni + index_size r' \<le> draw_capacity \<and> state_dirty r' = state_dirty r \<and> batch_scope r' = batch_scope r"
proof (cases "room draw_capacity (vertex_size r) < nv \<or> room draw_capacity (index_size r) < ni")
  case True
  obtain r1 g1 where r1: "batchFlush D False r = (True, r1)" "rel D K g0 C r1 g1 s [(state_texture r, [], [])]" "same_settings r r1"
    using flush_rel[OF assms(1,2)] by blast
  have "vertex_size r1 = 0" "index_size r1 = 0" using list_showsD(2,3)[OF relD(2)[OF r1(2)]] by simp_all
  moreover have "at_texture r1 s [(state_texture r, [], [])]" using r1(3) assms(3) by (simp add: at_texture_def same_settings_def)
  moreover have "reserve D nv ni r = (True, r1)" using True r1(1) by (simp add: reserve_def)
  ultimately show ?thesis using r1(2,3) assms(4,5)
    by (intro exI[of _ r1] exI[of _ g1] exI[of _ "[(state_texture r, [], [])]"]) (simp add: same_settings_def)
next
  case False
  have "vertex_size r \<le> draw_capacity" "index_size r \<le> draw_capacity" using relD(2)[OF assms(1)] by (simp_all add: list_shows_def)
  then show ?thesis using False assms(1,3)
    by (intro exI[of _ r] exI[of _ g] exI[of _ bs]) (auto simp: reserve_def room_eq)
qed

text \<open>A session state: everything is set, and the current command is that of the texture.\<close>

definition in_batch :: "'f render_ops \<Rightarrow> (handle \<Rightarrow> 'f pipeline \<Rightarrow> 'f pipeline) \<Rightarrow> 'f gpu \<Rightarrow> 'f renderer \<Rightarrow> 'f immediate \<Rightarrow> bool" where
  "in_batch D K g0 r s \<longleftrightarrow> (\<exists>g bs. rel D K g0 UNIV r g s bs \<and> at_texture r s bs) \<and> \<not> state_dirty r \<and> batch_scope r"

definition out_of_batch :: "'f render_ops \<Rightarrow> (handle \<Rightarrow> 'f pipeline \<Rightarrow> 'f pipeline) \<Rightarrow> 'f gpu \<Rightarrow> 'f renderer \<Rightarrow> 'f immediate \<Rightarrow> bool" where
  "out_of_batch D K g0 r s \<longleftrightarrow> (\<exists>g bs. rel D K g0 {} r g s bs \<and> idle bs) \<and> state_texture r = None \<and> im_texture s = None \<and> \<not> state_dirty r \<and> \<not> batch_scope r"

text \<open>A primitive: reserve, then add.\<close>

lemma primitive_rel:
  assumes "in_batch D K g0 r s" "device_ok D" "length vs \<le> draw_capacity" "length ks \<le> draw_capacity"
    and "3 dvd length ks" "\<forall>k \<in> set ks. k < length vs" "vs = [] \<longleftrightarrow> ks = []"
  shows "\<exists>r1 r'. reserve D (length vs) (length ks) r = (True, r1) \<and> commands r1 \<noteq> [] \<and> vertex_size r1 + length vs \<le> length (vertex_data r1)
    \<and> index_size r1 + length ks \<le> length (index_data r1)
    \<and> add_primitive vs (of_nat (length vs)) (map of_nat ks) (of_nat (length ks)) r1 = Some r' \<and> in_batch D K g0 r' (draw_at_once D vs ks s)"
proof -
  obtain g bs where r: "rel D K g0 UNIV r g s bs" "at_texture r s bs" "\<not> state_dirty r" "batch_scope r"
    using assms(1) by (auto simp: in_batch_def)
  obtain r1 g1 bs1 where r1: "reserve D (length vs) (length ks) r = (True, r1)" "rel D K g0 UNIV r1 g1 s bs1" "at_texture r1 s bs1"
      "length vs + vertex_size r1 \<le> draw_capacity" "length ks + index_size r1 \<le> draw_capacity" "state_dirty r1 = state_dirty r" "batch_scope r1 = batch_scope r"
    using reserve_rel[OF r(1) assms(2) r(2) assms(3,4)] by blast
  obtain r' bs' where r': "add_primitive vs (of_nat (length vs)) (map of_nat ks) (of_nat (length ks)) r1 = Some r'"
      "rel D K g0 UNIV r' g1 (draw_at_once D vs ks s) bs'" "at_texture r' (draw_at_once D vs ks s) bs'" "state_dirty r' = state_dirty r1"
      "batch_scope r' = batch_scope r1"
    using add_primitive_rel[OF r1(2-5) assms(5-7)] by blast
  have "list_shows r1 bs1" "bs1 \<noteq> []" using relD(2)[OF r1(2)] r1(3) by (simp_all add: at_texture_def)
  then have "commands r1 \<noteq> []" "length (vertex_data r1) = draw_capacity" "length (index_data r1) = draw_capacity" by (simp_all add: list_shows_def)
  then show ?thesis using r1(1,4-7) r' r(3,4) by (auto simp: in_batch_def add.commute)
qed

lemma drawTriangle_rel:
  assumes "in_batch D K g0 r s" "device_ok D"
  shows "\<exists>r'. drawTriangle D a b c r = Some (True, r') \<and> in_batch D K g0 r' (draw_at_once D [a, b, c] [0, 1, 2] s)"
proof -
  have "length [a, b, c] = 3" "length [0, 1, 2 :: nat] = 3" by simp_all
  note primitive_rel[OF assms, of "[a, b, c]" "[0, 1, 2]", unfolded this]
  then show ?thesis by (auto simp: drawTriangle_def draw_capacity_def)
qed

lemma drawQuad_rel:
  assumes "in_batch D K g0 r s" "device_ok D"
  shows "\<exists>r'. drawQuad D a b c d r = Some (True, r') \<and> in_batch D K g0 r' (draw_at_once D [a, b, c, d] [0, 1, 2, 0, 2, 3] s)"
proof -
  have "length [a, b, c, d] = 4" "length [0, 1, 2, 0, 2, 3 :: nat] = 6" by simp_all
  note primitive_rel[OF assms, of "[a, b, c, d]" "[0, 1, 2, 0, 2, 3]", unfolded this]
  then show ?thesis by (auto simp: drawQuad_def draw_capacity_def)
qed

lemma word_count: "n \<le> draw_capacity \<Longrightarrow> unat (of_nat n :: u16) = n"
  by (simp add: draw_capacity_def unat_of_nat take_bit_nat_eq_self)

lemma drawRaw_rel:
  assumes "in_batch D K g0 r s" "device_ok D" "length vs \<le> draw_capacity" "length is \<le> draw_capacity" "3 dvd length is"
    and "\<forall>k \<in> set is. unat k < length vs" "vs = [] \<longleftrightarrow> is = []"
  shows "\<exists>r'. drawRaw D vs (of_nat (length vs)) is (of_nat (length is)) r = Some (True, r') \<and> in_batch D K g0 r' (draw_at_once D vs (map unat is) s)"
proof -
  have "map of_nat (map unat is) = is" by (simp add: o_def)
  then show ?thesis
    using primitive_rel[OF assms(1-3), of "map unat is"] assms(3-7) word_count[OF assms(3)] word_count[OF assms(4)]
    by (auto simp: drawRaw_def assert_that_def)
qed

text \<open>A request, once its caller has written the vertices and indices, is a primitive.\<close>

lemma request_is_primitive:
  assumes "commands r \<noteq> []" "vertex_size r + length vs \<le> length (vertex_data r)" "index_size r + length is \<le> length (index_data r)"
  shows "write_requested (vertex_size r) (index_size r) vs (map ((+) (cmd_vertex_count (last (commands r)))) is)
      (count_added nv ni r) = add_primitive vs nv is ni r"
  using assms by (simp add: write_requested_def add_primitive_def write_at_def count_added_def assert_that_def Let_def)

definition request_ok :: "nat \<Rightarrow> nat \<Rightarrow> (u16 \<Rightarrow> 'f draw_vertex list \<times> u16 list) \<Rightarrow> bool" where
  "request_ok nv ni w \<longleftrightarrow> nv \<le> draw_capacity \<and> ni \<le> draw_capacity \<and> length (fst (w 0)) = nv \<and> length (snd (w 0)) = ni \<and> 3 dvd ni
     \<and> (\<forall>k \<in> set (snd (w 0)). unat k < nv) \<and> (nv = 0 \<longleftrightarrow> ni = 0) \<and> (\<forall>off. w off = (fst (w 0), map ((+) off) (snd (w 0))))"

lemma request_granted:
  assumes "in_batch D K g0 r s" "device_ok D" "request_ok nv ni w"
  shows "\<exists>vpos ipos off r1 r'. drawRequest D (of_nat nv) (of_nat ni) r = Some (Some (vpos, ipos, off), r1)
    \<and> write_requested vpos ipos (fst (w off)) (snd (w off)) r1 = Some r'
    \<and> in_batch D K g0 r' (immediate_op D (OpRequest nv ni w) s)"
proof -
  let ?vs = "fst (w 0)" and ?is = "snd (w 0)"
  have w: "length ?vs = nv" "length ?is = ni" "nv \<le> draw_capacity" "ni \<le> draw_capacity" "w off = (?vs, map ((+) off) ?is)" for off
    using assms(3) unfolding request_ok_def by blast+
  have ok: "3 dvd ni" "\<forall>k \<in> set ?is. unat k < nv" "nv = 0 \<longleftrightarrow> ni = 0"
    using assms(3) unfolding request_ok_def by blast+
  have "map of_nat (map unat ?is) = ?is" by (simp add: o_def)
  then obtain r1 r' where r1: "reserve D nv ni r = (True, r1)" "commands r1 \<noteq> []" "vertex_size r1 + nv \<le> length (vertex_data r1)"
      "index_size r1 + ni \<le> length (index_data r1)" "add_primitive ?vs (of_nat nv) ?is (of_nat ni) r1 = Some r'"
      "in_batch D K g0 r' (draw_at_once D ?vs (map unat ?is) s)"
    using primitive_rel[OF assms(1,2), of ?vs "map unat ?is"] w(1-4) ok by auto
  let ?off = "cmd_vertex_count (last (commands r1))"
  have "drawRequest D (of_nat nv) (of_nat ni) r
      = Some (Some (vertex_size r1, index_size r1, ?off), count_added (of_nat nv) (of_nat ni) r1)"
    using r1(1,2) w(3,4) by (simp add: drawRequest_def word_count assert_that_def)
  moreover have "write_requested (vertex_size r1) (index_size r1) (fst (w ?off)) (snd (w ?off)) (count_added (of_nat nv) (of_nat ni) r1)
      = Some r'"
    using request_is_primitive[OF r1(2), of ?vs ?is "of_nat nv" "of_nat ni"] r1(3-5) w(1,2) w(5)[of ?off] by simp
  ultimately show ?thesis using r1(6) by simp
qed

lemma request_rel:
  assumes "in_batch D K g0 r s" "device_ok D" "request_ok nv ni w"
  shows "\<exists>r'. run_op D (OpRequest nv ni w) r = Some r' \<and> in_batch D K g0 r' (immediate_op D (OpRequest nv ni w) s)"
  using request_granted[OF assms] by (auto simp: run_op_def)

subsection \<open>Beginning and ending\<close>

lemma rel_weaken: "rel D K g0 C r g s bs \<Longrightarrow> idle bs \<Longrightarrow> C' \<subseteq> C \<Longrightarrow> rel D K g0 C' r g s bs"
  unfolding rel_def by blast

lemma carried_fields: "carried r r' bs bs' \<Longrightarrow> state_texture r' = state_texture r \<and> state_dirty r' = state_dirty r \<and> batch_scope r' = batch_scope r"
  by (simp add: carried_def)

lemma carried_idle: "carried r r' bs bs' \<Longrightarrow> idle bs \<Longrightarrow> idle bs'"
  by (auto simp: carried_def)

lemma sampler_rel: "rel D K g0 C r g s bs \<Longrightarrow> rel D K g0 C (setSamplerState D st r) (g\<lparr>g_sampler := known_sampler D st\<rparr>) s bs"
  using run_to_emit[of K g0 r g "BindSampler (known_sampler D st)"] unfolding rel_def setSamplerState_def by simp

text \<open>Setting what is set already changes nothing in the immediate renderer.\<close>

lemma set_again:
  assumes "rel D K g0 C r g s bs"
  shows "immediate_op D (OpViewport (rs_viewport (state_set r))) s = s" "immediate_op D (OpScissor (rs_scissor_rect (state_set r))) s = s"
    "immediate_op D (OpVertexColorBlend (rs_vertex_color_blend (state_set r))) s = s" "immediate_op D (OpDepth (rs_depth (state_set r))) s = s"
    "immediate_op D (OpBlend (rs_blend (state_set r))) s = s"
    "immediate_op D (OpFog (rs_fog (state_set r)) (rs_fog_color (state_set r)) (rs_fog_near_or_density (state_set r)) (rs_fog_far (state_set r))) s = s"
    "cs_is_3D (camera_state r) \<Longrightarrow> immediate_op D (OpPerspective (cs_perspective (camera_state r))) s = s"
    "\<not> cs_is_3D (camera_state r) \<Longrightarrow> immediate_op D (OpOrtho (cs_ortho (camera_state r))) s = s"
proof -
  note a = relD(9)[OF assms]
  show "immediate_op D (OpViewport (rs_viewport (state_set r))) s = s" using a[of PartViewport] by simp
  show "immediate_op D (OpScissor (rs_scissor_rect (state_set r))) s = s" using a[of PartScissor] by simp
  show "immediate_op D (OpVertexColorBlend (rs_vertex_color_blend (state_set r))) s = s" using a[of PartPixel] by (simp add: prod_eq_iff)
  show "immediate_op D (OpDepth (rs_depth (state_set r))) s = s" using a[of PartDepth] by simp
  show "immediate_op D (OpBlend (rs_blend (state_set r))) s = s" using a[of PartBlend] by simp
  show "immediate_op D (OpFog (rs_fog (state_set r)) (rs_fog_color (state_set r)) (rs_fog_near_or_density (state_set r)) (rs_fog_far (state_set r))) s = s"
    using a[of PartFog] a[of PartPixel] by (simp add: prod_eq_iff)
  show "immediate_op D (OpPerspective (cs_perspective (camera_state r))) s = s" if "cs_is_3D (camera_state r)" using a[of PartCamera] that by simp
  show "immediate_op D (OpOrtho (cs_ortho (camera_state r))) s = s" if "\<not> cs_is_3D (camera_state r)" using a[of PartCamera] that by simp
qed

lemma alpha_rel:
  assumes "rel D K g0 C r g s bs" "idle bs" "state_dirty r"
  shows "\<exists>g'. rel D K g0 (insert PartAlpha (insert PartPixel C)) (bindTextureAlphaType D t r) g' s bs"
proof -
  note R = relD[OF assms(1)]
  let ?S = "(state_set r)\<lparr>rs_texture_alpha := alpha_type D t\<rparr>"
  let ?c = "BindPixelShader (rs_vertex_color_blend (state_set r)) (rs_fog (state_set r)) (alpha_type D t)"
  let ?p = "(pipe g)\<lparr>p_pixel_shader := (rs_vertex_color_blend (state_set r), rs_fog (state_set r), alpha_type D t)\<rparr>"
  have eq: "bindTextureAlphaType D t r = changed r (camera_state r) ?S (maps r) (om_target r, om_depth r) [?c]"
    using assms(3) by (simp add: bindTextureAlphaType_def changed_def emit_def Let_def)
  have ag: "agrees D (camera_state r) ?S ?p q" if "q \<in> insert PartAlpha (insert PartPixel C)" for q
    using that R(8)[of q] by (cases q) auto
  have "rel D K g0 (insert PartAlpha (insert PartPixel C)) (changed r (camera_state r) ?S (maps r) (om_target r, om_depth r) [?c]) (g\<lparr>pipe := ?p\<rparr>) s bs"
    by (rule changed_rel[OF assms(1,2)]) (use R ag in \<open>auto simp: agrees_alpha\<close>)
  then show ?thesis unfolding eq by blast
qed

text \<open>On the way from nothing set to everything set, with every setter made to act.\<close>

definition warming :: "'f render_ops \<Rightarrow> (handle \<Rightarrow> 'f pipeline \<Rightarrow> 'f pipeline) \<Rightarrow> 'f gpu \<Rightarrow> 'f immediate \<Rightarrow> handle option \<Rightarrow> bool
    \<Rightarrow> part set \<Rightarrow> 'f renderer \<Rightarrow> bool" where
  "warming D K g0 s t b C r \<longleftrightarrow> (\<exists>g bs. rel D K g0 C r g s bs \<and> idle bs) \<and> state_dirty r \<and> state_texture r = t \<and> batch_scope r = b"

lemma warm_viewport:
  assumes "warming D K g0 s t b C r" "device_ok D"
  shows "warming D K g0 s t b (insert PartViewport C) (setViewport D (rs_viewport (state_set r)) r)"
proof -
  obtain g bs where r: "rel D K g0 C r g s bs" "idle bs" "state_dirty r" "state_texture r = t" "batch_scope r = b"
    using assms(1) by (auto simp: warming_def)
  have "state_dirty r \<or> PartViewport \<in> C" using r(3) by blast
  from setViewport_rel[OF r(1) assms(2) this, of "rs_viewport (state_set r)"] obtain g' bs' where "rel D K g0 (insert PartViewport C) (setViewport D (rs_viewport (state_set r)) r) g' s bs'" "carried r (setViewport D (rs_viewport (state_set r)) r) bs bs'"
    unfolding set_again(1)[OF r(1)] by blast
  then show ?thesis using r(3-5) carried_idle[OF _ r(2)] carried_fields by (fastforce simp: warming_def)
qed

lemma warm_scissor:
  assumes "warming D K g0 s t b C r" "device_ok D"
  shows "warming D K g0 s t b (insert PartScissor C) (setScissorRect D (rs_scissor_rect (state_set r)) r)"
proof -
  obtain g bs where r: "rel D K g0 C r g s bs" "idle bs" "state_dirty r" "state_texture r = t" "batch_scope r = b"
    using assms(1) by (auto simp: warming_def)
  have "state_dirty r \<or> PartScissor \<in> C" using r(3) by blast
  from setScissorRect_rel[OF r(1) assms(2) this, of "rs_scissor_rect (state_set r)"] obtain g' bs' where "rel D K g0 (insert PartScissor C) (setScissorRect D (rs_scissor_rect (state_set r)) r) g' s bs'" "carried r (setScissorRect D (rs_scissor_rect (state_set r)) r) bs bs'"
    unfolding set_again(2)[OF r(1)] by blast
  then show ?thesis using r(3-5) carried_idle[OF _ r(2)] carried_fields by (fastforce simp: warming_def)
qed

lemma warm_pixel:
  assumes "warming D K g0 s t b C r" "device_ok D"
  shows "warming D K g0 s t b (insert PartPixel C) (setVertexColorBlendState D (rs_vertex_color_blend (state_set r)) r)"
proof -
  obtain g bs where r: "rel D K g0 C r g s bs" "idle bs" "state_dirty r" "state_texture r = t" "batch_scope r = b"
    using assms(1) by (auto simp: warming_def)
  have "state_dirty r \<or> PartPixel \<in> C" using r(3) by blast
  from setVertexColorBlendState_rel[OF r(1) assms(2) this, of "rs_vertex_color_blend (state_set r)"] obtain g' bs' where "rel D K g0 (insert PartPixel C) (setVertexColorBlendState D (rs_vertex_color_blend (state_set r)) r) g' s bs'" "carried r (setVertexColorBlendState D (rs_vertex_color_blend (state_set r)) r) bs bs'"
    unfolding set_again(3)[OF r(1)] by blast
  then show ?thesis using r(3-5) carried_idle[OF _ r(2)] carried_fields by (fastforce simp: warming_def)
qed

lemma warm_depth:
  assumes "warming D K g0 s t b C r" "device_ok D"
  shows "warming D K g0 s t b (insert PartDepth C) (setDepthState D (rs_depth (state_set r)) r)"
proof -
  obtain g bs where r: "rel D K g0 C r g s bs" "idle bs" "state_dirty r" "state_texture r = t" "batch_scope r = b"
    using assms(1) by (auto simp: warming_def)
  have "state_dirty r \<or> PartDepth \<in> C" using r(3) by blast
  from setDepthState_rel[OF r(1) assms(2) this, of "rs_depth (state_set r)"] obtain g' bs' where "rel D K g0 (insert PartDepth C) (setDepthState D (rs_depth (state_set r)) r) g' s bs'" "carried r (setDepthState D (rs_depth (state_set r)) r) bs bs'"
    unfolding set_again(4)[OF r(1)] by blast
  then show ?thesis using r(3-5) carried_idle[OF _ r(2)] carried_fields by (fastforce simp: warming_def)
qed

lemma warm_blend:
  assumes "warming D K g0 s t b C r" "device_ok D"
  shows "warming D K g0 s t b (insert PartBlend C) (setBlendState D (rs_blend (state_set r)) r)"
proof -
  obtain g bs where r: "rel D K g0 C r g s bs" "idle bs" "state_dirty r" "state_texture r = t" "batch_scope r = b"
    using assms(1) by (auto simp: warming_def)
  have "state_dirty r \<or> PartBlend \<in> C" using r(3) by blast
  from setBlendState_rel[OF r(1) assms(2) this, of "rs_blend (state_set r)"] obtain g' bs' where "rel D K g0 (insert PartBlend C) (setBlendState D (rs_blend (state_set r)) r) g' s bs'" "carried r (setBlendState D (rs_blend (state_set r)) r) bs bs'"
    unfolding set_again(5)[OF r(1)] by blast
  then show ?thesis using r(3-5) carried_idle[OF _ r(2)] carried_fields by (fastforce simp: warming_def)
qed

lemma warm_fog:
  assumes "warming D K g0 s t b C r" "device_ok D" "PartPixel \<in> C"
  shows "warming D K g0 s t b (insert PartFog C) (setFogState D (rs_fog (state_set r)) (rs_fog_color (state_set r)) (rs_fog_near_or_density (state_set r)) (rs_fog_far (state_set r)) r)"
proof -
  obtain g bs where r: "rel D K g0 C r g s bs" "idle bs" "state_dirty r" "state_texture r = t" "batch_scope r = b"
    using assms(1) by (auto simp: warming_def)
  have "state_dirty r \<or> PartFog \<in> C" using r(3) by blast
  from setFogState_rel[OF r(1) assms(2) this assms(3), of "rs_fog (state_set r)" "rs_fog_color (state_set r)" "rs_fog_near_or_density (state_set r)" "rs_fog_far (state_set r)"] obtain g' bs' where "rel D K g0 (insert PartFog C) (setFogState D (rs_fog (state_set r)) (rs_fog_color (state_set r)) (rs_fog_near_or_density (state_set r)) (rs_fog_far (state_set r)) r) g' s bs'" "carried r (setFogState D (rs_fog (state_set r)) (rs_fog_color (state_set r)) (rs_fog_near_or_density (state_set r)) (rs_fog_far (state_set r)) r) bs bs'"
    unfolding set_again(6)[OF r(1)] by blast
  then show ?thesis using r(3-5) carried_idle[OF _ r(2)] carried_fields by (fastforce simp: warming_def)
qed

lemma warm_perspective:
  assumes "warming D K g0 s t b C r" "device_ok D" "cs_is_3D (camera_state r)"
  shows "warming D K g0 s t b (insert PartCamera C) (setPerspective D (cs_perspective (camera_state r)) r)"
proof -
  obtain g bs where r: "rel D K g0 C r g s bs" "idle bs" "state_dirty r" "state_texture r = t" "batch_scope r = b"
    using assms(1) by (auto simp: warming_def)
  have "state_dirty r \<or> PartCamera \<in> C" using r(3) by blast
  from setPerspective_rel[OF r(1) assms(2) this, of "cs_perspective (camera_state r)"] obtain g' bs' where "rel D K g0 (insert PartCamera C) (setPerspective D (cs_perspective (camera_state r)) r) g' s bs'" "carried r (setPerspective D (cs_perspective (camera_state r)) r) bs bs'"
    unfolding set_again(7)[OF r(1) assms(3)] by blast
  then show ?thesis using r(3-5) carried_idle[OF _ r(2)] carried_fields by (fastforce simp: warming_def)
qed

lemma warm_ortho:
  assumes "warming D K g0 s t b C r" "device_ok D" "\<not> cs_is_3D (camera_state r)"
  shows "warming D K g0 s t b (insert PartCamera C) (setOrtho D (cs_ortho (camera_state r)) r)"
proof -
  obtain g bs where r: "rel D K g0 C r g s bs" "idle bs" "state_dirty r" "state_texture r = t" "batch_scope r = b"
    using assms(1) by (auto simp: warming_def)
  have "state_dirty r \<or> PartCamera \<in> C" using r(3) by blast
  from setOrtho_rel[OF r(1) assms(2) this, of "cs_ortho (camera_state r)"] obtain g' bs' where "rel D K g0 (insert PartCamera C) (setOrtho D (cs_ortho (camera_state r)) r) g' s bs'" "carried r (setOrtho D (cs_ortho (camera_state r)) r) bs bs'"
    unfolding set_again(8)[OF r(1) assms(3)] by blast
  then show ?thesis using r(3-5) carried_idle[OF _ r(2)] carried_fields by (fastforce simp: warming_def)
qed

lemma warm_sampler: "warming D K g0 s t b C r \<Longrightarrow> warming D K g0 s t b C (setSamplerState D st r)"
  using sampler_rel by (fastforce simp: warming_def setSamplerState_def)

lemma init_rel:
  assumes "rel D K g0 {} r g s bs" "idle bs" "device_ok D" "state_texture r = im_texture s"
  shows "\<exists>g' bs'. rel D K g0 UNIV (initState D r) g' s bs' \<and> at_texture (initState D r) s bs' \<and> \<not> state_dirty (initState D r)
    \<and> batch_scope (initState D r) = batch_scope r"
proof -
  let ?W = "warming D K g0 s (im_texture s) (batch_scope r)"
  let ?C = "{PartCamera, PartViewport, PartScissor, PartPixel, PartFog, PartDepth, PartBlend}"
  define r0 where "r0 = r\<lparr>state_dirty := True\<rparr>"
  define r1 where "r1 = (if \<not> cs_is_3D (camera_state r0) then setOrtho D (cs_ortho (camera_state r0)) r0 else setPerspective D (cs_perspective (camera_state r0)) r0)"
  define r2 where "r2 = setViewport D (rs_viewport (state_set r1)) r1"
  define r3 where "r3 = setScissorRect D (rs_scissor_rect (state_set r2)) r2"
  define r4 where "r4 = setVertexColorBlendState D (rs_vertex_color_blend (state_set r3)) r3"
  define r5 where "r5 = setSamplerState D (rs_sampler (state_set r4)) r4"
  define r6 where "r6 = setFogState D (rs_fog (state_set r5)) (rs_fog_color (state_set r5)) (rs_fog_near_or_density (state_set r5)) (rs_fog_far (state_set r5)) r5"
  define r7 where "r7 = setDepthState D (rs_depth (state_set r6)) r6"
  define r8 where "r8 = setBlendState D (rs_blend (state_set r7)) r7"
  define r9 where "r9 = setTexture D (state_texture r8) r8"
  have whole: "initState D r = (bindTextureAlphaType D (state_texture r9) r9)\<lparr>state_dirty := False\<rparr>"
    unfolding initState_def Let_def r9_def r8_def r7_def r6_def r5_def r4_def r3_def r2_def r1_def r0_def ..
  have "?W {} r0" using assms(1,2,4) by (auto simp: warming_def r0_def)
  then have "?W (insert PartCamera {}) r1"
    unfolding r1_def using warm_ortho[OF _ assms(3)] warm_perspective[OF _ assms(3)] by (cases "cs_is_3D (camera_state r0)") auto
  from warm_scissor[OF warm_viewport[OF this assms(3)] assms(3), folded r2_def, folded r3_def]
  have "?W {PartScissor, PartViewport, PartCamera} r3" .
  from warm_sampler[OF warm_pixel[OF this assms(3)], folded r4_def, of "rs_sampler (state_set r4)", folded r5_def]
  have "?W {PartPixel, PartScissor, PartViewport, PartCamera} r5" .
  from warm_fog[OF this assms(3), folded r6_def] have "?W {PartFog, PartPixel, PartScissor, PartViewport, PartCamera} r6" by simp
  from warm_blend[OF warm_depth[OF this assms(3)] assms(3), folded r7_def, folded r8_def]
  have "?W {PartBlend, PartDepth, PartFog, PartPixel, PartScissor, PartViewport, PartCamera} r8" .
  then obtain g8 bs8 where r8: "rel D K g0 {PartBlend, PartDepth, PartFog, PartPixel, PartScissor, PartViewport, PartCamera} r8 g8 s bs8" "state_dirty r8"
      "state_texture r8 = im_texture s" "batch_scope r8 = batch_scope r"
    by (auto simp: warming_def)
  have "s\<lparr>im_texture := im_texture s\<rparr> = s" by simp
  with setTexture_rel[OF r8(1) assms(3), of "state_texture r8", folded r9_def] r8(3)
  obtain g9 bs9 where r9: "rel D K g0 {PartBlend, PartDepth, PartFog, PartPixel, PartScissor, PartViewport, PartCamera} r9 g9 s bs9" "at_texture r9 s bs9"
      "state_dirty r9" "batch_scope r9 = batch_scope r"
    using r8(2,4) by auto
  have "idle bs9" using relD(14)[OF r9(1)] by auto
  from alpha_rel[OF r9(1) this r9(3), of "state_texture r9"]
  obtain g10 where g10: "rel D K g0 (insert PartAlpha (insert PartPixel {PartBlend, PartDepth, PartFog, PartPixel, PartScissor, PartViewport, PartCamera}))
      (bindTextureAlphaType D (state_texture r9) r9) g10 s bs9" by blast
  have "insert PartAlpha (insert PartPixel {PartBlend, PartDepth, PartFog, PartPixel, PartScissor, PartViewport, PartCamera}) = UNIV"
    by (auto intro: part.exhaust)
  then have "rel D K g0 UNIV (initState D r) g10 s bs9" using g10 unfolding whole by simp
  moreover have "at_texture (initState D r) s bs9" "batch_scope (initState D r) = batch_scope r"
    using r9(2,4) unfolding whole by (simp_all add: at_texture_def bindTextureAlphaType_def Let_def)
  ultimately show ?thesis unfolding whole by auto
qed

end
