(* ===== verification/RendererSession.thy ===== *)
theory RendererSession
  imports RendererCorrect
begin

text \<open>
  Whole sessions: batches begun and ended, with anything set and drawn in them.
\<close>

subsection \<open>Beginning and ending\<close>

lemma pipeline_bound: "rel D K g0 C r g s bs \<Longrightarrow> rel D K g0 C (emit BindPipeline r) g s bs"
  using run_to_emit[of K g0 r g BindPipeline g] unfolding rel_def by simp

lemma begin_rel:
  assumes "rel D K g0 {} r g s bs" "idle bs" "device_ok D" "state_texture r = im_texture s"
  shows "in_batch D K g0 (snd (beginBatch D r)) s"
proof -
  obtain g' bs' where "rel D K g0 UNIV (initState D (emit BindPipeline r)) g' s bs'" "at_texture (initState D (emit BindPipeline r)) s bs'"
      "\<not> state_dirty (initState D (emit BindPipeline r))"
    using init_rel[OF pipeline_bound[OF assms(1)] assms(2,3)] assms(4) by auto
  then show ?thesis by (auto simp: in_batch_def beginBatch_def at_texture_def)
qed

lemma end_rel:
  assumes "in_batch D K g0 r s" "device_ok D"
  shows "\<exists>r'. endBatch D r = (True, r') \<and> out_of_batch D K g0 r' (s\<lparr>im_texture := None\<rparr>)"
proof -
  obtain g bs where r: "rel D K g0 UNIV r g s bs" "\<not> state_dirty r" using assms(1) by (auto simp: in_batch_def)
  then have "rel D K g0 UNIV (r\<lparr>batch_scope := False\<rparr>) g s bs" by simp
  from flush_rel[OF this assms(2)] obtain r1 g1 where r1: "batchFlush D False (r\<lparr>batch_scope := False\<rparr>) = (True, r1)"
      "rel D K g0 UNIV r1 g1 s [(state_texture r, [], [])]" "same_settings (r\<lparr>batch_scope := False\<rparr>) r1" by auto
  have "rel D K g0 {} r1 g1 s [(state_texture r, [], [])]" by (rule rel_weaken[OF r1(2)]) simp_all
  then have "out_of_batch D K g0 (r1\<lparr>state_texture := None\<rparr>) (s\<lparr>im_texture := None\<rparr>)"
    using r(2) r1(3) unfolding out_of_batch_def same_settings_def
    by (intro conjI exI[of _ g1] exI[of _ "[(state_texture r, [], [])]"]) simp_all
  then show ?thesis using r1(1) by (simp add: endBatch_def)
qed

lemma model_rel:
  assumes "in_batch D K g0 r s" "device_ok D"
  shows "\<exists>r'. drawModel D (Some m) r = Some (True, r') \<and> in_batch D K g0 r' (immediate_op D (OpModel m) s)"
proof -
  obtain r1 where r1: "endBatch D r = (True, r1)" "out_of_batch D K g0 r1 (s\<lparr>im_texture := None\<rparr>)" using end_rel[OF assms] by blast
  then obtain g1 bs where g1: "rel D K g0 {} r1 g1 (s\<lparr>im_texture := None\<rparr>) bs" "idle bs" "state_texture r1 = None"
    by (auto simp: out_of_batch_def)
  note R = relD[OF g1(1)]
  let ?c = "DrawModel m (rs_fog (state_set r1))"
  let ?g = "g1\<lparr>shown := shown g1 @ [ModelDrawn m (rs_fog (state_set r1))],
      pipe := (K m (pipe g1))\<lparr>p_camera := p_camera (pipe g1), p_targets := p_targets (pipe g1)\<rparr>\<rparr>"
  have fog: "p_vertex_shader (im_pipe s) = rs_fog (state_set r1)" using R(9)[of PartFog] by simp
  have "shown g1 = im_events s" using R(13) idle_all[OF g1(2), of D "im_pipe s"] by simp
  moreover have "run_to K g0 (emit ?c r1) ?g" by (rule run_to_emit[OF R(1)]) simp
  ultimately have "rel D K g0 {} (emit ?c r1) ?g (immediate_op D (OpModel m) s) bs"
    using g1(1,2) idle_all[OF g1(2), of D "im_pipe s"] fog unfolding rel_def by (simp add: show_event_def)
  then have "in_batch D K g0 (snd (beginBatch D (emit ?c r1))) (immediate_op D (OpModel m) s)"
    by (rule begin_rel[OF _ g1(2) assms(2)]) (simp add: g1(3) show_event_def)
  then show ?thesis using r1(1) by (simp add: drawModel_def beginBatch_def)
qed

subsection \<open>Operations in a batch\<close>

fun op_ok :: "'f render_op \<Rightarrow> bool" where
  "op_ok OpBegin = False"
| "op_ok OpEnd = False"
| "op_ok (OpRaw vs is) = (length vs \<le> draw_capacity \<and> length is \<le> draw_capacity \<and> 3 dvd length is
     \<and> (\<forall>k \<in> set is. unat k < length vs) \<and> (vs = [] \<longleftrightarrow> is = []))"
| "op_ok (OpRequest nv ni w) = request_ok nv ni w"
| "op_ok _ = True"

lemma carried_in_batch:
  assumes "\<And>g bs. rel D K g0 UNIV r g s bs \<Longrightarrow> \<exists>g' bs'. rel D K g0 UNIV r' g' s' bs' \<and> carried r r' bs bs'"
    and "in_batch D K g0 r s" "im_texture s' = im_texture s"
  shows "in_batch D K g0 r' s'"
proof -
  obtain g bs where r: "rel D K g0 UNIV r g s bs" "at_texture r s bs" "\<not> state_dirty r" "batch_scope r"
    using assms(2) by (auto simp: in_batch_def)
  obtain g' bs' where r': "rel D K g0 UNIV r' g' s' bs'" "carried r r' bs bs'" using assms(1)[OF r(1)] by blast
  show ?thesis
    unfolding in_batch_def using r' carried_texture[OF r'(2) r(2) assms(3)] carried_fields[OF r'(2)] r(3,4) by blast
qed

lemma show_event_texture [simp]: "im_texture (show_event e s) = im_texture s"
  by (simp add: show_event_def split: option.split)

lemma texture_in_batch: "in_batch D K g0 r s \<Longrightarrow> device_ok D \<Longrightarrow> in_batch D K g0 (setTexture D t r) (s\<lparr>im_texture := t\<rparr>)"
  using setTexture_rel[of D K g0 UNIV r _ s _ t] by (fastforce simp: in_batch_def)

lemma viewport_and_scissor_in_batch:
  assumes "in_batch D K g0 r s" "device_ok D"
  shows "in_batch D K g0 (setViewportAndScissorRect D r) s"
proof -
  obtain g bs where r: "rel D K g0 UNIV r g s bs" "at_texture r s bs" "\<not> state_dirty r" "batch_scope r"
    using assms(1) by (auto simp: in_batch_def)
  let ?r = "r\<lparr>state_dirty := True\<rparr>"
  have r0: "rel D K g0 UNIV ?r g s bs" using r(1) by simp
  obtain g1 bs1 where r1: "rel D K g0 UNIV (setViewport D (rs_viewport (state_set ?r)) ?r) g1 s bs1"
      "carried ?r (setViewport D (rs_viewport (state_set ?r)) ?r) bs bs1"
    using setViewport_rel[OF r0 assms(2), of "rs_viewport (state_set ?r)"] unfolding set_again(1)[OF r0] by auto
  let ?r1 = "setViewport D (rs_viewport (state_set ?r)) ?r"
  obtain g2 bs2 where r2: "rel D K g0 UNIV (setScissorRect D (rs_scissor_rect (state_set ?r1)) ?r1) g2 s bs2"
      "carried ?r1 (setScissorRect D (rs_scissor_rect (state_set ?r1)) ?r1) bs1 bs2"
    using setScissorRect_rel[OF r1(1) assms(2), of "rs_scissor_rect (state_set ?r1)"] unfolding set_again(2)[OF r1(1)] by auto
  let ?r2 = "setScissorRect D (rs_scissor_rect (state_set ?r1)) ?r1"
  have c: "carried ?r ?r2 bs bs2" by (rule carried_trans[OF r1(2) r2(2)])
  have "at_texture ?r s bs" using r(2) by (simp add: at_texture_def)
  from carried_texture[OF c this] have "at_texture ?r2 s bs2" by simp
  then have "at_texture (?r2\<lparr>state_dirty := False\<rparr>) s bs2" by (simp add: at_texture_def)
  moreover have "setViewportAndScissorRect D r = ?r2\<lparr>state_dirty := False\<rparr>" by (simp add: setViewportAndScissorRect_def Let_def)
  moreover have "rel D K g0 UNIV (?r2\<lparr>state_dirty := False\<rparr>) g2 s bs2" using r2(1) by simp
  moreover have "batch_scope (?r2\<lparr>state_dirty := False\<rparr>)" using carried_fields[OF c] r(4) by simp
  ultimately show ?thesis unfolding in_batch_def by auto
qed

lemma flush_in_batch:
  assumes "in_batch D K g0 r s" "device_ok D"
  shows "in_batch D K g0 (flushed D r) s"
proof (rule carried_in_batch[OF _ assms(1) refl])
  fix g bs assume "rel D K g0 UNIV r g s bs"
  from flushed_rel[OF this assms(2)]
  show "\<exists>g' bs'. rel D K g0 UNIV (flushed D r) g' s bs' \<and> carried r (flushed D r) bs bs'"
    by (auto simp: carried_def same_settings_def)
qed

lemma setter_in_batch:
  assumes "in_batch D K g0 r s" "im_texture s' = im_texture s"
    and "\<And>g bs. rel D K g0 UNIV r g s bs \<Longrightarrow> \<exists>g' bs'. rel D K g0 (insert part UNIV) r' g' s' bs' \<and> carried r r' bs bs'"
  shows "in_batch D K g0 r' s'"
  using carried_in_batch[OF _ assms(1,2)] assms(3) by simp

lemma op_in_batch:
  assumes "in_batch D K g0 r s" "device_ok D" "op_ok x"
  shows "\<exists>r'. run_op D x r = Some r' \<and> in_batch D K g0 r' (immediate_op D x s)"
proof (cases x)
  case OpBegin then show ?thesis using assms(3) by simp
next
  case OpEnd then show ?thesis using assms(3) by simp
next
  case OpFlush
  then show ?thesis using flush_in_batch[OF assms(1,2)] by (simp add: run_op_def)
next
  case (OpClear c)
  show ?thesis unfolding OpClear run_op_def
    using carried_in_batch[OF clearRenderTarget_rel[OF _ assms(2)] assms(1)] by simp
next
  case (OpClearDepth z)
  show ?thesis unfolding OpClearDepth run_op_def
    using carried_in_batch[OF clearDepthBuffer_rel[OF _ assms(2)] assms(1)] by simp
next
  case (OpTargets rt ds)
  show ?thesis unfolding OpTargets run_op_def
    using carried_in_batch[OF setRenderAttachment_rel[OF _ assms(2)] assms(1)] by simp
next
  case (OpOrtho b)
  have "in_batch D K g0 (setOrtho D b r) (immediate_op D (OpOrtho b) s)"
    by (rule setter_in_batch[OF assms(1)], simp, erule setOrtho_rel[OF _ assms(2)], simp)
  then show ?thesis by (simp add: OpOrtho run_op_def)
next
  case (OpPerspective p)
  have "in_batch D K g0 (setPerspective D p r) (immediate_op D (OpPerspective p) s)"
    by (rule setter_in_batch[OF assms(1)], simp, erule setPerspective_rel[OF _ assms(2)], simp)
  then show ?thesis by (simp add: OpPerspective run_op_def)
next
  case (OpViewport b)
  have "in_batch D K g0 (setViewport D b r) (immediate_op D (OpViewport b) s)"
    by (rule setter_in_batch[OF assms(1)], simp, erule setViewport_rel[OF _ assms(2)], simp)
  then show ?thesis by (simp add: OpViewport run_op_def)
next
  case (OpScissor b)
  have "in_batch D K g0 (setScissorRect D b r) (immediate_op D (OpScissor b) s)"
    by (rule setter_in_batch[OF assms(1)], simp, erule setScissorRect_rel[OF _ assms(2)], simp)
  then show ?thesis by (simp add: OpScissor run_op_def)
next
  case OpViewportAndScissor
  then show ?thesis using viewport_and_scissor_in_batch[OF assms(1,2)] by (simp add: run_op_def)
next
  case (OpVertexColorBlend b)
  have "in_batch D K g0 (setVertexColorBlendState D b r) (immediate_op D (OpVertexColorBlend b) s)"
    by (rule setter_in_batch[OF assms(1)], simp, erule setVertexColorBlendState_rel[OF _ assms(2)], simp)
  then show ?thesis by (simp add: OpVertexColorBlend run_op_def)
next
  case (OpFog f c n m)
  have "in_batch D K g0 (setFogState D f c n m r) (immediate_op D (OpFog f c n m) s)"
    by (rule setter_in_batch[OF assms(1)], simp, erule setFogState_rel[OF _ assms(2)], simp_all)
  then show ?thesis by (simp add: OpFog run_op_def)
next
  case (OpDepth b)
  have "in_batch D K g0 (setDepthState D b r) (immediate_op D (OpDepth b) s)"
    by (rule setter_in_batch[OF assms(1)], simp, erule setDepthState_rel[OF _ assms(2)], simp)
  then show ?thesis by (simp add: OpDepth run_op_def)
next
  case (OpBlend b)
  have "in_batch D K g0 (setBlendState D b r) (immediate_op D (OpBlend b) s)"
    by (rule setter_in_batch[OF assms(1)], simp, erule setBlendState_rel[OF _ assms(2)], simp)
  then show ?thesis by (simp add: OpBlend run_op_def)
next
  case (OpTexture t)
  then show ?thesis using texture_in_batch[OF assms(1,2)] by (simp add: run_op_def)
next
  case (OpTriangle a b c)
  then show ?thesis using drawTriangle_rel[OF assms(1,2)] by (fastforce simp: run_op_def)
next
  case (OpQuad a b c d)
  then show ?thesis using drawQuad_rel[OF assms(1,2)] by (fastforce simp: run_op_def)
next
  case (OpRaw vs "is")
  then show ?thesis using drawRaw_rel[OF assms(1,2), of vs "is"] assms(3) by (fastforce simp: run_op_def)
next
  case (OpRequest nv ni w)
  then show ?thesis using request_rel[OF assms(1,2)] assms(3) by (simp only: op_ok.simps)
next
  case (OpModel m)
  then show ?thesis using model_rel[OF assms(1,2)] by (fastforce simp: run_op_def)
qed

subsection \<open>Sessions\<close>

text \<open>Batches are begun and ended alternately, and everything else happens inside them.\<close>

fun session :: "bool \<Rightarrow> 'f render_op list \<Rightarrow> bool" where
  "session b [] = True"
| "session b (OpBegin # xs) = (\<not> b \<and> session True xs)"
| "session b (OpEnd # xs) = (b \<and> session False xs)"
| "session b (x # xs) = (b \<and> op_ok x \<and> session b xs)"

lemma session_op: "op_ok x \<Longrightarrow> session b (x # xs) \<longleftrightarrow> b \<and> session b xs"
  by (cases x) auto

lemma session_insert:
  "session b (pre @ [OpEnd]) \<Longrightarrow> op_ok x \<Longrightarrow> session b (pre @ [x, OpEnd])"
proof (induction pre arbitrary: b)
  case (Cons y pre)
  then show ?case by (cases y) auto
qed (simp add: session_op)

text \<open>What the immediate renderer starts from: the states a new renderer has recorded.\<close>

definition immediate_start :: "'f render_ops \<Rightarrow> 'f gpu \<Rightarrow> 'f immediate" where
  "immediate_start D g = (let S = new_state_set D in
     \<lparr>im_pipe = (pipe g)\<lparr>p_matrix := ortho_matrix D (ortho_data (cs_ortho (new_camera_state D))),
        p_fog_data := fog_data D (rs_fog_color S) (rs_fog_near_or_density S) (rs_fog_far S),
        p_viewport := viewport_data D (rs_viewport S), p_scissor := scissor_data D (rs_scissor_rect S), p_vertex_shader := rs_fog S,
        p_pixel_shader := (rs_vertex_color_blend S, rs_fog S, rs_texture_alpha S), p_depth := rs_depth S, p_blend := rs_blend S\<rparr>,
      im_texture = None, im_events = shown g\<rparr>)"

text \<open>A device whose buffers have not been used and that has no attachments.\<close>

definition fresh_gpu :: "'f gpu \<Rightarrow> bool" where
  "fresh_gpu g \<longleftrightarrow> used_vertices g = {} \<and> used_indices g = {} \<and> p_targets (pipe g) = (None, None)"

lemma start_out: "fresh_gpu g0 \<Longrightarrow> out_of_batch D K g0 (new_renderer D) (immediate_start D g0)"
proof -
  assume g: "fresh_gpu g0"
  have ag: "agrees D (camera_state (new_renderer D)) (state_set (new_renderer D)) (im_pipe (immediate_start D g0)) q" for q
    by (cases q) (simp_all add: new_renderer_def immediate_start_def Let_def new_camera_state_def)
  have "list_shows (new_renderer D) []"
    by (simp add: list_shows_def new_renderer_def Let_def)
  then have "rel D K g0 {} (new_renderer D) g0 (immediate_start D g0) []"
    using g ag unfolding rel_def
    by (simp add: run_to_def new_renderer_def Let_def fresh_gpu_def new_state_set_def immediate_start_def)
  moreover have "idle []" by simp
  moreover have "state_texture (new_renderer D) = None" "\<not> state_dirty (new_renderer D)" "\<not> batch_scope (new_renderer D)" "im_texture (immediate_start D g0) = None"
    by (simp_all add: new_renderer_def immediate_start_def Let_def)
  ultimately show ?thesis unfolding out_of_batch_def by (intro exI[of _ g0] exI[of _ "[]"] conjI) simp_all
qed

lemma session_rel:
  assumes "device_ok D" "session b xs" "if b then in_batch D K g0 r s else out_of_batch D K g0 r s"
  shows "\<exists>r' b'. run_ops D xs r = Some r' \<and> (if b' then in_batch D K g0 r' (immediate_ops D xs s) else out_of_batch D K g0 r' (immediate_ops D xs s))
    \<and> (xs \<noteq> [] \<and> last xs = OpEnd \<longrightarrow> \<not> b') \<and> (\<forall>ys. session b (xs @ ys) \<longrightarrow> session b' ys)"
  using assms(2,3)
proof (induction xs arbitrary: b r s)
  case (Cons x xs)
  have "\<exists>r1 b1. run_op D x r = Some r1 \<and> session b1 xs \<and> (if b1 then in_batch D K g0 r1 (immediate_op D x s) else out_of_batch D K g0 r1 (immediate_op D x s))
      \<and> (x = OpEnd \<longrightarrow> \<not> b1) \<and> (\<forall>ys. session b (x # ys) \<longrightarrow> session b1 ys)"
  proof (cases "op_ok x")
    case True
    then have "b" "session b xs" "x \<noteq> OpEnd" using Cons.prems(1) session_op[OF True] by auto
    moreover from this have "in_batch D K g0 r s" using Cons.prems(2) by simp
    from op_in_batch[OF this assms(1) True] obtain r1 where "run_op D x r = Some r1" "in_batch D K g0 r1 (immediate_op D x s)" by blast
    ultimately show ?thesis using session_op[OF True] by (intro exI[of _ r1] exI[of _ b]) simp
  next
    case False
    show ?thesis
    proof (cases "x = OpBegin")
      case True
      then have b: "\<not> b" "session True xs" using Cons.prems(1) by auto
      then obtain g bs where "rel D K g0 {} r g s bs" "idle bs" "state_texture r = im_texture s"
        using Cons.prems(2) by (auto simp: out_of_batch_def)
      then have "in_batch D K g0 (snd (beginBatch D r)) s" using begin_rel assms(1) by blast
      then show ?thesis using True b(2) by (intro exI[of _ "snd (beginBatch D r)"] exI[of _ True]) (simp add: run_op_def)
    next
      case no: False
      have "session b [x]" using Cons.prems(1) by (cases x) auto
      then have "x = OpEnd" using False no by (cases x) auto
      then have b: "b" "session False xs" using Cons.prems(1) by auto
      then have "in_batch D K g0 r s" using Cons.prems(2) by simp
      from end_rel[OF this assms(1)] obtain r1 where "endBatch D r = (True, r1)" "out_of_batch D K g0 r1 (s\<lparr>im_texture := None\<rparr>)" by blast
      then show ?thesis using \<open>x = OpEnd\<close> b(2) by (intro exI[of _ r1] exI[of _ False]) (simp add: run_op_def)
    qed
  qed
  then obtain r1 b1 where r1: "run_op D x r = Some r1" "session b1 xs"
      "if b1 then in_batch D K g0 r1 (immediate_op D x s) else out_of_batch D K g0 r1 (immediate_op D x s)" "x = OpEnd \<longrightarrow> \<not> b1"
      "\<forall>ys. session b (x # ys) \<longrightarrow> session b1 ys" by blast
  show ?case
  proof (cases "xs = []")
    case True
    then show ?thesis using r1 by (intro exI[of _ r1] exI[of _ b1]) (simp add: immediate_ops_def)
  next
    case False
    have "immediate_ops D (x # xs) s = immediate_ops D xs (immediate_op D x s)" by (simp add: immediate_ops_def)
    moreover have "run_ops D (x # xs) r = run_ops D xs r1" "last (x # xs) = last xs" using r1(1) False by simp_all
    ultimately show ?thesis using Cons.IH[OF r1(2,3)] False r1(5) by (simp only: list.simps append_Cons not_False_eq_True) blast
  qed
next
  case Nil
  then show ?case by (intro exI[of _ r] exI[of _ b]) (simp add: immediate_ops_def)
qed

text \<open>Where a batch could be ended, the renderer is in a batch.\<close>

lemma session_open:
  assumes "device_ok D" "fresh_gpu g0" "session False (ops @ [OpEnd])"
  shows "\<exists>r. run_ops D ops (new_renderer D) = Some r \<and> in_batch D K g0 r (immediate_ops D ops (immediate_start D g0))"
proof -
  have "session b (xs @ ys) \<Longrightarrow> session b xs" for b ys and xs :: "'a render_op list"
    by (induction b xs rule: session.induct) auto
  then have "session False ops" using assms(3) by blast
  from session_rel[OF assms(1) this, of K g0 "new_renderer D" "immediate_start D g0"] start_out[OF assms(2), of D K]
  obtain r b' where r: "run_ops D ops (new_renderer D) = Some r"
      "if b' then in_batch D K g0 r (immediate_ops D ops (immediate_start D g0))
       else out_of_batch D K g0 r (immediate_ops D ops (immediate_start D g0))"
      "\<forall>ys. session False (ops @ ys) \<longrightarrow> session b' ys" by auto
  have "b'" using r(3) assms(3) by fastforce
  with r show ?thesis by auto
qed

lemma out_shown:
  assumes "out_of_batch D K g0 r s" shows "\<exists>g. gpu_run K (calls r) g0 = Some g \<and> shown g = im_events s"
proof -
  obtain g bs where r: "rel D K g0 {} r g s bs" "idle bs" using assms by (auto simp: out_of_batch_def)
  then show ?thesis using relD(1,13)[OF r(1)] idle_all[OF r(2), of D "im_pipe s"] by (auto simp: run_to_def)
qed

lemma session_shown:
  assumes "device_ok D" "fresh_gpu g0" "session False (ops @ [OpEnd])"
  shows "\<exists>r g. run_ops D (ops @ [OpEnd]) (new_renderer D) = Some r \<and> gpu_run K (calls r) g0 = Some g
    \<and> shown g = im_events (immediate_ops D (ops @ [OpEnd]) (immediate_start D g0))"
proof -
  obtain r where "run_ops D (ops @ [OpEnd]) (new_renderer D) = Some r"
      "out_of_batch D K g0 r (immediate_ops D (ops @ [OpEnd]) (immediate_start D g0))"
    using session_rel[OF assms(1,3), of K g0 "new_renderer D" "immediate_start D g0"] start_out[OF assms(2), of D K] by auto
  then obtain g bs where r: "run_ops D (ops @ [OpEnd]) (new_renderer D) = Some r"
      "rel D K g0 {} r g (immediate_ops D (ops @ [OpEnd]) (immediate_start D g0)) bs" "idle bs"
    by (auto simp: out_of_batch_def)
  then show ?thesis using relD(1,13)[OF r(2)] idle_all[OF r(3), of D "im_pipe (immediate_ops D (ops @ [OpEnd]) (immediate_start D g0))"]
    by (auto simp: run_to_def)
qed

text \<open>
  C8.  Batching changes nothing that is seen.  Take any session of batches with any states set,
  textures selected and primitives, models and clears drawn in between, on a device that grants
  every \<open>Map\<close>.  When the last batch has ended, the calls the renderer made show exactly the
  triangles, models and clears, in the same order and each with the same states and texture, that a
  renderer shows that draws everything at once; and those calls keep the promises of the device:
  no write outside a buffer, none over data in use, no draw from what was not written.
\<close>

theorem batching_transparent:
  assumes "device_ok D" "fresh_gpu g0" "session False (ops @ [OpEnd])"
  shows "\<exists>r g. run_ops D (ops @ [OpEnd]) (new_renderer D) = Some r \<and> gpu_run K (calls r) g0 = Some g
    \<and> shown g = im_events (immediate_ops D (ops @ [OpEnd]) (immediate_start D g0))"
  by (rule session_shown[OF assms])

text \<open>A device in which numbers are integers and handles are their own views.\<close>

definition plain_device :: "int render_ops" where
  "plain_device = \<lparr>f_eq = (=), f_sub = (-), f_zero = 0, f_one = 1, unit_of = uint, long_of = id, ortho_matrix = id,
     view_matrix = (\<lambda>p. [fov p, aspect p]), tex_view = Some, tex_sampler = (\<lambda>_. None), tex_premul = (\<lambda>_. False), known_sampler = (\<lambda>_. 7),
     map_ok = (\<lambda>_. True)\<rparr>"

definition plain_gpu :: "int gpu" where
  "plain_gpu = \<lparr>pipe = \<lparr>p_matrix = [], p_camera = [], p_fog_data = [], p_viewport = [], p_scissor = [], p_vertex_shader = FogDisable,
       p_pixel_shader = (VertexMul, FogDisable, AlphaNormal), p_depth = DepthDisable, p_blend = BlendAlpha, p_targets = (None, None)\<rparr>,
     g_texture = None, g_sampler = 0, g_vertices = (\<lambda>_. None), g_indices = (\<lambda>_. None), used_vertices = {}, used_indices = {}, shown = []\<rparr>"

definition corner :: "int \<Rightarrow> int \<Rightarrow> int draw_vertex" where
  "corner x y = \<lparr>vx = x, vy = y, vz = 0, vcolor = 0, vu = x, vv = y\<rparr>"

lemma plain_ok: "device_ok plain_device" "fresh_gpu plain_gpu"
  by (simp_all add: device_ok_def plain_device_def fresh_gpu_def plain_gpu_def)

theorem batching_transparent_witness:
  "\<exists>r g. run_ops plain_device [OpBegin, OpTexture (Some 3), OpQuad (corner 0 0) (corner 1 0) (corner 1 1) (corner 0 1), OpBlend BlendAdd,
      OpTriangle (corner 0 0) (corner 1 0) (corner 1 1), OpEnd] (new_renderer plain_device) = Some r
    \<and> gpu_run (\<lambda>_ p. p) (calls r) plain_gpu = Some g \<and> length (shown g) = 3"
proof -
  let ?ops = "[OpBegin, OpTexture (Some 3), OpQuad (corner 0 0) (corner 1 0) (corner 1 1) (corner 0 1), OpBlend BlendAdd,
      OpTriangle (corner 0 0) (corner 1 0) (corner 1 1)]"
  have "session False (?ops @ [OpEnd])" by simp
  from batching_transparent[OF plain_ok this, of "\<lambda>_ p. p"]
  show ?thesis by (auto simp: immediate_ops_def draw_at_once_def immediate_start_def Let_def plain_gpu_def)
qed

subsection \<open>When the device refuses\<close>

text \<open>A device that refuses every \<open>Map\<close>, and a renderer with one vertex waiting.\<close>

definition refusing_device :: "int render_ops" where
  "refusing_device = plain_device\<lparr>map_ok := (\<lambda>_. False)\<rparr>"

lemma room_empty: "room draw_capacity 0 = draw_capacity"
  by (simp add: room_def draw_capacity_def)

text \<open>
  C36.  A flush whose upload of the vertices fails reports it and forgets what was to be drawn, with
  the commands; no call reaches the device.  It does not open a new command as a successful flush
  does, so the next primitive has no command to count it: it is added to the command before the
  first one, outside the list.  Only after a \<open>setTexture\<close> there is a command again.
\<close>

theorem draw_after_failed_flush:
  assumes "0 < vertex_size r" "\<not> map_ok D (maps r)"
  shows "\<exists>r'. batchFlush D False r = (False, r') \<and> vertex_size r' = 0 \<and> index_size r' = 0 \<and> commands r' = [] \<and> calls r' = calls r
    \<and> drawTriangle D v1 v2 v3 r' = None \<and> drawQuad D v1 v2 v3 v4 r' = None \<and> commands (setTexture D t r') \<noteq> []"
proof -
  let ?o = "if room draw_capacity (vertex_offset r) < vertex_size r \<or> room draw_capacity (index_offset r) < index_size r then 0 else vertex_offset r"
  let ?i = "if room draw_capacity (vertex_offset r) < vertex_size r \<or> room draw_capacity (index_offset r) < index_size r then 0 else index_offset r"
  let ?r = "clearDrawList (r\<lparr>vertex_offset := ?o, index_offset := ?i, maps := maps r + 1\<rparr>)"
  have "batchFlush D False r = (False, ?r)"
    using assms by (simp add: batchFlush_def uploadVertexIndexBufferFromDrawList_def uploadVertexIndexBuffer_def map_write_def clearDrawList_def)
  moreover have "reserve D n m ?r = (True, ?r)" if "n \<le> draw_capacity" "m \<le> draw_capacity" for n m
    using that by (simp add: reserve_def clearDrawList_def room_empty)
  then have "reserve D 3 3 ?r = (True, ?r)" "reserve D 4 6 ?r = (True, ?r)" by (simp_all add: draw_capacity_def)
  then have "drawTriangle D v1 v2 v3 ?r = None" "drawQuad D v1 v2 v3 v4 ?r = None"
    unfolding drawTriangle_def drawQuad_def by (simp_all add: add_primitive_def clearDrawList_def assert_that_def)
  moreover have "commands (setTexture D t ?r) \<noteq> []"
    by (simp add: setTexture_def set_texture_with_def clearDrawList_def Let_def)
  ultimately show ?thesis by (intro exI[of _ ?r]) (simp add: clearDrawList_def)
qed

theorem draw_after_failed_flush_witness:
  "\<exists>r'. batchFlush refusing_device False ((new_renderer refusing_device)\<lparr>vertex_size := 3\<rparr>) = (False, r')
    \<and> drawTriangle refusing_device (corner 0 0) (corner 1 0) (corner 1 1) r' = None"
  using draw_after_failed_flush[of "(new_renderer refusing_device)\<lparr>vertex_size := 3\<rparr>" refusing_device "corner 0 0" "corner 1 0" "corner 1 1" "corner 0 0" None]
  by (auto simp: refusing_device_def)

end
