(* ===== verification/LaserDrawing.thy ===== *)
theory LaserDrawing
  imports RendererSession BentLaserSampling
begin

text \<open>
  The bent laser drawn with the batching renderer: \<open>Render\<close> sets the blend mode and the texture, asks
  the renderer for vertices and indices and fills them in.
\<close>

subsection \<open>Blend modes\<close>

text \<open>
  The blend modes of scripts (\<open>BlendMode\<close>), each a state for the vertex colors and one for blending.
  Every other value of the type is treated as the first.
\<close>

datatype blend_mode = ReserveMode | MulAlpha | MulAdd | MulRev | MulSub | AddAlpha | AddAdd | AddRev | AddSub | AlphaBal
  | MulMin | MulMax | MulMutiply | MulScreen | AddMin | AddMax | AddMutiply | AddScreen | OneMode | KeyNotFound

fun translateLegacyBlendState :: "blend_mode \<Rightarrow> vertex_color_blend_state \<times> blend_state" where
  "translateLegacyBlendState MulAlpha = (VertexMul, BlendAlpha)"
| "translateLegacyBlendState MulAdd = (VertexMul, BlendAdd)"
| "translateLegacyBlendState MulRev = (VertexMul, BlendRevSub)"
| "translateLegacyBlendState MulSub = (VertexMul, BlendSub)"
| "translateLegacyBlendState AddAlpha = (VertexAdd, BlendAlpha)"
| "translateLegacyBlendState AddAdd = (VertexAdd, BlendAdd)"
| "translateLegacyBlendState AddRev = (VertexAdd, BlendRevSub)"
| "translateLegacyBlendState AddSub = (VertexAdd, BlendSub)"
| "translateLegacyBlendState AlphaBal = (VertexMul, BlendInv)"
| "translateLegacyBlendState MulMin = (VertexMul, BlendMin)"
| "translateLegacyBlendState MulMax = (VertexMul, BlendMax)"
| "translateLegacyBlendState MulMutiply = (VertexMul, BlendMul)"
| "translateLegacyBlendState MulScreen = (VertexMul, BlendScreen)"
| "translateLegacyBlendState AddMin = (VertexAdd, BlendMin)"
| "translateLegacyBlendState AddMax = (VertexAdd, BlendMax)"
| "translateLegacyBlendState AddMutiply = (VertexAdd, BlendMul)"
| "translateLegacyBlendState AddScreen = (VertexAdd, BlendScreen)"
| "translateLegacyBlendState OneMode = (VertexMul, BlendOne)"
| "translateLegacyBlendState _ = (VertexMul, BlendAlpha)"

definition updateGraph2DBlendMode :: "'f render_ops \<Rightarrow> blend_mode \<Rightarrow> 'f renderer \<Rightarrow> 'f renderer" where
  "updateGraph2DBlendMode D blend r = (let (v, b) = translateLegacyBlendState blend;
     r = setVertexColorBlendState D v r in setBlendState D b r)"

subsection \<open>Render\<close>

definition to_draw_vertex :: "'f laser_vertex \<Rightarrow> 'f draw_vertex" where
  "to_draw_vertex p = (case p of (px, py, pz, pu, pv, c) \<Rightarrow> \<lparr>draw_vertex.vx = px, draw_vertex.vy = py, vz = pz, vcolor = c, vu = pu, vv = pv\<rparr>)"

text \<open>
  \<open>texture\<close> is the texture found under the name, \<open>None\<close> when there is none; \<open>P\<close> holds the other
  arguments and the size of the texture.  The result: what is returned, and the renderer.
\<close>

definition laser_Render :: "'f render_ops \<Rightarrow> 'f laser_floats \<Rightarrow> handle option \<Rightarrow> blend_mode \<Rightarrow> 'f laser_paint \<Rightarrow> 'f bent_laser
    \<Rightarrow> 'f renderer \<Rightarrow> (bool \<times> 'f renderer) option" where
  "laser_Render D F texture blend P L r = (if laser_size L \<le> 1 then Some (True, r)
   else (case texture of None \<Rightarrow> Some (False, r)
     | Some t \<Rightarrow> (let r = updateGraph2DBlendMode D blend r; r = setTexture D (Some t) r;
           node_count = of_nat (laser_size L) :: u16 in
         Option.bind (drawRequest D (node_count * 2) ((node_count - 1) * 6) r) (\<lambda>(answer, r). case answer of
           None \<Rightarrow> Some (False, r)
         | Some (p_vertex, p_index, offset) \<Rightarrow>
             Option.bind (laser_mesh F P node_count offset L) (\<lambda>(vs, js).
               map_option (Pair True) (write_requested p_vertex p_index (map to_draw_vertex vs) js r))))))"

subsection \<open>What is seen\<close>

text \<open>
  The vertex at one side of node \<open>i\<close>, written out.  The node's direction, scaled and as long as its
  half width, points to the far side; an odd number of sharp nodes up to \<open>i\<close> swaps the sides.  The
  texture is laid along the laser by the distance walked up to \<open>i\<close>.
\<close>

definition side_vertex :: "'f laser_floats \<Rightarrow> 'f laser_paint \<Rightarrow> 'f bent_laser \<Rightarrow> nat \<Rightarrow> bool \<Rightarrow> 'f draw_vertex" where
  "side_vertex F P L i far = (let xs = nodes L; n = xs ! i;
     ex = l_mul F (l_mul F (x_dir n) (paint_scale P)) (half_width n);
     ey = l_mul F (l_mul F (y_dir n) (paint_scale P)) (half_width n);
     swap = odd (length (filter sharp (take (Suc i) xs)));
     dx = (if swap then l_neg F ex else ex);
     dy = (if swap then l_neg F ey else ey);
     walk = foldl (\<lambda>t n. l_add F t (dis n)) (l_const F 0) (take (Suc i) xs)
   in \<lparr>draw_vertex.vx = (if far then l_add F (fst (node_pos n)) dx else l_sub F (fst (node_pos n)) dx),
       draw_vertex.vy = (if far then l_add F (snd (node_pos n)) dy else l_sub F (snd (node_pos n)) dy),
       vz = l_half F,
       vcolor = (if node_active n then paint_color P else paint_color P AND 0x00FFFFFF),
       vu = l_mul F (l_add F (tex_left P) (l_mul F (l_div F walk (m_fLength L)) (tex_width P)))
              (l_div F (l_const F 1) (fst (tex_size P))),
       vv = l_mul F (if far then l_add F (tex_top P) (tex_height P) else tex_top P)
              (l_div F (l_const F 1) (snd (tex_size P)))\<rparr>)"

lemma node_vertices_sides:
  "map to_draw_vertex (node_vertices F P (m_fLength L) (walked F (take (Suc i) (nodes L)))
     (swapped (take (Suc i) (nodes L))) (nodes L ! i)) = [side_vertex F P L i False, side_vertex F P L i True]"
  by (simp add: node_vertices_def side_vertex_def to_draw_vertex_def walked_def swapped_def Let_def)

lemma nth_pairs: "i < n \<Longrightarrow> concat (map (\<lambda>i. [f i, g i]) [0..<n]) ! (2 * i) = f i"
  "i < n \<Longrightarrow> concat (map (\<lambda>i. [f i, g i]) [0..<n]) ! (2 * i + 1) = g i"
proof (induction n)
  case (Suc n)
  have len: "length (concat (map (\<lambda>i. [f i, g i]) [0..<n])) = 2 * n" by (simp add: length_concat comp_def sum_list_triv)
  {
    case 1
    then show ?case using Suc.IH(1) len by (cases "i = n") (simp_all add: nth_append)
  next
    case 2
    then show ?case using Suc.IH(2) len by (cases "i = n") (simp_all add: nth_append)
  }
qed simp_all

definition laser_strip :: "'f laser_floats \<Rightarrow> 'f laser_paint \<Rightarrow> 'f bent_laser \<Rightarrow> 'f draw_vertex list" where
  "laser_strip F P L = map to_draw_vertex (strip_vertices F P (m_fLength L) (nodes L))"

lemma laser_strip_nth:
  assumes "i < length (nodes L)"
  shows "laser_strip F P L ! (2 * i) = side_vertex F P L i False" "laser_strip F P L ! (2 * i + 1) = side_vertex F P L i True"
proof -
  have "laser_strip F P L = concat (map (\<lambda>i. [side_vertex F P L i False, side_vertex F P L i True]) [0..<length (nodes L)])"
    by (simp add: laser_strip_def strip_vertices_def map_concat comp_def node_vertices_sides)
  then show "laser_strip F P L ! (2 * i) = side_vertex F P L i False" "laser_strip F P L ! (2 * i + 1) = side_vertex F P L i True"
    using nth_pairs[OF assms] by simp_all
qed

lemma strip_triangles:
  "map f (triangles (strip_indices 0 n)) = concat (map (\<lambda>i. [f (2 * i, 2 * i + 2, 2 * i + 3), f (2 * i + 3, 2 * i + 1, 2 * i)]) [0..<n - 1])"
proof -
  have "map f (triangles (concat (map (\<lambda>i. map ((+) (0 + 2 * i)) [0, 2, 3, 3, 1, 0]) xs)))
      = concat (map (\<lambda>i. [f (2 * i, 2 * i + 2, 2 * i + 3), f (2 * i + 3, 2 * i + 1, 2 * i)]) xs)" for xs
    by (induction xs) (simp_all add: numeral_2_eq_2 numeral_3_eq_3)
  then show ?thesis unfolding strip_indices_def .
qed

subsection \<open>The request\<close>

text \<open>What is filled in, as a function of the number of the first vertex.\<close>

definition strip_writer :: "'f laser_floats \<Rightarrow> 'f laser_paint \<Rightarrow> 'f bent_laser \<Rightarrow> u16 \<Rightarrow> 'f draw_vertex list \<times> u16 list" where
  "strip_writer F P L off = (laser_strip F P L,
     concat (map (\<lambda>i. quad_indices off (of_nat (2 * i))) [0..<length (nodes L) - 1]))"

lemma quad_indices_shift: "quad_indices off q = map ((+) off) (quad_indices 0 q)"
  by (simp add: quad_indices_def add.assoc)

lemma nodes_bounded: "laser_ok L \<Longrightarrow> length (nodes L) \<le> 512"
  using queue_inv_bounded[of "laser_queue L"] by (simp add: laser_ok_def nodes_def LGOBJ_MAXLASERNODE_def)

lemma strip_writer_indices:
  assumes "laser_ok L"
  shows "map unat (snd (strip_writer F P L 0)) = strip_indices 0 (length (nodes L))"
  using quads_nat[of 0 "length (nodes L)"] nodes_bounded[OF assms] by (simp add: strip_writer_def)

text \<open>The laser asks for what it writes, and writes what can be asked for.\<close>

lemma laser_request:
  assumes "laser_ok L" "2 \<le> length (nodes L)"
  shows "request_ok (2 * length (nodes L)) (6 * (length (nodes L) - 1)) (strip_writer F P L)"
proof -
  let ?n = "length (nodes L)"
  note i = strip_writer_indices[OF assms(1), of F P] nodes_bounded[OF assms(1)]
  have shift: "strip_writer F P L off = (fst (strip_writer F P L 0), map ((+) off) (snd (strip_writer F P L 0)))" for off
    unfolding strip_writer_def fst_conv snd_conv map_concat map_map o_def using quad_indices_shift[of off] by simp
  have len: "length (fst (strip_writer F P L 0)) = 2 * ?n" "length (snd (strip_writer F P L 0)) = 6 * (?n - 1)"
    by (simp_all add: strip_writer_def laser_strip_def length_strip_vertices length_concat o_def quad_indices_def sum_list_triv)
  have "unat k < 2 * ?n" if "k \<in> set (snd (strip_writer F P L 0))" for k
    using imageI[OF that, of unat] i(1) strip_indices_bound[of "unat k" 0 ?n] by (metis add_0 set_map)
  moreover have "2 * ?n \<le> draw_capacity" "6 * (?n - 1) \<le> draw_capacity" "3 dvd 6 * (?n - 1)" "2 * ?n \<noteq> 0" "6 * (?n - 1) \<noteq> 0"
    using i(2) assms(2) by (auto simp: draw_capacity_def)
  ultimately show ?thesis unfolding request_ok_def using shift len by blast
qed

text \<open>\<open>Render\<close> in a batch: the states, the texture and one primitive of the renderer.\<close>

lemma laser_Render_in_batch:
  assumes "in_batch D K g0 r s" "device_ok D" "laser_ok L" "2 \<le> length (nodes L)"
    and "translateLegacyBlendState blend = (v, b)"
  shows "\<exists>r'. laser_Render D F (Some t) blend P L r = Some (True, r')
    \<and> in_batch D K g0 r' (immediate_ops D [OpVertexColorBlend v, OpBlend b, OpTexture (Some t),
        OpRequest (2 * length (nodes L)) (6 * (length (nodes L) - 1)) (strip_writer F P L)] s)"
proof -
  let ?n = "length (nodes L)"
  have nc: "(of_nat ?n :: u16) * 2 = of_nat (2 * ?n)" "((of_nat ?n :: u16) - 1) * 6 = of_nat (6 * (?n - 1))"
    using assms(4) by (simp_all add: of_nat_diff mult.commute)
  obtain r1 where r1: "run_op D (OpVertexColorBlend v) r = Some r1" "in_batch D K g0 r1 (immediate_op D (OpVertexColorBlend v) s)"
    using op_in_batch[OF assms(1,2), of "OpVertexColorBlend v"] by auto
  obtain r2 where r2: "run_op D (OpBlend b) r1 = Some r2"
      "in_batch D K g0 r2 (immediate_op D (OpBlend b) (immediate_op D (OpVertexColorBlend v) s))"
    using op_in_batch[OF r1(2) assms(2), of "OpBlend b"] by auto
  have g: "updateGraph2DBlendMode D blend r = r2"
    using r1(1) r2(1) assms(5) by (simp add: updateGraph2DBlendMode_def run_op_def)
  let ?r3 = "setTexture D (Some t) r2"
  have r3: "in_batch D K g0 ?r3 (immediate_op D (OpTexture (Some t)) (immediate_op D (OpBlend b) (immediate_op D (OpVertexColorBlend v) s)))"
    using texture_in_batch[OF r2(2) assms(2)] by simp
  obtain vpos ipos off r4 r' where q: "drawRequest D (of_nat (2 * ?n)) (of_nat (6 * (?n - 1))) ?r3 = Some (Some (vpos, ipos, off), r4)"
      "write_requested vpos ipos (fst (strip_writer F P L off)) (snd (strip_writer F P L off)) r4 = Some r'"
      "in_batch D K g0 r' (immediate_op D (OpRequest (2 * ?n) (6 * (?n - 1)) (strip_writer F P L))
         (immediate_op D (OpTexture (Some t)) (immediate_op D (OpBlend b) (immediate_op D (OpVertexColorBlend v) s))))"
    using request_granted[OF r3 assms(2) laser_request[OF assms(3,4), of F P]] by blast
  have "laser_Render D F (Some t) blend P L r = Some (True, r')"
    using assms(4) q(1,2) laser_mesh_strip[OF assms(3), of F P off]
    by (simp add: laser_Render_def laser_size_nodes Let_def g nc strip_writer_def laser_strip_def mult.commute)
  then show ?thesis using q(3) by (simp add: immediate_ops_def)
qed

text \<open>
  C35.  A laser drawn in a batch is seen as the triangles of its strip.  After any operations of a
  session that are in a batch at their end, on a device that grants every \<open>Map\<close>, \<open>Render\<close> of a
  well-formed laser of two or more nodes with a texture that is found returns true; when the batch is
  ended then, what is shown is what was shown before, and then for every two neighbours the two
  triangles between their sides, in the order of the nodes: with the blend mode's states, the texture's
  view, sampler and alpha, and otherwise the states set last -- however many vertices were waiting, and
  whatever number the renderer gave the first vertex.
\<close>

theorem laser_drawn:
  fixes ops :: "'f render_op list" and F :: "'f laser_floats" and P :: "'f laser_paint" and L :: "'f bent_laser"
  defines "S D g0 \<equiv> immediate_ops D ops (immediate_start D g0)"
  defines "tri D g0 v b t \<equiv> Triangle ((im_pipe (S D g0))
      \<lparr>p_blend := b, p_pixel_shader := (v, fst (snd (p_pixel_shader (im_pipe (S D g0)))), alpha_type D (Some t))\<rparr>)
      (tex_view D t) (case tex_sampler D t of Some s \<Rightarrow> s | None \<Rightarrow> known_sampler D LinearClamp)"
  assumes "device_ok D" "fresh_gpu g0" "session False (ops @ [OpEnd])" "laser_ok L" "2 \<le> length (nodes L)"
    "translateLegacyBlendState blend = (v, b)"
  shows "\<exists>r0 r1 r2 g. run_ops D ops (new_renderer D) = Some r0
    \<and> laser_Render D F (Some t) blend P L r0 = Some (True, r1) \<and> endBatch D r1 = (True, r2)
    \<and> gpu_run K (calls r2) g0 = Some g
    \<and> shown g = im_events (S D g0) @ concat (map (\<lambda>i.
        [tri D g0 v b t (side_vertex F P L i False) (side_vertex F P L (i + 1) False) (side_vertex F P L (i + 1) True),
         tri D g0 v b t (side_vertex F P L (i + 1) True) (side_vertex F P L i True) (side_vertex F P L i False)])
        [0..<length (nodes L) - 1])"
proof -
  let ?n = "length (nodes L)"
  obtain r0 where r0: "run_ops D ops (new_renderer D) = Some r0" "in_batch D K g0 r0 (S D g0)"
    using session_open[OF assms(3-5), of K] unfolding S_def by blast
  let ?four = "[OpVertexColorBlend v, OpBlend b, OpTexture (Some t), OpRequest (2 * ?n) (6 * (?n - 1)) (strip_writer F P L)]"
  obtain r1 where r1: "laser_Render D F (Some t) blend P L r0 = Some (True, r1)"
      "in_batch D K g0 r1 (immediate_ops D ?four (S D g0))"
    using laser_Render_in_batch[OF r0(2) assms(3,6-8)] by blast
  obtain r2 where r2: "endBatch D r1 = (True, r2)"
      "out_of_batch D K g0 r2 ((immediate_ops D ?four (S D g0))\<lparr>im_texture := None\<rparr>)"
    using end_rel[OF r1(2) assms(3)] by blast
  obtain g where g: "gpu_run K (calls r2) g0 = Some g" "shown g = im_events (immediate_ops D ?four (S D g0))"
    using out_shown[OF r2(2)] by auto
  have vi: "view_of D (Some t) = tex_view D t" "sampler_of D (Some t)
      = (case tex_sampler D t of Some s \<Rightarrow> s | None \<Rightarrow> known_sampler D LinearClamp)"
    by (simp_all add: view_of_def sampler_of_def)
  let ?f = "\<lambda>(i, j, k). tri D g0 v b t (laser_strip F P L ! i) (laser_strip F P L ! j) (laser_strip F P L ! k)"
  have "im_events (immediate_ops D ?four (S D g0)) = im_events (S D g0) @ map ?f (triangles (strip_indices 0 ?n))"
    using strip_writer_indices[OF assms(6), of F P]
    by (simp add: immediate_ops_def draw_at_once_def strip_writer_def tri_def pipe_for_def vi)
  also have "map ?f (triangles (strip_indices 0 ?n)) = concat (map (\<lambda>i.
        [tri D g0 v b t (side_vertex F P L i False) (side_vertex F P L (i + 1) False) (side_vertex F P L (i + 1) True),
         tri D g0 v b t (side_vertex F P L (i + 1) True) (side_vertex F P L i True) (side_vertex F P L i False)]) [0..<?n - 1])"
    unfolding strip_triangles
  proof (intro arg_cong[of _ _ concat] map_cong refl)
    fix i assume "i \<in> set [0..<?n - 1]"
    then have i: "i < ?n" "i + 1 < ?n" by auto
    note laser_strip_nth[OF i(1), of F P] laser_strip_nth[OF i(2), of F P]
    moreover have "2 * (i + 1) = 2 * i + 2" "2 * (i + 1) + 1 = 2 * i + 3" by simp_all
    ultimately show "[?f (2 * i, 2 * i + 2, 2 * i + 3), ?f (2 * i + 3, 2 * i + 1, 2 * i)]
      = [tri D g0 v b t (side_vertex F P L i False) (side_vertex F P L (i + 1) False) (side_vertex F P L (i + 1) True),
         tri D g0 v b t (side_vertex F P L (i + 1) True) (side_vertex F P L i True) (side_vertex F P L i False)]"
      by (simp only: prod.case)
  qed
  finally show ?thesis
    by - (rule exI[of _ r0], rule exI[of _ r1], rule exI[of _ r2], rule exI[of _ g], intro conjI,
        rule r0(1), rule r1(1), rule r2(1), rule g(1), erule trans[OF g(2)])
qed

text \<open>A device in which numbers are reals, and a laser of two nodes on it.\<close>

definition real_device :: "real render_ops" where
  "real_device = \<lparr>f_eq = (=), f_sub = (-), f_zero = 0, f_one = 1, unit_of = (\<lambda>c. of_int (uint c) / 255), long_of = floor, ortho_matrix = id,
     view_matrix = (\<lambda>p. [fov p, aspect p]), tex_view = Some, tex_sampler = (\<lambda>_. None), tex_premul = (\<lambda>_. False), known_sampler = (\<lambda>_. 7),
     map_ok = (\<lambda>_. True)\<rparr>"

definition real_gpu :: "real gpu" where
  "real_gpu = \<lparr>pipe = \<lparr>p_matrix = [], p_camera = [], p_fog_data = [], p_viewport = [], p_scissor = [], p_vertex_shader = FogDisable,
       p_pixel_shader = (VertexMul, FogDisable, AlphaNormal), p_depth = DepthDisable, p_blend = BlendAlpha, p_targets = (None, None)\<rparr>,
     g_texture = None, g_sampler = 0, g_vertices = (\<lambda>_. None), g_indices = (\<lambda>_. None), used_vertices = {}, used_indices = {}, shown = []\<rparr>"

definition white_paint :: "real laser_paint" where
  "white_paint = \<lparr>paint_color = 0xFFFFFFFF, tex_left = 0, tex_top = 0, tex_width = 8, tex_height = 8, paint_scale = 1, tex_size = (8, 8)\<rparr>"

theorem laser_drawn_witness:
  "\<exists>L r0 r1 r2 g. straight real_floats 2 = Some L
    \<and> run_ops real_device [OpBegin] (new_renderer real_device) = Some r0
    \<and> laser_Render real_device real_floats (Some 3) AddAlpha white_paint L r0 = Some (True, r1) \<and> endBatch real_device r1 = (True, r2)
    \<and> gpu_run (\<lambda>_ p. p) (calls r2) real_gpu = Some g \<and> length (shown g) = 2"
proof -
  obtain L m p where L: "straight real_floats 2 = Some L" "laser_ok L" "nodes L = [m, p]"
    using straight_shape[OF real_floats_exact, of 0] by (auto simp: numeral_2_eq_2 simp del: straight.simps)
  have ok: "device_ok real_device" "fresh_gpu real_gpu"
    by (simp_all add: device_ok_def real_device_def fresh_gpu_def real_gpu_def)
  have n: "2 \<le> length (nodes L)" "session False ([OpBegin] @ [OpEnd])" using L(3) by simp_all
  have blend: "translateLegacyBlendState AddAlpha = (VertexAdd, BlendAlpha)" by simp
  have e: "im_events (immediate_ops real_device [OpBegin] (immediate_start real_device real_gpu)) = []"
    by (simp add: immediate_ops_def immediate_start_def Let_def real_gpu_def)
  have l: "length (nodes L) - 1 = 1" using L(3) by simp
  show ?thesis
    using L(1) laser_drawn[OF ok n(2) L(2) n(1) blend, of real_floats 3 white_paint "\<lambda>_ p. p"] unfolding e l
    by (elim exE conjE) (rule exI[of _ L], intro exI conjI, assumption+, simp)
qed

end
