(* ===== verification/Well512.thy ===== *)
theory Well512
  imports Xorshift
begin

text \<open>
  The generator of the scripts' \<open>lstg.Rand\<close> (\<open>Utility/well512.cpp\<close> and the methods of
  \<open>LuaBinding/modern/Well512.cpp\<close> that choose a number from it).
\<close>

subsection \<open>The generator\<close>

record well512 =
  w_state :: "u32 list"
  w_index :: u32
  w_seed :: u32

primrec well512_seed_words :: "nat \<Rightarrow> u32 \<Rightarrow> u32 list" where
  "well512_seed_words 0 s = [s]"
| "well512_seed_words (Suc n) s = (let xs = well512_seed_words n s; x = last xs in
     xs @ [1812433253 * (x XOR drop_bit 30 x) + of_nat (Suc n)])"

definition well512_seed :: "u32 \<Rightarrow> well512" where
  "well512_seed s = \<lparr>w_state = well512_seed_words 15 s, w_index = 0, w_seed = s\<rparr>"

text \<open>\<open>next\<close>; \<open>None\<close> when the index lies outside the state.\<close>

definition well512_next :: "well512 \<Rightarrow> (u32 \<times> well512) option" where
  "well512_next w = assert_that (unat (w_index w) < length (w_state w)) (let s = w_state w; i = w_index w;
     a = s ! unat i;
     c = s ! unat ((i + 13) AND 15);
     b = a XOR c XOR push_bit 16 a XOR push_bit 15 c;
     c = s ! unat ((i + 9) AND 15);
     c = c XOR drop_bit 11 c;
     a = b XOR c; s = s[unat i := a];
     d = a XOR (push_bit 5 a AND 0xDA442D24);
     i = (i + 15) AND 15;
     a = s ! unat i;
     s = s[unat i := a XOR b XOR d XOR push_bit 2 a XOR push_bit 18 b XOR push_bit 28 c]
   in Some (s ! unat i, w\<lparr>w_state := s, w_index := i\<rparr>))"

text \<open>\<open>next(bound)\<close>: \<open>None\<close> for the division by zero that \<open>bound + 1\<close> can be.\<close>

definition well512_next_bound :: "u32 \<Rightarrow> well512 \<Rightarrow> (u32 \<times> well512) option" where
  "well512_next_bound bound w = Option.bind (well512_next w) (\<lambda>(x, w).
     if bound + 1 = 0 then None else Some (x mod (bound + 1), w))"

text \<open>\<open>integer\<close>: the sum of an \<open>int32_t\<close> and a \<open>uint32_t\<close>, converted to \<open>int32_t\<close>.\<close>

definition well512_integer :: "int \<Rightarrow> int \<Rightarrow> well512 \<Rightarrow> (int \<times> well512) option" where
  "well512_integer a b w = map_option (\<lambda>(x, w). (sint (word_of_int a + x :: u32), w)) (well512_next_bound (word_of_int (b - a)) w)"

text \<open>\<open>number\<close>: \<open>millionth k\<close> is \<open>static_cast<float>(k) / 1000000.0f\<close>.\<close>

definition well512_number :: "(u32 \<Rightarrow> 'f) \<Rightarrow> well512 \<Rightarrow> ('f \<times> well512) option" where
  "well512_number millionth w = map_option (\<lambda>(x, w). (millionth x, w)) (well512_next_bound 1000000 w)"

definition well512_sign :: "well512 \<Rightarrow> (int \<times> well512) option" where
  "well512_sign w = map_option (\<lambda>(x, w). (sint (x * 2) - 1, w)) (well512_next_bound 1 w)"

subsection \<open>Saving\<close>

text \<open>The format has a dash after every number, the last one included.\<close>

definition well512_serialize :: "well512 \<Rightarrow> string" where
  "well512_serialize w = ''well512'' @ dashed (w_index w # w_state w) @ ''-''"

text \<open>Whatever follows the name is read, and what cannot be read is 0.\<close>

definition well512_deserialize :: "string \<Rightarrow> well512 \<Rightarrow> bool \<times> well512" where
  "well512_deserialize data w = (if \<not> starts_with data ''well512-'' then (False, w)
     else let ws = fst (extract_words 17 \<lparr>chars = dash_to_space (drop 8 data), good = True\<rparr>)
       in (True, w\<lparr>w_index := hd ws, w_state := tl ws\<rparr>))"

subsection \<open>What scripts call\<close>

datatype range_error = RangeTooLarge int int

text \<open>The arguments in order; a range beyond \<open>0x7fffffff\<close> is an error.\<close>

definition script_integer :: "int \<Rightarrow> int \<Rightarrow> well512 \<Rightarrow> (range_error + int \<times> well512) option" where
  "script_integer a b w = (let (a, b) = (if a > b then (b, a) else (a, b)) in
     if b - a > 0x7fffffff then Some (Inl (RangeTooLarge a b)) else map_option Inr (well512_integer a b w))"

end
