(* ===== verification/Well512Correct.thy ===== *)
theory Well512Correct
  imports Well512 XorshiftLaws
begin

text \<open>
  The scripts' generator: its state stays in shape and never becomes zero, integers are in their
  range, and a saved generator goes on where it was.
\<close>

definition well512_ok :: "well512 \<Rightarrow> bool" where
  "well512_ok w \<longleftrightarrow> length (w_state w) = 16 \<and> unat (w_index w) < 16"

lemma low_four: "unat ((x :: u32) AND 15) < 16"
proof -
  have "x AND 15 = take_bit 4 x" by (simp add: take_bit_eq_mask mask_eq_exp_minus_1)
  then have "unat (x AND 15) = take_bit 4 (unat x)" by (simp only: unsigned_take_bit_eq)
  then show ?thesis by (simp add: take_bit_eq_mod)
qed

lemma well512_seed_words_length: "length (well512_seed_words n s) = Suc n"
  by (induction n) (simp_all add: Let_def)

lemma well512_seed_ok: "well512_ok (well512_seed s)"
  by (simp add: well512_ok_def well512_seed_def well512_seed_words_length)

lemma well512_next_ok:
  assumes "well512_ok w"
  shows "\<exists>x w'. well512_next w = Some (x, w') \<and> well512_ok w' \<and> w_seed w' = w_seed w"
  using assms low_four by (simp add: well512_ok_def well512_next_def Let_def assert_that_def)

subsection \<open>Integers in their range\<close>

lemma next_bound_range:
  assumes "well512_ok w" "bound + 1 \<noteq> 0"
  shows "\<exists>x w'. well512_next_bound bound w = Some (x, w') \<and> unat x \<le> unat bound \<and> well512_ok w' \<and> w_seed w' = w_seed w"
proof -
  obtain y w' where y: "well512_next w = Some (y, w')" "well512_ok w'" "w_seed w' = w_seed w" using well512_next_ok[OF assms(1)] by blast
  have "unat (bound + 1) = Suc (unat bound)" using assms(2) by (metis Suc_eq_plus1 unatSuc add.commute)
  moreover have "unat (y mod (bound + 1)) < unat (bound + 1)"
    using assms(2) by (simp add: unat_mod_distrib) (metis mod_less_divisor unat_gt_0)
  ultimately show ?thesis using y assms(2) by (simp add: well512_next_bound_def)
qed

lemma integer_range:
  assumes "well512_ok w" "- (2 ^ 31) \<le> a" "a \<le> b" "b < 2 ^ 31" "b - a \<le> 0x7fffffff"
  shows "\<exists>r w'. well512_integer a b w = Some (r, w') \<and> a \<le> r \<and> r \<le> b \<and> well512_ok w' \<and> w_seed w' = w_seed w"
proof -
  let ?n = "word_of_int (b - a) :: u32"
  have "take_bit 32 (b - a) = b - a" using assms by (intro take_bit_int_eq_self) simp_all
  then have n: "uint ?n = b - a" by (simp only: uint_word_of_int_eq) simp
  have "?n + 1 \<noteq> 0"
  proof
    assume "?n + 1 = 0"
    then have "word_of_int (b - a + 1) = (0 :: u32)" by simp
    then have "take_bit 32 (b - a + 1) = 0" by (simp only: word_of_int_eq_0_iff) (simp add: take_bit_eq_0_iff)
    moreover have "take_bit 32 (b - a + 1) = b - a + 1" using assms by (intro take_bit_int_eq_self) simp_all
    ultimately show False using assms(3) by simp
  qed
  from next_bound_range[OF assms(1) this] obtain x w' where x: "well512_next_bound ?n w = Some (x, w')" "unat x \<le> unat ?n"
      "well512_ok w'" "w_seed w' = w_seed w" by blast
  have u: "0 \<le> uint x" "uint x \<le> b - a" using x(2) n by (simp_all add: word_le_nat_alt[symmetric] word_le_def)
  have "word_of_int a + x = word_of_int (a + uint x)" by simp
  moreover have "- (2 ^ 31) \<le> a + uint x" "a + uint x < 2 ^ 31" using u assms by linarith+
  then have "sint (word_of_int (a + uint x) :: u32) = a + uint x"
    using signed_take_bit_int_eq_self[of 31 "a + uint x"] by (simp add: sint_sbintrunc' del: of_int_add)
  ultimately have "well512_integer a b w = Some (a + uint x, w')" using x(1) by (simp add: well512_integer_def)
  then show ?thesis using u x(3,4) by (intro exI[of _ "a + uint x"] exI[of _ w']) simp
qed

text \<open>
  The integers scripts draw.  For any two 32-bit arguments in any order: when they lie more than
  \<open>2 ^ 31 - 1\<close> apart the call is an error and draws nothing; otherwise it gives a number between
  them, both included, without a division by zero and without reading outside the state, and leaves
  a generator for which that holds again.
\<close>

theorem script_integer_in_range:
  assumes "well512_ok w" "- (2 ^ 31) \<le> a" "a < 2 ^ 31" "- (2 ^ 31) \<le> b" "b < 2 ^ 31"
  shows "if \<bar>b - a\<bar> > 2 ^ 31 - 1 then script_integer a b w = Some (Inl (RangeTooLarge (min a b) (max a b)))
    else (\<exists>r w'. script_integer a b w = Some (Inr (r, w')) \<and> min a b \<le> r \<and> r \<le> max a b \<and> well512_ok w' \<and> w_seed w' = w_seed w)"
proof (cases "a > b")
  case True
  then show ?thesis using integer_range[OF assms(1), of b a] assms(2-5) by (auto simp: script_integer_def)
next
  case False
  then show ?thesis using integer_range[OF assms(1), of a b] assms(2-5) by (auto simp: script_integer_def)
qed

theorem script_integer_in_range_witness:
  "(\<exists>r w'. script_integer 6 (- 3) (well512_seed 7) = Some (Inr (r, w')) \<and> - 3 \<le> r \<and> r \<le> 6)
    \<and> script_integer 2147483647 (- 1) (well512_seed 7) = Some (Inl (RangeTooLarge (- 1) 2147483647))"
  using script_integer_in_range[OF well512_seed_ok, of 6 "- 3" 7] script_integer_in_range[OF well512_seed_ok, of 2147483647 "- 1" 7]
  by auto

subsection \<open>Saved and restored\<close>

primrec well512_draws :: "nat \<Rightarrow> well512 \<Rightarrow> u32 list option" where
  "well512_draws 0 w = Some []"
| "well512_draws (Suc k) w = Option.bind (well512_next w) (\<lambda>(x, w'). map_option ((#) x) (well512_draws k w'))"

lemma restored:
  assumes "length (w_state w) = 16"
  shows "well512_deserialize (well512_serialize w) w0 = (True, w\<lparr>w_seed := w_seed w0\<rparr>)"
proof -
  have "drop 8 (well512_serialize w) = show_word (w_index w) @ dashed (w_state w) @ ''-''"
    "starts_with (well512_serialize w) ''well512-''"
    by (simp_all add: well512_serialize_def starts_with_def)
  moreover have "extract_words 17 \<lparr>chars = dash_to_space (show_word (w_index w) @ dashed (w_state w) @ ''-''), good = True\<rparr>
      = (w_index w # w_state w, \<lparr>chars = dash_to_space ''-'', good = True\<rparr>)"
    using extract_after_first_dash[of "''-''" "w_state w" "w_index w"] assms by simp
  ultimately have "fst (extract_words 17 \<lparr>chars = dash_to_space (drop 8 (well512_serialize w)), good = True\<rparr>) = w_index w # w_state w"
    "starts_with (well512_serialize w) ''well512-''" by (simp_all only: fst_conv)
  then show ?thesis by (simp add: well512_deserialize_def)
qed

lemma draws_seed: "well512_draws k (w\<lparr>w_seed := s\<rparr>) = well512_draws k w"
proof (induction k arbitrary: w)
  case (Suc k)
  have "well512_next (w\<lparr>w_seed := s\<rparr>) = map_option (\<lambda>(x, w'). (x, w'\<lparr>w_seed := s\<rparr>)) (well512_next w)"
    by (simp add: well512_next_def Let_def assert_that_def)
  then show ?case using Suc by (cases "well512_next w") auto
qed simp

lemma draws_total: "well512_ok w \<Longrightarrow> well512_draws k w \<noteq> None"
proof (induction k arbitrary: w)
  case (Suc k)
  obtain x w' where "well512_next w = Some (x, w')" "well512_ok w'" using well512_next_ok[OF Suc.prems] by blast
  then show ?case using Suc.IH by auto
qed simp

text \<open>
  C40.  A saved generator goes on where it was.  Reading what \<open>serialize\<close> wrote, into any generator,
  gives its state and index back and draws the same numbers as the one that was saved, for ever; only
  the seed reported afterwards is that of the generator read into.  The index is not checked: when a
  text gives one of 16 or more, it is accepted and the next draw reads outside the state.
\<close>

theorem saved_generator_goes_on:
  assumes "length (w_state w) = 16"
  shows "\<exists>w'. well512_deserialize (well512_serialize w) w0 = (True, w') \<and> w_state w' = w_state w \<and> w_index w' = w_index w
    \<and> w_seed w' = w_seed w0 \<and> well512_draws k w' = well512_draws k w
    \<and> (if unat (w_index w) < 16 then well512_draws k w' \<noteq> None else well512_next w' = None)"
proof -
  let ?w = "w\<lparr>w_seed := w_seed w0\<rparr>"
  show ?thesis
  proof (intro exI[of _ ?w] conjI)
    show "well512_deserialize (well512_serialize w) w0 = (True, ?w)" by (rule restored[OF assms])
    show d: "well512_draws k ?w = well512_draws k w" by (rule draws_seed)
    show "if unat (w_index w) < 16 then well512_draws k ?w \<noteq> None else well512_next ?w = None"
    proof (cases "unat (w_index w) < 16")
      case True
      then have "well512_draws k w \<noteq> None" using assms by (intro draws_total) (simp add: well512_ok_def)
      then show ?thesis unfolding d using True by simp
    next
      case False
      then have "\<not> unat (w_index ?w) < length (w_state ?w)" using assms by simp
      then have "well512_next ?w = None" unfolding well512_next_def assert_that_def by (simp only: if_False)
      then show ?thesis using False by (simp only: if_False)
    qed
  qed simp_all
qed

theorem saved_generator_goes_on_witness:
  "(\<exists>w'. well512_deserialize (well512_serialize (well512_seed 7)) (well512_seed 8) = (True, w') \<and> well512_draws 3 w' = well512_draws 3 (well512_seed 7))
    \<and> (\<exists>w'. well512_deserialize (well512_serialize ((well512_seed 7)\<lparr>w_index := 99\<rparr>)) (well512_seed 8) = (True, w') \<and> well512_next w' = None)"
proof -
  have s: "length (w_state (well512_seed 7)) = 16" "length (w_state ((well512_seed 7)\<lparr>w_index := 99\<rparr>)) = 16"
    using well512_seed_ok[of 7] by (simp_all add: well512_ok_def)
  show ?thesis
    using saved_generator_goes_on[OF s(1), of "well512_seed 8" 3] saved_generator_goes_on[OF s(2), of "well512_seed 8" 3] by auto
qed

subsection \<open>The state never dies\<close>

lemma ring_step:
  assumes "(n :: nat) < 16" "k < 16"
  shows "(n + k) mod 16 = (if n + k < 16 then n + k else n + k - 16)"
  using assms by (simp add: mod_if)

lemma index_step: "unat ((i + of_nat k :: u32) AND 15) = (unat i + k) mod 16"
proof -
  have "(i + of_nat k) AND 15 = take_bit 4 (i + of_nat k)" by (simp add: take_bit_eq_mask mask_eq_exp_minus_1)
  then have "unat ((i + of_nat k) AND 15) = take_bit 4 (unat (i + of_nat k))" by (simp only: unsigned_take_bit_eq)
  also have "\<dots> = take_bit 4 (unat i + k)"
    by (simp add: unat_word_ariths unsigned_of_nat take_bit_eq_mod mod_mod_cancel mod_simps)
  finally show ?thesis by (simp add: take_bit_eq_mod)
qed

text \<open>What \<open>next\<close> does to the state, with the index as a number.\<close>

definition well512_core :: "nat \<Rightarrow> u32 list \<Rightarrow> u32 list" where
  "well512_core n s = (let m = (n + 15) mod 16; a = s ! n; c = s ! ((n + 13) mod 16);
     b = a XOR c XOR push_bit 16 a XOR push_bit 15 c; c2 = s ! ((n + 9) mod 16) XOR drop_bit 11 (s ! ((n + 9) mod 16));
     v = b XOR c2; d = v XOR (push_bit 5 v AND 0xDA442D24); u = s ! m
   in s[n := v, m := u XOR b XOR d XOR push_bit 2 u XOR push_bit 18 b XOR push_bit 28 c2])"

lemma next_core:
  assumes "well512_ok w" "well512_next w = Some (x, w')"
  shows "w_state w' = well512_core (unat (w_index w)) (w_state w)" "unat (w_index w') = (unat (w_index w) + 15) mod 16"
proof -
  note k = index_step[of "w_index w" 15, simplified] index_step[of "w_index w" 13, simplified] index_step[of "w_index w" 9, simplified]
  have "unat (w_index w) < 16" using assms(1) by (simp add: well512_ok_def)
  then have "(unat (w_index w) + 15) mod 16 \<noteq> unat (w_index w)" by (auto simp: ring_step)
  then show "w_state w' = well512_core (unat (w_index w)) (w_state w)" "unat (w_index w') = (unat (w_index w) + 15) mod 16"
    using assms unfolding well512_next_def well512_core_def Let_def k assert_that_def by (auto simp: well512_ok_def k)
qed

lemma xor_six: "u XOR b XOR d XOR p XOR q XOR r = (u XOR p) XOR (b XOR d XOR q XOR r)" for u :: u32
  by (simp add: ac_simps)

lemma core_inj:
  assumes "well512_core n s = well512_core n t" "length s = 16" "length t = 16" "n < 16"
  shows "s = t"
proof -
  let ?m = "(n + 15) mod 16" and ?p = "(n + 13) mod 16" and ?q = "(n + 9) mod 16"
  define b where "b = (\<lambda>s :: u32 list. s ! n XOR s ! ?p XOR push_bit 16 (s ! n) XOR push_bit 15 (s ! ?p))"
  define c where "c = (\<lambda>s :: u32 list. s ! ?q XOR drop_bit 11 (s ! ?q))"
  define rest where "rest = (\<lambda>s. let v = b s XOR c s in b s XOR (v XOR (push_bit 5 v AND 0xDA442D24)) XOR push_bit 18 (b s) XOR push_bit 28 (c s))"
  have core: "well512_core n s = s[n := b s XOR c s, ?m := (s ! ?m XOR push_bit 2 (s ! ?m)) XOR rest s]" for s
    unfolding well512_core_def Let_def b_def c_def rest_def xor_six ..
  have d: "?m \<noteq> n" "?p \<noteq> n" "?q \<noteq> n" "?p \<noteq> ?m" "?q \<noteq> ?m" "?m < 16" "?p < 16" "?q < 16"
    using assms(4) by (auto simp: ring_step)
  have other: "s ! j = t ! j" if "j \<noteq> n" "j \<noteq> ?m" "j < 16" for j
    using arg_cong[OF assms(1), of "\<lambda>l. l ! j"] that assms(2-4) unfolding core by simp
  have v: "b s XOR c s = b t XOR c t" using arg_cong[OF assms(1), of "\<lambda>l. l ! n"] assms(2-4) d unfolding core by simp
  have c: "c s = c t" using other[OF d(3,5,8)] by (simp add: c_def)
  have b: "b s = b t" using v unfolding c xor_same_eq .
  have "(s ! n XOR push_bit 16 (s ! n)) XOR (s ! ?p XOR push_bit 15 (s ! ?p)) = (t ! n XOR push_bit 16 (t ! n)) XOR (s ! ?p XOR push_bit 15 (s ! ?p))"
    using b other[OF d(2,4,7)] unfolding b_def by (simp add: ac_simps xor.left_commute)
  then have "s ! n XOR push_bit 16 (s ! n) = t ! n XOR push_bit 16 (t ! n)" unfolding xor_same_eq .
  then have n: "s ! n = t ! n" by (rule xor_push_bit_inj[rotated]) simp
  have "rest s = rest t" unfolding rest_def b c ..
  then have "(s ! ?m XOR push_bit 2 (s ! ?m)) XOR rest t = (t ! ?m XOR push_bit 2 (t ! ?m)) XOR rest t"
    using arg_cong[OF assms(1), of "\<lambda>l. l ! ?m"] assms(2-4) d unfolding core by simp
  then have "s ! ?m XOR push_bit 2 (s ! ?m) = t ! ?m XOR push_bit 2 (t ! ?m)" unfolding xor_same_eq .
  then have m: "s ! ?m = t ! ?m" by (rule xor_push_bit_inj[rotated]) simp
  show ?thesis
  proof (rule nth_equalityI)
    fix j assume "j < length s"
    then show "s ! j = t ! j" using other n m assms(2) by (cases "j = n \<or> j = ?m") auto
  qed (simp add: assms)
qed

lemma seed_words_grow: "set (well512_seed_words n s) \<subseteq> set (well512_seed_words (Suc n) s)"
  by (auto simp: Let_def)

lemma seed_words_alive: "\<exists>x \<in> set (well512_seed_words (Suc n) s). x \<noteq> 0"
proof (cases "s = 0")
  case True
  have "(1 :: u32) \<in> set (well512_seed_words (Suc n) s)"
  proof (induction n)
    case (Suc n)
    then show ?case using seed_words_grow[of "Suc n" s] by blast
  qed (simp add: True)
  then show ?thesis by (intro bexI[of _ 1]) simp_all
next
  case False
  have "s \<in> set (well512_seed_words n s)" for n
  proof (induction n)
    case (Suc n)
    then show ?case using seed_words_grow[of n s] by blast
  qed simp
  then show ?thesis using False by blast
qed

definition well512_alive :: "well512 \<Rightarrow> bool" where
  "well512_alive w \<longleftrightarrow> well512_ok w \<and> w_state w \<noteq> replicate 16 0"

lemma core_zero:
  assumes "n < 16"
  shows "well512_core n (replicate 16 0) = replicate 16 0"
proof -
  define Z where "Z = replicate 16 (0 :: u32)"
  have nth: "Z ! n = 0" "Z ! ((n + k) mod 16) = 0" for k using assms by (simp_all add: Z_def)
  have "well512_core n Z = Z[n := 0, (n + 15) mod 16 := 0]" unfolding well512_core_def Let_def nth by simp
  also have "Z[n := 0] = Z" using list_update_id[of Z n] nth by simp
  also have "Z[(n + 15) mod 16 := 0] = Z" using list_update_id[of Z "(n + 15) mod 16"] nth(2)[of 15] by simp
  finally show ?thesis by (simp add: Z_def)
qed

lemma numeral_15_eq: "Suc 14 = 15"
  by simp

lemma seed_alive: "well512_alive (well512_seed s)"
proof -
  obtain x where "x \<in> set (w_state (well512_seed s))" "x \<noteq> 0" using seed_words_alive[of 14 s]
    unfolding well512_seed_def by (auto simp del: well512_seed_words.simps simp: numeral_15_eq)
  then show ?thesis using well512_seed_ok by (auto simp: well512_alive_def)
qed

text \<open>A run: the generator after some draws.\<close>

inductive drawn_to :: "well512 \<Rightarrow> well512 \<Rightarrow> bool" where
  start: "drawn_to w w"
| draw: "drawn_to w v \<Longrightarrow> well512_next v = Some (x, v') \<Longrightarrow> drawn_to w v'"

lemma next_alive:
  assumes "well512_alive w" "well512_next w = Some (x, w')"
  shows "well512_alive w'"
proof -
  have ok: "well512_ok w" using assms(1) by (simp add: well512_alive_def)
  have n: "unat (w_index w) < 16" "length (w_state w) = 16" using ok by (simp_all add: well512_ok_def)
  have "w_state w' \<noteq> replicate 16 0"
  proof
    assume "w_state w' = replicate 16 0"
    then have "well512_core (unat (w_index w)) (w_state w) = well512_core (unat (w_index w)) (replicate 16 0)"
      using next_core(1)[OF ok assms(2)] core_zero[OF n(1)] by simp
    then have "w_state w = replicate 16 0" by (rule core_inj) (simp_all add: n)
    then show False using assms(1) by (simp add: well512_alive_def)
  qed
  then show ?thesis using well512_next_ok[OF ok] assms(2) by (auto simp: well512_alive_def)
qed

text \<open>
  C39.  The scripts' generator does not die and does not merge.  From any seed, after any number of
  draws, the index is in range, some word of the state is not zero and the next draw succeeds; and
  two generators in shape that reach the same state and index by a draw had the same before it.
\<close>

theorem script_generator_alive:
  assumes "drawn_to (well512_seed s) w"
  shows "well512_ok w \<and> (\<exists>x \<in> set (w_state w). x \<noteq> 0) \<and> (\<exists>x w'. well512_next w = Some (x, w')
    \<and> (\<forall>v y v'. well512_ok v \<and> well512_next v = Some (y, v') \<and> w_state v' = w_state w' \<and> w_index v' = w_index w'
        \<longrightarrow> w_state v = w_state w \<and> w_index v = w_index w))"
proof -
  have alive: "well512_alive w" using assms
  proof (induction "well512_seed s" w)
    case start
    show ?case by (rule seed_alive)
  next
    case (draw v x v')
    then show ?case using next_alive by blast
  qed
  then have ok: "well512_ok w" and len: "length (w_state w) = 16" by (simp_all add: well512_alive_def well512_ok_def)
  have "\<exists>x \<in> set (w_state w). x \<noteq> 0"
  proof (rule ccontr)
    assume "\<not> ?thesis"
    then have "w_state w = replicate 16 0" using len by (intro replicate_eqI) auto
    then show False using alive by (simp add: well512_alive_def)
  qed
  moreover obtain x w' where x: "well512_next w = Some (x, w')" using well512_next_ok[OF ok] by blast
  moreover have "w_state v = w_state w \<and> w_index v = w_index w"
    if "well512_ok v" "well512_next v = Some (y, v')" "w_state v' = w_state w'" "w_index v' = w_index w'" for v y v'
  proof -
    have r: "unat (w_index v) < 16" "unat (w_index w) < 16" "length (w_state v) = 16" using that(1) ok by (simp_all add: well512_ok_def)
    have "(unat (w_index v) + 15) mod 16 = (unat (w_index w) + 15) mod 16"
      using next_core(2)[OF that(1,2)] next_core(2)[OF ok x] that(4) by simp
    then have i: "unat (w_index v) = unat (w_index w)" using ring_step[OF r(1), of 15] ring_step[OF r(2), of 15] r(1,2) by (simp split: if_splits)
    have "well512_core (unat (w_index w)) (w_state v) = well512_core (unat (w_index w)) (w_state w)"
      using next_core(1)[OF that(1,2)] next_core(1)[OF ok x] that(3) i by simp
    then have "w_state v = w_state w" by (rule core_inj) (simp_all add: r len)
    then show ?thesis using i by (simp add: word_unat_eq_iff)
  qed
  ultimately show ?thesis using ok by blast
qed

theorem script_generator_alive_witness:
  "\<exists>x w. well512_next (well512_seed 0) = Some (x, w) \<and> well512_ok w \<and> (\<exists>y \<in> set (w_state w). y \<noteq> 0)"
proof -
  obtain x w where w: "well512_next (well512_seed 0) = Some (x, w)" using well512_next_ok[OF well512_seed_ok[of 0]] by blast
  from script_generator_alive[OF drawn_to.draw[OF drawn_to.start w]] show ?thesis using w by blast
qed

end
