(* ===== verification/ParticleSystem.thy ===== *)
theory ParticleSystem
  imports BentLaser Xorshift
begin

text \<open>
  The particle systems (\<open>ResourceParticleImpl\<close>): a fixed array of particles of which the first
  \<open>m_iAlive\<close> live, aged in place and filled up by emission, with the generator xoshiro128p.  Vectors
  and \<open>float\<close> arithmetic are those of \<open>BentLaser\<close>.
\<close>

subsection \<open>Types\<close>

text \<open>
  \<open>p_next x\<close> is \<open>std::nextafterf(x, max)\<close>, \<open>p_fraction k\<close> the product of a 24-bit number with
  \<open>0x1.0p-24f\<close>; \<open>p_to_u32\<close> is the conversion to \<open>uint32_t\<close>, \<open>None\<close> for values it is undefined for,
  \<open>p_of_u32\<close> the one back; \<open>p_to_u8\<close> converts a value from 0 to 255; \<open>p_decode\<close> reads the structure
  from its bytes.
\<close>

type_synonym 'f color4 = "'f \<times> 'f \<times> 'f \<times> 'f"

record 'f system_info =
  iBlendInfo :: u32
  nEmission :: int
  fLifetime :: 'f
  fParticleLifeMin :: 'f
  fParticleLifeMax :: 'f
  fDirection :: 'f
  fSpread :: 'f
  bRelative :: bool
  fSpeedMin :: 'f
  fSpeedMax :: 'f
  fGravityMin :: 'f
  fGravityMax :: 'f
  fRadialAccelMin :: 'f
  fRadialAccelMax :: 'f
  fTangentialAccelMin :: 'f
  fTangentialAccelMax :: 'f
  fSizeStart :: 'f
  fSizeEnd :: 'f
  fSizeVar :: 'f
  fSpinStart :: 'f
  fSpinEnd :: 'f
  fSpinVar :: 'f
  colColorStart :: "'f color4"
  colColorEnd :: "'f color4"
  fColorVar :: 'f
  fAlphaVar :: 'f

record 'f particle_ops =
  p_floats :: "'f laser_floats"
  p_next :: "'f \<Rightarrow> 'f"
  p_fraction :: "u32 \<Rightarrow> 'f"
  p_to_u32 :: "'f \<Rightarrow> u32 option"
  p_of_u32 :: "u32 \<Rightarrow> 'f"
  p_to_u8 :: "'f \<Rightarrow> u8"
  p_cos :: "'f \<Rightarrow> 'f"
  p_sin :: "'f \<Rightarrow> 'f"
  p_half_pi :: 'f
  p_decode :: "u8 list \<Rightarrow> 'f system_info"

record 'f hge_particle =
  vecLocation :: "'f vec2"
  vecVelocity :: "'f vec2"
  fGravity :: 'f
  fRadialAccel :: 'f
  fTangentialAccel :: 'f
  fSpin :: 'f
  fSpinDelta :: 'f
  fSize :: 'f
  fSizeDelta :: 'f
  colColor :: "'f color4"
  colColorDelta :: "'f color4"
  fAge :: 'f
  fTerminalAge :: 'f

text \<open>The blend modes by their numbers.\<close>

definition MulAlpha :: u8 where "MulAlpha = 1"
definition MulAdd :: u8 where "MulAdd = 2"
definition AddAlpha :: u8 where "AddAlpha = 5"
definition AddAdd :: u8 where "AddAdd = 6"

record 'f particle_info =
  tParticleSystemInfo :: "'f system_info"
  eBlendMode :: u8
  colVertexColor :: "'f color4"

datatype pool_status = PoolAlive | PoolSleep

definition LPARTICLE_MAXCNT :: nat where "LPARTICLE_MAXCNT = 500"

record 'f particle_pool =
  m_Info :: "'f particle_info"
  m_ParticlePool :: "'f hge_particle list"
  m_Random :: "u32 x4"
  m_RandomSeed :: u32
  m_iStatus :: pool_status
  m_vCenter :: "'f vec2"
  m_vPrevCenter :: "'f vec2"
  m_iAlive :: u64
  m_fDirection :: 'f
  m_fAge :: 'f
  m_fEmissionResidue :: 'f
  m_bOldBehavior :: bool

subsection \<open>Resources\<close>

definition LoadFromInfo :: "'f particle_info \<Rightarrow> 'f particle_info" where
  "LoadFromInfo I = (let b = drop_bit 16 (iBlendInfo (tParticleSystemInfo I)) AND 3 in
     I\<lparr>tParticleSystemInfo := (tParticleSystemInfo I)\<lparr>iBlendInfo := b\<rparr>,
       eBlendMode := (if b AND 1 \<noteq> 0 then (if b AND 2 \<noteq> 0 then AddAlpha else AddAdd)
                      else (if b AND 2 \<noteq> 0 then MulAlpha else MulAdd))\<rparr>)"

text \<open>The structure has 128 bytes.\<close>

definition LoadFromMemory :: "'f particle_ops \<Rightarrow> u8 list \<Rightarrow> 'f particle_info \<Rightarrow> bool \<times> 'f particle_info" where
  "LoadFromMemory D bytes I = (if length bytes \<noteq> 128 then (False, I)
     else (True, LoadFromInfo (I\<lparr>tParticleSystemInfo := p_decode D bytes\<rparr>)))"

definition new_particle_resource :: "'f laser_floats \<Rightarrow> 'f system_info \<Rightarrow> 'f particle_info" where
  "new_particle_resource F S = (let z = l_const F 1 in
     LoadFromInfo \<lparr>tParticleSystemInfo = S, eBlendMode = MulAlpha, colVertexColor = (z, z, z, z)\<rparr>)"

subsection \<open>Members\<close>

definition RandomFloat :: "'f particle_ops \<Rightarrow> 'f \<Rightarrow> 'f \<Rightarrow> u32 x4 \<Rightarrow> 'f \<times> u32 x4" where
  "RandomFloat D a b g = (let F = p_floats D; (a, b) = (if l_lt F a b then (b, a) else (a, b));
     c = l_sub F (p_next D b) a; (x, g) = xoshiro128p_next g
   in (l_add F a (l_mul F c (p_fraction D (drop_bit 8 x))), g))"

definition particle_SetSeed :: "u32 \<Rightarrow> 'f particle_pool \<Rightarrow> 'f particle_pool" where
  "particle_SetSeed s W = W\<lparr>m_RandomSeed := s, m_Random := xoshiro128_seed (ucast s)\<rparr>"

text \<open>A new pool: \<open>seed\<close> is what \<open>std::rand\<close> gives, \<open>junk\<close> the content of the array before.\<close>

definition new_particle_pool :: "'f laser_floats \<Rightarrow> 'f particle_info \<Rightarrow> u32 \<Rightarrow> 'f hge_particle \<Rightarrow> 'f particle_pool" where
  "new_particle_pool F I seed junk = (let z = l_const F 0 in
     particle_SetSeed seed \<lparr>m_Info = I, m_ParticlePool = replicate LPARTICLE_MAXCNT junk, m_Random = xoshiro128_seed 0, m_RandomSeed = 0,
       m_iStatus = PoolAlive, m_vCenter = (z, z), m_vPrevCenter = (z, z), m_iAlive = 0, m_fDirection = z, m_fAge = z,
       m_fEmissionResidue = z, m_bOldBehavior = True\<rparr>)"

definition l_clamp :: "'f laser_floats \<Rightarrow> 'f \<Rightarrow> 'f \<Rightarrow> 'f \<Rightarrow> 'f" where
  "l_clamp F v lo hi = (if l_lt F v lo then lo else if l_lt F hi v then hi else v)"

definition to_byte :: "'f particle_ops \<Rightarrow> 'f \<Rightarrow> u8" where
  "to_byte D v = p_to_u8 D (l_clamp (p_floats D) v (l_const (p_floats D) 0) (l_const (p_floats D) 255))"

text \<open>A color as its red, green, blue and alpha.\<close>

type_synonym color_bytes = "u8 \<times> u8 \<times> u8 \<times> u8"

definition byte_value :: "'f laser_floats \<Rightarrow> u8 \<Rightarrow> 'f" where
  "byte_value F b = l_const F (uint b)"

definition particle_GetVertexColor :: "'f particle_ops \<Rightarrow> 'f particle_pool \<Rightarrow> color_bytes" where
  "particle_GetVertexColor D W = (let F = p_floats D; f = (\<lambda>x. to_byte D (l_mul F x (l_const F 255))) in
     case colVertexColor (m_Info W) of (r, g, b, a) \<Rightarrow> (f r, f g, f b, f a))"

definition particle_SetVertexColor :: "'f laser_floats \<Rightarrow> color_bytes \<Rightarrow> 'f particle_pool \<Rightarrow> 'f particle_pool" where
  "particle_SetVertexColor F c W = (let f = (\<lambda>x. l_div F (byte_value F x) (l_const F 255)) in
     case c of (r, g, b, a) \<Rightarrow> W\<lparr>m_Info := (m_Info W)\<lparr>colVertexColor := (f r, f g, f b, f a)\<rparr>\<rparr>)"

definition particle_SetBlendMode :: "u8 \<Rightarrow> 'f particle_pool \<Rightarrow> 'f particle_pool" where
  "particle_SetBlendMode m W = W\<lparr>m_Info := (m_Info W)\<lparr>eBlendMode := m\<rparr>\<rparr>"

definition particle_SetEmission :: "int \<Rightarrow> 'f particle_pool \<Rightarrow> 'f particle_pool" where
  "particle_SetEmission e W = W\<lparr>m_Info := (m_Info W)\<lparr>tParticleSystemInfo := (tParticleSystemInfo (m_Info W))\<lparr>nEmission := e\<rparr>\<rparr>\<rparr>"

definition particle_SetActive :: "'f laser_floats \<Rightarrow> bool \<Rightarrow> 'f particle_pool \<Rightarrow> 'f particle_pool" where
  "particle_SetActive F v W = (if v then W\<lparr>m_iStatus := PoolAlive, m_fAge := l_const F 0\<rparr> else W\<lparr>m_iStatus := PoolSleep\<rparr>)"

definition particle_SetCenter :: "'f vec2 \<Rightarrow> 'f particle_pool \<Rightarrow> 'f particle_pool" where
  "particle_SetCenter p W = W\<lparr>m_vPrevCenter := (if m_iStatus W = PoolAlive then m_vCenter W else p), m_vCenter := p\<rparr>"

definition particle_SetRotation :: "'f \<Rightarrow> 'f particle_pool \<Rightarrow> 'f particle_pool" where
  "particle_SetRotation d W = W\<lparr>m_fDirection := d\<rparr>"

subsection \<open>Aging\<close>

definition color4_map2 :: "('f \<Rightarrow> 'f \<Rightarrow> 'f) \<Rightarrow> 'f color4 \<Rightarrow> 'f color4 \<Rightarrow> 'f color4" where
  "color4_map2 f c d = (case (c, d) of ((r, g, b, a), (r', g', b', a')) \<Rightarrow> (f r r', f g g', f b b', f a a'))"

definition grow_older :: "'f laser_floats \<Rightarrow> 'f \<Rightarrow> 'f hge_particle \<Rightarrow> 'f hge_particle" where
  "grow_older F dt p = p\<lparr>fAge := l_add F (fAge p) dt\<rparr>"

definition expired :: "'f laser_floats \<Rightarrow> 'f hge_particle \<Rightarrow> bool" where
  "expired F p \<longleftrightarrow> l_le F (fTerminalAge p) (fAge p)"

text \<open>The movement of a particle that lives on.\<close>

definition advance_particle :: "'f laser_floats \<Rightarrow> 'f vec2 \<Rightarrow> 'f \<Rightarrow> 'f hge_particle \<Rightarrow> 'f hge_particle" where
  "advance_particle F center dt p = (let accel = v2_normalized F (v2_sub F (vecLocation p) center); accel2 = accel;
     accel = v2_scale F accel (fRadialAccel p); accel2 = (snd accel2, fst accel2); accel2 = (l_neg F (fst accel2), snd accel2);
     accel2 = v2_scale F accel2 (fTangentialAccel p);
     v = v2_add F (vecVelocity p) (v2_scale F (v2_add F accel accel2) dt);
     v = (fst v, l_add F (snd v) (l_mul F (fGravity p) dt))
   in p\<lparr>vecVelocity := v, vecLocation := v2_add F (vecLocation p) (v2_scale F v dt),
        fSpin := l_add F (fSpin p) (l_mul F (fSpinDelta p) dt), fSize := l_add F (fSize p) (l_mul F (fSizeDelta p) dt),
        colColor := color4_map2 (\<lambda>c d. l_add F c (l_mul F d dt)) (colColor p) (colColorDelta p)\<rparr>)"

lemma unat_next: "i < (a :: u64) \<Longrightarrow> unat (i + 1) = Suc (unat i)"
proof -
  assume "i < a"
  then have "unat i + 1 < 2 ^ 64" using unsigned_less[of a, where ?'a = nat] by (simp add: word_less_nat_alt)
  then show ?thesis by (simp add: unat_word_ariths)
qed

lemma unat_before: "i < (a :: u64) \<Longrightarrow> unat (a - 1) = unat a - 1"
  by (metis unat_minus_one word_not_simps(1))

text \<open>
  The loop over the living particles.  A particle that expires is replaced by the last one, and the
  index steps back, from 0 to \<open>2 ^ 64 - 1\<close>, before it steps forward.
\<close>

function aging_loop :: "'f laser_floats \<Rightarrow> 'f vec2 \<Rightarrow> 'f \<Rightarrow> u64 \<Rightarrow> 'f hge_particle list \<Rightarrow> u64 \<Rightarrow> ('f hge_particle list \<times> u64) option" where
  "aging_loop F center dt i xs alive = (if \<not> i < alive then Some (xs, alive)
     else if \<not> unat i < length xs then None
     else (let p = grow_older F dt (xs ! unat i); xs = xs[unat i := p] in
       if expired F p then (let alive = alive - 1 in
         if i < alive then (if \<not> unat alive < length xs then None
              else aging_loop F center dt (i - 1 + 1) (xs[unat i := xs ! unat alive]) alive)
         else aging_loop F center dt (i - 1 + 1) xs alive)
       else aging_loop F center dt (i + 1) (xs[unat i := advance_particle F center dt p]) alive))"
  by pat_completeness auto
termination
  by (relation "measure (\<lambda>(F, c, dt, i, xs, alive). unat alive - unat i)") (auto simp: unat_next unat_before word_less_nat_alt)

declare aging_loop.simps [simp del]

subsection \<open>Emission\<close>

text \<open>The angle a new particle leaves at, with the draw it needs.\<close>

definition spawn_angle :: "'f particle_ops \<Rightarrow> 'f particle_pool \<Rightarrow> u32 x4 \<Rightarrow> 'f \<times> u32 x4" where
  "spawn_angle D W g = (let F = p_floats D; S = tParticleSystemInfo (m_Info W); h = p_half_pi D; z = l_const F 0; two = l_const F 2 in
     if m_bOldBehavior W
     then let base = l_sub F (l_sub F (m_fDirection W) h) h; (x, g) = RandomFloat D z (fSpread S) g
          in (l_sub F (l_add F base x) (l_div F (fSpread S) two), g)
     else let base = l_add F (l_neg F (fDirection S)) h; (x, g) = RandomFloat D z (fSpread S) g;
              ang = l_sub F (l_add F base x) (l_div F (fSpread S) two);
              ang = (if bRelative S then l_add F ang (l_add F (v2_angle F (v2_sub F (m_vPrevCenter W) (m_vCenter W))) h) else ang)
          in (l_add F ang (m_fDirection W), g))"

text \<open>\<open>RandomFloat(start, start + (end - start) * var)\<close>.\<close>

definition random_varied :: "'f particle_ops \<Rightarrow> 'f \<Rightarrow> 'f \<Rightarrow> 'f \<Rightarrow> u32 x4 \<Rightarrow> 'f \<times> u32 x4" where
  "random_varied D start goal var g = (let F = p_floats D in
     RandomFloat D start (l_add F start (l_mul F (l_sub F goal start) var)) g)"

text \<open>A new particle: every member is set, in the order of the code.\<close>

definition spawn_particle :: "'f particle_ops \<Rightarrow> 'f particle_pool \<Rightarrow> u32 x4 \<Rightarrow> 'f hge_particle \<times> u32 x4" where
  "spawn_particle D W g = (let F = p_floats D; S = tParticleSystemInfo (m_Info W); c = l_const F;
     (terminal, g) = RandomFloat D (fParticleLifeMin S) (fParticleLifeMax S) g;
     (along, g) = RandomFloat D (c 0) (c 1) g;
     loc = v2_add F (m_vPrevCenter W) (v2_scale F (v2_sub F (m_vCenter W) (m_vPrevCenter W)) along);
     (dx, g) = RandomFloat D (c (- 2)) (c 2) g; loc = (l_add F (fst loc) dx, snd loc);
     (dy, g) = RandomFloat D (c (- 2)) (c 2) g; loc = (fst loc, l_add F (snd loc) dy);
     (ang, g) = spawn_angle D W g;
     (speed, g) = RandomFloat D (fSpeedMin S) (fSpeedMax S) g;
     (gravity, g) = RandomFloat D (fGravityMin S) (fGravityMax S) g;
     (radial, g) = RandomFloat D (fRadialAccelMin S) (fRadialAccelMax S) g;
     (tangential, g) = RandomFloat D (fTangentialAccelMin S) (fTangentialAccelMax S) g;
     (sz, g) = random_varied D (fSizeStart S) (fSizeEnd S) (fSizeVar S) g;
     (spin, g) = random_varied D (fSpinStart S) (fSpinEnd S) (fSpinVar S) g;
     (sr, sg, sb, sa) = colColorStart S; (er, eg, eb, ea) = colColorEnd S;
     (r, g) = random_varied D sr er (fColorVar S) g;
     (gr, g) = random_varied D sg eg (fColorVar S) g;
     (b, g) = random_varied D sb eb (fColorVar S) g;
     (a, g) = random_varied D sa ea (fAlphaVar S) g;
     delta = (\<lambda>goal start. l_div F (l_sub F goal start) terminal)
   in (\<lparr>vecLocation = loc, vecVelocity = v2_scale F (p_cos D ang, p_sin D ang) speed, fGravity = gravity, fRadialAccel = radial,
        fTangentialAccel = tangential, fSpin = spin, fSpinDelta = delta (fSpinEnd S) spin, fSize = sz, fSizeDelta = delta (fSizeEnd S) sz,
        colColor = (r, gr, b, a), colColorDelta = color4_map2 delta (er, eg, eb, ea) (r, gr, b, a),
        fAge = c 0, fTerminalAge = terminal\<rparr>, g))"

text \<open>At most \<open>k\<close> new particles, as many as there is room for.\<close>

primrec emission_loop :: "'f particle_ops \<Rightarrow> nat \<Rightarrow> 'f particle_pool \<Rightarrow> 'f particle_pool" where
  "emission_loop D 0 W = W"
| "emission_loop D (Suc k) W = (if unat (m_iAlive W) \<ge> length (m_ParticlePool W) then W
     else let (p, g) = spawn_particle D W (m_Random W) in
       emission_loop D k (W\<lparr>m_ParticlePool := (m_ParticlePool W)[unat (m_iAlive W) := p], m_iAlive := m_iAlive W + 1, m_Random := g\<rparr>))"

text \<open>How many particles are due and what is left over; \<open>None\<close> when the conversion is undefined.\<close>

definition particles_due :: "'f particle_ops \<Rightarrow> 'f \<Rightarrow> 'f particle_pool \<Rightarrow> (u32 \<times> 'f) option" where
  "particles_due D dt W = (let F = p_floats D; needed = l_add F (l_mul F (l_const F (nEmission (tParticleSystemInfo (m_Info W)))) dt) (m_fEmissionResidue W)
     in map_option (\<lambda>n. (n, l_sub F needed (p_of_u32 D n))) (p_to_u32 D needed))"

definition age_pool :: "'f laser_floats \<Rightarrow> 'f \<Rightarrow> 'f particle_pool \<Rightarrow> 'f particle_pool" where
  "age_pool F dt W = (let life = fLifetime (tParticleSystemInfo (m_Info W)) in
     if m_iStatus W = PoolAlive
     then let W = W\<lparr>m_fAge := l_add F (m_fAge W) dt\<rparr> in
       if l_le F life (m_fAge W) \<and> l_le F (l_const F 0) life then W\<lparr>m_iStatus := PoolSleep\<rparr> else W
     else W)"

definition particle_Update :: "'f particle_ops \<Rightarrow> 'f \<Rightarrow> 'f particle_pool \<Rightarrow> 'f particle_pool option" where
  "particle_Update D dt W = (let F = p_floats D; W = age_pool F dt W in
     Option.bind (aging_loop F (m_vCenter W) dt 0 (m_ParticlePool W) (m_iAlive W)) (\<lambda>(xs, alive).
       let W = W\<lparr>m_ParticlePool := xs, m_iAlive := alive\<rparr> in
       map_option (\<lambda>W. W\<lparr>m_vPrevCenter := m_vCenter W\<rparr>)
         (if m_iStatus W = PoolAlive
          then map_option (\<lambda>(n, rest). emission_loop D (unat n) (W\<lparr>m_fEmissionResidue := rest\<rparr>)) (particles_due D dt W)
          else Some W)))"

subsection \<open>Rendering\<close>

text \<open>What is drawn: color, position, scale and angle of the sprite, in order.\<close>

type_synonym 'f particle_draw = "color_bytes \<times> 'f vec2 \<times> 'f vec2 \<times> 'f"

definition particle_color :: "'f particle_ops \<Rightarrow> 'f system_info \<Rightarrow> color_bytes \<Rightarrow> 'f hge_particle \<Rightarrow> color_bytes" where
  "particle_color D S vertex p = (let F = p_floats D; f = (\<lambda>x v. to_byte D (l_mul F x (byte_value F v))) in
     case (vertex, colColor p) of ((r, g, b, a), (cr, cg, cb, ca)) \<Rightarrow>
       if l_lt F (fst (colColorStart S)) (l_const F 0) then (r, g, b, f ca a) else (f cr r, f cg g, f cb b, f ca a))"

definition particle_Render :: "'f particle_ops \<Rightarrow> 'f \<Rightarrow> 'f \<Rightarrow> 'f particle_pool \<Rightarrow> 'f particle_draw list option" where
  "particle_Render D scaleX scaleY W = (let F = p_floats D in
     those (map (\<lambda>i. if i < length (m_ParticlePool W) then let p = m_ParticlePool W ! i in
         Some (particle_color D (tParticleSystemInfo (m_Info W)) (particle_GetVertexColor D W) p, vecLocation p,
           (l_mul F scaleX (fSize p), l_mul F scaleY (fSize p)), fSpin p)
       else None) [0..<unat (m_iAlive W)]))"

end
