(* ===== verification/ParticleCorrect.thy ===== *)
theory ParticleCorrect
  imports "HOL-Library.Multiset" BentLaserCorrect ParticleSystem
begin

text \<open>
  What an update of a particle system does, and how many particles it emits over time.
\<close>

subsection \<open>A segment of the array\<close>

definition segment :: "nat \<Rightarrow> nat \<Rightarrow> 'a list \<Rightarrow> 'a list" where
  "segment i n xs = drop i (take n xs)"

lemma segment_empty [simp]: "segment n n xs = []"
  by (simp add: segment_def)

lemma segment_Cons: "i < n \<Longrightarrow> n \<le> length xs \<Longrightarrow> segment i n xs = xs ! i # segment (Suc i) n xs"
  using Cons_nth_drop_Suc[of i "take n xs"] by (simp add: segment_def)

lemma segment_snoc: "i \<le> n \<Longrightarrow> n < length xs \<Longrightarrow> segment i (Suc n) xs = segment i n xs @ [xs ! n]"
  by (simp add: segment_def take_Suc_conv_app_nth)

lemma segment_update: "j < i \<Longrightarrow> segment i n (xs[j := x]) = segment i n xs"
  by (simp add: segment_def take_update_swap)

lemma segment_replace:
  assumes "Suc i < n" "n \<le> length xs"
  shows "mset (segment i (n - 1) (xs[i := xs ! (n - 1)])) = mset (segment (Suc i) n xs)"
proof -
  obtain m where n: "n = Suc m" using assms(1) by (cases n) auto
  have "segment i m (xs[i := xs ! m]) = xs ! m # segment (Suc i) m xs"
    using segment_Cons[of i m "xs[i := xs ! m]"] segment_update[of i "Suc i" m xs "xs ! m"] assms n by simp
  moreover have "segment (Suc i) (Suc m) xs = segment (Suc i) m xs @ [xs ! m]"
    using segment_snoc[of "Suc i" m xs] assms n by simp
  ultimately show ?thesis using n by simp
qed

subsection \<open>Aging\<close>

definition survivors :: "'f laser_floats \<Rightarrow> 'f vec2 \<Rightarrow> 'f \<Rightarrow> 'f hge_particle list \<Rightarrow> 'f hge_particle multiset" where
  "survivors F center dt xs = image_mset (advance_particle F center dt)
     (filter_mset (\<lambda>p. \<not> expired F p) (image_mset (grow_older F dt) (mset xs)))"

lemma survivors_Cons: "survivors F c dt (x # xs)
    = (if expired F (grow_older F dt x) then survivors F c dt xs
       else add_mset (advance_particle F c dt (grow_older F dt x)) (survivors F c dt xs))"
  by (simp add: survivors_def)

lemma survivors_mset: "mset xs = mset ys \<Longrightarrow> survivors F c dt xs = survivors F c dt ys"
  by (simp add: survivors_def)

lemma aging_loop_correct:
  assumes "unat i \<le> unat alive" "unat alive \<le> length xs"
  shows "\<exists>ys alive'. aging_loop F c dt i xs alive = Some (ys, alive') \<and> length ys = length xs \<and> unat i \<le> unat alive'
    \<and> unat alive' \<le> unat alive \<and> take (unat i) ys = take (unat i) xs
    \<and> mset (segment (unat i) (unat alive') ys) = survivors F c dt (segment (unat i) (unat alive) xs)"
  using assms
proof (induction "unat alive - unat i" arbitrary: i alive xs rule: less_induct)
  case less
  show ?case
  proof (cases "i < alive")
    case False
    then have "unat alive = unat i" using less.prems by (simp add: word_less_nat_alt)
    then show ?thesis using False by (intro exI[of _ xs] exI[of _ alive]) (simp add: aging_loop.simps survivors_def)
  next
    case True
    let ?p = "grow_older F dt (xs ! unat i)" and ?a = "advance_particle F c dt (grow_older F dt (xs ! unat i))"
    have i: "unat i < unat alive" "unat i < length xs" using True less.prems by (simp_all add: word_less_nat_alt)
    note seg = segment_Cons[OF i(1) less.prems(2)]
    show ?thesis
    proof (cases "expired F ?p")
      case live: False
      have n: "unat (i + 1) = Suc (unat i)" by (rule unat_next[OF True])
      have "unat alive - unat (i + 1) < unat alive - unat i" using n i by simp
      from less.hyps[OF this, of "xs[unat i := ?a]"] obtain ys alive' where r:
          "aging_loop F c dt (i + 1) (xs[unat i := ?a]) alive = Some (ys, alive')" "length ys = length xs" "Suc (unat i) \<le> unat alive'"
          "unat alive' \<le> unat alive" "take (Suc (unat i)) ys = take (Suc (unat i)) (xs[unat i := ?a])"
          "mset (segment (Suc (unat i)) (unat alive') ys) = survivors F c dt (segment (Suc (unat i)) (unat alive) (xs[unat i := ?a]))"
        using n i less.prems by auto
      have "ys ! unat i = take (Suc (unat i)) ys ! unat i" by simp
      also have "\<dots> = ?a" unfolding r(5) using i by simp
      finally have y: "ys ! unat i = ?a" .
      have t: "take (unat i) ys = take (unat i) xs"
        using arg_cong[OF r(5), of "take (unat i)"] by (simp add: min_def)
      have "segment (unat i) (unat alive') ys = ?a # segment (Suc (unat i)) (unat alive') ys"
        using segment_Cons[of "unat i" "unat alive'" ys] r(2-4) less.prems y by simp
      moreover have "aging_loop F c dt i xs alive = Some (ys, alive')"
        using r(1) True i live by (subst aging_loop.simps) (simp add: Let_def)
      ultimately show ?thesis using r(2-4,6) live t seg
        by (intro exI[of _ ys] exI[of _ alive'])
          (simp add: survivors_Cons segment_update)
    next
      case gone: True
      define b where "b = alive - 1"
      define zs where "zs = (if i < b then xs[unat i := xs ! unat b] else xs[unat i := ?p])"
      have n: "unat b = unat alive - 1" unfolding b_def by (rule unat_before[OF True])
      have zs: "length zs = length xs" "take (unat i) zs = take (unat i) xs" unfolding zs_def by simp_all
      have same: "mset (segment (unat i) (unat b) zs) = mset (segment (Suc (unat i)) (unat alive) xs)"
      proof (cases "i < b")
        case True
        then show ?thesis using segment_replace[of "unat i" "unat alive" xs] n less.prems by (simp add: zs_def word_less_nat_alt)
      next
        case False
        then have "unat alive = Suc (unat i)" using n i by (simp add: word_less_nat_alt)
        then show ?thesis using n by simp
      qed
      have loop: "aging_loop F c dt i xs alive = aging_loop F c dt i zs b"
        using True i gone n less.prems by (subst aging_loop.simps) (simp add: Let_def word_less_nat_alt b_def zs_def)
      have "unat b - unat i < unat alive - unat i" "unat i \<le> unat b" "unat b \<le> length zs" using n i less.prems zs by simp_all
      from less.hyps[OF this] obtain ys alive' where r:
          "aging_loop F c dt i zs b = Some (ys, alive')" "length ys = length zs" "unat i \<le> unat alive'"
          "unat alive' \<le> unat b" "take (unat i) ys = take (unat i) zs"
          "mset (segment (unat i) (unat alive') ys) = survivors F c dt (segment (unat i) (unat b) zs)" by blast
      have "survivors F c dt (segment (unat i) (unat b) zs) = survivors F c dt (segment (unat i) (unat alive) xs)"
        using survivors_mset[OF same] gone seg by (simp add: survivors_Cons)
      then show ?thesis using r zs n loop by (intro exI[of _ ys] exI[of _ alive']) simp
    qed
  qed
qed

subsection \<open>Emission\<close>

text \<open>The living particles; the array has its fixed length and the count stays within it.\<close>

definition living :: "'f particle_pool \<Rightarrow> 'f hge_particle list" where
  "living W = take (unat (m_iAlive W)) (m_ParticlePool W)"

definition particles_ok :: "'f particle_pool \<Rightarrow> bool" where
  "particles_ok W \<longleftrightarrow> length (m_ParticlePool W) = LPARTICLE_MAXCNT \<and> unat (m_iAlive W) \<le> LPARTICLE_MAXCNT"

text \<open>The same settings: everything emission reads besides the array and the generator.\<close>

definition same_source :: "'f particle_pool \<Rightarrow> 'f particle_pool \<Rightarrow> bool" where
  "same_source W V \<longleftrightarrow> m_Info W = m_Info V \<and> m_vCenter W = m_vCenter V \<and> m_vPrevCenter W = m_vPrevCenter V
     \<and> m_fDirection W = m_fDirection V \<and> m_bOldBehavior W = m_bOldBehavior V"

lemma spawn_same:
  assumes "same_source W V"
  shows "spawn_particle D W g = spawn_particle D V g"
proof -
  have W: "m_Info W = m_Info V" "m_vCenter W = m_vCenter V" "m_vPrevCenter W = m_vPrevCenter V" "m_fDirection W = m_fDirection V"
    "m_bOldBehavior W = m_bOldBehavior V"
    using assms by (simp_all add: same_source_def)
  have "spawn_angle D W = spawn_angle D V" unfolding spawn_angle_def by (simp only: W)
  then show ?thesis unfolding spawn_particle_def by (simp only: W)
qed

lemma spawn_age: "fAge (fst (spawn_particle D W g)) = l_const (p_floats D) 0"
  by (simp add: spawn_particle_def Let_def split: prod.split)

definition spawned :: "'f particle_ops \<Rightarrow> 'f particle_pool \<Rightarrow> 'f hge_particle \<Rightarrow> bool" where
  "spawned D W p \<longleftrightarrow> (\<exists>g. p = fst (spawn_particle D W g))"

lemma spawned_age: "spawned D W p \<Longrightarrow> fAge p = l_const (p_floats D) 0"
  using spawn_age by (auto simp: spawned_def)

lemma emission_loop_correct:
  assumes "particles_ok W"
  shows "\<exists>news. living (emission_loop D k W) = living W @ news \<and> length news = min k (LPARTICLE_MAXCNT - length (living W))
    \<and> particles_ok (emission_loop D k W) \<and> same_source (emission_loop D k W) W \<and> m_iStatus (emission_loop D k W) = m_iStatus W
    \<and> m_fEmissionResidue (emission_loop D k W) = m_fEmissionResidue W \<and> m_fAge (emission_loop D k W) = m_fAge W
    \<and> (\<forall>p \<in> set news. spawned D W p)"
  using assms
proof (induction k arbitrary: W)
  case 0
  then show ?case by (simp add: same_source_def)
next
  case (Suc k)
  have len: "length (living W) = unat (m_iAlive W)" using Suc.prems by (simp add: living_def particles_ok_def)
  show ?case
  proof (cases "unat (m_iAlive W) \<ge> length (m_ParticlePool W)")
    case True
    then show ?thesis using Suc.prems len by (simp add: same_source_def particles_ok_def)
  next
    case False
    obtain p g where p: "spawn_particle D W (m_Random W) = (p, g)" by fastforce
    let ?W = "W\<lparr>m_ParticlePool := (m_ParticlePool W)[unat (m_iAlive W) := p], m_iAlive := m_iAlive W + 1, m_Random := g\<rparr>"
    have a: "unat (m_iAlive W) < 500" using False Suc.prems by (simp add: particles_ok_def LPARTICLE_MAXCNT_def)
    then have n: "unat (m_iAlive W + 1) = Suc (unat (m_iAlive W))" by (simp add: unat_word_ariths)
    have ok: "particles_ok ?W" using Suc.prems a n by (simp add: particles_ok_def LPARTICLE_MAXCNT_def)
    have src: "same_source ?W W" by (simp add: same_source_def)
    have live: "living ?W = living W @ [p]" using n a Suc.prems
      by (simp add: living_def particles_ok_def LPARTICLE_MAXCNT_def take_Suc_conv_app_nth)
    from Suc.IH[OF ok] obtain news where r: "living (emission_loop D k ?W) = living ?W @ news"
        "length news = min k (LPARTICLE_MAXCNT - length (living ?W))" "particles_ok (emission_loop D k ?W)"
        "same_source (emission_loop D k ?W) ?W" "m_iStatus (emission_loop D k ?W) = m_iStatus ?W"
        "m_fEmissionResidue (emission_loop D k ?W) = m_fEmissionResidue ?W" "m_fAge (emission_loop D k ?W) = m_fAge ?W"
        "\<forall>q \<in> set news. spawned D ?W q" by blast
    have e: "emission_loop D (Suc k) W = emission_loop D k ?W" using False p by simp
    have "spawned D W p" using p by (auto simp: spawned_def intro!: exI[of _ "m_Random W"])
    moreover have "\<forall>q \<in> set news. spawned D W q" using r(8) spawn_same[OF src] by (simp add: spawned_def)
    moreover have "length (p # news) = min (Suc k) (LPARTICLE_MAXCNT - length (living W))"
      using r(2) live len a by (simp add: LPARTICLE_MAXCNT_def)
    ultimately show ?thesis unfolding e using r(1,3-7) live
      by (intro exI[of _ "p # news"]) (simp add: same_source_def)
  qed
qed

subsection \<open>The update\<close>

lemma ex3I: "Q a b c \<Longrightarrow> \<exists>x y z. Q x y z"
  by blast

lemma age_pool_fields [simp]:
  "m_ParticlePool (age_pool F dt W) = m_ParticlePool W" "m_iAlive (age_pool F dt W) = m_iAlive W" "m_vCenter (age_pool F dt W) = m_vCenter W"
  "m_vPrevCenter (age_pool F dt W) = m_vPrevCenter W" "m_Info (age_pool F dt W) = m_Info W" "m_fDirection (age_pool F dt W) = m_fDirection W"
  "m_bOldBehavior (age_pool F dt W) = m_bOldBehavior W" "m_fEmissionResidue (age_pool F dt W) = m_fEmissionResidue W"
  "m_Random (age_pool F dt W) = m_Random W"
  by (simp_all add: age_pool_def Let_def)

lemma particles_due_cong:
  "m_Info W = m_Info V \<Longrightarrow> m_fEmissionResidue W = m_fEmissionResidue V \<Longrightarrow> particles_due D dt W = particles_due D dt V"
  by (simp add: particles_due_def)

lemma update_effect:
  assumes "particles_ok W" "m_iStatus (age_pool (p_floats D) dt W) = PoolAlive \<Longrightarrow> particles_due D dt W = Some (n, rest)"
  shows "\<exists>W' old news. particle_Update D dt W = Some W' \<and> particles_ok W' \<and> living W' = old @ news
    \<and> mset old = survivors (p_floats D) (m_vCenter W) dt (living W)
    \<and> m_iStatus W' = m_iStatus (age_pool (p_floats D) dt W)
    \<and> length news = (if m_iStatus W' = PoolAlive then min (unat n) (LPARTICLE_MAXCNT - length old) else 0)
    \<and> (\<forall>p \<in> set news. fAge p = l_const (p_floats D) 0 \<and> spawned D W p)
    \<and> m_fEmissionResidue W' = (if m_iStatus W' = PoolAlive then rest else m_fEmissionResidue W)
    \<and> m_vPrevCenter W' = m_vCenter W \<and> m_vCenter W' = m_vCenter W \<and> m_Info W' = m_Info W"
proof -
  let ?F = "p_floats D"
  define A where "A = age_pool ?F dt W"
  have len: "unat (m_iAlive W) \<le> length (m_ParticlePool W)" "length (m_ParticlePool W) = 500"
    using assms(1) by (simp_all add: particles_ok_def LPARTICLE_MAXCNT_def)
  obtain ys alive where l: "aging_loop ?F (m_vCenter W) dt 0 (m_ParticlePool W) (m_iAlive W) = Some (ys, alive)" "length ys = 500"
      "unat alive \<le> unat (m_iAlive W)" "mset (take (unat alive) ys) = survivors ?F (m_vCenter W) dt (living W)"
    using aging_loop_correct[of 0 "m_iAlive W" "m_ParticlePool W" ?F "m_vCenter W" dt] len by (auto simp: segment_def living_def)
  define B where "B = A\<lparr>m_ParticlePool := ys, m_iAlive := alive\<rparr>"
  have B: "particles_ok B" "living B = take (unat alive) ys" "same_source B W" "m_iStatus B = m_iStatus A" "m_fEmissionResidue B = m_fEmissionResidue W"
    "m_vCenter B = m_vCenter W"
    using l(2,3) len by (simp_all add: B_def A_def particles_ok_def living_def same_source_def LPARTICLE_MAXCNT_def)
  have u: "particle_Update D dt W = map_option (\<lambda>W. W\<lparr>m_vPrevCenter := m_vCenter W\<rparr>)
      (if m_iStatus A = PoolAlive then map_option (\<lambda>(n, rest). emission_loop D (unat n) (B\<lparr>m_fEmissionResidue := rest\<rparr>)) (particles_due D dt W)
       else Some B)"
    using l(1) particles_due_cong[of B W D dt] B(3,5) by (simp add: particle_Update_def Let_def A_def B_def same_source_def)
  show ?thesis
  proof (cases "m_iStatus A = PoolAlive")
    case False
    let ?V = "B\<lparr>m_vPrevCenter := m_vCenter B\<rparr>"
    have "particle_Update D dt W = Some ?V" using u False by simp
    moreover have "particles_ok ?V" "living ?V = living B @ []" "m_iStatus ?V = m_iStatus A" "m_iStatus ?V \<noteq> PoolAlive" "m_Info ?V = m_Info W"
      using B False by (simp_all add: particles_ok_def living_def same_source_def)
    ultimately show ?thesis using B(2,5,6) l(4) unfolding A_def[symmetric]
      by (intro ex3I[of _ ?V "living B" "[]"]) simp
  next
    case True
    let ?B = "B\<lparr>m_fEmissionResidue := rest\<rparr>"
    have ok: "particles_ok ?B" "same_source ?B W" "living ?B = living B" using B(1,3) by (simp_all add: particles_ok_def same_source_def living_def)
    define E where "E = emission_loop D (unat n) ?B"
    obtain news where e: "living E = living ?B @ news" "length news = min (unat n) (LPARTICLE_MAXCNT - length (living ?B))"
        "particles_ok E" "same_source E ?B" "m_iStatus E = m_iStatus ?B" "m_fEmissionResidue E = rest" "\<forall>p \<in> set news. spawned D ?B p"
      using emission_loop_correct[OF ok(1), of D "unat n"] unfolding E_def by auto
    have "particle_Update D dt W = Some (E\<lparr>m_vPrevCenter := m_vCenter E\<rparr>)"
      using u True assms(2) unfolding A_def[symmetric] by (simp add: E_def)
    moreover have "\<forall>p \<in> set news. fAge p = l_const ?F 0 \<and> spawned D W p"
      using e(7) spawn_same[OF ok(2)] spawned_age unfolding spawned_def by metis
    moreover have "particles_ok (E\<lparr>m_vPrevCenter := m_vCenter E\<rparr>)" "living (E\<lparr>m_vPrevCenter := m_vCenter E\<rparr>) = living B @ news"
      "m_iStatus E = m_iStatus A" "m_Info E = m_Info W" "m_vCenter E = m_vCenter W" "length news = min (unat n) (LPARTICLE_MAXCNT - length (living B))"
      using e(1-5) ok(3) B(3,4,6) by (simp_all add: particles_ok_def living_def same_source_def)
    ultimately show ?thesis using e(6) True B(2) l(4) unfolding A_def[symmetric]
      by (intro ex3I[of _ "E\<lparr>m_vPrevCenter := m_vCenter E\<rparr>" "living B" news]) simp
  qed
qed

text \<open>
  Arithmetic that rounds: every operation is the one on real numbers followed by \<open>rnd\<close>.  What is used
  of rounding to nearest: it respects the order and keeps 0; the two parts of a rounded number before
  and after the point are not rounded again; and it moves a number from 0 to \<open>M\<close> by at most \<open>e\<close>.
  (For \<open>float\<close>, \<open>e\<close> is \<open>M / 2 ^ 25\<close> when \<open>M\<close> is a power of two.  Exact arithmetic is \<open>id\<close> and 0.)
  The conversion to an integer cuts off the part after the point where it is defined.
\<close>

definition rounded_particles :: "(real \<Rightarrow> real) \<Rightarrow> real \<Rightarrow> real \<Rightarrow> real particle_ops \<Rightarrow> bool" where
  "rounded_particles rnd e M D \<longleftrightarrow> l_add (p_floats D) = (\<lambda>x y. rnd (x + y)) \<and> l_sub (p_floats D) = (\<lambda>x y. rnd (x - y))
     \<and> l_mul (p_floats D) = (\<lambda>x y. rnd (x * y)) \<and> l_const (p_floats D) = (\<lambda>n. rnd (of_int n)) \<and> l_le (p_floats D) = (\<le>)
     \<and> p_of_u32 D = (\<lambda>n. rnd (real (unat n)))
     \<and> p_to_u32 D = (\<lambda>x. if - 1 < x \<and> x < 2 ^ 32 then Some (of_nat (nat \<lfloor>x\<rfloor>)) else None)
     \<and> (\<forall>x y. x \<le> y \<longrightarrow> rnd x \<le> rnd y) \<and> rnd 0 = 0 \<and> 0 \<le> e \<and> M \<le> 2 ^ 32
     \<and> (\<forall>x. 0 \<le> x \<longrightarrow> rnd (of_int \<lfloor>rnd x\<rfloor>) = of_int \<lfloor>rnd x\<rfloor> \<and> rnd (rnd x - of_int \<lfloor>rnd x\<rfloor>) = rnd x - of_int \<lfloor>rnd x\<rfloor>)
     \<and> (\<forall>x. 0 \<le> x \<and> x \<le> M \<longrightarrow> \<bar>rnd x - x\<bar> \<le> e)"

text \<open>The particles that are due in a sequence of updates, and the system after it.\<close>

primrec due_over :: "'f particle_ops \<Rightarrow> 'f list \<Rightarrow> 'f particle_pool \<Rightarrow> (nat \<times> 'f particle_pool) option" where
  "due_over D [] W = Some (0, W)"
| "due_over D (dt # ds) W = Option.bind (particles_due D dt W) (\<lambda>(n, rest). Option.bind (particle_Update D dt W)
     (\<lambda>W'. map_option (\<lambda>(k, W''). (unat n + k, W'')) (due_over D ds W')))"

definition emission_rate :: "real particle_pool \<Rightarrow> real" where
  "emission_rate W = real_of_int (nEmission (tParticleSystemInfo (m_Info W)))"

definition endless :: "real particle_pool \<Rightarrow> bool" where
  "endless W \<longleftrightarrow> particles_ok W \<and> m_iStatus W = PoolAlive \<and> fLifetime (tParticleSystemInfo (m_Info W)) < 0"

text \<open>A system that emits thirty particles in a second, on a device that rounds to 256ths.\<close>

definition grid :: "real \<Rightarrow> real" where
  "grid x = of_int \<lfloor>256 * x + 1 / 2\<rfloor> / 256"

definition grid_floats :: "real laser_floats" where
  "grid_floats = real_floats\<lparr>l_add := (\<lambda>x y. grid (x + y)), l_sub := (\<lambda>x y. grid (x - y)), l_mul := (\<lambda>x y. grid (x * y)),
     l_const := (\<lambda>n. grid (of_int n))\<rparr>"

lemma grid_fixed: "grid (of_int k / 256) = of_int k / 256"
proof -
  have "\<lfloor>256 * (real_of_int k / 256) + 1 / 2\<rfloor> = k" by linarith
  then show ?thesis by (simp add: grid_def)
qed

lemma grid_int [simp]: "grid (of_int k) = of_int k"
  using grid_fixed[of "256 * k"] by simp

lemma grid_numeral [simp]: "grid 0 = 0" "grid (numeral w) = numeral w" "grid 1 = 1"
  using grid_int[of 0] grid_int[of "numeral w"] grid_int[of 1] by simp_all

lemma grid_near: "\<bar>grid x - x\<bar> \<le> 1 / 512"
  unfolding grid_def by linarith

definition demo_info :: "real system_info" where
  "demo_info = \<lparr>iBlendInfo = 0x30000, nEmission = 30, fLifetime = -1, fParticleLifeMin = 1, fParticleLifeMax = 2, fDirection = 0, fSpread = 1,
     bRelative = False, fSpeedMin = 1, fSpeedMax = 2, fGravityMin = 0, fGravityMax = 0, fRadialAccelMin = 0, fRadialAccelMax = 0,
     fTangentialAccelMin = 0, fTangentialAccelMax = 0, fSizeStart = 1, fSizeEnd = 1, fSizeVar = 0, fSpinStart = 0, fSpinEnd = 0, fSpinVar = 0,
     colColorStart = (1, 1, 1, 1), colColorEnd = (0, 0, 0, 0), fColorVar = 0, fAlphaVar = 0\<rparr>"

definition demo_particles :: "real particle_ops" where
  "demo_particles = \<lparr>p_floats = grid_floats, p_next = id, p_fraction = (\<lambda>k. real (unat k) / 2 ^ 24),
     p_to_u32 = (\<lambda>x. if - 1 < x \<and> x < 2 ^ 32 then Some (of_nat (nat \<lfloor>x\<rfloor>)) else None), p_of_u32 = (\<lambda>n. grid (real (unat n))),
     p_to_u8 = (\<lambda>x. word_of_int \<lfloor>x\<rfloor>), p_cos = cos, p_sin = sin, p_half_pi = pi / 2, p_decode = (\<lambda>_. demo_info)\<rparr>"

definition demo_system :: "real particle_pool" where
  "demo_system = new_particle_pool real_floats (new_particle_resource real_floats demo_info) 7
     \<lparr>vecLocation = (0, 0), vecVelocity = (0, 0), fGravity = 0, fRadialAccel = 0, fTangentialAccel = 0, fSpin = 0, fSpinDelta = 0, fSize = 0,
      fSizeDelta = 0, colColor = (0, 0, 0, 0), colColorDelta = (0, 0, 0, 0), fAge = 0, fTerminalAge = 0\<rparr>"

lemma demo_particles_rounded: "rounded_particles grid (1 / 512) (2 ^ 32) demo_particles"
proof -
  have "grid x \<le> grid y" if "x \<le> y" for x y
  proof -
    have "\<lfloor>256 * x + 1 / 2\<rfloor> \<le> \<lfloor>256 * y + 1 / 2\<rfloor>" using that by (intro floor_mono) simp
    then show ?thesis by (simp add: grid_def divide_right_mono)
  qed
  moreover have "grid (grid x - of_int \<lfloor>grid x\<rfloor>) = grid x - of_int \<lfloor>grid x\<rfloor>" for x
    using grid_fixed[of "\<lfloor>256 * x + 1 / 2\<rfloor> - 256 * \<lfloor>grid x\<rfloor>"] by (simp add: grid_def diff_divide_distrib)
  ultimately show ?thesis using grid_near
    by (simp add: rounded_particles_def demo_particles_def grid_floats_def real_floats_def)
qed

lemma demo_system_facts: "endless demo_system" "m_fEmissionResidue demo_system = 0" "emission_rate demo_system = 30" "living demo_system = []"
  by (simp_all add: endless_def demo_system_def new_particle_pool_def new_particle_resource_def particle_SetSeed_def particles_ok_def
      emission_rate_def living_def LoadFromInfo_def demo_info_def real_floats_def Let_def)

text \<open>
  C37.  An update of a particle system.  Whatever the array holds, the loop that removes particles in
  place reads and writes inside the array and ends; every living particle is aged exactly once and
  is moved exactly when it has not reached its terminal age, and those are the ones that stay, each
  once though not in their order.  A system that is still active then appends new particles of age
  0, as many as are due or as there is room for; the count never exceeds 500 and the center is
  remembered.
\<close>

theorem particles_updated:
  assumes "particles_ok W" "m_iStatus (age_pool (p_floats D) dt W) = PoolAlive \<Longrightarrow> particles_due D dt W = Some (n, rest)"
  shows "\<exists>W' old news. particle_Update D dt W = Some W' \<and> particles_ok W' \<and> living W' = old @ news
    \<and> mset old = survivors (p_floats D) (m_vCenter W) dt (living W)
    \<and> m_iStatus W' = m_iStatus (age_pool (p_floats D) dt W)
    \<and> length news = (if m_iStatus W' = PoolAlive then min (unat n) (LPARTICLE_MAXCNT - length old) else 0)
    \<and> (\<forall>p \<in> set news. fAge p = l_const (p_floats D) 0 \<and> spawned D W p)
    \<and> m_fEmissionResidue W' = (if m_iStatus W' = PoolAlive then rest else m_fEmissionResidue W)
    \<and> m_vPrevCenter W' = m_vCenter W \<and> m_vCenter W' = m_vCenter W \<and> m_Info W' = m_Info W"
  by (rule update_effect[OF assms])

theorem particles_updated_witness: "\<exists>W'. particle_Update demo_particles (1 / 10) demo_system = Some W' \<and> length (living W') = 3"
proof -
  have due: "particles_due demo_particles (1 / 10) demo_system = Some (3, 0)"
    using demo_system_facts(2,3) by (simp add: particles_due_def demo_particles_def grid_floats_def real_floats_def emission_rate_def Let_def)
  have ok: "particles_ok demo_system" using demo_system_facts(1) by (simp add: endless_def)
  have a: "m_iStatus (age_pool (p_floats demo_particles) (1 / 10) demo_system) = PoolAlive"
    using demo_system_facts(1) by (simp add: age_pool_def endless_def demo_particles_def grid_floats_def real_floats_def Let_def)
  from particles_updated[OF ok due] show ?thesis using a demo_system_facts(4)
    by (auto simp: survivors_def LPARTICLE_MAXCNT_def)
qed

subsection \<open>Emission over time\<close>

lemma due_rounded:
  assumes "rounded_particles rnd e M D" "rnd (emission_rate W) = emission_rate W" "0 \<le> m_fEmissionResidue W" "m_fEmissionResidue W < 1"
    "0 \<le> emission_rate W * dt" "emission_rate W * dt + 2 * e + 1 \<le> M"
  shows "\<exists>n rest. particles_due D dt W = Some (n, rest) \<and> 0 \<le> rest \<and> rest < 1
    \<and> \<bar>real (unat n) + rest - (m_fEmissionResidue W + emission_rate W * dt)\<bar> \<le> 2 * e"
proof -
  note D = assms(1)[unfolded rounded_particles_def]
  let ?p = "emission_rate W * dt"
  let ?s = "rnd ?p + m_fEmissionResidue W"
  let ?x = "rnd ?s"
  have near: "\<bar>rnd x - x\<bar> \<le> e" if "0 \<le> x" "x \<le> M" for x using D that by blast
  have pos: "0 \<le> rnd x" if "0 \<le> x" for x
  proof -
    have "rnd 0 \<le> rnd x" using D that by blast
    then show ?thesis using D by simp
  qed
  have "0 \<le> e" using D by blast
  have p: "\<bar>rnd ?p - ?p\<bar> \<le> e" "0 \<le> rnd ?p" using near[of ?p] pos assms(5,6) \<open>0 \<le> e\<close> by simp_all
  have s: "0 \<le> ?s" "?s < M - e" using p assms(3,4,6) by linarith+
  then have x: "\<bar>?x - ?s\<bar> \<le> e" "0 \<le> ?x" using near[of ?s] pos \<open>0 \<le> e\<close> by simp_all
  moreover have "M \<le> 2 ^ 32" using D by blast
  ultimately have b: "?x < 2 ^ 32" "- 1 < ?x" using s by linarith+
  then have "nat \<lfloor>?x\<rfloor> < 2 ^ 32" using x(2) by (simp add: nat_less_iff floor_less_iff)
  then have u: "unat (of_nat (nat \<lfloor>?x\<rfloor>) :: u32) = nat \<lfloor>?x\<rfloor>" by (simp add: unat_of_nat take_bit_nat_eq_self)
  have r: "real (nat \<lfloor>?x\<rfloor>) = of_int \<lfloor>?x\<rfloor>" using x(2) by (simp add: of_nat_nat)
  have F: "l_add (p_floats D) = (\<lambda>x y. rnd (x + y))" "l_sub (p_floats D) = (\<lambda>x y. rnd (x - y))" "l_mul (p_floats D) = (\<lambda>x y. rnd (x * y))"
    "l_const (p_floats D) (nEmission (tParticleSystemInfo (m_Info W))) = emission_rate W"
    "p_of_u32 D = (\<lambda>n. rnd (real (unat n)))" "p_to_u32 D ?x = Some (of_nat (nat \<lfloor>?x\<rfloor>))"
    "rnd (of_int \<lfloor>?x\<rfloor>) = of_int \<lfloor>?x\<rfloor>" "rnd (?x - of_int \<lfloor>?x\<rfloor>) = ?x - of_int \<lfloor>?x\<rfloor>"
    using D assms(2) b s(1) by (simp_all add: emission_rate_def)
  have "particles_due D dt W = Some (of_nat (nat \<lfloor>?x\<rfloor>), ?x - of_int \<lfloor>?x\<rfloor>)"
    unfolding particles_due_def Let_def F(1-4) F(6) option.map F(5) u r F(7,8) by simp
  moreover have "0 \<le> ?x - of_int \<lfloor>?x\<rfloor>" "?x - of_int \<lfloor>?x\<rfloor> < 1" by linarith+
  moreover have "\<bar>real (unat (of_nat (nat \<lfloor>?x\<rfloor>) :: u32)) + (?x - of_int \<lfloor>?x\<rfloor>) - (m_fEmissionResidue W + ?p)\<bar> \<le> 2 * e"
    unfolding u r using p(1) x(1) by linarith
  ultimately show ?thesis by blast
qed

lemma endless_update:
  assumes "rounded_particles rnd e M D" "endless W" "particles_due D dt W = Some (n, rest)"
  shows "\<exists>W'. particle_Update D dt W = Some W' \<and> endless W' \<and> m_fEmissionResidue W' = rest \<and> emission_rate W' = emission_rate W"
proof -
  have a: "m_iStatus (age_pool (p_floats D) dt W) = PoolAlive"
    using assms(1,2) by (simp add: age_pool_def endless_def rounded_particles_def Let_def)
  have "particles_ok W" using assms(2) by (simp add: endless_def)
  from update_effect[OF this assms(3)] obtain W' where "particle_Update D dt W = Some W'" "particles_ok W'"
      "m_iStatus W' = m_iStatus (age_pool (p_floats D) dt W)"
      "m_fEmissionResidue W' = (if m_iStatus W' = PoolAlive then rest else m_fEmissionResidue W)" "m_Info W' = m_Info W" by blast
  then show ?thesis using a assms(2) by (simp add: endless_def emission_rate_def)
qed

text \<open>
  C38.  No fraction of a particle is lost but by rounding.  Take an active system without a lifetime,
  whose residue is at least 0 and below 1 and whose rate is a number the floats have, and any
  sequence of updates none of which alone makes \<open>M\<close> or more particles due.  Then the numbers of particles due,
  added up, with the residue at the end differ from the rate times the whole time with the residue
  at the start by at most two roundings for each update, and the residue is again in that range:
  cutting off the particles that are due loses nothing and never adds to the error.  In exact
  arithmetic the number due is that amount rounded down.
\<close>

theorem emission_kept:
  assumes "rounded_particles rnd e M D" "endless W" "rnd (emission_rate W) = emission_rate W"
    and "0 \<le> m_fEmissionResidue W" "m_fEmissionResidue W < 1"
    and "\<forall>dt \<in> set ds. 0 \<le> emission_rate W * dt \<and> emission_rate W * dt + 2 * e + 1 \<le> M"
  shows "\<exists>total W'. due_over D ds W = Some (total, W') \<and> 0 \<le> m_fEmissionResidue W' \<and> m_fEmissionResidue W' < 1
    \<and> \<bar>real total + m_fEmissionResidue W' - (m_fEmissionResidue W + emission_rate W * sum_list ds)\<bar> \<le> 2 * e * length ds
    \<and> (e = 0 \<longrightarrow> int total = \<lfloor>m_fEmissionResidue W + emission_rate W * sum_list ds\<rfloor>)"
proof -
  have "\<exists>total W'. due_over D ds W = Some (total, W') \<and> 0 \<le> m_fEmissionResidue W' \<and> m_fEmissionResidue W' < 1
    \<and> \<bar>real total + m_fEmissionResidue W' - (m_fEmissionResidue W + emission_rate W * sum_list ds)\<bar> \<le> 2 * e * length ds"
    using assms(2-6)
  proof (induction ds arbitrary: W)
    case (Cons dt ds)
    obtain n rest where n: "particles_due D dt W = Some (n, rest)" "0 \<le> rest" "rest < 1"
        "\<bar>real (unat n) + rest - (m_fEmissionResidue W + emission_rate W * dt)\<bar> \<le> 2 * e"
      using due_rounded[OF assms(1) Cons.prems(2-4), of dt] Cons.prems(5) by auto
    obtain W1 where W1: "particle_Update D dt W = Some W1" "endless W1" "m_fEmissionResidue W1 = rest" "emission_rate W1 = emission_rate W"
      using endless_update[OF assms(1) Cons.prems(1) n(1)] by blast
    obtain k W' where k: "due_over D ds W1 = Some (k, W')" "0 \<le> m_fEmissionResidue W'" "m_fEmissionResidue W' < 1"
        "\<bar>real k + m_fEmissionResidue W' - (rest + emission_rate W * sum_list ds)\<bar> \<le> 2 * e * length ds"
      using Cons.IH[OF W1(2)] W1(3,4) n(2,3) Cons.prems(2,5) by auto
    have "\<bar>real (unat n + k) + m_fEmissionResidue W' - (m_fEmissionResidue W + emission_rate W * sum_list (dt # ds))\<bar>
        \<le> 2 * e * length (dt # ds)"
      using n(4) k(4) by (simp add: distrib_left)
    then show ?case using n(1) W1(1) k(1-3) by (intro exI[of _ "unat n + k"] exI[of _ W']) simp
  qed simp
  then obtain total W' where t: "due_over D ds W = Some (total, W')" "0 \<le> m_fEmissionResidue W'" "m_fEmissionResidue W' < 1"
      "\<bar>real total + m_fEmissionResidue W' - (m_fEmissionResidue W + emission_rate W * sum_list ds)\<bar> \<le> 2 * e * length ds" by blast
  moreover have "int total = \<lfloor>m_fEmissionResidue W + emission_rate W * sum_list ds\<rfloor>" if "e = 0"
    using t(2-4) that by (simp add: eq_commute[of "int total"] floor_eq_iff)
  ultimately show ?thesis by blast
qed

theorem emission_kept_witness: "\<exists>W'. due_over demo_particles [1 / 100, 1 / 100, 1 / 100, 1 / 100] demo_system = Some (1, W')"
proof -
  have rate: "grid (emission_rate demo_system) = emission_rate demo_system" using demo_system_facts(3) by simp
  obtain total W' where "due_over demo_particles [1 / 100, 1 / 100, 1 / 100, 1 / 100] demo_system = Some (total, W')"
      "0 \<le> m_fEmissionResidue W'" "m_fEmissionResidue W' < 1" "\<bar>real total + m_fEmissionResidue W' - 6 / 5\<bar> \<le> 8 / 512"
    using emission_kept[OF demo_particles_rounded demo_system_facts(1) rate, of "[1 / 100, 1 / 100, 1 / 100, 1 / 100]"]
      demo_system_facts(2,3) by auto
  moreover from this have "real total < 2" "0 < real total" by linarith+
  then have "total = 1" by simp
  ultimately show ?thesis by blast
qed

end
