(* ===== verification/Spec2Isabelle.thy ===== *)
theory Spec2Isabelle
  imports CollectionsCorrect FrameCorrect RandomCorrect ResourceCorrect DatCorrect FileSystemsCorrect UtfCorrect TextCorrect
    MessageQueueCorrect BentLaserTypes LaserDrawing Well512Correct ParticleCorrect
begin

text \<open>
  LuaSTG Retro: a verification of the engine's core.

  LuaSTG Retro is a two-dimensional game engine in C++ whose games are scripts.  This library models
  the parts of it that are the engine's own logic, translated definition by definition from the
  source under \<open>src/\<close>, and proves what they promise.

  The parts and how they interact.  A frame of the game runs the object manager: it moves the game
  objects, releases those that are dead, checks the border of the world and the intersections of
  groups, and renders the objects in the order of their layers.  Scripts are called back from these
  loops and change the objects meanwhile.  Objects draw resources, which live in named pools that the
  resource manager searches; a background thread loads resources for it.  Files come from mounted
  file systems, one kind of which is the encrypted DAT archive.  Text is drawn with glyphs that a
  cache places on textures.  Bent lasers are strips of nodes in a ring buffer, drawn as a mesh.
  Everything drawn goes through a renderer that collects primitives and draws them in batches.

  Which theory models what.  Paths are under \<open>src/\<close>.

  \<^item> \<open>Prelude\<close>: the widths of the machine integers, \<open>assert_that\<close>, folds that may fail, modular
    indices, and the collections of facts (\<open>named_theorems\<close>) that the components fill.
  \<^item> \<open>Collections\<close>, \<open>CollectionsCorrect\<close>: \<open>engine/collection/core\<close>, the ring buffer
    \<open>FixedCircularQueue\<close> (\<open>fixed_circular_queue\<close>) and the slot pool \<open>FixedObjectPool\<close> (\<open>object_pool\<close>).  The
    locales \<open>bounded_deque\<close> and \<open>slot_allocator\<close> state what they promise their clients.
  \<^item> \<open>MessageQueue\<close>, \<open>MessageQueueCorrect\<close>: \<open>FixedLengthMessageQueue.hpp\<close>.  A step is one
    operation on the semaphores, counters or the array; any number of threads interleave.
  \<^item> \<open>ObjectList\<close>, \<open>RenderOrder\<close>, \<open>GameObject\<close>, \<open>GameObjectPool\<close>: \<open>LuaSTG/LuaSTG/GameObject\<close>, the
    intrusive lists, the ordered render set, one object, and the manager \<open>GameObjectPool\<close> with its
    lists, groups, layers, border, frames and callbacks.  \<open>Float64\<close> is the order of C++ doubles, NaN and
    the two zeros included.  \<open>PoolInvariant\<close> states that the update list, the collision lists, the
    render set and the slot flags describe one set of objects; \<open>PoolOperations\<close>, \<open>PoolFrames\<close>,
    \<open>PoolLoops\<close> and \<open>PoolPhases\<close> show that each operation and each loop keeps it whatever the scripts
    do; \<open>PoolCorrect\<close> and \<open>FrameCorrect\<close> hold the properties.  Locales: \<open>object_chain\<close>, \<open>object_order\<close>.
  \<^item> \<open>BentLaser\<close> and the theories named after it: \<open>GameObjectBentLaser.cpp\<close>.  \<open>BentLaserNodes\<close> works over
    the interpretation of \<open>bounded_deque\<close> on the ring buffer, so that every operation is one on the
    list of nodes; \<open>BentLaserShape\<close> is the invariant, \<open>BentLaserCorrect\<close> movement and length,
    \<open>BentLaserSampling\<close> sampling and the mesh, \<open>BentLaserTypes\<close> that no operation leaves the well-formed
    states.
  \<^item> \<open>RandomWords\<close>, \<open>XorEngine\<close>, \<open>Xorshift\<close>, \<open>Xoroshiro1024\<close>, \<open>BoundedRand\<close>, \<open>TextStream\<close>:
    \<open>LuaSTG/LuaSTG/Utility/xorshift.hpp\<close>, every family with seeding, drawing, jumps and saved states.  The
    locale \<open>xor_engine\<close> is the linearity that jumps rest on; \<open>XorshiftLaws\<close> interprets it for each family.
    \<open>Well512\<close>, \<open>Well512Correct\<close>: \<open>Utility/well512.cpp\<close>, the generator scripts draw from, with the choice
    of integers in \<open>LuaBinding/modern/Well512.cpp\<close>.
  \<^item> \<open>ParticleSystem\<close>, \<open>ParticleCorrect\<close>: \<open>ResourceParticleImpl.cpp\<close>, the array of particles that is aged in
    place and filled up by emission.
  \<^item> \<open>AsyncLoader\<close>, \<open>AsyncThreads\<close>: \<open>AsyncResourceLoader.cpp\<close>, a step relation of the worker and the main
    thread in which each method that holds the mutex is one step.  \<open>AsyncInvariant\<close>, \<open>AsyncMain\<close>,
    \<open>AsyncCorrect\<close>: by rule induction over its runs.
  \<^item> \<open>ResourcePool\<close>, \<open>ResourceManager\<close>: \<open>ResourcePool.cpp\<close> and \<open>ResourceManager.cpp\<close>.  The locale
    \<open>pool_loading\<close> is what every load function of a pool keeps; it is interpreted for each of them.
    \<open>ResourceEngine\<close> composes manager and loader: everything the engine does with both, in any order.
  \<^item> \<open>DatCodec\<close>, \<open>DatArchive\<close>, \<open>DatCreator\<close>: \<open>DATArchiveEncryption.hpp\<close> and \<open>FileSystemDATArchive.cpp\<close> on
    bytes: the key stream, the records, loading with its checks, reading, writing.  \<open>DatLayout\<close> and
    \<open>DatWritten\<close> follow what the creator writes to where it is read.
  \<^item> \<open>FileSystems\<close>: \<open>FileSystemManager.cpp\<close>.  The locale \<open>file_system\<close> is the interface
    \<open>IFileSystem\<close>, interpreted on DAT archives.
  \<^item> \<open>Utf\<close>: \<open>engine/utility/utility/utf.hpp\<close>, the readers against the standard encoders.
  \<^item> \<open>GlyphCache\<close>, \<open>GlyphAtlas\<close>, \<open>GlyphCorrect\<close>: \<open>FreeTypeGlyphManager.cpp\<close>, textures pixel by pixel.
  \<^item> \<open>TextDraw\<close>, \<open>TextCorrect\<close>: \<open>TextRenderer.cpp\<close>, measuring and drawing as the list of quads, against a
    layout written out from the metrics of FreeType: the place of each character in the text gives its
    line and pen, and those the corners of its quad.
  \<^item> \<open>Renderer\<close>: \<open>LuaSTG/Core/Graphics/Renderer_D3D11.cpp\<close>.  The state is the draw list, the recorded
    states and the calls made on the device context.  \<open>RendererDevice\<close> says what those calls do, as far
    as the renderer uses it, and defines the renderer that draws everything at once.  \<open>RendererLists\<close> to
    \<open>RendererSession\<close> relate the two through every operation; \<open>LaserDrawing\<close> is \<open>Render\<close> of a bent
    laser through the renderer, with the blend modes of \<open>LegacyBlendStateHelper.hpp\<close>, against the triangles
    it should give.

  How the code is read.  Pointers to game objects are slot numbers and \<open>nullptr\<close> is \<open>None\<close>.  A failed
  \<open>assert\<close>, an access outside an array and other undefined behaviour are \<open>None\<close> as a result, so a theorem
  that gives a result also says that none of them happens.  Errors that the code returns are values.
  Integers have the width of the code wherever it matters: the 16-bit counts of the renderer, 64-bit
  sizes in \<open>size_t\<close> differences, 32-bit stream offsets and code points, all words of the generators.

  Parameters and hypotheses.  Floating-point operations and the functions of \<open>cmath\<close> are parameters of
  the definitions that use them; only comparison of doubles is defined.  Two properties of lasers, the
  recorded length and sampling, hold in exact arithmetic only, which \<open>exact_arithmetic\<close> says; emission
  of particles is stated for arithmetic that rounds, with the error it adds.  Scripts are functions in
  an environment, and what a frame promises assumes a contract of them.  Scripts called while objects
  move, leave the world or touch may create objects and change the data of objects; they
  release none (marking an object dead is a change of its data), register no callbacks and do not
  set the border or the super pause, and the unique ids must not run out while the pool fills
  (\<open>uid_room\<close>; \<open>allocate_extends\<close> shows that a script that allocates keeps the contract).  Scripts
  called by \<open>render\<close> create and release none and keep the order of drawing.  Callbacks registered
  with the manager act on the state outside the pool.  FreeType, the decoders, zlib with the CRC, lexical path normalisation, the collision
  test of xmath and the devices that build resources are parameters.  For the renderer, \<open>device_ok\<close>
  names what is relied on: every \<open>Map\<close> succeeds, numbers that compare equal are the same (a change
  from \<open>0.0\<close> to \<open>-0.0\<close> is not uploaded), and different textures have different views; textures keep
  their sampler and alpha type while a batch is open.  \<open>fresh_gpu\<close> says that the buffers have not been
  used before.  Each property with a hypothesis has a witness that meets it on concrete data.

  Loops and bounds.  Most loops are structural.  Those that need not end are partial functions whose
  result is \<open>None\<close> when they do not: sampling a laser, placing a bitmap, the passes over textures,
  popping nodes, walking a list.  That they end is proved where it holds (placing ends unless a bitmap
  is 1022 pixels on its longer side; sampling ends exactly for positive steps; a frame ends although
  its scripts create objects).  The worker of the loader takes at most 12 steps for each queued job and 10 more.  A
  glyph cache has fewer than \<open>2 ^ 32\<close> textures.  A laser has at most 512 nodes, so its mesh fits the
  32768 vertices and indices of a draw list; with 16-bit counts a command cannot overflow because the
  whole list holds fewer than \<open>2 ^ 16\<close> vertices.

  What the properties show.  For the object manager: allocation, release, every phase of a frame and
  the render order.  For the loader and the resource manager: no job is lost, cancelling is final,
  the worker drains its queue, ids are not reused, loads deliver what was asked.  For archives and
  file systems: what is written is read back, any bytes load to something safe, resolution is a
  search.  (The public \<open>open\<close> of an archive refuses every stream, so only \<open>load\<close> reads one back.)  For text: readers, glyphs and layout.  For the containers: refinement of lists.  For the
  generators: the ring of xoroshiro1024, unbiased bounded draws, saved states, a state that never becomes zero.  For lasers: movement, length, sampling
  and well-formedness.  For particles: an update ages each once and keeps the right ones, and emission
  loses no fraction of a particle but by rounding.  For the renderer: batching shows the same as drawing at once, a laser
  drawn in a batch is seen as its mesh, and what happens after the device refuses.

  Not modelled.  Direct3D devices, swap chains, three-dimensional models and post effects are
  sequences of system calls; the same holds for windows, input, audio, video, DirectWrite, the
  clipboard, the file system watcher and the platform services.  The script bindings convert Lua
  values and call the operations modelled here.  Image, sound and zip formats are read by third-party
  libraries.  Drawing for debugging, logging, and members that are only stored and returned are left
  out.  Vendored code and generated shaders are not the program's.
\<close>

end
